(* ===== verification/Fumox_Prelude.thy ===== *)
theory Fumox_Prelude
  imports Main "HOL-Library.Word" "HOL-Library.Char_ord" "HOL-Library.List_Lexorder"
    "HOL-Library.Product_Lexorder" "HOL-Library.Sublist" "HOL-Library.Multiset"
begin

text \<open>
  The vocabulary every component shares. A Rust \<open>String\<close> or \<open>&str\<close> is the list of its UTF-8
  bytes (\<open>string\<close>, a \<open>char list\<close> with eight-bit characters), so \<open>length\<close> is \<open>str::len\<close> and
  the derived order is Rust's byte-wise order. The functions below translate the string methods of
  Rust's standard library that the source calls: ASCII case folding, searching and splitting on a
  character, \<open>str::trim\<close> (Unicode white space, in its UTF-8 encodings), \<open>str::lines\<close>, decimal
  and hexadecimal printing and \<open>parse\<close> of unsigned integers. Every definition computes.
  The collections \<open>str_simps\<close> (equations of these functions) and \<open>chars\<close> (facts on which
  characters a printed text holds) carry the component proofs.
\<close>

named_theorems str_simps
named_theorems chars

type_synonym u8 = "8 word"
type_synonym u16 = "16 word"

section \<open>Characters\<close>

abbreviation LF :: char where "LF \<equiv> CHR 0x0A"
abbreviation CR :: char where "CR \<equiv> CHR 0x0D"
abbreviation TAB :: char where "TAB \<equiv> CHR 0x09"
abbreviation DQUOTE :: char where "DQUOTE \<equiv> CHR 0x22"
abbreviation SQUOTE :: char where "SQUOTE \<equiv> CHR 0x27"

definition code :: "char \<Rightarrow> nat" where
  "code c = of_char c"

lemma code_inj [simp]: "code a = code b \<longleftrightarrow> a = b"
  by (simp add: code_def)

lemma code_less_256 [simp]: "code c < 256"
  by (simp add: code_def)

lemma char_of_code [simp]: "char_of (code c) = c"
  by (simp add: code_def)

lemma code_char_of [simp]: "code (char_of n) = n mod 256"
  by (simp add: code_def)

definition is_digit :: "char \<Rightarrow> bool" where
  "is_digit c \<longleftrightarrow> 48 \<le> code c \<and> code c \<le> 57"

definition is_upper :: "char \<Rightarrow> bool" where
  "is_upper c \<longleftrightarrow> 65 \<le> code c \<and> code c \<le> 90"

definition is_lower :: "char \<Rightarrow> bool" where
  "is_lower c \<longleftrightarrow> 97 \<le> code c \<and> code c \<le> 122"

text \<open>\<open>u8::is_ascii_alphanumeric\<close>.\<close>

definition is_ascii_alphanumeric :: "char \<Rightarrow> bool" where
  "is_ascii_alphanumeric c \<longleftrightarrow> is_digit c \<or> is_upper c \<or> is_lower c"

section \<open>ASCII case\<close>

definition ascii_lower :: "char \<Rightarrow> char" where
  "ascii_lower c = (if is_upper c then char_of (code c + 32) else c)"

definition ascii_upper :: "char \<Rightarrow> char" where
  "ascii_upper c = (if is_lower c then char_of (code c - 32) else c)"

definition to_ascii_uppercase :: "string \<Rightarrow> string" where
  "to_ascii_uppercase s = map ascii_upper s"

definition to_ascii_lowercase :: "string \<Rightarrow> string" where
  "to_ascii_lowercase s = map ascii_lower s"

definition eq_ignore_ascii_case :: "string \<Rightarrow> string \<Rightarrow> bool" where
  "eq_ignore_ascii_case a b \<longleftrightarrow> to_ascii_lowercase a = to_ascii_lowercase b"

lemma ascii_lower_idem [simp]: "ascii_lower (ascii_lower c) = ascii_lower c"
  by (simp add: ascii_lower_def is_upper_def)

lemma to_ascii_lowercase_idem [simp]:
  "to_ascii_lowercase (to_ascii_lowercase s) = to_ascii_lowercase s"
  by (simp add: to_ascii_lowercase_def)

lemma to_ascii_lowercase_simps [str_simps, simp]:
  "to_ascii_lowercase [] = []"
  "to_ascii_lowercase (c # s) = ascii_lower c # to_ascii_lowercase s"
  "to_ascii_lowercase (s @ t) = to_ascii_lowercase s @ to_ascii_lowercase t"
  by (simp_all add: to_ascii_lowercase_def)

lemma length_to_ascii_lowercase [simp]: "length (to_ascii_lowercase s) = length s"
  by (simp add: to_ascii_lowercase_def)

lemma to_ascii_lowercase_eq_Nil [simp]: "to_ascii_lowercase s = [] \<longleftrightarrow> s = []"
  by (simp add: to_ascii_lowercase_def)

lemma ascii_lower_eq_nonalpha:
  assumes "\<not> is_lower d"
  shows "ascii_lower c = d \<longleftrightarrow> c = d \<and> \<not> is_upper d"
proof (cases "is_upper c")
  case True
  then have "code (char_of (code c + 32) :: char) = code c + 32"
    by (simp add: is_upper_def)
  with True assms show ?thesis
    by (auto simp: ascii_lower_def is_upper_def is_lower_def)
qed (auto simp: ascii_lower_def)

lemma to_ascii_lowercase_mem:
  assumes "\<not> is_lower d" and "\<not> is_upper d"
  shows "d \<in> set (to_ascii_lowercase s) \<longleftrightarrow> d \<in> set s"
proof -
  have "d = ascii_lower c \<longleftrightarrow> d = c" for c
    using assms ascii_lower_eq_nonalpha [of d c] by metis
  then show ?thesis by (auto simp: to_ascii_lowercase_def image_iff)
qed

section \<open>Splitting and searching\<close>

text \<open>\<open>str::split_once(c)\<close> and \<open>str::rsplit_once(c)\<close>: cut at the first and at the last \<open>c\<close>.\<close>

fun split_once :: "char \<Rightarrow> string \<Rightarrow> (string \<times> string) option" where
  "split_once d [] = None"
| "split_once d (c # s) =
     (if c = d then Some ([], s)
      else map_option (\<lambda>(a, b). (c # a, b)) (split_once d s))"

fun rsplit_once :: "char \<Rightarrow> string \<Rightarrow> (string \<times> string) option" where
  "rsplit_once d [] = None"
| "rsplit_once d (c # s) =
     (case rsplit_once d s of
        Some (a, b) \<Rightarrow> Some (c # a, b)
      | None \<Rightarrow> if c = d then Some ([], s) else None)"

text \<open>\<open>str::split(c)\<close>: the pieces between the separators, always at least one.\<close>

fun split_on :: "char \<Rightarrow> string \<Rightarrow> string list" where
  "split_on d [] = [[]]"
| "split_on d (c # s) =
     (if c = d then [] # split_on d s
      else (case split_on d s of [] \<Rightarrow> [[c]] | p # ps \<Rightarrow> (c # p) # ps))"

text \<open>\<open>[String]::join(sep)\<close>.\<close>

fun join :: "string \<Rightarrow> string list \<Rightarrow> string" where
  "join sep [] = []"
| "join sep [s] = s"
| "join sep (s # t # ts) = s @ sep @ join sep (t # ts)"

text \<open>\<open>str::contains(pat)\<close> and \<open>str::strip_prefix(pat)\<close> for a string pattern.\<close>

fun contains_str :: "string \<Rightarrow> string \<Rightarrow> bool" where
  "contains_str p [] = (p = [])"
| "contains_str p (c # s) = (prefix p (c # s) \<or> contains_str p s)"

definition strip_prefix :: "string \<Rightarrow> string \<Rightarrow> string option" where
  "strip_prefix p s = (if prefix p s then Some (drop (length p) s) else None)"

definition strip_suffix :: "string \<Rightarrow> string \<Rightarrow> string option" where
  "strip_suffix p s = (if suffix p s then Some (take (length s - length p) s) else None)"

text \<open>\<open>str::split_once\<close> for a string pattern.\<close>

fun split_once_str :: "string \<Rightarrow> string \<Rightarrow> (string \<times> string) option" where
  "split_once_str p [] = (if p = [] then Some ([], []) else None)"
| "split_once_str p (c # s) =
     (if prefix p (c # s) then Some ([], drop (length p) (c # s))
      else map_option (\<lambda>(a, b). (c # a, b)) (split_once_str p s))"

lemma split_once_None [simp]: "split_once d s = None \<longleftrightarrow> d \<notin> set s"
  by (induction s) auto

lemma split_once_Some:
  "split_once d s = Some (a, b) \<longleftrightarrow> s = a @ d # b \<and> d \<notin> set a"
proof (induction s arbitrary: a)
  case Nil
  then show ?case by simp
next
  case (Cons c s)
  then show ?case by (cases a) (auto simp: Cons.IH)
qed

lemma split_once_append [str_simps]: "d \<notin> set a \<Longrightarrow> split_once d (a @ d # b) = Some (a, b)"
  by (simp add: split_once_Some)

lemma rsplit_once_None [simp]: "rsplit_once d s = None \<longleftrightarrow> d \<notin> set s"
  by (induction s) (auto split: option.splits)

lemma rsplit_once_Some:
  "rsplit_once d s = Some (a, b) \<longleftrightarrow> s = a @ d # b \<and> d \<notin> set b"
proof (induction s arbitrary: a b)
  case Nil
  then show ?case by simp
next
  case (Cons c s)
  show ?case
  proof (cases "rsplit_once d s")
    case None
    then have "d \<notin> set s" by simp
    with None show ?thesis by (cases a) (auto simp del: rsplit_once_None)
  next
    case (Some p)
    then obtain x y where p: "rsplit_once d s = Some (x, y)" by (cases p) auto
    with Cons.IH have s: "s = x @ d # y" "d \<notin> set y" by auto
    have "x @ d # y = u @ d # w \<and> d \<notin> set w \<longleftrightarrow> x = u \<and> y = w" for u w
      using Cons.IH [of u w] p s by auto
    with p s show ?thesis by (cases a) auto
  qed
qed

lemma rsplit_once_append [str_simps]: "d \<notin> set b \<Longrightarrow> rsplit_once d (a @ d # b) = Some (a, b)"
  by (simp add: rsplit_once_Some)

lemma split_on_not_Nil [simp]: "split_on d s \<noteq> []"
  by (induction s) (auto split: list.splits)

lemma split_on_pieces: "p \<in> set (split_on d s) \<Longrightarrow> d \<notin> set p"
  by (induction s arbitrary: p) (auto split: list.splits if_splits)

lemma split_on_piece_chars: "p \<in> set (split_on d s) \<Longrightarrow> set p \<subseteq> set s"
  by (induction s arbitrary: p) (fastforce split: list.splits if_splits)+

lemma split_on_single [str_simps]: "d \<notin> set s \<Longrightarrow> split_on d s = [s]"
  by (induction s) auto

lemma split_on_append [str_simps]:
  "d \<notin> set a \<Longrightarrow> split_on d (a @ d # b) = a # split_on d b"
  by (induction a) auto

lemma join_split_on [simp]: "join [d] (split_on d s) = s"
proof (induction s)
  case Nil
  then show ?case by simp
next
  case (Cons c s)
  then show ?case by (cases "split_on d s"; cases "tl (split_on d s)") auto
qed

lemma split_on_join:
  "ps \<noteq> [] \<Longrightarrow> (\<And>p. p \<in> set ps \<Longrightarrow> d \<notin> set p) \<Longrightarrow> split_on d (join [d] ps) = ps"
proof (induction ps rule: induct_list012)
  case (3 p q ps)
  have "split_on d (p @ d # join [d] (q # ps)) = p # split_on d (join [d] (q # ps))"
    by (rule split_on_append) (simp add: "3.prems")
  also have "split_on d (join [d] (q # ps)) = q # ps"
    by (rule "3.IH") (simp_all add: "3.prems")
  finally show ?case by simp
qed (simp_all add: str_simps)

lemma split_on_append_gen:
  "split_on d (a @ d # b) = split_on d a @ split_on d b"
proof (induction a)
  case (Cons c a)
  then show ?case by (cases "split_on d a") auto
qed simp

lemma join_eq_Nil: "(\<And>p. p \<in> set ps \<Longrightarrow> p \<noteq> []) \<Longrightarrow> join sep ps = [] \<longleftrightarrow> ps = []"
  by (induction ps rule: induct_list012) auto

lemma set_join: "set (join sep ps) \<subseteq> \<Union> (set ` set ps) \<union> set sep"
  by (induction ps rule: induct_list012) auto

lemma contains_str_iff: "contains_str p s \<longleftrightarrow> (\<exists>a b. s = a @ p @ b)"
proof (induction s)
  case Nil
  then show ?case by auto
next
  case (Cons c s)
  show ?case
  proof
    assume "contains_str p (c # s)"
    then consider "prefix p (c # s)" | "contains_str p s" by auto
    then show "\<exists>a b. c # s = a @ p @ b"
    proof cases
      case 1
      then show ?thesis by (metis append_Nil prefixE)
    next
      case 2
      with Cons.IH show ?thesis by (metis append_Cons)
    qed
  next
    assume "\<exists>a b. c # s = a @ p @ b"
    then obtain a b where ab: "c # s = a @ p @ b" by blast
    show "contains_str p (c # s)"
    proof (cases a)
      case Nil
      with ab show ?thesis by (metis append_Nil contains_str.simps(2) prefixI)
    next
      case (Cons x a')
      with ab have "s = a' @ p @ b" by simp
      with Cons.IH show ?thesis by auto
    qed
  qed
qed

lemma strip_prefix_Some: "strip_prefix p s = Some r \<longleftrightarrow> s = p @ r"
  by (auto simp: strip_prefix_def prefix_def)

lemma strip_prefix_append [str_simps]: "strip_prefix p (p @ r) = Some r"
  by (simp add: strip_prefix_Some)

section \<open>White space\<close>

text \<open>
  The UTF-8 encodings of the characters with the Unicode property \<open>White_Space\<close>, which
  \<open>char::is_whitespace\<close> and \<open>str::trim\<close> test: U+0009 to U+000D, U+0020, U+0085, U+00A0, U+1680,
  U+2000 to U+200A, U+2028, U+2029, U+202F, U+205F and U+3000.
\<close>

definition ws_codes :: "string list" where
  "ws_codes = map (\<lambda>n. [char_of n]) [9, 10, 11, 12, 13, 32 :: nat]
     @ [[CHR 0xC2, CHR 0x85], [CHR 0xC2, CHR 0xA0], [CHR 0xE1, CHR 0x9A, CHR 0x80]]
     @ map (\<lambda>n. [CHR 0xE2, CHR 0x80, char_of n])
         [128, 129, 130, 131, 132, 133, 134, 135, 136, 137, 138, 168, 169, 175 :: nat]
     @ [[CHR 0xE2, CHR 0x81, CHR 0x9F], [CHR 0xE3, CHR 0x80, CHR 0x80]]"

fun first_strip :: "string list \<Rightarrow> string \<Rightarrow> string option" where
  "first_strip [] s = None"
| "first_strip (w # ws) s =
     (if w \<noteq> [] \<and> prefix w s then Some (drop (length w) s) else first_strip ws s)"

lemma first_strip_shorter: "first_strip ws s = Some t \<Longrightarrow> length t < length s"
  by (induction ws) (auto split: if_splits simp: prefix_def)

text \<open>Drop white space from the front, one encoded character at a time.\<close>

function strip_ws :: "string list \<Rightarrow> string \<Rightarrow> string" where
  "strip_ws ws s = (case first_strip ws s of None \<Rightarrow> s | Some t \<Rightarrow> strip_ws ws t)"
  by pat_completeness auto
termination
  by (relation "measure (\<lambda>(ws, s). length s)") (auto dest: first_strip_shorter)

declare strip_ws.simps [simp del]

definition trim_start :: "string \<Rightarrow> string" where
  "trim_start s = strip_ws ws_codes s"

definition trim_end :: "string \<Rightarrow> string" where
  "trim_end s = rev (strip_ws (map rev ws_codes) (rev s))"

definition trim :: "string \<Rightarrow> string" where
  "trim s = trim_end (trim_start s)"

text \<open>A text with no white space byte at either end is its own trim.\<close>

definition ws_first :: "char set" where
  "ws_first = {CHR 0x09, CHR 0x0A, CHR 0x0B, CHR 0x0C, CHR 0x0D, CHR 0x20,
     CHR 0xC2, CHR 0xE1, CHR 0xE2, CHR 0xE3}"

definition graph_char :: "char \<Rightarrow> bool" where
  "graph_char c \<longleftrightarrow> 33 \<le> code c \<and> code c \<le> 126"

lemma first_strip_None:
  "(\<And>w. w \<in> set ws \<Longrightarrow> w \<noteq> [] \<Longrightarrow> \<not> prefix w s) \<Longrightarrow> first_strip ws s = None"
  by (induction ws) auto

lemma ws_codes_hd: "w \<in> set ws_codes \<Longrightarrow> w \<noteq> [] \<and> \<not> graph_char (hd w) \<and> \<not> graph_char (last w)"
  by (auto simp: ws_codes_def graph_char_def code_def)

lemma strip_ws_fix: "first_strip ws s = None \<Longrightarrow> strip_ws ws s = s"
  by (subst strip_ws.simps) simp

lemma prefix_hd: "prefix w (c # s) \<Longrightarrow> w \<noteq> [] \<Longrightarrow> hd w = c"
  by (cases w) auto

lemma trim_start_graph [str_simps]:
  assumes "s = [] \<or> graph_char (hd s)"
  shows "trim_start s = s"
proof -
  have "\<not> prefix w s" if "w \<in> set ws_codes" "w \<noteq> []" for w
    using that assms ws_codes_hd [of w] prefix_hd [of w "hd s" "tl s"] by (cases s) auto
  then show ?thesis
    by (simp add: trim_start_def strip_ws_fix first_strip_None)
qed

lemma trim_end_graph [str_simps]:
  assumes "s = [] \<or> graph_char (last s)"
  shows "trim_end s = s"
proof -
  have "\<not> prefix w (rev s)" if "w \<in> set (map rev ws_codes)" "w \<noteq> []" for w
  proof -
    from that obtain v where v: "v \<in> set ws_codes" "w = rev v" by auto
    with ws_codes_hd [of v] have "\<not> graph_char (hd w)" by (simp add: hd_rev)
    with that assms prefix_hd [of w "hd (rev s)" "tl (rev s)"] show ?thesis
      by (cases "rev s") (auto simp: hd_rev)
  qed
  then have "first_strip (map rev ws_codes) (rev s) = None"
    by (intro first_strip_None) blast
  then show ?thesis
    by (simp add: trim_end_def strip_ws_fix)
qed

lemma trim_graph [str_simps]:
  "s = [] \<or> graph_char (hd s) \<and> graph_char (last s) \<Longrightarrow> trim s = s"
  by (auto simp: trim_def trim_start_graph trim_end_graph)

lemma strip_ws_suffix: "\<exists>p. s = p @ strip_ws ws s"
proof (induction ws s rule: strip_ws.induct)
  case (1 ws s)
  show ?case
  proof (cases "first_strip ws s")
    case None
    then show ?thesis by (simp add: strip_ws_fix)
  next
    case (Some t)
    then obtain p where p: "t = p @ strip_ws ws t" using 1 by blast
    have "\<exists>q. s = q @ t" using Some
      by (induction ws) (auto simp: prefix_def split: if_splits)
    then obtain q where "s = q @ t" by blast
    moreover have "strip_ws ws s = strip_ws ws t"
      using Some by (subst strip_ws.simps) simp
    ultimately have "s = (q @ p) @ strip_ws ws s"
      using p by (metis append_assoc)
    then show ?thesis by blast
  qed
qed

lemma trim_start_suffix: "\<exists>p. s = p @ trim_start s"
  unfolding trim_start_def by (rule strip_ws_suffix)

lemma trim_end_prefix: "\<exists>q. s = trim_end s @ q"
proof -
  obtain p where "rev s = p @ strip_ws (map rev ws_codes) (rev s)"
    using strip_ws_suffix by blast
  then have "rev (rev s) = rev (strip_ws (map rev ws_codes) (rev s)) @ rev p"
    by (metis rev_append)
  then show ?thesis unfolding trim_end_def by auto
qed

lemma trim_infix: "\<exists>p q. s = p @ trim s @ q"
  by (metis append_assoc trim_def trim_end_prefix trim_start_suffix)

lemma first_strip_strip_ws [simp]: "first_strip ws (strip_ws ws s) = None"
proof (induction ws s rule: strip_ws.induct)
  case (1 ws s)
  then show ?case by (subst strip_ws.simps) (simp split: option.split)
qed

lemma first_strip_prefix: "first_strip ws (s @ t) = None \<Longrightarrow> first_strip ws s = None"
  by (induction ws) (auto split: if_splits)

lemma trim_trim [simp]: "trim (trim s) = trim s"
proof -
  obtain q where q: "trim_start s = trim s @ q" by (metis trim_def trim_end_prefix)
  have "first_strip ws_codes (trim_start s) = None" by (simp add: trim_start_def)
  then have "first_strip ws_codes (trim s) = None" unfolding q by (rule first_strip_prefix)
  then have "trim_start (trim s) = trim s" by (simp add: trim_start_def strip_ws_fix)
  moreover have "trim_end (trim_end t) = trim_end t" for t by (simp add: trim_end_def strip_ws_fix)
  ultimately show ?thesis by (metis trim_def)
qed

text \<open>What \<open>trim\<close> removes holds no printable ASCII character.\<close>

lemma strip_ws_removed: "\<exists>p. s = p @ strip_ws ws s \<and> set p \<subseteq> \<Union> (set ` set ws)"
proof (induction ws s rule: strip_ws.induct)
  case (1 ws s)
  show ?case
  proof (cases "first_strip ws s")
    case None
    then show ?thesis by (simp add: strip_ws_fix)
  next
    case (Some t)
    then obtain p where p: "t = p @ strip_ws ws t" "set p \<subseteq> \<Union> (set ` set ws)" using 1 by blast
    have "\<exists>q. s = q @ t \<and> q \<in> set ws" using Some
      by (induction ws) (auto simp: prefix_def split: if_splits)
    then obtain q where q: "s = q @ t" "q \<in> set ws" by blast
    have "strip_ws ws s = strip_ws ws t"
      using Some by (subst strip_ws.simps) simp
    then have "s = (q @ p) @ strip_ws ws s" using p(1) q(1) by (metis append_assoc)
    moreover have "set (q @ p) \<subseteq> \<Union> (set ` set ws)" using p(2) q(2) by auto
    ultimately show ?thesis by blast
  qed
qed

lemma ws_codes_not_graph: "c \<in> \<Union> (set ` set ws_codes) \<Longrightarrow> \<not> graph_char c"
  by (auto simp: ws_codes_def graph_char_def code_def)

lemma trim_split: "\<exists>p q. s = p @ trim s @ q \<and> (\<forall>c \<in> set p \<union> set q. \<not> graph_char c)"
proof -
  obtain p where p: "s = p @ trim_start s" "set p \<subseteq> \<Union> (set ` set ws_codes)"
    using strip_ws_removed [of s ws_codes] by (auto simp: trim_start_def)
  obtain q where q: "rev (trim_start s) = q @ strip_ws (map rev ws_codes) (rev (trim_start s))"
      "set q \<subseteq> \<Union> (set ` set (map rev ws_codes))"
    using strip_ws_removed [of "rev (trim_start s)" "map rev ws_codes"] by blast
  from arg_cong [OF q(1), of rev] have "trim_start s = trim s @ rev q"
    by (simp only: rev_rev_ident rev_append trim_def trim_end_def)
  moreover have "\<Union> (set ` set (map rev ws_codes)) = \<Union> (set ` set ws_codes)" by simp
  ultimately show ?thesis
    using p q(2) by (intro exI [of _ p] exI [of _ "rev q"]) (auto dest!: subsetD ws_codes_not_graph [OF UN_I])
qed

lemma set_trim: "set (trim s) \<subseteq> set s"
proof -
  obtain p q where "s = p @ trim s @ q" using trim_infix by blast
  then have "set s = set (p @ trim s @ q)" by simp
  then show ?thesis by auto
qed

section \<open>Lines\<close>

text \<open>
  \<open>str::lines\<close>: cut at line feeds, drop the one carriage return before a line feed, and drop the
  empty piece after a final line feed. The last piece has no line feed and keeps its carriage return.
\<close>

definition strip_cr :: "string \<Rightarrow> string" where
  "strip_cr s = (if s \<noteq> [] \<and> last s = CR then butlast s else s)"

definition lines_of :: "string \<Rightarrow> string list" where
  "lines_of s =
     (let ps = split_on LF s
      in map strip_cr (butlast ps) @ (if last ps = [] then [] else [last ps]))"

lemma set_strip_cr: "set (strip_cr s) \<subseteq> set s"
  by (auto simp: strip_cr_def dest: in_set_butlastD)

lemma lines_of_no_LF: "l \<in> set (lines_of s) \<Longrightarrow> LF \<notin> set l"
proof -
  assume "l \<in> set (lines_of s)"
  then consider p where "p \<in> set (split_on LF s)" "l = strip_cr p"
    | "l = last (split_on LF s)"
    by (auto simp: lines_of_def Let_def dest: in_set_butlastD split: if_splits)
  then show ?thesis
  proof cases
    case 1
    then show ?thesis using split_on_pieces set_strip_cr by blast
  next
    case 2
    then show ?thesis using split_on_pieces last_in_set split_on_not_Nil by metis
  qed
qed

section \<open>Numbers in texts\<close>

definition digit_char :: "nat \<Rightarrow> char" where
  "digit_char d = char_of (48 + d)"

text \<open>\<open>u16::to_string\<close> and the like: decimal, no leading zero.\<close>

fun dec_nat :: "nat \<Rightarrow> string" where
  "dec_nat n = (if n < 10 then [digit_char n] else dec_nat (n div 10) @ [digit_char (n mod 10)])"

declare dec_nat.simps [simp del]

definition dec_int :: "int \<Rightarrow> string" where
  "dec_int i = (if i < 0 then CHR ''-'' # dec_nat (nat (- i)) else dec_nat (nat i))"

fun dec_value :: "nat \<Rightarrow> string \<Rightarrow> nat" where
  "dec_value acc [] = acc"
| "dec_value acc (c # s) = dec_value (10 * acc + (code c - 48)) s"

text \<open>
  \<open>str::parse\<close> for an unsigned type with the given maximum: an optional plus sign, then at least
  one decimal digit, and no overflow.
\<close>

definition parse_unsigned :: "nat \<Rightarrow> string \<Rightarrow> nat option" where
  "parse_unsigned m s =
     (let ds = (case s of c # t \<Rightarrow> if c = CHR ''+'' \<and> t \<noteq> [] then t else s | [] \<Rightarrow> s)
      in if ds \<noteq> [] \<and> list_all is_digit ds \<and> dec_value 0 ds \<le> m
         then Some (dec_value 0 ds) else None)"

definition parse_u16 :: "string \<Rightarrow> u16 option" where
  "parse_u16 s = map_option of_nat (parse_unsigned 65535 s)"

definition parse_u32 :: "string \<Rightarrow> nat option" where
  "parse_u32 s = parse_unsigned (2 ^ 32 - 1) s"

lemma code_digit_char [simp]: "d < 10 \<Longrightarrow> code (digit_char d) = 48 + d"
  by (simp add: digit_char_def)

lemma is_digit_digit_char [simp]: "d < 10 \<Longrightarrow> is_digit (digit_char d)"
  by (simp add: is_digit_def)

lemma dec_value_append [simp]: "dec_value a (s @ t) = dec_value (dec_value a s) t"
  by (induction s arbitrary: a) auto

lemma dec_nat_not_Nil [simp]: "dec_nat n \<noteq> []"
  by (subst dec_nat.simps) simp

lemma dec_nat_digits [chars]: "list_all is_digit (dec_nat n)"
proof (induction n rule: dec_nat.induct)
  case (1 n)
  then show ?case by (subst dec_nat.simps) simp
qed

lemma dec_value_dec_nat [simp]: "dec_value 0 (dec_nat n) = n"
proof (induction n rule: dec_nat.induct)
  case (1 n)
  then show ?case by (subst dec_nat.simps) simp
qed

lemma dec_nat_inj [simp]: "dec_nat m = dec_nat n \<longleftrightarrow> m = n"
  by (metis dec_value_dec_nat)

lemma dec_nat_mem: "c \<in> set (dec_nat n) \<Longrightarrow> is_digit c"
  using dec_nat_digits by (auto simp: list_all_iff)

lemma dec_nat_no [chars]: "\<not> is_digit c \<Longrightarrow> c \<notin> set (dec_nat n)"
  using dec_nat_mem by blast

lemma parse_unsigned_dec_nat: "n \<le> m \<Longrightarrow> parse_unsigned m (dec_nat n) = Some n"
proof -
  assume "n \<le> m"
  have "(case dec_nat n of c # t \<Rightarrow> if c = CHR ''+'' \<and> t \<noteq> [] then t else dec_nat n
        | [] \<Rightarrow> dec_nat n) = dec_nat n"
    using dec_nat_mem [of "CHR ''+''" n]
    by (auto simp: is_digit_def code_def split: list.splits)
  then show ?thesis using \<open>n \<le> m\<close> by (simp add: parse_unsigned_def dec_nat_digits)
qed

lemma parse_u16_dec_nat [simp]: "parse_u16 (dec_nat (unat (p :: u16))) = Some p"
proof -
  have "unat p < 65536" using unsigned_less [of p, where ?'a = nat] by simp
  then show ?thesis by (simp add: parse_u16_def parse_unsigned_dec_nat)
qed

section \<open>Hexadecimal and percent escapes\<close>

definition hex_digit :: "nat \<Rightarrow> char" where
  "hex_digit d = (if d < 10 then char_of (48 + d) else char_of (55 + d))"

definition hex_digit_lower :: "nat \<Rightarrow> char" where
  "hex_digit_lower d = (if d < 10 then char_of (48 + d) else char_of (87 + d))"

definition hex_val :: "char \<Rightarrow> nat option" where
  "hex_val c =
     (if is_digit c then Some (code c - 48)
      else if 65 \<le> code c \<and> code c \<le> 70 then Some (code c - 55)
      else if 97 \<le> code c \<and> code c \<le> 102 then Some (code c - 87)
      else None)"

text \<open>The format \<open>%{byte:02X}\<close>.\<close>

definition pct_byte :: "char \<Rightarrow> string" where
  "pct_byte c = [CHR ''%'', hex_digit (code c div 16), hex_digit (code c mod 16)]"

text \<open>Percent decoding: a percent sign before two hexadecimal digits is a byte, the rest is itself.\<close>

fun pct_decode :: "string \<Rightarrow> string" where
  "pct_decode [] = []"
| "pct_decode [c] = [c]"
| "pct_decode [c, d] = [c, d]"
| "pct_decode (c # h # l # s) =
     (if c = CHR ''%'' \<and> hex_val h \<noteq> None \<and> hex_val l \<noteq> None
      then char_of (16 * the (hex_val h) + the (hex_val l)) # pct_decode s
      else c # pct_decode (h # l # s))"

lemma hex_val_hex_digit [simp]: "d < 16 \<Longrightarrow> hex_val (hex_digit d) = Some d"
  by (auto simp: hex_val_def hex_digit_def is_digit_def)

lemma code_hex_digit: "d < 16 \<Longrightarrow> code (hex_digit d) = (if d < 10 then 48 + d else 55 + d)"
  by (simp add: hex_digit_def)

lemma hex_digit_kind: "d < 16 \<Longrightarrow> is_digit (hex_digit d) \<or> is_upper (hex_digit d)"
  by (simp add: is_digit_def is_upper_def code_hex_digit)

lemma code_div_16 [simp]: "code c div 16 < 16" "code c mod 16 < 16"
  using code_less_256 [of c] by (simp_all add: div_less_iff_less_mult)

lemma pct_decode_pct_byte [simp]: "pct_decode (pct_byte c @ s) = c # pct_decode s"
  by (simp add: pct_byte_def)

lemma pct_decode_plain [simp]: "c \<noteq> CHR ''%'' \<Longrightarrow> pct_decode (c # s) = c # pct_decode s"
  by (cases s; cases "tl s") auto

lemma pct_byte_chars [chars]:
  "x \<in> set (pct_byte c) \<Longrightarrow> x = CHR ''%'' \<or> is_digit x \<or> is_upper x"
  using hex_digit_kind [of "code c div 16"] hex_digit_kind [of "code c mod 16"]
  by (auto simp: pct_byte_def)

section \<open>An escaping of bytes that decodes\<close>

text \<open>
  Three functions of the program print a text byte by byte, each byte either as itself or as its
  percent escape. What all of them promise: decoding gives the text back, so the escaping loses
  nothing and two texts with one escaped form are equal.
\<close>

locale byte_escaper =
  fixes keep :: "char \<Rightarrow> bool"
  assumes keep_not_percent: "\<not> keep CHR ''%''"
begin

lemma kept_not_percent: "keep c \<Longrightarrow> c \<noteq> CHR ''%''"
  using keep_not_percent by blast

lemma decode_escaped:
  "pct_decode (concat (map (\<lambda>c. if keep c then [c] else pct_byte c) s)) = s"
  by (induction s) (simp_all add: kept_not_percent)

lemma escaped_inj:
  "concat (map (\<lambda>c. if keep c then [c] else pct_byte c) s)
     = concat (map (\<lambda>c. if keep c then [c] else pct_byte c) t) \<longleftrightarrow> s = t"
  (is "?e s = ?e t \<longleftrightarrow> _")
proof
  assume "?e s = ?e t"
  then have "pct_decode (?e s) = pct_decode (?e t)" by (rule arg_cong)
  then show "s = t" by (simp only: decode_escaped)
qed simp

lemma escaped_chars:
  "x \<in> set (concat (map (\<lambda>c. if keep c then [c] else pct_byte c) s))
     \<Longrightarrow> keep x \<or> x = CHR ''%'' \<or> is_digit x \<or> is_upper x"
  by (auto dest: pct_byte_chars split: if_splits)

end

section \<open>Lists\<close>

text \<open>\<open>iter_mut().find(p)\<close> with an assignment through the reference.\<close>

fun update_first :: "('a \<Rightarrow> bool) \<Rightarrow> ('a \<Rightarrow> 'a) \<Rightarrow> 'a list \<Rightarrow> 'a list" where
  "update_first P f [] = []"
| "update_first P f (x # xs) = (if P x then f x # xs else x # update_first P f xs)"

text \<open>\<open>Iterator::filter_map\<close> and \<open>Option\<close> chains are \<open>List.map_filter\<close> and \<open>Option.bind\<close>.\<close>

lemma map_filter_simps [simp]:
  "List.map_filter f [] = []"
  "List.map_filter f (x # xs) =
     (case f x of None \<Rightarrow> List.map_filter f xs | Some y \<Rightarrow> y # List.map_filter f xs)"
  by (auto simp add: List.map_filter_def split: option.split)

lemma set_map_filter: "set (List.map_filter f xs) = {y. \<exists>x \<in> set xs. f x = Some y}"
  by (force simp: List.map_filter_def)

lemma sort_eq_iff_mset:
  fixes xs ys :: "'a::linorder list"
  shows "sort xs = sort ys \<longleftrightarrow> mset xs = mset ys"
  by (metis mset_sort properties_for_sort sorted_sort)

text \<open>
  \<open>Vec::retain\<close> with a \<open>HashSet\<close> that remembers the keys: of the elements with one key the first
  stays (\<open>seen.insert(key)\<close> is true only then).
\<close>

fun retain_first :: "('a \<Rightarrow> 'k) \<Rightarrow> 'k list \<Rightarrow> 'a list \<Rightarrow> 'a list" where
  "retain_first key seen [] = []"
| "retain_first key seen (x # xs) =
     (if key x \<in> set seen then retain_first key seen xs
      else x # retain_first key (key x # seen) xs)"

lemma retain_first_subseq: "subseq (retain_first key seen xs) xs"
  by (induction xs arbitrary: seen) auto

lemma retain_first_seen: "x \<in> set (retain_first key seen xs) \<Longrightarrow> key x \<notin> set seen"
  by (induction xs arbitrary: seen) (fastforce split: if_splits)+

lemma retain_first_distinct: "distinct (map key (retain_first key seen xs))"
  by (induction xs arbitrary: seen) (auto dest: retain_first_seen)

lemma retain_first_keys:
  "key ` set (retain_first key seen xs) = key ` set xs - set seen"
  by (induction xs arbitrary: seen) auto

lemma retain_first_find:
  "k \<notin> set seen \<Longrightarrow>
     find (\<lambda>x. key x = k) (retain_first key seen xs) = find (\<lambda>x. key x = k) xs"
  by (induction xs arbitrary: seen) auto

lemma retain_first_idem:
  "distinct (map key xs) \<Longrightarrow> (\<forall>x \<in> set xs. key x \<notin> set seen) \<Longrightarrow> retain_first key seen xs = xs"
proof (induction xs arbitrary: seen)
  case (Cons x xs)
  from Cons.prems have "\<forall>y \<in> set xs. key y \<notin> set (key x # seen)"
    by (auto simp: image_iff)
  with Cons show ?case by simp
qed simp

lemma retain_first_cong: "set s = set s' \<Longrightarrow> retain_first key s xs = retain_first key s' xs"
proof (induction xs arbitrary: s s')
  case (Cons x xs)
  have "set (key x # s) = set (key x # s')" using Cons.prems by simp
  from Cons.IH [OF this] Cons.IH [OF Cons.prems] Cons.prems show ?case by simp
qed simp

lemma subseq_set: "subseq xs ys \<Longrightarrow> set xs \<subseteq> set ys"
  by (auto dest: list_emb_set)

lemma subseq_distinct: "subseq xs ys \<Longrightarrow> distinct ys \<Longrightarrow> distinct xs"
  by (induction rule: list_emb.induct) (auto dest: subseq_set)

section \<open>Results\<close>

text \<open>
  A Rust \<open>Result\<close> is a sum, the error on the left. \<open>bind_res\<close> is the \<open>?\<close> operator and
  \<open>map_err\<close> its namesake.
\<close>

fun bind_res :: "'e + 'a \<Rightarrow> ('a \<Rightarrow> 'e + 'b) \<Rightarrow> 'e + 'b" where
  "bind_res (Inl e) f = Inl e"
| "bind_res (Inr x) f = f x"

fun map_err :: "('e \<Rightarrow> 'f) \<Rightarrow> 'e + 'a \<Rightarrow> 'f + 'a" where
  "map_err f (Inl e) = Inl (f e)"
| "map_err f (Inr x) = Inr x"

definition is_ok :: "'e + 'a \<Rightarrow> bool" where
  "is_ok r = (case r of Inl _ \<Rightarrow> False | Inr _ \<Rightarrow> True)"

lemma is_ok_simps [simp]: "is_ok (Inr x)" "\<not> is_ok (Inl e)"
  by (simp_all add: is_ok_def)

lemma bind_res_Inr: "bind_res r f = Inr y \<longleftrightarrow> (\<exists>x. r = Inr x \<and> f x = Inr y)"
  by (cases r) simp_all

lemma map_err_Inr [simp]: "map_err f r = Inr y \<longleftrightarrow> r = Inr y"
  by (cases r) simp_all

text \<open>\<open>Option::or\<close>, and SQL's \<open>COALESCE\<close>.\<close>

definition coalesce :: "'a option \<Rightarrow> 'a option \<Rightarrow> 'a option" where
  "coalesce a b = (case a of None \<Rightarrow> b | Some x \<Rightarrow> Some x)"

lemma coalesce_simps [simp]: "coalesce None b = b" "coalesce (Some x) b = Some x"
  by (simp_all add: coalesce_def)

lemma coalesce_None [simp]: "coalesce a b = None \<longleftrightarrow> a = None \<and> b = None"
  by (cases a) simp_all

end
