(* ===== verification/Models.thy ===== *)
theory Models
  imports Fumox_Prelude
begin

text \<open>
  The domain model of \<open>fumox-core/src/models.rs\<close> and the error type of \<open>error.rs\<close>: the closed
  enumerations with their wire names (\<open>as_str\<close> / \<open>from_str\<close>), the parameter list of a proxy
  entry with its look-ups, the one vocabulary of truthy toggles and the certificate-verification
  aliases. A formatted error message is kept as its fixed text and the values it quotes.
\<close>

section \<open>Errors\<close>

datatype error =
    Config string "string list"
  | Parse string "string list"
  | Database string "string list"
  | Migration string

section \<open>Proxy schemes\<close>

datatype Scheme = Vless | Vmess | Trojan | Ss | Hysteria2 | Tuic | Mieru | Socks5 | Naive | Snell | AnyTls

fun scheme_as_str :: "Scheme \<Rightarrow> string" where
  "scheme_as_str Vless = ''vless''"
| "scheme_as_str Vmess = ''vmess''"
| "scheme_as_str Trojan = ''trojan''"
| "scheme_as_str Ss = ''ss''"
| "scheme_as_str Hysteria2 = ''hysteria2''"
| "scheme_as_str Tuic = ''tuic''"
| "scheme_as_str Mieru = ''mieru''"
| "scheme_as_str Socks5 = ''socks5''"
| "scheme_as_str Naive = ''naive''"
| "scheme_as_str Snell = ''snell''"
| "scheme_as_str AnyTls = ''anytls''"

definition scheme_all :: "Scheme list" where
  "scheme_all = [Vless, Vmess, Trojan, Ss, Hysteria2, Tuic, Mieru, Socks5, Naive, Snell, AnyTls]"

definition is_probeable :: "Scheme \<Rightarrow> bool" where
  "is_probeable s \<longleftrightarrow> s \<noteq> Tuic \<and> s \<noteq> Mieru"

definition scheme_from_str :: "string \<Rightarrow> error + Scheme" where
  "scheme_from_str s =
     (if s = ''vless'' then Inr Vless
      else if s = ''vmess'' then Inr Vmess
      else if s = ''trojan'' then Inr Trojan
      else if s = ''ss'' then Inr Ss
      else if s = ''hysteria2'' \<or> s = ''hy2'' then Inr Hysteria2
      else if s = ''tuic'' then Inr Tuic
      else if s = ''mieru'' then Inr Mieru
      else if s = ''socks5'' then Inr Socks5
      else if s = ''naive'' then Inr Naive
      else if s = ''snell'' then Inr Snell
      else if s = ''anytls'' then Inr AnyTls
      else Inl (Parse ''unknown scheme'' [s]))"

section \<open>Lifecycle status and the other enumerations\<close>

datatype ProxyStatus = Unknown | Alive | Ready | Quarantine | Removed

definition status_all :: "ProxyStatus list" where
  "status_all = [Unknown, Alive, Ready, Quarantine, Removed]"

fun status_as_str :: "ProxyStatus \<Rightarrow> string" where
  "status_as_str Unknown = ''unknown''"
| "status_as_str Alive = ''alive''"
| "status_as_str Ready = ''ready''"
| "status_as_str Quarantine = ''quarantine''"
| "status_as_str Removed = ''removed''"

definition status_from_str :: "string \<Rightarrow> error + ProxyStatus" where
  "status_from_str s =
     (if s = ''unknown'' then Inr Unknown
      else if s = ''alive'' then Inr Alive
      else if s = ''ready'' then Inr Ready
      else if s = ''quarantine'' then Inr Quarantine
      else if s = ''removed'' then Inr Removed
      else Inl (Parse ''unknown proxy status'' [s]))"

datatype ErrorClass = Network | HttpServer | HttpClient | ParseError

fun error_class_as_str :: "ErrorClass \<Rightarrow> string" where
  "error_class_as_str Network = ''network''"
| "error_class_as_str HttpServer = ''http_server''"
| "error_class_as_str HttpClient = ''http_client''"
| "error_class_as_str ParseError = ''parse_error''"

definition error_class_from_str :: "string \<Rightarrow> error + ErrorClass" where
  "error_class_from_str s =
     (if s = ''network'' then Inr Network
      else if s = ''http_server'' then Inr HttpServer
      else if s = ''http_client'' then Inr HttpClient
      else if s = ''parse_error'' then Inr ParseError
      else Inl (Parse ''unknown error class'' [s]))"

datatype IpFamily = AnyFamily | Ipv4Family | Ipv6Family

fun ip_family_as_str :: "IpFamily \<Rightarrow> string" where
  "ip_family_as_str AnyFamily = ''any''"
| "ip_family_as_str Ipv4Family = ''ipv4''"
| "ip_family_as_str Ipv6Family = ''ipv6''"

definition ip_family_from_str :: "string \<Rightarrow> error + IpFamily" where
  "ip_family_from_str s =
     (if s = ''any'' then Inr AnyFamily
      else if s = ''ipv4'' then Inr Ipv4Family
      else if s = ''ipv6'' then Inr Ipv6Family
      else Inl (Parse ''unknown IP family'' [s]))"

datatype Encoding = PlainEncoding | Base64Encoding | AutoEncoding

fun encoding_as_str :: "Encoding \<Rightarrow> string" where
  "encoding_as_str PlainEncoding = ''plain''"
| "encoding_as_str Base64Encoding = ''base64''"
| "encoding_as_str AutoEncoding = ''auto''"

definition encoding_from_str :: "string \<Rightarrow> error + Encoding" where
  "encoding_from_str s =
     (if s = ''plain'' then Inr PlainEncoding
      else if s = ''base64'' then Inr Base64Encoding
      else if s = ''auto'' then Inr AutoEncoding
      else Inl (Parse ''unknown encoding'' [s]))"

datatype InputFormat = UriListInput | ClashYaml | SingBoxJson

fun input_format_as_str :: "InputFormat \<Rightarrow> string" where
  "input_format_as_str UriListInput = ''uri_list''"
| "input_format_as_str ClashYaml = ''clash_yaml''"
| "input_format_as_str SingBoxJson = ''sing_box_json''"

definition input_format_from_str :: "string \<Rightarrow> error + InputFormat" where
  "input_format_from_str s =
     (if s = ''uri_list'' then Inr UriListInput
      else if s = ''clash_yaml'' then Inr ClashYaml
      else if s = ''sing_box_json'' then Inr SingBoxJson
      else Inl (Parse ''unknown input format'' [s]))"

datatype OutputFormat = UriListOutput | Base64Output | ClashOutput | SingBoxOutput

fun output_format_as_str :: "OutputFormat \<Rightarrow> string" where
  "output_format_as_str UriListOutput = ''uri_list''"
| "output_format_as_str Base64Output = ''base64''"
| "output_format_as_str ClashOutput = ''clash''"
| "output_format_as_str SingBoxOutput = ''sing_box''"

definition output_format_from_str :: "string \<Rightarrow> error + OutputFormat" where
  "output_format_from_str s =
     (if s = ''uri_list'' then Inr UriListOutput
      else if s = ''base64'' then Inr Base64Output
      else if s = ''clash'' then Inr ClashOutput
      else if s = ''sing_box'' then Inr SingBoxOutput
      else Inl (Parse ''unknown output format'' [s]))"

section \<open>A wire vocabulary\<close>

text \<open>
  Every enumeration that is stored in the database promises the same: what \<open>as_str\<close> writes,
  \<open>from_str\<close> reads back, and a text outside the vocabulary is an error that quotes it. The
  vocabulary is then free of collisions.
\<close>

locale wire_vocabulary =
  fixes as_str :: "'a \<Rightarrow> string" and from_str :: "string \<Rightarrow> error + 'a" and what :: string
  assumes read_written: "from_str (as_str x) = Inr x"
    and rejected: "from_str s = Inl e \<Longrightarrow> e = Parse what [s]"
begin

lemma as_str_inj: "as_str x = as_str y \<longleftrightarrow> x = y"
  by (metis read_written sum.inject(2))

lemma rejected_not_written: "from_str s = Inl e \<Longrightarrow> s \<noteq> as_str x"
  using read_written by force

end

interpretation scheme_wire: wire_vocabulary scheme_as_str scheme_from_str "''unknown scheme''"
proof
  show "scheme_from_str (scheme_as_str x) = Inr x" for x
    by (cases x) (simp_all add: scheme_from_str_def)
qed (auto simp: scheme_from_str_def split: if_splits)

interpretation status_wire: wire_vocabulary status_as_str status_from_str "''unknown proxy status''"
proof
  show "status_from_str (status_as_str x) = Inr x" for x
    by (cases x) (simp_all add: status_from_str_def)
qed (auto simp: status_from_str_def split: if_splits)

interpretation error_class_wire:
  wire_vocabulary error_class_as_str error_class_from_str "''unknown error class''"
proof
  show "error_class_from_str (error_class_as_str x) = Inr x" for x
    by (cases x) (simp_all add: error_class_from_str_def)
qed (auto simp: error_class_from_str_def split: if_splits)

interpretation ip_family_wire:
  wire_vocabulary ip_family_as_str ip_family_from_str "''unknown IP family''"
proof
  show "ip_family_from_str (ip_family_as_str x) = Inr x" for x
    by (cases x) (simp_all add: ip_family_from_str_def)
qed (auto simp: ip_family_from_str_def split: if_splits)

interpretation encoding_wire:
  wire_vocabulary encoding_as_str encoding_from_str "''unknown encoding''"
proof
  show "encoding_from_str (encoding_as_str x) = Inr x" for x
    by (cases x) (simp_all add: encoding_from_str_def)
qed (auto simp: encoding_from_str_def split: if_splits)

interpretation input_format_wire:
  wire_vocabulary input_format_as_str input_format_from_str "''unknown input format''"
proof
  show "input_format_from_str (input_format_as_str x) = Inr x" for x
    by (cases x) (simp_all add: input_format_from_str_def)
qed (auto simp: input_format_from_str_def split: if_splits)

interpretation output_format_wire:
  wire_vocabulary output_format_as_str output_format_from_str "''unknown output format''"
proof
  show "output_format_from_str (output_format_as_str x) = Inr x" for x
    by (cases x) (simp_all add: output_format_from_str_def)
qed (auto simp: output_format_from_str_def split: if_splits)

lemma scheme_as_str_lower: "c \<in> set (scheme_as_str s) \<Longrightarrow> is_lower c \<or> is_digit c"
  by (cases s) (auto simp: is_lower_def is_digit_def code_def)

lemma scheme_all_complete: "s \<in> set scheme_all"
  by (cases s) (simp_all add: scheme_all_def)

section \<open>Parameters and proxy entries\<close>

record Param =
  p_key :: string
  p_value :: string
  p_known :: bool

record ProxyEntry =
  pe_scheme :: Scheme
  pe_name :: string
  pe_host :: string
  pe_port :: u16
  pe_credential :: string
  pe_params :: "Param list"
  pe_raw_path :: string
  pe_raw_line :: string

definition INSECURE_ALIASES :: "string list" where
  "INSECURE_ALIASES = [''insecure'', ''allowinsecure'', ''skip-cert-verify'', ''allow_insecure'']"

definition is_truthy_toggle :: "string \<Rightarrow> bool" where
  "is_truthy_toggle v \<longleftrightarrow>
     to_ascii_lowercase (trim v) \<in> set [''1'', ''true'', ''yes'', ''on'']"

definition is_insecure_param :: "Param \<Rightarrow> bool" where
  "is_insecure_param p \<longleftrightarrow>
     to_ascii_lowercase (p_key p) \<in> set INSECURE_ALIASES \<and> is_truthy_toggle (p_value p)"

text \<open>\<open>ProxyEntry::param\<close>: the first value under the exact key.\<close>

definition param :: "ProxyEntry \<Rightarrow> string \<Rightarrow> string option" where
  "param e k = map_option p_value (find (\<lambda>p. p_key p = k) (pe_params e))"

definition param_ignore_case :: "ProxyEntry \<Rightarrow> string \<Rightarrow> string option" where
  "param_ignore_case e k =
     map_option p_value (find (\<lambda>p. eq_ignore_ascii_case (p_key p) k) (pe_params e))"

text \<open>
  \<open>split_params_json\<close>: a JSON object is a map from keys to texts; \<open>entry(..).or_insert(..)\<close> keeps
  the value that is there.
\<close>

type_synonym json_params = "string \<rightharpoonup> string"

fun or_insert :: "json_params \<Rightarrow> Param list \<Rightarrow> json_params" where
  "or_insert m [] = m"
| "or_insert m (p # ps) =
     or_insert (case m (p_key p) of None \<Rightarrow> m(p_key p \<mapsto> p_value p) | Some _ \<Rightarrow> m) ps"

definition split_params_json :: "Param list \<Rightarrow> bool \<Rightarrow> json_params" where
  "split_params_json ps known =
     or_insert Map.empty (filter (\<lambda>p. p_known p = known \<and> p_key p \<noteq> []) ps)"

definition known_params_json :: "ProxyEntry \<Rightarrow> json_params" where
  "known_params_json e = split_params_json (pe_params e) True"

definition unknown_params_json :: "ProxyEntry \<Rightarrow> json_params" where
  "unknown_params_json e = split_params_json (pe_params e) False"

lemma or_insert_lookup:
  "or_insert m ps k =
     (case m k of Some v \<Rightarrow> Some v | None \<Rightarrow> map_option p_value (find (\<lambda>p. p_key p = k) ps))"
  by (induction ps arbitrary: m) (auto split: option.splits)

lemma split_params_json_lookup:
  "split_params_json ps known k =
     (if k = [] then None
      else map_option p_value (find (\<lambda>p. p_key p = k \<and> p_known p = known) ps))"
proof -
  have "find (\<lambda>p. p_key p = k) (filter (\<lambda>p. p_known p = known \<and> p_key p \<noteq> []) ps)
      = (if k = [] then None else find (\<lambda>p. p_key p = k \<and> p_known p = known) ps)"
    by (induction ps) auto
  then show ?thesis by (simp add: split_params_json_def or_insert_lookup)
qed

end
