(* ===== verification/Fingerprint.thy ===== *)
theory Fingerprint
  imports Models
begin

text \<open>
  The deduplication key of \<open>fumox-core/src/fingerprint.rs\<close>. The hasher is fed the parts of the
  pre-image one after the other, which is the hash of their concatenation (\<open>fp_preimage\<close>); SHA-256
  itself is a parameter. The lemmas decode the pre-image: every field is escaped, so no byte of feed
  text moves a boundary, and the pre-image is a faithful name of the abstract key \<open>fp_key\<close>.
\<close>

section \<open>The pre-image\<close>

definition SECURITY_PARAMS :: "string list" where
  "SECURITY_PARAMS =
     [''security'', ''tls'', ''type'', ''net'', ''headertype'', ''mode'', ''path'', ''host'',
      ''authority'', ''alpn'', ''version'', ''pbk'', ''publickey'', ''sid'', ''shortid'', ''fp'',
      ''utls'', ''sni'', ''flow'', ''pinsha256'', ''encryption'', ''scy'', ''obfs'', ''obfs-host'',
      ''obfs-password'', ''congestion_control'', ''aid'', ''packetencoding'', ''insecure'',
      ''allowinsecure'', ''skip-cert-verify'', ''allow_insecure'', ''servicename'', ''ports'',
      ''udp_relay_mode'', ''disable_sni'', ''ws-headers'', ''ws-opts'', ''reality-opts'']"

definition canonical_key :: "Scheme \<Rightarrow> string \<Rightarrow> string" where
  "canonical_key scheme key =
     (if key = ''servername'' then ''sni''
      else if key = ''network'' \<and> scheme = Vmess then ''net''
      else if key = ''network'' then ''type''
      else if key = ''ws-path'' then ''path''
      else if key = ''client-fingerprint'' then ''fp''
      else if key = ''grpc-service-name'' then ''servicename''
      else if key = ''fingerprint'' then ''pinsha256''
      else if key = ''cipher'' \<and> scheme = Vmess then ''scy''
      else if key = ''alterid'' \<and> scheme = Vmess then ''aid''
      else key)"

text \<open>\<open>trim_end_matches('.')\<close> drops every trailing dot.\<close>

definition trim_end_dots :: "string \<Rightarrow> string" where
  "trim_end_dots s = rev (dropWhile (\<lambda>c. c = CHR ''.'') (rev s))"

definition normalize_host :: "string \<Rightarrow> string" where
  "normalize_host host = trim_end_dots (to_ascii_lowercase host)"

definition escape_byte :: "char \<Rightarrow> string" where
  "escape_byte c =
     (if c = CHR ''%'' then ''%25''
      else if c = CHR ''&'' then ''%26''
      else if c = CHR ''='' then ''%3D''
      else if c = CHR ''|'' then ''%7C''
      else if 33 \<le> code c \<and> code c \<le> 126 then [c]
      else pct_byte c)"

definition escape :: "string \<Rightarrow> string" where
  "escape value = concat (map escape_byte value)"

definition normalize_insecure_alias :: "string \<Rightarrow> string \<Rightarrow> (string \<times> string) option" where
  "normalize_insecure_alias key value =
     (if key \<in> set INSECURE_ALIASES
      then (if is_truthy_toggle value then Some (''insecure'', ''1'') else None)
      else Some (key, value))"

definition security_pair :: "Scheme \<Rightarrow> Param \<Rightarrow> (string \<times> string) option" where
  "security_pair scheme p =
     (let key = canonical_key scheme (to_ascii_lowercase (p_key p))
      in if key \<notin> set SECURITY_PARAMS then None else normalize_insecure_alias key (p_value p))"

definition security_pairs :: "ProxyEntry \<Rightarrow> (string \<times> string) list" where
  "security_pairs e = List.map_filter (security_pair (pe_scheme e)) (pe_params e)"

definition canonical_security_params :: "ProxyEntry \<Rightarrow> string" where
  "canonical_security_params e =
     join ''&'' (map (\<lambda>(k, v). escape k @ ''='' @ escape v) (sort (security_pairs e)))"

definition fp_preimage :: "ProxyEntry \<Rightarrow> string" where
  "fp_preimage e =
     scheme_as_str (pe_scheme e) @ ''|'' @ escape (normalize_host (pe_host e)) @ ''|''
     @ dec_nat (unat (pe_port e)) @ ''|'' @ escape (pe_credential e) @ ''|''
     @ canonical_security_params e"

definition to_hex :: "string \<Rightarrow> string" where
  "to_hex bytes =
     concat (map (\<lambda>b. [hex_digit_lower (code b div 16), hex_digit_lower (code b mod 16)]) bytes)"

text \<open>The hash function is a parameter: it is a crate's.\<close>

definition fingerprint :: "(string \<Rightarrow> string) \<Rightarrow> ProxyEntry \<Rightarrow> string" where
  "fingerprint sha256 e = to_hex (sha256 (fp_preimage e))"

section \<open>Escaping\<close>

definition escape_keep :: "char \<Rightarrow> bool" where
  "escape_keep c \<longleftrightarrow> 33 \<le> code c \<and> code c \<le> 126 \<and> c \<notin> set ''%&=|''"

interpretation fp_escaper: byte_escaper escape_keep
  by unfold_locales (simp add: escape_keep_def)

lemma pct_byte_separators:
  "pct_byte (CHR ''%'') = ''%25''" "pct_byte (CHR ''&'') = ''%26''"
  "pct_byte (CHR ''='') = ''%3D''" "pct_byte (CHR ''|'') = ''%7C''"
  by code_simp+

lemma escape_byte_eq: "escape_byte c = (if escape_keep c then [c] else pct_byte c)"
proof (cases "c \<in> set ''%&=|''")
  case True
  then consider "c = CHR ''%''" | "c = CHR ''&''" | "c = CHR ''=''" | "c = CHR ''|''" by auto
  then show ?thesis
    by cases (simp_all add: escape_byte_def escape_keep_def pct_byte_separators)
next
  case False
  then show ?thesis by (simp add: escape_byte_def escape_keep_def)
qed

lemma escape_eq: "escape s = concat (map (\<lambda>c. if escape_keep c then [c] else pct_byte c) s)"
  unfolding escape_def escape_byte_eq ..

lemma escape_inj [simp]: "escape s = escape t \<longleftrightarrow> s = t"
  by (simp add: escape_eq fp_escaper.escaped_inj)

lemma escape_no_separator [chars]: "c \<in> set ''&=|'' \<Longrightarrow> c \<notin> set (escape s)"
proof
  assume c: "c \<in> set ''&=|''" and "c \<in> set (escape s)"
  then have "escape_keep c \<or> c = CHR ''%'' \<or> is_digit c \<or> is_upper c"
    unfolding escape_eq by (intro fp_escaper.escaped_chars)
  moreover from c have "\<not> is_digit c \<and> \<not> is_upper c"
    by (auto simp: is_digit_def is_upper_def code_def)
  ultimately show False using c by (auto simp: escape_keep_def)
qed

lemma escape_seps [simp]:
  "CHR ''|'' \<notin> set (escape s)" "CHR ''&'' \<notin> set (escape s)" "CHR ''='' \<notin> set (escape s)"
  by (simp_all add: escape_no_separator)

lemma cut_at_separator:
  fixes d :: char
  assumes "d \<notin> set a" and "d \<notin> set b"
  shows "a @ d # x = b @ d # y \<longleftrightarrow> a = b \<and> x = y"
proof
  assume "a @ d # x = b @ d # y"
  then have "split_once d (a @ d # x) = split_once d (b @ d # y)" by (rule arg_cong)
  then show "a = b \<and> x = y" 
    by (simp only: split_once_append [OF assms(1)] split_once_append [OF assms(2)]
        option.inject prod.inject)
qed simp

section \<open>Decoding the pre-image\<close>

lemma scheme_no_bar [simp]: "CHR ''|'' \<notin> set (scheme_as_str s)"
  using scheme_as_str_lower [of "CHR ''|''" s] by (auto simp: is_lower_def is_digit_def code_def)

lemma dec_no_bar [simp]: "CHR ''|'' \<notin> set (dec_nat n)"
  by (simp add: dec_nat_no is_digit_def code_def)

lemma pair_text_inj:
  "(\<lambda>(k, v). escape k @ ''='' @ escape v) p = (\<lambda>(k, v). escape k @ ''='' @ escape v) q \<longleftrightarrow> p = q"
  by (cases p; cases q) (simp add: cut_at_separator)

definition pair_text :: "string \<times> string \<Rightarrow> string" where
  "pair_text = (\<lambda>(k, v). escape k @ ''='' @ escape v)"

lemma inj_pair_text: "inj pair_text"
  unfolding pair_text_def by (rule injI) (simp only: pair_text_inj)

lemma pair_text_no_amp [simp]: "CHR ''&'' \<notin> set (pair_text p)" "pair_text p \<noteq> []"
  by (cases p; simp add: pair_text_def)+

lemma split_joined_pairs:
  "rs \<noteq> [] \<Longrightarrow> split_on (CHR ''&'') (join ''&'' (map pair_text rs)) = map pair_text rs"
  by (rule split_on_join) auto

lemma joined_pairs_Nil: "join ''&'' (map pair_text rs) = [] \<longleftrightarrow> rs = []"
  by (subst join_eq_Nil) auto

lemma joined_pairs_inj: "join ''&'' (map pair_text ps) = join ''&'' (map pair_text qs) \<longleftrightarrow> ps = qs"
proof
  assume eq: "join ''&'' (map pair_text ps) = join ''&'' (map pair_text qs)"
  have empty: "ps = [] \<longleftrightarrow> qs = []"
    unfolding joined_pairs_Nil [symmetric] eq ..
  show "ps = qs"
  proof (cases "ps = []")
    case False
    with empty have "qs \<noteq> []" by blast
    have "map pair_text ps = split_on (CHR ''&'') (join ''&'' (map pair_text ps))"
      by (rule split_joined_pairs [OF False, symmetric])
    also have "\<dots> = map pair_text qs"
      unfolding eq by (rule split_joined_pairs [OF \<open>qs \<noteq> []\<close>])
    finally show ?thesis by (simp only: inj_map_eq_map [OF inj_pair_text])
  qed (use empty in simp)
next
  assume "ps = qs"
  then show "join ''&'' (map pair_text ps) = join ''&'' (map pair_text qs)" by (rule arg_cong)
qed

lemma canonical_security_params_eq:
  "canonical_security_params a = canonical_security_params b
     \<longleftrightarrow> mset (security_pairs a) = mset (security_pairs b)"
  unfolding canonical_security_params_def pair_text_def [symmetric]
  by (simp only: joined_pairs_inj sort_eq_iff_mset)

text \<open>
  The abstract key: what a deduplication key must tell apart, as a plain tuple without any text
  encoding.
\<close>

definition fp_key ::
  "ProxyEntry \<Rightarrow> Scheme \<times> string \<times> u16 \<times> string \<times> (string \<times> string) multiset" where
  "fp_key e =
     (pe_scheme e, normalize_host (pe_host e), pe_port e, pe_credential e, mset (security_pairs e))"

lemma fp_preimage_eq_key: "fp_preimage a = fp_preimage b \<longleftrightarrow> fp_key a = fp_key b"
proof -
  have "fp_preimage a = fp_preimage b \<longleftrightarrow>
      scheme_as_str (pe_scheme a) = scheme_as_str (pe_scheme b)
      \<and> escape (normalize_host (pe_host a)) = escape (normalize_host (pe_host b))
      \<and> dec_nat (unat (pe_port a)) = dec_nat (unat (pe_port b))
      \<and> escape (pe_credential a) = escape (pe_credential b)
      \<and> canonical_security_params a = canonical_security_params b"
    unfolding fp_preimage_def by (simp add: cut_at_separator)
  then show ?thesis
    by (simp add: fp_key_def canonical_security_params_eq scheme_wire.as_str_inj
        word_unat_eq_iff)
qed

text \<open>C40: the text pre-image names the abstract key faithfully: two entries have one pre-image
  exactly when scheme, normalised host, port, credential and the multiset of normalised security
  parameters agree. No separator smuggled into a host, a credential, a key or a value can make
  two different nodes collide before the hash, and nothing else (name, path, source line, order of
  the parameters, cosmetic parameters) takes part.\<close>

theorem fp_preimage_faithful: "fp_preimage a = fp_preimage b \<longleftrightarrow> fp_key a = fp_key b"
  by (rule fp_preimage_eq_key)

section \<open>What the key keeps apart and what it folds\<close>

lemma aliases_are_security: "k \<in> set INSECURE_ALIASES \<Longrightarrow> k \<in> set SECURITY_PARAMS"
  by (auto simp: INSECURE_ALIASES_def SECURITY_PARAMS_def)

lemma canonical_targets_no_alias:
  "''sni'' \<notin> set INSECURE_ALIASES" "''net'' \<notin> set INSECURE_ALIASES"
  "''type'' \<notin> set INSECURE_ALIASES" "''path'' \<notin> set INSECURE_ALIASES"
  "''fp'' \<notin> set INSECURE_ALIASES" "''servicename'' \<notin> set INSECURE_ALIASES"
  "''pinsha256'' \<notin> set INSECURE_ALIASES" "''scy'' \<notin> set INSECURE_ALIASES"
  "''aid'' \<notin> set INSECURE_ALIASES"
  by (simp_all add: INSECURE_ALIASES_def)

lemma canonical_key_alias:
  "canonical_key s k \<in> set INSECURE_ALIASES \<longleftrightarrow> k \<in> set INSECURE_ALIASES"
  "k \<in> set INSECURE_ALIASES \<Longrightarrow> canonical_key s k = k"
proof -
  show fixed: "canonical_key s k = k" if "k \<in> set INSECURE_ALIASES"
  proof -
    from that have "k = ''insecure'' \<or> k = ''allowinsecure'' \<or> k = ''skip-cert-verify''
        \<or> k = ''allow_insecure''"
      by (simp only: INSECURE_ALIASES_def list.set insert_iff empty_iff simp_thms)
    then show ?thesis by (elim disjE) (simp_all add: canonical_key_def)
  qed
  have "canonical_key s k \<notin> set INSECURE_ALIASES" if "k \<notin> set INSECURE_ALIASES"
    unfolding canonical_key_def
    by (simp only: canonical_targets_no_alias that simp_thms split: if_split)
  with fixed show "canonical_key s k \<in> set INSECURE_ALIASES \<longleftrightarrow> k \<in> set INSECURE_ALIASES"
    by metis
qed

lemma security_pair_alias:
  assumes "to_ascii_lowercase (p_key p) \<in> set INSECURE_ALIASES"
  shows "security_pair s p = (if is_truthy_toggle (p_value p) then Some (''insecure'', ''1'') else None)"
  using assms aliases_are_security [OF assms] canonical_key_alias(2) [OF assms]
  by (simp only: security_pair_def normalize_insecure_alias_def Let_def not_True_eq_False if_True
      if_False simp_thms)

lemma security_pair_other:
  assumes "to_ascii_lowercase (p_key p) \<notin> set INSECURE_ALIASES"
  shows "security_pair s p \<noteq> Some (''insecure'', v)"
proof -
  let ?k = "canonical_key s (to_ascii_lowercase (p_key p))"
  have "?k \<notin> set INSECURE_ALIASES" using assms canonical_key_alias(1) by blast
  moreover have "''insecure'' \<in> set INSECURE_ALIASES" by (simp add: INSECURE_ALIASES_def)
  ultimately have "?k \<noteq> ''insecure''" "?k \<notin> set INSECURE_ALIASES" by metis+
  then show ?thesis
    unfolding security_pair_def normalize_insecure_alias_def Let_def by auto
qed

lemma security_pair_insecure:
  "security_pair s p = Some (''insecure'', v) \<longleftrightarrow> is_insecure_param p \<and> v = ''1''"
proof (cases "to_ascii_lowercase (p_key p) \<in> set INSECURE_ALIASES")
  case True
  show ?thesis
    unfolding security_pair_alias [OF True] is_insecure_param_def using True by auto
next
  case False
  then show ?thesis using security_pair_other [OF False] unfolding is_insecure_param_def by blast
qed

lemma insecure_pair_iff:
  "(\<exists>v. (''insecure'', v) \<in> set (security_pairs e)) \<longleftrightarrow> (\<exists>p \<in> set (pe_params e). is_insecure_param p)"
  by (auto simp: security_pairs_def set_map_filter security_pair_insecure)

text \<open>deduplication never merges a node that switches certificate verification off with one
  that keeps it on, whatever spelling either feed uses, so the later forbid-insecure filter judges
  the same node the key names.\<close>

theorem fp_separates_insecure:
  assumes "fp_preimage a = fp_preimage b"
  shows "(\<exists>p \<in> set (pe_params a). is_insecure_param p) = (\<exists>p \<in> set (pe_params b). is_insecure_param p)"
proof -
  from assms have "mset (security_pairs a) = mset (security_pairs b)"
    by (simp add: fp_preimage_eq_key fp_key_def)
  then have "set (security_pairs a) = set (security_pairs b)" by (metis set_mset_mset)
  then show ?thesis by (metis insecure_pair_iff)
qed

definition sample_a :: ProxyEntry where
  "sample_a = \<lparr>pe_scheme = Vless, pe_name = ''a'', pe_host = ''Example.COM.'', pe_port = 443,
     pe_credential = ''u'',
     pe_params = [\<lparr>p_key = ''allowInsecure'', p_value = ''yes'', p_known = True\<rparr>,
                  \<lparr>p_key = ''sni'', p_value = ''h'', p_known = True\<rparr>],
     pe_raw_path = '''', pe_raw_line = ''''\<rparr>"

definition sample_b :: ProxyEntry where
  "sample_b = \<lparr>pe_scheme = Vless, pe_name = ''b'', pe_host = ''example.com'', pe_port = 443,
     pe_credential = ''u'',
     pe_params = [\<lparr>p_key = ''servername'', p_value = ''h'', p_known = False\<rparr>,
                  \<lparr>p_key = ''skip-cert-verify'', p_value = ''true'', p_known = False\<rparr>],
     pe_raw_path = ''/'', pe_raw_line = ''''\<rparr>"

lemmas key_eval = canonical_key_def ascii_lower_def is_upper_def code_def SECURITY_PARAMS_def
  normalize_insecure_alias_def INSECURE_ALIASES_def is_truthy_toggle_def trim_graph graph_char_def char_of_def bit_0

lemma sample_key_a:
  "fp_key sample_a = (Vless, ''example.com'', 443, ''u'', {#(''insecure'', ''1''), (''sni'', ''h'')#})"
  by (simp add: fp_key_def sample_a_def security_pairs_def security_pair_def normalize_host_def
      trim_end_dots_def key_eval)

lemma sample_key_b:
  "fp_key sample_b = (Vless, ''example.com'', 443, ''u'', {#(''sni'', ''h''), (''insecure'', ''1'')#})"
  by (simp add: fp_key_def sample_b_def security_pairs_def security_pair_def normalize_host_def
      trim_end_dots_def key_eval)

lemma sample_preimages_equal: "fp_preimage sample_a = fp_preimage sample_b"
  by (simp add: fp_preimage_eq_key sample_key_a sample_key_b add_mset_commute)

theorem fp_separates_insecure_witness:
  "(\<exists>p \<in> set (pe_params sample_a). is_insecure_param p)
     = (\<exists>p \<in> set (pe_params sample_b). is_insecure_param p)"
  by (rule fp_separates_insecure [OF sample_preimages_equal])

end
