(* ===== verification/Net_Addr.thy ===== *)
theory Net_Addr
  imports Fumox_Prelude
begin

text \<open>
  The address types of Rust's \<open>std::net\<close> that the program's policies are written over: an IPv4
  address is its four octets, an IPv6 address its eight 16-bit segments. The predicates are those of
  the standard library (\<open>is_loopback\<close>, \<open>is_private\<close>, ..., \<open>to_ipv4_mapped\<close>, \<open>to_ipv4\<close>), and
  \<open>parse_ip\<close> is its address parser (\<open>IpAddr::from_str\<close>): dotted decimal without leading zeros,
  and colon-separated hexadecimal groups with at most one \<open>::\<close> and an optional IPv4 tail.
\<close>

section \<open>Addresses\<close>

datatype ipv4 = Ipv4 u8 u8 u8 u8

datatype ipv6 = Ipv6 u16 u16 u16 u16 u16 u16 u16 u16

datatype ip_addr = V4 ipv4 | V6 ipv6

fun is_ipv4 :: "ip_addr \<Rightarrow> bool" where
  "is_ipv4 (V4 _) = True"
| "is_ipv4 (V6 _) = False"

definition is_ipv6 :: "ip_addr \<Rightarrow> bool" where
  "is_ipv6 ip \<longleftrightarrow> \<not> is_ipv4 ip"

fun v4_is_loopback :: "ipv4 \<Rightarrow> bool" where
  "v4_is_loopback (Ipv4 a b c d) = (a = 127)"

fun v4_is_private :: "ipv4 \<Rightarrow> bool" where
  "v4_is_private (Ipv4 a b c d) =
     (a = 10 \<or> a = 172 \<and> 16 \<le> b \<and> b \<le> 31 \<or> a = 192 \<and> b = 168)"

fun v4_is_link_local :: "ipv4 \<Rightarrow> bool" where
  "v4_is_link_local (Ipv4 a b c d) = (a = 169 \<and> b = 254)"

fun v4_is_unspecified :: "ipv4 \<Rightarrow> bool" where
  "v4_is_unspecified (Ipv4 a b c d) = (a = 0 \<and> b = 0 \<and> c = 0 \<and> d = 0)"

fun v4_is_broadcast :: "ipv4 \<Rightarrow> bool" where
  "v4_is_broadcast (Ipv4 a b c d) = (a = 255 \<and> b = 255 \<and> c = 255 \<and> d = 255)"

fun v4_is_multicast :: "ipv4 \<Rightarrow> bool" where
  "v4_is_multicast (Ipv4 a b c d) = (224 \<le> a \<and> a \<le> 239)"

definition high_byte :: "u16 \<Rightarrow> u8" where
  "high_byte s = ucast (drop_bit 8 s)"

definition low_byte :: "u16 \<Rightarrow> u8" where
  "low_byte s = ucast s"

definition segment :: "u8 \<Rightarrow> u8 \<Rightarrow> u16" where
  "segment hi lo = of_nat (unat hi * 256 + unat lo)"

fun v6_is_loopback :: "ipv6 \<Rightarrow> bool" where
  "v6_is_loopback ip = (ip = Ipv6 0 0 0 0 0 0 0 1)"

fun v6_is_unspecified :: "ipv6 \<Rightarrow> bool" where
  "v6_is_unspecified ip = (ip = Ipv6 0 0 0 0 0 0 0 0)"

fun to_ipv4_mapped :: "ipv6 \<Rightarrow> ipv4 option" where
  "to_ipv4_mapped (Ipv6 a b c d e f g h) =
     (if a = 0 \<and> b = 0 \<and> c = 0 \<and> d = 0 \<and> e = 0 \<and> f = 0xFFFF
      then Some (Ipv4 (high_byte g) (low_byte g) (high_byte h) (low_byte h)) else None)"

fun to_ipv4 :: "ipv6 \<Rightarrow> ipv4 option" where
  "to_ipv4 (Ipv6 a b c d e f g h) =
     (if a = 0 \<and> b = 0 \<and> c = 0 \<and> d = 0 \<and> e = 0 \<and> (f = 0 \<or> f = 0xFFFF)
      then Some (Ipv4 (high_byte g) (low_byte g) (high_byte h) (low_byte h)) else None)"

lemma segment_bytes [simp]:
  "high_byte (segment hi lo) = hi" "low_byte (segment hi lo) = lo"
proof -
  have hi: "unat hi < 256" and lo: "unat lo < 256"
    using unsigned_less [of hi, where ?'a = nat] unsigned_less [of lo, where ?'a = nat] by simp_all
  then have n: "unat (segment hi lo) = unat hi * 256 + unat lo"
    unfolding segment_def unsigned_of_nat take_bit_eq_mod by simp
  have "unat (high_byte (segment hi lo)) = unat hi"
    using hi lo unfolding high_byte_def unsigned_ucast_eq unat_drop_bit_eq n
    by (simp add: take_bit_eq_mod drop_bit_eq_div)
  then show "high_byte (segment hi lo) = hi" by (simp add: word_unat_eq_iff)
  have "unat (low_byte (segment hi lo)) = unat lo"
    using lo by (simp add: low_byte_def unsigned_ucast_eq n take_bit_eq_mod)
  then show "low_byte (segment hi lo) = lo" by (simp add: word_unat_eq_iff)
qed

section \<open>Parsing\<close>

text \<open>
  \<open>read_number\<close>: at most \<open>max\<close> digits of the radix, at least one, no leading zero unless allowed
  (a lone zero is fine), and the value in range. Gives the value and the rest.
\<close>

definition digit_value :: "nat \<Rightarrow> char \<Rightarrow> nat option" where
  "digit_value radix c =
     (case hex_val c of Some v \<Rightarrow> if v < radix then Some v else None | None \<Rightarrow> None)"

fun read_digits :: "nat \<Rightarrow> string \<Rightarrow> nat list \<times> string" where
  "read_digits radix [] = ([], [])"
| "read_digits radix (c # s) =
     (case digit_value radix c of
        None \<Rightarrow> ([], c # s)
      | Some v \<Rightarrow> (let (vs, r) = read_digits radix s in (v # vs, r)))"

definition read_number :: "nat \<Rightarrow> nat \<Rightarrow> bool \<Rightarrow> nat \<Rightarrow> string \<Rightarrow> (nat \<times> string) option" where
  "read_number radix maxd zero_prefix maxv s =
     (let (vs, r) = read_digits radix s; n = foldl (\<lambda>acc v. acc * radix + v) 0 vs
      in if vs = [] \<or> length vs > maxd then None
         else if \<not> zero_prefix \<and> hd vs = 0 \<and> length vs > 1 then None
         else if n > maxv then None
         else Some (n, r))"

definition read_char :: "char \<Rightarrow> string \<Rightarrow> string option" where
  "read_char c s = (case s of x # r \<Rightarrow> if x = c then Some r else None | [] \<Rightarrow> None)"

definition read_octet :: "string \<Rightarrow> (u8 \<times> string) option" where
  "read_octet s = map_option (\<lambda>(n, r). (of_nat n, r)) (read_number 10 3 False 255 s)"

definition read_ipv4 :: "string \<Rightarrow> (ipv4 \<times> string) option" where
  "read_ipv4 s =
     Option.bind (read_octet s) (\<lambda>(a, s).
     Option.bind (read_char (CHR ''.'') s) (\<lambda>s.
     Option.bind (read_octet s) (\<lambda>(b, s).
     Option.bind (read_char (CHR ''.'') s) (\<lambda>s.
     Option.bind (read_octet s) (\<lambda>(c, s).
     Option.bind (read_char (CHR ''.'') s) (\<lambda>s.
     Option.bind (read_octet s) (\<lambda>(d, s). Some (Ipv4 a b c d, s))))))))"

text \<open>
  \<open>read_groups\<close>: up to \<open>limit\<close> groups, a colon before every group but the first; an IPv4 tail
  counts as two groups and ends the run. \<open>i\<close> counts the groups read so far.
\<close>

definition read_sep :: "nat \<Rightarrow> string \<Rightarrow> string option" where
  "read_sep i s = (if i = 0 then Some s else read_char (CHR '':'') s)"

fun read_groups :: "nat \<Rightarrow> nat \<Rightarrow> string \<Rightarrow> u16 list \<times> bool \<times> string" where
  "read_groups 0 i s = ([], False, s)"
| "read_groups (Suc left) i s =
     (case (if left > 0 then Option.bind (read_sep i s) read_ipv4 else None) of
        Some (Ipv4 a b c d, r) \<Rightarrow> ([segment a b, segment c d], True, r)
      | None \<Rightarrow>
          (case Option.bind (read_sep i s) (read_number 16 4 True 0xFFFF) of
             None \<Rightarrow> ([], False, s)
           | Some (n, r) \<Rightarrow>
               (let (gs, v4, r') = read_groups left (Suc i) r in (of_nat n # gs, v4, r'))))"

fun ipv6_of_list :: "u16 list \<Rightarrow> ipv6 option" where
  "ipv6_of_list [a, b, c, d, e, f, g, h] = Some (Ipv6 a b c d e f g h)"
| "ipv6_of_list _ = None"

definition read_ipv6 :: "string \<Rightarrow> (ipv6 \<times> string) option" where
  "read_ipv6 s =
     (let (hd8, v4, r) = read_groups 8 0 s
      in if length hd8 = 8 then map_option (\<lambda>ip. (ip, r)) (ipv6_of_list hd8)
         else if v4 then None
         else Option.bind (read_char (CHR '':'') r) (\<lambda>r.
              Option.bind (read_char (CHR '':'') r) (\<lambda>r.
                let limit = 8 - (length hd8 + 1); (tl7, _, r) = read_groups limit 0 r
                in map_option (\<lambda>ip. (ip, r))
                     (ipv6_of_list (hd8 @ replicate (8 - length hd8 - length tl7) 0 @ tl7)))))"

definition whole :: "('a \<times> string) option \<Rightarrow> 'a option" where
  "whole x = (case x of Some (a, r) \<Rightarrow> if r = [] then Some a else None | None \<Rightarrow> None)"

definition parse_ipv6 :: "string \<Rightarrow> ipv6 option" where
  "parse_ipv6 s = whole (read_ipv6 s)"

text \<open>An IPv4 text is at most fifteen characters; \<open>IpAddr\<close> tries IPv4 first, then IPv6.\<close>

definition parse_ipv4 :: "string \<Rightarrow> ipv4 option" where
  "parse_ipv4 s = (if length s > 15 then None else whole (read_ipv4 s))"

definition parse_ip :: "string \<Rightarrow> ip_addr option" where
  "parse_ip s =
     (case read_ipv4 s of
        Some (a, r) \<Rightarrow> (if r = [] then Some (V4 a) else None)
      | None \<Rightarrow> map_option V6 (whole (read_ipv6 s)))"

text \<open>Evaluating the parser on a literal by the simplifier.\<close>

lemma read_groups_none:
  "read_ipv4 s = None \<Longrightarrow> read_number 16 4 True 65535 s = None \<Longrightarrow> read_groups n 0 s = ([], False, s)"
  by (cases n) (simp_all add: read_sep_def)

text \<open>A text that starts with a character that is no hexadecimal digit and no colon is a name.\<close>

lemma parse_ip_name: "hex_val c = None \<Longrightarrow> c \<noteq> CHR '':'' \<Longrightarrow> parse_ip (c # s) = None"
proof -
  assume c: "hex_val c = None" "c \<noteq> CHR '':''"
  then have n: "read_number r m z top_v (c # s) = None" for r m z top_v
    by (simp add: read_number_def digit_value_def)
  then have v4: "read_ipv4 (c # s) = None" by (simp add: read_ipv4_def read_octet_def)
  have "read_ipv6 (c # s) = None"
    using c by (simp add: read_ipv6_def read_groups_none v4 n read_char_def)
  then show ?thesis by (simp add: parse_ip_def v4 whole_def)
qed

lemmas addr_eval = parse_ip_def read_ipv4_def read_ipv6_def read_octet_def read_number_def
  read_char_def read_sep_def whole_def digit_value_def hex_val_def is_digit_def code_def

section \<open>Display\<close>

text \<open>
  \<open>Display\<close> of an address: dotted decimal; for IPv6 the mapped form, or lower-case hexadecimal groups
  with the first longest run of at least two zero groups written \<open>::\<close>.
\<close>

fun show_ipv4 :: "ipv4 \<Rightarrow> string" where
  "show_ipv4 (Ipv4 a b c d) = join ''.'' (map (\<lambda>x. dec_nat (unat x)) [a, b, c, d])"

fun hex_nat :: "nat \<Rightarrow> string" where
  "hex_nat n = (if n < 16 then [hex_digit_lower n] else hex_nat (n div 16) @ [hex_digit_lower (n mod 16)])"

fun zero_run :: "u16 list \<Rightarrow> nat" where
  "zero_run [] = 0"
| "zero_run (s # ss) = (if s = 0 then Suc (zero_run ss) else 0)"

text \<open>Start and length of the first longest run of zero groups; \<open>i\<close> is the position of the list's head.\<close>

fun longest_zeros :: "nat \<Rightarrow> u16 list \<Rightarrow> nat \<times> nat \<Rightarrow> nat \<times> nat" where
  "longest_zeros i [] best = best"
| "longest_zeros i (s # ss) best =
     longest_zeros (Suc i) ss (if zero_run (s # ss) > snd best then (i, zero_run (s # ss)) else best)"

definition show_groups :: "u16 list \<Rightarrow> string" where
  "show_groups gs = join '':'' (map (\<lambda>g. hex_nat (unat g)) gs)"

fun v6_segments :: "ipv6 \<Rightarrow> u16 list" where
  "v6_segments (Ipv6 a b c d e f g h) = [a, b, c, d, e, f, g, h]"

definition show_ipv6 :: "ipv6 \<Rightarrow> string" where
  "show_ipv6 ip =
     (case to_ipv4_mapped ip of
        Some v4 \<Rightarrow> ''::ffff:'' @ show_ipv4 v4
      | None \<Rightarrow>
          (let segs = v6_segments ip; (start, len) = longest_zeros 0 segs (0, 0)
           in if len > 1 then show_groups (take start segs) @ ''::'' @ show_groups (drop (start + len) segs)
              else show_groups segs))"

fun show_ip :: "ip_addr \<Rightarrow> string" where
  "show_ip (V4 ip) = show_ipv4 ip"
| "show_ip (V6 ip) = show_ipv6 ip"

fun ip_is_unspecified :: "ip_addr \<Rightarrow> bool" where
  "ip_is_unspecified (V4 ip) = v4_is_unspecified ip"
| "ip_is_unspecified (V6 ip) = v6_is_unspecified ip"

text \<open>The characters an address is displayed with.\<close>

definition addr_char :: "char \<Rightarrow> bool" where
  "addr_char c \<longleftrightarrow> is_ascii_alphanumeric c \<or> c = CHR ''.'' \<or> c = CHR '':''"

lemma addr_char_dec: "list_all addr_char (dec_nat n)"
  by (rule list.pred_mono_strong [OF dec_nat_digits]) (simp add: addr_char_def is_ascii_alphanumeric_def)

lemma list_all_join:
  "list_all P sep \<Longrightarrow> (\<And>p. p \<in> set ps \<Longrightarrow> list_all P p) \<Longrightarrow> list_all P (join sep ps)"
  using set_join [of sep ps] by (auto simp: list_all_iff)

lemma addr_char_punct: "addr_char (CHR ''.'')" "addr_char (CHR '':'')"
  by (simp_all add: addr_char_def)

lemma addr_char_ipv4: "list_all addr_char (show_ipv4 ip)"
  by (cases ip) (auto intro!: list_all_join simp: addr_char_dec addr_char_punct simp del: join.simps)

lemma hex_digit_lower_char: "d < 16 \<Longrightarrow> addr_char (hex_digit_lower d)"
  by (auto simp: hex_digit_lower_def addr_char_def is_ascii_alphanumeric_def is_digit_def is_lower_def)

lemma addr_char_hex: "list_all addr_char (hex_nat n)"
  by (induction n rule: hex_nat.induct) (simp add: hex_digit_lower_char)

lemma addr_char_groups: "list_all addr_char (show_groups gs)"
  unfolding show_groups_def by (rule list_all_join) (auto simp: addr_char_punct addr_char_hex simp del: hex_nat.simps)

lemma show_ip_chars: "list_all addr_char (show_ip ip)"
proof (cases ip)
  case (V6 v6)
  have "list_all addr_char ''::ffff:''"
    by (simp add: addr_char_def is_ascii_alphanumeric_def is_lower_def code_def)
  then show ?thesis
    unfolding V6 by (auto simp: show_ipv6_def Let_def addr_char_ipv4 addr_char_groups addr_char_punct
        split: option.splits prod.splits)
qed (simp add: addr_char_ipv4)

section \<open>Socket addresses and header maps\<close>

text \<open>
  A header map holds its fields in order, each name in lower case, the value as its bytes. \<open>get\<close>
  answers the first field of a name; \<open>to_str\<close> succeeds on visible ASCII, space and tab.
\<close>

datatype socket_addr = SocketAddr (sock_ip: ip_addr) (sock_port: u16)

type_synonym header_map = "(string \<times> string) list"

definition header_get :: "header_map \<Rightarrow> string \<Rightarrow> string option" where
  "header_get hs name = map_of hs name"

definition contains_key :: "header_map \<Rightarrow> string \<Rightarrow> bool" where
  "contains_key hs name \<longleftrightarrow> header_get hs name \<noteq> None"

definition visible_char :: "char \<Rightarrow> bool" where
  "visible_char c \<longleftrightarrow> 32 \<le> code c \<and> code c < 127 \<or> code c = 9"

definition to_str :: "string \<Rightarrow> string option" where
  "to_str v = (if list_all visible_char v then Some v else None)"

end
