(* ===== verification/Ssrf.thy ===== *)
theory Ssrf
  imports Models Net_Addr
begin

text \<open>
  The shared address policy of \<open>fumox-core/src/ssrf.rs\<close>: \<open>check_ip\<close> vets one address, the vetted list
  of a resolver answer is deduplicated and capped (\<open>vet_resolved_addrs\<close>, \<open>cap_vetted\<close>), and
  \<open>pick_vetted\<close> picks the address that is dialled. The resolver is a parameter. The policy is compared
  with a list of address blocks in CIDR notation over the numeric value of an address.
\<close>

unbundle bit_operations_syntax

section \<open>One address\<close>

fun check_ipv4 :: "ipv4 \<Rightarrow> string + unit" where
  "check_ipv4 (Ipv4 a b c d) =
     (let v4 = Ipv4 a b c d in
      if v4_is_loopback v4 then Inl ''loopback address''
      else if v4_is_private v4 then Inl ''RFC1918 private address''
      else if v4_is_link_local v4 then Inl ''link-local address (cloud metadata range)''
      else if v4_is_unspecified v4 then Inl ''unspecified address''
      else if v4_is_broadcast v4 then Inl ''broadcast address''
      else if v4_is_multicast v4 then Inl ''multicast address''
      else if a = 0 then Inl ''0.0.0.0/8''
      else if a = 100 \<and> (b AND 0xC0) = 64 then Inl ''100.64.0.0/10 CGNAT''
      else if a = 198 \<and> (b = 18 \<or> b = 19) then Inl ''198.18.0.0/15 benchmarking''
      else if a = 192 \<and> b = 0 then Inl ''192.0.0.0/24 IETF''
      else if a = 192 \<and> b = 2 then Inl ''192.0.2.0/24 TEST-NET-1''
      else if a = 198 \<and> b = 51 \<and> c = 100 then Inl ''198.51.100.0/24 TEST-NET-2''
      else if a = 203 \<and> b = 0 \<and> c = 113 then Inl ''203.0.113.0/24 TEST-NET-3''
      else Inr ())"

definition embedded_v4 :: "u16 \<Rightarrow> u16 \<Rightarrow> ipv4" where
  "embedded_v4 high low =
     Ipv4 (ucast (drop_bit 8 high)) (ucast (high AND 0xFF)) (ucast (drop_bit 8 low)) (ucast (low AND 0xFF))"

fun v6_is_multicast :: "ipv6 \<Rightarrow> bool" where
  "v6_is_multicast (Ipv6 a _ _ _ _ _ _ _) = ((a AND 0xFF00) = 0xFF00)"

fun check_ipv6_tail :: "ipv6 \<Rightarrow> string + unit" where
  "check_ipv6_tail (Ipv6 s0 s1 s2 s3 s4 s5 s6 s7) =
     (if (s0 AND 0xFFC0) = 0xFE80 then Inl ''link-local address''
      else if (s0 AND 0xFE00) = 0xFC00 then Inl ''unique-local address''
      else if (s0 AND 0xFFC0) = 0xFEC0 then Inl ''site-local address (deprecated fec0::/10)''
      else if s0 = 0x0064 \<and> s1 = 0xFF9B \<and> s2 = 0 \<and> s3 = 0 \<and> s4 = 0 \<and> s5 = 0
      then check_ipv4 (embedded_v4 s6 s7)
      else if s0 = 0x2002 then check_ipv4 (embedded_v4 s1 s2)
      else Inr ())"

definition check_ipv6 :: "ipv6 \<Rightarrow> string + unit" where
  "check_ipv6 v6 =
     (case to_ipv4_mapped v6 of
        Some mapped \<Rightarrow> check_ipv4 mapped
      | None \<Rightarrow>
          if v6_is_loopback v6 then Inl ''loopback address''
          else if v6_is_unspecified v6 then Inl ''unspecified address''
          else (case to_ipv4 v6 of
                  Some v4 \<Rightarrow> check_ipv4 v4
                | None \<Rightarrow> if v6_is_multicast v6 then Inl ''multicast address''
                          else check_ipv6_tail v6))"

definition check_ip :: "ip_addr \<Rightarrow> bool \<Rightarrow> string + unit" where
  "check_ip ip allow_private =
     (if allow_private then Inr ()
      else (case ip of V4 v4 \<Rightarrow> check_ipv4 v4 | V6 v6 \<Rightarrow> check_ipv6 v6))"

section \<open>A resolver answer\<close>

definition MAX_VETTED_ADDRESSES :: nat where
  "MAX_VETTED_ADDRESSES = 4"

fun first_where :: "('a \<Rightarrow> bool) \<Rightarrow> 'a list \<Rightarrow> 'a option" where
  "first_where P [] = None"
| "first_where P (x # xs) = (if P x then Some x else first_where P xs)"

fun pick_vetted :: "ip_addr list \<Rightarrow> IpFamily \<Rightarrow> ip_addr option" where
  "pick_vetted addrs AnyFamily =
     (case first_where is_ipv4 addrs of
        Some ip \<Rightarrow> Some ip
      | None \<Rightarrow> (case addrs of [] \<Rightarrow> None | ip # _ \<Rightarrow> Some ip))"
| "pick_vetted addrs Ipv4Family = first_where is_ipv4 addrs"
| "pick_vetted addrs Ipv6Family = first_where is_ipv6 addrs"

text \<open>
  The first loop of \<open>cap_vetted\<close> reserves one slot per family, with its break at the cap; the second
  fills the remaining slots in resolver order. Both work on the \<open>keep\<close> flags of the list.
\<close>

fun reserve_loop :: "ip_addr list \<Rightarrow> bool \<Rightarrow> bool \<Rightarrow> nat \<Rightarrow> bool list \<times> nat" where
  "reserve_loop [] v4_reserved v6_reserved kept = ([], kept)"
| "reserve_loop (ip # ips) v4_reserved v6_reserved kept =
     (if (if is_ipv4 ip then v4_reserved else v6_reserved)
      then (let (keep, k) = reserve_loop ips v4_reserved v6_reserved kept in (False # keep, k))
      else if kept + 1 = MAX_VETTED_ADDRESSES
      then (True # replicate (length ips) False, kept + 1)
      else (let (keep, k) = reserve_loop ips (is_ipv4 ip \<or> v4_reserved) (\<not> is_ipv4 ip \<or> v6_reserved)
                              (kept + 1)
            in (True # keep, k)))"

fun fill_loop :: "bool list \<Rightarrow> nat \<Rightarrow> bool list" where
  "fill_loop [] kept = []"
| "fill_loop (k # keep) kept =
     (if kept = MAX_VETTED_ADDRESSES then k # keep
      else if \<not> k then True # fill_loop keep (kept + 1)
      else k # fill_loop keep kept)"

definition select_kept :: "'a list \<Rightarrow> bool list \<Rightarrow> 'a list" where
  "select_kept xs keep = map fst (filter snd (zip xs keep))"

definition cap_vetted :: "ip_addr list \<Rightarrow> ip_addr list" where
  "cap_vetted addrs =
     (if length addrs \<le> MAX_VETTED_ADDRESSES then addrs
      else (let (keep, kept) = reserve_loop addrs False False 0
            in select_kept addrs (fill_loop keep kept)))"

fun vet_loop :: "string \<Rightarrow> bool \<Rightarrow> ip_addr list \<Rightarrow> ip_addr list \<Rightarrow> string + ip_addr list" where
  "vet_loop host allow_private addrs [] = Inr addrs"
| "vet_loop host allow_private addrs (ip # lookup) =
     bind_res (map_err (\<lambda>reason. host @ '': '' @ reason) (check_ip ip allow_private)) (\<lambda>_.
       vet_loop host allow_private (if ip \<in> set addrs then addrs else addrs @ [ip]) lookup)"

definition vet_resolved_addrs :: "string \<Rightarrow> bool \<Rightarrow> ip_addr list \<Rightarrow> string + ip_addr list" where
  "vet_resolved_addrs host allow_private lookup =
     bind_res (vet_loop host allow_private [] lookup) (\<lambda>addrs.
       if addrs = [] then Inl (''DNS resolution returned no addresses for '' @ host)
       else Inr (cap_vetted addrs))"

text \<open>
  A lookup ends with addresses (the ports are the constant 0 of the query and are dropped), with an
  I/O error, or not before the timeout.
\<close>

datatype lookup_outcome = Resolved "ip_addr list" | LookupFailed string | LookupTimedOut

fun timeout_lookup :: "string \<Rightarrow> nat \<Rightarrow> lookup_outcome \<Rightarrow> string + ip_addr list" where
  "timeout_lookup host dns_timeout (Resolved addrs) = Inr addrs"
| "timeout_lookup host dns_timeout (LookupFailed e) =
     Inl (''DNS resolution failed for '' @ host @ '': '' @ e)"
| "timeout_lookup host dns_timeout LookupTimedOut =
     Inl (''DNS resolution timed out after '' @ dec_nat dns_timeout @ ''s for '' @ host)"

definition vet_probe_host_addrs ::
  "(string \<Rightarrow> lookup_outcome) \<Rightarrow> string \<Rightarrow> bool \<Rightarrow> nat \<Rightarrow> string + ip_addr list" where
  "vet_probe_host_addrs resolver host allow_private dns_timeout =
     (case parse_ip host of
        Some ip \<Rightarrow> bind_res (check_ip ip allow_private) (\<lambda>_. Inr [ip])
      | None \<Rightarrow> bind_res (timeout_lookup host dns_timeout (resolver host)) (\<lambda>lookup.
          vet_resolved_addrs host allow_private lookup))"

definition vet_probe_host ::
  "(string \<Rightarrow> lookup_outcome) \<Rightarrow> string \<Rightarrow> bool \<Rightarrow> nat \<Rightarrow> string + unit" where
  "vet_probe_host resolver host allow_private dns_timeout =
     bind_res (vet_probe_host_addrs resolver host allow_private dns_timeout) (\<lambda>_. Inr ())"

section \<open>The policy as a list of address blocks\<close>

fun v4_value :: "ipv4 \<Rightarrow> nat" where
  "v4_value (Ipv4 a b c d) = ((unat a * 256 + unat b) * 256 + unat c) * 256 + unat d"

fun v6_value :: "ipv6 \<Rightarrow> nat" where
  "v6_value (Ipv6 a b c d e f g h) =
     ((((((unat a * 65536 + unat b) * 65536 + unat c) * 65536 + unat d) * 65536 + unat e) * 65536
       + unat f) * 65536 + unat g) * 65536 + unat h"

text \<open>\<open>in_block w (base, len) n\<close>: the top \<open>len\<close> of the \<open>w\<close> bits of \<open>n\<close> are those of \<open>base\<close>.\<close>

definition in_block :: "nat \<Rightarrow> nat \<times> nat \<Rightarrow> nat \<Rightarrow> bool" where
  "in_block w blk n \<longleftrightarrow> n div 2 ^ (w - snd blk) = fst blk div 2 ^ (w - snd blk)"

definition BLOCKED_V4 :: "(nat \<times> nat) list" where
  "BLOCKED_V4 = map (\<lambda>(ip, len). (v4_value ip, len))
     [(Ipv4 0 0 0 0, 8), (Ipv4 10 0 0 0, 8), (Ipv4 100 64 0 0, 10), (Ipv4 127 0 0 0, 8),
      (Ipv4 169 254 0 0, 16), (Ipv4 172 16 0 0, 12), (Ipv4 192 0 0 0, 16), (Ipv4 192 2 0 0, 16),
      (Ipv4 192 168 0 0, 16), (Ipv4 198 18 0 0, 15), (Ipv4 198 51 100 0, 24), (Ipv4 203 0 113 0, 24),
      (Ipv4 224 0 0 0, 4), (Ipv4 255 255 255 255, 32)]"

lemma byte_less [simp]: "unat (a :: u8) < 256"
  using unsigned_less [of a, where ?'a = nat] by simp

lemma seg_less [simp]: "unat (a :: u16) < 65536"
  using unsigned_less [of a, where ?'a = nat] by simp

lemma eq_div_iff: "0 < k \<Longrightarrow> (n :: nat) div k = q \<longleftrightarrow> q * k \<le> n \<and> n < (q + 1) * k"
  by (metis Suc_eq_plus1 div_nat_eqI dividend_less_times_div mult.commute mult_Suc_right
      times_div_less_eq_dividend add.commute)

lemma high_bits_eq:
  fixes w c :: "'a :: len word"
  assumes "m = NOT (mask n)" and "c AND m = c"
  shows "w AND m = c \<longleftrightarrow> unat w div 2 ^ n = unat c div 2 ^ n"
proof -
  have "w AND m = c AND m \<longleftrightarrow> drop_bit n w = drop_bit n c"
  proof
    assume *: "w AND m = c AND m"
    show "drop_bit n w = drop_bit n c"
    proof (rule bit_eqI)
      fix k assume "possible_bit TYPE('a word) k"
      from * have "bit (w AND m) (n + k) = bit (c AND m) (n + k)" by simp
      then show "bit (drop_bit n w) k = bit (drop_bit n c) k"
        by (cases "n + k < LENGTH('a)")
          (auto simp: assms(1) bit_simps add.commute dest: bit_imp_le_length)
    qed
  next
    assume *: "drop_bit n w = drop_bit n c"
    show "w AND m = c AND m"
    proof (rule bit_eqI)
      fix k
      from * have "bit (drop_bit n w) (k - n) = bit (drop_bit n c) (k - n)" by simp
      then show "bit (w AND m) k = bit (c AND m) k"
        by (cases "n \<le> k") (auto simp: assms(1) bit_simps)
    qed
  qed
  moreover have "drop_bit n w = drop_bit n c \<longleftrightarrow> unat w div 2 ^ n = unat c div 2 ^ n"
    unfolding word_unat_eq_iff [of "drop_bit n w"] unat_drop_bit_eq by (simp add: drop_bit_eq_div)
  ultimately show ?thesis unfolding assms(2) by (rule trans)
qed

lemma u8_and_C0: "(b :: u8) AND 0xC0 = 64 \<longleftrightarrow> unat b div 64 = 1"
  by (subst high_bits_eq [where n = 6]) (simp_all add: mask_eq_exp_minus_1)

lemma u16_masks:
  "(s :: u16) AND 0xFFC0 = 0xFE80 \<longleftrightarrow> unat s div 64 = 0x3FA"
  "(s :: u16) AND 0xFFC0 = 0xFEC0 \<longleftrightarrow> unat s div 64 = 0x3FB"
  "(s :: u16) AND 0xFE00 = 0xFC00 \<longleftrightarrow> unat s div 512 = 0x7E"
  "(s :: u16) AND 0xFF00 = 0xFF00 \<longleftrightarrow> unat s div 256 = 0xFF"
  by (subst high_bits_eq [where n = 6], simp_all add: mask_eq_exp_minus_1)
    (subst high_bits_eq [where n = 6], simp_all add: mask_eq_exp_minus_1,
     (subst high_bits_eq [where n = 9], simp_all add: mask_eq_exp_minus_1),
     (subst high_bits_eq [where n = 8], simp_all add: mask_eq_exp_minus_1))

lemma radix_div: "r < k \<Longrightarrow> ((q :: nat) * k + r) div k = q"
  by simp

lemma v4_value_div:
  "v4_value (Ipv4 a b c d) div 256 = (unat a * 256 + unat b) * 256 + unat c"
  "v4_value (Ipv4 a b c d) div 65536 = unat a * 256 + unat b"
  "v4_value (Ipv4 a b c d) div 16777216 = unat a"
proof -
  let ?v = "v4_value (Ipv4 a b c d)"
  show 1: "?v div 256 = (unat a * 256 + unat b) * 256 + unat c"
    unfolding v4_value.simps by (rule radix_div [OF byte_less])
  have "?v div 65536 = ?v div 256 div 256"
    by (simp only: div_mult2_eq [symmetric]) simp
  then show 2: "?v div 65536 = unat a * 256 + unat b"
    unfolding 1 using radix_div [OF byte_less] by (rule trans)
  have "?v div 16777216 = ?v div 65536 div 256"
    by (simp only: div_mult2_eq [symmetric]) simp
  then show "?v div 16777216 = unat a"
    unfolding 2 using radix_div [OF byte_less] by (rule trans)
qed

lemma v4_value_div_odd:
  "v4_value (Ipv4 a b c d) div 268435456 = unat a div 16"
  "v4_value (Ipv4 a b c d) div 4194304 = 4 * unat a + unat b div 64"
  "v4_value (Ipv4 a b c d) div 1048576 = 16 * unat a + unat b div 16"
  "v4_value (Ipv4 a b c d) div 131072 = 128 * unat a + unat b div 2"
proof -
  let ?v = "v4_value (Ipv4 a b c d)"
  have s: "(x * 256 + y) div 64 = 4 * x + y div 64" "(x * 256 + y) div 16 = 16 * x + y div 16"
    "(x * 256 + y) div 2 = 128 * x + y div 2" for x y :: nat
    by presburger+
  have "?v div 268435456 = ?v div 16777216 div 16" "?v div 4194304 = ?v div 65536 div 64"
    "?v div 1048576 = ?v div 65536 div 16" "?v div 131072 = ?v div 65536 div 2"
    by (simp_all only: div_mult2_eq [symmetric]) simp_all
  then show "?v div 268435456 = unat a div 16" "?v div 4194304 = 4 * unat a + unat b div 64"
    "?v div 1048576 = 16 * unat a + unat b div 16" "?v div 131072 = 128 * unat a + unat b div 2"
    by (simp_all only: v4_value_div s)
qed

text \<open>Every block of the list as a condition on octets, under the octets' bound.\<close>

lemma radix_digits: "r < k \<Longrightarrow> k * q + r = n \<longleftrightarrow> q = n div k \<and> r = n mod (k :: nat)"
  by auto

lemma radix_digits': "r < k \<Longrightarrow> q * k + r = n \<longleftrightarrow> q = n div k \<and> r = n mod (k :: nat)"
  by (simp add: mult.commute [of q] radix_digits)

lemma octet_blocks:
  fixes a b c d :: nat
  assumes "b < 256" "c < 256"
  shows "4 * a + b div 64 = 401 \<longleftrightarrow> a = 100 \<and> b div 64 = 1"
    and "16 * a + b div 16 = 2753 \<longleftrightarrow> a = 172 \<and> 16 \<le> b \<and> b \<le> 31"
    and "128 * a + b div 2 = 25353 \<longleftrightarrow> a = 198 \<and> (b = 18 \<or> b = 19)"
    and "a div 16 = 14 \<longleftrightarrow> 224 \<le> a \<and> a \<le> 239"
    and "a * 256 + b = 43518 \<longleftrightarrow> a = 169 \<and> b = 254"
    and "a * 256 + b = 49152 \<longleftrightarrow> a = 192 \<and> b = 0"
    and "a * 256 + b = 49154 \<longleftrightarrow> a = 192 \<and> b = 2"
    and "a * 256 + b = 49320 \<longleftrightarrow> a = 192 \<and> b = 168"
    and "(a * 256 + b) * 256 + c = 12989284 \<longleftrightarrow> a = 198 \<and> b = 51 \<and> c = 100"
    and "(a * 256 + b) * 256 + c = 13303921 \<longleftrightarrow> a = 203 \<and> b = 0 \<and> c = 113"
proof -
  have d: "b div 64 < 4" "b div 16 < 16" "b div 2 < 128" using assms by simp_all
  show "4 * a + b div 64 = 401 \<longleftrightarrow> a = 100 \<and> b div 64 = 1"
    by (simp only: radix_digits [OF d(1)]) simp
  have "b div 16 = 1 \<longleftrightarrow> 16 \<le> b \<and> b \<le> 31" by (auto simp: eq_div_iff)
  moreover have "b div 2 = 9 \<longleftrightarrow> b = 18 \<or> b = 19" by (auto simp: eq_div_iff)
  ultimately show "16 * a + b div 16 = 2753 \<longleftrightarrow> a = 172 \<and> 16 \<le> b \<and> b \<le> 31"
    "128 * a + b div 2 = 25353 \<longleftrightarrow> a = 198 \<and> (b = 18 \<or> b = 19)"
    by (simp_all only: radix_digits [OF d(2)] radix_digits [OF d(3)]) simp_all
  show "a div 16 = 14 \<longleftrightarrow> 224 \<le> a \<and> a \<le> 239" by (auto simp: eq_div_iff)
qed (simp_all only: radix_digits' [OF assms(1)] radix_digits' [OF assms(2)], simp_all)

lemma u8_lits:
  fixes a :: u8
  shows "a = 0 \<longleftrightarrow> unat a = 0" "a = numeral k \<longleftrightarrow> unat a = numeral k mod 256"
    "numeral k \<le> a \<longleftrightarrow> numeral k mod 256 \<le> unat a" "a \<le> numeral k \<longleftrightarrow> unat a \<le> numeral k mod 256"
  by (simp_all add: word_unat_eq_iff word_le_nat_alt unsigned_numeral take_bit_eq_mod
      del: unat_eq_0)

lemma is_ok_if: "is_ok (if P then Inl e else y) \<longleftrightarrow> \<not> P \<and> is_ok y"
  by simp

lemma list_ex_simps: "list_ex P [] = False" "list_ex P (x # xs) = (P x \<or> list_ex P xs)"
  by simp_all

lemma BLOCKED_V4_eval:
  "BLOCKED_V4 = [(0, 8), (167772160, 8), (1681915904, 10), (2130706432, 8), (2851995648, 16),
     (2886729728, 12), (3221225472, 16), (3221356544, 16), (3232235520, 16), (3323068416, 15),
     (3325256704, 24), (3405803776, 24), (3758096384, 4), (4294967295, 32)]"
  by (simp add: BLOCKED_V4_def)

lemma check_ipv4_policy:
  "is_ok (check_ipv4 ip) \<longleftrightarrow> \<not> list_ex (\<lambda>blk. in_block 32 blk (v4_value ip)) BLOCKED_V4"
proof (cases ip)
  case (Ipv4 a b c d)
  let ?a = "unat a" and ?b = "unat b" and ?c = "unat c"
  have n32: "v4_value ip = 4294967295 \<longleftrightarrow> ?a = 255 \<and> ?b = 255 \<and> ?c = 255 \<and> unat d = 255"
    unfolding Ipv4 v4_value.simps
    by (simp only: radix_digits' [OF byte_less]) simp
  have "list_ex (\<lambda>blk. in_block 32 blk (v4_value ip)) BLOCKED_V4 \<longleftrightarrow>
      ?a = 0 \<or> ?a = 10 \<or> ?a = 100 \<and> ?b div 64 = 1 \<or> ?a = 127 \<or> ?a = 169 \<and> ?b = 254 \<or>
      ?a = 172 \<and> 16 \<le> ?b \<and> ?b \<le> 31 \<or> ?a = 192 \<and> ?b = 0 \<or> ?a = 192 \<and> ?b = 2 \<or>
      ?a = 192 \<and> ?b = 168 \<or> ?a = 198 \<and> (?b = 18 \<or> ?b = 19) \<or>
      ?a = 198 \<and> ?b = 51 \<and> ?c = 100 \<or> ?a = 203 \<and> ?b = 0 \<and> ?c = 113 \<or>
      224 \<le> ?a \<and> ?a \<le> 239 \<or> ?a = 255 \<and> ?b = 255 \<and> ?c = 255 \<and> unat d = 255"
  proof -
    have e: "n div 2 ^ (32 - 8) = n div 16777216" "n div 2 ^ (32 - 10) = n div 4194304"
      "n div 2 ^ (32 - 12) = n div 1048576" "n div 2 ^ (32 - 15) = n div 131072"
      "n div 2 ^ (32 - 16) = n div 65536" "n div 2 ^ (32 - 24) = n div 256"
      "n div 2 ^ (32 - 4) = n div 268435456" "n div 2 ^ (32 - 32) = n" for n :: nat
      by simp_all
    show ?thesis
      using n32 unfolding BLOCKED_V4_eval Ipv4 in_block_def list_ex_simps fst_conv snd_conv e
        v4_value_div v4_value_div_odd
      by (simp add: octet_blocks [where b = ?b and c = ?c, OF byte_less byte_less, simplified]
          del: v4_value.simps)
  qed
  then show ?thesis
    unfolding Ipv4 check_ipv4.simps Let_def is_ok_if is_ok_simps u8_and_C0
      v4_is_loopback.simps v4_is_private.simps v4_is_link_local.simps v4_is_unspecified.simps
      v4_is_broadcast.simps v4_is_multicast.simps
    by (simp add: u8_lits del: v4_value.simps unsigned_eq_0_iff neq0_conv not_gr_zero) satx
qed

definition BLOCKED_V6 :: "(nat \<times> nat) list" where
  "BLOCKED_V6 = map (\<lambda>(ip, len). (v6_value ip, len))
     [(Ipv6 0 0 0 0 0 0 0 0, 128), (Ipv6 0 0 0 0 0 0 0 1, 128), (Ipv6 0xFE80 0 0 0 0 0 0 0, 10),
      (Ipv6 0xFC00 0 0 0 0 0 0 0, 7), (Ipv6 0xFEC0 0 0 0 0 0 0 0, 10),
      (Ipv6 0xFF00 0 0 0 0 0 0 0, 8)]"

text \<open>The blocks that carry an IPv4 address, and how many bits stand to its right.\<close>

definition EMBEDDING_V6 :: "((nat \<times> nat) \<times> nat) list" where
  "EMBEDDING_V6 = map (\<lambda>(ip, len, shift). ((v6_value ip, len), shift))
     [(Ipv6 0 0 0 0 0 0xFFFF 0 0, 96, 0), (Ipv6 0 0 0 0 0 0 0 0, 96, 0),
      (Ipv6 0x64 0xFF9B 0 0 0 0 0 0, 96, 0), (Ipv6 0x2002 0 0 0 0 0 0 0, 16, 80)]"

definition blocked_v4 :: "nat \<Rightarrow> bool" where
  "blocked_v4 n \<longleftrightarrow> list_ex (\<lambda>blk. in_block 32 blk n) BLOCKED_V4"

definition blocked_v6 :: "nat \<Rightarrow> bool" where
  "blocked_v6 n \<longleftrightarrow> list_ex (\<lambda>blk. in_block 128 blk n) BLOCKED_V6 \<or>
     list_ex (\<lambda>(blk, shift). in_block 128 blk n \<and> blocked_v4 (n div 2 ^ shift mod 2 ^ 32)) EMBEDDING_V6"

fun blocked :: "ip_addr \<Rightarrow> bool" where
  "blocked (V4 ip) = blocked_v4 (v4_value ip)"
| "blocked (V6 ip) = blocked_v6 (v6_value ip)"

lemma v6_value_div:
  fixes a b c d e f g h :: u16
  defines "v \<equiv> v6_value (Ipv6 a b c d e f g h)"
  shows "v div 2 ^ 32 = ((((unat a * 65536 + unat b) * 65536 + unat c) * 65536 + unat d) * 65536 + unat e)
           * 65536 + unat f"
    and "v div 2 ^ 80 = (unat a * 65536 + unat b) * 65536 + unat c"
    and "v div 2 ^ 112 = unat a"
    and "v mod 2 ^ 32 = unat g * 65536 + unat h"
proof -
  have p: "(65536 :: nat) = 2 ^ 16" by simp
  note r = radix_div [OF seg_less, folded p]
  have split: "n div 2 ^ (16 + k) = n div 65536 div 2 ^ k" for n k :: nat
    by (simp add: power_add div_mult2_eq)
  have k: "(32 :: nat) = 16 + (16 + 0)" "(80 :: nat) = 16 + (16 + (16 + (16 + (16 + 0))))"
    "(112 :: nat) = 16 + (16 + (16 + (16 + (16 + (16 + (16 + 0))))))" by simp_all
  show 1: "v div 2 ^ 32 = ((((unat a * 65536 + unat b) * 65536 + unat c) * 65536 + unat d) * 65536 + unat e)
           * 65536 + unat f"
    unfolding k(1) split v_def v6_value.simps r by simp
  show "v div 2 ^ 80 = (unat a * 65536 + unat b) * 65536 + unat c"
    unfolding k(2) split v_def v6_value.simps r by simp
  show "v div 2 ^ 112 = unat a"
    unfolding k(3) split v_def v6_value.simps r by simp
  have "v = (v div 2 ^ 32) * 2 ^ 32 + (unat g * 65536 + unat h)"
    unfolding 1 by (simp add: v_def)
  moreover have "unat g * 65536 + unat h < 2 ^ 32"
    using seg_less [of g] seg_less [of h] by (simp del: seg_less)
  ultimately show "v mod 2 ^ 32 = unat g * 65536 + unat h"
    by (metis mod_mult_self3 mod_less)
qed

lemma byte_split: "unat (high_byte s) * 256 + unat (low_byte s) = unat s"
proof -
  have "unat (high_byte s) = unat s div 256"
    unfolding high_byte_def unsigned_ucast_eq unat_drop_bit_eq
    using seg_less [of s] by (simp add: take_bit_eq_mod drop_bit_eq_div del: seg_less)
  moreover have "unat (low_byte s) = unat s mod 256"
    unfolding low_byte_def unsigned_ucast_eq by (simp add: take_bit_eq_mod)
  ultimately show ?thesis by simp
qed

lemma ucast_low_byte: "(ucast (s AND 0xFF) :: u8) = low_byte s"
proof -
  have "(0xFF :: u16) = mask 8" by (simp add: mask_eq_exp_minus_1)
  show ?thesis
    unfolding \<open>0xFF = mask 8\<close> by (intro bit_eqI) (auto simp: low_byte_def bit_simps)
qed

lemma v4_value_embedded:
  "embedded_v4 hi lo = Ipv4 (high_byte hi) (low_byte hi) (high_byte lo) (low_byte lo)"
  "v4_value (Ipv4 (high_byte hi) (low_byte hi) (high_byte lo) (low_byte lo)) = unat hi * 65536 + unat lo"
  using byte_split [of hi] byte_split [of lo]
  by (simp_all add: embedded_v4_def ucast_low_byte high_byte_def [symmetric])

lemma u16_lits:
  fixes a :: u16
  shows "a = 0 \<longleftrightarrow> unat a = 0" "a = 1 \<longleftrightarrow> unat a = 1" "a = numeral k \<longleftrightarrow> unat a = numeral k mod 65536"
  by (simp_all add: word_unat_eq_iff unsigned_numeral take_bit_eq_mod del: unat_eq_0)

lemma v6_lists_eval:
  "BLOCKED_V6 = [(0, 128), (1, 128), (338288524927261089654018896841347694592, 10), (334965454937798799971759379190646833152, 7), (338620831926207318622244848606417780736, 10), (338953138925153547590470800371487866880, 8)]"
  "EMBEDDING_V6 = [((281470681743360, 96), 0), ((0, 96), 0), ((524413980667603649783483181312245760, 96), 0), ((42545680458834377588178886921629466624, 16), 80)]"
  by (simp_all add: BLOCKED_V6_def EMBEDDING_V6_def)

lemma v6_blocks:
  fixes a b c d e f g h :: u16
  defines "v \<equiv> v6_value (Ipv6 a b c d e f g h)"
  shows "in_block 128 (338288524927261089654018896841347694592, 10) v \<longleftrightarrow> unat a div 64 = 0x3FA"
    and "in_block 128 (338620831926207318622244848606417780736, 10) v \<longleftrightarrow> unat a div 64 = 0x3FB"
    and "in_block 128 (334965454937798799971759379190646833152, 7) v \<longleftrightarrow> unat a div 512 = 0x7E"
    and "in_block 128 (338953138925153547590470800371487866880, 8) v \<longleftrightarrow> unat a div 256 = 0xFF"
    and "in_block 128 (42545680458834377588178886921629466624, 16) v \<longleftrightarrow> unat a = 0x2002"
proof -
  note k = v6_value_div(3) [of a b c d e f g h, folded v_def]
  have split: "n div 2 ^ 118 = n div 2 ^ 112 div 64" "n div 2 ^ 121 = n div 2 ^ 112 div 512"
    "n div 2 ^ 120 = n div 2 ^ 112 div 256" for n :: nat
    by (simp_all only: div_mult2_eq [symmetric]) simp_all
  have e: "128 - 10 = (118 :: nat)" "128 - 7 = (121 :: nat)" "128 - 8 = (120 :: nat)"
    "128 - 16 = (112 :: nat)" by simp_all
  show "in_block 128 (338288524927261089654018896841347694592, 10) v \<longleftrightarrow> unat a div 64 = 0x3FA"
    "in_block 128 (338620831926207318622244848606417780736, 10) v \<longleftrightarrow> unat a div 64 = 0x3FB"
    "in_block 128 (334965454937798799971759379190646833152, 7) v \<longleftrightarrow> unat a div 512 = 0x7E"
    "in_block 128 (338953138925153547590470800371487866880, 8) v \<longleftrightarrow> unat a div 256 = 0xFF"
    "in_block 128 (42545680458834377588178886921629466624, 16) v \<longleftrightarrow> unat a = 0x2002"
    unfolding in_block_def fst_conv snd_conv e split k by simp_all
qed

lemma v6_blocks_96:
  fixes a b c d e f g h :: u16
  defines "v \<equiv> v6_value (Ipv6 a b c d e f g h)"
  shows "in_block 128 (281470681743360, 96) v \<longleftrightarrow> a = 0 \<and> b = 0 \<and> c = 0 \<and> d = 0 \<and> e = 0 \<and> f = 0xFFFF"
    and "in_block 128 (0, 96) v \<longleftrightarrow> a = 0 \<and> b = 0 \<and> c = 0 \<and> d = 0 \<and> e = 0 \<and> f = 0"
    and "in_block 128 (524413980667603649783483181312245760, 96) v \<longleftrightarrow>
      a = 0x64 \<and> b = 0xFF9B \<and> c = 0 \<and> d = 0 \<and> e = 0 \<and> f = 0"
    and "in_block 128 (0, 128) v \<longleftrightarrow>
      a = 0 \<and> b = 0 \<and> c = 0 \<and> d = 0 \<and> e = 0 \<and> f = 0 \<and> g = 0 \<and> h = 0"
    and "in_block 128 (1, 128) v \<longleftrightarrow>
      a = 0 \<and> b = 0 \<and> c = 0 \<and> d = 0 \<and> e = 0 \<and> f = 0 \<and> g = 0 \<and> h = 1"
proof -
  note k = v6_value_div(1) [of a b c d e f g h, folded v_def]
  have e96: "128 - 96 = (32 :: nat)" "128 - 128 = (0 :: nat)" by simp_all
  show "in_block 128 (281470681743360, 96) v \<longleftrightarrow> a = 0 \<and> b = 0 \<and> c = 0 \<and> d = 0 \<and> e = 0 \<and> f = 0xFFFF"
    "in_block 128 (0, 96) v \<longleftrightarrow> a = 0 \<and> b = 0 \<and> c = 0 \<and> d = 0 \<and> e = 0 \<and> f = 0"
    "in_block 128 (524413980667603649783483181312245760, 96) v \<longleftrightarrow>
      a = 0x64 \<and> b = 0xFF9B \<and> c = 0 \<and> d = 0 \<and> e = 0 \<and> f = 0"
    unfolding in_block_def fst_conv snd_conv e96 k radix_digits' [OF seg_less] u16_lits
    by (simp_all del: unsigned_eq_0_iff)
  show "in_block 128 (0, 128) v \<longleftrightarrow>
      a = 0 \<and> b = 0 \<and> c = 0 \<and> d = 0 \<and> e = 0 \<and> f = 0 \<and> g = 0 \<and> h = 0"
    "in_block 128 (1, 128) v \<longleftrightarrow>
      a = 0 \<and> b = 0 \<and> c = 0 \<and> d = 0 \<and> e = 0 \<and> f = 0 \<and> g = 0 \<and> h = 1"
    unfolding in_block_def fst_conv snd_conv e96 v_def power_0 div_by_1 v6_value.simps
      radix_digits' [OF seg_less] u16_lits
    by (simp_all del: unsigned_eq_0_iff)
qed

lemma v6_embedded:
  "v6_value (Ipv6 a b c d e f g h) div 2 ^ 0 mod 2 ^ 32 = unat g * 65536 + unat h"
  "v6_value (Ipv6 a b c d e f g h) div 2 ^ 80 mod 2 ^ 32 = unat b * 65536 + unat c"
proof -
  show "v6_value (Ipv6 a b c d e f g h) div 2 ^ 0 mod 2 ^ 32 = unat g * 65536 + unat h"
    unfolding power_0 div_by_1 by (rule v6_value_div)
  have "unat b * 65536 + unat c < 2 ^ 32"
    using seg_less [of b] seg_less [of c] by (simp del: seg_less)
  moreover have "(unat a * 65536 + unat b) * 65536 + unat c = unat a * 2 ^ 32 + (unat b * 65536 + unat c)"
    by simp
  ultimately show "v6_value (Ipv6 a b c d e f g h) div 2 ^ 80 mod 2 ^ 32 = unat b * 65536 + unat c"
    unfolding v6_value_div(2) by (metis mod_less mod_mult_self3)
qed

lemma check_ipv6_policy: "is_ok (check_ipv6 ip) \<longleftrightarrow> \<not> blocked_v6 (v6_value ip)"
proof (cases ip)
  case (Ipv6 a b c d e f g h)
  note v4 = check_ipv4_policy [unfolded blocked_v4_def [symmetric]]
  have lhs: "is_ok (check_ipv6 ip) \<longleftrightarrow>
     (let pre = a = 0 \<and> b = 0 \<and> c = 0 \<and> d = 0 \<and> e = 0; low = blocked_v4 (unat g * 65536 + unat h)
      in if pre \<and> f = 0xFFFF then \<not> low
         else if pre \<and> f = 0 then \<not> (g = 0 \<and> (h = 0 \<or> h = 1)) \<and> \<not> low
         else unat a div 256 \<noteq> 0xFF \<and> unat a div 64 \<noteq> 0x3FA \<and> unat a div 512 \<noteq> 0x7E \<and>
           unat a div 64 \<noteq> 0x3FB \<and>
           (if a = 0x64 \<and> b = 0xFF9B \<and> c = 0 \<and> d = 0 \<and> e = 0 \<and> f = 0 then \<not> low
            else a = 0x2002 \<longrightarrow> \<not> blocked_v4 (unat b * 65536 + unat c)))"
    unfolding check_ipv6_def Ipv6
    by (simp add: is_ok_if u16_masks v4 v4_value_embedded(1) v4_value_embedded(2) Let_def
        del: v4_value.simps check_ipv4.simps split: if_split) satx
  have a0: "unat a div 256 \<noteq> 0xFF" "unat a div 64 \<noteq> 0x3FA" "unat a div 512 \<noteq> 0x7E"
    "unat a div 64 \<noteq> 0x3FB" if "a = 0 \<or> a = 0x64 \<or> a = 0x2002"
    using that by auto
  have rhs: "blocked_v6 (v6_value ip) \<longleftrightarrow>
     (let pre = a = 0 \<and> b = 0 \<and> c = 0 \<and> d = 0 \<and> e = 0; low = blocked_v4 (unat g * 65536 + unat h)
      in pre \<and> f = 0 \<and> g = 0 \<and> h = 0 \<or> pre \<and> f = 0 \<and> g = 0 \<and> h = 1 \<or>
         unat a div 64 = 0x3FA \<or> unat a div 512 = 0x7E \<or> unat a div 64 = 0x3FB \<or>
         unat a div 256 = 0xFF \<or> pre \<and> f = 0xFFFF \<and> low \<or> pre \<and> f = 0 \<and> low \<or>
         (a = 0x64 \<and> b = 0xFF9B \<and> c = 0 \<and> d = 0 \<and> e = 0 \<and> f = 0) \<and> low \<or>
         a = 0x2002 \<and> blocked_v4 (unat b * 65536 + unat c))"
    unfolding blocked_v6_def v6_lists_eval list_ex_simps split_def fst_conv snd_conv Ipv6
      v6_blocks v6_blocks_96 v6_embedded u16_lits(1,2,3) Let_def
    by (simp del: unsigned_eq_0_iff)
  have f: "f = 0 \<longrightarrow> f \<noteq> 0xFFFF" by simp
  consider "a = 0" | "a = 0x64" | "a = 0x2002" | "a \<noteq> 0" "a \<noteq> 0x64" "a \<noteq> 0x2002" by blast
  then show ?thesis
  proof cases
    case 1
    then have "a \<noteq> 0x64" "a \<noteq> 0x2002" by auto
    moreover have "unat a div 256 \<noteq> 0xFF" "unat a div 64 \<noteq> 0x3FA" "unat a div 512 \<noteq> 0x7E"
      "unat a div 64 \<noteq> 0x3FB" using a0 1 by blast+
    ultimately show ?thesis unfolding lhs rhs Let_def if_bool_eq_conj using 1 f by satx
  next
    case 2
    then have "a \<noteq> 0" "a \<noteq> 0x2002" by auto
    moreover have "unat a div 256 \<noteq> 0xFF" "unat a div 64 \<noteq> 0x3FA" "unat a div 512 \<noteq> 0x7E"
      "unat a div 64 \<noteq> 0x3FB" using a0 2 by blast+
    ultimately show ?thesis unfolding lhs rhs Let_def if_bool_eq_conj using 2 by satx
  next
    case 3
    then have "a \<noteq> 0" "a \<noteq> 0x64" by auto
    moreover have "unat a div 256 \<noteq> 0xFF" "unat a div 64 \<noteq> 0x3FA" "unat a div 512 \<noteq> 0x7E"
      "unat a div 64 \<noteq> 0x3FB" using a0 3 by blast+
    ultimately show ?thesis unfolding lhs rhs Let_def if_bool_eq_conj using 3 by satx
  next
    case 4
    then show ?thesis unfolding lhs rhs Let_def if_bool_eq_conj by satx
  qed
qed

section \<open>The cap\<close>

lemma select_kept_simps [simp]:
  "select_kept [] ks = []" "select_kept xs [] = []"
  "select_kept (x # xs) (k # ks) = (if k then x # select_kept xs ks else select_kept xs ks)"
  by (simp_all add: select_kept_def)

lemma select_kept_subseq: "subseq (select_kept xs ks) xs"
  by (induction xs ks rule: list_induct2') auto

lemma length_select_kept:
  "length ks = length xs \<Longrightarrow> length (select_kept xs ks) = count_list ks True"
  by (induction xs arbitrary: ks) (auto simp: length_Suc_conv)

fun first_kept :: "('a \<Rightarrow> bool) \<Rightarrow> 'a list \<Rightarrow> bool list \<Rightarrow> bool" where
  "first_kept P (x # xs) (k # ks) = (if P x then k else first_kept P xs ks)"
| "first_kept P _ _ = True"

lemma first_where_select:
  "length ks = length xs \<Longrightarrow> first_kept P xs ks \<Longrightarrow> first_where P (select_kept xs ks) = first_where P xs"
  by (induction P xs ks rule: first_kept.induct) (auto split: if_splits)

lemma first_kept_mono:
  "list_all2 (\<longrightarrow>) ks ks' \<Longrightarrow> first_kept P xs ks \<Longrightarrow> length ks = length xs \<Longrightarrow> first_kept P xs ks'"
  by (induction P xs ks arbitrary: ks' rule: first_kept.induct)
    (auto simp: list_all2_Cons1 split: if_splits)

lemma reserve_loop_count:
  "reserve_loop ips v4 v6 kept = (keep, k) \<Longrightarrow>
     length keep = length ips \<and> k = kept + count_list keep True"
proof (induction ips v4 v6 kept arbitrary: keep k rule: reserve_loop.induct)
  case (2 ip ips v4 v6 kept)
  have "count_list (replicate n False) True = 0" for n by (induction n) simp_all
  with 2 show ?case by (fastforce simp: Let_def split: if_splits prod.splits)
qed simp

lemma reserve_loop_first:
  assumes "kept + of_bool (\<not> v4) + of_bool (\<not> v6) < MAX_VETTED_ADDRESSES"
  shows "(\<not> v4 \<longrightarrow> first_kept is_ipv4 ips (fst (reserve_loop ips v4 v6 kept))) \<and>
    (\<not> v6 \<longrightarrow> first_kept is_ipv6 ips (fst (reserve_loop ips v4 v6 kept))) \<and>
    snd (reserve_loop ips v4 v6 kept) < MAX_VETTED_ADDRESSES"
  using assms
proof (induction ips v4 v6 kept rule: reserve_loop.induct)
  case (2 ip ips v4 v6 kept)
  then show ?case
    by (cases v4; cases v6; cases "is_ipv4 ip") (auto simp: is_ipv6_def Let_def split: prod.splits)
qed simp

lemma fill_loop_mono: "list_all2 (\<longrightarrow>) ks (fill_loop ks kept)"
  by (induction ks kept rule: fill_loop.induct) (auto simp: list_all2_refl)

lemma fill_loop_length [simp]: "length (fill_loop ks kept) = length ks"
  by (induction ks kept rule: fill_loop.induct) auto

lemma fill_loop_count:
  "kept \<le> MAX_VETTED_ADDRESSES \<Longrightarrow> count_list (fill_loop ks kept) True =
     count_list ks True + min (MAX_VETTED_ADDRESSES - kept) (count_list ks False)"
  by (induction ks kept rule: fill_loop.induct) auto

lemma count_bools: "count_list ks True + count_list ks False = length ks"
  by (induction ks) auto

lemma cap_vetted_long:
  assumes "MAX_VETTED_ADDRESSES < length addrs"
  obtains ks where "cap_vetted addrs = select_kept addrs ks" "length ks = length addrs"
    "count_list ks True = MAX_VETTED_ADDRESSES"
    "first_kept is_ipv4 addrs ks" "first_kept is_ipv6 addrs ks"
proof -
  obtain keep k where r: "reserve_loop addrs False False 0 = (keep, k)" by fastforce
  from reserve_loop_count [OF r] have len: "length keep = length addrs" and k: "k = count_list keep True"
    by simp_all
  have "first_kept is_ipv4 addrs keep" "first_kept is_ipv6 addrs keep" "k < MAX_VETTED_ADDRESSES"
    using reserve_loop_first [of 0 False False addrs] r by (simp_all add: MAX_VETTED_ADDRESSES_def)
  moreover from this(3) have "count_list (fill_loop keep k) True = MAX_VETTED_ADDRESSES"
    using fill_loop_count [of k keep] count_bools [of keep] assms len k by simp
  ultimately show thesis
    using assms len r
    by (intro that [of "fill_loop keep k"])
      (simp_all add: cap_vetted_def first_kept_mono [OF fill_loop_mono [of keep k]])
qed

lemma cap_vetted_length_eq: "length (cap_vetted addrs) = min MAX_VETTED_ADDRESSES (length addrs)"
proof (cases "length addrs \<le> MAX_VETTED_ADDRESSES")
  case False
  then show ?thesis by (elim cap_vetted_long [OF linorder_not_le [THEN iffD1]]) (use False in \<open>simp add: length_select_kept\<close>)
qed (simp add: cap_vetted_def)

lemma cap_vetted_subseq: "subseq (cap_vetted addrs) addrs"
proof (cases "length addrs \<le> MAX_VETTED_ADDRESSES")
  case False
  then show ?thesis
    by (elim cap_vetted_long [OF linorder_not_le [THEN iffD1]]) (simp add: select_kept_subseq)
qed (simp add: cap_vetted_def)

lemma cap_vetted_first:
  assumes "P = is_ipv4 \<or> P = is_ipv6"
  shows "first_where P (cap_vetted addrs) = first_where P addrs"
proof (cases "length addrs \<le> MAX_VETTED_ADDRESSES")
  case False
  then have "MAX_VETTED_ADDRESSES < length addrs" by simp
  then show ?thesis
    using assms first_where_select by (elim cap_vetted_long disjE) simp_all
qed (simp add: cap_vetted_def)

lemma first_where_None: "first_where P xs = None \<longleftrightarrow> (\<forall>x \<in> set xs. \<not> P x)"
  by (induction xs) auto

lemma pick_any_no_v4:
  "first_where is_ipv4 addrs = None \<Longrightarrow> pick_vetted addrs AnyFamily = first_where is_ipv6 addrs"
  by (cases addrs) (auto simp: is_ipv6_def split: if_splits)

lemma pick_cap_vetted: "pick_vetted (cap_vetted addrs) family = pick_vetted addrs family"
proof (cases family)
  case AnyFamily
  show ?thesis
  proof (cases "first_where is_ipv4 addrs")
    case None
    then show ?thesis
      unfolding AnyFamily using pick_any_no_v4 [of addrs] pick_any_no_v4 [of "cap_vetted addrs"]
      by (simp add: cap_vetted_first)
  next
    case (Some ip)
    then show ?thesis unfolding AnyFamily by (simp add: cap_vetted_first)
  qed
qed (simp_all add: cap_vetted_first)

section \<open>The vetted list\<close>

lemma vet_loop_result:
  "vet_loop host ap addrs lookup = Inr out \<longleftrightarrow>
     (\<forall>ip \<in> set lookup. check_ip ip ap = Inr ()) \<and> out = addrs @ retain_first (\<lambda>ip. ip) addrs lookup"
proof (induction lookup arbitrary: addrs)
  case (Cons ip lookup)
  have "retain_first (\<lambda>ip. ip) (addrs @ [ip]) lookup = retain_first (\<lambda>ip. ip) (ip # addrs) lookup"
    by (rule retain_first_cong) simp
  with Cons show ?case by (auto simp: bind_res_Inr)
qed auto

lemma vet_resolved_result:
  "vet_resolved_addrs host ap lookup = Inr out \<longleftrightarrow>
     lookup \<noteq> [] \<and> (\<forall>ip \<in> set lookup. check_ip ip ap = Inr ()) \<and>
     out = cap_vetted (retain_first (\<lambda>ip. ip) [] lookup)"
proof -
  have "retain_first (\<lambda>ip. ip) [] lookup = [] \<longleftrightarrow> lookup = []" by (cases lookup) simp_all
  then show ?thesis by (auto simp: vet_resolved_addrs_def bind_res_Inr vet_loop_result)
qed

lemma check_ip_iff:
  "check_ip ip allow_private = Inr () \<longleftrightarrow> allow_private \<or> \<not> blocked ip"
proof -
  have ok: "r = Inr () \<longleftrightarrow> is_ok r" for r :: "string + unit" by (cases r) simp_all
  show ?thesis
    unfolding ok by (cases ip)
      (simp_all add: check_ip_def check_ipv6_policy check_ipv4_policy blocked_v4_def)
qed

section \<open>Properties\<close>

text \<open>
  C7: with private targets forbidden, \<open>check_ip\<close> accepts an address exactly when its numeric value is
  outside the blocked address blocks: for IPv4 the fourteen blocks of \<open>BLOCKED_V4\<close>, for IPv6 the six of
  \<open>BLOCKED_V6\<close> and, for an address of one of the four prefixes that embed an IPv4 address (mapped,
  compatible, NAT64, 6to4), the embedded address outside the IPv4 blocks. With private targets
  allowed it accepts every address.
\<close>

theorem check_ip_policy:
  "check_ip ip allow_private = Inr () \<longleftrightarrow> allow_private \<or> \<not> blocked ip"
  by (rule check_ip_iff)

lemma check_ip_policy_witness:
  "check_ip (V4 (Ipv4 1 1 1 1)) False = Inr () \<and> check_ip (V6 (Ipv6 0x2002 0xA9FE 0xA9FE 0 0 0 0 1)) False \<noteq> Inr ()"
  using check_ip_policy [of "V4 (Ipv4 1 1 1 1)" False]
    check_ip_policy [of "V6 (Ipv6 0x2002 0xA9FE 0xA9FE 0 0 0 0 1)" False]
  by (simp add: blocked_v4_def blocked_v6_def BLOCKED_V4_eval v6_lists_eval in_block_def)

text \<open>
  The cap on a vetted list keeps at most four addresses, all of them when there are no more, in
  resolver order, and it never changes the address a caller picks: for every family preference the
  address picked from the capped list is the one picked from the whole list.
\<close>

theorem cap_vetted_sound:
  "length (cap_vetted addrs) = min MAX_VETTED_ADDRESSES (length addrs) \<and>
   subseq (cap_vetted addrs) addrs \<and>
   pick_vetted (cap_vetted addrs) family = pick_vetted addrs family"
  by (simp add: cap_vetted_length_eq cap_vetted_subseq pick_cap_vetted)

text \<open>
  C8: the probe's vetting fails closed. When it answers a list, the list is non-empty, without
  duplicates, at most four long, and every address in it is outside the blocked blocks (or private
  targets are allowed); and for a host name, one blocked address of the resolver's answer is enough to
  reject the host, whatever its other addresses are.
\<close>

theorem vet_probe_host_addrs_sound:
  assumes "vet_probe_host_addrs resolver host allow_private dns_timeout = Inr addrs"
  shows "addrs \<noteq> [] \<and> distinct addrs \<and> length addrs \<le> MAX_VETTED_ADDRESSES \<and>
    (\<forall>ip \<in> set addrs. allow_private \<or> \<not> blocked ip) \<and>
    (parse_ip host = None \<longrightarrow> (\<exists>lookup. resolver host = Resolved lookup \<and>
       (\<forall>ip \<in> set lookup. allow_private \<or> \<not> blocked ip) \<and>
       pick_vetted addrs family = pick_vetted (retain_first (\<lambda>ip. ip) [] lookup) family))"
proof (cases "parse_ip host")
  case None
  then obtain lookup where r: "resolver host = Resolved lookup" and ok: "lookup \<noteq> []"
      "\<forall>ip \<in> set lookup. allow_private \<or> \<not> blocked ip"
      and addrs: "addrs = cap_vetted (retain_first (\<lambda>ip. ip) [] lookup)"
    using assms by (cases "resolver host")
      (auto simp: vet_probe_host_addrs_def vet_resolved_result check_ip_iff)
  have sub: "subseq addrs (retain_first (\<lambda>ip. ip) [] lookup)"
    unfolding addrs by (rule cap_vetted_subseq)
  have dist: "distinct (retain_first (\<lambda>ip. ip) [] lookup)"
    using retain_first_distinct [of "\<lambda>ip. ip" "[]" lookup] by simp
  have "addrs \<noteq> []"
    using cap_vetted_length_eq [of "retain_first (\<lambda>ip. ip) [] lookup"] ok(1)
    unfolding addrs by (cases lookup) (auto simp: MAX_VETTED_ADDRESSES_def)
  moreover have "set addrs \<subseteq> set lookup"
    using subseq_set [OF sub] subseq_set [OF retain_first_subseq] by (rule subset_trans)
  moreover have "length addrs \<le> MAX_VETTED_ADDRESSES"
    "pick_vetted addrs family = pick_vetted (retain_first (\<lambda>ip. ip) [] lookup) family"
    unfolding addrs by (simp_all only: cap_vetted_length_eq pick_cap_vetted min.cobounded1)
  moreover have "distinct addrs" using sub dist by (rule subseq_distinct)
  moreover have "\<forall>ip \<in> set addrs. allow_private \<or> \<not> blocked ip"
    using ok(2) \<open>set addrs \<subseteq> set lookup\<close> by (meson subsetD)
  ultimately show ?thesis using ok(2) r by (intro conjI impI exI [of _ lookup])
next
  case (Some ip)
  with assms show ?thesis
    by (auto simp: vet_probe_host_addrs_def bind_res_Inr check_ip_iff MAX_VETTED_ADDRESSES_def)
qed

lemma vet_probe_host_addrs_sound_witness:
  "\<not> blocked (V4 (Ipv4 1 1 1 1))"
proof -
  have "vet_probe_host_addrs (\<lambda>_. Resolved [V4 (Ipv4 1 1 1 1)]) ''x'' False 5 = Inr [V4 (Ipv4 1 1 1 1)]"
    by (simp add: vet_probe_host_addrs_def parse_ip_name hex_val_def is_digit_def code_def vet_resolved_result check_ip_def cap_vetted_def
        MAX_VETTED_ADDRESSES_def u8_and_C0 word_le_nat_alt)
  from vet_probe_host_addrs_sound [OF this, of AnyFamily] show ?thesis by simp
qed

end
