(* ===== verification/Host_Gate.thy ===== *)
theory Host_Gate
  imports Net_Addr
begin

text \<open>
  The \<open>Host\<close> header policy of \<open>fumox-server/src/host_gate.rs\<close>: one canonicalization, used by the
  request gate (\<open>validate_request_host\<close>) and by the builder of the panel's serve link
  (\<open>build_serve_link_host\<close>), whose link carries a capability token.
\<close>

datatype RejectionReason = Missing | NotAllowed

record HostRejected =
  hr_host :: string
  hr_reason :: RejectionReason

definition display_HostRejected :: "HostRejected \<Rightarrow> string" where
  "display_HostRejected r =
     (case hr_reason r of
        Missing \<Rightarrow> ''Host header is missing''
      | NotAllowed \<Rightarrow> ''Host header value is not in the allowlist'')"

definition HOST :: string where
  "HOST = ''host''"

definition canonicalize_host_str :: "string \<Rightarrow> string" where
  "canonicalize_host_str raw =
     (if CHR ''@'' \<in> set raw then []
      else case strip_prefix ''['' raw of
        Some rest \<Rightarrow>
          (let inside = hd (split_on (CHR '']'') rest) in ''['' @ to_ascii_lowercase inside @ '']'')
      | None \<Rightarrow>
          if count_list raw (CHR '':'') = 1
          then (case rsplit_once (CHR '':'') raw of
                  Some (host, _) \<Rightarrow> to_ascii_lowercase host
                | None \<Rightarrow> to_ascii_lowercase raw)
          else if count_list raw (CHR '':'') > 1
          then ''['' @ to_ascii_lowercase raw @ '']''
          else to_ascii_lowercase raw)"

definition canonical_request_host :: "header_map \<Rightarrow> string" where
  "canonical_request_host headers =
     (case Option.bind (header_get headers HOST) to_str of
        Some h \<Rightarrow> if h = [] then [] else canonicalize_host_str h
      | None \<Rightarrow> [])"

definition validate_request_host :: "header_map \<Rightarrow> string list \<Rightarrow> HostRejected + unit" where
  "validate_request_host headers allowed_hosts =
     (if allowed_hosts = [] then Inr ()
      else (let host = canonical_request_host headers in
        if host = [] then Inl \<lparr>hr_host = host, hr_reason = Missing\<rparr>
        else (let allowed_canonical = map canonicalize_host_str allowed_hosts in
          if list_ex (\<lambda>h. h = host) allowed_canonical then Inr ()
          else Inl \<lparr>hr_host = host, hr_reason = NotAllowed\<rparr>)))"

definition serve_link_host :: "header_map \<Rightarrow> string option" where
  "serve_link_host headers =
     (case Option.bind (header_get headers HOST) to_str of
        None \<Rightarrow> None
      | Some raw \<Rightarrow>
          if trim raw = [] then None
          else (let host = canonicalize_host_str (trim raw) in
                if host \<noteq> [] then Some host else None))"

definition fallback_host :: "socket_addr \<Rightarrow> string" where
  "fallback_host bind =
     (let ip = sock_ip bind in
      if ip_is_unspecified ip then ''127.0.0.1''
      else if is_ipv6 ip then ''['' @ show_ip ip @ '']''
      else show_ip ip)"

definition build_serve_link_host ::
  "socket_addr \<Rightarrow> header_map \<Rightarrow> string list \<Rightarrow> HostRejected + string" where
  "build_serve_link_host bind headers allowed_hosts =
     bind_res (validate_request_host headers allowed_hosts) (\<lambda>_.
       case serve_link_host headers of
         Some host \<Rightarrow> Inr host
       | None \<Rightarrow> Inr (fallback_host bind))"

section \<open>Canonical hosts\<close>

lemma hd_split_on: "hd (split_on d s) = takeWhile (\<lambda>c. c \<noteq> d) s"
  by (induction d s rule: split_on.induct) (auto split: list.splits)

lemma graph_char_lower [simp]: "graph_char (ascii_lower c) \<longleftrightarrow> graph_char c"
  by (auto simp: ascii_lower_def graph_char_def is_upper_def)

lemma graph_lower [simp]: "list_all graph_char (to_ascii_lowercase s) \<longleftrightarrow> list_all graph_char s"
  by (simp add: to_ascii_lowercase_def list_all_iff)

lemma graph_punct [simp]:
  "graph_char (CHR ''['')" "graph_char (CHR '']'')" "graph_char (CHR '':'')"
  by (simp_all add: graph_char_def code_def)

lemma canonicalize_bracket:
  "CHR ''@'' \<notin> set r \<Longrightarrow>
     canonicalize_host_str (CHR ''['' # r) =
       ''['' @ to_ascii_lowercase (takeWhile (\<lambda>c. c \<noteq> CHR '']'') r) @ '']''"
  by (simp add: canonicalize_host_str_def strip_prefix_def hd_split_on Let_def)

lemma canonicalize_plain:
  "CHR ''@'' \<notin> set s \<Longrightarrow> s = [] \<or> hd s \<noteq> CHR ''['' \<Longrightarrow>
     canonicalize_host_str s =
       (if count_list s (CHR '':'') = 0 then to_ascii_lowercase s
        else if count_list s (CHR '':'') = 1 then to_ascii_lowercase (takeWhile (\<lambda>c. c \<noteq> CHR '':'') s)
        else ''['' @ to_ascii_lowercase s @ '']'')"
proof -
  assume at: "CHR ''@'' \<notin> set s" and br: "s = [] \<or> hd s \<noteq> CHR ''[''"
  then have "strip_prefix ''['' s = None" by (cases s) (auto simp: strip_prefix_def)
  moreover have "(case rsplit_once (CHR '':'') s of Some (host, _) \<Rightarrow> to_ascii_lowercase host
      | None \<Rightarrow> to_ascii_lowercase s) = to_ascii_lowercase (takeWhile (\<lambda>c. c \<noteq> CHR '':'') s)"
    if one: "count_list s (CHR '':'') = 1"
  proof -
    have "CHR '':'' \<in> set s" using one count_list_0_iff [of s "CHR '':''"] by auto
    then obtain h r where hr: "rsplit_once (CHR '':'') s = Some (h, r)"
      using rsplit_once_None [of "CHR '':''" s] by fastforce
    then have s: "s = h @ CHR '':'' # r" and "CHR '':'' \<notin> set r"
      using rsplit_once_Some [of "CHR '':''" s h r] by auto
    with one have "CHR '':'' \<notin> set h" by (auto simp: count_list_0_iff)
    then have "takeWhile (\<lambda>c. c \<noteq> CHR '':'') s = h"
      unfolding s by (simp add: takeWhile_append)
    then show ?thesis using hr by simp
  qed
  ultimately show ?thesis using at by (auto simp: canonicalize_host_str_def)
qed

text \<open>White space around the header value does not change a canonical host that is printable.\<close>

lemma canonicalize_trim:
  assumes ok: "list_all graph_char (canonicalize_host_str raw)" "canonicalize_host_str raw \<noteq> []"
    and raw: "raw = p @ t @ q" and ws: "\<forall>c \<in> set p \<union> set q. \<not> graph_char c"
  shows "canonicalize_host_str t = canonicalize_host_str raw \<and> t \<noteq> []"
proof -
  have at: "CHR ''@'' \<notin> set raw" using ok(2) by (auto simp: canonicalize_host_str_def)
  have colon: "CHR '':'' \<notin> set q" using ws graph_punct(3) by blast
  have p: "p = []"
  proof (rule ccontr)
    assume "p \<noteq> []"
    then obtain c p' where c: "p = c # p'" "\<not> graph_char c" using ws by (cases p) auto
    then have "hd raw = c" "c \<noteq> CHR ''[''" "c \<noteq> CHR '':''" using raw graph_punct by auto
    with canonicalize_plain [OF at] ok(1) c raw show False by (simp split: if_splits)
  qed
  show ?thesis
  proof (cases "t \<noteq> [] \<and> hd t = CHR ''[''")
    case True
    then obtain r where t: "t = CHR ''['' # r" by (cases t) auto
    let ?P = "\<lambda>c. c \<noteq> CHR '']''"
    have can: "canonicalize_host_str raw = ''['' @ to_ascii_lowercase (takeWhile ?P (r @ q)) @ '']''"
      using canonicalize_bracket [of "r @ q"] at raw p t by simp
    have "takeWhile ?P (r @ q) = takeWhile ?P r"
    proof (cases "CHR '']'' \<in> set r")
      case False
      have "takeWhile ?P q = q" unfolding takeWhile_eq_all_conv using ws graph_punct(2) by blast
      with False have tw: "takeWhile ?P (r @ q) = r @ q" by (simp add: takeWhile_append takeWhile_eq_all_conv)
      have "list_all graph_char q" using ok(1) unfolding can tw by simp
      then have "q = []" using ws by (cases q) auto
      then show ?thesis by simp
    qed (auto simp: takeWhile_append)
    then show ?thesis using can canonicalize_bracket [of r] at raw p t by simp
  next
    case False
    have plain: "raw = [] \<or> hd raw \<noteq> CHR ''[''"
      using False raw p ws graph_punct(1) by (cases t; cases q) auto
    note can = canonicalize_plain [OF at plain]
    show ?thesis
    proof (cases "count_list raw (CHR '':'') = 1")
      case True
      then have "count_list raw (CHR '':'') \<noteq> 0" by simp
      then have "CHR '':'' \<in> set raw" unfolding count_list_0_iff by simp
      then have "CHR '':'' \<in> set t" using raw p colon by simp
      then have "takeWhile (\<lambda>c. c \<noteq> CHR '':'') raw = takeWhile (\<lambda>c. c \<noteq> CHR '':'') t"
        unfolding raw p by (simp add: takeWhile_append1)
      moreover have "count_list t (CHR '':'') = 1"
        using True raw p colon by (simp add: count_list_0_iff)
      ultimately show ?thesis
        using can True canonicalize_plain [of t] at raw False \<open>CHR '':'' \<in> set t\<close> by auto
    next
      case many: False
      then have "list_all graph_char raw" using can ok(1) by (simp split: if_splits)
      then have "q = []" using ws raw by (cases q) auto
      then have "t = raw" using raw p by simp
      moreover have "raw \<noteq> []" using ok(2) can by (auto split: if_splits)
      ultimately show ?thesis by simp
    qed
  qed
qed

lemma canonicalize_no_at: "CHR ''@'' \<notin> set (canonicalize_host_str raw)"
proof (cases "CHR ''@'' \<in> set raw")
  case False
  have low: "CHR ''@'' \<in> set (to_ascii_lowercase s) \<longleftrightarrow> CHR ''@'' \<in> set s" for s
    by (rule to_ascii_lowercase_mem) (simp_all add: is_lower_def is_upper_def code_def)
  show ?thesis
  proof (cases "raw \<noteq> [] \<and> hd raw = CHR ''[''")
    case True
    then obtain r where "raw = CHR ''['' # r" by (cases raw) auto
    with False canonicalize_bracket [of r] show ?thesis by (auto simp: low dest: set_takeWhileD)
  next
    case plain: False
    with False canonicalize_plain [of raw] show ?thesis by (auto simp: low dest: set_takeWhileD)
  qed
qed (simp add: canonicalize_host_str_def)

lemma graph_canonicalize:
  assumes "list_all graph_char a"
  shows "list_all graph_char (canonicalize_host_str a)"
proof -
  have tw: "list_all graph_char (takeWhile P r)" if "list_all graph_char r" for P r
    using that by (auto simp: list_all_iff dest: set_takeWhileD)
  show ?thesis
  proof (cases "CHR ''@'' \<in> set a")
    case at: False
    show ?thesis
    proof (cases "a \<noteq> [] \<and> hd a = CHR ''[''")
      case True
      then obtain r where "a = CHR ''['' # r" by (cases a) auto
      with at assms canonicalize_bracket [of r] tw show ?thesis by simp
    next
      case False
      with at assms canonicalize_plain [of a] tw show ?thesis by auto
    qed
  qed (simp add: canonicalize_host_str_def)
qed

lemma validate_iff:
  "validate_request_host headers allowed_hosts = Inr () \<longleftrightarrow>
     allowed_hosts = [] \<or> canonical_request_host headers \<noteq> [] \<and>
       canonical_request_host headers \<in> canonicalize_host_str ` set allowed_hosts"
  by (auto simp: validate_request_host_def Let_def list_ex_iff)

lemma addr_char_not_at: "\<not> addr_char (CHR ''@'')"
  by (simp add: addr_char_def is_ascii_alphanumeric_def is_digit_def is_upper_def is_lower_def code_def)

lemma fallback_no_at: "CHR ''@'' \<notin> set (fallback_host bind) \<and> fallback_host bind \<noteq> []"
proof -
  have "CHR ''@'' \<notin> set (show_ip ip)" for ip
    using show_ip_chars [of ip] addr_char_not_at by (auto simp: list_all_iff)
  from this [of "V4 _", unfolded show_ip.simps] this [of "V6 _", unfolded show_ip.simps]
  have "CHR ''@'' \<notin> set (show_ipv4 v4)" "CHR ''@'' \<notin> set (show_ipv6 v6)" for v4 v6 .
  moreover have "show_ipv4 v4 \<noteq> []" for v4 by (cases v4) simp
  ultimately show ?thesis
    by (cases "sock_ip bind") (auto simp: fallback_host_def Let_def is_ipv6_def)
qed

lemma serve_link_host_Some:
  "serve_link_host headers = Some host \<Longrightarrow> host \<noteq> [] \<and> CHR ''@'' \<notin> set host"
  by (auto simp: serve_link_host_def Let_def canonicalize_no_at split: option.splits if_splits)

section \<open>Properties\<close>

text \<open>
  The request gate. With an empty allowlist every request passes; with a non-empty one a request
  passes exactly when its canonical host is not empty and is the canonical form of an entry, and
  otherwise the error says whether the host was missing or not allowed. A value with an \<open>@\<close> in it
  canonicalizes to no host, so it never passes a non-empty allowlist.
\<close>

theorem host_gate_exact:
  "validate_request_host headers allowed_hosts =
     (let host = canonical_request_host headers in
      if allowed_hosts = [] \<or> host \<noteq> [] \<and> host \<in> canonicalize_host_str ` set allowed_hosts then Inr ()
      else Inl \<lparr>hr_host = host, hr_reason = (if host = [] then Missing else NotAllowed)\<rparr>) \<and>
   CHR ''@'' \<notin> set (canonical_request_host headers)"
  by (auto simp: validate_request_host_def Let_def list_ex_iff canonical_request_host_def
      canonicalize_no_at split: option.splits)

lemma host_gate_exact_witness:
  "validate_request_host [] [''a''] = Inl \<lparr>hr_host = [], hr_reason = Missing\<rparr>"
  using host_gate_exact [of "[]" "[''a'']"]
  by (simp add: canonical_request_host_def header_get_def)

text \<open>
  The serve link stays on the allowlist. When the allowlist has entries, all of printable ASCII,
  and the builder answers a host, that host is the canonical form of an entry: the white space the
  builder trims, which the gate does not, cannot make the link differ from what the gate compared,
  and the bound-address fallback is never reached.
\<close>

theorem serve_link_on_allowlist:
  assumes "build_serve_link_host bind headers allowed_hosts = Inr host"
    and "allowed_hosts \<noteq> []" and "\<forall>a \<in> set allowed_hosts. list_all graph_char a"
  shows "host \<in> canonicalize_host_str ` set allowed_hosts \<and> host = canonical_request_host headers"
proof -
  let ?c = "canonical_request_host headers"
  have gate: "?c \<noteq> []" "?c \<in> canonicalize_host_str ` set allowed_hosts"
    using assms(1,2) by (auto simp: build_serve_link_host_def bind_res_Inr validate_iff)
  then obtain a where a: "a \<in> set allowed_hosts" "?c = canonicalize_host_str a" by blast
  have "list_all graph_char ?c"
    using assms(3) a graph_canonicalize by metis
  obtain raw where raw: "Option.bind (header_get headers HOST) to_str = Some raw"
      and c: "?c = canonicalize_host_str raw"
    using gate(1) by (auto simp: canonical_request_host_def split: option.splits if_splits)
  obtain p q where "raw = p @ trim raw @ q" "\<forall>c \<in> set p \<union> set q. \<not> graph_char c"
    using trim_split by blast
  from canonicalize_trim [OF _ _ this] \<open>list_all graph_char ?c\<close> gate(1) c
  have "canonicalize_host_str (trim raw) = ?c" "trim raw \<noteq> []" by simp_all
  then have "serve_link_host headers = Some ?c"
    using raw gate(1) by (simp add: serve_link_host_def)
  with assms(1) gate(2) show ?thesis by (auto simp: build_serve_link_host_def bind_res_Inr)
qed

lemma serve_link_on_allowlist_witness:
  "''vpn.a'' \<in> canonicalize_host_str ` {''VPN.a'', ''b''}"
proof -
  let ?h = "[(HOST, ''Vpn.A:80'')]"
  have "canonicalize_host_str ''Vpn.A:80'' = ''vpn.a''" "canonicalize_host_str ''VPN.a'' = ''vpn.a''"
    by (simp_all add: canonicalize_plain ascii_lower_def is_upper_def code_def char_of_def bit_0)
  then have "build_serve_link_host (SocketAddr (V4 (Ipv4 127 0 0 1)) 80) ?h [''VPN.a'', ''b''] = Inr ''vpn.a''"
    by (simp add: build_serve_link_host_def bind_res_Inr validate_iff canonical_request_host_def
        serve_link_host_def header_get_def to_str_def visible_char_def code_def trim_graph graph_char_def)
  from serve_link_on_allowlist [OF this, THEN conjunct1]
  have "''vpn.a'' \<in> canonicalize_host_str ` set [''VPN.a'', ''b'']"
    by this (simp_all add: graph_char_def code_def)
  then show ?thesis by (simp only: list.set)
qed

text \<open>
  The host of a serve link is never empty and never holds an \<open>@\<close>, for every
  allowlist, the empty one included: the capability token in the link cannot be sent to a host named
  after a userinfo part.
\<close>

theorem serve_link_no_userinfo:
  assumes "build_serve_link_host bind headers allowed_hosts = Inr host"
  shows "CHR ''@'' \<notin> set host \<and> host \<noteq> []"
  using assms fallback_no_at [of bind] serve_link_host_Some [of headers]
  by (auto simp: build_serve_link_host_def bind_res_Inr split: option.splits)

lemma serve_link_no_userinfo_witness:
  "CHR ''@'' \<notin> set (fallback_host (SocketAddr (V4 (Ipv4 0 0 0 0)) 80))"
proof -
  let ?b = "SocketAddr (V4 (Ipv4 0 0 0 0)) 80"
  have "build_serve_link_host ?b [(HOST, ''a@b'')] [] = Inr (fallback_host ?b)"
    by (simp add: build_serve_link_host_def validate_request_host_def serve_link_host_def header_get_def
        to_str_def visible_char_def code_def trim_graph graph_char_def canonicalize_host_str_def)
  from serve_link_no_userinfo [OF this] show ?thesis by simp
qed

end
