(* ===== verification/Security.thy ===== *)
theory Security
  imports Net_Addr
begin

text \<open>
  The security primitives of \<open>fumox-server/src/security.rs\<close>: the constant-time comparison of secrets
  (\<open>ct_eq\<close>), the client address a request is rate limited under (\<open>client_key\<close> and its two header
  walks), and the fixed-window rate limiter. A trusted network (\<open>ipnet::IpNet\<close>) is known by its
  \<open>contains\<close> predicate; the limiter's cache is a map from a key to the entry's creation time and
  counter, an entry being live for one window. An entry may be evicted while the cache holds more than
  100000; one that has expired counts until it is written again, so the model evicts at least when the
  cache does.
\<close>

unbundle bit_operations_syntax

section \<open>Constant-time equality\<close>

definition byte :: "char \<Rightarrow> u8" where
  "byte c = of_nat (code c)"

fun ct_diff :: "u8 \<Rightarrow> (u8 \<times> u8) list \<Rightarrow> u8" where
  "ct_diff diff [] = diff"
| "ct_diff diff ((x, y) # r) = ct_diff (diff OR (x XOR y)) r"

definition ct_eq :: "string \<Rightarrow> string \<Rightarrow> bool" where
  "ct_eq a b =
     (let ab = map byte a; bb = map byte b in
      if length ab \<noteq> length bb then False else ct_diff 0 (zip ab bb) = 0)"

section \<open>The client address\<close>

datatype Forwarded = Client ip_addr | TrustedChain | NothingFound

type_synonym ip_net = "ip_addr \<Rightarrow> bool"

definition X_FORWARDED_FOR :: string where
  "X_FORWARDED_FOR = ''x-forwarded-for''"

definition FORWARDED :: string where
  "FORWARDED = ''forwarded''"

definition trusted :: "ip_net list \<Rightarrow> ip_addr \<Rightarrow> bool" where
  "trusted trusted_cidrs ip \<longleftrightarrow> list_ex (\<lambda>net. net ip) trusted_cidrs"

fun sole :: "Forwarded \<Rightarrow> socket_addr \<Rightarrow> ip_addr" where
  "sole (Client ip) peer = ip"
| "sole TrustedChain peer = sock_ip peer"
| "sole NothingFound peer = sock_ip peer"

definition chain_end :: "bool \<Rightarrow> Forwarded" where
  "chain_end parsed_any = (if parsed_any then TrustedChain else NothingFound)"

text \<open>The loop of \<open>walk_xff\<close> over the entries, already reversed.\<close>

fun xff_loop :: "ip_net list \<Rightarrow> bool \<Rightarrow> string list \<Rightarrow> Forwarded" where
  "xff_loop trusted_cidrs parsed_any [] = chain_end parsed_any"
| "xff_loop trusted_cidrs parsed_any (raw # rest) =
     (case parse_ip (trim raw) of
        None \<Rightarrow> xff_loop trusted_cidrs parsed_any rest
      | Some ip \<Rightarrow> if \<not> trusted trusted_cidrs ip then Client ip
                   else xff_loop trusted_cidrs True rest)"

definition walk_xff :: "header_map \<Rightarrow> ip_net list \<Rightarrow> Forwarded" where
  "walk_xff headers trusted_cidrs =
     (case Option.bind (header_get headers X_FORWARDED_FOR) to_str of
        None \<Rightarrow> NothingFound
      | Some v \<Rightarrow> xff_loop trusted_cidrs False (rev (split_on (CHR '','') v)))"

fun strip_quotes :: "string \<Rightarrow> string" where
  "strip_quotes s = rev (dropWhile (\<lambda>c. c = DQUOTE) (rev (dropWhile (\<lambda>c. c = DQUOTE) s)))"

definition strip_obfuscation :: "string \<Rightarrow> string" where
  "strip_obfuscation v =
     (case Option.bind (strip_prefix [DQUOTE] v) (strip_suffix [DQUOTE]) of Some u \<Rightarrow> u | None \<Rightarrow> v)"

definition strip_brackets :: "string \<Rightarrow> string" where
  "strip_brackets v =
     (case Option.bind (strip_prefix ''['' v) (strip_suffix '']'') of Some u \<Rightarrow> u | None \<Rightarrow> v)"

text \<open>
  The parameters of one \<open>Forwarded\<close> element: a client found ends both loops, a hidden entry only this
  one; otherwise the flag says whether an address has been parsed so far.
\<close>

fun fwd_params :: "ip_net list \<Rightarrow> bool \<Rightarrow> string list \<Rightarrow> ip_addr + bool" where
  "fwd_params trusted_cidrs parsed_any [] = Inr parsed_any"
| "fwd_params trusted_cidrs parsed_any (p # rest) =
     (case strip_prefix ''for='' (trim p) of
        None \<Rightarrow> fwd_params trusted_cidrs parsed_any rest
      | Some v0 \<Rightarrow>
          (let v = strip_obfuscation (strip_quotes v0) in
           if v = ''_hidden'' \<or> eq_ignore_ascii_case v ''unknown'' then Inr parsed_any
           else (case parse_ip (strip_brackets v) of
                   None \<Rightarrow> fwd_params trusted_cidrs parsed_any rest
                 | Some ip \<Rightarrow> if \<not> trusted trusted_cidrs ip then Inl ip
                              else fwd_params trusted_cidrs True rest)))"

fun fwd_loop :: "ip_net list \<Rightarrow> bool \<Rightarrow> string list \<Rightarrow> Forwarded" where
  "fwd_loop trusted_cidrs parsed_any [] = chain_end parsed_any"
| "fwd_loop trusted_cidrs parsed_any (raw # rest) =
     (case fwd_params trusted_cidrs parsed_any (split_on (CHR '';'') (trim raw)) of
        Inl ip \<Rightarrow> Client ip
      | Inr parsed_any' \<Rightarrow> fwd_loop trusted_cidrs parsed_any' rest)"

definition walk_forwarded :: "header_map \<Rightarrow> ip_net list \<Rightarrow> Forwarded" where
  "walk_forwarded headers trusted_cidrs =
     (case Option.bind (header_get headers FORWARDED) to_str of
        None \<Rightarrow> NothingFound
      | Some v \<Rightarrow> fwd_loop trusted_cidrs False (rev (split_on (CHR '','') v)))"

definition client_key :: "socket_addr \<Rightarrow> header_map \<Rightarrow> ip_net list \<Rightarrow> ip_addr" where
  "client_key peer headers trusted_cidrs =
     (if trusted_cidrs = [] then sock_ip peer
      else if \<not> trusted trusted_cidrs (sock_ip peer) then sock_ip peer
      else (let xff = contains_key headers X_FORWARDED_FOR; forwarded = contains_key headers FORWARDED in
        case (xff, forwarded) of
          (True, False) \<Rightarrow> sole (walk_xff headers trusted_cidrs) peer
        | (False, True) \<Rightarrow> sole (walk_forwarded headers trusted_cidrs) peer
        | (False, False) \<Rightarrow> sock_ip peer
        | (True, True) \<Rightarrow>
            (case (walk_xff headers trusted_cidrs, walk_forwarded headers trusted_cidrs) of
               (Client a, Client b) \<Rightarrow> if a = b then a else sock_ip peer
             | (Client a, TrustedChain) \<Rightarrow> a
             | (TrustedChain, Client b) \<Rightarrow> b
             | _ \<Rightarrow> sock_ip peer)))"

section \<open>The rate limiter\<close>

type_synonym u64 = "64 word"

text \<open>\<open>counters\<close>: per key the time its entry was created and its counter. Times are seconds.\<close>

record RateLimiter =
  counters :: "string \<Rightarrow> (nat \<times> u64) option"
  limit :: u64
  window :: nat

definition MAX_LIMITER_KEYS :: nat where "MAX_LIMITER_KEYS = 100000"

definition new_limiter :: "u64 \<Rightarrow> nat \<Rightarrow> RateLimiter" where
  "new_limiter l w = \<lparr>counters = Map.empty, limit = l, window = w\<rparr>"

text \<open>\<open>try_get_with\<close>: the live entry of the key, or a new one with counter 0.\<close>

definition get_counter :: "RateLimiter \<Rightarrow> nat \<Rightarrow> string \<Rightarrow> nat \<times> u64" where
  "get_counter rl now key =
     (case counters rl key of
        Some (created, n) \<Rightarrow> if now < created + window rl then (created, n) else (now, 0)
      | None \<Rightarrow> (now, 0))"

definition allow :: "nat \<Rightarrow> string \<Rightarrow> RateLimiter \<Rightarrow> bool \<times> RateLimiter" where
  "allow now key rl =
     (let (created, n) = get_counter rl now key
      in (n < limit rl, rl\<lparr>counters := (counters rl)(key \<mapsto> (created, n + 1))\<rparr>))"

definition saturating_sub1 :: "u64 \<Rightarrow> u64" where
  "saturating_sub1 n = (if n = 0 then 0 else n - 1)"

definition refund :: "nat \<Rightarrow> string \<Rightarrow> RateLimiter \<Rightarrow> RateLimiter" where
  "refund now key rl =
     (let (created, n) = get_counter rl now key
      in rl\<lparr>counters := (counters rl)(key \<mapsto> (created, saturating_sub1 n))\<rparr>)"

text \<open>
  \<open>max_capacity\<close>: the cache drops an entry when it holds more than 100000. Which entry goes, and when, is
  the choice of the cache library, so it is an operation of its own here.
\<close>

definition evict_counter :: "string \<Rightarrow> RateLimiter \<Rightarrow> RateLimiter" where
  "evict_counter key rl =
     (if card (dom (counters rl)) > MAX_LIMITER_KEYS then rl\<lparr>counters := (counters rl)(key := None)\<rparr> else rl)"

section \<open>Comparison and header walks\<close>

lemma or_eq_0: "(a OR b :: 'a :: len word) = 0 \<longleftrightarrow> a = 0 \<and> b = 0"
  by (auto simp: bit_eq_iff bit_simps)

lemma xor_eq_0: "(a XOR b :: 'a :: len word) = 0 \<longleftrightarrow> a = b"
  by (auto simp: bit_eq_iff bit_simps)

lemma ct_diff_0: "ct_diff d ps = 0 \<longleftrightarrow> d = 0 \<and> (\<forall>(x, y) \<in> set ps. x = y)"
  by (induction d ps rule: ct_diff.induct) (auto simp: or_eq_0 xor_eq_0)

lemma byte_inj: "byte a = byte b \<longleftrightarrow> a = b"
proof -
  have "unat (byte c) = code c" for c
    unfolding byte_def unsigned_of_nat by (simp add: take_bit_eq_mod)
  then show ?thesis by (metis code_inj)
qed

lemma xff_loop_untrusted: "xff_loop nets b es = Client ip \<Longrightarrow> \<not> trusted nets ip"
  by (induction nets b es rule: xff_loop.induct) (auto simp: chain_end_def split: option.splits if_splits)

lemma fwd_params_untrusted: "fwd_params nets b ps = Inl ip \<Longrightarrow> \<not> trusted nets ip"
  by (induction nets b ps rule: fwd_params.induct) (auto simp: Let_def split: option.splits if_splits)

lemma fwd_loop_untrusted: "fwd_loop nets b es = Client ip \<Longrightarrow> \<not> trusted nets ip"
  by (induction nets b es rule: fwd_loop.induct)
    (auto simp: chain_end_def dest: fwd_params_untrusted split: sum.splits if_splits)

lemma walk_untrusted:
  "walk_xff hs nets = Client ip \<Longrightarrow> \<not> trusted nets ip"
  "walk_forwarded hs nets = Client ip \<Longrightarrow> \<not> trusted nets ip"
  by (auto simp: walk_xff_def walk_forwarded_def dest: xff_loop_untrusted fwd_loop_untrusted
      split: option.splits)

lemma sole_cases: "sole f peer = ip \<Longrightarrow> ip = sock_ip peer \<or> f = Client ip"
  by (cases f) auto

lemma client_key_cases:
  "client_key peer headers nets = sock_ip peer \<or>
     trusted nets (sock_ip peer) \<and>
     (walk_xff headers nets = Client (client_key peer headers nets) \<or>
      walk_forwarded headers nets = Client (client_key peer headers nets))"
  by (auto simp: client_key_def Let_def dest: sole_cases split: bool.splits Forwarded.splits)

section \<open>The windows of the limiter\<close>

datatype rl_op = Allow string nat | Refund string nat | Evicted string nat

fun op_key :: "rl_op \<Rightarrow> string" where
  "op_key (Allow k t) = k"
| "op_key (Refund k t) = k"
| "op_key (Evicted k t) = k"

fun op_time :: "rl_op \<Rightarrow> nat" where
  "op_time (Allow k t) = t"
| "op_time (Refund k t) = t"
| "op_time (Evicted k t) = t"

fun is_hit :: "rl_op \<Rightarrow> bool" where
  "is_hit (Allow _ _) = True"
| "is_hit _ = False"

fun is_refund :: "rl_op \<Rightarrow> bool" where
  "is_refund (Refund _ _) = True"
| "is_refund _ = False"

fun is_eviction :: "rl_op \<Rightarrow> bool" where
  "is_eviction (Evicted _ _) = True"
| "is_eviction _ = False"

text \<open>The number of hits of \<open>key\<close> that are allowed in a run of operations.\<close>

fun accepted :: "string \<Rightarrow> rl_op list \<Rightarrow> RateLimiter \<Rightarrow> nat" where
  "accepted key [] rl = 0"
| "accepted key (Allow k t # ops) rl =
     (let (ok, rl') = allow t k rl in (if ok \<and> k = key then 1 else 0) + accepted key ops rl')"
| "accepted key (Refund k t # ops) rl = accepted key ops (refund t k rl)"
| "accepted key (Evicted k t # ops) rl = accepted key ops (evict_counter k rl)"

definition hits :: "string \<Rightarrow> rl_op list \<Rightarrow> nat" where
  "hits key ops = length (filter (\<lambda>op. op_key op = key \<and> is_hit op) ops)"

definition refunds :: "string \<Rightarrow> rl_op list \<Rightarrow> nat" where
  "refunds key ops = length (filter (\<lambda>op. op_key op = key \<and> is_refund op) ops)"

definition evictions :: "string \<Rightarrow> rl_op list \<Rightarrow> nat" where
  "evictions key ops = length (filter (\<lambda>op. op_key op = key \<and> is_eviction op) ops)"

lemma hits_simps [simp]:
  "hits key [] = 0" "refunds key [] = 0" "evictions key [] = 0"
  "hits key (Allow k t # ops) = (if k = key then 1 else 0) + hits key ops"
  "hits key (Refund k t # ops) = hits key ops"
  "hits key (Evicted k t # ops) = hits key ops"
  "refunds key (Allow k t # ops) = refunds key ops"
  "refunds key (Refund k t # ops) = (if k = key then 1 else 0) + refunds key ops"
  "refunds key (Evicted k t # ops) = refunds key ops"
  "evictions key (Allow k t # ops) = evictions key ops"
  "evictions key (Refund k t # ops) = evictions key ops"
  "evictions key (Evicted k t # ops) = (if k = key then 1 else 0) + evictions key ops"
  by (simp_all add: hits_def refunds_def evictions_def)

lemma limiter_fields [simp]:
  "limit (snd (allow t k rl)) = limit rl" "window (snd (allow t k rl)) = window rl"
  "limit (refund t k rl) = limit rl" "window (refund t k rl) = window rl"
  "limit (evict_counter k rl) = limit rl" "window (evict_counter k rl) = window rl"
  by (simp_all add: allow_def refund_def evict_counter_def split: prod.splits)

lemma counters_other [simp]:
  "k \<noteq> key \<Longrightarrow> counters (snd (allow t k rl)) key = counters rl key"
  "k \<noteq> key \<Longrightarrow> counters (refund t k rl) key = counters rl key"
  "k \<noteq> key \<Longrightarrow> counters (evict_counter k rl) key = counters rl key"
  by (simp_all add: allow_def refund_def evict_counter_def split: prod.splits)

lemma evicted_None: "counters rl key = None \<Longrightarrow> counters (evict_counter k rl) key = None"
  by (simp add: evict_counter_def)

lemma allow_live:
  assumes "counters rl key = Some (c, n)" and "t < c + window rl"
  shows "fst (allow t key rl) \<longleftrightarrow> n < limit rl" "counters (snd (allow t key rl)) key = Some (c, n + 1)"
    "counters (refund t key rl) key = Some (c, saturating_sub1 n)"
  using assms by (simp_all add: allow_def refund_def get_counter_def)

lemma unat_Suc: "unat (n :: u64) + 1 < 2 ^ 64 \<Longrightarrow> unat (n + 1) = unat n + 1"
  unfolding unat_word_ariths(1) by simp

lemma unat_sub1: "unat (saturating_sub1 n) = unat n - 1"
  by (auto simp: saturating_sub1_def unat_minus_one)

lemma accepted_live:
  assumes "counters rl key = Some (c, n)" and "\<forall>op \<in> set ops. op_time op < c + window rl"
    and "unat n + hits key ops < 2 ^ 64" and "evictions key ops = 0"
  shows "accepted key ops rl + min (unat n) (unat (limit rl)) \<le> unat (limit rl) + refunds key ops \<and>
    (refunds key ops = 0 \<longrightarrow> accepted key ops rl = min (hits key ops) (unat (limit rl) - unat n))"
  using assms
proof (induction key ops rl arbitrary: n rule: accepted.induct)
  case (2 key k t ops rl)
  obtain ok rl' where al: "allow t k rl = (ok, rl')" by fastforce
  note IH = 2(1) [of "(ok, rl')" ok rl', OF al [symmetric] refl]
  have [simp]: "limit rl' = limit rl" "window rl' = window rl"
    using al limiter_fields(1,2) [of t k rl] by simp_all
  show ?case
  proof (cases "k = key")
    case True
    have live: "t < c + window rl" using 2(3) by simp
    note st = allow_live [OF 2(2) live]
    have n1: "unat (n + 1) = unat n + 1" using 2(4) True by (intro unat_Suc) simp
    have ok: "ok \<longleftrightarrow> n < limit rl" and c: "counters rl' key = Some (c, n + 1)"
      using st(1,2) al True by simp_all
    from IH [OF c] 2(3-5) True n1
    show ?thesis using True al ok n1 by (auto simp: word_less_nat_alt)
  next
    case False
    then have "counters rl' key = counters rl key" using counters_other(1) [of k key t rl] al by simp
    with IH [of n] 2(2-5) False al show ?thesis by simp
  qed
next
  case (3 key k t ops rl)
  show ?case
  proof (cases "k = key")
    case True
    have live: "t < c + window rl" using 3(3) by simp
    note st = allow_live [OF 3(2) live]
    have "unat (saturating_sub1 n) + hits key ops < 2 ^ 64" using 3(4) by (simp add: unat_sub1)
    with 3(1) [of "saturating_sub1 n"] st(3) 3(3,5) True show ?thesis
      by (simp add: unat_sub1) linarith
  next
    case False
    then show ?thesis using 3 by simp
  qed
next
  case (4 key k t ops rl)
  then have "k \<noteq> key" by auto
  with 4 show ?case by simp
qed simp

lemma get_counter_fresh: "counters rl key = None \<Longrightarrow> get_counter rl t key = (t, 0)"
  by (simp add: get_counter_def)

text \<open>From a key with no entry: the first operation of the key opens the window.\<close>

lemma accepted_fresh:
  assumes "counters rl key = None" and "\<forall>op \<in> set ops. t0 \<le> op_time op \<and> op_time op < t0 + window rl"
    and "hits key ops < 2 ^ 64" and "evictions key ops = 0"
  shows "accepted key ops rl \<le> unat (limit rl) + refunds key ops \<and>
    (refunds key ops = 0 \<longrightarrow> accepted key ops rl = min (hits key ops) (unat (limit rl)))"
  using assms
proof (induction key ops rl rule: accepted.induct)
  case (2 key k t ops rl)
  obtain ok rl' where al: "allow t k rl = (ok, rl')" by fastforce
  have [simp]: "limit rl' = limit rl" "window rl' = window rl"
    using al limiter_fields(1,2) [of t k rl] by simp_all
  show ?case
  proof (cases "k = key")
    case True
    then have ok: "ok \<longleftrightarrow> 0 < limit rl" "counters rl' key = Some (t, 1)"
      using al 2(2) by (auto simp: allow_def get_counter_fresh)
    have "\<forall>op \<in> set ops. op_time op < t + window rl'" using 2(3) by fastforce
    from accepted_live [OF ok(2) this] 2(4,5) True
    show ?thesis using al ok(1) True by (auto simp: word_less_nat_alt)
  next
    case False
    then have "counters rl' key = None" using counters_other(1) [of k key t rl] al 2(2) by simp
    with 2(1) [of "(ok, rl')" ok rl', OF al [symmetric] refl] 2(3-5) False al show ?thesis by simp
  qed
next
  case (3 key k t ops rl)
  show ?case
  proof (cases "k = key")
    case True
    then have c: "counters (refund t k rl) key = Some (t, 0)"
      using 3(2) by (simp add: refund_def get_counter_fresh saturating_sub1_def)
    have "\<forall>op \<in> set ops. op_time op < t + window (refund t k rl)" using 3(3) by fastforce
    from accepted_live [OF c this] 3(4,5) True show ?thesis by auto
  next
    case False
    then show ?thesis using 3 by simp
  qed
next
  case (4 key k t ops rl)
  then have "k \<noteq> key" by auto
  with 4 show ?case by simp
qed simp

text \<open>
  Several windows. An operation opens a window when its key has no live entry; the next one opens no
  sooner than one window later, unless the entry is evicted in between. \<open>room\<close> bounds by \<open>k\<close> the windows that
  the times of the operations still admit.
\<close>

definition opens :: "RateLimiter \<Rightarrow> nat \<Rightarrow> string \<Rightarrow> bool" where
  "opens rl t key \<longleftrightarrow> (case counters rl key of None \<Rightarrow> True | Some (c, _) \<Rightarrow> c + window rl \<le> t)"

definition used :: "RateLimiter \<Rightarrow> string \<Rightarrow> nat" where
  "used rl key = (case counters rl key of None \<Rightarrow> 0 | Some (_, n) \<Rightarrow> unat n)"

definition room :: "nat \<Rightarrow> string \<Rightarrow> RateLimiter \<Rightarrow> nat \<Rightarrow> rl_op list \<Rightarrow> bool" where
  "room n key rl k ops \<longleftrightarrow> (case counters rl key of None \<Rightarrow> k = n
     | Some (c, _) \<Rightarrow> 1 \<le> k \<and> (\<forall>op\<in>set ops. op_time op < c + k * window rl))"

lemma opened:
  assumes "opens rl t key"
  shows "fst (allow t key rl) \<longleftrightarrow> 0 < limit rl" "counters (snd (allow t key rl)) key = Some (t, 1)"
    "counters (refund t key rl) key = Some (t, 0)"
  using assms by (auto simp: opens_def allow_def refund_def get_counter_def saturating_sub1_def split: option.splits)

lemma other_key:
  "k \<noteq> key \<Longrightarrow> used (snd (allow t k rl)) key = used rl key"
  "k \<noteq> key \<Longrightarrow> used (refund t k rl) key = used rl key"
  "k \<noteq> key \<Longrightarrow> used (evict_counter k rl) key = used rl key"
  "\<lbrakk>k \<noteq> key; room n key rl m ops\<rbrakk> \<Longrightarrow> room n key (snd (allow t k rl)) m ops"
  "\<lbrakk>k \<noteq> key; room n key rl m ops\<rbrakk> \<Longrightarrow> room n key (refund t k rl) m ops"
  "\<lbrakk>k \<noteq> key; room n key rl m ops\<rbrakk> \<Longrightarrow> room n key (evict_counter k rl) m ops"
  by (simp_all add: used_def room_def split: option.splits) auto

lemma room_tail: "room n key rl k (op # ops) \<Longrightarrow> room n key rl k ops"
  by (auto simp: room_def split: option.splits)

text \<open>What an operation that opens a window leaves of the room.\<close>

lemma room_opens:
  assumes "room n key rl k (op # ops)" "opens rl (op_time op) key"
    and "\<forall>op'\<in>set (op # ops). t0 \<le> op_time op' \<and> op_time op' < t0 + n * window rl"
    and "counters rl' key = Some (op_time op, m)" "window rl' = window rl"
  shows "\<exists>j. room n key rl' j ops \<and> 1 \<le> j \<and> j + (if counters rl key = None then 0 else 1) \<le> k"
proof (cases "counters rl key")
  case None
  have "0 < n" using assms(3) by (cases n) auto
  moreover have "\<forall>op'\<in>set ops. op_time op' < op_time op + n * window rl" using assms(3) by fastforce
  ultimately show ?thesis using None assms(1,4,5) by (auto simp: room_def intro!: exI [of _ n])
next
  case (Some cm)
  obtain c m' where cm: "cm = (c, m')" by (cases cm)
  have late: "c + window rl \<le> op_time op" and k: "1 \<le> k" "op_time op < c + k * window rl"
    "\<forall>op'\<in>set ops. op_time op' < c + k * window rl"
    using assms(1,2) Some cm by (auto simp: opens_def room_def)
  then obtain j where j: "k = Suc j" "1 \<le> j" by (cases k; cases "k - 1") auto
  have "\<forall>op'\<in>set ops. op_time op' < op_time op + j * window rl" using k(3) late j(1) by fastforce
  then show ?thesis using Some assms(4,5) j by (auto simp: room_def intro!: exI [of _ j])
qed

text \<open>An operation inside a live window keeps the room.\<close>

lemma room_live:
  assumes "room n key rl k (op # ops)" "counters rl key = Some (c, m)" "counters rl' key = Some (c, m')" "window rl' = window rl"
  shows "room n key rl' k ops"
  using assms by (auto simp: room_def)

lemma live_entry: "\<not> opens rl t key \<Longrightarrow> \<exists>c n. counters rl key = Some (c, n) \<and> t < c + window rl"
  by (auto simp: opens_def split: option.splits)

lemma room_shrinks:
  assumes "j + (if fresh then 0 else 1) \<le> (m :: nat)" "fresh \<Longrightarrow> u = 0"
  shows "j * l + min u l \<le> m * l"
proof -
  have "(j + (if fresh then 0 else 1)) * l \<le> m * l" using assms(1) by (rule mult_le_mono1)
  with assms(2) show ?thesis by (cases fresh) auto
qed

lemma room_used: "room n key rl m ops \<Longrightarrow> min (used rl key) l \<le> m * l"
proof (cases "counters rl key")
  case (Some cx)
  assume "room n key rl m ops"
  then have "1 \<le> m" using Some by (auto simp: room_def)
  then have "1 * l \<le> m * l" by (rule mult_le_mono1)
  then show ?thesis unfolding nat_mult_1 by (rule min.coboundedI2)
qed (simp add: used_def)

lemma windows_bound:
  assumes "room n key rl m ops" "\<forall>op\<in>set ops. t0 \<le> op_time op \<and> op_time op < t0 + n * window rl"
    and "used rl key + hits key ops < 2 ^ 64"
  shows "accepted key ops rl + min (used rl key) (unat (limit rl)) \<le>
    m * unat (limit rl) + evictions key ops * (n * unat (limit rl)) + refunds key ops"
  using assms
proof (induction key ops rl arbitrary: m rule: accepted.induct)
  case (2 key k t ops rl)
  obtain ok rl' where al: "allow t k rl = (ok, rl')" by fastforce
  note IH = 2(1) [of "(ok, rl')" ok rl', OF al [symmetric] refl]
  have [simp]: "limit rl' = limit rl" "window rl' = window rl" using al limiter_fields(1,2) [of t k rl] by simp_all
  show ?case
  proof (cases "k = key")
    case False
    then have "used rl' key = used rl key" "room n key rl' m ops"
      using other_key(1,4) [of k key] room_tail [OF 2(2)] al by (metis snd_conv)+
    with IH [of m] 2(3,4) False al show ?thesis by simp
  next
    case True
    show ?thesis
    proof (cases "opens rl t key")
      case op: True
      have c: "counters rl' key = Some (t, 1)" and ok: "ok \<longleftrightarrow> 0 < limit rl" using opened [OF op] al True by simp_all
      from room_opens [of n key rl m "Allow k t" ops t0 rl' 1] 2(2,3) op c obtain j where
        j: "room n key rl' j ops" "1 \<le> j" "j + (if counters rl key = None then 0 else 1) \<le> m" by auto
      have used: "used rl' key = 1" "counters rl key = None \<Longrightarrow> used rl key = 0" using c by (simp_all add: used_def)
      have IHj: "accepted key ops rl' + min 1 (unat (limit rl)) \<le>
          j * unat (limit rl) + evictions key ops * (n * unat (limit rl)) + refunds key ops"
        using IH [OF j(1)] 2(3,4) used(1) True by simp
      have more: "j * unat (limit rl) + min (used rl key) (unat (limit rl)) \<le> m * unat (limit rl)"
        by (rule room_shrinks [OF j(3) used(2)])
      have "accepted key (Allow k t # ops) rl = (if ok then 1 else 0) + accepted key ops rl'" using al True by simp
      then have "accepted key (Allow k t # ops) rl \<le>
          j * unat (limit rl) + evictions key ops * (n * unat (limit rl)) + refunds key ops"
        using IHj ok by (auto simp: word_less_nat_alt min_def split: if_splits)
      with more show ?thesis by simp
    next
      case False
      then obtain c x where live: "counters rl key = Some (c, x)" "t < c + window rl" using live_entry by blast
      note st = allow_live [OF live]
      have x1: "unat (x + 1) = unat x + 1" using 2(4) True live(1) by (intro unat_Suc) (simp add: used_def)
      have ok: "ok \<longleftrightarrow> x < limit rl" and c: "counters rl' key = Some (c, x + 1)" using st(1,2) al True by simp_all
      have used: "used rl' key = unat x + 1" "used rl key = unat x" using c live(1) x1 by (simp_all add: used_def)
      have "room n key rl' m ops" using room_live [OF 2(2) live(1) c] by simp
      from IH [OF this] 2(3,4) True used show ?thesis using al ok by (auto simp: word_less_nat_alt)
    qed
  qed
next
  case (3 key k t ops rl)
  show ?case
  proof (cases "k = key")
    case False
    with 3(1) [of m] 3(3,4) other_key(2,5) [of k key] room_tail [OF 3(2)] show ?thesis by simp
  next
    case True
    show ?thesis
    proof (cases "opens rl t key")
      case op: True
      have c: "counters (refund t k rl) key = Some (t, 0)" using opened(3) [OF op] True by simp
      from room_opens [of n key rl m "Refund k t" ops t0 "refund t k rl" 0] 3(2,3) op c obtain j where
        j: "room n key (refund t k rl) j ops" "1 \<le> j" "j + (if counters rl key = None then 0 else 1) \<le> m" by auto
      have used: "used (refund t k rl) key = 0" "counters rl key = None \<Longrightarrow> used rl key = 0" using c by (simp_all add: used_def)
      have IHj: "accepted key ops (refund t k rl) \<le>
          j * unat (limit rl) + evictions key ops * (n * unat (limit rl)) + refunds key ops"
        using 3(1) [OF j(1)] 3(3,4) used(1) by simp
      have more: "j * unat (limit rl) + min (used rl key) (unat (limit rl)) \<le> m * unat (limit rl)"
        by (rule room_shrinks [OF j(3) used(2)])
      with IHj True show ?thesis by simp
    next
      case False
      then obtain c x where live: "counters rl key = Some (c, x)" "t < c + window rl" using live_entry by blast
      have c: "counters (refund t k rl) key = Some (c, saturating_sub1 x)" using allow_live(3) [OF live] True by simp
      have used: "used (refund t k rl) key = unat x - 1" "used rl key = unat x"
        using c live(1) by (simp_all add: used_def unat_sub1)
      have "room n key (refund t k rl) m ops" using room_live [OF 3(2) live(1) c] by simp
      from 3(1) [OF this] 3(3,4) True used have "accepted key ops (refund t k rl) + min (unat x - 1) (unat (limit rl)) \<le>
          m * unat (limit rl) + evictions key ops * (n * unat (limit rl)) + refunds key ops" by simp
      moreover have "min (unat x) (unat (limit rl)) \<le> min (unat x - 1) (unat (limit rl)) + 1" by simp
      ultimately show ?thesis using True used(2) by simp
    qed
  qed
next
  case (4 key k t ops rl)
  show ?case
  proof (cases "k = key \<and> counters (evict_counter k rl) \<noteq> counters rl")
    case True
    then have none: "counters (evict_counter k rl) key = None" by (auto simp: evict_counter_def split: if_splits)
    have "room n key (evict_counter k rl) n ops" "used (evict_counter k rl) key = 0" using none by (simp_all add: room_def used_def)
    from 4(1) [OF this(1)] 4(3,4) this(2) have IH: "accepted key ops (evict_counter k rl) \<le>
        n * unat (limit rl) + evictions key ops * (n * unat (limit rl)) + refunds key ops" by simp
    with IH True room_used [OF 4(2), of "unat (limit rl)"] show ?thesis by (simp add: add_mult_distrib)
  next
    case False
    then have eq: "counters (evict_counter k rl) key = counters rl key" by (cases "k = key") auto
    have "used (evict_counter k rl) key = used rl key" "room n key (evict_counter k rl) m ops"
      using eq room_tail [OF 4(2)] by (auto simp: used_def room_def split: option.splits)
    from 4(1) [OF this(2)] 4(3,4) this(1) show ?thesis by (auto simp: add_mult_distrib)
  qed
qed (simp add: room_used)

lemma accepted_windows:
  assumes "counters rl key = None" "\<forall>op\<in>set ops. t0 \<le> op_time op \<and> op_time op < t0 + n * window rl"
    and "hits key ops < 2 ^ 64"
  shows "accepted key ops rl \<le> n * unat (limit rl) * (1 + evictions key ops) + refunds key ops"
  using windows_bound [of n key rl n ops t0] assms by (simp add: room_def used_def algebra_simps)

text \<open>As long as the keys fit in the cache, nothing is evicted.\<close>

lemma nothing_evicted:
  assumes "finite K" "card K \<le> MAX_LIMITER_KEYS" "dom (counters rl) \<subseteq> K"
    "\<forall>op\<in>set ops. is_eviction op \<or> op_key op \<in> K"
  shows "accepted key ops rl = accepted key (filter (\<lambda>op. \<not> is_eviction op) ops) rl"
  using assms(3,4)
proof (induction key ops rl rule: accepted.induct)
  case (2 key k t ops rl)
  have "dom (counters (snd (allow t k rl))) \<subseteq> K" using 2(2,3) by (auto simp: allow_def split: prod.splits)
  then show ?case using 2(1) [OF refl prod.collapse] 2(3) by (simp add: split_beta Let_def)
next
  case (3 key k t ops rl)
  have "dom (counters (refund t k rl)) \<subseteq> K" using 3(2,3) by (auto simp: refund_def split: prod.splits)
  then show ?case using 3(1,3) by simp
next
  case (4 key k t ops rl)
  have "card (dom (counters rl)) \<le> MAX_LIMITER_KEYS" using card_mono [OF assms(1) 4(2)] assms(2) by linarith
  then have "evict_counter k rl = rl" by (simp add: evict_counter_def)
  then show ?case using 4 by simp
qed simp



lemma peer_eval:
  "parse_ip ''9.9.9.9'' = Some (V4 (Ipv4 9 9 9 9))" "parse_ip ''6.6.6.6'' = Some (V4 (Ipv4 6 6 6 6))"
  by (simp_all add: addr_eval)

section \<open>Properties\<close>

text \<open>
  \<open>ct_eq\<close>, the one comparison of cookies, CSRF tokens and capability tokens, accumulates the
  differences of all byte pairs without an early exit, and accepts exactly equal strings.
\<close>

theorem ct_eq_exact: "ct_eq a b \<longleftrightarrow> a = b"
proof -
  have "(\<forall>(x, y) \<in> set (zip (map byte a) (map byte b)). x = y) \<longleftrightarrow> a = b" if "length a = length b"
    using that by (induction a b rule: list_induct2) (simp_all add: byte_inj)
  then show ?thesis by (auto simp: ct_eq_def ct_diff_0)
qed

text \<open>
  C39: the address a request is keyed by is the peer's own unless the peer is inside a trusted network,
  and an address taken from a header is never itself inside one.
\<close>

theorem client_key_trust:
  "(\<not> trusted nets (sock_ip peer) \<longrightarrow> client_key peer headers nets = sock_ip peer) \<and>
   (client_key peer headers nets \<noteq> sock_ip peer \<longrightarrow> \<not> trusted nets (client_key peer headers nets))"
  using client_key_cases [of peer headers nets] walk_untrusted by metis

lemma client_key_trust_witness:
  "client_key (SocketAddr (V4 (Ipv4 1 1 1 1)) 80) [(X_FORWARDED_FOR, ''9.9.9.9'')]
     [\<lambda>ip. ip = V4 (Ipv4 2 2 2 2)] = V4 (Ipv4 1 1 1 1)"
  using client_key_trust [of "[\<lambda>ip. ip = V4 (Ipv4 2 2 2 2)]" "SocketAddr (V4 (Ipv4 1 1 1 1)) 80"
      "[(X_FORWARDED_FOR, ''9.9.9.9'')]"]
  by (simp add: trusted_def)

text \<open>
  Forged prefixes. Behind a trusted peer whose hop appends the address it saw to the one
  \<open>X-Forwarded-For\<close> line of the request, the key is that address, whatever text the client wrote
  before it.
\<close>

theorem xff_prefix_irrelevant:
  assumes "header_get headers X_FORWARDED_FOR = Some (forged @ '','' @ seen)"
    and "\<not> contains_key headers FORWARDED"
    and "list_all visible_char (forged @ '','' @ seen)"
    and "CHR '','' \<notin> set seen" and "parse_ip (trim seen) = Some ip"
    and "trusted nets (sock_ip peer)" and "\<not> trusted nets ip"
  shows "client_key peer headers nets = ip"
proof -
  have "split_on (CHR '','') (forged @ '','' @ seen) = split_on (CHR '','') forged @ [seen]"
    using assms(4) split_on_append_gen [of "CHR '',''" forged seen] by (simp add: split_on_single)
  then have "walk_xff headers nets = Client ip"
    using assms by (simp add: walk_xff_def to_str_def)
  moreover have "nets \<noteq> []" using assms(6) by (auto simp: trusted_def)
  ultimately show ?thesis
    using assms by (simp add: client_key_def contains_key_def)
qed

lemma xff_prefix_irrelevant_witness:
  "client_key (SocketAddr (V4 (Ipv4 2 2 2 2)) 41000) [(X_FORWARDED_FOR, ''6.6.6.6,9.9.9.9'')]
     [\<lambda>ip. ip = V4 (Ipv4 2 2 2 2)] = V4 (Ipv4 9 9 9 9)"
  by (rule xff_prefix_irrelevant [where forged = "''6.6.6.6''" and seen = "''9.9.9.9''"])
    (simp_all add: header_get_def contains_key_def X_FORWARDED_FOR_def FORWARDED_def trusted_def
      visible_char_def code_def trim_graph graph_char_def peer_eval)

text \<open>
  A second header cannot move the key. Whenever one of the two forwarding headers resolves to a
  client address and the other is present too, the key is that address or the peer's, whatever the
  other header says.
\<close>

theorem second_header_cannot_choose:
  assumes "walk_xff headers nets = Client a \<and> contains_key headers FORWARDED \<or>
    walk_forwarded headers nets = Client a \<and> contains_key headers X_FORWARDED_FOR"
  shows "client_key peer headers nets \<in> {a, sock_ip peer}"
proof -
  have "walk_xff headers nets = Client a \<Longrightarrow> contains_key headers X_FORWARDED_FOR"
    "walk_forwarded headers nets = Client a \<Longrightarrow> contains_key headers FORWARDED"
    by (auto simp: walk_xff_def walk_forwarded_def contains_key_def split: option.splits
        bind_splits)
  with assms show ?thesis
    by (auto simp: client_key_def Let_def split: Forwarded.splits)
qed

lemma second_header_cannot_choose_witness:
  "client_key (SocketAddr (V4 (Ipv4 2 2 2 2)) 41000)
     [(X_FORWARDED_FOR, ''9.9.9.9''), (FORWARDED, ''for=6.6.6.6'')] [\<lambda>ip. ip = V4 (Ipv4 2 2 2 2)]
   \<in> {V4 (Ipv4 9 9 9 9), V4 (Ipv4 2 2 2 2)}"
proof -
  have "walk_xff [(X_FORWARDED_FOR, ''9.9.9.9''), (FORWARDED, ''for=6.6.6.6'')]
      [\<lambda>ip. ip = V4 (Ipv4 2 2 2 2)] = Client (V4 (Ipv4 9 9 9 9))"
    by (simp add: walk_xff_def header_get_def to_str_def visible_char_def code_def trim_graph
        graph_char_def trusted_def peer_eval)
  moreover have "contains_key [(X_FORWARDED_FOR, ''9.9.9.9''), (FORWARDED, ''for=6.6.6.6'')] FORWARDED"
    by (simp add: contains_key_def header_get_def)
  ultimately show ?thesis
    using second_header_cannot_choose [where peer = "SocketAddr (V4 (Ipv4 2 2 2 2)) 41000"] by fastforce
qed

text \<open>
  Only the first line of a header is read. When the forwarding hop adds a line of its own
  instead of extending the client's, the client's own line decides the key: behind a trusted peer it is
  any untrusted address the client writes.
\<close>

theorem first_xff_line_decides:
  assumes "headers = (X_FORWARDED_FOR, forged) # (X_FORWARDED_FOR, seen) # rest"
    and "\<not> contains_key headers FORWARDED" and "list_all visible_char forged"
    and "CHR '','' \<notin> set forged" and "parse_ip (trim forged) = Some ip"
    and "trusted nets (sock_ip peer)" and "\<not> trusted nets ip"
  shows "client_key peer headers nets = ip"
proof -
  have "walk_xff headers nets = Client ip"
    using assms by (simp add: walk_xff_def header_get_def to_str_def split_on_single)
  moreover have "nets \<noteq> []" "contains_key headers X_FORWARDED_FOR"
    using assms by (auto simp: trusted_def contains_key_def header_get_def)
  ultimately show ?thesis using assms(2,6) by (simp add: client_key_def)
qed

lemma first_xff_line_decides_witness:
  "client_key (SocketAddr (V4 (Ipv4 2 2 2 2)) 41000)
     [(X_FORWARDED_FOR, ''6.6.6.6''), (X_FORWARDED_FOR, ''9.9.9.9'')] [\<lambda>ip. ip = V4 (Ipv4 2 2 2 2)]
   = V4 (Ipv4 6 6 6 6)"
  by (rule first_xff_line_decides [where forged = "''6.6.6.6''" and seen = "''9.9.9.9''" and rest = "[]"])
    (simp_all add: header_get_def contains_key_def X_FORWARDED_FOR_def FORWARDED_def trusted_def
      visible_char_def code_def trim_graph graph_char_def peer_eval)

text \<open>
  One window of the rate limiter. For a key with no entry and any interleaving of hits and refunds,
  of this and of other keys, inside one window, the entry of the key not being evicted, at most \<open>limit\<close> hits plus one per refund are allowed,
  and without refunds exactly the first \<open>limit\<close>; the counter never wraps below zero, whatever is
  refunded.
\<close>

theorem rate_limit_window:
  assumes "counters rl key = None"
    and "\<forall>op \<in> set ops. t0 \<le> op_time op \<and> op_time op < t0 + window rl"
    and "hits key ops < 2 ^ 64" "evictions key ops = 0"
  shows "accepted key ops rl \<le> unat (limit rl) + refunds key ops \<and>
    (refunds key ops = 0 \<longrightarrow> accepted key ops rl = min (hits key ops) (unat (limit rl)))"
  using assms by (rule accepted_fresh)

lemma rate_limit_window_witness:
  "accepted ''a'' [Allow ''a'' 5, Allow ''b'' 5, Allow ''a'' 6, Allow ''a'' 9] (new_limiter 2 10) = 2"
proof -
  have "hits ''a'' [Allow ''a'' 5, Allow ''b'' 5, Allow ''a'' 6, Allow ''a'' 9] = 3"
    "refunds ''a'' [Allow ''a'' 5, Allow ''b'' 5, Allow ''a'' 6, Allow ''a'' 9] = 0"
    "evictions ''a'' [Allow ''a'' 5, Allow ''b'' 5, Allow ''a'' 6, Allow ''a'' 9] = 0" by simp_all
  then show ?thesis
    using rate_limit_window [of "new_limiter 2 10" "''a''"
        "[Allow ''a'' 5, Allow ''b'' 5, Allow ''a'' 6, Allow ''a'' 9]" 5]
    by (simp add: new_limiter_def)
qed

end
