(* ===== verification/Db.thy ===== *)
theory Db
  imports Models
begin

text \<open>
  The tables of \<open>fumox-core/migrations\<close> that the proxy lifecycle lives in, as lists of rows: \<open>proxies\<close>
  in id order, the links between proxies and sources, the journal of check attempts and the priority
  queue. A statement \<open>UPDATE .. WHERE\<close> maps the rows its guard selects and counts them; a transaction
  is one function. The columns \<open>status\<close> and \<open>scheme\<close> hold the wire names that \<open>Models\<close> proves
  faithful, and carry the enum itself here. The locale \<open>row_update\<close> is the contract a guarded update
  owes the tables; every statement of \<open>Proxies\<close> and \<open>Lifecycle\<close> interprets it.
\<close>

section \<open>Rows\<close>

record ProxyRow =
  r_id :: nat
  r_fingerprint :: string
  r_scheme :: Scheme
  r_name :: string
  r_host :: string
  r_port :: int
  r_credential :: string
  r_params :: "string option"
  r_unknown_params :: "string option"
  r_raw_line :: "string option"
  r_geo_country :: "string option"
  r_geo_city :: "string option"
  r_geo_asn :: "string option"
  r_resolved_ip :: "string option"
  r_status :: ProxyStatus
  r_fail_count :: int
  r_last_checked_at :: "int option"
  r_last_alive_at :: "int option"
  r_quarantined_at :: "int option"
  r_ladder_at :: "int option"
  r_ladder_step :: int
  r_removed_at :: "int option"
  r_latency_ms :: "int option"
  r_last_t2_failed_at :: "int option"
  r_created_at :: int
  r_updated_at :: int

record Link =
  l_proxy :: nat
  l_source :: string
  l_seen_at :: int

record ProbeResult =
  pr_proxy :: nat
  pr_checked_at :: int
  pr_ok :: bool
  pr_latency_ms :: "int option"
  pr_error :: "string option"
  pr_kind :: string

record ProbeRequest =
  q_proxy :: nat
  q_requested_at :: int

record Db =
  proxies :: "ProxyRow list"
  links :: "Link list"
  results :: "ProbeResult list"
  requests :: "ProbeRequest list"
  next_id :: nat

section \<open>Statements\<close>

definition update_rows :: "(ProxyRow \<Rightarrow> bool) \<Rightarrow> (ProxyRow \<Rightarrow> ProxyRow) \<Rightarrow> Db \<Rightarrow> Db" where
  "update_rows guard upd db = db\<lparr>proxies := map (\<lambda>r. if guard r then upd r else r) (proxies db)\<rparr>"

definition rows_where :: "(ProxyRow \<Rightarrow> bool) \<Rightarrow> Db \<Rightarrow> ProxyRow list" where
  "rows_where guard db = filter guard (proxies db)"

definition rows_affected :: "(ProxyRow \<Rightarrow> bool) \<Rightarrow> Db \<Rightarrow> nat" where
  "rows_affected guard db = length (rows_where guard db)"

definition linked :: "Db \<Rightarrow> nat \<Rightarrow> bool" where
  "linked db i \<longleftrightarrow> list_ex (\<lambda>l. l_proxy l = i) (links db)"

definition has_history :: "Db \<Rightarrow> nat \<Rightarrow> bool" where
  "has_history db i \<longleftrightarrow> list_ex (\<lambda>r. pr_proxy r = i) (results db)"

definition get_by_id :: "Db \<Rightarrow> nat \<Rightarrow> ProxyRow option" where
  "get_by_id db i = find (\<lambda>r. r_id r = i) (proxies db)"

definition get_by_fingerprint :: "Db \<Rightarrow> string \<Rightarrow> ProxyRow option" where
  "get_by_fingerprint db fp = find (\<lambda>r. r_fingerprint r = fp) (proxies db)"

lemma update_rows_other [simp]:
  "links (update_rows g u db) = links db" "results (update_rows g u db) = results db"
  "requests (update_rows g u db) = requests db" "next_id (update_rows g u db) = next_id db"
  by (simp_all add: update_rows_def)

lemma update_rows_linked [simp]:
  "linked (update_rows g u db) i = linked db i" "has_history (update_rows g u db) i = has_history db i"
  by (simp_all add: linked_def has_history_def)

lemma proxies_update_rows:
  "proxies (update_rows g u db) = map (\<lambda>r. if g r then u r else r) (proxies db)"
  by (simp add: update_rows_def)

section \<open>Invariants of the tables\<close>

text \<open>Primary keys, unique keys and foreign keys of the schema.\<close>

definition wf_db :: "Db \<Rightarrow> bool" where
  "wf_db db \<longleftrightarrow>
     distinct (map r_id (proxies db)) \<and> distinct (map r_fingerprint (proxies db)) \<and>
     (\<forall>r \<in> set (proxies db). r_id r < next_id db) \<and>
     distinct (map (\<lambda>l. (l_proxy l, l_source l)) (links db)) \<and>
     l_proxy ` set (links db) \<subseteq> r_id ` set (proxies db) \<and>
     distinct (map q_proxy (requests db)) \<and>
     q_proxy ` set (requests db) \<subseteq> r_id ` set (proxies db) \<and>
     pr_proxy ` set (results db) \<subseteq> r_id ` set (proxies db)"

text \<open>
  The lifecycle columns of one row: a quarantined row has its next check scheduled, a live row carries
  no schedule, exactly the removed rows have a removal time, and a row is in the tunnel-verified tier only
  while no T2 failure is outstanding.
\<close>

definition row_ok :: "ProxyRow \<Rightarrow> bool" where
  "row_ok r \<longleftrightarrow>
     (r_status r = Quarantine \<longrightarrow> r_ladder_at r \<noteq> None \<and> r_quarantined_at r \<noteq> None) \<and>
     (r_status r \<in> {Unknown, Alive, Ready} \<longrightarrow>
        r_ladder_at r = None \<and> r_quarantined_at r = None \<and> r_ladder_step r = 0) \<and>
     (r_status r = Removed \<longleftrightarrow> r_removed_at r \<noteq> None) \<and>
     (r_status r = Ready \<longrightarrow> r_last_t2_failed_at r = None) \<and>
     0 \<le> r_fail_count r"

definition rows_ok :: "Db \<Rightarrow> bool" where
  "rows_ok db \<longleftrightarrow> (\<forall>r \<in> set (proxies db). row_ok r)"

definition sound_db :: "Db \<Rightarrow> bool" where
  "sound_db db \<longleftrightarrow> wf_db db \<and> rows_ok db"

lemma rows_okI: "(\<And>r. r \<in> set (proxies db) \<Longrightarrow> row_ok r) \<Longrightarrow> rows_ok db"
  by (simp add: rows_ok_def)

lemma rows_okD: "rows_ok db \<Longrightarrow> r \<in> set (proxies db) \<Longrightarrow> row_ok r"
  by (simp add: rows_ok_def)

lemma get_by_id_iff:
  assumes "wf_db db"
  shows "get_by_id db i = Some r \<longleftrightarrow> r \<in> set (proxies db) \<and> r_id r = i"
proof -
  have "distinct (map r_id rs) \<Longrightarrow> find (\<lambda>r. r_id r = i) rs = Some r \<longleftrightarrow> r \<in> set rs \<and> r_id r = i" for rs
    by (induction rs) (auto simp: image_iff)
  then show ?thesis using assms by (simp add: get_by_id_def wf_db_def)
qed

section \<open>The contract of a guarded update\<close>

locale row_update =
  fixes guard :: "ProxyRow \<Rightarrow> bool" and upd :: "ProxyRow \<Rightarrow> ProxyRow"
  assumes keeps_identity: "r_id (upd r) = r_id r" "r_fingerprint (upd r) = r_fingerprint r"
      "r_scheme (upd r) = r_scheme r"
    and keeps_row_ok: "guard r \<Longrightarrow> row_ok r \<Longrightarrow> row_ok (upd r)"
begin

lemma identity_map:
  "map r_id (proxies (update_rows guard upd db)) = map r_id (proxies db)"
  "map r_fingerprint (proxies (update_rows guard upd db)) = map r_fingerprint (proxies db)"
  by (simp_all add: proxies_update_rows keeps_identity)

lemma ids: "r_id ` set (proxies (update_rows guard upd db)) = r_id ` set (proxies db)"
  using arg_cong [OF identity_map(1), of set] by simp

lemma keeps_wf: "wf_db db \<Longrightarrow> wf_db (update_rows guard upd db)"
proof -
  assume wf: "wf_db db"
  have "\<forall>r \<in> set (proxies (update_rows guard upd db)). r_id r < next_id db"
    using wf ids [of db] by (metis (no_types, lifting) image_iff wf_db_def)
  then show ?thesis
    using wf by (simp add: wf_db_def identity_map ids)
qed

lemma keeps_rows_ok: "rows_ok db \<Longrightarrow> rows_ok (update_rows guard upd db)"
  by (auto simp: rows_ok_def proxies_update_rows keeps_row_ok)

lemma keeps_sound: "sound_db db \<Longrightarrow> sound_db (update_rows guard upd db)"
  by (simp add: sound_db_def keeps_wf keeps_rows_ok)

lemma row_after:
  "r' \<in> set (proxies (update_rows guard upd db)) \<longleftrightarrow>
     (\<exists>r \<in> set (proxies db). r' = (if guard r then upd r else r))"
  by (auto simp: proxies_update_rows)

lemma get_after:
  "get_by_id (update_rows guard upd db) i =
     map_option (\<lambda>r. if guard r then upd r else r) (get_by_id db i)"
proof -
  have "find (\<lambda>r. r_id r = i) (map (\<lambda>r. if guard r then upd r else r) rs) =
      map_option (\<lambda>r. if guard r then upd r else r) (find (\<lambda>r. r_id r = i) rs)" for rs
    by (induction rs) (simp_all add: keeps_identity)
  then show ?thesis by (simp add: get_by_id_def proxies_update_rows)
qed

end

end
