(* ===== verification/Probe_Queue.thy ===== *)
theory Probe_Queue
  imports Db
begin

text \<open>
  The journal of check attempts and the priority queue of \<open>fumox-core/src/repo/probe.rs\<close>: attempts are
  appended to \<open>results\<close> in id order, requests are enqueued newest id first under a limit, drained
  newest request first, and claimed (deleted) before the checks run. The attempt and request tables are
  lists in insertion order, so \<open>ORDER BY key DESC, id DESC\<close> is the reverse of a stable ascending sort.
\<close>

section \<open>The journal\<close>

definition insert_result :: "ProbeResult \<Rightarrow> Db \<Rightarrow> Db" where
  "insert_result entry db = db\<lparr>results := results db @ [entry]\<rparr>"

definition purge_before :: "int \<Rightarrow> Db \<Rightarrow> nat \<times> Db" where
  "purge_before cutoff db =
     (length (filter (\<lambda>r. pr_checked_at r < cutoff) (results db)),
      db\<lparr>results := filter (\<lambda>r. \<not> pr_checked_at r < cutoff) (results db)\<rparr>)"

definition count_all :: "Db \<Rightarrow> nat" where
  "count_all db = length (results db)"

definition newest_first :: "('a \<Rightarrow> int) \<Rightarrow> 'a list \<Rightarrow> 'a list" where
  "newest_first key xs = rev (sort_key key xs)"

definition last_failed_kind :: "Db \<Rightarrow> nat \<Rightarrow> string option" where
  "last_failed_kind db i =
     (case newest_first pr_checked_at (filter (\<lambda>r. pr_proxy r = i \<and> \<not> pr_ok r) (results db)) of
        [] \<Rightarrow> None
      | r # _ \<Rightarrow> Some (pr_kind r))"

definition recent_for_proxy :: "Db \<Rightarrow> nat \<Rightarrow> nat \<Rightarrow> ProbeResult list" where
  "recent_for_proxy db i lim =
     take lim (newest_first pr_checked_at (filter (\<lambda>r. pr_proxy r = i) (results db)))"

section \<open>The priority queue\<close>

definition T1_EXCLUDED_SCHEMES :: "Scheme list" where
  "T1_EXCLUDED_SCHEMES = [Hysteria2, Tuic, Mieru]"

record T1Candidate =
  t1_id :: nat
  t1_scheme :: Scheme
  t1_host :: string
  t1_port :: int
  t1_params :: "string option"

definition t1_candidate :: "ProxyRow \<Rightarrow> T1Candidate" where
  "t1_candidate r = \<lparr>t1_id = r_id r, t1_scheme = r_scheme r, t1_host = r_host r, t1_port = r_port r,
     t1_params = r_params r\<rparr>"

function chunks :: "nat \<Rightarrow> 'a list \<Rightarrow> 'a list list" where
  "chunks n xs = (if xs = [] \<or> n = 0 then [] else take n xs # chunks n (drop n xs))"
  by pat_completeness auto
termination by (relation "measure (length \<circ> snd)") auto

declare chunks.simps [simp del]

definition queueable :: "Db \<Rightarrow> ProxyRow \<Rightarrow> bool" where
  "queueable db r \<longleftrightarrow>
     r_status r = Unknown \<and> r_scheme r \<notin> set T1_EXCLUDED_SCHEMES \<and> linked db (r_id r)"

text \<open>One \<open>INSERT OR IGNORE .. SELECT .. ORDER BY p.id DESC LIMIT ?\<close>: the limit counts selected rows.\<close>

definition enqueue_chunk :: "nat list \<Rightarrow> int \<Rightarrow> int \<Rightarrow> Db \<Rightarrow> nat \<times> Db" where
  "enqueue_chunk chunk remaining now db =
     (let selected = take (nat remaining) (rev (sort_key r_id
            (filter (\<lambda>r. r_id r \<in> set chunk \<and> queueable db r) (proxies db))));
          fresh = filter (\<lambda>r. r_id r \<notin> q_proxy ` set (requests db)) selected
      in (length fresh,
          db\<lparr>requests := requests db @ map (\<lambda>r. \<lparr>q_proxy = r_id r, q_requested_at = now\<rparr>) fresh\<rparr>))"

fun enqueue_loop :: "nat list list \<Rightarrow> nat \<Rightarrow> int \<Rightarrow> int \<Rightarrow> Db \<Rightarrow> nat \<times> Db" where
  "enqueue_loop [] queued remaining now db = (queued, db)"
| "enqueue_loop (chunk # rest) queued remaining now db =
     (if remaining \<le> 0 then (queued, db)
      else (let (inserted, db') = enqueue_chunk chunk remaining now db
            in enqueue_loop rest (queued + inserted) (remaining - int inserted) now db'))"

definition enqueue_checks :: "nat list \<Rightarrow> nat \<Rightarrow> int \<Rightarrow> Db \<Rightarrow> nat \<times> Db" where
  "enqueue_checks candidate_ids lim now db =
     enqueue_loop (chunks 500 (rev (sorted_list_of_set (set candidate_ids)))) 0 (int lim) now db"

definition select_queued_checks :: "Db \<Rightarrow> nat \<Rightarrow> T1Candidate list" where
  "select_queued_checks db lim =
     take lim (List.map_filter (\<lambda>q.
       (case get_by_id db (q_proxy q) of
          Some p \<Rightarrow> if queueable db p \<and> r_last_t2_failed_at p = None then Some (t1_candidate p) else None
        | None \<Rightarrow> None))
       (newest_first q_requested_at (sort_key q_proxy (requests db))))"

definition claim_checks :: "nat list \<Rightarrow> Db \<Rightarrow> nat \<times> Db" where
  "claim_checks proxy_ids db =
     (length (filter (\<lambda>q. q_proxy q \<in> set proxy_ids) (requests db)),
      db\<lparr>requests := filter (\<lambda>q. q_proxy q \<notin> set proxy_ids) (requests db)\<rparr>)"

definition purge_settled_checks :: "Db \<Rightarrow> nat \<times> Db" where
  "purge_settled_checks db =
     (let settled = (\<lambda>q. case get_by_id db (q_proxy q) of Some p \<Rightarrow> r_status p \<noteq> Unknown | None \<Rightarrow> False)
      in (length (filter settled (requests db)),
          db\<lparr>requests := filter (\<lambda>q. \<not> settled q) (requests db)\<rparr>))"

definition purge_requests_before :: "int \<Rightarrow> Db \<Rightarrow> nat \<times> Db" where
  "purge_requests_before cutoff db =
     (length (filter (\<lambda>q. q_requested_at q < cutoff) (requests db)),
      db\<lparr>requests := filter (\<lambda>q. \<not> q_requested_at q < cutoff) (requests db)\<rparr>)"

section \<open>Lemmas\<close>

lemma newest_first_set [simp]: "set (newest_first key xs) = set xs"
  by (simp add: newest_first_def)

lemma concat_chunks: "0 < n \<Longrightarrow> concat (chunks n xs) = xs"
  by (induction n xs rule: chunks.induct) (subst chunks.simps, simp)

lemma enqueue_chunk_fields:
  assumes "enqueue_chunk chunk rem now db = (n, db')"
  shows "proxies db' = proxies db" "links db' = links db" "results db' = results db"
    "next_id db' = next_id db" "\<exists>new. requests db' = requests db @ new \<and> length new = n \<and>
       n \<le> nat rem \<and>
       (\<forall>q \<in> set new. q_proxy q \<in> set chunk \<and> q_requested_at q = now \<and> q_proxy q \<notin> q_proxy ` set (requests db) \<and>
          (\<exists>r \<in> set (proxies db). r_id r = q_proxy q \<and> queueable db r)) \<and>
       (distinct (map r_id (proxies db)) \<longrightarrow> distinct (map q_proxy new))"
proof -
  let ?sel = "take (nat rem) (rev (sort_key r_id
      (filter (\<lambda>r. r_id r \<in> set chunk \<and> queueable db r) (proxies db))))"
  let ?fresh = "filter (\<lambda>r. r_id r \<notin> q_proxy ` set (requests db)) ?sel"
  let ?new = "map (\<lambda>r. \<lparr>q_proxy = r_id r, q_requested_at = now\<rparr>) ?fresh"
  from assms have n: "n = length ?fresh" and db: "db' = db\<lparr>requests := requests db @ ?new\<rparr>"
    by (simp_all add: enqueue_chunk_def Let_def)
  from db show "proxies db' = proxies db" "links db' = links db" "results db' = results db"
    "next_id db' = next_id db" by simp_all
  have sub: "set ?sel \<subseteq> {r \<in> set (proxies db). r_id r \<in> set chunk \<and> queueable db r}"
    by (auto dest!: in_set_takeD)
  have "length ?fresh \<le> length ?sel" by (rule length_filter_le)
  then have "n \<le> nat rem" unfolding n by simp
  moreover have "distinct (map q_proxy ?new)" if d: "distinct (map r_id (proxies db))"
  proof -
    have "distinct (map r_id (filter (\<lambda>r. r_id r \<in> set chunk \<and> queueable db r) (proxies db)))"
      using d by (rule distinct_map_filter)
    then have "distinct (map r_id (rev (sort_key r_id
        (filter (\<lambda>r. r_id r \<in> set chunk \<and> queueable db r) (proxies db)))))"
      by (simp add: distinct_map)
    then have "distinct (map r_id ?sel)" unfolding take_map [symmetric] by (rule distinct_take)
    then have "distinct (map r_id ?fresh)" by (rule distinct_map_filter)
    then show ?thesis by (simp add: comp_def)
  qed
  ultimately show "\<exists>new. requests db' = requests db @ new \<and> length new = n \<and> n \<le> nat rem \<and>
       (\<forall>q \<in> set new. q_proxy q \<in> set chunk \<and> q_requested_at q = now \<and> q_proxy q \<notin> q_proxy ` set (requests db) \<and>
          (\<exists>r \<in> set (proxies db). r_id r = q_proxy q \<and> queueable db r)) \<and>
       (distinct (map r_id (proxies db)) \<longrightarrow> distinct (map q_proxy new))"
    using db n sub by (intro exI [of _ ?new]) auto
qed

text \<open>What one batch of enqueueing does to the tables.\<close>

definition only_requests :: "Db \<Rightarrow> Db \<Rightarrow> bool" where
  "only_requests db db' \<longleftrightarrow> proxies db' = proxies db \<and> links db' = links db \<and> results db' = results db \<and>
     next_id db' = next_id db"

lemma only_requests_queueable: "only_requests db db' \<Longrightarrow> queueable db' = queueable db"
  by (auto simp: only_requests_def queueable_def linked_def fun_eq_iff)

lemma enqueue_loop_sound:
  assumes "enqueue_loop cs queued rem now db = (n, db')" and "distinct (map r_id (proxies db))"
    and "distinct (map q_proxy (requests db))"
  shows "only_requests db db' \<and> queued \<le> n \<and> int n \<le> int queued + max 0 rem \<and>
    distinct (map q_proxy (requests db')) \<and>
    (\<exists>new. requests db' = requests db @ new \<and> length new = n - queued \<and>
       (\<forall>q \<in> set new. q_proxy q \<in> set (concat cs) \<and> (\<exists>r \<in> set (proxies db). r_id r = q_proxy q \<and> queueable db r)))"
  using assms
proof (induction cs queued rem now db arbitrary: n db' rule: enqueue_loop.induct)
  case (2 chunk rest queued rem now db)
  show ?case
  proof (cases "rem \<le> 0")
    case False
    obtain k db1 where c: "enqueue_chunk chunk rem now db = (k, db1)" by fastforce
    note f = enqueue_chunk_fields [OF c]
    then obtain new where new: "requests db1 = requests db @ new" "length new = k" "k \<le> nat rem"
      "\<forall>q \<in> set new. q_proxy q \<in> set chunk \<and> q_proxy q \<notin> q_proxy ` set (requests db) \<and>
          (\<exists>r \<in> set (proxies db). r_id r = q_proxy q \<and> queueable db r)"
      "distinct (map q_proxy new)" using 2(3) by blast
    have only: "only_requests db db1" using f by (simp add: only_requests_def)
    have "set (map q_proxy (requests db)) \<inter> set (map q_proxy new) = {}"
    proof (rule Int_emptyI)
      fix x assume x: "x \<in> set (map q_proxy (requests db))" and "x \<in> set (map q_proxy new)"
      then obtain q where q: "q \<in> set new" "x = q_proxy q" by auto
      from bspec [OF new(4) q(1)] x q(2) show False by simp
    qed
    then have "distinct (map q_proxy (requests db1))"
      unfolding new(1) map_append distinct_append using 2(4) new(5) by blast
    moreover have "enqueue_loop rest (queued + k) (rem - int k) now db1 = (n, db')"
      using 2(2) False c by simp
    moreover have "distinct (map r_id (proxies db1))" using 2(3) f by simp
    ultimately have IH: "only_requests db1 db' \<and> queued + k \<le> n \<and> int n \<le> int (queued + k) + max 0 (rem - int k) \<and>
        distinct (map q_proxy (requests db')) \<and>
        (\<exists>new. requests db' = requests db1 @ new \<and> length new = n - (queued + k) \<and>
           (\<forall>q \<in> set new. q_proxy q \<in> set (concat rest) \<and>
              (\<exists>r \<in> set (proxies db1). r_id r = q_proxy q \<and> queueable db1 r)))"
      using 2(1) [OF False c [symmetric] refl] by simp
    then obtain new' where new': "requests db' = requests db1 @ new'" "length new' = n - (queued + k)"
      "\<forall>q \<in> set new'. q_proxy q \<in> set (concat rest) \<and>
              (\<exists>r \<in> set (proxies db1). r_id r = q_proxy q \<and> queueable db1 r)" by blast
    have "int n \<le> int queued + max 0 rem" using IH new(3) False by linarith
    moreover have "only_requests db db'" using only IH by (simp add: only_requests_def)
    moreover have "\<exists>new. requests db' = requests db @ new \<and> length new = n - queued \<and>
       (\<forall>q \<in> set new. q_proxy q \<in> set (concat (chunk # rest)) \<and>
          (\<exists>r \<in> set (proxies db). r_id r = q_proxy q \<and> queueable db r))"
      using new new' only_requests_queueable [OF only] f(1) IH
      by (intro exI [of _ "new @ new'"]) auto
    ultimately show ?thesis using IH by auto
  qed (use 2 in \<open>simp add: only_requests_def\<close>)
qed (simp add: only_requests_def)

lemma enqueue_checks_sound:
  assumes "enqueue_checks ids lim now db = (n, db')" and "wf_db db"
  shows "only_requests db db' \<and> n \<le> lim \<and> distinct (map q_proxy (requests db')) \<and>
    (\<exists>new. requests db' = requests db @ new \<and> length new = n \<and>
       (\<forall>q \<in> set new. q_proxy q \<in> set ids \<and> (\<exists>r \<in> set (proxies db). r_id r = q_proxy q \<and> queueable db r)))"
proof -
  have d: "distinct (map r_id (proxies db))" "distinct (map q_proxy (requests db))"
    using assms(2) by (simp_all add: wf_db_def)
  show ?thesis
    using enqueue_loop_sound [OF assms(1) [unfolded enqueue_checks_def] d] by (simp add: concat_chunks)
qed

lemma enqueue_checks_wf:
  assumes "enqueue_checks ids lim now db = (n, db')" and "wf_db db"
  shows "wf_db db'"
proof -
  from enqueue_checks_sound [OF assms] obtain new where "only_requests db db'"
      "distinct (map q_proxy (requests db'))" and new: "requests db' = requests db @ new"
      "\<forall>q \<in> set new. \<exists>r \<in> set (proxies db). r_id r = q_proxy q" by blast
  moreover have "q_proxy ` set (requests db') \<subseteq> r_id ` set (proxies db)"
    using new assms(2) by (auto simp: wf_db_def) (metis imageI)
  ultimately show ?thesis using assms(2) by (simp add: wf_db_def only_requests_def)
qed

end
