(* ===== verification/Geo.thy ===== *)
theory Geo
  imports Net_Addr
begin

text \<open>
  \<open>fumox-core/src/geo.rs\<close>: the name template, the merge of the City and ASN databases for one
  address, and the resolver with its host cache. The databases are parameters (a reader is the function
  from an address to the decoded record, None when there is none), DNS is a parameter (None for a failure
  or a timeout), and the cache may drop entries at any time.
\<close>

section \<open>Facts\<close>

record GeoInfo =
  gi_ip :: string
  gi_country_code :: "string option"
  gi_country_name :: "string option"
  gi_city_name :: "string option"
  gi_asn :: "nat option"
  gi_asn_org :: "string option"

definition no_info :: "string \<Rightarrow> GeoInfo" where
  "no_info ip = \<lparr>gi_ip = ip, gi_country_code = None, gi_country_name = None, gi_city_name = None,
     gi_asn = None, gi_asn_org = None\<rparr>"

section \<open>The name template\<close>

text \<open>Letter number n of the alphabet is U+1F1E6 + n, in UTF-8 \<open>F0 9F 87 (A6 + n)\<close>.\<close>

definition regional_indicator :: "char \<Rightarrow> string" where
  "regional_indicator c = [CHR 0xF0, CHR 0x9F, CHR 0x87, char_of (0xA6 + (code c - 65))]"

definition flag_emoji :: "string \<Rightarrow> string option" where
  "flag_emoji iso_code =
     (let bytes = map ascii_upper (trim iso_code) in
      if length bytes \<noteq> 2 \<or> \<not> list_all is_upper bytes then None
      else Some (concat (map regional_indicator bytes)))"

text \<open>\<open>str::replace\<close> for a pattern that is not empty.\<close>

lemma split_once_str_shorter:
  "split_once_str p s = Some (a, b) \<Longrightarrow> p \<noteq> [] \<Longrightarrow> length b < length s"
proof (induction p s arbitrary: a b rule: split_once_str.induct)
  case (2 p c s)
  then show ?case by (cases "prefix p (c # s)") (auto split: option.splits)
qed (simp split: if_splits)

function str_replace :: "string \<Rightarrow> string \<Rightarrow> string \<Rightarrow> string" where
  "str_replace p t s =
     (if p = [] then s
      else (case split_once_str p s of None \<Rightarrow> s | Some (a, b) \<Rightarrow> a @ t @ str_replace p t b))"
  by pat_completeness auto
termination
  by (relation "measure (\<lambda>(p, t, s). length s)") (auto dest: split_once_str_shorter)

declare str_replace.simps [simp del]

function collapse_runs :: "bool \<Rightarrow> string \<Rightarrow> string" where
  "collapse_runs prev_space [] = []"
| "collapse_runs prev_space (c # s) =
     (case first_strip ws_codes (c # s) of
        Some t \<Rightarrow> (if prev_space then [] else '' '') @ collapse_runs True t
      | None \<Rightarrow> c # collapse_runs False s)"
  by pat_completeness auto
termination
  by (relation "measure (\<lambda>(b, s). length s)") (auto dest: first_strip_shorter)

definition collapse_whitespace :: "string \<Rightarrow> string" where
  "collapse_whitespace text = trim (collapse_runs False text)"

definition unwrap_or_default :: "string option \<Rightarrow> string" where
  "unwrap_or_default x = (case x of Some s \<Rightarrow> s | None \<Rightarrow> [])"

definition apply_template :: "string \<Rightarrow> GeoInfo \<Rightarrow> string \<Rightarrow> string" where
  "apply_template template geo name =
     (if gi_country_code geo = None \<and> gi_city_name geo = None \<and> gi_asn geo = None then name
      else (let flag = unwrap_or_default (Option.bind (gi_country_code geo) flag_emoji);
                country = unwrap_or_default (coalesce (gi_country_name geo) (gi_country_code geo));
                city = unwrap_or_default (gi_city_name geo);
                asn_org = unwrap_or_default (gi_asn_org geo);
                asn = unwrap_or_default (map_option (\<lambda>n. ''AS'' @ dec_nat n) (gi_asn geo));
                rendered = str_replace ''{name}'' name (str_replace ''{asn}'' asn
                  (str_replace ''{asn_org}'' asn_org (str_replace ''{city}'' city
                  (str_replace ''{country}'' country (str_replace ''{flag}'' flag template)))))
            in collapse_whitespace rendered))"

section \<open>The databases\<close>

record Names =
  n_english :: "string option"
  n_german :: "string option"
  n_spanish :: "string option"
  n_french :: "string option"
  n_russian :: "string option"
  n_japanese :: "string option"
  n_brazilian_portuguese :: "string option"
  n_simplified_chinese :: "string option"

definition english_name :: "Names \<Rightarrow> string option" where
  "english_name n = coalesce (n_english n) (coalesce (n_german n) (coalesce (n_spanish n)
     (coalesce (n_french n) (coalesce (n_russian n) (coalesce (n_japanese n)
     (coalesce (n_brazilian_portuguese n) (n_simplified_chinese n)))))))"

text \<open>A decoded City record: \<open>country.is_empty()\<close>, the ISO code and the names; a decoded ASN record.\<close>

record CityRecord =
  cr_country_empty :: bool
  cr_iso_code :: "string option"
  cr_country_names :: Names
  cr_city_names :: Names

record AsnRecord =
  ar_number :: "nat option"
  ar_organization :: "string option"

record Backends =
  b_city :: "(ip_addr \<Rightarrow> CityRecord option) option"
  b_asn :: "(ip_addr \<Rightarrow> AsnRecord option) option"

definition backends_empty :: "Backends \<Rightarrow> bool" where
  "backends_empty b \<longleftrightarrow> b_city b = None \<and> b_asn b = None"

record GeoFactMask =
  m_country :: bool
  m_asn :: bool

definition backends_mask :: "Backends \<Rightarrow> GeoFactMask" where
  "backends_mask b = \<lparr>m_country = (b_city b \<noteq> None), m_asn = (b_asn b \<noteq> None)\<rparr>"

definition lookup_city :: "(ip_addr \<Rightarrow> CityRecord option) \<Rightarrow> ip_addr \<Rightarrow> GeoInfo option" where
  "lookup_city reader ip =
     Option.bind (reader ip) (\<lambda>record.
       if cr_country_empty record then None
       else Some ((no_info [])\<lparr>gi_country_code := cr_iso_code record,
              gi_country_name := english_name (cr_country_names record),
              gi_city_name := english_name (cr_city_names record)\<rparr>))"

definition lookup_asn :: "(ip_addr \<Rightarrow> AsnRecord option) \<Rightarrow> ip_addr \<Rightarrow> GeoInfo option" where
  "lookup_asn reader ip =
     map_option (\<lambda>record. (no_info [])\<lparr>gi_asn := ar_number record, gi_asn_org := ar_organization record\<rparr>)
       (reader ip)"

section \<open>The resolver\<close>

definition first_ip :: "ip_addr list \<Rightarrow> ip_addr option" where
  "first_ip addrs =
     (case addrs of
        [] \<Rightarrow> None
      | first # rest \<Rightarrow>
          if is_ipv4 first then Some first
          else Some (case find is_ipv4 rest of Some a \<Rightarrow> a | None \<Rightarrow> first))"

definition dns_resolve :: "(string \<Rightarrow> ip_addr list option) \<Rightarrow> string \<Rightarrow> ip_addr option" where
  "dns_resolve dns host = Option.bind (dns host) first_ip"

definition merge_city :: "Backends \<Rightarrow> ip_addr \<Rightarrow> GeoInfo \<times> bool \<Rightarrow> GeoInfo \<times> bool" where
  "merge_city b ip x =
     (case Option.bind (b_city b) (\<lambda>reader. lookup_city reader ip) of
        None \<Rightarrow> x
      | Some city \<Rightarrow>
          ((fst x)\<lparr>gi_country_code := coalesce (gi_country_code (fst x)) (gi_country_code city),
                  gi_country_name := coalesce (gi_country_name (fst x)) (gi_country_name city),
                  gi_city_name := coalesce (gi_city_name (fst x)) (gi_city_name city)\<rparr>, True))"

definition merge_asn :: "Backends \<Rightarrow> ip_addr \<Rightarrow> GeoInfo \<times> bool \<Rightarrow> GeoInfo \<times> bool" where
  "merge_asn b ip x =
     (case Option.bind (b_asn b) (\<lambda>reader. lookup_asn reader ip) of
        None \<Rightarrow> x
      | Some asn \<Rightarrow> ((fst x)\<lparr>gi_asn := gi_asn asn, gi_asn_org := gi_asn_org asn\<rparr>, True))"

definition resolve_uncached ::
  "(string \<Rightarrow> ip_addr list option) \<Rightarrow> Backends \<Rightarrow> string \<Rightarrow> GeoInfo option" where
  "resolve_uncached dns b host =
     Option.bind (case parse_ip host of Some ip \<Rightarrow> Some ip | None \<Rightarrow> dns_resolve dns host) (\<lambda>ip.
       (let (info, any) = merge_asn b ip (merge_city b ip (no_info (show_ip ip), False))
        in if any then Some info else None))"

text \<open>The cache: per key the verdict and the time it was inserted. \<open>evict\<close> is what the cache drops on its own.\<close>

type_synonym geo_cache = "string \<rightharpoonup> GeoInfo option \<times> int"

definition CACHE_TTL :: int where
  "CACHE_TTL = 6 * 3600"

definition cache_get :: "int \<Rightarrow> geo_cache \<Rightarrow> string \<Rightarrow> GeoInfo option option" where
  "cache_get now cache key =
     (case cache key of Some (v, at) \<Rightarrow> if now < at + CACHE_TTL then Some v else None | None \<Rightarrow> None)"

record GeoResolver =
  gr_backends :: "Backends option"
  gr_cache :: geo_cache

definition geo_is_active :: "GeoResolver \<Rightarrow> bool" where
  "geo_is_active g \<longleftrightarrow> gr_backends g \<noteq> None"

definition fact_mask :: "GeoResolver \<Rightarrow> GeoFactMask" where
  "fact_mask g = (case gr_backends g of Some b \<Rightarrow> backends_mask b | None \<Rightarrow> \<lparr>m_country = False, m_asn = False\<rparr>)"

definition new_resolver :: "bool \<Rightarrow> Backends \<Rightarrow> GeoResolver" where
  "new_resolver enabled backends =
     \<lparr>gr_backends = (if \<not> enabled \<or> backends_empty backends then None else Some backends), gr_cache = Map.empty\<rparr>"

definition geo_resolve ::
  "(geo_cache \<Rightarrow> geo_cache) \<Rightarrow> (string \<Rightarrow> ip_addr list option) \<Rightarrow> int \<Rightarrow> string \<Rightarrow> GeoResolver \<Rightarrow>
   GeoInfo option \<times> GeoResolver" where
  "geo_resolve evict dns now host g =
     (case gr_backends g of
        None \<Rightarrow> (None, g)
      | Some b \<Rightarrow>
          (let key = to_ascii_lowercase host in
           case cache_get now (gr_cache g) key of
             Some cached \<Rightarrow> (cached, g)
           | None \<Rightarrow>
               (let info = resolve_uncached dns b host
                in (info, g\<lparr>gr_cache := evict ((gr_cache g)(key \<mapsto> (info, now)))\<rparr>))))"

text \<open>\<open>FullResolver\<close>: the resolver of the admin panel, active whatever the configuration says.\<close>

definition full_resolver :: "Backends \<Rightarrow> GeoResolver" where
  "full_resolver backends = new_resolver True backends"

section \<open>Hosts are resolved without regard to case\<close>

lemma hex_val_lower [simp]: "hex_val (ascii_lower c) = hex_val c"
proof (cases "is_upper c")
  case True
  then have "code (ascii_lower c) = code c + 32" by (simp add: ascii_lower_def is_upper_def)
  then show ?thesis using True by (auto simp: hex_val_def is_upper_def is_lower_def is_digit_def)
qed (simp add: ascii_lower_def)

lemma digit_value_lower [simp]: "digit_value r (ascii_lower c) = digit_value r c"
  by (simp add: digit_value_def)

abbreviation lower :: "string \<Rightarrow> string" where "lower \<equiv> to_ascii_lowercase"

lemma read_digits_lower: "read_digits r (lower s) = apsnd lower (read_digits r s)"
  by (induction r s rule: read_digits.induct) (auto split: option.splits prod.splits)

lemma read_number_lower: "read_number r d z m (lower s) = map_option (apsnd lower) (read_number r d z m s)"
  by (auto simp: read_number_def read_digits_lower split_beta Let_def)

lemma read_char_lower:
  assumes "\<not> is_lower c" "\<not> is_upper c"
  shows "read_char c (lower s) = map_option lower (read_char c s)"
  using assms ascii_lower_eq_nonalpha [OF assms(1)] by (cases s) (auto simp: read_char_def)

lemma sep_chars: "\<not> is_lower (CHR ''.'')" "\<not> is_upper (CHR ''.'')" "\<not> is_lower (CHR '':'')" "\<not> is_upper (CHR '':'')"
  by (simp_all add: is_lower_def is_upper_def code_def)

lemmas read_sep_char_lower = read_char_lower [OF sep_chars(1,2)] read_char_lower [OF sep_chars(3,4)]

lemma read_octet_lower: "read_octet (lower s) = map_option (apsnd lower) (read_octet s)"
  by (cases "read_number 10 3 False 255 s") (auto simp: read_octet_def read_number_lower)

lemma bind_map_lower:
  "Option.bind (map_option (apsnd lower) x) f = Option.bind x (\<lambda>(a, s). f (a, lower s))"
  "Option.bind (map_option lower y) g = Option.bind y (\<lambda>s. g (lower s))"
  by (cases x; auto) (cases y; auto)

lemma map_bind: "map_option h (Option.bind x f) = Option.bind x (\<lambda>a. map_option h (f a))"
  by (cases x) simp_all

lemma read_ipv4_lower: "read_ipv4 (lower s) = map_option (apsnd lower) (read_ipv4 s)"
  by (simp add: read_ipv4_def read_octet_lower read_sep_char_lower bind_map_lower map_bind split_def)

lemma read_sep_lower: "read_sep i (lower s) = map_option lower (read_sep i s)"
  by (simp add: read_sep_def read_sep_char_lower)

lemma read_groups_lower:
  "read_groups n i (lower s) = apsnd (apsnd lower) (read_groups n i s)"
proof (induction n i s rule: read_groups.induct)
  case (2 left i s)
  let ?q = "if left > 0 then Option.bind (read_sep i s) read_ipv4 else None"
  let ?n = "Option.bind (read_sep i s) (read_number 16 4 True 0xFFFF)"
  have q: "(if left > 0 then Option.bind (read_sep i (lower s)) read_ipv4 else None) = map_option (apsnd lower) ?q"
    by (simp add: read_sep_lower bind_map_lower read_ipv4_lower map_bind)
  have n: "Option.bind (read_sep i (lower s)) (read_number 16 4 True 0xFFFF) = map_option (apsnd lower) ?n"
    by (simp add: read_sep_lower bind_map_lower read_number_lower map_bind)
  show ?case
  proof (cases ?q)
    case (Some x)
    then show ?thesis by (cases x; cases "fst x") (simp add: q n)
  next
    case None
    note IH = 2 [OF None]
    show ?thesis
    proof (cases ?n)
      case (Some y)
      with IH have "read_groups left (Suc i) (lower (snd y)) = apsnd (apsnd lower) (read_groups left (Suc i) (snd y))"
        by (cases y) simp
      then show ?thesis
        unfolding read_groups.simps q n None Some by (cases y) (simp add: split_beta)
    qed (unfold read_groups.simps q n None, simp)
  qed
qed simp

lemma read_ipv6_lower: "read_ipv6 (lower s) = map_option (apsnd lower) (read_ipv6 s)"
  by (auto simp: read_ipv6_def read_groups_lower read_sep_char_lower bind_map_lower map_bind Let_def split_def
      option.map_comp comp_def intro!: bind_option_cong)

lemma parse_ip_lower [simp]: "parse_ip (lower s) = parse_ip s"
proof -
  have w: "whole (map_option (apsnd lower) x) = whole x" for x :: "('a \<times> string) option"
    by (auto simp: whole_def split: option.splits)
  show ?thesis
    by (cases "read_ipv4 s") (auto simp: parse_ip_def read_ipv4_lower read_ipv6_lower w)
qed

section \<open>The cached resolver\<close>

text \<open>A loop over hosts that threads the state.\<close>

fun thread :: "('h \<Rightarrow> 's \<Rightarrow> 'a \<times> 's) \<Rightarrow> 'h list \<Rightarrow> 's \<Rightarrow> 'a list \<times> 's" where
  "thread f [] s = ([], s)"
| "thread f (h # hs) s = (let (a, s1) = f h s; (as, s2) = thread f hs s1 in (a # as, s2))"

lemma thread_pure:
  assumes "\<And>x s. good s \<Longrightarrow> fst (f x s) = g x \<and> good (snd (f x s))" and "good s"
  shows "fst (thread f xs s) = map g xs \<and> good (snd (thread f xs s))"
  using assms(2) by (induction xs arbitrary: s) (auto simp: split_beta Let_def assms(1))

text \<open>
  What the pipeline and the ingestion rely on: \<open>resolve\<close> threads a state, and as long as the state is
  \<open>good\<close> it answers \<open>answer host\<close> and leaves a good state, whatever it caches.
\<close>

locale host_geo =
  fixes resolve :: "string \<Rightarrow> 's \<Rightarrow> GeoInfo option \<times> 's" and answer :: "string \<Rightarrow> GeoInfo option"
    and good :: "'s \<Rightarrow> bool"
  assumes answers: "good s \<Longrightarrow> fst (resolve h s) = answer h"
    and stays_good: "good s \<Longrightarrow> good (snd (resolve h s))"
begin

lemma thread_answers:
  "good s \<Longrightarrow> fst (thread resolve hs s) = map answer hs \<and> good (snd (thread resolve hs s))"
  by (rule thread_pure) (simp_all add: answers stays_good)

end

text \<open>The uncached answer, None when no database is loaded.\<close>

definition geo_answer :: "(string \<Rightarrow> ip_addr list option) \<Rightarrow> Backends option \<Rightarrow> string \<Rightarrow> GeoInfo option" where
  "geo_answer dns b host = Option.bind b (\<lambda>b. resolve_uncached dns b host)"

definition good_cache :: "(string \<Rightarrow> ip_addr list option) \<Rightarrow> Backends option \<Rightarrow> geo_cache \<Rightarrow> bool" where
  "good_cache dns b c \<longleftrightarrow> (\<forall>k v at. c k = Some (v, at) \<longrightarrow> (\<forall>host. lower host = k \<longrightarrow> v = geo_answer dns b host))"

definition case_blind :: "(string \<Rightarrow> 'a) \<Rightarrow> bool" where
  "case_blind f \<longleftrightarrow> (\<forall>h. f (lower h) = f h)"

lemma geo_answer_lower:
  assumes "case_blind dns"
  shows "geo_answer dns b (lower h) = geo_answer dns b h"
proof -
  have "dns_resolve dns (lower h) = dns_resolve dns h"
    using assms by (simp add: dns_resolve_def case_blind_def)
  then show ?thesis by (cases b; cases "parse_ip h") (simp_all add: geo_answer_def resolve_uncached_def)
qed

text \<open>An eviction only forgets entries.\<close>

definition only_forgets :: "(geo_cache \<Rightarrow> geo_cache) \<Rightarrow> bool" where
  "only_forgets evict \<longleftrightarrow> (\<forall>c. evict c \<subseteq>\<^sub>m c)"

lemma good_cache_sub: "good_cache dns b c \<Longrightarrow> c' \<subseteq>\<^sub>m c \<Longrightarrow> good_cache dns b c'"
  unfolding good_cache_def by (metis domI map_le_def)

lemma cached_resolve:
  assumes "case_blind dns" "only_forgets evict" "good_cache dns (gr_backends g) (gr_cache g)"
  shows "fst (geo_resolve evict dns now host g) = geo_answer dns (gr_backends g) host"
    and "gr_backends (snd (geo_resolve evict dns now host g)) = gr_backends g"
    and "good_cache dns (gr_backends g) (gr_cache (snd (geo_resolve evict dns now host g)))"
proof -
  have hit: "v = geo_answer dns (gr_backends g) host"
    if c: "cache_get now (gr_cache g) (lower host) = Some v" for v
  proof -
    obtain at where "gr_cache g (lower host) = Some (v, at)"
      using c by (auto simp: cache_get_def split: option.splits if_splits prod.splits)
    then show ?thesis using assms(3) unfolding good_cache_def by blast
  qed
  show "fst (geo_resolve evict dns now host g) = geo_answer dns (gr_backends g) host"
    using hit by (auto simp: geo_resolve_def geo_answer_def Let_def split: option.splits)
  show "gr_backends (snd (geo_resolve evict dns now host g)) = gr_backends g"
    by (auto simp: geo_resolve_def Let_def split: option.splits)
  show "good_cache dns (gr_backends g) (gr_cache (snd (geo_resolve evict dns now host g)))"
  proof (cases "gr_backends g")
    case None
    then show ?thesis using assms(3) by (simp add: geo_resolve_def)
  next
    case (Some b)
    let ?c = "(gr_cache g)(lower host \<mapsto> (resolve_uncached dns b host, now))"
    have "good_cache dns (Some b) ?c"
      unfolding good_cache_def
    proof (intro allI impI)
      fix k v at h
      assume k: "?c k = Some (v, at)" "lower h = k"
      show "v = geo_answer dns (Some b) h"
      proof (cases "k = lower host")
        case True
        then have "geo_answer dns (Some b) h = geo_answer dns (Some b) host"
          using k(2) geo_answer_lower [OF assms(1), of "Some b"] by metis
        then show ?thesis using k True by (simp add: geo_answer_def)
      next
        case False
        then show ?thesis using k assms(3) Some by (auto simp: good_cache_def)
      qed
    qed
    moreover have "evict ?c \<subseteq>\<^sub>m ?c" using assms(2) by (simp add: only_forgets_def)
    ultimately have "good_cache dns (Some b) (evict ?c)" by (rule good_cache_sub)
    with Some assms(3) show ?thesis
      by (auto simp: geo_resolve_def Let_def split: option.splits)
  qed
qed

text \<open>
  The resolver's clock may read anything at each call: the state of the interface is the resolver with a
  clock that every call moves by some tick.
\<close>

definition ticked :: "(geo_cache \<Rightarrow> geo_cache) \<Rightarrow> (string \<Rightarrow> ip_addr list option) \<Rightarrow> string \<Rightarrow> GeoResolver \<times> int list \<Rightarrow>
    GeoInfo option \<times> GeoResolver \<times> int list" where
  "ticked evict dns host x =
     (case x of (g, clock) \<Rightarrow>
       (let (i, g') = geo_resolve evict dns (case clock of [] \<Rightarrow> 0 | t # _ \<Rightarrow> t) host g in (i, g', tl clock)))"

definition good_resolver ::
  "(string \<Rightarrow> ip_addr list option) \<Rightarrow> Backends option \<Rightarrow> GeoResolver \<times> int list \<Rightarrow> bool" where
  "good_resolver dns b x \<longleftrightarrow> gr_backends (fst x) = b \<and> good_cache dns b (gr_cache (fst x))"

lemma ticked_good:
  assumes "case_blind dns" "only_forgets evict" "good_resolver dns b x"
  shows "fst (ticked evict dns h x) = geo_answer dns b h \<and> good_resolver dns b (snd (ticked evict dns h x))"
proof -
  obtain g clock where x: "x = (g, clock)" by (cases x)
  show ?thesis
    using cached_resolve [of dns evict g "case clock of [] \<Rightarrow> 0 | t # _ \<Rightarrow> t" h] assms
    by (auto simp: x ticked_def good_resolver_def split_beta Let_def)
qed

text \<open>DNS names have no case, and what an eviction keeps is some set of keys: the contract holds for every
  resolver of that form.\<close>

interpretation cached: host_geo "ticked (\<lambda>c. c |` keep c) (\<lambda>h. dns (lower h))" "geo_answer (\<lambda>h. dns (lower h)) b"
    "good_resolver (\<lambda>h. dns (lower h)) b" for keep dns b
proof -
  have d: "case_blind (\<lambda>h. dns (lower h))" by (simp add: case_blind_def)
  have e: "only_forgets (\<lambda>c. c |` keep c)" by (auto simp: only_forgets_def map_le_def)
  show "host_geo (ticked (\<lambda>c. c |` keep c) (\<lambda>h. dns (lower h))) (geo_answer (\<lambda>h. dns (lower h)) b)
      (good_resolver (\<lambda>h. dns (lower h)) b)"
    using ticked_good [OF d e] by unfold_locales blast+
qed

text \<open>Every resolver under the assumptions has that form.\<close>

lemma resolver_form:
  assumes "case_blind dns" "only_forgets evict"
  shows "(\<lambda>h. dns (lower h)) = dns" "(\<lambda>c. c |` dom (evict c)) = evict"
proof -
  show "(\<lambda>h. dns (lower h)) = dns" using assms(1) by (auto simp: case_blind_def)
  show "(\<lambda>c. c |` dom (evict c)) = evict"
  proof (intro ext)
    fix c k
    have "evict c \<subseteq>\<^sub>m c" using assms(2) by (simp add: only_forgets_def)
    then show "(c |` dom (evict c)) k = evict c k"
      by (cases "evict c k") (auto simp: map_le_def restrict_map_def dom_def)
  qed
qed

lemma fresh_good: "good_resolver dns (gr_backends (new_resolver enabled b)) (new_resolver enabled b, clock)"
  by (simp add: good_resolver_def new_resolver_def good_cache_def)

text \<open>The host cache is invisible while the DNS answers do not change: from a fresh resolver, any sequence of
  hosts, at any clock readings and under any evictions, gets exactly the uncached answer for each host,
  and None throughout when geo is off or no database opened.\<close>

theorem geo_cache_invisible:
  assumes "case_blind dns" "only_forgets evict"
  shows "fst (thread (ticked evict dns) hosts (new_resolver enabled b, clock)) =
    map (\<lambda>h. if enabled \<and> \<not> backends_empty b then resolve_uncached dns b h else None) hosts"
proof -
  have "geo_answer dns (gr_backends (new_resolver enabled b)) =
      (\<lambda>h. if enabled \<and> \<not> backends_empty b then resolve_uncached dns b h else None)"
    by (auto simp: geo_answer_def new_resolver_def)
  with cached.thread_answers [of dns "gr_backends (new_resolver enabled b)"
      "(new_resolver enabled b, clock)" "\<lambda>c. dom (evict c)" hosts, unfolded resolver_form [OF assms]] fresh_good
  show ?thesis by simp
qed

definition sample_backends :: Backends where
  "sample_backends = \<lparr>b_city = None, b_asn = Some (\<lambda>ip. Some \<lparr>ar_number = Some 24940, ar_organization = None\<rparr>)\<rparr>"

theorem geo_cache_invisible_witness:
  "fst (thread (ticked (\<lambda>c. c) (\<lambda>h. None)) [''A'', ''a''] (new_resolver True sample_backends, [1, 2])) =
    map (\<lambda>h. if True \<and> \<not> backends_empty sample_backends then resolve_uncached (\<lambda>h. None) sample_backends h else None)
      [''A'', ''a'']"
  by (rule geo_cache_invisible) (simp_all add: case_blind_def only_forgets_def)

end
