(* ===== verification/Proxies.thy ===== *)
theory Proxies
  imports Fingerprint Probe_Queue Geo
begin

text \<open>
  The part of \<open>fumox-core/src/repo/proxies.rs\<close> that ingestion and the admin panel drive: the
  reconciliation of one source fetch, the manual reset, the bulk revivals, the bulk cleanups and the
  purge. \<open>to_text\<close> is the JSON serialization of a parameter object and \<open>sha256\<close> the hash of a
  fingerprint. Every guarded statement interprets \<open>row_update\<close>.
\<close>

section \<open>Geo facts\<close>

record GeoStamp =
  gs_country :: "string option"
  gs_city :: "string option"
  gs_asn :: "string option"

definition no_stamp :: GeoStamp where
  "no_stamp = \<lparr>gs_country = None, gs_city = None, gs_asn = None\<rparr>"

definition stamp_from_info :: "GeoInfo \<Rightarrow> GeoStamp" where
  "stamp_from_info info = \<lparr>gs_country = gi_country_code info, gs_city = gi_city_name info,
     gs_asn = map_option (\<lambda>n. ''AS'' @ dec_nat n) (gi_asn info)\<rparr>"

definition stamp_is_empty :: "GeoStamp \<Rightarrow> bool" where
  "stamp_is_empty s \<longleftrightarrow> gs_country s = None \<and> gs_city s = None \<and> gs_asn s = None"

definition write_geo :: "GeoStamp \<Rightarrow> ProxyRow \<Rightarrow> ProxyRow" where
  "write_geo s r = r\<lparr>r_geo_country := coalesce (gs_country s) (r_geo_country r),
     r_geo_city := coalesce (gs_city s) (r_geo_city r), r_geo_asn := coalesce (gs_asn s) (r_geo_asn r)\<rparr>"

definition update_geo :: "nat \<Rightarrow> GeoStamp \<Rightarrow> Db \<Rightarrow> Db" where
  "update_geo i geo db = update_rows (\<lambda>r. r_id r = i) (write_geo geo) db"

definition update_geo_full :: "nat \<Rightarrow> GeoStamp \<Rightarrow> string \<Rightarrow> Db \<Rightarrow> Db" where
  "update_geo_full i geo ip db =
     update_rows (\<lambda>r. r_id r = i) (\<lambda>r. (write_geo geo r)\<lparr>r_resolved_ip := Some ip\<rparr>) db"

section \<open>Reconciliation of one fetch\<close>

record ReconciliationStats =
  rs_inserted :: nat
  rs_updated :: nat
  rs_unlinked :: nat
  rs_removed :: nat
  rs_inserted_ids :: "nat list"

definition no_stats :: ReconciliationStats where
  "no_stats = \<lparr>rs_inserted = 0, rs_updated = 0, rs_unlinked = 0, rs_removed = 0, rs_inserted_ids = []\<rparr>"

text \<open>One row of the multi-row \<open>INSERT .. ON CONFLICT(fingerprint) DO UPDATE .. RETURNING\<close>.\<close>

definition new_row ::
  "(json_params \<Rightarrow> string) \<Rightarrow> int \<Rightarrow> string \<Rightarrow> ProxyEntry \<Rightarrow> GeoStamp \<Rightarrow> nat \<Rightarrow> ProxyRow" where
  "new_row to_text now fp e geo i =
     \<lparr>r_id = i, r_fingerprint = fp, r_scheme = pe_scheme e, r_name = pe_name e, r_host = pe_host e,
      r_port = uint (pe_port e), r_credential = pe_credential e,
      r_params = Some (to_text (known_params_json e)),
      r_unknown_params = Some (to_text (unknown_params_json e)), r_raw_line = Some (pe_raw_line e),
      r_geo_country = gs_country geo, r_geo_city = gs_city geo, r_geo_asn = gs_asn geo,
      r_resolved_ip = None, r_status = Unknown, r_fail_count = 0, r_last_checked_at = None,
      r_last_alive_at = None, r_quarantined_at = None, r_ladder_at = None, r_ladder_step = 0,
      r_removed_at = None, r_latency_ms = None, r_last_t2_failed_at = None,
      r_created_at = now, r_updated_at = now\<rparr>"

definition refresh_row ::
  "(json_params \<Rightarrow> string) \<Rightarrow> int \<Rightarrow> ProxyEntry \<Rightarrow> GeoStamp \<Rightarrow> ProxyRow \<Rightarrow> ProxyRow" where
  "refresh_row to_text now e geo r =
     (write_geo geo r)\<lparr>r_name := pe_name e, r_params := Some (to_text (known_params_json e)),
       r_unknown_params := Some (to_text (unknown_params_json e)), r_raw_line := Some (pe_raw_line e),
       r_updated_at := now\<rparr>"

definition upsert_one ::
  "(json_params \<Rightarrow> string) \<Rightarrow> int \<Rightarrow> string \<times> ProxyEntry \<times> GeoStamp \<Rightarrow> Db \<Rightarrow> Db \<times> nat" where
  "upsert_one to_text now x db =
     (case x of (fp, e, geo) \<Rightarrow>
       (case get_by_fingerprint db fp of
          Some r \<Rightarrow> (update_rows (\<lambda>r. r_fingerprint r = fp) (refresh_row to_text now e geo) db, r_id r)
        | None \<Rightarrow> (db\<lparr>proxies := proxies db @ [new_row to_text now fp e geo (next_id db)],
                      next_id := Suc (next_id db)\<rparr>, next_id db)))"

fun upsert_all ::
  "(json_params \<Rightarrow> string) \<Rightarrow> int \<Rightarrow> (string \<times> ProxyEntry \<times> GeoStamp) list \<Rightarrow> Db \<Rightarrow> Db \<times> (string \<times> nat) list"
where
  "upsert_all to_text now [] db = (db, [])"
| "upsert_all to_text now (x # xs) db =
     (let (db1, i) = upsert_one to_text now x db; (db2, ids) = upsert_all to_text now xs db1
      in (db2, (fst x, i) # ids))"

text \<open>The accounting loop over the fingerprints, in entry order.\<close>

fun account ::
  "string set \<Rightarrow> string set \<Rightarrow> (string \<rightharpoonup> nat) \<Rightarrow> string list \<Rightarrow> nat list \<Rightarrow> ReconciliationStats \<Rightarrow>
   error + (nat list \<times> ReconciliationStats)" where
  "account existing seen ids [] proxy_ids stats = Inr (proxy_ids, stats)"
| "account existing seen ids (fp # fps) proxy_ids stats =
     (case ids fp of
        None \<Rightarrow> Inl (Database ''reconcile_source: upsert returned no id for a bound fingerprint'' [])
      | Some i \<Rightarrow>
          account existing (if fp \<in> existing then seen else insert fp seen) ids fps (proxy_ids @ [i])
            (if fp \<in> existing \<or> fp \<in> seen then stats\<lparr>rs_updated := rs_updated stats + 1\<rparr>
             else stats\<lparr>rs_inserted := rs_inserted stats + 1,
                        rs_inserted_ids := rs_inserted_ids stats @ [i]\<rparr>))"

definition stamp_link :: "string \<Rightarrow> int \<Rightarrow> nat \<Rightarrow> Link list \<Rightarrow> Link list" where
  "stamp_link source now i ls =
     (if list_ex (\<lambda>l. l_proxy l = i \<and> l_source l = source) ls
      then map (\<lambda>l. if l_proxy l = i \<and> l_source l = source then l\<lparr>l_seen_at := now\<rparr> else l) ls
      else ls @ [\<lparr>l_proxy = i, l_source = source, l_seen_at = now\<rparr>])"

definition stale_link :: "string \<Rightarrow> int \<Rightarrow> Link \<Rightarrow> bool" where
  "stale_link source now l \<longleftrightarrow> l_source l = source \<and> l_seen_at l < now"

definition retire_guard :: "Db \<Rightarrow> string \<Rightarrow> int \<Rightarrow> ProxyRow \<Rightarrow> bool" where
  "retire_guard db source now r \<longleftrightarrow>
     r_status r \<noteq> Removed \<and>
     list_ex (\<lambda>l. l_proxy l = r_id r \<and> stale_link source now l) (links db) \<and>
     \<not> list_ex (\<lambda>l. l_proxy l = r_id r \<and> \<not> stale_link source now l) (links db)"

definition retire_row :: "int \<Rightarrow> ProxyRow \<Rightarrow> ProxyRow" where
  "retire_row now r = r\<lparr>r_status := Removed, r_removed_at := Some now, r_updated_at := now\<rparr>"

definition unlink_guard :: "Db \<Rightarrow> string \<Rightarrow> int \<Rightarrow> bool \<Rightarrow> Link \<Rightarrow> bool" where
  "unlink_guard db source now keep_alive_linger l \<longleftrightarrow>
     stale_link source now l \<and>
     (keep_alive_linger \<longrightarrow>
        \<not> list_ex (\<lambda>r. r_id r = l_proxy l \<and> r_status r \<in> {Alive, Ready, Unknown, Quarantine}) (proxies db))"

definition sweep :: "string \<Rightarrow> int \<Rightarrow> bool \<Rightarrow> ReconciliationStats \<Rightarrow> Db \<Rightarrow> ReconciliationStats \<times> Db" where
  "sweep source now keep_alive_linger stats db =
     (let (removed, db1) =
            (if keep_alive_linger then (rs_removed stats, db)
             else (rows_affected (retire_guard db source now) db,
                   update_rows (retire_guard db source now) (retire_row now) db));
          gone = unlink_guard db1 source now keep_alive_linger
      in (stats\<lparr>rs_removed := removed, rs_unlinked := length (filter gone (links db1))\<rparr>,
          db1\<lparr>links := filter (\<lambda>l. \<not> gone l) (links db1)\<rparr>))"

definition stamped :: "(string \<Rightarrow> string) \<Rightarrow> ProxyEntry list \<Rightarrow> GeoStamp option list \<Rightarrow>
    (string \<times> ProxyEntry \<times> GeoStamp) list" where
  "stamped sha256 entries geo = map (\<lambda>i.
     (fingerprint sha256 (entries ! i), entries ! i,
      if i < length geo then (case geo ! i of Some s \<Rightarrow> s | None \<Rightarrow> no_stamp) else no_stamp))
     [0..<length entries]"

definition reconcile_source ::
  "(string \<Rightarrow> string) \<Rightarrow> (json_params \<Rightarrow> string) \<Rightarrow> string \<Rightarrow> ProxyEntry list \<Rightarrow> GeoStamp option list \<Rightarrow> int \<Rightarrow>
   bool \<Rightarrow> Db \<Rightarrow> error + (ReconciliationStats \<times> Db)" where
  "reconcile_source sha256 to_text source entries geo now keep_alive_linger db =
     (if length geo > length entries
      then Inl (Database ''reconcile_source: geo stamp count does not match entry count'' [])
      else (let fps = map (fingerprint sha256) entries;
                existing = {fp \<in> set fps. get_by_fingerprint db fp \<noteq> None};
                (db1, pairs) = upsert_all to_text now (stamped sha256 entries geo) db
            in bind_res (account existing {} (map_of (rev pairs)) fps [] no_stats) (\<lambda>(proxy_ids, stats).
                 Inr (sweep source now keep_alive_linger stats
                        (db1\<lparr>links := foldl (\<lambda>ls i. stamp_link source now i ls) (links db1) proxy_ids\<rparr>)))))"

section \<open>Reset, revival, cleanup\<close>

text \<open>\<open>RESET_SET\<close>: the columns every pristine reset clears.\<close>

definition reset_set :: "ProxyRow \<Rightarrow> ProxyRow" where
  "reset_set r = r\<lparr>r_fail_count := 0, r_quarantined_at := None, r_ladder_at := None, r_ladder_step := 0,
     r_last_t2_failed_at := None\<rparr>"

definition revive_row :: "int \<Rightarrow> ProxyRow \<Rightarrow> ProxyRow" where
  "revive_row now r = (reset_set r)\<lparr>r_status := Unknown, r_removed_at := None, r_updated_at := now\<rparr>"

definition reset_guard :: "Db \<Rightarrow> nat \<Rightarrow> ProxyRow \<Rightarrow> bool" where
  "reset_guard db i r \<longleftrightarrow> r_id r = i \<and> linked db (r_id r) \<and>
     (r_scheme r \<notin> set T1_EXCLUDED_SCHEMES \<or> r_scheme r = Hysteria2)"

definition reset_status :: "nat \<Rightarrow> int \<Rightarrow> Db \<Rightarrow> bool \<times> Db" where
  "reset_status i now db =
     (let db1 = update_rows (reset_guard db i) (revive_row now) db in
      if rows_affected (reset_guard db i) db = 0 then (False, db1)
      else (True, snd (enqueue_checks [i] 1 now db1)))"

definition update_returning :: "(ProxyRow \<Rightarrow> bool) \<Rightarrow> (ProxyRow \<Rightarrow> ProxyRow) \<Rightarrow> Db \<Rightarrow> nat list \<times> Db" where
  "update_returning guard upd db = (map r_id (rows_where guard db), update_rows guard upd db)"

definition revive_fps_guard :: "Db \<Rightarrow> string list \<Rightarrow> ProxyRow \<Rightarrow> bool" where
  "revive_fps_guard db fps r \<longleftrightarrow>
     r_status r = Removed \<and> r_fingerprint r \<in> set fps \<and> linked db (r_id r)"

fun revive_loop :: "string list list \<Rightarrow> int \<Rightarrow> nat list \<Rightarrow> Db \<Rightarrow> nat list \<times> Db" where
  "revive_loop [] now revived db = (revived, db)"
| "revive_loop (chunk # rest) now revived db =
     (let (ids, db1) = update_returning (revive_fps_guard db chunk) (revive_row now) db
      in revive_loop rest now (revived @ ids) db1)"

definition revive_removed :: "string list \<Rightarrow> int \<Rightarrow> Db \<Rightarrow> nat list \<times> Db" where
  "revive_removed fingerprints now db = revive_loop (chunks 500 fingerprints) now [] db"

definition revive_where_guard :: "(ProxyRow \<Rightarrow> bool) \<Rightarrow> ProxyStatus \<Rightarrow> Db \<Rightarrow> ProxyRow \<Rightarrow> bool" where
  "revive_where_guard P s db r \<longleftrightarrow> r_status r = s \<and> P r \<and> linked db (r_id r)"

definition revive_removed_by_country :: "string \<Rightarrow> int \<Rightarrow> Db \<Rightarrow> nat list \<times> Db" where
  "revive_removed_by_country country now db =
     update_returning (revive_where_guard (\<lambda>r. r_geo_country r = Some country) Removed db) (revive_row now) db"

definition revive_removed_by_asn :: "string \<Rightarrow> int \<Rightarrow> Db \<Rightarrow> nat list \<times> Db" where
  "revive_removed_by_asn asn now db =
     update_returning (revive_where_guard (\<lambda>r. r_geo_asn r = Some (''AS'' @ asn)) Removed db) (revive_row now) db"

definition frozen_guard :: "Db \<Rightarrow> ProxyRow \<Rightarrow> bool" where
  "frozen_guard db r \<longleftrightarrow> r_status r = Unknown \<and> r_last_t2_failed_at r \<noteq> None \<and>
     \<not> has_history db (r_id r) \<and> linked db (r_id r)"

definition unfreeze_row :: "int \<Rightarrow> ProxyRow \<Rightarrow> ProxyRow" where
  "unfreeze_row now r = (reset_set r)\<lparr>r_updated_at := now\<rparr>"

definition revive_removed_without_probe_history :: "int \<Rightarrow> Db \<Rightarrow> nat list \<times> Db" where
  "revive_removed_without_probe_history now db =
     (let (ids1, db1) = update_returning
            (revive_where_guard (\<lambda>r. \<not> has_history db (r_id r)) Removed db) (revive_row now) db;
          (ids2, db2) = update_returning (frozen_guard db1) (unfreeze_row now) db1
      in (ids1 @ ids2, db2))"

text \<open>\<open>removed_at\<close> is left alone here: a quarantined row never carries one.\<close>

definition unquarantine_row :: "int \<Rightarrow> ProxyRow \<Rightarrow> ProxyRow" where
  "unquarantine_row now r = (reset_set r)\<lparr>r_status := Unknown, r_updated_at := now\<rparr>"

definition revive_quarantine :: "int \<Rightarrow> Db \<Rightarrow> nat list \<times> Db" where
  "revive_quarantine now db =
     update_returning (revive_where_guard (\<lambda>r. True) Quarantine db) (unquarantine_row now) db"

definition orphan_guard :: "Db \<Rightarrow> ProxyStatus list \<Rightarrow> ProxyRow \<Rightarrow> bool" where
  "orphan_guard db protected_statuses r \<longleftrightarrow>
     r_status r \<noteq> Removed \<and> \<not> linked db (r_id r) \<and> r_status r \<notin> set protected_statuses"

definition mark_orphans_removed :: "ProxyStatus list \<Rightarrow> int \<Rightarrow> Db \<Rightarrow> nat \<times> Db" where
  "mark_orphans_removed protected_statuses now db =
     (rows_affected (orphan_guard db protected_statuses) db,
      update_rows (orphan_guard db protected_statuses) (retire_row now) db)"

text \<open>The one hard delete, with the cascades of the foreign keys.\<close>

definition purge_removed :: "Db \<Rightarrow> nat \<times> Db" where
  "purge_removed db =
     (let kept = filter (\<lambda>r. r_status r \<noteq> Removed) (proxies db); ids = r_id ` set kept
      in (rows_affected (\<lambda>r. r_status r = Removed) db,
          db\<lparr>proxies := kept, links := filter (\<lambda>l. l_proxy l \<in> ids) (links db),
             results := filter (\<lambda>r. pr_proxy r \<in> ids) (results db),
             requests := filter (\<lambda>q. q_proxy q \<in> ids) (requests db)\<rparr>))"

definition cleanup_row :: "int \<Rightarrow> ProxyRow \<Rightarrow> ProxyRow" where
  "cleanup_row now r = r\<lparr>r_status := Removed, r_quarantined_at := None, r_ladder_at := None,
     r_ladder_step := 0, r_removed_at := Some now, r_updated_at := now\<rparr>"

definition cleanup :: "(ProxyRow \<Rightarrow> bool) \<Rightarrow> int \<Rightarrow> Db \<Rightarrow> nat \<times> Db" where
  "cleanup guard now db = (rows_affected guard db, update_rows guard (cleanup_row now) db)"

definition quarantine_to_removed :: "int \<Rightarrow> Db \<Rightarrow> nat \<times> Db" where
  "quarantine_to_removed now db = cleanup (\<lambda>r. r_status r = Quarantine) now db"

definition remove_alive_without_country :: "int \<Rightarrow> Db \<Rightarrow> nat \<times> Db" where
  "remove_alive_without_country now db =
     cleanup (\<lambda>r. r_status r \<in> {Alive, Ready} \<and> r_geo_country r = None) now db"

definition remove_alive_by_asn :: "string \<Rightarrow> int \<Rightarrow> Db \<Rightarrow> nat \<times> Db" where
  "remove_alive_by_asn asn now db =
     cleanup (\<lambda>r. r_status r \<in> {Alive, Ready} \<and> r_geo_asn r = Some (''AS'' @ asn)) now db"

definition remove_alive_by_country :: "string \<Rightarrow> int \<Rightarrow> Db \<Rightarrow> nat \<times> Db" where
  "remove_alive_by_country country now db =
     cleanup (\<lambda>r. r_status r \<in> {Alive, Ready} \<and> r_geo_country r = Some country) now db"

definition remove_unprobeable_unknown :: "int \<Rightarrow> Db \<Rightarrow> nat \<times> Db" where
  "remove_unprobeable_unknown now db =
     cleanup (\<lambda>r. r_status r = Unknown \<and> r_scheme r \<in> {Tuic, Mieru}) now db"

section \<open>Every guarded statement keeps the tables and the lifecycle columns in order\<close>

lemmas row_simps = row_ok_def reset_set_def revive_row_def unfreeze_row_def unquarantine_row_def
  retire_row_def cleanup_row_def write_geo_def refresh_row_def

interpretation geo: row_update "\<lambda>r. r_id r = i" "write_geo s" for i s
  by unfold_locales (simp_all add: row_simps)

interpretation geo_full: row_update "\<lambda>r. r_id r = i" "\<lambda>r. (write_geo s r)\<lparr>r_resolved_ip := Some ip\<rparr>"
  for i s ip
  by unfold_locales (simp_all add: row_simps)

interpretation refresh: row_update "\<lambda>r. r_fingerprint r = fp" "refresh_row to_text now e s"
  for fp to_text now e s
  by unfold_locales (simp_all add: row_simps)

interpretation revive: row_update g "revive_row now" for g now
  by unfold_locales (auto simp: row_simps)

interpretation unfreeze: row_update "frozen_guard db" "unfreeze_row now" for db now
  by unfold_locales (auto simp: row_simps frozen_guard_def)

interpretation unquarantine: row_update "revive_where_guard P Quarantine db" "unquarantine_row now" for P db now
  by unfold_locales (auto simp: row_simps revive_where_guard_def)

interpretation retire: row_update g "retire_row now" for g now
  by unfold_locales (auto simp: row_simps)

interpretation cleaned: row_update g "cleanup_row now" for g now
  by unfold_locales (auto simp: row_simps)

section \<open>What the upserts keep\<close>

text \<open>
  \<open>kept_row r r'\<close>: what a reappearing proxy keeps: its identity, every lifecycle column, and each geo
  fact it has unless a new one replaces it.
\<close>

definition lifecycle where
  "lifecycle r = (r_status r, r_fail_count r, r_last_checked_at r, r_last_alive_at r, r_quarantined_at r,
     r_ladder_at r, r_ladder_step r, r_removed_at r, r_latency_ms r, r_last_t2_failed_at r)"

definition kept_row :: "ProxyRow \<Rightarrow> ProxyRow \<Rightarrow> bool" where
  "kept_row r r' \<longleftrightarrow>
     r_id r' = r_id r \<and> r_fingerprint r' = r_fingerprint r \<and> r_scheme r' = r_scheme r \<and>
     r_host r' = r_host r \<and> r_port r' = r_port r \<and> r_credential r' = r_credential r \<and>
     r_resolved_ip r' = r_resolved_ip r \<and> r_created_at r' = r_created_at r \<and> lifecycle r' = lifecycle r \<and>
     (r_geo_country r \<noteq> None \<longrightarrow> r_geo_country r' \<noteq> None) \<and>
     (r_geo_city r \<noteq> None \<longrightarrow> r_geo_city r' \<noteq> None) \<and> (r_geo_asn r \<noteq> None \<longrightarrow> r_geo_asn r' \<noteq> None)"

lemma kept_row_refl [simp]: "kept_row r r"
  by (simp add: kept_row_def)

lemma kept_row_trans: "kept_row a b \<Longrightarrow> kept_row b c \<Longrightarrow> kept_row a c"
  by (auto simp: kept_row_def)

lemma kept_row_refresh [simp]: "kept_row r (refresh_row to_text now e s r)"
  by (simp add: kept_row_def refresh_row_def write_geo_def lifecycle_def)

lemma kept_row_ok: "kept_row r r' \<Longrightarrow> row_ok r \<Longrightarrow> row_ok r'"
  by (auto simp: kept_row_def lifecycle_def row_ok_def)

lemma kept_row_fields:
  "kept_row r r' \<Longrightarrow> r_id r' = r_id r \<and> r_fingerprint r' = r_fingerprint r \<and> r_status r' = r_status r"
  by (auto simp: kept_row_def lifecycle_def)

lemma get_by_fp_Some: "get_by_fingerprint db fp = Some r \<Longrightarrow> r \<in> set (proxies db) \<and> r_fingerprint r = fp"
  by (auto simp: get_by_fingerprint_def find_Some_iff)

lemma get_by_fp_None: "get_by_fingerprint db fp = None \<longleftrightarrow> fp \<notin> r_fingerprint ` set (proxies db)"
  by (auto simp: get_by_fingerprint_def find_None_iff)

text \<open>What a run of upserts does to the tables.\<close>

definition upserted :: "Db \<Rightarrow> Db \<Rightarrow> bool" where
  "upserted db db' \<longleftrightarrow>
     links db' = links db \<and> results db' = results db \<and> requests db' = requests db \<and> next_id db \<le> next_id db' \<and>
     (\<forall>r \<in> set (proxies db). \<exists>r' \<in> set (proxies db'). kept_row r r') \<and>
     (\<forall>r' \<in> set (proxies db'). (\<exists>r \<in> set (proxies db). kept_row r r') \<or>
        next_id db \<le> r_id r' \<and> r_status r' = Unknown \<and> r_last_t2_failed_at r' = None \<and> row_ok r')"

lemma upserted_refl [simp]: "upserted db db"
  by (auto simp: upserted_def intro: kept_row_refl)

lemma upserted_trans:
  assumes "upserted a b" "upserted b c"
  shows "upserted a c"
  unfolding upserted_def
proof (intro conjI ballI)
  fix r assume "r \<in> set (proxies a)"
  with assms obtain r1 where "r1 \<in> set (proxies b)" "kept_row r r1" by (auto simp: upserted_def)
  with assms obtain r2 where "r2 \<in> set (proxies c)" "kept_row r1 r2" by (auto simp: upserted_def)
  with \<open>kept_row r r1\<close> show "\<exists>r' \<in> set (proxies c). kept_row r r'" by (meson kept_row_trans)
next
  fix r' assume r': "r' \<in> set (proxies c)"
  show "(\<exists>r \<in> set (proxies a). kept_row r r') \<or>
      next_id a \<le> r_id r' \<and> r_status r' = Unknown \<and> r_last_t2_failed_at r' = None \<and> row_ok r'"
  proof (cases "\<exists>r1 \<in> set (proxies b). kept_row r1 r'")
    case True
    then obtain r1 where r1: "r1 \<in> set (proxies b)" "kept_row r1 r'" by blast
    show ?thesis
    proof (cases "\<exists>r \<in> set (proxies a). kept_row r r1")
      case True
      then show ?thesis using r1(2) kept_row_trans by blast
    next
      case False
      then have "next_id a \<le> r_id r1 \<and> r_status r1 = Unknown \<and> r_last_t2_failed_at r1 = None \<and> row_ok r1"
        using assms(1) r1(1) by (auto simp: upserted_def)
      then show ?thesis using r1(2) kept_row_ok [OF r1(2)] by (simp add: kept_row_def lifecycle_def)
    qed
  next
    case False
    then have "next_id b \<le> r_id r'" "r_status r' = Unknown" "r_last_t2_failed_at r' = None" "row_ok r'"
      using assms(2) r' by (auto simp: upserted_def)
    then show ?thesis using assms(1) by (auto simp: upserted_def)
  qed
qed (use assms in \<open>auto simp: upserted_def\<close>)

lemma upserted_update:
  assumes "\<And>r. kept_row r (u r)"
  shows "upserted db (update_rows g u db)"
proof -
  define f where "f = (\<lambda>r. if g r then u r else r)"
  have m: "set (proxies (update_rows g u db)) = f ` set (proxies db)"
    by (simp only: proxies_update_rows list.set_map f_def)
  have k: "kept_row r (f r)" for r using assms by (simp add: f_def)
  show ?thesis
    unfolding upserted_def m using k by auto
qed

lemma new_row_fields [simp]:
  "r_id (new_row to_text now fp e s i) = i" "r_fingerprint (new_row to_text now fp e s i) = fp"
  "r_status (new_row to_text now fp e s i) = Unknown"
  "r_last_t2_failed_at (new_row to_text now fp e s i) = None" "row_ok (new_row to_text now fp e s i)"
  by (simp_all add: new_row_def row_ok_def)

lemma upsert_one_sound:
  assumes "upsert_one to_text now (fp, e, geo) db = (db', i)" and "wf_db db"
  shows "wf_db db'" "upserted db db'" "\<exists>r \<in> set (proxies db'). r_id r = i \<and> r_fingerprint r = fp"
proof -
  have "wf_db db' \<and> upserted db db' \<and> (\<exists>r \<in> set (proxies db'). r_id r = i \<and> r_fingerprint r = fp)"
  proof (cases "get_by_fingerprint db fp")
    case None
    let ?n = "new_row to_text now fp e geo (next_id db)"
    from None assms(1) have db': "db' = db\<lparr>proxies := proxies db @ [?n], next_id := Suc (next_id db)\<rparr>"
      and i: "i = next_id db"
      by (auto simp: upsert_one_def)
    have "next_id db \<notin> r_id ` set (proxies db)" using assms(2) by (auto simp: wf_db_def)
    moreover have "fp \<notin> r_fingerprint ` set (proxies db)" using None by (simp add: get_by_fp_None)
    moreover have "r_id r < Suc (next_id db)" if "r \<in> set (proxies db)" for r
      using assms(2) that by (auto simp: wf_db_def less_Suc_eq)
    ultimately have "wf_db db'"
      using assms(2) unfolding db' by (auto simp: wf_db_def)
    moreover have "upserted db db'" unfolding db' by (auto simp: upserted_def intro: kept_row_refl)
    ultimately show ?thesis by (simp add: db' i)
  next
    case (Some r)
    then have db': "db' = update_rows (\<lambda>r. r_fingerprint r = fp) (refresh_row to_text now e geo) db"
      and i: "i = r_id r" using assms(1) by (simp_all add: upsert_one_def)
    have "wf_db db'" unfolding db' using assms(2) by (rule refresh.keeps_wf)
    moreover have "upserted db db'"
      unfolding db' by (rule upserted_update) simp
    moreover have "refresh_row to_text now e geo r \<in> set (proxies db')"
      using get_by_fp_Some [OF Some] unfolding db' by (auto simp: proxies_update_rows)
    then have "\<exists>r \<in> set (proxies db'). r_id r = i \<and> r_fingerprint r = fp"
      by (rule bexI [rotated]) (use get_by_fp_Some [OF Some] in \<open>simp add: i refresh.keeps_identity\<close>)
    ultimately show ?thesis by blast
  qed
  then show "wf_db db'" "upserted db db'" "\<exists>r \<in> set (proxies db'). r_id r = i \<and> r_fingerprint r = fp"
    by blast+
qed

lemma upserted_present:
  "upserted db db' \<Longrightarrow> r \<in> set (proxies db) \<Longrightarrow>
     \<exists>r' \<in> set (proxies db'). r_id r' = r_id r \<and> r_fingerprint r' = r_fingerprint r"
  by (fastforce simp: upserted_def kept_row_def)

lemma upsert_all_sound:
  assumes "upsert_all to_text now xs db = (db', pairs)" and "wf_db db"
  shows "wf_db db' \<and> upserted db db' \<and> map fst pairs = map fst xs \<and>
    (\<forall>(fp, i) \<in> set pairs. \<exists>r \<in> set (proxies db'). r_id r = i \<and> r_fingerprint r = fp)"
  using assms
proof (induction xs arbitrary: db db' pairs)
  case (Cons x xs)
  obtain fp e geo where x: "x = (fp, e, geo)" by (cases x)
  obtain db1 i where one: "upsert_one to_text now (fp, e, geo) db = (db1, i)" by fastforce
  obtain ids where rest: "upsert_all to_text now xs db1 = (db', ids)" and pairs: "pairs = (fp, i) # ids"
    using Cons.prems(1) one by (auto simp: x split: prod.splits)
  note s1 = upsert_one_sound [OF one Cons.prems(2)]
  note IH0 = Cons.IH [OF rest s1(1)]
  note IH = IH0 [THEN conjunct1] IH0 [THEN conjunct2, THEN conjunct1]
    IH0 [THEN conjunct2, THEN conjunct2, THEN conjunct1]
    IH0 [THEN conjunct2, THEN conjunct2, THEN conjunct2]
  from s1(3) obtain r where "r \<in> set (proxies db1)" "r_id r = i" "r_fingerprint r = fp" by blast
  with upserted_present [OF IH(2)] have "\<exists>r \<in> set (proxies db'). r_id r = i \<and> r_fingerprint r = fp" by force
  then show ?case
    using IH upserted_trans [OF s1(2) IH(2)] unfolding pairs x by auto
qed simp

section \<open>Accounting and links\<close>

lemma account_ok:
  assumes "\<forall>fp \<in> set fps. ids fp \<noteq> None"
  shows "\<exists>stats'. account existing seen ids fps proxy_ids stats = Inr (proxy_ids @ map (the \<circ> ids) fps, stats') \<and>
    rs_removed stats' = rs_removed stats"
  using assms
proof (induction fps arbitrary: seen proxy_ids stats)
  case (Cons fp fps)
  obtain i where i: "ids fp = Some i" using Cons.prems by auto
  have "\<forall>x \<in> set fps. ids x \<noteq> None" using Cons.prems by simp
  note IH = Cons.IH [OF this, of "if fp \<in> existing then seen else insert fp seen" "proxy_ids @ [i]"
      "if fp \<in> existing \<or> fp \<in> seen then stats\<lparr>rs_updated := rs_updated stats + 1\<rparr>
       else stats\<lparr>rs_inserted := rs_inserted stats + 1, rs_inserted_ids := rs_inserted_ids stats @ [i]\<rparr>"]
  then show ?case by (auto simp: i)
qed simp

lemma stamp_link_keys:
  "distinct (map (\<lambda>l. (l_proxy l, l_source l)) ls) \<Longrightarrow>
     distinct (map (\<lambda>l. (l_proxy l, l_source l)) (stamp_link source now i ls))"
proof -
  assume d: "distinct (map (\<lambda>l. (l_proxy l, l_source l)) ls)"
  have "map (\<lambda>l. (l_proxy l, l_source l))
      (map (\<lambda>l. if l_proxy l = i \<and> l_source l = source then l\<lparr>l_seen_at := now\<rparr> else l) ls) =
    map (\<lambda>l. (l_proxy l, l_source l)) ls" by (induction ls) auto
  then show ?thesis using d
    by (cases "list_ex (\<lambda>l. l_proxy l = i \<and> l_source l = source) ls")
      (simp_all only: stamp_link_def if_True if_False, auto simp: list_ex_iff)
qed

text \<open>The links after stamping: those of the stamped proxies to this source are fresh, the others as before.\<close>

lemma stamp_link_set:
  "l \<in> set (stamp_link source now i ls) \<longleftrightarrow>
     (l \<in> set ls \<and> \<not> (l_proxy l = i \<and> l_source l = source)) \<or>
     (l_proxy l = i \<and> l_source l = source \<and> l_seen_at l = now)"
proof (cases "list_ex (\<lambda>l. l_proxy l = i \<and> l_source l = source) ls")
  case True
  then obtain l0 where l0: "l0 \<in> set ls" "l_proxy l0 = i" "l_source l0 = source"
    by (auto simp: list_ex_iff)
  have "l = l0\<lparr>l_seen_at := now\<rparr>" if "l_proxy l = i" "l_source l = source" "l_seen_at l = now"
    using that l0 by simp
  with True l0 show ?thesis by (auto simp: stamp_link_def image_iff)
next
  case False
  have "l = \<lparr>l_proxy = i, l_source = source, l_seen_at = now\<rparr>"
    if "l_proxy l = i" "l_source l = source" "l_seen_at l = now"
    using that by simp
  with False show ?thesis by (auto simp: stamp_link_def list_ex_iff)
qed

lemma stamp_all_set:
  "l \<in> set (foldl (\<lambda>ls i. stamp_link source now i ls) ls is) \<longleftrightarrow>
     (l \<in> set ls \<and> \<not> (l_proxy l \<in> set is \<and> l_source l = source)) \<or>
     (l_proxy l \<in> set is \<and> l_source l = source \<and> l_seen_at l = now)"
proof (induction "is" arbitrary: ls)
  case (Cons i "is")
  show ?case unfolding foldl_Cons Cons.IH stamp_link_set by auto
qed simp

lemma stamp_all_keys:
  "distinct (map (\<lambda>l. (l_proxy l, l_source l)) ls) \<Longrightarrow>
     distinct (map (\<lambda>l. (l_proxy l, l_source l)) (foldl (\<lambda>ls i. stamp_link source now i ls) ls is))"
  by (induction "is" arbitrary: ls) (simp_all add: stamp_link_keys)

lemma wf_links:
  assumes "wf_db db" "distinct (map (\<lambda>l. (l_proxy l, l_source l)) ls)"
    "l_proxy ` set ls \<subseteq> r_id ` set (proxies db)"
  shows "wf_db (db\<lparr>links := ls\<rparr>)"
  using assms by (simp add: wf_db_def)

lemma wf_filter_links:
  assumes "wf_db db"
  shows "wf_db (db\<lparr>links := filter P (links db)\<rparr>)"
proof (rule wf_links [OF assms])
  show "distinct (map (\<lambda>l. (l_proxy l, l_source l)) (filter P (links db)))"
    using assms by (intro distinct_map_filter) (simp add: wf_db_def)
  have "l_proxy ` set (links db) \<subseteq> r_id ` set (proxies db)" using assms by (simp add: wf_db_def)
  then show "l_proxy ` set (filter P (links db)) \<subseteq> r_id ` set (proxies db)"
    using image_mono [OF filter_is_subset, of l_proxy P "links db"] by (rule subset_trans [rotated])
qed

lemma sweep_wf:
  assumes "sweep source now linger stats db = (stats', db')" "wf_db db" "rows_ok db"
  shows "wf_db db' \<and> rows_ok db'"
proof -
  let ?db1 = "if linger then db else update_rows (retire_guard db source now) (retire_row now) db"
  have db': "db' = ?db1\<lparr>links := filter (\<lambda>l. \<not> unlink_guard ?db1 source now linger l) (links ?db1)\<rparr>"
    using assms(1) by (auto simp: sweep_def Let_def split: if_splits)
  have wf: "wf_db ?db1" "rows_ok ?db1"
    using assms(2,3) retire.keeps_wf retire.keeps_rows_ok by auto
  then have "wf_db db'" unfolding db' by (intro wf_filter_links)
  moreover have "rows_ok db'" using wf(2) unfolding db' by (simp add: rows_ok_def)
  ultimately show ?thesis ..
qed

section \<open>One pass of reconciliation\<close>

text \<open>The proxies a fetch carries, and the state between the upserts and the sweep.\<close>

definition carried :: "(string \<Rightarrow> string) \<Rightarrow> ProxyEntry list \<Rightarrow> Db \<Rightarrow> nat \<Rightarrow> bool" where
  "carried sha256 entries db i \<longleftrightarrow>
     (\<exists>r \<in> set (proxies db). r_id r = i \<and> r_fingerprint r \<in> fingerprint sha256 ` set entries)"

definition reconcile_mid where
  "reconcile_mid sha256 source entries now db mid \<longleftrightarrow>
     wf_db mid \<and>
     (\<forall>l. l \<in> set (links mid) \<longleftrightarrow>
       (l \<in> set (links db) \<and> \<not> (carried sha256 entries mid (l_proxy l) \<and> l_source l = source)) \<or>
       (carried sha256 entries mid (l_proxy l) \<and> l_source l = source \<and> l_seen_at l = now)) \<and>
     (\<exists>db1. upserted db db1 \<and> proxies mid = proxies db1) \<and>
     fingerprint sha256 ` set entries \<subseteq> r_fingerprint ` set (proxies mid)"

lemma unique_row:
  "wf_db db \<Longrightarrow> r \<in> set (proxies db) \<Longrightarrow> r' \<in> set (proxies db) \<Longrightarrow> r_id r = r_id r' \<Longrightarrow> r = r'"
  unfolding wf_db_def distinct_map by (meson inj_onD)

lemma unique_fp:
  "wf_db db \<Longrightarrow> r \<in> set (proxies db) \<Longrightarrow> r' \<in> set (proxies db) \<Longrightarrow>
     r_fingerprint r = r_fingerprint r' \<Longrightarrow> r = r'"
  unfolding wf_db_def distinct_map by (meson inj_onD)

lemma reconcile_steps:
  assumes "length geo \<le> length entries" and "wf_db db"
  obtains mid stats where
    "reconcile_source sha256 to_text source entries geo now linger db =
       Inr (sweep source now linger stats mid)"
    "reconcile_mid sha256 source entries now db mid" "rs_removed stats = 0"
proof -
  let ?fps = "map (fingerprint sha256) entries"
  let ?ex = "{fp \<in> set ?fps. get_by_fingerprint db fp \<noteq> None}"
  obtain db1 pairs where up: "upsert_all to_text now (stamped sha256 entries geo) db = (db1, pairs)"
    by fastforce
  note up_s = upsert_all_sound [OF up assms(2)]
  note wf1 = up_s [THEN conjunct1] and ups = up_s [THEN conjunct2, THEN conjunct1]
    and fsts = up_s [THEN conjunct2, THEN conjunct2, THEN conjunct1]
    and rows = up_s [THEN conjunct2, THEN conjunct2, THEN conjunct2]
  have fps: "map fst pairs = ?fps"
    unfolding fsts by (rule nth_equalityI) (simp_all add: stamped_def)
  let ?ids = "map_of (rev pairs)"
  have dom: "?ids fp \<noteq> None" if "fp \<in> set ?fps" for fp
  proof -
    have "fp \<in> fst ` set (rev pairs)" using that arg_cong [OF fps, of set] by simp
    then show ?thesis unfolding map_of_eq_None_iff by simp
  qed
  have row: "\<exists>r \<in> set (proxies db1). r_id r = the (?ids fp) \<and> r_fingerprint r = fp" if "fp \<in> set ?fps" for fp
  proof -
    from dom [OF \<open>fp \<in> set ?fps\<close>] obtain i where i: "?ids fp = Some i" by auto
    then have "(fp, i) \<in> set pairs" using map_of_SomeD [OF i] by simp
    from bspec [OF rows this] show ?thesis using i by simp
  qed
  obtain stats where acc: "account ?ex {} ?ids ?fps [] no_stats = Inr (map (the \<circ> ?ids) ?fps, stats)"
      and rem: "rs_removed stats = 0"
    using account_ok [of ?fps ?ids ?ex "{}" "[]" no_stats] dom by (fastforce simp: no_stats_def)
  let ?is = "map (the \<circ> ?ids) ?fps"
  let ?mid = "db1\<lparr>links := foldl (\<lambda>ls i. stamp_link source now i ls) (links db1) ?is\<rparr>"
  have is_iff: "i \<in> set ?is \<longleftrightarrow> (\<exists>r \<in> set (proxies db1). r_id r = i \<and> r_fingerprint r \<in> fingerprint sha256 ` set entries)"
    (is "?L \<longleftrightarrow> ?R") for i
  proof
    assume ?L
    then obtain fp where fp: "fp \<in> set ?fps" "i = the (?ids fp)" by auto
    with row [OF fp(1)] show ?R by auto
  next
    assume ?R
    then obtain r where r: "r \<in> set (proxies db1)" "r_id r = i" "r_fingerprint r \<in> set ?fps" by auto
    from row [OF r(3)] obtain r' where "r' \<in> set (proxies db1)" "r_id r' = the (?ids (r_fingerprint r))"
      "r_fingerprint r' = r_fingerprint r" by blast
    with unique_fp [OF wf1] r have "i = the (?ids (r_fingerprint r))" by metis
    with r(3) show ?L by auto
  qed
  have links1: "links db1 = links db" using ups by (simp add: upserted_def)
  have "wf_db ?mid"
  proof (rule wf_links [OF wf1])
    show "distinct (map (\<lambda>l. (l_proxy l, l_source l)) (foldl (\<lambda>ls i. stamp_link source now i ls) (links db1) ?is))"
      using wf1 by (intro stamp_all_keys) (simp add: wf_db_def)
    show "l_proxy ` set (foldl (\<lambda>ls i. stamp_link source now i ls) (links db1) ?is) \<subseteq> r_id ` set (proxies db1)"
    proof
      fix x assume "x \<in> l_proxy ` set (foldl (\<lambda>ls i. stamp_link source now i ls) (links db1) ?is)"
      then obtain l where l: "x = l_proxy l"
          "l \<in> set (foldl (\<lambda>ls i. stamp_link source now i ls) (links db1) ?is)" by (rule imageE)
      from l(2) [unfolded stamp_all_set] consider "l \<in> set (links db1)" | "l_proxy l \<in> set ?is" by blast
      then show "x \<in> r_id ` set (proxies db1)"
      proof cases
        case 1
        then show ?thesis using wf1 l(1) unfolding wf_db_def by blast
      next
        case 2
        then obtain r where "r \<in> set (proxies db1)" "r_id r = x" unfolding is_iff l(1) by blast
        then show ?thesis by (rule rev_image_eqI [OF _ sym])
      qed
    qed
  qed
  moreover have "fingerprint sha256 ` set entries \<subseteq> r_fingerprint ` set (proxies db1)"
  proof
    fix fp assume "fp \<in> fingerprint sha256 ` set entries"
    then have "fp \<in> set ?fps" by simp
    from row [OF this] obtain r where "r \<in> set (proxies db1)" "r_fingerprint r = fp" by blast
    then show "fp \<in> r_fingerprint ` set (proxies db1)" by (rule rev_image_eqI [OF _ sym])
  qed
  moreover have "carried sha256 entries ?mid i \<longleftrightarrow> i \<in> set ?is" for i
    unfolding is_iff carried_def by simp
  moreover have "links ?mid = foldl (\<lambda>ls i. stamp_link source now i ls) (links db) ?is" "proxies ?mid = proxies db1"
    by (simp_all add: links1)
  ultimately have "reconcile_mid sha256 source entries now db ?mid"
    unfolding reconcile_mid_def using ups stamp_all_set by metis
  moreover have "reconcile_source sha256 to_text source entries geo now linger db =
       Inr (sweep source now linger stats ?mid)"
    using assms(1) up acc by (simp add: reconcile_source_def Let_def)
  ultimately show thesis using that rem by blast
qed

lemma mid_rows_ok:
  assumes "reconcile_mid sha256 source entries now db mid" "rows_ok db"
  shows "rows_ok mid"
proof (rule rows_okI)
  fix r' assume r': "r' \<in> set (proxies mid)"
  from assms(1) obtain db1 where db1: "upserted db db1" "proxies mid = proxies db1"
    by (auto simp: reconcile_mid_def)
  then have "(\<exists>r \<in> set (proxies db). kept_row r r') \<or> row_ok r'"
    using r' by (auto simp: upserted_def)
  then show "row_ok r'" using assms(2) kept_row_ok rows_okD by blast
qed

lemma mid_row:
  assumes "reconcile_mid sha256 source entries now db mid" "r \<in> set (proxies db)"
  obtains r1 where "r1 \<in> set (proxies mid)" "kept_row r r1"
  using assms by (auto simp: reconcile_mid_def upserted_def)

text \<open>Which link survives the sweep, and which row the sweep retires.\<close>

lemma sweep_result:
  assumes "sweep source now linger stats mid = (stats', db')"
  shows "proxies db' = (if linger then proxies mid
      else map (\<lambda>r. if retire_guard mid source now r then retire_row now r else r) (proxies mid))"
    and "links db' = filter (\<lambda>l. \<not> unlink_guard (if linger then mid
           else update_rows (retire_guard mid source now) (retire_row now) mid) source now linger l) (links mid)"
    and "linger \<Longrightarrow> rs_removed stats' = rs_removed stats"
  using assms by (auto simp: sweep_def Let_def proxies_update_rows split: if_splits)

lemma retire_guard_mid:
  assumes mid: "reconcile_mid sha256 source entries now db mid" and r1: "r1 \<in> set (proxies mid)"
  shows "retire_guard mid source now r1 \<longleftrightarrow>
    r_status r1 \<noteq> Removed \<and> r_fingerprint r1 \<notin> fingerprint sha256 ` set entries \<and>
    (\<exists>l \<in> set (links db). l_proxy l = r_id r1) \<and>
    (\<forall>l \<in> set (links db). l_proxy l = r_id r1 \<longrightarrow> stale_link source now l)"
proof -
  have wf: "wf_db mid" using mid by (simp add: reconcile_mid_def)
  have car: "carried sha256 entries mid (r_id r1) \<longleftrightarrow> r_fingerprint r1 \<in> fingerprint sha256 ` set entries"
    unfolding carried_def using r1 unique_row [OF wf] by metis
  have mem: "l \<in> set (links mid) \<longleftrightarrow>
       (l \<in> set (links db) \<and> \<not> (carried sha256 entries mid (l_proxy l) \<and> l_source l = source)) \<or>
       (carried sha256 entries mid (l_proxy l) \<and> l_source l = source \<and> l_seen_at l = now)" for l
    using mid by (simp add: reconcile_mid_def)
  show ?thesis
  proof (cases "carried sha256 entries mid (r_id r1)")
    case True
    let ?l = "\<lparr>l_proxy = r_id r1, l_source = source, l_seen_at = now\<rparr>"
    have "?l \<in> set (links mid)" "\<not> stale_link source now ?l"
      unfolding mem using True by (simp_all add: stale_link_def)
    then have "\<not> retire_guard mid source now r1"
      by (auto simp: retire_guard_def list_ex_iff intro: bexI [of _ ?l])
    then show ?thesis using True car by simp
  next
    case False
    then have "l \<in> set (links mid) \<longleftrightarrow> l \<in> set (links db)" if "l_proxy l = r_id r1" for l
      using that unfolding mem by simp
    then show ?thesis
      using False car by (auto simp: retire_guard_def list_ex_iff)
  qed
qed

lemma reconcile_Inr:
  assumes "reconcile_source sha256 to_text source entries geo now linger db = Inr (stats', db')" and "wf_db db"
  obtains mid stats where "sweep source now linger stats mid = (stats', db')"
    "reconcile_mid sha256 source entries now db mid" "rs_removed stats = 0"
proof -
  have "length geo \<le> length entries"
    using assms(1) by (cases "length geo \<le> length entries") (simp_all add: reconcile_source_def)
  from reconcile_steps [OF this assms(2)] obtain mid stats where
    r: "reconcile_source sha256 to_text source entries geo now linger db = Inr (sweep source now linger stats mid)"
    and m: "reconcile_mid sha256 source entries now db mid" "rs_removed stats = 0" .
  from r assms(1) have "sweep source now linger stats mid = (stats', db')" by simp
  then show thesis using m by (rule that)
qed

lemma reconcile_keeps:
  assumes "reconcile_source sha256 to_text source entries geo now linger db = Inr (stats', db')"
    and "wf_db db" "rows_ok db"
  shows "wf_db db' \<and> rows_ok db'"
proof -
  from reconcile_Inr [OF assms(1,2)] obtain mid stats where
    s: "sweep source now linger stats mid = (stats', db')" and m: "reconcile_mid sha256 source entries now db mid" .
  from sweep_wf [OF s _ mid_rows_ok [OF m assms(3)]] m show ?thesis by (simp add: reconcile_mid_def)
qed

lemma swept_rows:
  assumes "sweep source now linger stats mid = (stats', db')"
  shows "(\<lambda>r. (r_id r, r_fingerprint r)) ` set (proxies db') = (\<lambda>r. (r_id r, r_fingerprint r)) ` set (proxies mid)"
proof -
  have "(\<lambda>r. (r_id r, r_fingerprint r)) (if g then retire_row now r else r) = (r_id r, r_fingerprint r)" for g r
    by (simp add: retire_row_def)
  then show ?thesis
    unfolding sweep_result(1) [OF assms] by (simp add: image_image del: if_image_distrib)
qed

lemma reconcile_entries_present:
  assumes "reconcile_source sha256 to_text source entries geo now linger db = Inr (stats', db')"
    and "wf_db db" "e \<in> set entries"
  shows "\<exists>r \<in> set (proxies db'). r_fingerprint r = fingerprint sha256 e \<and>
    (\<exists>l \<in> set (links db'). l_proxy l = r_id r \<and> l_source l = source \<and> l_seen_at l = now)"
proof -
  from reconcile_Inr [OF assms(1,2)] obtain mid stats where
    s: "sweep source now linger stats mid = (stats', db')" and m: "reconcile_mid sha256 source entries now db mid" .
  from m assms(3) obtain r1 where r1: "r1 \<in> set (proxies mid)" "r_fingerprint r1 = fingerprint sha256 e"
    unfolding reconcile_mid_def by (metis (no_types, lifting) image_iff imageI subsetD)
  let ?l = "\<lparr>l_proxy = r_id r1, l_source = source, l_seen_at = now\<rparr>"
  have "carried sha256 entries mid (r_id r1)" using r1 assms(3) by (auto simp: carried_def)
  then have "?l \<in> set (links mid)" using m by (simp add: reconcile_mid_def)
  moreover have "\<not> unlink_guard d source now linger ?l" for d
    by (simp add: unlink_guard_def stale_link_def)
  ultimately have l: "?l \<in> set (links db')" unfolding sweep_result(2) [OF s] by simp
  have "(r_id r1, r_fingerprint r1) \<in> (\<lambda>r. (r_id r, r_fingerprint r)) ` set (proxies db')"
    unfolding swept_rows [OF s] using r1 by blast
  then obtain r where "r \<in> set (proxies db')" "r_id r = r_id r1" "r_fingerprint r = r_fingerprint r1" by auto
  then show ?thesis using l r1(2) by (intro bexI [of _ r]) (auto intro: bexI [of _ ?l])
qed

lemma reconcile_row_after:
  assumes "reconcile_source sha256 to_text source entries geo now linger db = Inr (stats', db')"
    and "wf_db db" "r \<in> set (proxies db)"
  shows "\<exists>r' \<in> set (proxies db'). r_id r' = r_id r \<and>
    (if \<not> linger \<and> r_status r \<noteq> Removed \<and> r_fingerprint r \<notin> fingerprint sha256 ` set entries \<and>
        (\<exists>l \<in> set (links db). l_proxy l = r_id r) \<and>
        (\<forall>l \<in> set (links db). l_proxy l = r_id r \<longrightarrow> stale_link source now l)
     then r_status r' = Removed \<and> r_removed_at r' = Some now
     else kept_row r r')"
proof -
  from reconcile_Inr [OF assms(1,2)] obtain mid stats where
    s: "sweep source now linger stats mid = (stats', db')" and m: "reconcile_mid sha256 source entries now db mid" .
  from mid_row [OF m assms(3)] obtain r1 where r1: "r1 \<in> set (proxies mid)" "kept_row r r1" .
  note k = kept_row_fields [OF r1(2)]
  let ?r' = "if linger then r1 else if retire_guard mid source now r1 then retire_row now r1 else r1"
  have "?r' \<in> set (proxies db')"
    unfolding sweep_result(1) [OF s] using r1(1) by (cases linger) (simp_all add: image_eqI [of _ _ r1])
  moreover have "r_id ?r' = r_id r" using k by (simp add: retire_row_def)
  moreover have "if \<not> linger \<and> retire_guard mid source now r1
      then r_status ?r' = Removed \<and> r_removed_at ?r' = Some now else kept_row r ?r'"
    using r1(2) by (simp add: retire_row_def)
  ultimately obtain r' where r': "r' \<in> set (proxies db')" "r_id r' = r_id r"
      "if \<not> linger \<and> retire_guard mid source now r1
       then r_status r' = Removed \<and> r_removed_at r' = Some now else kept_row r r'" by blast
  have c: "retire_guard mid source now r1 \<longleftrightarrow>
      r_status r \<noteq> Removed \<and> r_fingerprint r \<notin> fingerprint sha256 ` set entries \<and>
      (\<exists>l \<in> set (links db). l_proxy l = r_id r) \<and>
      (\<forall>l \<in> set (links db). l_proxy l = r_id r \<longrightarrow> stale_link source now l)"
    using retire_guard_mid [OF m r1(1)] k by simp
  show ?thesis using r'(1,2) r'(3) [unfolded c] by blast
qed

lemma reconcile_links_linger:
  assumes "reconcile_source sha256 to_text source entries geo now True db = Inr (stats', db')"
    and "wf_db db" and "r \<in> set (proxies db)" "r_status r \<noteq> Removed" "linked db (r_id r)"
  shows "linked db' (r_id r) \<and> rs_removed stats' = 0"
proof -
  from reconcile_Inr [OF assms(1,2)] obtain mid stats where
    s: "sweep source now True stats mid = (stats', db')" and m: "reconcile_mid sha256 source entries now db mid"
    and z: "rs_removed stats = 0" .
  from mid_row [OF m assms(3)] obtain r1 where r1: "r1 \<in> set (proxies mid)" "kept_row r r1" .
  note k = kept_row_fields [OF r1(2)]
  from assms(5) obtain l where l: "l \<in> set (links db)" "l_proxy l = r_id r" by (auto simp: linked_def list_ex_iff)
  have "\<exists>l \<in> set (links mid). l_proxy l = r_id r"
  proof (cases "carried sha256 entries mid (l_proxy l) \<and> l_source l = source")
    case True
    then have "\<lparr>l_proxy = r_id r, l_source = source, l_seen_at = now\<rparr> \<in> set (links mid)"
      using m l(2) by (simp add: reconcile_mid_def)
    then show ?thesis by (rule bexI [rotated]) simp
  next
    case False
    then have "l \<in> set (links mid)" using m l(1) by (simp add: reconcile_mid_def)
    then show ?thesis using l(2) by blast
  qed
  then obtain l' where l': "l' \<in> set (links mid)" "l_proxy l' = r_id r" by blast
  have "r_status r1 \<in> {Alive, Ready, Unknown, Quarantine}"
    using k assms(4) by (cases "r_status r") auto
  then have "\<not> unlink_guard mid source now True l'"
    using r1(1) k l'(2) by (auto simp: unlink_guard_def list_ex_iff)
  then have "l' \<in> set (links db')" unfolding sweep_result(2) [OF s] using l'(1) by simp
  then show ?thesis using l'(2) z sweep_result(3) [OF s] by (auto simp: linked_def list_ex_iff)
qed

end
