(* ===== verification/Lifecycle.thy ===== *)
theory Lifecycle
  imports Proxies "HOL-Library.Option_ord"
begin

text \<open>
  The probe state machine of \<open>fumox-core/src/repo/proxies.rs\<close>: the lanes a row can be drawn from, the
  bounded-window sample, and the transitions a verdict applies. Random draws are parameters: the
  anchor of a window, the shuffle of its rows, the jitter of a second chance. The section on steps
  interleaves the transitions with ingestion and the admin actions of \<open>Proxies\<close>.
\<close>

section \<open>Lanes\<close>

definition T2_SCHEMES :: "Scheme list" where
  "T2_SCHEMES = [Vless, Vmess, Trojan, Ss, Hysteria2, Socks5, Snell, AnyTls]"

definition T2_REVIVAL_SCHEMES :: "Scheme list" where
  "T2_REVIVAL_SCHEMES = [Hysteria2]"

definition SAMPLE_WINDOW_FACTOR :: nat where
  "SAMPLE_WINDOW_FACTOR = 4"

definition t1_lane :: "Db \<Rightarrow> ProxyRow \<Rightarrow> bool" where
  "t1_lane db r \<longleftrightarrow> r_status r \<in> {Unknown, Alive} \<and> r_scheme r \<notin> set T1_EXCLUDED_SCHEMES \<and>
     r_last_t2_failed_at r = None \<and> linked db (r_id r)"

definition t2_lane :: "Db \<Rightarrow> ProxyRow \<Rightarrow> bool" where
  "t2_lane db r \<longleftrightarrow>
     (r_status r \<in> {Alive, Ready} \<or> r_status r = Unknown \<and> r_scheme r = Hysteria2) \<and>
     r_scheme r \<in> set T2_SCHEMES \<and> linked db (r_id r)"

definition due :: "int \<Rightarrow> ProxyRow \<Rightarrow> bool" where
  "due now r \<longleftrightarrow> r_status r = Quarantine \<and> (case r_ladder_at r of Some t \<Rightarrow> t \<le> now | None \<Rightarrow> False)"

definition due_t1 :: "int \<Rightarrow> ProxyRow \<Rightarrow> bool" where
  "due_t1 now r \<longleftrightarrow> due now r \<and> r_scheme r \<notin> set T2_REVIVAL_SCHEMES"

definition due_t2 :: "int \<Rightarrow> ProxyRow \<Rightarrow> bool" where
  "due_t2 now r \<longleftrightarrow> due now r \<and> r_scheme r \<in> set T2_REVIVAL_SCHEMES"

text \<open>One leg of a draw: \<open>>=\<close> the anchor in ascending, \<open><\<close> the anchor in descending id order.\<close>

definition fetch_window_leg :: "bool \<Rightarrow> (ProxyRow \<Rightarrow> bool) \<Rightarrow> nat \<Rightarrow> nat \<Rightarrow> Db \<Rightarrow> ProxyRow list" where
  "fetch_window_leg upper predicate anchor window db =
     (if upper then take window (sort_key r_id (filter (\<lambda>r. predicate r \<and> r_id r \<ge> anchor) (proxies db)))
      else take window (rev (sort_key r_id (filter (\<lambda>r. predicate r \<and> r_id r < anchor) (proxies db)))))"

definition select_window_sample ::
  "(ProxyRow list \<Rightarrow> ProxyRow list) \<Rightarrow> nat \<Rightarrow> (ProxyRow \<Rightarrow> bool) \<Rightarrow> nat \<Rightarrow> Db \<Rightarrow> ProxyRow list" where
  "select_window_sample shuffle anchor predicate lim db =
     (if lim = 0 then []
      else (let window = lim * SAMPLE_WINDOW_FACTOR;
                up = fetch_window_leg True predicate anchor window db;
                rows = (if length up < lim \<and> anchor > 0
                        then up @ fetch_window_leg False predicate anchor window db else up)
            in take lim (shuffle rows)))"

definition select_t1_candidates where
  "select_t1_candidates shuffle anchor lim db =
     map t1_candidate (select_window_sample shuffle anchor (t1_lane db) lim db)"

definition select_due_quarantine where
  "select_due_quarantine shuffle anchor now lim db = select_window_sample shuffle anchor (due_t1 now) lim db"

definition select_due_quarantine_t2 where
  "select_due_quarantine_t2 shuffle anchor now lim db = select_window_sample shuffle anchor (due_t2 now) lim db"

definition t2_kind :: string where
  "t2_kind = ''t2''"

text \<open>\<open>MAX(checked_at)\<close> over the T2 attempts of a row: NULL, the least value, when there is none.\<close>

definition last_t2_check :: "Db \<Rightarrow> nat \<Rightarrow> int option" where
  "last_t2_check db i =
     (case map pr_checked_at (filter (\<lambda>r. pr_proxy r = i \<and> pr_kind r = t2_kind) (results db)) of
        [] \<Rightarrow> None
      | t # ts \<Rightarrow> Some (fold max ts t))"

definition select_t2_candidates :: "nat \<Rightarrow> Db \<Rightarrow> ProxyRow list" where
  "select_t2_candidates lim db =
     take lim (sort_key (\<lambda>r. last_t2_check db (r_id r)) (sort_key r_id (filter (t2_lane db) (proxies db))))"

definition count_due_quarantine :: "int \<Rightarrow> Db \<Rightarrow> nat" where
  "count_due_quarantine now db = rows_affected (due now) db"

section \<open>Transitions\<close>

datatype Transition = Unchanged | Quarantined | Revived | RemovedNow

definition live :: "ProxyRow \<Rightarrow> bool" where
  "live r \<longleftrightarrow> r_status r \<in> {Unknown, Alive, Ready}"

definition succeed_row :: "int \<Rightarrow> int option \<Rightarrow> bool \<Rightarrow> ProxyStatus \<Rightarrow> ProxyRow \<Rightarrow> ProxyRow" where
  "succeed_row now latency_ms reset_fail_count status_to r =
     r\<lparr>r_status := (case status_to of Ready \<Rightarrow> Ready | _ \<Rightarrow> if r_status r = Ready then Ready else Alive),
       r_fail_count := (if reset_fail_count then 0 else r_fail_count r),
       r_last_checked_at := Some now, r_last_alive_at := Some now,
       r_latency_ms := coalesce latency_ms (r_latency_ms r),
       r_quarantined_at := None, r_ladder_at := None, r_ladder_step := 0,
       r_last_t2_failed_at := (if status_to = Ready then None else r_last_t2_failed_at r),
       r_updated_at := now\<rparr>"

definition succeed_guard :: "nat \<Rightarrow> ProxyRow \<Rightarrow> bool" where
  "succeed_guard i r \<longleftrightarrow> r_id r = i \<and> r_status r \<noteq> Removed"

definition check_succeeded ::
  "nat \<Rightarrow> int \<Rightarrow> int option \<Rightarrow> bool \<Rightarrow> ProxyStatus \<Rightarrow> Db \<Rightarrow> Transition \<times> Db" where
  "check_succeeded i now latency_ms reset_fail_count status_to db =
     (if rows_affected (succeed_guard i) db > 0 then Revived else Unchanged,
      update_rows (succeed_guard i) (succeed_row now latency_ms reset_fail_count status_to) db)"

definition live_guard :: "nat \<Rightarrow> ProxyRow \<Rightarrow> bool" where
  "live_guard i r \<longleftrightarrow> r_id r = i \<and> live r"

definition quarantine_row :: "int \<Rightarrow> int \<Rightarrow> int \<Rightarrow> bool \<Rightarrow> ProxyRow \<Rightarrow> ProxyRow" where
  "quarantine_row new_count now second_chance_at mark_t2_failed r =
     r\<lparr>r_status := Quarantine, r_fail_count := new_count, r_last_checked_at := Some now,
       r_quarantined_at := Some now, r_ladder_at := Some second_chance_at, r_ladder_step := 0,
       r_last_t2_failed_at := (if mark_t2_failed then Some now else r_last_t2_failed_at r),
       r_updated_at := now\<rparr>"

definition fail_row :: "int \<Rightarrow> int \<Rightarrow> bool \<Rightarrow> ProxyRow \<Rightarrow> ProxyRow" where
  "fail_row new_count now mark_t2_failed r =
     r\<lparr>r_status := (if r_status r = Ready then Alive else r_status r), r_fail_count := new_count,
       r_last_checked_at := Some now,
       r_last_t2_failed_at := (if mark_t2_failed then Some now else r_last_t2_failed_at r),
       r_updated_at := now\<rparr>"

text \<open>\<open>draw\<close> is the value of \<open>random_range(0..spread)\<close>, taken only when the spread is positive.\<close>

definition check_failed ::
  "int \<Rightarrow> nat \<Rightarrow> int \<Rightarrow> nat \<Rightarrow> int \<Rightarrow> int \<Rightarrow> bool \<Rightarrow> Db \<Rightarrow> Transition \<times> Db" where
  "check_failed draw i now fail_limit second_chance_min_secs second_chance_spread_secs mark_t2_failed db =
     (case rows_where (live_guard i) db of
        [] \<Rightarrow> (Unchanged, db)
      | row # _ \<Rightarrow>
          (let new_count = r_fail_count row + 1;
               (transition, upd) =
                 (if new_count \<ge> int fail_limit
                  then (let jitter = (if second_chance_spread_secs > 0 then draw else 0);
                            second_chance_at = now + second_chance_min_secs + jitter
                        in (Quarantined, quarantine_row new_count now second_chance_at mark_t2_failed))
                  else (Unchanged, fail_row new_count now mark_t2_failed));
               written = rows_affected (live_guard i) db
           in (if written > 0 then transition else Unchanged, update_rows (live_guard i) upd db)))"

definition engine_row :: "int \<Rightarrow> ProxyRow \<Rightarrow> ProxyRow" where
  "engine_row now r = r\<lparr>r_status := (if r_status r = Ready then Alive else r_status r),
     r_last_checked_at := Some now, r_last_t2_failed_at := Some now, r_updated_at := now\<rparr>"

definition check_engine_unavailable :: "nat \<Rightarrow> int \<Rightarrow> Db \<Rightarrow> bool \<times> Db" where
  "check_engine_unavailable i now db =
     (rows_affected (live_guard i) db > 0, update_rows (live_guard i) (engine_row now) db)"

definition ladder_guard :: "nat \<Rightarrow> ProxyRow \<Rightarrow> bool" where
  "ladder_guard i r \<longleftrightarrow> r_id r = i \<and> r_status r = Quarantine"

definition drop_row :: "int \<Rightarrow> ProxyRow \<Rightarrow> ProxyRow" where
  "drop_row now r = r\<lparr>r_status := Removed, r_last_checked_at := Some now, r_removed_at := Some now,
     r_ladder_at := None, r_ladder_step := 0, r_updated_at := now\<rparr>"

definition climb_row :: "int \<Rightarrow> int \<Rightarrow> int \<Rightarrow> ProxyRow \<Rightarrow> ProxyRow" where
  "climb_row now next_at next_step r = r\<lparr>r_last_checked_at := Some now, r_ladder_at := Some next_at,
     r_ladder_step := next_step, r_updated_at := now\<rparr>"

definition quarantine_check_failed :: "nat \<Rightarrow> int \<Rightarrow> int \<Rightarrow> int list \<Rightarrow> Db \<Rightarrow> Transition \<times> Db" where
  "quarantine_check_failed i now ladder_step delays db =
     (let k = nat (max ladder_step 0) in
      if k < length delays
      then (Unchanged, update_rows (ladder_guard i) (climb_row now (now + max (delays ! k) 0) (ladder_step + 1)) db)
      else (RemovedNow, update_rows (ladder_guard i) (drop_row now) db))"

section \<open>Every transition keeps the tables and the lifecycle columns in order\<close>

lemmas step_simps = row_ok_def succeed_row_def quarantine_row_def fail_row_def engine_row_def drop_row_def
  climb_row_def succeed_guard_def live_guard_def ladder_guard_def live_def

interpretation succeed: row_update "succeed_guard i" "succeed_row now lat rst st" for i now lat rst st
  by unfold_locales (auto simp: step_simps split: ProxyStatus.splits)

interpretation engine: row_update "live_guard i" "engine_row now" for i now
  by unfold_locales (auto simp: step_simps split: if_splits)

interpretation dropped: row_update "ladder_guard i" "drop_row now" for i now
  by unfold_locales (auto simp: step_simps)

interpretation climb: row_update "ladder_guard i" "climb_row now t k" for i now t k
  by unfold_locales (auto simp: step_simps)

lemma update_rows_cong:
  "(\<And>r. r \<in> set (proxies db) \<Longrightarrow> g r \<longleftrightarrow> g' r) \<Longrightarrow> (\<And>r. r \<in> set (proxies db) \<Longrightarrow> g r \<Longrightarrow> u r = u' r) \<Longrightarrow>
     update_rows g u db = update_rows g' u' db"
  by (simp add: update_rows_def)

lemma rows_where_id:
  assumes "wf_db db"
  shows "rows_where (\<lambda>r. r_id r = i \<and> P r) db =
    (case get_by_id db i of Some r \<Rightarrow> if P r then [r] else [] | None \<Rightarrow> [])"
proof -
  have "distinct (map r_id rs) \<Longrightarrow> filter (\<lambda>r. r_id r = i \<and> P r) rs =
      (case find (\<lambda>r. r_id r = i) rs of Some r \<Rightarrow> if P r then [r] else [] | None \<Rightarrow> [])" for rs
  proof (induction rs)
    case (Cons x rs)
    show ?case
    proof (cases "r_id x = i")
      case True
      have "i \<notin> r_id ` set rs" using Cons.prems True by simp
      then have "filter (\<lambda>r. r_id r = i \<and> P r) rs = []"
        unfolding filter_empty_conv by blast
      then show ?thesis using True by simp
    qed (use Cons in simp)
  qed simp
  then show ?thesis using assms by (simp add: rows_where_def get_by_id_def wf_db_def)
qed

lemma live_guard_rows:
  "wf_db db \<Longrightarrow> rows_where (live_guard i) db =
     (case get_by_id db i of Some r \<Rightarrow> if live r then [r] else [] | None \<Rightarrow> [])"
  using rows_where_id [of db i live] by (simp add: live_guard_def [abs_def])

text \<open>The failed regular check, as one update of the row it names.\<close>

definition failed_row :: "int \<Rightarrow> int \<Rightarrow> nat \<Rightarrow> int \<Rightarrow> int \<Rightarrow> bool \<Rightarrow> ProxyRow \<Rightarrow> ProxyRow" where
  "failed_row draw now fail_limit min_secs spread mark r =
     (if r_fail_count r + 1 \<ge> int fail_limit
      then quarantine_row (r_fail_count r + 1) now (now + min_secs + (if spread > 0 then draw else 0)) mark r
      else fail_row (r_fail_count r + 1) now mark r)"

interpretation failed: row_update "live_guard i" "failed_row draw now fail_limit min_secs spread mark"
  for i draw now fail_limit min_secs spread mark
  by unfold_locales (auto simp: failed_row_def step_simps split: if_splits)

lemma check_failed_eq:
  assumes "wf_db db"
  shows "check_failed draw i now fail_limit min_secs spread mark db =
    (case get_by_id db i of
       Some r \<Rightarrow> if live r then (if r_fail_count r + 1 \<ge> int fail_limit then Quarantined else Unchanged,
           update_rows (live_guard i) (failed_row draw now fail_limit min_secs spread mark) db)
         else (Unchanged, db)
     | None \<Rightarrow> (Unchanged, db))"
proof (cases "get_by_id db i")
  case None
  then show ?thesis using live_guard_rows [OF assms, of i] by (simp add: check_failed_def)
next
  case (Some row)
  show ?thesis
  proof (cases "live row")
    case True
    have one: "rows_where (live_guard i) db = [row]"
      using live_guard_rows [OF assms, of i] Some True by simp
    have only: "r = row" if "r \<in> set (proxies db)" "live_guard i r" for r
    proof -
      have "r \<in> set (rows_where (live_guard i) db)" using that by (simp add: rows_where_def)
      then show ?thesis unfolding one by simp
    qed
    have "update_rows (live_guard i) (quarantine_row (r_fail_count row + 1) now
          (now + min_secs + (if spread > 0 then draw else 0)) mark) db =
        update_rows (live_guard i) (failed_row draw now fail_limit min_secs spread mark) db"
      if "r_fail_count row + 1 \<ge> int fail_limit"
      using that only by (intro update_rows_cong) (auto simp: failed_row_def)
    moreover have "update_rows (live_guard i) (fail_row (r_fail_count row + 1) now mark) db =
        update_rows (live_guard i) (failed_row draw now fail_limit min_secs spread mark) db"
      if "\<not> r_fail_count row + 1 \<ge> int fail_limit"
      using that only by (intro update_rows_cong) (auto simp: failed_row_def)
    ultimately show ?thesis
      using Some True one by (simp add: check_failed_def rows_affected_def Let_def)
  next
    case False
    then show ?thesis using live_guard_rows [OF assms, of i] Some by (simp add: check_failed_def)
  qed
qed

section \<open>Steps of the server and of the probe\<close>

text \<open>
  \<open>admin_step\<close>: everything the server does to the tables; \<open>verdict_step\<close>: a verdict of the probe
  arrives, whatever happened to the row since it was drawn; \<open>lane_step\<close>: a verdict arrives while the
  row is still in the lane it was drawn from. Parameters of the configuration vary from step to step.
\<close>

definition empty_db :: Db where
  "empty_db = \<lparr>proxies = [], links = [], results = [], requests = [], next_id = 1\<rparr>"

text \<open>\<open>ON DELETE CASCADE\<close> of a deleted source.\<close>

definition delete_source_links :: "string \<Rightarrow> Db \<Rightarrow> Db" where
  "delete_source_links source db = db\<lparr>links := filter (\<lambda>l. l_source l \<noteq> source) (links db)\<rparr>"

inductive admin_step :: "Db \<Rightarrow> Db \<Rightarrow> bool" where
  ingest: "reconcile_source sha256 to_text source entries geo now linger db = Inr (stats, db') \<Longrightarrow> admin_step db db'"
| geo: "admin_step db (update_geo i stamp db)"
| geo_full: "admin_step db (update_geo_full i stamp ip db)"
| reset: "admin_step db (snd (reset_status i now db))"
| revive_fps: "admin_step db (snd (revive_removed fps now db))"
| revive_country: "admin_step db (snd (revive_removed_by_country c now db))"
| revive_asn: "admin_step db (snd (revive_removed_by_asn asn now db))"
| revive_history: "admin_step db (snd (revive_removed_without_probe_history now db))"
| revive_q: "admin_step db (snd (revive_quarantine now db))"
| enqueue: "admin_step db (snd (enqueue_checks ids lim now db))"
| claim: "admin_step db (snd (claim_checks ids db))"
| settle: "admin_step db (snd (purge_settled_checks db))"
| expire: "admin_step db (snd (purge_requests_before cutoff db))"
| forget: "admin_step db (snd (purge_before cutoff db))"
| journal: "pr_proxy entry \<in> r_id ` set (proxies db) \<Longrightarrow> admin_step db (insert_result entry db)"
| delete_source: "admin_step db (delete_source_links source db)"
| orphans: "admin_step db (snd (mark_orphans_removed protected now db))"
| purge: "admin_step db (snd (purge_removed db))"
| clean_quarantine: "admin_step db (snd (quarantine_to_removed now db))"
| clean_no_country: "admin_step db (snd (remove_alive_without_country now db))"
| clean_asn: "admin_step db (snd (remove_alive_by_asn asn now db))"
| clean_country: "admin_step db (snd (remove_alive_by_country c now db))"
| clean_unprobeable: "admin_step db (snd (remove_unprobeable_unknown now db))"

inductive verdict_step :: "Db \<Rightarrow> Db \<Rightarrow> bool" where
  succeeded: "st \<in> {Alive, Ready} \<Longrightarrow> verdict_step db (snd (check_succeeded i now lat rst st db))"
| failed: "verdict_step db (snd (check_failed draw i now lim min_secs spread mark db))"
| engine_down: "verdict_step db (snd (check_engine_unavailable i now db))"
| recheck_failed: "verdict_step db (snd (quarantine_check_failed i now step delays db))"

inductive lane_step :: "Db \<Rightarrow> Db \<Rightarrow> bool" where
  t1_ok: "get_by_id db i = Some r \<Longrightarrow> t1_lane db r \<or> queueable db r \<and> r_last_t2_failed_at r = None \<or> due_t1 now r \<Longrightarrow>
    lane_step db (snd (check_succeeded i now lat rst Alive db))"
| t1_fail: "get_by_id db i = Some r \<Longrightarrow> t1_lane db r \<or> queueable db r \<and> r_last_t2_failed_at r = None \<Longrightarrow>
    lane_step db (snd (check_failed draw i now lim min_secs spread False db))"
| t2_ok: "get_by_id db i = Some r \<Longrightarrow> t2_lane db r \<or> due_t2 now r \<Longrightarrow>
    lane_step db (snd (check_succeeded i now lat rst Ready db))"
| t2_fail: "get_by_id db i = Some r \<Longrightarrow> t2_lane db r \<Longrightarrow>
    lane_step db (snd (check_failed draw i now lim min_secs spread True db))"
| t2_down: "get_by_id db i = Some r \<Longrightarrow> t2_lane db r \<Longrightarrow> lane_step db (snd (check_engine_unavailable i now db))"
| due_fail: "get_by_id db i = Some r \<Longrightarrow> due now r \<Longrightarrow>
    lane_step db (snd (quarantine_check_failed i now (r_ladder_step r) delays db))"

inductive reachable :: "Db \<Rightarrow> bool" where
  start: "reachable empty_db"
| admin: "reachable db \<Longrightarrow> admin_step db db' \<Longrightarrow> reachable db'"
| verdict: "reachable db \<Longrightarrow> verdict_step db db' \<Longrightarrow> reachable db'"

inductive lane_reachable :: "Db \<Rightarrow> bool" where
  lane_start: "lane_reachable empty_db"
| lane_admin: "lane_reachable db \<Longrightarrow> admin_step db db' \<Longrightarrow> lane_reachable db'"
| lane_verdict: "lane_reachable db \<Longrightarrow> lane_step db db' \<Longrightarrow> lane_reachable db'"

lemma lane_step_verdict: "lane_step db db' \<Longrightarrow> verdict_step db db'"
  by (erule lane_step.cases) (auto intro: verdict_step.intros)

lemma lane_reachable_reachable: "lane_reachable db \<Longrightarrow> reachable db"
  by (induction rule: lane_reachable.induct) (auto intro: reachable.intros lane_step_verdict)

section \<open>The invariants of the tables\<close>

lemma revive_loop_sound: "sound_db db \<Longrightarrow> sound_db (snd (revive_loop cs now acc db))"
proof (induction cs now acc db rule: revive_loop.induct)
  case (2 chunk rest now acc db)
  have "sound_db (update_rows (revive_fps_guard db chunk) (revive_row now) db)"
    using 2(2) by (simp add: revive.keeps_sound)
  with 2(1) show ?case by (simp add: update_returning_def)
qed simp

lemma requests_sound:
  assumes "sound_db db"
  shows "sound_db (db\<lparr>requests := filter P (requests db)\<rparr>)"
proof -
  have "distinct (map q_proxy (filter P (requests db)))"
    using assms by (intro distinct_map_filter) (simp add: sound_db_def wf_db_def)
  moreover have "q_proxy ` set (filter P (requests db)) \<subseteq> r_id ` set (proxies db)"
    using assms image_mono [OF filter_is_subset, of q_proxy P "requests db"]
    by (auto simp: sound_db_def wf_db_def)
  ultimately show ?thesis using assms by (simp add: sound_db_def wf_db_def rows_ok_def)
qed

lemma results_sound:
  "sound_db db \<Longrightarrow> pr_proxy ` set rs \<subseteq> r_id ` set (proxies db) \<Longrightarrow> sound_db (db\<lparr>results := rs\<rparr>)"
  by (simp add: sound_db_def wf_db_def rows_ok_def)

lemma enqueue_sound: "sound_db db \<Longrightarrow> sound_db (snd (enqueue_checks ids lim now db))"
proof -
  assume s: "sound_db db"
  obtain n db' where e: "enqueue_checks ids lim now db = (n, db')" by fastforce
  with s enqueue_checks_wf [OF e] enqueue_checks_sound [OF e] show ?thesis
    by (simp add: sound_db_def rows_ok_def only_requests_def)
qed

lemma purge_sound: "sound_db db \<Longrightarrow> sound_db (snd (purge_removed db))"
proof -
  assume s: "sound_db db"
  let ?kept = "filter (\<lambda>r. r_status r \<noteq> Removed) (proxies db)"
  have d: "distinct (map f (filter P xs))" if "distinct (map f xs)" for f P and xs :: "'a list"
    using that by (rule distinct_map_filter)
  have "distinct (map r_id ?kept)" "distinct (map r_fingerprint ?kept)"
    "distinct (map (\<lambda>l. (l_proxy l, l_source l)) (filter (\<lambda>l. l_proxy l \<in> r_id ` set ?kept) (links db)))"
    "distinct (map q_proxy (filter (\<lambda>q. q_proxy q \<in> r_id ` set ?kept) (requests db)))"
    using s by (auto intro!: distinct_map_filter simp: sound_db_def wf_db_def)
  moreover have "\<forall>r \<in> set ?kept. r_id r < next_id db" "\<forall>r \<in> set ?kept. row_ok r"
    using s by (auto simp: sound_db_def wf_db_def rows_ok_def)
  ultimately show ?thesis
    unfolding sound_db_def wf_db_def rows_ok_def purge_removed_def Let_def
    by (simp add: image_subset_iff)
qed

lemma admin_step_sound: "admin_step db db' \<Longrightarrow> sound_db db \<Longrightarrow> sound_db db'"
proof (induction rule: admin_step.induct)
  case (ingest sha256 to_text source entries geo now linger db stats db')
  then show ?case using reconcile_keeps by (auto simp: sound_db_def)
next
  case (geo db i stamp)
  then show ?case by (simp add: update_geo_def geo.keeps_sound)
next
  case (geo_full db i stamp ip)
  then show ?case by (simp add: update_geo_full_def geo_full.keeps_sound)
next
  case (reset db i now)
  then have "sound_db (update_rows (reset_guard db i) (revive_row now) db)"
    by (simp add: revive.keeps_sound)
  then show ?case using enqueue_sound by (simp add: reset_status_def Let_def)
next
  case (revive_fps db fps now)
  then show ?case by (simp add: revive_removed_def revive_loop_sound)
next
  case (revive_country db c now)
  then show ?case
    by (simp add: revive_removed_by_country_def update_returning_def revive.keeps_sound)
next
  case (revive_asn db asn now)
  then show ?case
    by (simp add: revive_removed_by_asn_def update_returning_def revive.keeps_sound)
next
  case (revive_history db now)
  then show ?case
    by (simp add: revive_removed_without_probe_history_def update_returning_def Let_def revive.keeps_sound unfreeze.keeps_sound)
next
  case (revive_q db now)
  then show ?case
    by (simp add: revive_quarantine_def update_returning_def unquarantine.keeps_sound)
next
  case (journal entry db)
  then show ?case
    unfolding insert_result_def by (intro results_sound) (auto simp: sound_db_def wf_db_def)
next
  case (forget db cutoff)
  have "pr_proxy ` set (filter (\<lambda>r. \<not> pr_checked_at r < cutoff) (results db)) \<subseteq> r_id ` set (proxies db)"
    using forget image_mono [OF filter_is_subset, of pr_proxy _ "results db"]
    by (auto simp: sound_db_def wf_db_def)
  with forget show ?case unfolding purge_before_def snd_conv by (rule results_sound)
next
  case (delete_source db source)
  then show ?case
    by (simp add: delete_source_links_def sound_db_def wf_filter_links) (simp add: rows_ok_def)
next
  case (orphans db protected now)
  then show ?case by (simp add: mark_orphans_removed_def retire.keeps_sound)
next
  case (purge db)
  then show ?case by (rule purge_sound)
qed (simp_all add: enqueue_sound claim_checks_def purge_settled_checks_def purge_requests_before_def
      requests_sound Let_def quarantine_to_removed_def remove_alive_without_country_def remove_alive_by_asn_def
      remove_alive_by_country_def remove_unprobeable_unknown_def cleanup_def cleaned.keeps_sound)

lemma verdict_step_sound: "verdict_step db db' \<Longrightarrow> sound_db db \<Longrightarrow> sound_db db'"
proof (induction rule: verdict_step.induct)
  case (failed db draw i now lim min_secs spread mark)
  then have "wf_db db" by (simp add: sound_db_def)
  from check_failed_eq [OF this] failed show ?case
    by (auto simp: failed.keeps_sound split: option.splits)
qed (simp_all add: check_succeeded_def check_engine_unavailable_def quarantine_check_failed_def Let_def
      succeed.keeps_sound engine.keeps_sound
      dropped.keeps_sound climb.keeps_sound)

lemma reachable_sound_db: "reachable db \<Longrightarrow> sound_db db"
proof (induction rule: reachable.induct)
  case start
  show ?case by (simp add: empty_db_def sound_db_def wf_db_def rows_ok_def)
qed (simp_all add: admin_step_sound verdict_step_sound)

section \<open>One row under a verdict\<close>

lemma get_by_id_id: "get_by_id db j = Some r \<Longrightarrow> r_id r = j"
  by (auto simp: get_by_id_def find_Some_iff)

lemma get_check_succeeded:
  "get_by_id (snd (check_succeeded i now lat rst st db)) j =
     map_option (\<lambda>r. if succeed_guard i r then succeed_row now lat rst st r else r) (get_by_id db j)"
  by (simp add: check_succeeded_def succeed.get_after)

lemma get_check_failed:
  assumes "wf_db db"
  shows "get_by_id (snd (check_failed draw i now lim min_secs spread mark db)) j =
     map_option (\<lambda>r. if live_guard i r then failed_row draw now lim min_secs spread mark r else r) (get_by_id db j)"
proof -
  have "\<not> live_guard i r" if "get_by_id db i = None" "get_by_id db j = Some r" for r
    using that get_by_id_id [OF that(2)] by (auto simp: live_guard_def)
  moreover have "\<not> live_guard i r'" if "get_by_id db i = Some r" "\<not> live r" "get_by_id db j = Some r'" for r r'
  proof
    assume g: "live_guard i r'"
    then have "i = j" using get_by_id_id [OF that(3)] by (simp add: live_guard_def)
    then have "r' = r" using that(1,3) by simp
    then show False using g that(2) by (simp add: live_guard_def)
  qed
  ultimately show ?thesis
    by (auto simp: check_failed_eq [OF assms] failed.get_after split: option.splits) (cases "get_by_id db j"; simp)+
qed

lemma get_engine:
  "get_by_id (snd (check_engine_unavailable i now db)) j =
     map_option (\<lambda>r. if live_guard i r then engine_row now r else r) (get_by_id db j)"
  by (simp add: check_engine_unavailable_def engine.get_after)

lemma get_ladder:
  "get_by_id (snd (quarantine_check_failed i now step delays db)) j =
     map_option (\<lambda>r. if ladder_guard i r
        then (if nat (max step 0) < length delays
              then climb_row now (now + max (delays ! nat (max step 0)) 0) (step + 1) r else drop_row now r)
        else r) (get_by_id db j)"
  by (cases "get_by_id db j") (simp_all add: quarantine_check_failed_def Let_def dropped.get_after climb.get_after)

lemma removed_guards:
  "r_status r = Removed \<Longrightarrow> \<not> succeed_guard i r \<and> \<not> live_guard i r \<and> \<not> ladder_guard i r"
  by (simp add: succeed_guard_def live_guard_def ladder_guard_def live_def)

lemma verdict_removed:
  assumes "verdict_step db db'" "wf_db db" "get_by_id db j = Some r" "r_status r = Removed"
  shows "get_by_id db' j = Some r"
  using assms(1)
  by cases (use assms(2-4) removed_guards [OF assms(4)] in
      \<open>simp_all add: get_check_succeeded get_check_failed get_engine get_ladder\<close>)

section \<open>Consecutive failures\<close>

text \<open>A run of failed regular checks: the draw and the time of each.\<close>

fun fail_run :: "(int \<times> int) list \<Rightarrow> nat \<Rightarrow> nat \<Rightarrow> int \<Rightarrow> int \<Rightarrow> bool \<Rightarrow> Db \<Rightarrow> Db" where
  "fail_run [] i lim min_secs spread mark db = db"
| "fail_run ((draw, now) # fs) i lim min_secs spread mark db =
     fail_run fs i lim min_secs spread mark (snd (check_failed draw i now lim min_secs spread mark db))"

lemma check_failed_sound: "sound_db db \<Longrightarrow> sound_db (snd (check_failed draw i now lim min_secs spread mark db))"
  by (rule verdict_step_sound [OF verdict_step.failed])

lemma fail_run_below:
  assumes "sound_db db" "get_by_id db i = Some r" "live r" "r_fail_count r + int (length fs) < int lim"
  shows "\<exists>r'. get_by_id (fail_run fs i lim min_secs spread mark db) i = Some r' \<and> live r' \<and>
    r_fail_count r' = r_fail_count r + int (length fs) \<and> (fs \<noteq> [] \<longrightarrow> r_status r' \<noteq> Ready) \<and>
    sound_db (fail_run fs i lim min_secs spread mark db)"
  using assms
proof (induction fs i lim min_secs spread mark db arbitrary: r rule: fail_run.induct)
  case (2 draw now fs i lim min_secs spread mark db)
  let ?r1 = "fail_row (r_fail_count r + 1) now mark r"
  have wf: "wf_db db" using 2(2) by (simp add: sound_db_def)
  have "get_by_id (snd (check_failed draw i now lim min_secs spread mark db)) i = Some ?r1"
    using 2(3-5) get_by_id_id [OF 2(3)]
    by (simp add: get_check_failed [OF wf] live_guard_def failed_row_def)
  moreover have l1: "live ?r1" "r_status ?r1 \<noteq> Ready" "r_fail_count ?r1 = r_fail_count r + 1"
    using 2(4) by (auto simp: fail_row_def live_def)
  ultimately obtain r' where r': "get_by_id (fail_run ((draw, now) # fs) i lim min_secs spread mark db) i = Some r'"
      "live r'" "r_fail_count r' = r_fail_count r + 1 + int (length fs)" "fs \<noteq> [] \<longrightarrow> r_status r' \<noteq> Ready"
      "sound_db (fail_run ((draw, now) # fs) i lim min_secs spread mark db)"
    using 2(1) [OF check_failed_sound [OF 2(2)], of ?r1] 2(5) by auto
  moreover have "fs = [] \<longrightarrow> r_status r' \<noteq> Ready"
    using r'(1) \<open>get_by_id (snd (check_failed draw i now lim min_secs spread mark db)) i = Some ?r1\<close> l1(2) by auto
  ultimately show ?case by auto
qed simp

lemma fail_run_append:
  "fail_run (fs @ gs) i lim min_secs spread mark db = fail_run gs i lim min_secs spread mark (fail_run fs i lim min_secs spread mark db)"
  by (induction fs i lim min_secs spread mark db rule: fail_run.induct) simp_all

lemma fail_run_limit:
  assumes "sound_db db" "get_by_id db i = Some r" "live r"
    and "r_fail_count r + int (length fs) + 1 = int lim"
  shows "\<exists>r'. get_by_id (fail_run (fs @ [(draw, now)]) i lim min_secs spread mark db) i = Some r' \<and>
    r_status r' = Quarantine \<and> r_fail_count r' = int lim \<and> r_ladder_step r' = 0 \<and>
    r_ladder_at r' = Some (now + min_secs + (if spread > 0 then draw else 0))"
proof -
  have "r_fail_count r + int (length fs) < int lim" using assms(4) by simp
  from fail_run_below [OF assms(1-3) this, of min_secs spread mark] obtain r1 where
    r1: "get_by_id (fail_run fs i lim min_secs spread mark db) i = Some r1" "live r1"
    "r_fail_count r1 = r_fail_count r + int (length fs)"
    and s: "sound_db (fail_run fs i lim min_secs spread mark db)" by blast
  from s have wf: "wf_db (fail_run fs i lim min_secs spread mark db)" by (simp add: sound_db_def)
  show ?thesis
    unfolding fail_run_append fail_run.simps using r1 get_by_id_id [OF r1(1)] assms(4)
    by (simp add: get_check_failed [OF wf] live_guard_def failed_row_def quarantine_row_def)
qed

section \<open>The recheck ladder\<close>

text \<open>The probe passes the step the row waits on; a run of failed rechecks at the given times.\<close>

definition ladder_fail :: "nat \<Rightarrow> int list \<Rightarrow> int \<Rightarrow> Db \<Rightarrow> Db" where
  "ladder_fail i delays now db =
     (case get_by_id db i of
        Some r \<Rightarrow> snd (quarantine_check_failed i now (r_ladder_step r) delays db)
      | None \<Rightarrow> db)"

fun ladder_run :: "nat \<Rightarrow> int list \<Rightarrow> int list \<Rightarrow> Db \<Rightarrow> Db" where
  "ladder_run i delays [] db = db"
| "ladder_run i delays (now # nows) db = ladder_run i delays nows (ladder_fail i delays now db)"

lemma ladder_run_append:
  "ladder_run i delays (xs @ ys) db = ladder_run i delays ys (ladder_run i delays xs db)"
  by (induction xs arbitrary: db) simp_all

lemma ladder_fail_get:
  assumes "get_by_id db i = Some r" "r_status r = Quarantine" "r_ladder_step r = int k"
  shows "get_by_id (ladder_fail i delays now db) i = Some
    (if k < length delays then climb_row now (now + max (delays ! k) 0) (int k + 1) r else drop_row now r)"
  using assms get_by_id_id [OF assms(1)] by (simp add: ladder_fail_def get_ladder ladder_guard_def)

lemma ladder_run_below:
  assumes "get_by_id db i = Some r" "r_status r = Quarantine" "r_ladder_step r = int k"
    and "k + length nows \<le> length delays"
  shows "\<exists>r'. get_by_id (ladder_run i delays nows db) i = Some r' \<and> r_status r' = Quarantine \<and>
    r_ladder_step r' = int (k + length nows) \<and>
    (nows \<noteq> [] \<longrightarrow> r_ladder_at r' = Some (last nows + max (delays ! (k + length nows - 1)) 0))"
  using assms
proof (induction nows arbitrary: db r k)
  case (Cons now nows)
  let ?r1 = "climb_row now (now + max (delays ! k) 0) (int k + 1) r"
  have r1: "get_by_id (ladder_fail i delays now db) i = Some ?r1"
    using ladder_fail_get [OF Cons.prems(1-3)] Cons.prems(4) by simp
  have f1: "r_status ?r1 = Quarantine" "r_ladder_step ?r1 = int (Suc k)"
    "r_ladder_at ?r1 = Some (now + max (delays ! k) 0)"
    using Cons.prems(2) by (simp_all add: climb_row_def)
  have "Suc k + length nows \<le> length delays" using Cons.prems(4) by simp
  from Cons.IH [OF r1 f1(1,2) this] r1 f1(3) show ?case by (cases nows) auto
qed simp

lemma ladder_run_end:
  assumes "get_by_id db i = Some r" "r_status r = Quarantine" "r_ladder_step r = int k"
    and "k + length nows = length delays"
  shows "\<exists>r'. get_by_id (ladder_run i delays (nows @ [now]) db) i = Some r' \<and> r_status r' = Removed \<and>
    r_removed_at r' = Some now"
proof -
  from ladder_run_below [OF assms(1-3), of nows delays] assms(4) obtain r1 where
    "get_by_id (ladder_run i delays nows db) i = Some r1" "r_status r1 = Quarantine"
    "r_ladder_step r1 = int (length delays)" by auto
  from ladder_fail_get [OF this] show ?thesis
    by (simp add: ladder_run_append drop_row_def)
qed

end
