(* ===== verification/Lifecycle_Safety.thy ===== *)
theory Lifecycle_Safety
  imports Lifecycle
begin

text \<open>
  What the lifecycle promises: which lane every row can be drawn from, how a verdict that arrives late
  strands a row, what the sample of a lane holds, and the properties of reconciliation, of the failure
  counter and of the recheck ladder.
\<close>

section \<open>No row falls out of the lanes\<close>

text \<open>A T2 failure blocks only rows the T2 lane still draws.\<close>

definition lane_ok :: "ProxyRow \<Rightarrow> bool" where
  "lane_ok r \<longleftrightarrow>
     (r_status r = Unknown \<and> r_scheme r \<notin> set T1_EXCLUDED_SCHEMES \<longrightarrow> r_last_t2_failed_at r = None) \<and>
     (r_scheme r \<notin> set T2_SCHEMES \<longrightarrow> r_last_t2_failed_at r = None \<and> r_status r \<noteq> Ready)"

definition lanes_ok :: "Db \<Rightarrow> bool" where
  "lanes_ok db \<longleftrightarrow> (\<forall>r \<in> set (proxies db). lane_ok r)"

locale lane_update = row_update +
  assumes keeps_lane_ok: "guard r \<Longrightarrow> lane_ok r \<Longrightarrow> lane_ok (upd r)"
begin

lemma keeps_lanes_ok: "lanes_ok db \<Longrightarrow> lanes_ok (update_rows guard upd db)"
  by (auto simp: lanes_ok_def proxies_update_rows keeps_lane_ok)

end

interpretation geo: lane_update "\<lambda>r. r_id r = i" "write_geo s" for i s
  by unfold_locales (simp_all add: lane_ok_def write_geo_def)

interpretation geo_full: lane_update "\<lambda>r. r_id r = i" "\<lambda>r. (write_geo s r)\<lparr>r_resolved_ip := Some ip\<rparr>"
  for i s ip
  by unfold_locales (simp_all add: lane_ok_def write_geo_def)

interpretation revive: lane_update g "revive_row now" for g now
  by unfold_locales (auto simp: lane_ok_def revive_row_def reset_set_def)

interpretation unfreeze: lane_update "frozen_guard db" "unfreeze_row now" for db now
  by unfold_locales (auto simp: lane_ok_def unfreeze_row_def reset_set_def)

interpretation unquarantine: lane_update "revive_where_guard P Quarantine db" "unquarantine_row now" for P db now
  by unfold_locales (auto simp: lane_ok_def unquarantine_row_def reset_set_def)

interpretation retire: lane_update g "retire_row now" for g now
  by unfold_locales (auto simp: lane_ok_def retire_row_def)

interpretation cleaned: lane_update g "cleanup_row now" for g now
  by unfold_locales (auto simp: lane_ok_def cleanup_row_def)

interpretation dropped: lane_update "ladder_guard i" "drop_row now" for i now
  by unfold_locales (auto simp: lane_ok_def drop_row_def)

interpretation climb: lane_update "ladder_guard i" "climb_row now t k" for i now t k
  by unfold_locales (auto simp: lane_ok_def climb_row_def)

lemma lanes_okI: "(\<And>r. r \<in> set (proxies db) \<Longrightarrow> lane_ok r) \<Longrightarrow> lanes_ok db"
  by (simp add: lanes_ok_def)

lemma kept_row_lane_ok: "kept_row r r' \<Longrightarrow> lane_ok r \<Longrightarrow> lane_ok r'"
  by (auto simp: kept_row_def lifecycle_def lane_ok_def)

lemma mid_lanes_ok:
  assumes "reconcile_mid sha256 source entries now db mid" "lanes_ok db"
  shows "lanes_ok mid"
proof (rule lanes_okI)
  fix r' assume r': "r' \<in> set (proxies mid)"
  from assms(1) obtain db1 where db1: "upserted db db1" "proxies mid = proxies db1"
    by (auto simp: reconcile_mid_def)
  then consider r where "r \<in> set (proxies db)" "kept_row r r'"
    | "r_status r' = Unknown" "r_last_t2_failed_at r' = None"
    using r' by (auto simp: upserted_def)
  then show "lane_ok r'"
  proof cases
    case 1
    then show ?thesis using assms(2) kept_row_lane_ok by (auto simp: lanes_ok_def)
  qed (simp add: lane_ok_def)
qed

lemma reconcile_lanes_ok:
  assumes "reconcile_source sha256 to_text source entries geo now linger db = Inr (stats', db')"
    and "wf_db db" "lanes_ok db"
  shows "lanes_ok db'"
proof -
  from reconcile_Inr [OF assms(1,2)] obtain mid stats where
    s: "sweep source now linger stats mid = (stats', db')" and m: "reconcile_mid sha256 source entries now db mid" .
  have "lanes_ok mid" using mid_lanes_ok [OF m assms(3)] .
  with retire.keeps_lanes_ok [of mid "retire_guard mid source now" now] show ?thesis
    by (cases linger) (simp_all add: lanes_ok_def sweep_result(1) [OF s] proxies_update_rows)
qed

lemma revive_loop_lanes_ok: "lanes_ok db \<Longrightarrow> lanes_ok (snd (revive_loop cs now acc db))"
proof (induction cs now acc db rule: revive_loop.induct)
  case (2 chunk rest now acc db)
  have "lanes_ok (update_rows (revive_fps_guard db chunk) (revive_row now) db)"
    using 2(2) by (simp add: revive.keeps_lanes_ok)
  with 2(1) show ?case by (simp add: update_returning_def)
qed simp

lemma enqueue_loop_proxies: "proxies (snd (enqueue_loop cs q rem now db)) = proxies db"
proof (induction cs q rem now db rule: enqueue_loop.induct)
  case (2 chunk rest queued remaining now db)
  then show ?case by (simp add: enqueue_chunk_def Let_def)
qed simp

lemma enqueue_lanes_ok [simp]: "lanes_ok (snd (enqueue_checks ids lim now db)) = lanes_ok db"
  by (simp add: lanes_ok_def enqueue_checks_def enqueue_loop_proxies)

lemma lanes_ok_cong: "proxies db' = proxies db \<Longrightarrow> lanes_ok db' = lanes_ok db"
  by (simp add: lanes_ok_def)

lemma admin_step_lanes_ok: "admin_step db db' \<Longrightarrow> wf_db db \<Longrightarrow> lanes_ok db \<Longrightarrow> lanes_ok db'"
proof (induction rule: admin_step.induct)
  case (ingest sha256 to_text source entries geo now linger db stats db')
  then show ?case using reconcile_lanes_ok by blast
next
  case (reset db i now)
  then show ?case by (simp add: reset_status_def Let_def enqueue_lanes_ok revive.keeps_lanes_ok)
next
  case (purge db)
  then show ?case by (auto simp: purge_removed_def Let_def lanes_ok_def)
qed (simp_all add: enqueue_lanes_ok revive_removed_def revive_loop_lanes_ok
      revive_removed_by_country_def revive_removed_by_asn_def revive_removed_without_probe_history_def
      revive_quarantine_def update_returning_def Let_def
      revive.keeps_lanes_ok unfreeze.keeps_lanes_ok unquarantine.keeps_lanes_ok
      update_geo_def update_geo_full_def geo.keeps_lanes_ok geo_full.keeps_lanes_ok
      mark_orphans_removed_def retire.keeps_lanes_ok
      cleanup_def quarantine_to_removed_def remove_alive_without_country_def remove_alive_by_asn_def
      remove_alive_by_country_def remove_unprobeable_unknown_def cleaned.keeps_lanes_ok,
     simp_all add: lanes_ok_def claim_checks_def purge_settled_checks_def purge_requests_before_def
      purge_before_def insert_result_def delete_source_links_def Let_def)

text \<open>An update of one row keeps the lanes when the new row is in order.\<close>

lemma one_row_lanes_ok:
  assumes "wf_db db" "lanes_ok db" "get_by_id db i = Some r" "\<And>r. g r \<Longrightarrow> r_id r = i" "g r \<Longrightarrow> lane_ok (u r)"
  shows "lanes_ok (update_rows g u db)"
proof (rule lanes_okI)
  fix r' assume "r' \<in> set (proxies (update_rows g u db))"
  then obtain r0 where r0: "r0 \<in> set (proxies db)" "r' = (if g r0 then u r0 else r0)"
    by (auto simp: proxies_update_rows)
  show "lane_ok r'"
  proof (cases "g r0")
    case True
    then have "get_by_id db i = Some r0" using assms(4) [OF True] r0(1) get_by_id_iff [OF assms(1)] by simp
    then show ?thesis using assms(3,5) r0(2) True by simp
  next
    case False
    then show ?thesis using assms(2) r0 by (simp add: lanes_ok_def)
  qed
qed

lemmas scheme_lists = T1_EXCLUDED_SCHEMES_def T2_SCHEMES_def T2_REVIVAL_SCHEMES_def

lemma succeed_lane_ok:
  assumes "lane_ok r" "st = Alive \<and> (t1_lane db r \<or> queueable db r \<and> r_last_t2_failed_at r = None \<or> due_t1 now r) \<or>
      st = Ready \<and> (t2_lane db r \<or> due_t2 now r)"
  shows "lane_ok (succeed_row now lat rst st r)"
  using assms
  by (auto simp: lane_ok_def succeed_row_def t1_lane_def t2_lane_def due_t1_def due_t2_def due_def scheme_lists queueable_def)

lemma failed_lane_ok:
  assumes "lane_ok r" "mark \<Longrightarrow> t2_lane db r"
  shows "lane_ok (failed_row draw now lim min_secs spread mark r)"
  using assms by (auto simp: lane_ok_def failed_row_def quarantine_row_def fail_row_def t2_lane_def scheme_lists)

lemma engine_lane_ok: "lane_ok r \<Longrightarrow> t2_lane db r \<Longrightarrow> lane_ok (engine_row now r)"
  by (auto simp: lane_ok_def engine_row_def t2_lane_def scheme_lists)

lemma check_failed_lanes_ok:
  assumes "wf_db db" "lanes_ok db" "get_by_id db i = Some r" "mark \<Longrightarrow> t2_lane db r"
  shows "lanes_ok (snd (check_failed draw i now lim min_secs spread mark db))"
proof -
  have "lane_ok r" using assms(1-3) get_by_id_iff by (auto simp: lanes_ok_def)
  then have "lane_ok (failed_row draw now lim min_secs spread mark r)"
    using assms(4) by (rule failed_lane_ok)
  with one_row_lanes_ok [OF assms(1-3), of "live_guard i" "failed_row draw now lim min_secs spread mark"]
  show ?thesis using assms(2,3)
    by (simp add: check_failed_eq [OF assms(1)] live_guard_def)
qed

lemma lane_step_lanes_ok: "lane_step db db' \<Longrightarrow> wf_db db \<Longrightarrow> lanes_ok db \<Longrightarrow> lanes_ok db'"
proof (induction rule: lane_step.induct)
  case (t1_ok db i r now lat rst)
  then have "lane_ok r" using get_by_id_iff by (auto simp: lanes_ok_def)
  then have "lane_ok (succeed_row now lat rst Alive r)"
    using t1_ok(2) by (intro succeed_lane_ok) auto
  with t1_ok show ?case
    by (simp add: check_succeeded_def) (rule one_row_lanes_ok [of db i r], simp_all add: succeed_guard_def)
next
  case (t2_ok db i r now lat rst)
  then have "lane_ok r" using get_by_id_iff by (auto simp: lanes_ok_def)
  then have "lane_ok (succeed_row now lat rst Ready r)"
    using t2_ok(2) by (intro succeed_lane_ok) auto
  with t2_ok show ?case
    by (simp add: check_succeeded_def) (rule one_row_lanes_ok [of db i r], simp_all add: succeed_guard_def)
next
  case (t1_fail db i r draw now lim min_secs spread)
  from t1_fail(3,4,1) show ?case by (rule check_failed_lanes_ok) simp
next
  case (t2_fail db i r draw now lim min_secs spread)
  from t2_fail(3,4,1) show ?case by (rule check_failed_lanes_ok) (rule t2_fail(2))
next
  case (t2_down db i r now)
  then have "lane_ok r" using get_by_id_iff by (auto simp: lanes_ok_def)
  with t2_down have "lane_ok (engine_row now r)" using engine_lane_ok by blast
  with t2_down show ?case
    by (simp add: check_engine_unavailable_def) (rule one_row_lanes_ok [of db i r], simp_all add: live_guard_def)
next
  case (due_fail db i r now delays)
  then show ?case by (simp add: quarantine_check_failed_def Let_def dropped.keeps_lanes_ok climb.keeps_lanes_ok)
qed

lemma lane_reachable_lanes_ok: "lane_reachable db \<Longrightarrow> lanes_ok db"
proof (induction rule: lane_reachable.induct)
  case lane_start
  show ?case by (simp add: lanes_ok_def empty_db_def)
next
  case (lane_admin db db')
  then show ?case
    using reachable_sound_db [OF lane_reachable_reachable] admin_step_lanes_ok by (auto simp: sound_db_def)
next
  case (lane_verdict db db')
  then show ?case
    using reachable_sound_db [OF lane_reachable_reachable] lane_step_lanes_ok by (auto simp: sound_db_def)
qed

text \<open>A row in order is drawn by a lane, now or once its recheck is due.\<close>

lemma lane_ok_drawn:
  assumes "row_ok r" "lane_ok r" "r_status r \<noteq> Removed" "linked db (r_id r)" "r_scheme r \<notin> {Tuic, Mieru}"
  shows "t1_lane db r \<or> t2_lane db r \<or>
    (\<exists>t. r_ladder_at r = Some t \<and> (\<forall>now. due_t1 now r \<or> due_t2 now r \<longleftrightarrow> t \<le> now))"
proof (cases "r_status r = Quarantine")
  case True
  then obtain t where "r_ladder_at r = Some t" using assms(1) by (auto simp: row_ok_def)
  with True show ?thesis by (auto simp: due_t1_def due_t2_def due_def)
next
  case False
  then have "r_status r \<in> {Unknown, Alive, Ready}" using assms(3) by (cases "r_status r") auto
  then show ?thesis
    using assms(2,4,5) by (auto simp: lane_ok_def t1_lane_def t2_lane_def scheme_lists)
qed

section \<open>The window sample\<close>

lemma window_rows:
  fixes shuffle :: "ProxyRow list \<Rightarrow> ProxyRow list" and P :: "ProxyRow \<Rightarrow> bool"
  assumes "wf_db db" "\<And>xs. mset (shuffle xs) = mset xs"
  defines "elig \<equiv> filter P (proxies db)"
  shows "set (select_window_sample shuffle anchor P lim db) \<subseteq> set elig \<and>
    distinct (select_window_sample shuffle anchor P lim db) \<and>
    length (select_window_sample shuffle anchor P lim db) = min lim (length elig)"
proof (cases "lim = 0")
  case True
  then show ?thesis by (simp add: select_window_sample_def)
next
  case False
  define up where "up = sort_key r_id (filter (\<lambda>r. P r \<and> r_id r \<ge> anchor) (proxies db))"
  define lo where "lo = rev (sort_key r_id (filter (\<lambda>r. P r \<and> r_id r < anchor) (proxies db)))"
  define w where "w = lim * SAMPLE_WINDOW_FACTOR"
  define rows where "rows = (if length (take w up) < lim \<and> anchor > 0 then take w up @ take w lo else take w up)"
  have eq: "select_window_sample shuffle anchor P lim db = take lim (shuffle rows)"
    using False by (simp add: select_window_sample_def fetch_window_leg_def up_def lo_def w_def rows_def Let_def)
  have w: "lim \<le> w" by (simp add: w_def SAMPLE_WINDOW_FACTOR_def)
  have d: "distinct (proxies db)" using assms(1) by (auto simp: wf_db_def distinct_map)
  have sets: "set up = {r \<in> set elig. r_id r \<ge> anchor}" "set lo = {r \<in> set elig. r_id r < anchor}"
    by (auto simp: up_def lo_def elig_def)
  have dup: "distinct up" "distinct lo" "distinct elig" using d by (simp_all add: up_def lo_def elig_def)
  have "set elig = set up \<union> set lo" "set up \<inter> set lo = {}" by (auto simp: sets)
  then have len: "length elig = length up + length lo"
    using dup by (metis card_Un_disjoint distinct_card finite_set)
  have z: "lo = []" if "anchor = 0" using that by (simp add: lo_def)
  have "set rows \<subseteq> set elig"
    using set_take_subset [of w up] set_take_subset [of w lo] by (auto simp: rows_def sets)
  moreover have "distinct rows"
  proof -
    have "set (take w up) \<inter> set (take w lo) = {}"
      by (auto simp: sets dest!: in_set_takeD)
    then show ?thesis using dup by (simp add: rows_def)
  qed
  moreover have "min lim (length rows) = min lim (length elig)"
    using len z w by (auto simp: rows_def)
  moreover have "set (shuffle rows) = set rows" "length (shuffle rows) = length rows" "distinct (shuffle rows) = distinct rows"
    using assms(2) [of rows] mset_eq_setD mset_eq_length mset_eq_imp_distinct_iff by blast+
  ultimately show ?thesis
    unfolding eq using set_take_subset [of lim "shuffle rows"] by (auto simp: min.commute)
qed

lemma take_rev_sorted: "take w (x # xs) = x # take (w - 1) xs" if "w > 0"
  using that by (cases w) simp_all

text \<open>Anchored at its own id, an eligible row is in the window, so some shuffle draws it.\<close>

lemma window_draws:
  assumes "wf_db db" "r \<in> set (proxies db)" "P r" "0 < lim"
  shows "\<exists>shuffle. (\<forall>xs. mset (shuffle xs) = mset xs) \<and>
    r \<in> set (select_window_sample shuffle (r_id r) P lim db)"
proof -
  define up where "up = sort_key r_id (filter (\<lambda>s. P s \<and> r_id s \<ge> r_id r) (proxies db))"
  have "r \<in> set up" using assms(2,3) by (simp add: up_def)
  then obtain u us where up: "up = u # us" by (cases up) auto
  have "sorted (map r_id up)" by (simp add: up_def)
  then have "r_id u \<le> r_id r" using \<open>r \<in> set up\<close> by (auto simp: up)
  moreover have "u \<in> set up" using up by simp
  ultimately have "u \<in> set (proxies db)" "r_id u = r_id r" by (auto simp: up_def)
  then have "u = r" using get_by_id_iff [OF assms(1)] assms(2) by (metis option.inject)
  have w: "0 < lim * SAMPLE_WINDOW_FACTOR" using assms(4) by (simp add: SAMPLE_WINDOW_FACTOR_def)
  have "r \<in> set (select_window_sample (\<lambda>xs. xs) (r_id r) P lim db)"
    using assms(4) up \<open>u = r\<close> w
    by (simp add: select_window_sample_def fetch_window_leg_def up_def [symmetric] Let_def take_rev_sorted)
  then show ?thesis by (intro exI [of _ "\<lambda>xs. xs"]) simp
qed

section \<open>The T2 sample\<close>

lemma t2_sample:
  "mset (select_t2_candidates lim db) \<subseteq># mset (filter (t2_lane db) (proxies db)) \<and>
   length (select_t2_candidates lim db) = min lim (length (filter (t2_lane db) (proxies db))) \<and>
   (\<forall>r \<in> set (select_t2_candidates lim db). \<forall>s \<in> set (proxies db). t2_lane db s \<longrightarrow>
      s \<notin> set (select_t2_candidates lim db) \<longrightarrow> last_t2_check db (r_id r) \<le> last_t2_check db (r_id s))"
proof -
  define xs where "xs = sort_key (\<lambda>r. last_t2_check db (r_id r)) (sort_key r_id (filter (t2_lane db) (proxies db)))"
  have sel: "select_t2_candidates lim db = take lim xs" by (simp add: select_t2_candidates_def xs_def)
  have m: "mset xs = mset (filter (t2_lane db) (proxies db))" by (simp add: xs_def)
  have st: "set xs = {r \<in> set (proxies db). t2_lane db r}" by (simp add: xs_def)
  have "mset xs = mset (take lim xs) + mset (drop lim xs)" by (metis append_take_drop_id mset_append)
  then have "mset (take lim xs) \<subseteq># mset (filter (t2_lane db) (proxies db))"
    using m by (metis mset_subset_eq_add_left)
  moreover have "length (take lim xs) = min lim (length (filter (t2_lane db) (proxies db)))"
    using m mset_eq_length by (metis length_take min.commute)
  moreover have "last_t2_check db (r_id r) \<le> last_t2_check db (r_id s)"
    if "r \<in> set (take lim xs)" "s \<in> set (proxies db)" "t2_lane db s" "s \<notin> set (take lim xs)" for r s
  proof -
    have "s \<in> set xs" using that st by blast
    then have "s \<in> set (drop lim xs)" using that(4) by (metis Un_iff append_take_drop_id set_append)
    moreover have "sorted (map (\<lambda>r. last_t2_check db (r_id r)) (take lim xs) @
        map (\<lambda>r. last_t2_check db (r_id r)) (drop lim xs))"
      unfolding map_append [symmetric] append_take_drop_id by (simp add: xs_def)
    ultimately show ?thesis using that(1) by (auto simp: sorted_append)
  qed
  ultimately show ?thesis unfolding sel by blast
qed

end
