(* ===== verification/Lifecycle_Properties.thy ===== *)
theory Lifecycle_Properties
  imports Lifecycle_Safety
begin

text \<open>
  The properties of the proxy lifecycle, each with a witness on a small database.
\<close>

section \<open>Small databases\<close>

definition sample_row :: "nat \<Rightarrow> Scheme \<Rightarrow> ProxyStatus \<Rightarrow> ProxyRow" where
  "sample_row i sch st =
     \<lparr>r_id = i, r_fingerprint = dec_nat i, r_scheme = sch, r_name = [], r_host = ''h'', r_port = 1,
      r_credential = [], r_params = None, r_unknown_params = None, r_raw_line = None,
      r_geo_country = None, r_geo_city = None, r_geo_asn = None, r_resolved_ip = None, r_status = st,
      r_fail_count = 0, r_last_checked_at = None, r_last_alive_at = None,
      r_quarantined_at = (if st = Quarantine then Some 0 else None),
      r_ladder_at = (if st = Quarantine then Some 0 else None), r_ladder_step = 0,
      r_removed_at = (if st = Removed then Some 0 else None), r_latency_ms = None,
      r_last_t2_failed_at = None, r_created_at = 0, r_updated_at = 0\<rparr>"

definition sample_db :: "(Scheme \<times> ProxyStatus) list \<Rightarrow> Db" where
  "sample_db xs = \<lparr>proxies = map (\<lambda>i. sample_row (Suc i) (fst (xs ! i)) (snd (xs ! i))) [0..<length xs],
     links = map (\<lambda>i. \<lparr>l_proxy = Suc i, l_source = ''a'', l_seen_at = 0\<rparr>) [0..<length xs],
     results = [], requests = [], next_id = Suc (length xs)\<rparr>"

lemma sample_row_fields [simp]:
  "r_id (sample_row i s st) = i" "r_fingerprint (sample_row i s st) = dec_nat i"
  "r_scheme (sample_row i s st) = s" "r_status (sample_row i s st) = st" "r_fail_count (sample_row i s st) = 0"
  "r_ladder_step (sample_row i s st) = 0" "r_last_t2_failed_at (sample_row i s st) = None"
  "row_ok (sample_row i s st)"
  by (auto simp: sample_row_def row_ok_def)

lemma sample_sound: "sound_db (sample_db xs)"
proof -
  have p: "map r_id (proxies (sample_db xs)) = map Suc [0..<length xs]"
    by (simp add: sample_db_def)
  have f: "map r_fingerprint (proxies (sample_db xs)) = map (\<lambda>i. dec_nat (Suc i)) [0..<length xs]"
    by (simp add: sample_db_def)
  have "inj_on (\<lambda>i. dec_nat (Suc i)) (set [0..<length xs])"
    by (rule inj_onI) (metis dec_nat_inj nat.inject)
  then have "distinct (map r_fingerprint (proxies (sample_db xs)))" unfolding f by (simp add: distinct_map)
  moreover have "distinct (map r_id (proxies (sample_db xs)))" unfolding p by (simp add: distinct_map)
  moreover have ids: "r_id ` set (proxies (sample_db xs)) = Suc ` {0..<length xs}"
    using arg_cong [OF p, of set] by simp
  moreover have "\<forall>r \<in> set (proxies (sample_db xs)). r_id r < next_id (sample_db xs)"
    by (simp add: sample_db_def)
  moreover have "\<forall>r \<in> set (proxies (sample_db xs)). row_ok r"
    by (auto simp: sample_db_def)
  ultimately show ?thesis
    unfolding sound_db_def wf_db_def rows_ok_def
    by (simp add: sample_db_def distinct_map inj_on_def image_image)
qed

lemma sample_get:
  assumes "k < length xs"
  shows "get_by_id (sample_db xs) (Suc k) = Some (sample_row (Suc k) (fst (xs ! k)) (snd (xs ! k)))"
proof -
  have "sample_row (Suc k) (fst (xs ! k)) (snd (xs ! k)) \<in> set (proxies (sample_db xs))"
    using assms by (simp add: sample_db_def)
  then show ?thesis
    using get_by_id_iff sample_sound by (simp add: sound_db_def)
qed

text \<open>The database after one source has delivered one entry.\<close>

definition first_db :: "(string \<Rightarrow> string) \<Rightarrow> (json_params \<Rightarrow> string) \<Rightarrow> string \<Rightarrow> ProxyEntry \<Rightarrow> int \<Rightarrow> Db" where
  "first_db sha256 to_text source e now =
     \<lparr>proxies = [new_row to_text now (fingerprint sha256 e) e no_stamp 1],
      links = [\<lparr>l_proxy = 1, l_source = source, l_seen_at = now\<rparr>], results = [], requests = [], next_id = 2\<rparr>"

lemma ingest_one:
  "\<exists>stats. reconcile_source sha256 to_text source [e] [] now True empty_db = Inr (stats, first_db sha256 to_text source e now)"
proof -
  have "stamped sha256 [e] [] = [(fingerprint sha256 e, e, no_stamp)]" by (simp add: stamped_def)
  then show ?thesis
    by (simp add: reconcile_source_def empty_db_def get_by_fingerprint_def upsert_one_def sweep_def stamp_link_def
        unlink_guard_def stale_link_def first_db_def Let_def)
qed

lemma first_lane_reachable: "lane_reachable (first_db sha256 to_text source e now)"
  using ingest_one [of sha256 to_text source e now]
  by (auto intro: lane_reachable.lane_admin [OF lane_reachable.lane_start admin_step.ingest])

lemma first_row:
  "get_by_id (first_db sha256 to_text source e now) 1 = Some (new_row to_text now (fingerprint sha256 e) e no_stamp 1)"
  "linked (first_db sha256 to_text source e now) 1"
  by (simp_all add: first_db_def get_by_id_def linked_def)

definition sample_entry :: ProxyEntry where
  "sample_entry = \<lparr>pe_scheme = Vless, pe_name = [], pe_host = ''h'', pe_port = 443, pe_credential = ''u'',
     pe_params = [], pe_raw_path = [], pe_raw_line = []\<rparr>"

section \<open>The tables\<close>

text \<open>C22: In every state that ingestion, the admin actions and any verdicts of the probe, however late, lead to,
  the keys of the tables are in order and every row's lifecycle columns agree: a quarantined row has a
  recheck scheduled, a live row has none, exactly the removed rows carry a removal time, and a row of
  the tunnel tier has no outstanding tunnel failure.\<close>

theorem reachable_invariants:
  assumes "reachable db"
  shows "wf_db db \<and> (\<forall>r \<in> set (proxies db). row_ok r)"
  using reachable_sound_db [OF assms] by (simp add: sound_db_def rows_ok_def)

theorem reachable_invariants_witness:
  "\<exists>db. proxies db \<noteq> [] \<and> wf_db db \<and> (\<forall>r \<in> set (proxies db). row_ok r)"
  using reachable_invariants [OF lane_reachable_reachable [OF first_lane_reachable
      [of "\<lambda>s. s" "\<lambda>p. []" "''a''" sample_entry 5]]]
  by (intro exI [of _ "first_db (\<lambda>s. s) (\<lambda>p. []) ''a'' sample_entry 5"]) (simp add: first_db_def)

text \<open>C23: As long as verdicts arrive while their row is still in the lane it was drawn from, no row is lost:
  every linked row that is not removed and has a probeable scheme is drawn by the T1 lane, by the T2
  lane, or by a recheck lane from its scheduled time on.\<close>

theorem no_stranded_row:
  assumes "lane_reachable db" "r \<in> set (proxies db)" "r_status r \<noteq> Removed" "linked db (r_id r)"
    "r_scheme r \<notin> {Tuic, Mieru}"
  shows "t1_lane db r \<or> t2_lane db r \<or>
    (\<exists>t. r_ladder_at r = Some t \<and> (\<forall>now. due_t1 now r \<or> due_t2 now r \<longleftrightarrow> t \<le> now))"
  using lane_ok_drawn [OF _ _ assms(3-5)] assms(2) lane_reachable_lanes_ok [OF assms(1)]
    reachable_sound_db [OF lane_reachable_reachable [OF assms(1)]]
  by (auto simp: sound_db_def rows_ok_def lanes_ok_def)

theorem no_stranded_row_witness:
  "let db = first_db (\<lambda>s. s) (\<lambda>p. []) ''a'' sample_entry 5; r = hd (proxies db) in
   t1_lane db r \<or> t2_lane db r \<or>
    (\<exists>t. r_ladder_at r = Some t \<and> (\<forall>now. due_t1 now r \<or> due_t2 now r \<longleftrightarrow> t \<le> now))"
  unfolding Let_def
  by (rule no_stranded_row [OF first_lane_reachable])
     (simp_all add: first_db_def linked_def new_row_def sample_entry_def)

text \<open>A verdict never brings a removed row back: whatever checks were in flight, and however many of them
  report, the row stays exactly as the removal left it.\<close>

theorem removed_final_for_verdicts:
  assumes "verdict_step\<^sup>*\<^sup>* db db'" "reachable db" "get_by_id db j = Some r" "r_status r = Removed"
  shows "get_by_id db' j = Some r"
proof -
  have "reachable db' \<and> get_by_id db' j = Some r"
    using assms(1)
  proof (induction rule: rtranclp_induct)
    case (step db1 db2)
    then have "wf_db db1" using reachable_sound_db by (auto simp: sound_db_def)
    with step verdict_removed [OF step(2) this _ assms(4)] show ?case by (auto intro: reachable.intros)
  qed (use assms in simp)
  then show ?thesis by simp
qed

definition removed_db :: Db where
  "removed_db = snd (quarantine_check_failed 1 50 0 [] (snd (check_failed 0 1 9 1 3 0 False
     (first_db (\<lambda>s. s) (\<lambda>p. []) ''a'' sample_entry 5))))"

lemma removed_db_reachable: "reachable removed_db"
  unfolding removed_db_def
  by (intro reachable.verdict [OF _ verdict_step.recheck_failed] reachable.verdict [OF _ verdict_step.failed]
      lane_reachable_reachable first_lane_reachable)

theorem removed_final_for_verdicts_witness:
  "\<exists>r. r_status r = Removed \<and>
     get_by_id (snd (check_succeeded 1 60 None True Ready (snd (check_failed 0 1 55 3 4 0 True removed_db)))) 1 = Some r"
proof -
  let ?db = "first_db (\<lambda>s. s) (\<lambda>p. []) ''a'' sample_entry 5"
  have wf: "wf_db ?db"
    using reachable_sound_db [OF lane_reachable_reachable [OF first_lane_reachable]] by (simp add: sound_db_def)
  obtain r where r: "get_by_id removed_db 1 = Some r" "r_status r = Removed"
    unfolding removed_db_def
    by (simp add: get_ladder get_check_failed [OF wf] first_row [simplified] live_guard_def live_def failed_row_def
        quarantine_row_def ladder_guard_def drop_row_def new_row_def)
  have "verdict_step\<^sup>*\<^sup>* removed_db (snd (check_succeeded 1 60 None True Ready (snd (check_failed 0 1 55 3 4 0 True removed_db))))"
    by (rule converse_rtranclp_into_rtranclp
        [where r = verdict_step, OF verdict_step.failed r_into_rtranclp [where r = verdict_step, OF verdict_step.succeeded]]) simp
  from removed_final_for_verdicts [OF this removed_db_reachable r] r(2) show ?thesis by blast
qed

section \<open>The tunnel-failure block\<close>

lemma block_step:
  assumes "verdict_step db db'" "wf_db db" "get_by_id db j = Some r" "r_last_t2_failed_at r \<noteq> None"
  shows "\<exists>r'. get_by_id db' j = Some r' \<and> (r_last_t2_failed_at r' \<noteq> None \<or> r_status r' = Ready)"
  using assms(1)
  by cases (use assms(2-4) in \<open>auto simp: get_check_succeeded get_check_failed get_engine get_ladder
      succeed_row_def failed_row_def quarantine_row_def fail_row_def engine_row_def climb_row_def drop_row_def\<close>)

text \<open>Among the verdicts of the probe only a passed tunnel check lifts an outstanding tunnel failure: when a
  row has one before a run of verdicts and none after, some state in between has the row in the tunnel
  tier. No number of passed TCP checks does it.\<close>

theorem only_ready_lifts_block:
  assumes "verdict_step\<^sup>*\<^sup>* db db'" "reachable db" "get_by_id db j = Some r" "r_last_t2_failed_at r \<noteq> None"
    and "get_by_id db' j = Some r'" "r_last_t2_failed_at r' = None"
  shows "\<exists>db1 r1. verdict_step\<^sup>*\<^sup>* db db1 \<and> verdict_step\<^sup>*\<^sup>* db1 db' \<and> get_by_id db1 j = Some r1 \<and> r_status r1 = Ready"
proof -
  have "reachable db' \<and> ((\<exists>r'. get_by_id db' j = Some r' \<and> r_last_t2_failed_at r' \<noteq> None) \<or>
      (\<exists>db1 r1. verdict_step\<^sup>*\<^sup>* db db1 \<and> verdict_step\<^sup>*\<^sup>* db1 db' \<and> get_by_id db1 j = Some r1 \<and> r_status r1 = Ready))"
    using assms(1)
  proof (induction rule: rtranclp_induct)
    case base
    then show ?case using assms(2-4) by blast
  next
    case (step db1 db2)
    from step have r1: "reachable db1" by blast
    then have wf: "wf_db db1" using reachable_sound_db by (auto simp: sound_db_def)
    have r2: "reachable db2" using r1 step(2) by (rule reachable.verdict)
    from step(3) consider
        (blocked) r1 where "get_by_id db1 j = Some r1" "r_last_t2_failed_at r1 \<noteq> None"
      | (lifted) dbm rm where "verdict_step\<^sup>*\<^sup>* db dbm" "verdict_step\<^sup>*\<^sup>* dbm db1"
          "get_by_id dbm j = Some rm" "r_status rm = Ready" by blast
    then show ?case
    proof cases
      case blocked
      from block_step [OF step(2) wf this] obtain r' where
        "get_by_id db2 j = Some r'" "r_last_t2_failed_at r' \<noteq> None \<or> r_status r' = Ready" by blast
      moreover have "verdict_step\<^sup>*\<^sup>* db db2" using step(1,2) by (rule rtranclp.rtrancl_into_rtrancl)
      ultimately show ?thesis using r2 by blast
    next
      case lifted
      then show ?thesis using r2 step(2) by (meson rtranclp.rtrancl_into_rtrancl)
    qed
  qed
  then show ?thesis using assms(5,6) by auto
qed

definition blocked_db :: Db where
  "blocked_db = snd (check_engine_unavailable 1 9 (first_db (\<lambda>s. s) (\<lambda>p. []) ''a'' sample_entry 5))"

theorem only_ready_lifts_block_witness:
  "\<exists>db1 r1. verdict_step\<^sup>*\<^sup>* blocked_db db1 \<and>
     verdict_step\<^sup>*\<^sup>* db1 (snd (check_failed 0 1 60 9 3 0 False (snd (check_succeeded 1 20 None True Ready blocked_db)))) \<and>
     get_by_id db1 1 = Some r1 \<and> r_status r1 = Ready"
proof -
  let ?db = "first_db (\<lambda>s. s) (\<lambda>p. []) ''a'' sample_entry 5"
  let ?ok = "snd (check_succeeded 1 20 None True Ready blocked_db)"
  let ?fin = "snd (check_failed 0 1 60 9 3 0 False ?ok)"
  have reach: "reachable blocked_db"
    unfolding blocked_db_def
    by (intro reachable.verdict [OF _ verdict_step.engine_down] lane_reachable_reachable first_lane_reachable)
  have wf: "wf_db ?ok"
    using reachable_sound_db [OF reachable.verdict [OF reach verdict_step.succeeded]] by (simp add: sound_db_def)
  have steps: "verdict_step\<^sup>*\<^sup>* blocked_db ?fin"
    by (rule converse_rtranclp_into_rtranclp
        [where r = verdict_step, OF verdict_step.succeeded r_into_rtranclp [where r = verdict_step, OF verdict_step.failed]]) simp
  obtain r where r: "get_by_id blocked_db 1 = Some r" "r_last_t2_failed_at r \<noteq> None"
      "r_id r = 1" "r_status r = Unknown"
    unfolding blocked_db_def
    by (simp add: get_engine first_row live_guard_def live_def engine_row_def new_row_def del: One_nat_def)
  have ok: "get_by_id ?ok 1 = Some (succeed_row 20 None True Ready r)"
    using r by (simp add: get_check_succeeded succeed_guard_def del: One_nat_def)
  have "get_by_id ?fin 1 = Some (fail_row 1 60 False (succeed_row 20 None True Ready r))"
    using ok r(3) by (simp add: get_check_failed [OF wf] live_guard_def live_def failed_row_def succeed_row_def del: One_nat_def)
  moreover have "r_last_t2_failed_at (fail_row 1 60 False (succeed_row 20 None True Ready r)) = None"
    by (simp add: fail_row_def succeed_row_def)
  ultimately show ?thesis using only_ready_lifts_block [OF steps reach r(1,2)] by blast
qed

section \<open>Counters\<close>

text \<open>A live row is quarantined by exactly the failure that makes its counter reach the limit: after every
  shorter run of failed checks it is still live (and out of the tunnel tier), and the next failure
  quarantines it with the ladder at step 0 and the second chance scheduled.\<close>

theorem quarantine_at_limit:
  assumes "sound_db db" "get_by_id db i = Some r" "live r"
    and "r_fail_count r + int (length fs) + 1 = int lim"
  shows "(\<exists>r'. get_by_id (fail_run fs i lim min_secs spread mark db) i = Some r' \<and> live r' \<and>
      (fs \<noteq> [] \<longrightarrow> r_status r' \<noteq> Ready)) \<and>
    (\<exists>r'. get_by_id (fail_run (fs @ [(draw, now)]) i lim min_secs spread mark db) i = Some r' \<and>
      r_status r' = Quarantine \<and> r_fail_count r' = int lim \<and> r_ladder_step r' = 0 \<and>
      r_ladder_at r' = Some (now + min_secs + (if spread > 0 then draw else 0)))"
proof
  have "r_fail_count r + int (length fs) < int lim" using assms(4) by simp
  from fail_run_below [OF assms(1-3) this, of min_secs spread mark]
  show "\<exists>r'. get_by_id (fail_run fs i lim min_secs spread mark db) i = Some r' \<and> live r' \<and>
      (fs \<noteq> [] \<longrightarrow> r_status r' \<noteq> Ready)" by blast
qed (rule fail_run_limit [OF assms])

theorem quarantine_at_limit_witness:
  "let db = sample_db [(Vless, Ready)] in
    (\<exists>r'. get_by_id (fail_run [(0, 10), (0, 20)] 1 3 60 0 True db) 1 = Some r' \<and> live r' \<and>
      ([(0::int, 10::int), (0, 20)] \<noteq> [] \<longrightarrow> r_status r' \<noteq> Ready)) \<and>
    (\<exists>r'. get_by_id (fail_run ([(0, 10), (0, 20)] @ [(0, 30)]) 1 3 60 0 True db) 1 = Some r' \<and>
      r_status r' = Quarantine \<and> r_fail_count r' = int 3 \<and> r_ladder_step r' = 0 \<and>
      r_ladder_at r' = Some (30 + 60 + (if (0::int) > 0 then 0 else 0)))"
  unfolding Let_def
  by (rule quarantine_at_limit [OF sample_sound, where r = "sample_row 1 Vless Ready"])
     (simp_all add: sample_get [of 0, simplified] live_def)

text \<open>A quarantined row that waits on step k of a ladder of n delays is removed by exactly its (n - k + 1)-th
  failed recheck: each earlier failure moves it one step up and schedules the next recheck by that
  step's delay, and a finite ladder therefore always ends.\<close>

theorem ladder_ends:
  assumes "get_by_id db i = Some r" "r_status r = Quarantine" "r_ladder_step r = int k"
    and "k + length nows = length delays"
  shows "(\<exists>r'. get_by_id (ladder_run i delays nows db) i = Some r' \<and> r_status r' = Quarantine \<and>
      r_ladder_step r' = int (length delays) \<and>
      (nows \<noteq> [] \<longrightarrow> r_ladder_at r' = Some (last nows + max (last delays) 0))) \<and>
    (\<exists>r'. get_by_id (ladder_run i delays (nows @ [now]) db) i = Some r' \<and> r_status r' = Removed \<and>
      r_removed_at r' = Some now)"
proof
  from ladder_run_below [OF assms(1-3), of nows delays] assms(4) obtain r' where
    r': "get_by_id (ladder_run i delays nows db) i = Some r'" "r_status r' = Quarantine"
      "r_ladder_step r' = int (length delays)"
      "nows \<noteq> [] \<longrightarrow> r_ladder_at r' = Some (last nows + max (delays ! (length delays - 1)) 0)" by auto
  have "last delays = delays ! (length delays - 1)" if "nows \<noteq> []"
    using that assms(4) by (intro last_conv_nth) auto
  with r' show "\<exists>r'. get_by_id (ladder_run i delays nows db) i = Some r' \<and> r_status r' = Quarantine \<and>
      r_ladder_step r' = int (length delays) \<and>
      (nows \<noteq> [] \<longrightarrow> r_ladder_at r' = Some (last nows + max (last delays) 0))" by auto
qed (rule ladder_run_end [OF assms])

theorem ladder_ends_witness:
  "let db = sample_db [(Trojan, Quarantine)] in
    (\<exists>r'. get_by_id (ladder_run 1 [60, 3600] [5, 70] db) 1 = Some r' \<and> r_status r' = Quarantine \<and>
      r_ladder_step r' = int (length [60::int, 3600]) \<and>
      ([5::int, 70] \<noteq> [] \<longrightarrow> r_ladder_at r' = Some (last [5, 70] + max (last [60, 3600]) 0))) \<and>
    (\<exists>r'. get_by_id (ladder_run 1 [60, 3600] ([5, 70] @ [9000]) db) 1 = Some r' \<and> r_status r' = Removed \<and>
      r_removed_at r' = Some 9000)"
  unfolding Let_def
  by (rule ladder_ends [where r = "sample_row 1 Trojan Quarantine" and k = 0])
     (simp_all add: sample_get [of 0, simplified])

section \<open>Reset\<close>

lemma enqueue_proxies [simp]:
  "proxies (snd (enqueue_checks ids lim now db)) = proxies db" "links (snd (enqueue_checks ids lim now db)) = links db"
proof -
  have "proxies (snd (enqueue_loop cs q rem now db)) = proxies db \<and>
      links (snd (enqueue_loop cs q rem now db)) = links db" for cs q rem
  proof (induction cs q rem now db rule: enqueue_loop.induct)
    case (2 chunk rest queued remaining now db)
    then show ?case by (simp add: enqueue_chunk_def Let_def)
  qed simp
  then show "proxies (snd (enqueue_checks ids lim now db)) = proxies db"
    "links (snd (enqueue_checks ids lim now db)) = links db" by (simp_all add: enqueue_checks_def)
qed

lemma linked_cong: "links a = links b \<Longrightarrow> linked a i = linked b i"
  by (simp add: linked_def)

lemma get_reset:
  assumes "get_by_id db i = Some r" "linked db i" "r_scheme r \<notin> set T1_EXCLUDED_SCHEMES \<or> r_scheme r = Hysteria2"
  shows "get_by_id (snd (reset_status i now db)) i = Some (revive_row now r)"
    and "linked (snd (reset_status i now db)) j = linked db j"
proof -
  have same: "get_by_id (snd (enqueue_checks ids lim now d)) j = get_by_id d j"
    "linked (snd (enqueue_checks ids lim now d)) j = linked d j" for ids lim d j
    by (simp_all add: get_by_id_def linked_def)
  have "reset_guard db i r" using assms get_by_id_id [OF assms(1)] by (simp add: reset_guard_def)
  then show "get_by_id (snd (reset_status i now db)) i = Some (revive_row now r)"
    using assms(1) by (simp add: reset_status_def Let_def same revive.get_after)
  show "linked (snd (reset_status i now db)) j = linked db j"
    by (simp add: reset_status_def Let_def same)
qed

text \<open>The manual reset reports success exactly when the row exists, is linked and can be judged; then the row is
  unknown with every counter and schedule cleared and in a regular lane of the probe, and otherwise no
  row changed.\<close>

theorem reset_status_exact:
  assumes "wf_db db" "reset_status i now db = (hit, db')"
  shows "(hit \<longleftrightarrow> (\<exists>r. get_by_id db i = Some r \<and> linked db i \<and> r_scheme r \<notin> {Tuic, Mieru})) \<and>
    (if hit then \<exists>r'. get_by_id db' i = Some r' \<and> r_status r' = Unknown \<and> r_fail_count r' = 0 \<and>
        r_removed_at r' = None \<and> r_ladder_at r' = None \<and> (t1_lane db' r' \<or> t2_lane db' r')
     else db' = db)"
proof -
  define ok where "ok = (\<lambda>r :: ProxyRow. r_scheme r \<notin> set T1_EXCLUDED_SCHEMES \<or> r_scheme r = Hysteria2)"
  have ok: "ok r \<longleftrightarrow> r_scheme r \<notin> {Tuic, Mieru}" for r by (auto simp: ok_def T1_EXCLUDED_SCHEMES_def)
  have g: "reset_guard db i r \<longleftrightarrow> r_id r = i \<and> (linked db i \<and> ok r)" for r
    by (auto simp: reset_guard_def ok_def)
  have rw: "rows_where (reset_guard db i) db =
      (case get_by_id db i of Some r \<Rightarrow> if linked db i \<and> ok r then [r] else [] | None \<Rightarrow> [])"
    unfolding g [abs_def] by (rule rows_where_id [OF assms(1), of i "\<lambda>r. linked db i \<and> ok r"])
  have d: "hit \<longleftrightarrow> rows_where (reset_guard db i) db \<noteq> []"
    using assms(2) by (auto simp: reset_status_def Let_def rows_affected_def split: if_splits)
  have iff: "hit \<longleftrightarrow> (\<exists>r. get_by_id db i = Some r \<and> linked db i \<and> r_scheme r \<notin> {Tuic, Mieru})"
    unfolding d rw using ok by (auto split: option.splits if_splits)
  show ?thesis
  proof (cases hit)
    case True
    with iff obtain r where r: "get_by_id db i = Some r" "linked db i" "r_scheme r \<notin> {Tuic, Mieru}" by blast
    then have "ok r" using ok by simp
    then have "get_by_id db' i = Some (revive_row now r)" "linked db' i"
      using get_reset [OF r(1,2), of now] assms(2) r(2) by (auto simp: ok_def)
    moreover have "t1_lane db' (revive_row now r) \<or> t2_lane db' (revive_row now r)"
      using \<open>linked db' i\<close> get_by_id_id [OF r(1)] r(3)
      by (auto simp: t1_lane_def t2_lane_def revive_row_def reset_set_def scheme_lists)
    ultimately show ?thesis
      using True iff by (auto simp: revive_row_def reset_set_def)
  next
    case False
    then have "\<forall>r \<in> set (proxies db). \<not> reset_guard db i r"
      using d by (simp add: rows_where_def filter_empty_conv)
    then have "update_rows (reset_guard db i) (revive_row now) db = db"
      unfolding update_rows_def by (simp add: map_idI)
    moreover have "rows_affected (reset_guard db i) db = 0" using False d by (simp add: rows_affected_def)
    ultimately have "db' = db" using assms(2) by (simp add: reset_status_def)
    then show ?thesis using False iff by (simp only: if_False simp_thms)
  qed
qed

theorem reset_status_exact_witness:
  "let db = sample_db [(Trojan, Removed), (Tuic, Unknown)] in
   fst (reset_status 1 7 db) \<and> (\<exists>r'. get_by_id (snd (reset_status 1 7 db)) 1 = Some r' \<and> r_status r' = Unknown)"
proof -
  let ?db = "sample_db [(Trojan, Removed), (Tuic, Unknown)]"
  have wf: "wf_db ?db" using sample_sound by (simp add: sound_db_def)
  have l: "linked ?db 1" by (simp add: linked_def sample_db_def)
  show ?thesis
    unfolding Let_def
    using reset_status_exact [OF wf prod.collapse [symmetric], of 1 7] l
      sample_get [of 0 "[(Trojan, Removed), (Tuic, Unknown)]"] by auto
qed

lemma queued_row:
  assumes "c \<in> set (select_queued_checks db n)"
  shows "\<exists>q \<in> set (requests db). \<exists>p. get_by_id db (q_proxy q) = Some p \<and> queueable db p \<and>
    r_last_t2_failed_at p = None \<and> c = t1_candidate p"
proof -
  have mf: "\<exists>x \<in> set xs. f x = Some y" if "y \<in> set (List.map_filter f xs)" for f :: "'a \<Rightarrow> 'b option" and xs y
    using that by (auto simp: map_filter_def)
  from mf [OF in_set_takeD [OF assms [unfolded select_queued_checks_def]]] show ?thesis
    by (fastforce split: option.splits if_splits)
qed

text \<open>C24: A tunnel verdict that arrives after a manual reset strands the row: the failure is written to the fresh
  unknown row, which is then still linked and unknown, but in no lane, never due, and not served from
  the queue, so no check of the probe reaches it until an admin acts again.\<close>

theorem stale_verdict_strands:
  assumes "sound_db db" "get_by_id db i = Some r" "t2_lane db r" "r_scheme r \<noteq> Hysteria2" "1 < lim"
    and db2: "db2 = snd (check_failed draw i later lim min_secs spread True (snd (reset_status i now db)))"
  shows "\<exists>r'. get_by_id db2 i = Some r' \<and> linked db2 i \<and> r_status r' = Unknown \<and>
    \<not> t1_lane db2 r' \<and> \<not> t2_lane db2 r' \<and> (\<forall>t. \<not> due t r') \<and>
    (\<forall>n. i \<notin> t1_id ` set (select_queued_checks db2 n))"
proof -
  let ?db1 = "snd (reset_status i now db)" and ?r1 = "revive_row now r"
  let ?r2 = "fail_row 1 later True ?r1"
  have wf1: "wf_db ?db1"
    using admin_step_sound [OF admin_step.reset assms(1)] by (simp add: sound_db_def)
  have id: "r_id r = i" by (rule get_by_id_id [OF assms(2)])
  have l: "linked db i" and s: "r_scheme r \<notin> set T1_EXCLUDED_SCHEMES"
    using assms(3,4) id by (auto simp: t2_lane_def scheme_lists)
  have g1: "get_by_id ?db1 i = Some ?r1" "linked ?db1 i"
    using get_reset [OF assms(2) l] s l by simp_all
  have r1: "r_id ?r1 = i" "live ?r1" "r_fail_count ?r1 = 0" "r_status ?r1 = Unknown" "r_scheme ?r1 = r_scheme r"
    using id by (simp_all add: revive_row_def reset_set_def live_def)
  have g2: "get_by_id db2 i = Some ?r2"
    unfolding db2 using g1(1) r1 assms(5) by (simp add: get_check_failed [OF wf1] live_guard_def failed_row_def)
  have l2: "linked db2 i"
    unfolding db2 using g1 r1(2) by (simp add: check_failed_eq [OF wf1])
  have r2: "r_id ?r2 = i" "r_status ?r2 = Unknown" "r_last_t2_failed_at ?r2 \<noteq> None" "r_scheme ?r2 \<noteq> Hysteria2"
    using r1 assms(4) by (simp_all add: fail_row_def)
  have "i \<notin> t1_id ` set (select_queued_checks db2 n)" for n
  proof
    assume "i \<in> t1_id ` set (select_queued_checks db2 n)"
    then obtain c where c: "c \<in> set (select_queued_checks db2 n)" "t1_id c = i" by blast
    from queued_row [OF c(1)] obtain q :: ProbeRequest and p where
      qp: "get_by_id db2 (q_proxy q) = Some p" "r_last_t2_failed_at p = None" "c = t1_candidate p" by blast
    then have "r_id p = i" using c(2) by (simp add: t1_candidate_def)
    then have "q_proxy q = i" using get_by_id_id [OF qp(1)] by simp
    then show False using g2 r2(3) qp(1,2) by simp
  qed
  with g2 l2 r2 show ?thesis
    by (intro exI [of _ ?r2]) (simp add: t1_lane_def t2_lane_def due_def)
qed

theorem stale_verdict_strands_witness:
  "let db = sample_db [(Trojan, Ready)]; db2 = snd (check_failed 0 1 20 3 60 0 True (snd (reset_status 1 10 db)))
   in \<exists>r'. get_by_id db2 1 = Some r' \<and> linked db2 1 \<and> r_status r' = Unknown \<and>
    \<not> t1_lane db2 r' \<and> \<not> t2_lane db2 r' \<and> (\<forall>t. \<not> due t r') \<and>
    (\<forall>n. 1 \<notin> t1_id ` set (select_queued_checks db2 n))"
  unfolding Let_def
  by (rule stale_verdict_strands [OF sample_sound, of "[(Trojan, Ready)]" 1 "sample_row 1 Trojan Ready" 3 _ 0 20 60 0 10])
     (simp_all add: sample_get [of 0, simplified] t2_lane_def T2_SCHEMES_def linked_def,
      simp add: sample_db_def)

section \<open>Ingestion\<close>

text \<open>Reconciling one fetch fails only for more geo stamps than entries. Otherwise it keeps the tables in order
  and every entry of the fetch has its row, linked to the source with the time of this fetch.\<close>

theorem reconcile_total:
  assumes "sound_db db"
  shows "case reconcile_source sha256 to_text source entries geo now linger db of
      Inl _ \<Rightarrow> length geo > length entries
    | Inr (stats, db') \<Rightarrow> length geo \<le> length entries \<and> sound_db db' \<and>
        (\<forall>e \<in> set entries. \<exists>r \<in> set (proxies db'). r_fingerprint r = fingerprint sha256 e \<and>
           (\<exists>l \<in> set (links db'). l_proxy l = r_id r \<and> l_source l = source \<and> l_seen_at l = now))"
proof (cases "length geo \<le> length entries")
  case True
  from assms have wf: "wf_db db" "rows_ok db" by (simp_all add: sound_db_def)
  from reconcile_steps [OF True wf(1)] obtain stats db' where
    r: "reconcile_source sha256 to_text source entries geo now linger db = Inr (stats, db')"
    by (metis surj_pair)
  with True reconcile_keeps [OF r wf] reconcile_entries_present [OF r wf(1)] show ?thesis
    by (simp add: sound_db_def)
qed (simp add: reconcile_source_def)

theorem reconcile_total_witness:
  "case reconcile_source (\<lambda>s. s) (\<lambda>p. []) ''b'' [sample_entry] [None] 9 False (sample_db [(Ss, Alive)]) of
      Inl _ \<Rightarrow> length [None :: GeoStamp option] > length [sample_entry]
    | Inr (stats, db') \<Rightarrow> length [None :: GeoStamp option] \<le> length [sample_entry] \<and> sound_db db' \<and>
        (\<forall>e \<in> set [sample_entry]. \<exists>r \<in> set (proxies db'). r_fingerprint r = fingerprint (\<lambda>s. s) e \<and>
           (\<exists>l \<in> set (links db'). l_proxy l = r_id r \<and> l_source l = ''b'' \<and> l_seen_at l = 9))"
  by (rule reconcile_total [OF sample_sound])

text \<open>C30: Without lingering, a fetch removes exactly the rows it no longer lists whose every link is a stale link to
  this source: a row another source still carries, a row the fetch lists and a row without a link all
  keep every lifecycle column.\<close>

theorem reconcile_retires_exactly:
  assumes "reconcile_source sha256 to_text source entries geo now False db = Inr (stats', db')"
    and "sound_db db" "r \<in> set (proxies db)"
  shows "\<exists>r' \<in> set (proxies db'). r_id r' = r_id r \<and>
    (if r_status r \<noteq> Removed \<and> r_fingerprint r \<notin> fingerprint sha256 ` set entries \<and>
        (\<exists>l \<in> set (links db). l_proxy l = r_id r) \<and>
        (\<forall>l \<in> set (links db). l_proxy l = r_id r \<longrightarrow> l_source l = source \<and> l_seen_at l < now)
     then r_status r' = Removed \<and> r_removed_at r' = Some now
     else lifecycle r' = lifecycle r \<and> r_scheme r' = r_scheme r \<and> r_host r' = r_host r \<and>
       r_port r' = r_port r \<and> r_credential r' = r_credential r)"
proof -
  have "wf_db db" using assms(2) by (simp add: sound_db_def)
  from reconcile_row_after [OF assms(1) this assms(3)] show ?thesis
    unfolding stale_link_def by (rule bexE, intro bexI) (auto simp: kept_row_def split: if_splits)
qed

lemma sample_empty_fetch:
  obtains stats db' where "reconcile_source sha256 to_text source [] [] now linger (sample_db xs) = Inr (stats, db')"
proof -
  have wf: "wf_db (sample_db xs)" using sample_sound by (simp add: sound_db_def)
  have "length ([] :: GeoStamp option list) \<le> length ([] :: ProxyEntry list)" by simp
  from reconcile_steps [OF this wf] obtain mid stats where
    r: "reconcile_source sha256 to_text source [] [] now linger (sample_db xs) = Inr (sweep source now linger stats mid)"
    by metis
  obtain stats' db' where "sweep source now linger stats mid = (stats', db')" by fastforce
  with r show thesis by (intro that) simp
qed

theorem reconcile_retires_exactly_witness:
  "let db = sample_db [(Ss, Alive)] in
   \<exists>stats db'. reconcile_source (\<lambda>s. s) (\<lambda>p. []) ''a'' [] [] 9 False db = Inr (stats, db') \<and>
     (\<exists>r' \<in> set (proxies db'). r_id r' = 1 \<and> r_status r' = Removed \<and> r_removed_at r' = Some 9)"
proof -
  let ?db = "sample_db [(Ss, Alive)]" and ?r = "sample_row 1 Ss Alive"
  obtain stats db' where r: "reconcile_source (\<lambda>s. s) (\<lambda>p. []) ''a'' [] [] 9 False ?db = Inr (stats, db')"
    using sample_empty_fetch .
  have "?r \<in> set (proxies ?db)" by (simp add: sample_db_def)
  from reconcile_retires_exactly [OF r sample_sound this] have
    "\<exists>r' \<in> set (proxies db'). r_id r' = 1 \<and> r_status r' = Removed \<and> r_removed_at r' = Some 9"
    by (simp add: sample_db_def [of "[(Ss, Alive)]"])
  with r show ?thesis by auto
qed

text \<open>With lingering, a fetch retires nothing: every row that is not removed and had a link still has one, and no
  lifecycle column changes, whatever the fetch leaves out.\<close>

theorem reconcile_linger_keeps:
  assumes "reconcile_source sha256 to_text source entries geo now True db = Inr (stats', db')"
    and "sound_db db" "r \<in> set (proxies db)" "r_status r \<noteq> Removed" "linked db (r_id r)"
  shows "linked db' (r_id r) \<and> rs_removed stats' = 0 \<and>
    (\<exists>r' \<in> set (proxies db'). r_id r' = r_id r \<and> lifecycle r' = lifecycle r)"
proof -
  have wf: "wf_db db" using assms(2) by (simp add: sound_db_def)
  have "\<exists>r' \<in> set (proxies db'). r_id r' = r_id r \<and> lifecycle r' = lifecycle r"
    using reconcile_row_after [OF assms(1) wf assms(3)] by (auto simp: kept_row_def)
  with reconcile_links_linger [OF assms(1) wf assms(3-5)] show ?thesis by blast
qed

theorem reconcile_linger_keeps_witness:
  "let db = sample_db [(Ss, Alive)] in
   \<exists>stats db'. reconcile_source (\<lambda>s. s) (\<lambda>p. []) ''a'' [] [] 9 True db = Inr (stats, db') \<and> linked db' 1"
proof -
  let ?db = "sample_db [(Ss, Alive)]" and ?r = "sample_row 1 Ss Alive"
  obtain stats db' where r: "reconcile_source (\<lambda>s. s) (\<lambda>p. []) ''a'' [] [] 9 True ?db = Inr (stats, db')"
    using sample_empty_fetch .
  have "?r \<in> set (proxies ?db)" "linked ?db (r_id ?r)" by (simp_all add: sample_db_def linked_def)
  from reconcile_linger_keeps [OF r sample_sound this(1) _ this(2)] r show ?thesis by auto
qed

section \<open>Sampling\<close>

text \<open>A draw from a lane returns distinct rows of the lane, min(limit, lane size) of them, under every shuffle and
  anchor; and no row starves: for each row of the lane some anchor and shuffle put it in the draw.\<close>

theorem window_sample_sound:
  fixes shuffle :: "ProxyRow list \<Rightarrow> ProxyRow list" and P :: "ProxyRow \<Rightarrow> bool"
  assumes "wf_db db" "\<And>xs. mset (shuffle xs) = mset xs"
  shows "(let drawn = select_window_sample shuffle anchor P lim db in
      set drawn \<subseteq> {r \<in> set (proxies db). P r} \<and> distinct drawn \<and> length drawn = min lim (rows_affected P db)) \<and>
    (0 < lim \<longrightarrow> (\<forall>r \<in> set (proxies db). P r \<longrightarrow>
      (\<exists>sh. (\<forall>xs. mset (sh xs) = mset xs) \<and> r \<in> set (select_window_sample sh (r_id r) P lim db))))"
  using window_rows [OF assms, of anchor P lim] window_draws [OF assms(1)]
  by (auto simp: Let_def rows_affected_def rows_where_def)

theorem window_sample_sound_witness:
  "let drawn = select_window_sample rev 2 (t2_lane (sample_db [(Ss, Alive), (Vless, Ready), (Naive, Alive)])) 2
         (sample_db [(Ss, Alive), (Vless, Ready), (Naive, Alive)]) in
      distinct drawn \<and> length drawn = min 2 (rows_affected (t2_lane (sample_db [(Ss, Alive), (Vless, Ready), (Naive, Alive)]))
         (sample_db [(Ss, Alive), (Vless, Ready), (Naive, Alive)]))"
proof -
  have "wf_db (sample_db [(Ss, Alive), (Vless, Ready), (Naive, Alive)])" using sample_sound by (simp add: sound_db_def)
  from window_sample_sound [OF this, of rev 2 "t2_lane (sample_db [(Ss, Alive), (Vless, Ready), (Naive, Alive)])" 2]
  show ?thesis by (simp add: Let_def)
qed

text \<open>A lane no larger than the window need not be fetched whole: with two rows in the lane, a limit of one and
  a window of four, the draw anchored at the higher row never returns the lower one, whatever the
  shuffle.\<close>

theorem small_pool_not_whole:
  "let db = sample_db [(Naive, Alive), (Naive, Alive)] in
   rows_affected (t1_lane db) db \<le> 1 * SAMPLE_WINDOW_FACTOR \<and>
   list_all (t1_lane db) (proxies db) \<and>
   (\<forall>shuffle. (\<forall>xs. mset (shuffle xs) = mset xs) \<longrightarrow>
      1 \<notin> t1_id ` set (select_t1_candidates shuffle 2 1 db))"
proof -
  let ?db = "sample_db [(Naive, Alive), (Naive, Alive)]"
  have lane: "t1_lane ?db (sample_row 1 Naive Alive)" "t1_lane ?db (sample_row 2 Naive Alive)"
    by (simp_all add: t1_lane_def linked_def sample_db_def T1_EXCLUDED_SCHEMES_def)
  have ps: "proxies ?db = [sample_row 1 Naive Alive, sample_row 2 Naive Alive]"
    by (simp add: sample_db_def numeral_2_eq_2)
  have one: "shuffle [x] = [x]" if "\<forall>xs. mset (shuffle xs) = mset xs" for shuffle :: "ProxyRow list \<Rightarrow> ProxyRow list" and x
    using that by (metis mset_single_iff_right)
  have "select_t1_candidates shuffle 2 1 ?db = [t1_candidate (sample_row 2 Naive Alive)]"
    if "\<forall>xs. mset (shuffle xs) = mset xs" for shuffle
    using lane one [OF that]
    by (simp add: select_t1_candidates_def select_window_sample_def fetch_window_leg_def ps SAMPLE_WINDOW_FACTOR_def)
  then show ?thesis
    using lane by (simp add: Let_def ps rows_affected_def rows_where_def SAMPLE_WINDOW_FACTOR_def t1_candidate_def)
qed

theorem small_pool_not_whole_witness:
  "1 \<notin> t1_id ` set (select_t1_candidates rev 2 1 (sample_db [(Naive, Alive), (Naive, Alive)]))"
  using small_pool_not_whole by (simp add: Let_def)

text \<open>The T2 lane is drained least recently tunnel-checked first: the draw holds min(limit, lane size) rows of the
  lane, never one twice, and no row left out was tunnel-checked before one that was drawn.\<close>

theorem t2_least_recent_first:
  "mset (select_t2_candidates lim db) \<subseteq># mset (rows_where (t2_lane db) db) \<and>
   length (select_t2_candidates lim db) = min lim (rows_affected (t2_lane db) db) \<and>
   (\<forall>r \<in> set (select_t2_candidates lim db). \<forall>s \<in> set (rows_where (t2_lane db) db).
      s \<notin> set (select_t2_candidates lim db) \<longrightarrow> last_t2_check db (r_id r) \<le> last_t2_check db (r_id s))"
  using t2_sample [of lim db] by (simp add: rows_affected_def rows_where_def)

theorem t2_least_recent_first_witness:
  "length (select_t2_candidates 1 (sample_db [(Ss, Alive), (Vless, Ready)])) =
     min 1 (rows_affected (t2_lane (sample_db [(Ss, Alive), (Vless, Ready)])) (sample_db [(Ss, Alive), (Vless, Ready)]))"
  using t2_least_recent_first by blast

text \<open>Enqueueing priority checks never exceeds its budget, never queues a row twice, and queues only candidates
  that are unknown, linked and probeable by T1; nothing but the queue changes.\<close>

theorem enqueue_bounded:
  assumes "sound_db db" "enqueue_checks ids lim now db = (n, db')"
  shows "n \<le> lim \<and> sound_db db' \<and> proxies db' = proxies db \<and> links db' = links db \<and> results db' = results db \<and>
    (\<exists>new. requests db' = requests db @ new \<and> length new = n \<and>
       (\<forall>q \<in> set new. q_proxy q \<in> set ids \<and> (\<exists>r. get_by_id db (q_proxy q) = Some r \<and> queueable db r)))"
proof -
  from assms(1) have wf: "wf_db db" and ok: "rows_ok db" by (simp_all add: sound_db_def)
  from enqueue_checks_sound [OF assms(2) wf] obtain new where
    f: "only_requests db db'" "n \<le> lim" and new: "requests db' = requests db @ new" "length new = n"
      "\<forall>q \<in> set new. q_proxy q \<in> set ids \<and> (\<exists>r \<in> set (proxies db). r_id r = q_proxy q \<and> queueable db r)" by blast
  have "\<forall>q \<in> set new. q_proxy q \<in> set ids \<and> (\<exists>r. get_by_id db (q_proxy q) = Some r \<and> queueable db r)"
    using new(3) get_by_id_iff [OF wf] by blast
  moreover have "sound_db db'"
    using enqueue_checks_wf [OF assms(2) wf] ok f(1) by (simp add: sound_db_def rows_ok_def only_requests_def)
  ultimately show ?thesis using f new(1,2) by (auto simp: only_requests_def)
qed

theorem enqueue_bounded_witness:
  "fst (enqueue_checks [1, 2, 2] 1 5 (sample_db [(Naive, Unknown), (Naive, Unknown)])) \<le> 1"
  using enqueue_bounded [OF sample_sound prod.collapse [symmetric], of "[1, 2, 2]" 1 5 "[(Naive, Unknown), (Naive, Unknown)]"]
  by (rule conjunct1)

end
