(* ===== verification/Json.thy ===== *)
theory Json
  imports Fumox_Prelude
begin

text \<open>
  Values of \<open>serde_json\<close> and \<open>serde_norway\<close> (YAML), as far as the source looks into them. Objects keep
  the order of their keys, as the \<open>preserve_order\<close> feature has it. A number that is not an integer is
  its text.
\<close>

datatype json = JNull | JBool bool | JInt int | JFloat string | JString string
  | JArray "json list" | JObject "(string \<times> json) list"

fun as_object :: "json \<Rightarrow> (string \<times> json) list option" where
  "as_object (JObject m) = Some m"
| "as_object _ = None"

text \<open>\<open>Map::insert\<close>: the value of the key is replaced, a new key goes last.\<close>

fun obj_insert :: "'k \<Rightarrow> 'v \<Rightarrow> ('k \<times> 'v) list \<Rightarrow> ('k \<times> 'v) list" where
  "obj_insert k v [] = [(k, v)]"
| "obj_insert k v ((k', v') # m) = (if k = k' then (k, v) # m else (k', v') # obj_insert k v m)"

lemma map_of_obj_insert [simp]: "map_of (obj_insert k v m) = (map_of m)(k \<mapsto> v)"
  by (induction m) auto

fun json_str :: "json \<Rightarrow> string option" where
  "json_str (JString s) = Some s"
| "json_str _ = None"

definition bool_text :: "bool \<Rightarrow> string" where
  "bool_text b = (if b then ''true'' else ''false'')"

datatype yaml = YNull | YBool bool | YInt int | YFloat string | YString string
  | YSequence "yaml list" | YMapping "(yaml \<times> yaml) list" | YTagged string yaml

type_synonym ymapping = "(yaml \<times> yaml) list"

text \<open>The accessors of a value look through tags.\<close>

fun yaml_str :: "yaml \<Rightarrow> string option" where
  "yaml_str (YString s) = Some s"
| "yaml_str (YTagged tag v) = yaml_str v"
| "yaml_str _ = None"

fun yaml_sequence :: "yaml \<Rightarrow> yaml list option" where
  "yaml_sequence (YSequence xs) = Some xs"
| "yaml_sequence (YTagged tag v) = yaml_sequence v"
| "yaml_sequence _ = None"

fun as_mapping :: "yaml \<Rightarrow> ymapping option" where
  "as_mapping (YMapping m) = Some m"
| "as_mapping (YTagged tag v) = as_mapping v"
| "as_mapping _ = None"

text \<open>\<open>Mapping::get\<close> with a string key.\<close>

definition yget :: "ymapping \<Rightarrow> string \<Rightarrow> yaml option" where
  "yget m key = map_of m (YString key)"

end
