(* ===== verification/Pipeline.thy ===== *)
theory Pipeline
  imports Proxies Json
begin

text \<open>
  The processing pipeline of \<open>fumox-server/src/pipeline.rs\<close>: the configuration as it comes out of the
  JSON decoder, its compilation with every field error collected, the merge of a source and a profile
  configuration, the steps that run over the candidates of one source, and the post-merge steps.
  Parameters: the regular expression library (\<open>build\<close>, \<open>is_match\<close>, \<open>replace_all\<close> over a type of
  compiled expressions), the JSON decoder of a configuration, Unicode lower case, SHA-256, and the geo
  resolver, which threads a state.
\<close>

section \<open>The configuration\<close>

record FilterConfig =
  fc_protocols :: "string list option"
  fc_exclude_protocols :: "string list option"
  fc_asns :: "string list option"
  fc_exclude_asns :: "string list option"
  fc_forbid_insecure :: bool

record RenameRule =
  rr_match_pattern :: string
  rr_replace :: string
  rr_flags :: string
  rr_target :: "string option"

record DropRule =
  dr_match_pattern :: string
  dr_flags :: string
  dr_target :: "string option"
  dr_asns :: "string list option"

record GeoStepConfig =
  gc_enabled :: bool
  gc_template :: string

datatype SortBy = SortSource | SortName | SortCountry | SortLatency

fun sort_as_str :: "SortBy \<Rightarrow> string" where
  "sort_as_str SortSource = ''source''"
| "sort_as_str SortName = ''name''"
| "sort_as_str SortCountry = ''country''"
| "sort_as_str SortLatency = ''latency''"

record SortConfig =
  sc_by :: SortBy
  sc_desc :: bool

text \<open>\<open>health\<close> is its status list, \<open>dedup\<close> its key, \<open>limit\<close> its count.\<close>

record PipelineConfig =
  pc_version :: u8
  pc_filter :: "FilterConfig option"
  pc_rename :: "RenameRule list option"
  pc_drop :: "DropRule list option"
  pc_geo :: "GeoStepConfig option"
  pc_health :: "string list option"
  pc_dedup :: "string option"
  pc_sort :: "SortConfig option"
  pc_limit :: "int option option"

datatype RenameTarget = TargetName | TargetHost | TargetPort | TargetParam string

record 'r CompiledRename =
  cr_regex :: 'r
  cr_replace :: string
  cr_target :: RenameTarget

datatype 'r CompiledDrop = DropRegex 'r RenameTarget | DropAsn "nat list"

record 'r CompiledPipeline =
  cp_filter_protocols :: "Scheme list option"
  cp_exclude_protocols :: "Scheme list option"
  cp_filter_asns :: "nat list option"
  cp_exclude_asns :: "nat list option"
  cp_forbid_insecure :: bool
  cp_rename :: "'r CompiledRename list"
  cp_drop :: "'r CompiledDrop list"
  cp_geo_enabled :: bool
  cp_geo_template :: string
  cp_exclude_statuses :: "ProxyStatus list"
  cp_sort_by :: SortBy
  cp_sort_desc :: bool
  cp_limit_count :: "nat option"
  cp_sort_explicit :: bool

text \<open>The middle dot of the template is U+00B7, \<open>C2 B7\<close> in UTF-8.\<close>

definition DEFAULT_GEO_TEMPLATE :: string where
  "DEFAULT_GEO_TEMPLATE = ''{flag} {country} '' @ [CHR 0xC2, CHR 0xB7] @ '' {name}''"

definition default_exclude_statuses :: "string list" where
  "default_exclude_statuses = [''quarantine'', ''removed'']"

definition default_pipeline :: "'r CompiledPipeline" where
  "default_pipeline = \<lparr>cp_filter_protocols = None, cp_exclude_protocols = None, cp_filter_asns = None,
     cp_exclude_asns = None, cp_forbid_insecure = True, cp_rename = [], cp_drop = [], cp_geo_enabled = True,
     cp_geo_template = DEFAULT_GEO_TEMPLATE, cp_exclude_statuses = [Quarantine, Removed],
     cp_sort_by = SortSource, cp_sort_desc = False, cp_limit_count = None, cp_sort_explicit = False\<rparr>"

section \<open>Compilation\<close>

record PipelineIssue =
  pi_key :: string
  pi_args :: "string list"

definition issue :: "string \<Rightarrow> string list \<Rightarrow> PipelineIssue" where
  "issue k args = \<lparr>pi_key = k, pi_args = args\<rparr>"

definition parse_rename_target :: "string option \<Rightarrow> string \<Rightarrow> RenameTarget option \<times> PipelineIssue list" where
  "parse_rename_target raw field =
     (case raw of
        None \<Rightarrow> (Some TargetName, [])
      | Some raw \<Rightarrow>
          (let t = trim raw in
           if t = ''name'' then (Some TargetName, [])
           else if t = ''host'' then (Some TargetHost, [])
           else if t = ''port'' then (Some TargetPort, [])
           else (case strip_prefix ''param:'' t of
                   Some key \<Rightarrow> if trim key \<noteq> [] then (Some (TargetParam (trim key)), [])
                               else (None, [issue ''pipeline.unknown_target'' [field, t]])
                 | None \<Rightarrow> (None, [issue ''pipeline.unknown_target'' [field, t]]))))"

text \<open>\<open>str::chars\<close>: a leading byte with the continuation bytes after it.\<close>

definition is_continuation :: "char \<Rightarrow> bool" where
  "is_continuation c \<longleftrightarrow> 128 \<le> code c \<and> code c < 192"

function utf8_chars :: "string \<Rightarrow> string list" where
  "utf8_chars [] = []"
| "utf8_chars (c # s) = (c # takeWhile is_continuation s) # utf8_chars (dropWhile is_continuation s)"
  by pat_completeness auto
termination
  by (relation "measure length") (auto simp: less_Suc_eq_le length_dropWhile_le)

text \<open>The flags of a rule: case insensitive, multi line, dot matches new line.\<close>

record Flags =
  fl_i :: bool
  fl_m :: bool
  fl_s :: bool

fun read_flags :: "string \<Rightarrow> string list \<Rightarrow> Flags \<Rightarrow> Flags \<times> PipelineIssue list" where
  "read_flags field [] f = (f, [])"
| "read_flags field (c # cs) f =
     (if c = ''i'' then read_flags field cs (f\<lparr>fl_i := True\<rparr>)
      else if c = ''m'' then read_flags field cs (f\<lparr>fl_m := True\<rparr>)
      else if c = ''s'' then read_flags field cs (f\<lparr>fl_s := True\<rparr>)
      else (let (f', errors) = read_flags field cs f in (f', issue ''pipeline.unknown_flag'' [field, c] # errors)))"

definition compile_rule_regex ::
  "(string \<Rightarrow> Flags \<Rightarrow> string + 'r) \<Rightarrow> string \<Rightarrow> string \<Rightarrow> string \<Rightarrow> 'r option \<times> PipelineIssue list" where
  "compile_rule_regex build pattern flags field =
     (let (f, errors) = read_flags field (utf8_chars flags) \<lparr>fl_i = False, fl_m = False, fl_s = False\<rparr>
      in (case build pattern f of
            Inr regex \<Rightarrow> (Some regex, errors)
          | Inl err \<Rightarrow> (None, errors @ [issue ''pipeline.bad_regex'' [field, err]])))"

definition asn_number :: "string \<Rightarrow> nat option" where
  "asn_number raw =
     (let t = trim raw;
          digits = (case strip_prefix ''AS'' t of Some d \<Rightarrow> d
                    | None \<Rightarrow> (case strip_prefix ''as'' t of Some d \<Rightarrow> d | None \<Rightarrow> t))
      in parse_u32 digits)"

definition stored_asn_number :: "string \<Rightarrow> nat option" where
  "stored_asn_number raw = asn_number raw"

fun collect_schemes :: "string \<Rightarrow> string list \<Rightarrow> Scheme list \<times> PipelineIssue list" where
  "collect_schemes field [] = ([], [])"
| "collect_schemes field (name # names) =
     (let (schemes, errors) = collect_schemes field names in
      case scheme_from_str name of
        Inr s \<Rightarrow> (s # schemes, errors)
      | Inl _ \<Rightarrow> (schemes, issue ''pipeline.unknown_protocol'' [field, name] # errors))"

definition parse_scheme_list :: "string list option \<Rightarrow> string \<Rightarrow> Scheme list option \<times> PipelineIssue list" where
  "parse_scheme_list raw field =
     (case raw of None \<Rightarrow> (None, [])
      | Some names \<Rightarrow> (let (s, e) = collect_schemes field names in (Some s, e)))"

fun collect_asns :: "string \<Rightarrow> string list \<Rightarrow> nat list \<times> PipelineIssue list" where
  "collect_asns field [] = ([], [])"
| "collect_asns field (v # vs) =
     (let (asns, errors) = collect_asns field vs in
      case asn_number v of
        Some n \<Rightarrow> (n # asns, errors)
      | None \<Rightarrow> (asns, issue ''pipeline.unknown_asn'' [field, v] # errors))"

definition parse_asn_list :: "string list option \<Rightarrow> string \<Rightarrow> nat list option \<times> PipelineIssue list" where
  "parse_asn_list raw field =
     (case raw of None \<Rightarrow> (None, [])
      | Some vs \<Rightarrow> (let (a, e) = collect_asns field vs in (Some a, e)))"

definition indexed :: "string \<Rightarrow> nat \<Rightarrow> string" where
  "indexed name idx = name @ ''['' @ dec_nat idx @ '']''"

definition compile_rename_rule ::
  "(string \<Rightarrow> Flags \<Rightarrow> string + 'r) \<Rightarrow> nat \<Rightarrow> RenameRule \<Rightarrow> 'r CompiledRename list \<times> PipelineIssue list" where
  "compile_rename_rule build idx rule =
     (let field = indexed ''rename'' idx;
          (target, e1) = parse_rename_target (rr_target rule) field;
          (regex, e2) = compile_rule_regex build (rr_match_pattern rule) (rr_flags rule) field
      in (case (regex, target) of
            (Some r, Some t) \<Rightarrow> [\<lparr>cr_regex = r, cr_replace = rr_replace rule, cr_target = t\<rparr>]
          | _ \<Rightarrow> [],
          e1 @ e2))"

definition compile_drop_rule ::
  "(string \<Rightarrow> Flags \<Rightarrow> string + 'r) \<Rightarrow> nat \<Rightarrow> DropRule \<Rightarrow> 'r CompiledDrop list \<times> PipelineIssue list" where
  "compile_drop_rule build idx rule =
     (let field = indexed ''drop'' idx in
      if dr_target rule = Some ''asn''
      then (let e0 = (if dr_match_pattern rule \<noteq> [] \<or> dr_flags rule \<noteq> []
                      then [issue ''pipeline.asn_target_rejects_match'' [field]] else [])
            in (case dr_asns rule of
                  Some (a # as) \<Rightarrow>
                    (let (parsed, e1) = collect_asns field (a # as)
                     in (if length parsed = length (a # as) then [DropAsn parsed] else [], e0 @ e1))
                | _ \<Rightarrow> ([], e0 @ [issue ''pipeline.asn_target_requires_asns'' [field]])))
      else (let e0 = (if dr_asns rule \<noteq> None then [issue ''pipeline.non_asn_target_rejects_asns'' [field]] else []);
                (target, e1) = parse_rename_target (dr_target rule) field;
                (regex, e2) = compile_rule_regex build (dr_match_pattern rule) (dr_flags rule) field
            in (case (regex, target) of (Some r, Some t) \<Rightarrow> [DropRegex r t] | _ \<Rightarrow> [], e0 @ e1 @ e2)))"

fun compile_rules :: "(nat \<Rightarrow> 'x \<Rightarrow> 'y list \<times> PipelineIssue list) \<Rightarrow> nat \<Rightarrow> 'x list \<Rightarrow> 'y list \<times> PipelineIssue list" where
  "compile_rules f idx [] = ([], [])"
| "compile_rules f idx (x # xs) =
     (let (ys, e) = f idx x; (zs, e') = compile_rules f (Suc idx) xs in (ys @ zs, e @ e'))"

fun collect_statuses :: "string list \<Rightarrow> ProxyStatus list \<times> PipelineIssue list" where
  "collect_statuses [] = ([], [])"
| "collect_statuses (raw # raws) =
     (let (statuses, errors) = collect_statuses raws in
      case status_from_str raw of
        Inr s \<Rightarrow> (s # statuses, errors)
      | Inl _ \<Rightarrow> (statuses, issue ''pipeline.unknown_status'' [raw] # errors))"

text \<open>The sections, each a step on the pipeline under construction and the issues so far.\<close>

type_synonym 'r building = "'r CompiledPipeline \<times> PipelineIssue list"

definition filter_section :: "FilterConfig option \<Rightarrow> 'r building \<Rightarrow> 'r building" where
  "filter_section section x =
     (case section of None \<Rightarrow> x
      | Some f \<Rightarrow>
          (let (p, e1) = parse_scheme_list (fc_protocols f) ''filter.protocols'';
               (xp, e2) = parse_scheme_list (fc_exclude_protocols f) ''filter.exclude_protocols'';
               (a, e3) = parse_asn_list (fc_asns f) ''filter.asns'';
               (xa, e4) = parse_asn_list (fc_exclude_asns f) ''filter.exclude_asns''
           in ((fst x)\<lparr>cp_filter_protocols := p, cp_exclude_protocols := xp, cp_filter_asns := a,
                 cp_exclude_asns := xa, cp_forbid_insecure := fc_forbid_insecure f\<rparr>, snd x @ e1 @ e2 @ e3 @ e4)))"

definition rename_section ::
  "(string \<Rightarrow> Flags \<Rightarrow> string + 'r) \<Rightarrow> RenameRule list option \<Rightarrow> 'r building \<Rightarrow> 'r building" where
  "rename_section build section x =
     (case section of None \<Rightarrow> x
      | Some rules \<Rightarrow>
          (let (rs, e) = compile_rules (compile_rename_rule build) 0 rules
           in ((fst x)\<lparr>cp_rename := rs\<rparr>, snd x @ e)))"

definition drop_section ::
  "(string \<Rightarrow> Flags \<Rightarrow> string + 'r) \<Rightarrow> DropRule list option \<Rightarrow> 'r building \<Rightarrow> 'r building" where
  "drop_section build section x =
     (case section of None \<Rightarrow> x
      | Some rules \<Rightarrow>
          (let (rs, e) = compile_rules (compile_drop_rule build) 0 rules
           in ((fst x)\<lparr>cp_drop := rs\<rparr>, snd x @ e)))"

definition geo_section :: "GeoStepConfig option \<Rightarrow> 'r building \<Rightarrow> 'r building" where
  "geo_section section x =
     (case section of None \<Rightarrow> x
      | Some g \<Rightarrow>
          (if trim (gc_template g) = []
           then ((fst x)\<lparr>cp_geo_enabled := gc_enabled g\<rparr>, snd x @ [issue ''pipeline.empty_template'' []])
           else ((fst x)\<lparr>cp_geo_enabled := gc_enabled g, cp_geo_template := gc_template g\<rparr>, snd x)))"

definition health_section :: "string list option \<Rightarrow> 'r building \<Rightarrow> 'r building" where
  "health_section section x =
     (case section of None \<Rightarrow> x
      | Some raws \<Rightarrow>
          (let (s, e) = collect_statuses raws in ((fst x)\<lparr>cp_exclude_statuses := s\<rparr>, snd x @ e)))"

definition dedup_section :: "string option \<Rightarrow> 'r building \<Rightarrow> 'r building" where
  "dedup_section section x =
     (case section of None \<Rightarrow> x
      | Some by_key \<Rightarrow> (if by_key \<noteq> ''fingerprint'' then (fst x, snd x @ [issue ''pipeline.dedup_by'' [by_key]]) else x))"

definition sort_section :: "SortConfig option \<Rightarrow> 'r building \<Rightarrow> 'r building" where
  "sort_section section x =
     (case section of None \<Rightarrow> x
      | Some s \<Rightarrow> ((fst x)\<lparr>cp_sort_by := sc_by s, cp_sort_desc := sc_desc s, cp_sort_explicit := True\<rparr>, snd x))"

definition limit_section :: "int option option \<Rightarrow> 'r building \<Rightarrow> 'r building" where
  "limit_section section x =
     (case section of None \<Rightarrow> x
      | Some None \<Rightarrow> x
      | Some (Some n) \<Rightarrow>
          (if n \<ge> 1 then ((fst x)\<lparr>cp_limit_count := Some (nat n)\<rparr>, snd x)
           else (fst x, snd x @ [issue ''pipeline.invalid_limit'' [dec_int n]])))"

definition compile_config ::
  "(string \<Rightarrow> Flags \<Rightarrow> string + 'r) \<Rightarrow> PipelineConfig \<Rightarrow> PipelineIssue list + 'r CompiledPipeline" where
  "compile_config build config =
     (let e0 = (if pc_version config \<noteq> 1 then [issue ''pipeline.version'' [dec_nat (unat (pc_version config))]] else []);
          (compiled, errors) =
            limit_section (pc_limit config) (sort_section (pc_sort config) (dedup_section (pc_dedup config)
            (health_section (pc_health config) (geo_section (pc_geo config) (drop_section build (pc_drop config)
            (rename_section build (pc_rename config) (filter_section (pc_filter config) (default_pipeline, e0))))))))
      in if errors = [] then Inr compiled else Inl errors)"

definition from_json ::
  "(json \<Rightarrow> string + PipelineConfig) \<Rightarrow> (string \<Rightarrow> Flags \<Rightarrow> string + 'r) \<Rightarrow> json option \<Rightarrow>
   PipelineIssue list + 'r CompiledPipeline" where
  "from_json decode build value =
     (case value of
        None \<Rightarrow> Inr default_pipeline
      | Some JNull \<Rightarrow> Inr default_pipeline
      | Some (JObject []) \<Rightarrow> Inr default_pipeline
      | Some v \<Rightarrow>
          (case decode v of
             Inl err \<Rightarrow> Inl [issue ''pipeline.invalid'' [err]]
           | Inr config \<Rightarrow> compile_config build config))"

definition merge_configs :: "json option \<Rightarrow> json option \<Rightarrow> json option" where
  "merge_configs source profile =
     (case (source, profile) of
        (None, None) \<Rightarrow> None
      | (Some s, None) \<Rightarrow> Some s
      | (None, Some s) \<Rightarrow> Some s
      | (Some s, Some p) \<Rightarrow>
          (case (as_object s, as_object p) of
             (Some s_map, Some p_map) \<Rightarrow> Some (JObject (foldl (\<lambda>m (k, v). obj_insert k v m) s_map p_map))
           | _ \<Rightarrow> Some p))"

section \<open>Rules on one entry\<close>

definition matches_target :: "('r \<Rightarrow> string \<Rightarrow> bool) \<Rightarrow> ProxyEntry \<Rightarrow> 'r \<Rightarrow> RenameTarget \<Rightarrow> bool" where
  "matches_target is_match entry regex target =
     (case target of
        TargetName \<Rightarrow> is_match regex (pe_name entry)
      | TargetHost \<Rightarrow> is_match regex (pe_host entry)
      | TargetPort \<Rightarrow> is_match regex (dec_nat (unat (pe_port entry)))
      | TargetParam key \<Rightarrow>
          list_ex (\<lambda>p. eq_ignore_ascii_case (p_key p) key \<and> is_match regex (p_value p)) (pe_params entry))"

fun contains_ws :: "string \<Rightarrow> bool" where
  "contains_ws [] = False"
| "contains_ws (c # s) \<longleftrightarrow> first_strip ws_codes (c # s) \<noteq> None \<or> contains_ws s"

definition valid_rewritten_host :: "string \<Rightarrow> bool" where
  "valid_rewritten_host host \<longleftrightarrow>
     parse_ipv6 host \<noteq> None \<or>
     host \<noteq> [] \<and> \<not> list_ex (\<lambda>c. c \<in> set ''/?#@[]:%'') host \<and> \<not> contains_ws host"

definition apply_rename_rule :: "('r \<Rightarrow> string \<Rightarrow> string \<Rightarrow> string) \<Rightarrow> ProxyEntry \<Rightarrow> 'r CompiledRename \<Rightarrow> ProxyEntry" where
  "apply_rename_rule replace_all entry rule =
     (let rewritten = (\<lambda>value. replace_all (cr_regex rule) value (cr_replace rule)) in
      case cr_target rule of
        TargetName \<Rightarrow> entry\<lparr>pe_name := rewritten (pe_name entry)\<rparr>
      | TargetHost \<Rightarrow>
          (let host = rewritten (pe_host entry) in if valid_rewritten_host host then entry\<lparr>pe_host := host\<rparr> else entry)
      | TargetPort \<Rightarrow>
          (case parse_u16 (rewritten (dec_nat (unat (pe_port entry)))) of
             Some parsed \<Rightarrow> entry\<lparr>pe_port := parsed\<rparr>
           | None \<Rightarrow> entry)
      | TargetParam key \<Rightarrow>
          entry\<lparr>pe_params := update_first (\<lambda>p. eq_ignore_ascii_case (p_key p) key)
            (\<lambda>p. p\<lparr>p_value := rewritten (p_value p)\<rparr>) (pe_params entry)\<rparr>)"

section \<open>Candidates\<close>

record Candidate =
  c_entry :: ProxyEntry
  c_source_position :: int
  c_status :: ProxyStatus
  c_latency_ms :: "int option"
  c_geo_country :: "string option"
  c_geo_asn :: "string option"

definition drop_survivors ::
  "('r \<Rightarrow> string \<Rightarrow> bool) \<Rightarrow> 'r CompiledPipeline \<Rightarrow> ProxyEntry list \<Rightarrow> GeoStamp option list \<Rightarrow> bool list" where
  "drop_survivors is_match p entries geo =
     map (\<lambda>(idx, entry).
       (let stamp = (if idx < length geo then geo ! idx else None) in
        \<not> list_ex (\<lambda>rule.
            (case rule of
               DropRegex regex target \<Rightarrow> matches_target is_match entry regex target
             | DropAsn asns \<Rightarrow>
                 (case Option.bind (Option.bind stamp gs_asn) stored_asn_number of
                    Some n \<Rightarrow> n \<in> set asns | None \<Rightarrow> False))) (cp_drop p)))
       (enumerate 0 entries)"

definition drop_entries_with_geo ::
  "('r \<Rightarrow> string \<Rightarrow> bool) \<Rightarrow> 'r CompiledPipeline \<Rightarrow> ProxyEntry list \<Rightarrow> GeoStamp option list \<Rightarrow>
   ProxyEntry list \<times> GeoStamp option list" where
  "drop_entries_with_geo is_match p entries geo =
     (if cp_drop p = [] then (entries, geo)
      else (let survivors = drop_survivors is_match p entries geo;
                kept = filter (\<lambda>(idx, entry). survivors ! idx) (enumerate 0 entries)
            in (map snd kept, map (\<lambda>(idx, entry). if idx < length geo then geo ! idx else None) kept)))"

definition has_drop_rules :: "'r CompiledPipeline \<Rightarrow> bool" where
  "has_drop_rules p \<longleftrightarrow> cp_drop p \<noteq> []"

text \<open>\<open>fill_missing_asns\<close>, one candidate; a stored ASN asks the resolver nothing.\<close>

definition fill_asn :: "(string \<Rightarrow> 's \<Rightarrow> GeoInfo option \<times> 's) \<Rightarrow> Candidate \<Rightarrow> 's \<Rightarrow> Candidate \<times> 's" where
  "fill_asn resolve c s =
     (if c_geo_asn c \<noteq> None then (c, s)
      else (let (info, s') = resolve (pe_host (c_entry c)) s in
            (case Option.bind info gi_asn of
               Some asn \<Rightarrow> c\<lparr>c_geo_asn := Some (''AS'' @ dec_nat asn)\<rparr>
             | None \<Rightarrow> c, s')))"

definition candidate_asn :: "Candidate \<Rightarrow> nat option" where
  "candidate_asn c = Option.bind (c_geo_asn c) stored_asn_number"

definition drop_hit :: "('r \<Rightarrow> string \<Rightarrow> bool) \<Rightarrow> Candidate \<Rightarrow> 'r CompiledDrop \<Rightarrow> bool" where
  "drop_hit is_match c rule =
     (case rule of
        DropRegex regex target \<Rightarrow> matches_target is_match (c_entry c) regex target
      | DropAsn asns \<Rightarrow> (case candidate_asn c of Some n \<Rightarrow> n \<in> set asns | None \<Rightarrow> False))"

definition geo_enrich :: "string \<Rightarrow> (string \<Rightarrow> 's \<Rightarrow> GeoInfo option \<times> 's) \<Rightarrow> Candidate \<Rightarrow> 's \<Rightarrow> Candidate \<times> 's" where
  "geo_enrich template resolve c s =
     (let (info, s') = resolve (pe_host (c_entry c)) s in
      (case info of
         Some info \<Rightarrow>
           c\<lparr>c_entry := (c_entry c)\<lparr>pe_name := apply_template template info (pe_name (c_entry c))\<rparr>,
             c_geo_country := gi_country_code info\<rparr>
       | None \<Rightarrow> c, s'))"

definition apply_per_source ::
  "('r \<Rightarrow> string \<Rightarrow> bool) \<Rightarrow> ('r \<Rightarrow> string \<Rightarrow> string \<Rightarrow> string) \<Rightarrow> 'r CompiledPipeline \<Rightarrow>
   (string \<Rightarrow> 's \<Rightarrow> GeoInfo option \<times> 's) \<Rightarrow> bool \<Rightarrow> Candidate list \<Rightarrow> 's \<Rightarrow> Candidate list \<times> 's" where
  "apply_per_source is_match replace_all p resolve active candidates s =
     (let c1 = (case cp_filter_protocols p of
                  Some allowed \<Rightarrow> filter (\<lambda>c. pe_scheme (c_entry c) \<in> set allowed) candidates | None \<Rightarrow> candidates);
          c2 = (case cp_exclude_protocols p of
                  Some excluded \<Rightarrow> filter (\<lambda>c. pe_scheme (c_entry c) \<notin> set excluded) c1 | None \<Rightarrow> c1);
          (c3, s1) = thread (fill_asn resolve) c2 s;
          c4 = (case cp_filter_asns p of
                  Some allowed \<Rightarrow>
                    filter (\<lambda>c. case candidate_asn c of Some a \<Rightarrow> a \<in> set allowed | None \<Rightarrow> False) c3
                | None \<Rightarrow> c3);
          c5 = (case cp_exclude_asns p of
                  Some excluded \<Rightarrow>
                    filter (\<lambda>c. case candidate_asn c of Some a \<Rightarrow> a \<notin> set excluded | None \<Rightarrow> True) c4
                | None \<Rightarrow> c4);
          c6 = (if cp_forbid_insecure p
                then filter (\<lambda>c. \<not> list_ex is_insecure_param (pe_params (c_entry c))) c5 else c5);
          c7 = (if cp_drop p \<noteq> [] then filter (\<lambda>c. \<not> list_ex (drop_hit is_match c) (cp_drop p)) c6 else c6);
          c8 = map (\<lambda>c. c\<lparr>c_entry := foldl (apply_rename_rule replace_all) (c_entry c) (cp_rename p)\<rparr>) c7;
          (c9, s2) = (if cp_geo_enabled p \<and> active then thread (geo_enrich (cp_geo_template p) resolve) c8 s1
                      else (c8, s1))
      in (filter (\<lambda>c. c_status c \<notin> set (cp_exclude_statuses p)) c9, s2))"

section \<open>Post-merge steps\<close>

definition sort_candidates :: "(string \<Rightarrow> string) \<Rightarrow> 'r CompiledPipeline \<Rightarrow> Candidate list \<Rightarrow> Candidate list" where
  "sort_candidates to_lowercase p cs =
     (let turn = (\<lambda>xs. if cp_sort_desc p then rev xs else xs) in
      case cp_sort_by p of
        SortSource \<Rightarrow> turn (sort_key c_source_position cs)
      | SortName \<Rightarrow> turn (sort_key (\<lambda>c. to_lowercase (pe_name (c_entry c))) cs)
      | SortCountry \<Rightarrow> turn (sort_key (\<lambda>c. unwrap_or_default (c_geo_country c)) cs)
      | SortLatency \<Rightarrow> sort_key (\<lambda>c. (case c_latency_ms c of
            Some ms \<Rightarrow> (0 :: nat, if cp_sort_desc p then - ms else ms)
          | None \<Rightarrow> (1, 0))) cs)"

definition finalize ::
  "(string \<Rightarrow> string) \<Rightarrow> (string \<Rightarrow> string) \<Rightarrow> 'r CompiledPipeline \<Rightarrow> Candidate list \<Rightarrow> Candidate list" where
  "finalize sha256 to_lowercase p cs =
     (let sorted_cs = sort_candidates to_lowercase p (retain_first (\<lambda>c. fingerprint sha256 (c_entry c)) [] cs) in
      case cp_limit_count p of Some lim \<Rightarrow> take lim sorted_cs | None \<Rightarrow> sorted_cs)"

definition apply_pipeline where
  "apply_pipeline is_match replace_all sha256 to_lowercase p resolve active candidates s =
     (let (out, s') = apply_per_source is_match replace_all p resolve active candidates s
      in (finalize sha256 to_lowercase p out, s'))"

end
