(* ===== verification/Pipeline_Properties.thy ===== *)
theory Pipeline_Properties
  imports Pipeline
begin

text \<open>
  What the pipeline promises: the steps of one source are one filter on the stored values followed by one
  rewrite, the post-merge steps are a deduplication and a sorted prefix, the drop rules keep entries and
  geo stamps aligned, and a configuration is accepted exactly when every field of it is valid.
\<close>

section \<open>The reference\<close>

definition filled :: "(string \<Rightarrow> GeoInfo option) \<Rightarrow> Candidate \<Rightarrow> Candidate" where
  "filled answer c =
     (case (c_geo_asn c, Option.bind (answer (pe_host (c_entry c))) gi_asn) of
        (None, Some asn) \<Rightarrow> c\<lparr>c_geo_asn := Some (''AS'' @ dec_nat asn)\<rparr>
      | _ \<Rightarrow> c)"

text \<open>The conditions of every filter, on the stored values and the completed ASN.\<close>

definition passes :: "('r \<Rightarrow> string \<Rightarrow> bool) \<Rightarrow> 'r CompiledPipeline \<Rightarrow> Candidate \<Rightarrow> bool" where
  "passes is_match p c \<longleftrightarrow>
     (\<forall>allowed. cp_filter_protocols p = Some allowed \<longrightarrow> pe_scheme (c_entry c) \<in> set allowed) \<and>
     (\<forall>excluded. cp_exclude_protocols p = Some excluded \<longrightarrow> pe_scheme (c_entry c) \<notin> set excluded) \<and>
     (\<forall>allowed. cp_filter_asns p = Some allowed \<longrightarrow> (\<exists>a \<in> set allowed. candidate_asn c = Some a)) \<and>
     (\<forall>excluded. cp_exclude_asns p = Some excluded \<longrightarrow> (\<forall>a \<in> set excluded. candidate_asn c \<noteq> Some a)) \<and>
     (cp_forbid_insecure p \<longrightarrow> (\<forall>x \<in> set (pe_params (c_entry c)). \<not> is_insecure_param x)) \<and>
     (\<forall>rule \<in> set (cp_drop p). \<not> drop_hit is_match c rule) \<and>
     c_status c \<notin> set (cp_exclude_statuses p)"

definition renamed :: "('r \<Rightarrow> string \<Rightarrow> string \<Rightarrow> string) \<Rightarrow> 'r CompiledPipeline \<Rightarrow> Candidate \<Rightarrow> Candidate" where
  "renamed replace_all p c = c\<lparr>c_entry := foldl (apply_rename_rule replace_all) (c_entry c) (cp_rename p)\<rparr>"

definition enriched :: "'r CompiledPipeline \<Rightarrow> bool \<Rightarrow> (string \<Rightarrow> GeoInfo option) \<Rightarrow> Candidate \<Rightarrow> Candidate" where
  "enriched p active answer c =
     (case answer (pe_host (c_entry c)) of
        Some info \<Rightarrow>
          if cp_geo_enabled p \<and> active
          then c\<lparr>c_entry := (c_entry c)\<lparr>pe_name := apply_template (cp_geo_template p) info (pe_name (c_entry c))\<rparr>,
                 c_geo_country := gi_country_code info\<rparr>
          else c
      | None \<Rightarrow> c)"

lemma enriched_off: "\<not> (cp_geo_enabled p \<and> active) \<Longrightarrow> enriched p active answer c = c"
  by (auto simp: enriched_def split: option.splits)

lemma status_kept [simp]:
  "c_status (filled answer c) = c_status c" "c_status (renamed ra p c) = c_status c"
  "c_status (enriched p active answer c) = c_status c" "c_entry (filled answer c) = c_entry c"
  by (auto simp: filled_def renamed_def enriched_def split: option.splits)

section \<open>One filter and one rewrite, whatever the lookups answer\<close>

text \<open>
  What is known of a resolver whose answers may change from one lookup to the next: from a state that is
  \<open>sound\<close>, a lookup of \<open>h\<close> gives some answer with \<open>answers h\<close> and leaves a sound state. A resolver that always gives
  one answer is a case of it.
\<close>

locale host_facts =
  fixes resolve :: "string \<Rightarrow> 's \<Rightarrow> GeoInfo option \<times> 's" and answers :: "string \<Rightarrow> GeoInfo option \<Rightarrow> bool"
    and sound :: "'s \<Rightarrow> bool"
  assumes answered: "sound s \<Longrightarrow> answers h (fst (resolve h s))"
    and stays_sound: "sound s \<Longrightarrow> sound (snd (resolve h s))"

sublocale host_geo \<subseteq> facts: host_facts resolve "\<lambda>h a. a = answer h" good
  by unfold_locales (simp_all add: answers stays_good)

text \<open>A loop whose steps each choose something about their element.\<close>

lemma thread_chosen:
  assumes "\<And>x s. sound s \<Longrightarrow> (\<exists>a. R x a \<and> fst (f x s) = g x a) \<and> sound (snd (f x s))" and "sound s"
  shows "(\<exists>as. list_all2 R xs as \<and> fst (thread f xs s) = map2 g xs as) \<and> sound (snd (thread f xs s))"
  using assms(2)
proof (induction xs arbitrary: s)
  case (Cons x xs)
  from assms(1) [OF Cons.prems, of x] obtain a where a: "R x a" "fst (f x s) = g x a" and s: "sound (snd (f x s))" by blast
  from Cons.IH [OF s] obtain as where "list_all2 R xs as" "fst (thread f xs (snd (f x s))) = map2 g xs as"
    "sound (snd (thread f xs (snd (f x s))))" by blast
  with a show ?case by (auto simp: split_beta Let_def intro!: exI [of _ "a # as"])
qed simp

text \<open>Choices for the elements a filter keeps extend to all elements.\<close>

lemma chosen_for_all:
  assumes "list_all2 R (filter P xs) as" "\<And>x. \<exists>a. R x a"
  shows "\<exists>bs. list_all2 R xs bs \<and> filter (P \<circ> fst) (zip xs bs) = zip (filter P xs) as"
  using assms(1)
proof (induction xs arbitrary: as)
  case (Cons x xs)
  show ?case
  proof (cases "P x")
    case True
    with Cons.prems obtain a as' where "as = a # as'" "R x a" "list_all2 R (filter P xs) as'"
      by (auto simp: list_all2_Cons1)
    moreover from this(3) Cons.IH obtain bs where "list_all2 R xs bs" "filter (P \<circ> fst) (zip xs bs) = zip (filter P xs) as'" by blast
    ultimately show ?thesis using True by (intro exI [of _ "a # bs"]) (simp add: comp_def)
  next
    case False
    obtain a where "R x a" using assms(2) by blast
    moreover from Cons.prems False Cons.IH [of as] obtain bs where
      "list_all2 R xs bs" "filter (P \<circ> fst) (zip xs bs) = zip (filter P xs) as" by (auto simp: comp_def)
    ultimately show ?thesis using False by (intro exI [of _ "a # bs"]) (simp add: comp_def)
  qed
qed simp

context host_facts begin

lemma some_answer: "sound s \<Longrightarrow> \<exists>a. answers h a"
  using answered by blast

lemma fill_chosen:
  "sound s \<Longrightarrow> (\<exists>a. answers (pe_host (c_entry c)) a \<and> fst (fill_asn resolve c s) = filled (\<lambda>_. a) c) \<and>
     sound (snd (fill_asn resolve c s))"
  using answered [of s "pe_host (c_entry c)"] stays_sound [of s "pe_host (c_entry c)"]
  by (auto simp: fill_asn_def filled_def split_beta Let_def split: option.splits)

lemma enrich_chosen:
  "sound s \<Longrightarrow> cp_geo_enabled p \<Longrightarrow>
     (\<exists>a. answers (pe_host (c_entry c)) a \<and> fst (geo_enrich (cp_geo_template p) resolve c s) = enriched p True (\<lambda>_. a) c) \<and>
     sound (snd (geo_enrich (cp_geo_template p) resolve c s))"
  using answered [of s "pe_host (c_entry c)"] stays_sound [of s "pe_host (c_entry c)"]
  by (auto simp: geo_enrich_def enriched_def split_beta Let_def split: option.splits)

text \<open>
  Every candidate has an answer for its ASN and one for its name; with these the steps of a source are one
  filter and one rewrite.
\<close>

lemma per_source_rows:
  assumes "sound s"
  shows "\<exists>rows. map (\<lambda>(c, a, n). c) rows = cs \<and>
    (\<forall>(c, a, n)\<in>set rows. answers (pe_host (c_entry c)) a \<and>
       answers (pe_host (c_entry (renamed replace_all p (filled (\<lambda>_. a) c)))) n) \<and>
    fst (apply_per_source is_match replace_all p resolve active cs s) =
      map (\<lambda>(c, a, n). enriched p active (\<lambda>_. n) (renamed replace_all p (filled (\<lambda>_. a) c)))
        (filter (\<lambda>(c, a, n). passes is_match p (filled (\<lambda>_. a) c)) rows)"
proof -
  define P1 where "P1 = (\<lambda>c :: Candidate. \<forall>allowed. cp_filter_protocols p = Some allowed \<longrightarrow> pe_scheme (c_entry c) \<in> set allowed)"
  define P2 where "P2 = (\<lambda>c :: Candidate. \<forall>excluded. cp_exclude_protocols p = Some excluded \<longrightarrow> pe_scheme (c_entry c) \<notin> set excluded)"
  define P4 where "P4 = (\<lambda>c :: Candidate. \<forall>allowed. cp_filter_asns p = Some allowed \<longrightarrow> (\<exists>a \<in> set allowed. candidate_asn c = Some a))"
  define P5 where "P5 = (\<lambda>c :: Candidate. \<forall>excluded. cp_exclude_asns p = Some excluded \<longrightarrow> (\<forall>a \<in> set excluded. candidate_asn c \<noteq> Some a))"
  define P6 where "P6 = (\<lambda>c :: Candidate. cp_forbid_insecure p \<longrightarrow> (\<forall>x \<in> set (pe_params (c_entry c)). \<not> is_insecure_param x))"
  define P7 where "P7 = (\<lambda>c :: Candidate. \<forall>rule \<in> set (cp_drop p). \<not> drop_hit is_match c rule)"
  define P8 where "P8 = (\<lambda>c :: Candidate. c_status c \<notin> set (cp_exclude_statuses p))"
  note Ps = P1_def P2_def P4_def P5_def P6_def P7_def P8_def
  have passes: "passes is_match p c \<longleftrightarrow> (P1 c \<and> P2 c) \<and> (P4 c \<and> P5 c \<and> P6 c \<and> P7 c) \<and> P8 c" for c
    unfolding passes_def Ps by blast
  have f1: "(case cp_filter_protocols p of
      Some allowed \<Rightarrow> filter (\<lambda>c. pe_scheme (c_entry c) \<in> set allowed) xs | None \<Rightarrow> xs) = filter P1 xs" for xs
    by (cases "cp_filter_protocols p") (simp_all add: P1_def)
  have f2: "(case cp_exclude_protocols p of
      Some excluded \<Rightarrow> filter (\<lambda>c. pe_scheme (c_entry c) \<notin> set excluded) xs | None \<Rightarrow> xs) = filter P2 xs" for xs
    by (cases "cp_exclude_protocols p") (simp_all add: P2_def)
  have f4: "(case cp_filter_asns p of
      Some allowed \<Rightarrow> filter (\<lambda>c. case candidate_asn c of Some a \<Rightarrow> a \<in> set allowed | None \<Rightarrow> False) xs
      | None \<Rightarrow> xs) = filter P4 xs" for xs
    by (cases "cp_filter_asns p") (auto simp: P4_def intro!: filter_cong split: option.splits)
  have f5: "(case cp_exclude_asns p of
      Some excluded \<Rightarrow> filter (\<lambda>c. case candidate_asn c of Some a \<Rightarrow> a \<notin> set excluded | None \<Rightarrow> True) xs
      | None \<Rightarrow> xs) = filter P5 xs" for xs
    by (cases "cp_exclude_asns p") (auto simp: P5_def intro!: filter_cong split: option.splits)
  have f6: "(if cp_forbid_insecure p then filter (\<lambda>c. \<not> list_ex is_insecure_param (pe_params (c_entry c))) xs
      else xs) = filter P6 xs" for xs
    by (auto simp: P6_def list_ex_iff intro!: filter_cong)
  have f7: "(if cp_drop p \<noteq> [] then filter (\<lambda>c. \<not> list_ex (drop_hit is_match c) (cp_drop p)) xs else xs) = filter P7 xs" for xs
    by (auto simp: P7_def list_ex_iff intro!: filter_cong)
  define A where "A = (\<lambda>c. answers (pe_host (c_entry (c :: Candidate))))"
  have some: "\<exists>a. A c a" for c using some_answer [OF assms] by (simp add: A_def)
  have two: "filter P2 (filter P1 cs) = filter (\<lambda>c. P1 c \<and> P2 c) cs" by (simp add: conj_commute)
  obtain c3 s1 where t: "thread (fill_asn resolve) (filter P2 (filter P1 cs)) s = (c3, s1)" by fastforce
  from thread_chosen [of sound A "fill_asn resolve" "\<lambda>c a. filled (\<lambda>_. a) c" s "filter (\<lambda>c. P1 c \<and> P2 c) cs"]
    fill_chosen assms obtain as0 where as0: "list_all2 A (filter (\<lambda>c. P1 c \<and> P2 c) cs) as0"
      "c3 = map2 (\<lambda>c a. filled (\<lambda>_. a) c) (filter (\<lambda>c. P1 c \<and> P2 c) cs) as0" and s1: "sound s1"
    using t by (auto simp: A_def two)
  obtain as where as: "list_all2 A cs as"
      "filter ((\<lambda>c. P1 c \<and> P2 c) \<circ> fst) (zip cs as) = zip (filter (\<lambda>c. P1 c \<and> P2 c) cs) as0"
    using chosen_for_all [OF as0(1) some] by blast
  define F where "F = (\<lambda>(c, a). filled (\<lambda>_. a) c)"
  define prs where "prs = zip cs as"
  have c3: "c3 = map F (filter (\<lambda>x. P1 (F x) \<and> P2 (F x)) prs)"
  proof -
    have "(\<lambda>x. P1 (F x) \<and> P2 (F x)) = (\<lambda>c. P1 c \<and> P2 c) \<circ> fst" by (auto simp: fun_eq_iff F_def P1_def P2_def)
    then show ?thesis using as0(2) as(2) by (simp add: prs_def F_def)
  qed
  let ?Q = "\<lambda>x. (P1 (F x) \<and> P2 (F x)) \<and> (P4 (F x) \<and> P5 (F x) \<and> P6 (F x) \<and> P7 (F x))"
  define c8 where "c8 = map (renamed replace_all p) (filter P7 (filter P6 (filter P5 (filter P4 c3))))"
  have c8: "c8 = map (renamed replace_all p \<circ> F) (filter ?Q prs)"
    by (simp add: c8_def c3 filter_map comp_def conj_ac)
  obtain c9 s2 where u: "(if cp_geo_enabled p \<and> active then thread (geo_enrich (cp_geo_template p) resolve) c8 s1
      else (c8, s1)) = (c9, s2)" by fastforce
  have "\<exists>ns. list_all2 A c8 ns \<and> c9 = map2 (\<lambda>c n. enriched p active (\<lambda>_. n) c) c8 ns"
  proof (cases "cp_geo_enabled p \<and> active")
    case True
    have step: "(\<exists>a. A x a \<and> fst (geo_enrich (cp_geo_template p) resolve x s) = enriched p active (\<lambda>_. a) x) \<and>
        sound (snd (geo_enrich (cp_geo_template p) resolve x s))" if "sound s" for x s
      using enrich_chosen [OF that, of p x] True by (simp add: A_def)
    from thread_chosen [where f = "geo_enrich (cp_geo_template p) resolve" and g = "\<lambda>c n. enriched p active (\<lambda>_. n) c"
        and xs = c8, OF step s1] True u show ?thesis by simp
  next
    case False
    have "\<exists>ns. list_all2 A c8 ns"
      using chosen_for_all [of A "\<lambda>_. False" c8 "[]"] some by auto
    then obtain ns where ns: "list_all2 A c8 ns" by blast
    have "map2 (\<lambda>c n. enriched p active (\<lambda>_. n) c) c8 ns = map fst (zip c8 ns)"
      by (rule map_cong) (auto simp: enriched_off [OF False])
    moreover have "c9 = c8" using u unfolding if_not_P [OF False] by simp
    ultimately show ?thesis using ns by (auto simp: list_all2_lengthD)
  qed
  then obtain ns0 where ns0: "list_all2 A c8 ns0" "c9 = map2 (\<lambda>c n. enriched p active (\<lambda>_. n) c) c8 ns0" by blast
  have "list_all2 (\<lambda>x. A (renamed replace_all p (F x))) (filter ?Q prs) ns0" using ns0(1) by (simp add: c8 list_all2_map1)
  from chosen_for_all [OF this some] obtain ns where
    ns: "list_all2 (\<lambda>x. A (renamed replace_all p (F x))) prs ns" "filter (?Q \<circ> fst) (zip prs ns) = zip (filter ?Q prs) ns0"
    by blast
  define rows where "rows = map (\<lambda>((c, a), n). (c, a, n)) (zip prs ns)"
  let ?G = "\<lambda>(c, a, n). enriched p active (\<lambda>_. n) (renamed replace_all p (filled (\<lambda>_. a) c))"
  have len: "length as = length cs" "length ns = length prs" using as(1) ns(1) by (simp_all add: list_all2_lengthD)
  have "map (\<lambda>(c, a, n). c) rows = map fst (map fst (zip prs ns))" by (simp add: rows_def comp_def split_def)
  then have "map (\<lambda>(c, a, n). c) rows = map fst prs" by (simp only: map_fst_zip [OF len(2) [symmetric]])
  then have cs: "map (\<lambda>(c, a, n). c) rows = cs" using len(1) by (simp add: prs_def)
  have ans: "\<forall>(c, a, n)\<in>set rows. answers (pe_host (c_entry c)) a \<and>
       answers (pe_host (c_entry (renamed replace_all p (filled (\<lambda>_. a) c)))) n"
  proof -
    have "A c a \<and> A (renamed replace_all p (F (c, a))) n" if "((c, a), n) \<in> set (zip prs ns)" for c a n
    proof -
      have "(c, a) \<in> set prs" using that by (rule set_zip_leftD)
      then have "A c a" using as(1) by (auto simp: prs_def list_all2_iff)
      then show ?thesis using that ns(1) by (auto simp: list_all2_iff)
    qed
    then show ?thesis by (auto simp: rows_def A_def F_def)
  qed
  have "c9 = map ?G (map (\<lambda>((c, a), n). (c, a, n)) (zip (filter ?Q prs) ns0))"
    by (simp add: ns0(2) c8 zip_map1 F_def split_def comp_def)
  also have "\<dots> = map ?G (filter (\<lambda>(c, a, n). ?Q (c, a)) rows)"
    unfolding ns(2) [symmetric] by (simp add: rows_def filter_map comp_def split_def)
  finally have c9: "c9 = map ?G (filter (\<lambda>(c, a, n). ?Q (c, a)) rows)" .
  have ren: "(\<lambda>c. c\<lparr>c_entry := foldl (apply_rename_rule replace_all) (c_entry c) (cp_rename p)\<rparr>) = renamed replace_all p"
    by (simp add: fun_eq_iff renamed_def)
  have "fst (apply_per_source is_match replace_all p resolve active cs s) = filter P8 c9"
    by (simp only: apply_per_source_def Let_def f1 f2 t prod.case f4 f5 f6 f7 ren c8_def [symmetric] u fst_conv P8_def)
  also have "\<dots> = map ?G (filter (\<lambda>(c, a, n). passes is_match p (filled (\<lambda>_. a) c)) rows)"
    unfolding c9 passes by (simp add: filter_map comp_def P8_def F_def split_def conj_ac)
  finally show ?thesis using cs ans by blast
qed

end

context host_geo begin

lemma per_source_exact:
  assumes "good s"
  shows "fst (apply_per_source is_match replace_all p resolve active cs s) =
    map (enriched p active answer \<circ> renamed replace_all p) (filter (passes is_match p) (map (filled answer) cs))"
proof -
  let ?G = "\<lambda>(c, a, n). enriched p active (\<lambda>_. n) (renamed replace_all p (filled (\<lambda>_. a) c))"
  from facts.per_source_rows [OF assms, where replace_all = replace_all and p = p and cs = cs and is_match = is_match and active = active] obtain rows where
    rows: "map (\<lambda>(c, a, n). c) rows = cs"
      "\<forall>(c, a, n)\<in>set rows. a = answer (pe_host (c_entry c)) \<and> n = answer (pe_host (c_entry (renamed replace_all p (filled (\<lambda>_. a) c))))"
    and out: "fst (apply_per_source is_match replace_all p resolve active cs s) =
      map ?G (filter (\<lambda>(c, a, n). passes is_match p (filled (\<lambda>_. a) c)) rows)" by blast
  have row: "filled (\<lambda>_. a) c = filled answer c \<and>
      enriched p active (\<lambda>_. n) (renamed replace_all p (filled answer c)) = enriched p active answer (renamed replace_all p (filled answer c))"
    if "(c, a, n) \<in> set rows" for c a n
  proof -
    have e: "a = answer (pe_host (c_entry c))" "n = answer (pe_host (c_entry (renamed replace_all p (filled (\<lambda>_. a) c))))"
      using rows(2) that by auto
    have f: "filled (\<lambda>_. a) c = filled answer c" by (simp add: filled_def e(1))
    then show ?thesis by (simp add: enriched_def e(2))
  qed
  have kept: "filter (\<lambda>(c, a, n). passes is_match p (filled (\<lambda>_. a) c)) rows = filter (\<lambda>(c, a, n). passes is_match p (filled answer c)) rows"
    by (rule filter_cong) (auto simp: row)
  have "fst (apply_per_source is_match replace_all p resolve active cs s) =
      map (\<lambda>(c, a, n). enriched p active answer (renamed replace_all p (filled answer c)))
        (filter (\<lambda>(c, a, n). passes is_match p (filled answer c)) rows)"
    unfolding out kept by (rule map_cong [OF refl]) (auto simp: row)
  also have "\<dots> = map (enriched p active answer \<circ> renamed replace_all p) (filter (passes is_match p) (map (filled answer) cs))"
    unfolding rows(1) [symmetric] by (simp add: filter_map comp_def split_def)
  finally show ?thesis .
qed

end

section \<open>The steps of one source\<close>

definition databases_answer :: "(string \<Rightarrow> ip_addr list option) \<Rightarrow> bool \<Rightarrow> Backends \<Rightarrow> string \<Rightarrow> GeoInfo option" where
  "databases_answer dns enabled b h = (if enabled \<and> \<not> backends_empty b then resolve_uncached dns b h else None)"

lemma per_source_cached:
  assumes "case_blind dns" "only_forgets evict"
  shows "fst (apply_per_source is_match replace_all p (ticked evict dns) active cs (new_resolver enabled b, clock)) =
    map (enriched p active (databases_answer dns enabled b) \<circ> renamed replace_all p)
      (filter (passes is_match p) (map (filled (databases_answer dns enabled b)) cs))"
proof -
  have a: "geo_answer dns (gr_backends (new_resolver enabled b)) = databases_answer dns enabled b"
    by (auto simp: geo_answer_def new_resolver_def databases_answer_def)
  show ?thesis
    using cached.per_source_exact [where dns = dns and b = "gr_backends (new_resolver enabled b)"
        and s = "(new_resolver enabled b, clock)" and keep = "\<lambda>c. dom (evict c)"
        and is_match = is_match and replace_all = replace_all and p = p and active = active and cs = cs] fresh_good
    unfolding resolver_form [OF assms] a by blast
qed

definition plain_pipeline :: "string CompiledPipeline" where
  "plain_pipeline = default_pipeline"

definition sample_candidate :: "string \<Rightarrow> string option \<Rightarrow> Candidate" where
  "sample_candidate host country =
     \<lparr>c_entry = \<lparr>pe_scheme = Vless, pe_name = host, pe_host = host, pe_port = 443, pe_credential = ''u'',
        pe_params = [], pe_raw_path = [], pe_raw_line = []\<rparr>,
      c_source_position = 0, c_status = Alive, c_latency_ms = None, c_geo_country = country, c_geo_asn = None\<rparr>"

section \<open>The shared resolver\<close>

text \<open>
  The resolver and its cache are shared by all requests and all sources. At the \<open>n\<close>th lookup of a pass the
  world is \<open>world n\<close>: the clock, what DNS answers at that moment, the entries other tasks have put since the
  lookup before, and the keys the cache has not evicted. Nothing is assumed of any of them.
\<close>

record moment =
  mo_now :: int
  mo_dns :: "string \<Rightarrow> ip_addr list option"
  mo_foreign :: geo_cache
  mo_keep :: "string set"

definition lookup_at :: "(nat \<Rightarrow> moment) \<Rightarrow> string \<Rightarrow> GeoResolver \<times> nat \<Rightarrow> GeoInfo option \<times> GeoResolver \<times> nat" where
  "lookup_at world host x =
     (let m = world (snd x);
          g = (fst x)\<lparr>gr_cache := (gr_cache (fst x) ++ mo_foreign m) |` mo_keep m\<rparr>;
          (info, g1) = geo_resolve (\<lambda>c. c) (mo_dns m) (mo_now m) host g
      in (info, g1, Suc (snd x)))"

text \<open>Where a cached verdict comes from: it was there before the pass, another task put it, or the pass did.\<close>

definition verdict_source ::
  "(nat \<Rightarrow> moment) \<Rightarrow> Backends \<Rightarrow> geo_cache \<Rightarrow> nat \<Rightarrow> nat \<Rightarrow> string \<Rightarrow> GeoInfo option \<Rightarrow> int \<Rightarrow> bool" where
  "verdict_source world b c0 n0 n key v put_at \<longleftrightarrow>
     c0 key = Some (v, put_at) \<or>
     (\<exists>m. n0 \<le> m \<and> m < n \<and> mo_foreign (world m) key = Some (v, put_at)) \<or>
     (\<exists>m h. n0 \<le> m \<and> m < n \<and> lower h = key \<and> put_at = mo_now (world m) \<and> v = resolve_uncached (mo_dns (world m)) b h)"

text \<open>An answer is what DNS and the databases say at that moment, or a verdict younger than the TTL.\<close>

definition explained ::
  "(nat \<Rightarrow> moment) \<Rightarrow> Backends option \<Rightarrow> geo_cache \<Rightarrow> nat \<Rightarrow> string \<Rightarrow> GeoInfo option \<Rightarrow> bool" where
  "explained world backends c0 n0 host a \<longleftrightarrow>
     (case backends of
        None \<Rightarrow> a = None
      | Some b \<Rightarrow> \<exists>n\<ge>n0. a = resolve_uncached (mo_dns (world n)) b host \<or>
          (\<exists>put_at. mo_now (world n) < put_at + CACHE_TTL \<and> verdict_source world b c0 n0 (Suc n) (lower host) a put_at))"

definition traced :: "(nat \<Rightarrow> moment) \<Rightarrow> Backends option \<Rightarrow> geo_cache \<Rightarrow> nat \<Rightarrow> GeoResolver \<times> nat \<Rightarrow> bool" where
  "traced world backends c0 n0 x \<longleftrightarrow>
     gr_backends (fst x) = backends \<and> n0 \<le> snd x \<and>
     (\<forall>b key v put_at. backends = Some b \<longrightarrow> gr_cache (fst x) key = Some (v, put_at) \<longrightarrow>
        verdict_source world b c0 n0 (snd x) key v put_at)"

lemma verdict_source_later: "verdict_source world b c0 n0 n key v t \<Longrightarrow> n \<le> n' \<Longrightarrow> verdict_source world b c0 n0 n' key v t"
  unfolding verdict_source_def by (elim disjE exE conjE) (blast intro: order_less_le_trans)+

lemma lookup_explained:
  assumes "traced world backends c0 n0 (g, n)"
  shows "explained world backends c0 n0 host (fst (lookup_at world host (g, n)))"
    "traced world backends c0 n0 (snd (lookup_at world host (g, n)))"
proof -
  let ?m = "world n"
  let ?c = "(gr_cache g ++ mo_foreign ?m) |` mo_keep ?m"
  have b: "gr_backends g = backends" and n: "n0 \<le> n" using assms by (simp_all add: traced_def)
  have src: "verdict_source world b c0 n0 (Suc n) key v t" if "backends = Some b" "?c key = Some (v, t)" for b key v t
  proof (cases "mo_foreign ?m key")
    case None
    then have "gr_cache g key = Some (v, t)" using that(2) by (auto simp: restrict_map_def map_add_def split: if_splits)
    then have "verdict_source world b c0 n0 n key v t" using assms that(1) by (simp add: traced_def)
    then show ?thesis by (rule verdict_source_later) simp
  next
    case (Some x)
    then have "mo_foreign ?m key = Some (v, t)" using that(2) by (auto simp: restrict_map_def map_add_def split: if_splits)
    then show ?thesis using n by (auto simp: verdict_source_def)
  qed
  have "explained world backends c0 n0 host (fst (lookup_at world host (g, n))) \<and>
    traced world backends c0 n0 (snd (lookup_at world host (g, n)))"
  proof (cases backends)
    case None
    then show ?thesis using b n by (simp add: lookup_at_def geo_resolve_def Let_def explained_def traced_def)
  next
    case (Some bk)
    show ?thesis
    proof (cases "cache_get (mo_now ?m) ?c (lower host)")
      case None
      have own: "verdict_source world bk c0 n0 (Suc n) (lower host) (resolve_uncached (mo_dns ?m) bk host) (mo_now ?m)"
        using n by (auto simp: verdict_source_def)
      show ?thesis using Some b n None own src
        by (auto simp: lookup_at_def geo_resolve_def Let_def explained_def traced_def)
    next
      case hit: (Some v)
      then obtain t where t: "?c (lower host) = Some (v, t)" "mo_now ?m < t + CACHE_TTL"
        by (auto simp: cache_get_def split: option.splits if_splits)
      have "mo_now ?m < t + CACHE_TTL \<and> verdict_source world bk c0 n0 (Suc n) (lower host) v t"
        using src [OF Some t(1)] t(2) by simp
      then have "explained world backends c0 n0 host v" using n unfolding explained_def Some option.case by blast
      then show ?thesis using Some b n hit src [OF Some]
        by (simp add: lookup_at_def geo_resolve_def Let_def traced_def)
    qed
  qed
  then show "explained world backends c0 n0 host (fst (lookup_at world host (g, n)))"
    "traced world backends c0 n0 (snd (lookup_at world host (g, n)))" by simp_all
qed

interpretation shared: host_facts "lookup_at world" "explained world backends c0 n0" "traced world backends c0 n0"
  for world backends c0 n0
  using lookup_explained by unfold_locales (metis prod.collapse)+

lemma traced_start: "traced world (gr_backends g) (gr_cache g) n0 (g, n0)"
  by (simp add: traced_def verdict_source_def)

text \<open>
  C35: the steps of one source are one filter and one rewrite. Take any state of the shared resolver, any
  clock, DNS answers that change from lookup to lookup, evictions, and other requests filling the cache at
  the same time. Then every candidate has one answer \<open>a\<close> for its own host and one answer \<open>n\<close> for its renamed
  host; it is served exactly when its stored values, with a missing ASN completed from \<open>a\<close>, pass every filter
  and no drop rule; and it is then, in its place and order, renamed and geo-named from \<open>n\<close>. Each answer is what
  DNS and the databases say at some moment of the pass, or a verdict cached less than six hours before
  that moment for the host in any spelling; so a cached unknown verdict can decide an ASN filter, and
  nothing else can.
\<close>

theorem per_source_reference:
  "\<exists>rows. map (\<lambda>(c, a, n). c) rows = cs \<and>
     list_all (\<lambda>(c, a, n). explained world (gr_backends g) (gr_cache g) n0 (pe_host (c_entry c)) a \<and>
       explained world (gr_backends g) (gr_cache g) n0 (pe_host (c_entry (renamed replace_all p (filled (\<lambda>_. a) c)))) n) rows \<and>
     fst (apply_per_source is_match replace_all p (lookup_at world) active cs (g, n0)) =
       map (\<lambda>(c, a, n). enriched p active (\<lambda>_. n) (renamed replace_all p (filled (\<lambda>_. a) c)))
         (filter (\<lambda>(c, a, n). passes is_match p (filled (\<lambda>_. a) c)) rows)"
  unfolding list_all_iff by (rule shared.per_source_rows [OF traced_start])

text \<open>
  A verdict of unknown that is still cached decides the ASN filter against the databases: the second source
  of a profile loses a node whose network is known.
\<close>

definition unknown_cached :: GeoResolver where
  "unknown_cached = (new_resolver True sample_backends)\<lparr>gr_cache := [''1.2.3.4'' \<mapsto> (None, 0)]\<rparr>"

definition plain_world :: "nat \<Rightarrow> moment" where
  "plain_world n = \<lparr>mo_now = 60, mo_dns = (\<lambda>_. None), mo_foreign = Map.empty, mo_keep = UNIV\<rparr>"

definition asn_pipeline :: "string CompiledPipeline" where
  "asn_pipeline = plain_pipeline\<lparr>cp_filter_asns := Some [24940]\<rparr>"

lemma cached_unknown_filters:
  "fst (apply_per_source (\<lambda>r s. r = s) (\<lambda>r s t. t) asn_pipeline (lookup_at plain_world) False
      [sample_candidate ''1.2.3.4'' None] (unknown_cached, 0)) = []"
  "Option.bind (resolve_uncached (mo_dns (plain_world 0)) sample_backends ''1.2.3.4'') gi_asn = Some 24940"
proof -
  have l: "ascii_lower (CHR ''1'') = CHR ''1''" "ascii_lower (CHR ''2'') = CHR ''2''" "ascii_lower (CHR ''3'') = CHR ''3''"
    "ascii_lower (CHR ''4'') = CHR ''4''" "ascii_lower (CHR ''.'') = CHR ''.''" by code_simp+
  show "fst (apply_per_source (\<lambda>r s. r = s) (\<lambda>r s t. t) asn_pipeline (lookup_at plain_world) False
      [sample_candidate ''1.2.3.4'' None] (unknown_cached, 0)) = []"
    by (simp add: apply_per_source_def asn_pipeline_def plain_pipeline_def default_pipeline_def sample_candidate_def fill_asn_def
        lookup_at_def plain_world_def unknown_cached_def new_resolver_def geo_resolve_def cache_get_def CACHE_TTL_def l
        sample_backends_def backends_empty_def candidate_asn_def Let_def)
  show "Option.bind (resolve_uncached (mo_dns (plain_world 0)) sample_backends ''1.2.3.4'') gi_asn = Some 24940"
    by (simp add: plain_world_def sample_backends_def resolve_uncached_def merge_city_def merge_asn_def lookup_asn_def addr_eval Let_def)
qed

lemma params_kept:
  "(\<forall>rule \<in> set rules. \<forall>k. cr_target rule \<noteq> TargetParam k) \<Longrightarrow>
     pe_params (foldl (apply_rename_rule ra) e rules) = pe_params e"
proof (induction rules arbitrary: e)
  case (Cons rule rules)
  have "pe_params (apply_rename_rule ra e rule) = pe_params e"
    using Cons.prems by (auto simp: apply_rename_rule_def Let_def split: RenameTarget.splits option.splits)
  then show ?case using Cons by simp
qed simp

text \<open>With only the ASN database installed the geo step erases the stored country of every candidate whose host
  resolves: the served candidate has no country, whatever country ingestion had stored for it.\<close>

theorem asn_only_erases_country:
  assumes "case_blind dns" "only_forgets evict"
    and "cp_geo_enabled p" "b_city b = None"
    and "c \<in> set (fst (apply_per_source is_match replace_all p (ticked evict dns) True cs (new_resolver enabled b, clock)))"
    and "\<forall>c0 \<in> set cs. databases_answer dns enabled b (pe_host (c_entry (renamed replace_all p c0))) \<noteq> None"
  shows "c_geo_country c = None"
proof -
  let ?ans = "databases_answer dns enabled b"
  have none: "gi_country_code info = None" if "?ans h = Some info" for h info
    using that assms(4)
    by (auto simp: databases_answer_def resolve_uncached_def merge_asn_def merge_city_def lookup_asn_def no_info_def
        Option.bind_eq_Some_conv split: if_splits option.splits)
  from assms(5) obtain c0 where c0: "c0 \<in> set cs" "c = enriched p True ?ans (renamed replace_all p (filled ?ans c0))"
    unfolding per_source_cached [OF assms(1,2)] by auto
  have "pe_host (c_entry (renamed replace_all p (filled ?ans c0))) = pe_host (c_entry (renamed replace_all p c0))"
    by (simp add: renamed_def)
  with assms(6) c0(1) obtain info where "?ans (pe_host (c_entry (renamed replace_all p (filled ?ans c0)))) = Some info" by auto
  then show ?thesis using c0(2) assms(3) none by (auto simp: enriched_def)
qed

theorem asn_only_erases_country_witness:
  "let cs = [sample_candidate ''1.2.3.4'' (Some ''DE'')];
       out = fst (apply_per_source (\<lambda>r s. r = s) (\<lambda>r s t. t) plain_pipeline (ticked (\<lambda>c. c) (\<lambda>h. None)) True cs
               (new_resolver True sample_backends, []))
   in list_all (\<lambda>c. c_geo_country c = None) out"
proof -
  have "databases_answer (\<lambda>h. None) True sample_backends ''1.2.3.4'' \<noteq> None"
    by (simp add: databases_answer_def sample_backends_def backends_empty_def resolve_uncached_def merge_city_def
        merge_asn_def lookup_asn_def addr_eval)
  then show ?thesis
    unfolding Let_def list_all_iff
    by (intro ballI asn_only_erases_country
        [where dns = "\<lambda>h. None" and evict = "\<lambda>c. c" and p = plain_pipeline and b = sample_backends
          and is_match = "\<lambda>r s. r = s" and replace_all = "\<lambda>r s t. t" and enabled = True and clock = "[]"
          and cs = "[sample_candidate ''1.2.3.4'' (Some ''DE'')]"])
       (simp_all add: case_blind_def only_forgets_def sample_backends_def plain_pipeline_def default_pipeline_def renamed_def sample_candidate_def)
qed

section \<open>The post-merge steps\<close>

definition in_order :: "(string \<Rightarrow> string) \<Rightarrow> 'r CompiledPipeline \<Rightarrow> Candidate list \<Rightarrow> bool" where
  "in_order to_lowercase p cs \<longleftrightarrow>
     (let ordered = (\<lambda>key. sorted_wrt (\<lambda>a b. if cp_sort_desc p then key b \<le> key a else key a \<le> key b) cs);
          ordered_s = (\<lambda>key. sorted_wrt (\<lambda>a b. if cp_sort_desc p then key b \<le> key a else key a \<le> (key b :: string)) cs)
      in case cp_sort_by p of
           SortSource \<Rightarrow> ordered (c_source_position :: Candidate \<Rightarrow> int)
         | SortName \<Rightarrow> ordered_s (\<lambda>c :: Candidate. to_lowercase (pe_name (c_entry c)))
         | SortCountry \<Rightarrow> ordered_s (\<lambda>c :: Candidate. unwrap_or_default (c_geo_country c))
         | SortLatency \<Rightarrow> sorted_wrt (\<lambda>a b. case (c_latency_ms a, c_latency_ms b) of
               (None, Some _) \<Rightarrow> False
             | (Some x, Some y) \<Rightarrow> if cp_sort_desc p then y \<le> x else x \<le> y
             | (_, None) \<Rightarrow> True) cs)"

lemma sorted_turn:
  "sorted_wrt (\<lambda>a b. if d then key b \<le> key a else key a \<le> key b) (if d then rev (sort_key key xs) else sort_key key xs)"
proof -
  have "sorted_wrt (\<lambda>a b. key a \<le> key b) (sort_key key xs)"
    using sorted_sort_key [of key xs] by (simp add: sorted_wrt_map)
  then show ?thesis by (auto simp: sorted_wrt_rev)
qed

lemma sort_in_order: "in_order to_lowercase p (sort_candidates to_lowercase p cs)"
proof (cases "cp_sort_by p")
  case SortLatency
  let ?key = "\<lambda>c :: Candidate. (case c_latency_ms c of
      Some ms \<Rightarrow> (0 :: nat, if cp_sort_desc p then - ms else ms) | None \<Rightarrow> (1, 0))"
  have "sorted_wrt (\<lambda>a b. ?key a \<le> ?key b) (sort_key ?key cs)"
    using sorted_sort_key [of ?key cs] by (simp add: sorted_wrt_map)
  then show ?thesis
    using SortLatency unfolding in_order_def sort_candidates_def Let_def SortBy.case
    by (auto elim!: sorted_wrt_mono_rel [rotated] split: option.splits if_splits simp: less_eq_prod_def)
qed (use sorted_turn [of "cp_sort_desc p" _ cs] in
    \<open>simp_all only: in_order_def sort_candidates_def Let_def SortBy.case\<close>)

lemma sort_mset [simp]: "mset (sort_candidates to_lowercase p cs) = mset cs"
  by (auto simp: sort_candidates_def Let_def split: SortBy.splits)

text \<open>C36: The post-merge steps keep, of all candidates with one fingerprint, exactly the first; order the survivors by
  the configured key and direction, with unknown latencies last either way; and cut that list to the
  limit, so what is served is its top.\<close>

theorem finalize_spec:
  "\<exists>rest. let kept = finalize sha256 to_lowercase p cs; fp = (\<lambda>c. fingerprint sha256 (c_entry c)) in
     in_order to_lowercase p (kept @ rest) \<and>
     distinct (map fp (kept @ rest)) \<and>
     set (map fp (kept @ rest)) = set (map fp cs) \<and>
     list_all (\<lambda>c. find (\<lambda>d. fp d = fp c) cs = Some c) (kept @ rest) \<and>
     (case cp_limit_count p of None \<Rightarrow> rest = [] | Some lim \<Rightarrow> length kept = min lim (length (kept @ rest)))"
proof -
  define fp where "fp = (\<lambda>c :: Candidate. fingerprint sha256 (c_entry c))"
  define u where "u = retain_first fp [] cs"
  define so where "so = sort_candidates to_lowercase p u"
  define kept where "kept = finalize sha256 to_lowercase p cs"
  define rest where "rest = (case cp_limit_count p of Some lim \<Rightarrow> drop lim so | None \<Rightarrow> [])"
  have kept: "kept = (case cp_limit_count p of Some lim \<Rightarrow> take lim so | None \<Rightarrow> so)"
    by (simp only: kept_def finalize_def so_def u_def fp_def Let_def)
  have all: "kept @ rest = so" by (auto simp: kept rest_def split: option.splits)
  have m: "mset so = mset u" by (simp add: so_def)
  then have st: "set so = set u" by (rule mset_eq_setD)
  have "distinct (map fp u)" unfolding u_def by (rule retain_first_distinct)
  moreover have "mset (map fp so) = mset (map fp u)" using m by simp
  ultimately have d: "distinct (map fp so)" using mset_eq_imp_distinct_iff by blast
  have keys: "set (map fp so) = set (map fp cs)"
    using retain_first_keys [of fp "[]" cs] st by (simp add: u_def)
  have first: "find (\<lambda>d. fp d = fp c) cs = Some c" if "c \<in> set so" for c
  proof -
    have "find (\<lambda>d. fp d = fp c) u = Some c"
    proof -
      have "c \<in> set u" "distinct (map fp u)" using that st retain_first_distinct [of fp "[]" cs] by (simp_all add: u_def)
      then show ?thesis by (induction u) (auto simp: image_iff)
    qed
    then show ?thesis using retain_first_find [of "fp c" "[]" fp cs] by (simp add: u_def)
  qed
  have lim: "case cp_limit_count p of None \<Rightarrow> rest = [] | Some lim \<Rightarrow> length kept = min lim (length (kept @ rest))"
    unfolding all by (auto simp: kept rest_def split: option.splits)
  have "in_order to_lowercase p so" unfolding so_def by (rule sort_in_order)
  with d keys first lim show ?thesis
    unfolding Let_def fp_def [symmetric] kept_def [symmetric]
    by (intro exI [of _ rest]) (simp only: all, simp add: list_all_iff)
qed

section \<open>Drop rules at ingestion\<close>

definition stamp_at :: "GeoStamp option list \<Rightarrow> nat \<Rightarrow> GeoStamp option" where
  "stamp_at geo i = (if i < length geo then geo ! i else None)"

definition entry_dropped :: "('r \<Rightarrow> string \<Rightarrow> bool) \<Rightarrow> 'r CompiledPipeline \<Rightarrow> ProxyEntry \<Rightarrow> GeoStamp option \<Rightarrow> bool" where
  "entry_dropped is_match p entry stamp \<longleftrightarrow>
     (\<exists>rule \<in> set (cp_drop p). case rule of
        DropRegex regex target \<Rightarrow> matches_target is_match entry regex target
      | DropAsn asns \<Rightarrow> (case Option.bind (Option.bind stamp gs_asn) stored_asn_number of
            Some n \<Rightarrow> n \<in> set asns | None \<Rightarrow> False))"

lemma drop_entries_zip:
  assumes "drop_entries_with_geo is_match p entries geo = (es, gs)" "cp_drop p \<noteq> []"
  shows "length gs = length es \<and>
    zip es gs = filter (\<lambda>(e, st). \<not> entry_dropped is_match p e st) (map (\<lambda>i. (entries ! i, stamp_at geo i)) [0..<length entries])"
proof -
  let ?sv = "drop_survivors is_match p entries geo"
  have sv: "?sv ! i = (\<not> entry_dropped is_match p (entries ! i) (stamp_at geo i))" if "i < length entries" for i
    using that by (simp add: drop_survivors_def nth_enumerate_eq entry_dropped_def stamp_at_def list_ex_iff Let_def)
  have en: "enumerate 0 entries = map (\<lambda>i. (i, entries ! i)) [0..<length entries]"
    by (rule nth_equalityI) (simp_all add: nth_enumerate_eq)
  let ?kept = "filter (\<lambda>i. \<not> entry_dropped is_match p (entries ! i) (stamp_at geo i)) [0..<length entries]"
  have k: "filter (\<lambda>(idx, entry). ?sv ! idx) (enumerate 0 entries) = map (\<lambda>i. (i, entries ! i)) ?kept"
    unfolding en filter_map by (rule arg_cong [where f = "map _"], rule filter_cong) (simp_all add: sv)
  have "es = map (\<lambda>i. entries ! i) ?kept" "gs = map (stamp_at geo) ?kept"
    using assms unfolding drop_entries_with_geo_def Let_def k by (auto simp: comp_def stamp_at_def)
  then show ?thesis
    by (simp add: zip_map_map filter_map comp_def map_zip_map2 zip_same_conv_map)
qed

text \<open>Dropping at ingestion keeps every surviving entry paired with its own geo stamp: the kept pairs are exactly
  the input pairs no rule drops, in order, an entry without a stamp counting as unresolved; and what it
  hands over is never refused by the reconciliation as misaligned.\<close>

theorem drop_keeps_pairs:
  assumes "drop_entries_with_geo is_match p entries geo = (es, gs)" "length geo \<le> length entries"
  shows "(if cp_drop p = [] then es = entries \<and> gs = geo
     else zip es gs = filter (\<lambda>(e, st). \<not> entry_dropped is_match p e st)
            (map (\<lambda>i. (entries ! i, stamp_at geo i)) [0..<length entries])) \<and>
    (sound_db db \<longrightarrow> is_ok (reconcile_source sha256 to_text source es gs now (\<not> has_drop_rules p) db))"
proof -
  have len: "length gs \<le> length es"
    using assms drop_entries_zip [OF assms(1)] by (cases "cp_drop p = []") (auto simp: drop_entries_with_geo_def)
  have "is_ok (reconcile_source sha256 to_text source es gs now linger db)" if "sound_db db" for linger
  proof -
    from that have "wf_db db" by (simp add: sound_db_def)
    from reconcile_steps [OF len this] show ?thesis by (metis is_ok_simps(1))
  qed
  then show ?thesis
    using assms(1) drop_entries_zip [OF assms(1)] by (auto simp: drop_entries_with_geo_def)
qed

definition dropping_pipeline :: "string CompiledPipeline" where
  "dropping_pipeline = plain_pipeline\<lparr>cp_drop := [DropAsn [24940]]\<rparr>"

theorem drop_keeps_pairs_witness:
  "let e = c_entry (sample_candidate ''h'' None); st = Some \<lparr>gs_country = None, gs_city = None, gs_asn = Some ''AS24940''\<rparr>;
       (es, gs) = drop_entries_with_geo (\<lambda>r s. False) dropping_pipeline [e, e] [st]
   in zip es gs = filter (\<lambda>(e, st). \<not> entry_dropped (\<lambda>r s. False) dropping_pipeline e st) [(e, st), (e, None)]"
proof -
  let ?e = "c_entry (sample_candidate ''h'' None)" and ?st = "Some \<lparr>gs_country = None, gs_city = None, gs_asn = Some ''AS24940''\<rparr>"
  obtain es gs where d: "drop_entries_with_geo (\<lambda>r s. False) dropping_pipeline [?e, ?e] [?st] = (es, gs)" by fastforce
  have "cp_drop dropping_pipeline \<noteq> []" by (simp add: dropping_pipeline_def)
  then have "zip es gs = filter (\<lambda>(e, st). \<not> entry_dropped (\<lambda>r s. False) dropping_pipeline e st) [(?e, ?st), (?e, None)]"
    using drop_keeps_pairs [OF d, THEN conjunct1] by (simp add: stamp_at_def)
  then show ?thesis using d by simp
qed

section \<open>Which configurations compile\<close>

definition target_ok :: "string option \<Rightarrow> bool" where
  "target_ok raw \<longleftrightarrow> (\<forall>t. raw = Some t \<longrightarrow> trim t \<in> {''name'', ''host'', ''port''} \<or>
     (\<exists>key. strip_prefix ''param:'' (trim t) = Some key \<and> trim key \<noteq> []))"

definition regex_ok :: "(string \<Rightarrow> Flags \<Rightarrow> string + 'r) \<Rightarrow> string \<Rightarrow> string \<Rightarrow> bool" where
  "regex_ok build pattern flags \<longleftrightarrow> set (utf8_chars flags) \<subseteq> {''i'', ''m'', ''s''} \<and>
     is_ok (build pattern \<lparr>fl_i = ''i'' \<in> set (utf8_chars flags), fl_m = ''m'' \<in> set (utf8_chars flags),
       fl_s = ''s'' \<in> set (utf8_chars flags)\<rparr>)"

definition rename_ok :: "(string \<Rightarrow> Flags \<Rightarrow> string + 'r) \<Rightarrow> RenameRule \<Rightarrow> bool" where
  "rename_ok build rule \<longleftrightarrow> target_ok (rr_target rule) \<and> regex_ok build (rr_match_pattern rule) (rr_flags rule)"

definition drop_ok :: "(string \<Rightarrow> Flags \<Rightarrow> string + 'r) \<Rightarrow> DropRule \<Rightarrow> bool" where
  "drop_ok build rule \<longleftrightarrow>
     (if dr_target rule = Some ''asn''
      then dr_match_pattern rule = [] \<and> dr_flags rule = [] \<and>
        (\<exists>raw. dr_asns rule = Some raw \<and> raw \<noteq> [] \<and> (\<forall>v \<in> set raw. asn_number v \<noteq> None))
      else dr_asns rule = None \<and> target_ok (dr_target rule) \<and> regex_ok build (dr_match_pattern rule) (dr_flags rule))"

definition config_ok :: "(string \<Rightarrow> Flags \<Rightarrow> string + 'r) \<Rightarrow> PipelineConfig \<Rightarrow> bool" where
  "config_ok build c \<longleftrightarrow>
     pc_version c = 1 \<and>
     (\<forall>f. pc_filter c = Some f \<longrightarrow>
        (\<forall>names \<in> set_option (fc_protocols f) \<union> set_option (fc_exclude_protocols f).
           \<forall>name \<in> set names. is_ok (scheme_from_str name)) \<and>
        (\<forall>vs \<in> set_option (fc_asns f) \<union> set_option (fc_exclude_asns f). \<forall>v \<in> set vs. asn_number v \<noteq> None)) \<and>
     (\<forall>rules. pc_rename c = Some rules \<longrightarrow> (\<forall>rule \<in> set rules. rename_ok build rule)) \<and>
     (\<forall>rules. pc_drop c = Some rules \<longrightarrow> (\<forall>rule \<in> set rules. drop_ok build rule)) \<and>
     (\<forall>g. pc_geo c = Some g \<longrightarrow> trim (gc_template g) \<noteq> []) \<and>
     (\<forall>raws. pc_health c = Some raws \<longrightarrow> (\<forall>raw \<in> set raws. is_ok (status_from_str raw))) \<and>
     pc_dedup c \<in> {None, Some ''fingerprint''} \<and>
     (\<forall>n. pc_limit c = Some (Some n) \<longrightarrow> n \<ge> 1)"

lemma ok_cases: "is_ok r \<longleftrightarrow> (case r of Inl _ \<Rightarrow> False | Inr _ \<Rightarrow> True)"
  by (cases r) simp_all

lemma collect_schemes_ok: "snd (collect_schemes field names) = [] \<longleftrightarrow> (\<forall>name \<in> set names. is_ok (scheme_from_str name))"
  by (induction names) (auto simp: ok_cases split_beta Let_def split: sum.splits)

lemma collect_asns_ok: "snd (collect_asns field vs) = [] \<longleftrightarrow> (\<forall>v \<in> set vs. asn_number v \<noteq> None)"
  by (induction vs) (auto simp: split_beta Let_def split: option.splits)

lemma collect_asns_length: "length (fst (collect_asns field vs)) + length (snd (collect_asns field vs)) = length vs"
  by (induction vs) (auto simp: split_beta Let_def split: option.splits)

lemma collect_statuses_ok: "snd (collect_statuses raws) = [] \<longleftrightarrow> (\<forall>raw \<in> set raws. is_ok (status_from_str raw))"
  by (induction raws) (auto simp: ok_cases split_beta Let_def split: sum.splits)

lemma parse_lists_ok:
  "snd (parse_scheme_list raw field) = [] \<longleftrightarrow> (\<forall>names \<in> set_option raw. \<forall>name \<in> set names. is_ok (scheme_from_str name))"
  "snd (parse_asn_list raw' field) = [] \<longleftrightarrow> (\<forall>vs \<in> set_option raw'. \<forall>v \<in> set vs. asn_number v \<noteq> None)"
  by (cases raw; simp add: parse_scheme_list_def split_beta Let_def collect_schemes_ok)
     (cases raw'; simp add: parse_asn_list_def split_beta Let_def collect_asns_ok)

lemma read_flags_ok:
  "snd (read_flags field cs f) = [] \<longleftrightarrow> set cs \<subseteq> {''i'', ''m'', ''s''}"
  "fst (read_flags field cs f) =
     \<lparr>fl_i = fl_i f \<or> ''i'' \<in> set cs, fl_m = fl_m f \<or> ''m'' \<in> set cs, fl_s = fl_s f \<or> ''s'' \<in> set cs\<rparr>"
  by (induction field cs f rule: read_flags.induct) (auto simp: split_beta Let_def)

lemma target_parsed:
  "(snd (parse_rename_target raw field) = [] \<longleftrightarrow> target_ok raw) \<and> (target_ok raw \<longleftrightarrow> fst (parse_rename_target raw field) \<noteq> None)"
  by (cases raw) (auto simp: parse_rename_target_def target_ok_def Let_def split: option.splits)

lemma regex_compiled:
  "snd (compile_rule_regex build pattern flags field) = [] \<longleftrightarrow> regex_ok build pattern flags"
  "regex_ok build pattern flags \<Longrightarrow> fst (compile_rule_regex build pattern flags field) \<noteq> None"
  by (auto simp: compile_rule_regex_def regex_ok_def ok_cases read_flags_ok split_beta Let_def split: sum.splits)

lemma rename_compiled:
  "snd (compile_rename_rule build idx rule) = [] \<longleftrightarrow> rename_ok build rule"
  "rename_ok build rule \<Longrightarrow> length (fst (compile_rename_rule build idx rule)) = 1"
  using target_parsed [of "rr_target rule" "indexed ''rename'' idx"]
    regex_compiled [of build "rr_match_pattern rule" "rr_flags rule" "indexed ''rename'' idx"]
  by (auto simp: compile_rename_rule_def rename_ok_def split_beta Let_def)

lemma drop_compiled:
  "(snd (compile_drop_rule build idx rule) = [] \<longleftrightarrow> drop_ok build rule) \<and>
   (drop_ok build rule \<longrightarrow> length (fst (compile_drop_rule build idx rule)) = 1)"
proof (cases "dr_target rule = Some ''asn''")
  case True
  show ?thesis
  proof (cases "dr_asns rule")
    case (Some raw)
    show ?thesis
    proof (cases raw)
      case (Cons a as)
      then show ?thesis
        using True Some collect_asns_ok [of "indexed ''drop'' idx" raw] collect_asns_length [of "indexed ''drop'' idx" raw]
        by (auto simp: compile_drop_rule_def drop_ok_def split_beta Let_def simp del: collect_asns.simps)
    qed (use True Some in \<open>simp add: compile_drop_rule_def drop_ok_def Let_def\<close>)
  qed (use True in \<open>simp add: compile_drop_rule_def drop_ok_def Let_def\<close>)
next
  case False
  then show ?thesis
    using target_parsed [of "dr_target rule" "indexed ''drop'' idx"]
      regex_compiled [of build "dr_match_pattern rule" "dr_flags rule" "indexed ''drop'' idx"]
    by (auto simp: compile_drop_rule_def drop_ok_def split_beta Let_def)
qed

lemma rules_compiled:
  assumes "\<And>idx x. (snd (f idx x) = [] \<longleftrightarrow> P x) \<and> (P x \<longrightarrow> length (fst (f idx x)) = 1)"
  shows "(snd (compile_rules f idx xs) = [] \<longleftrightarrow> (\<forall>x \<in> set xs. P x)) \<and>
    ((\<forall>x \<in> set xs. P x) \<longrightarrow> length (fst (compile_rules f idx xs)) = length xs)"
  using assms by (induction xs arbitrary: idx) (auto simp: split_beta Let_def)

lemma rename_rules:
  "(snd (compile_rules (compile_rename_rule build) idx xs) = [] \<longleftrightarrow> (\<forall>x \<in> set xs. rename_ok build x)) \<and>
   ((\<forall>x \<in> set xs. rename_ok build x) \<longrightarrow> length (fst (compile_rules (compile_rename_rule build) idx xs)) = length xs)"
  by (rule rules_compiled) (use rename_compiled in blast)

lemma drop_rules:
  "(snd (compile_rules (compile_drop_rule build) idx xs) = [] \<longleftrightarrow> (\<forall>x \<in> set xs. drop_ok build x)) \<and>
   ((\<forall>x \<in> set xs. drop_ok build x) \<longrightarrow> length (fst (compile_rules (compile_drop_rule build) idx xs)) = length xs)"
  by (rule rules_compiled) (rule drop_compiled)

lemma sections_ok:
  "snd (filter_section a x) = [] \<longleftrightarrow> snd x = [] \<and> (\<forall>f. a = Some f \<longrightarrow>
        (\<forall>names \<in> set_option (fc_protocols f) \<union> set_option (fc_exclude_protocols f).
           \<forall>name \<in> set names. is_ok (scheme_from_str name)) \<and>
        (\<forall>vs \<in> set_option (fc_asns f) \<union> set_option (fc_exclude_asns f). \<forall>v \<in> set vs. asn_number v \<noteq> None))"
  "snd (rename_section build b x) = [] \<longleftrightarrow> snd x = [] \<and> (\<forall>rules. b = Some rules \<longrightarrow> (\<forall>rule \<in> set rules. rename_ok build rule))"
  "snd (drop_section build c x) = [] \<longleftrightarrow> snd x = [] \<and> (\<forall>rules. c = Some rules \<longrightarrow> (\<forall>rule \<in> set rules. drop_ok build rule))"
  "snd (geo_section d x) = [] \<longleftrightarrow> snd x = [] \<and> (\<forall>g. d = Some g \<longrightarrow> trim (gc_template g) \<noteq> [])"
  "snd (health_section e x) = [] \<longleftrightarrow> snd x = [] \<and> (\<forall>raws. e = Some raws \<longrightarrow> (\<forall>raw \<in> set raws. is_ok (status_from_str raw)))"
  "snd (dedup_section g x) = [] \<longleftrightarrow> snd x = [] \<and> g \<in> {None, Some ''fingerprint''}"
  "snd (sort_section h x) = snd x"
  "snd (limit_section i x) = [] \<longleftrightarrow> snd x = [] \<and> (\<forall>n. i = Some (Some n) \<longrightarrow> n \<ge> 1)"
proof -
  show "snd (filter_section a x) = [] \<longleftrightarrow> snd x = [] \<and> (\<forall>f. a = Some f \<longrightarrow>
        (\<forall>names \<in> set_option (fc_protocols f) \<union> set_option (fc_exclude_protocols f).
           \<forall>name \<in> set names. is_ok (scheme_from_str name)) \<and>
        (\<forall>vs \<in> set_option (fc_asns f) \<union> set_option (fc_exclude_asns f). \<forall>v \<in> set vs. asn_number v \<noteq> None))"
    by (cases a) (simp_all add: filter_section_def split_beta Let_def parse_lists_ok ball_Un conj_ac)
  show "snd (rename_section build b x) = [] \<longleftrightarrow> snd x = [] \<and> (\<forall>rules. b = Some rules \<longrightarrow> (\<forall>rule \<in> set rules. rename_ok build rule))"
    using rename_rules [of build 0] by (cases b) (simp_all add: rename_section_def split_beta Let_def)
  show "snd (drop_section build c x) = [] \<longleftrightarrow> snd x = [] \<and> (\<forall>rules. c = Some rules \<longrightarrow> (\<forall>rule \<in> set rules. drop_ok build rule))"
    using drop_rules [of build 0] by (cases c) (simp_all add: drop_section_def split_beta Let_def)
  show "snd (geo_section d x) = [] \<longleftrightarrow> snd x = [] \<and> (\<forall>g. d = Some g \<longrightarrow> trim (gc_template g) \<noteq> [])"
    by (cases d) (simp_all add: geo_section_def)
  show "snd (health_section e x) = [] \<longleftrightarrow> snd x = [] \<and> (\<forall>raws. e = Some raws \<longrightarrow> (\<forall>raw \<in> set raws. is_ok (status_from_str raw)))"
    by (cases e) (simp_all add: health_section_def split_beta Let_def collect_statuses_ok)
  show "snd (dedup_section g x) = [] \<longleftrightarrow> snd x = [] \<and> g \<in> {None, Some ''fingerprint''}"
    by (cases g) (simp_all add: dedup_section_def)
  show "snd (sort_section h x) = snd x" by (cases h) (simp_all add: sort_section_def)
  show "snd (limit_section i x) = [] \<longleftrightarrow> snd x = [] \<and> (\<forall>n. i = Some (Some n) \<longrightarrow> n \<ge> 1)"
    by (cases i) (auto simp: limit_section_def split: option.splits)
qed

lemma sections_keep [simp]:
  "cp_rename (fst (limit_section i x)) = cp_rename (fst x)" "cp_drop (fst (limit_section i x)) = cp_drop (fst x)"
  "cp_rename (fst (sort_section h x)) = cp_rename (fst x)" "cp_drop (fst (sort_section h x)) = cp_drop (fst x)"
  "cp_rename (fst (dedup_section g x)) = cp_rename (fst x)" "cp_drop (fst (dedup_section g x)) = cp_drop (fst x)"
  "cp_rename (fst (health_section e x)) = cp_rename (fst x)" "cp_drop (fst (health_section e x)) = cp_drop (fst x)"
  "cp_rename (fst (geo_section d x)) = cp_rename (fst x)" "cp_drop (fst (geo_section d x)) = cp_drop (fst x)"
  "cp_rename (fst (drop_section build c x)) = cp_rename (fst x)"
  "cp_drop (fst (rename_section build b x)) = cp_drop (fst x)"
  "cp_rename (fst (filter_section a x)) = cp_rename (fst x)" "cp_drop (fst (filter_section a x)) = cp_drop (fst x)"
  "cp_limit_count (fst (sort_section h x)) = cp_limit_count (fst x)" "cp_limit_count (fst (dedup_section g x)) = cp_limit_count (fst x)"
  "cp_limit_count (fst (health_section e x)) = cp_limit_count (fst x)" "cp_limit_count (fst (geo_section d x)) = cp_limit_count (fst x)"
  "cp_limit_count (fst (drop_section build c x)) = cp_limit_count (fst x)"
  "cp_limit_count (fst (rename_section build b x)) = cp_limit_count (fst x)"
  "cp_limit_count (fst (filter_section a x)) = cp_limit_count (fst x)"
  by (simp_all add: limit_section_def sort_section_def dedup_section_def health_section_def geo_section_def
      drop_section_def rename_section_def filter_section_def split_beta Let_def split: option.splits)

text \<open>C37: A configuration compiles exactly when its version is 1 and every protocol, AS number, rule target, flag,
  expression, template, status, deduplication key and limit in it is valid; otherwise the issues are not
  empty. A compiled pipeline lost no rule: each configured rename and drop rule is in it, and its limit is
  never zero.\<close>

theorem config_accepted_exactly:
  "(is_ok (compile_config build c) \<longleftrightarrow> config_ok build c) \<and>
   (case compile_config build c of
      Inl errors \<Rightarrow> errors \<noteq> []
    | Inr p \<Rightarrow> length (cp_rename p) = (case pc_rename c of Some rules \<Rightarrow> length rules | None \<Rightarrow> 0) \<and>
        length (cp_drop p) = (case pc_drop c of Some rules \<Rightarrow> length rules | None \<Rightarrow> 0) \<and>
        cp_limit_count p \<noteq> Some 0)"
proof -
  define e0 where "e0 = (if pc_version c \<noteq> 1 then [issue ''pipeline.version'' [dec_nat (unat (pc_version c))]] else [])"
  define x where "x = limit_section (pc_limit c) (sort_section (pc_sort c) (dedup_section (pc_dedup c)
      (health_section (pc_health c) (geo_section (pc_geo c) (drop_section build (pc_drop c)
      (rename_section build (pc_rename c) (filter_section (pc_filter c) (default_pipeline, e0))))))))"
  have cc: "compile_config build c = (if snd x = [] then Inr (fst x) else Inl (snd x))"
    by (simp add: compile_config_def x_def e0_def split_beta Let_def)
  have ok: "snd x = [] \<longleftrightarrow> config_ok build c"
    unfolding x_def sections_ok config_ok_def by (auto simp: e0_def)
  have rn: "length (cp_rename (fst x)) = (case pc_rename c of Some rules \<Rightarrow> length rules | None \<Rightarrow> 0)" if "config_ok build c"
    using that rename_rules [of build 0]
    by (cases "pc_rename c") (simp_all add: x_def rename_section_def default_pipeline_def config_ok_def split_beta Let_def)
  have dr: "length (cp_drop (fst x)) = (case pc_drop c of Some rules \<Rightarrow> length rules | None \<Rightarrow> 0)" if "config_ok build c"
    using that drop_rules [of build 0]
    by (cases "pc_drop c") (simp_all add: x_def drop_section_def default_pipeline_def config_ok_def split_beta Let_def)
  have li: "cp_limit_count (fst (limit_section l y)) \<noteq> Some 0" if "cp_limit_count (fst y) = None" for l and y :: "'a building"
    using that by (auto simp: limit_section_def split: option.splits)
  have "cp_limit_count (fst x) \<noteq> Some 0"
    unfolding x_def by (rule li) (simp add: default_pipeline_def)
  with rn dr show ?thesis unfolding cc ok by (simp add: ok [symmetric])
qed

end
