(* ===== verification/Caches.thy ===== *)
theory Caches
  imports Fumox_Prelude "HOL-Library.AList"
begin

text \<open>
  The processed cache of \<open>fumox-server/src/cache.rs\<close> and its main reader, \<open>serve_cached\<close> of
  \<open>fumox-server/src/serve.rs\<close>. (The exports, its other reader, and requests whose client disconnects
  join in \<open>Cache_Exports\<close>; here every request runs to its end.) The maps are association lists. Requests, background renders and
  invalidations are tasks; every \<open>await\<close> of the code ends a step of a task, so the steps of different
  tasks interleave as they do in the server. The rendering itself, the clock, timeouts, lock contention
  and the evictions of the cache library are choices of the environment. A counter is a number without
  the bound of \<open>u64\<close>. The field \<open>stamps\<close> is not in the code: it remembers under which generation an
  entry was stored.
\<close>

section \<open>The cache\<close>

record Rendered =
  rd_status :: nat
  rd_body :: string
  rd_content_type :: string
  rd_extra_headers :: "(string \<times> string) list"
  rd_fresh_until :: int
  rd_source_ids :: "string list"

definition is_fresh :: "Rendered \<Rightarrow> int \<Rightarrow> bool" where
  "is_fresh r now \<longleftrightarrow> now < rd_fresh_until r"

datatype InlineOutcome = Stored | Failed nat string

record InlineRenderState =
  ir_sources :: "string list"
  ir_done :: nat

record Caches =
  processed :: "(string \<times> Rendered) list"
  generations :: "(string \<times> nat) list"
  revalidating :: "string set"
  inline_rendering :: "(string \<times> InlineRenderState) list"

definition new_caches :: Caches where
  "new_caches = \<lparr>processed = [], generations = [], revalidating = {}, inline_rendering = []\<rparr>"

definition processed_get :: "Caches \<Rightarrow> string \<Rightarrow> Rendered option" where
  "processed_get c key = map_of (processed c) key"

definition processed_put :: "Caches \<Rightarrow> string \<Rightarrow> Rendered \<Rightarrow> Caches" where
  "processed_put c key r = c\<lparr>processed := AList.update key r (processed c)\<rparr>"

definition processed_remove :: "Caches \<Rightarrow> string \<Rightarrow> Caches" where
  "processed_remove c key = c\<lparr>processed := AList.delete key (processed c)\<rparr>"

definition generation :: "Caches \<Rightarrow> string \<Rightarrow> nat" where
  "generation c key = (case map_of (generations c) key of Some g \<Rightarrow> g | None \<Rightarrow> 0)"

definition bump_generation :: "Caches \<Rightarrow> string \<Rightarrow> Caches" where
  "bump_generation c key =
     c\<lparr>generations := AList.update key (generation c key + 1) (generations c)\<rparr>"

definition affected_entries :: "Caches \<Rightarrow> string \<Rightarrow> string list" where
  "affected_entries c source_id =
     map fst (filter (\<lambda>(_, r). list_ex (\<lambda>i. i = source_id) (rd_source_ids r)) (processed c))"

definition affected_renders :: "Caches \<Rightarrow> string \<Rightarrow> string list" where
  "affected_renders c source_id =
     map fst (filter (\<lambda>(_, st). list_ex (\<lambda>i. i = source_id) (ir_sources st)) (inline_rendering c))"

definition profile_key :: "string \<Rightarrow> string" where
  "profile_key profile_id = ''sub:'' @ profile_id"

datatype InlineClaim = Leader | Wait nat

text \<open>\<open>begin_inline_render\<close> up to the read of the generation; the new wait-channel is \<open>chan\<close>.\<close>

definition begin_inline_render :: "Caches \<Rightarrow> string \<Rightarrow> string list \<Rightarrow> nat \<Rightarrow> Caches \<times> InlineClaim" where
  "begin_inline_render c key source_ids chan =
     (case map_of (inline_rendering c) key of
        Some st \<Rightarrow> (c, Wait (ir_done st))
      | None \<Rightarrow> (c\<lparr>inline_rendering :=
            AList.update key \<lparr>ir_sources = source_ids, ir_done = chan\<rparr> (inline_rendering c)\<rparr>, Leader))"

definition try_start_revalidate :: "Caches \<Rightarrow> string \<Rightarrow> Caches option" where
  "try_start_revalidate c key =
     (if key \<in> revalidating c then None else Some (c\<lparr>revalidating := insert key (revalidating c)\<rparr>))"

definition drop_inline :: "Caches \<Rightarrow> string \<Rightarrow> Caches" where
  "drop_inline c key = c\<lparr>inline_rendering := AList.delete key (inline_rendering c)\<rparr>"

definition drop_revalidate :: "Caches \<Rightarrow> string \<Rightarrow> Caches" where
  "drop_revalidate c key = c\<lparr>revalidating := revalidating c - {key}\<rparr>"

section \<open>Tasks\<close>

text \<open>A wait-channel carries the outcome, how often it was sent, and whether the sender is gone.\<close>

record channel =
  ch_outcome :: InlineOutcome
  ch_version :: nat
  ch_closed :: bool

datatype answer = Served Rendered | Refused nat string

datatype kind = Inline | Background

datatype task =
    Lookup string "string list"
  | TryRevalidate string Rendered
  | Claiming string "string list"
  | Waiting string "string list" nat nat
  | Woken string "string list"
  | ReadGeneration kind string "answer option"
  | Rendering kind string nat
  | PutCheck kind string nat Rendered
  | PutInsert kind string nat Rendered
  | PutRecheck kind string nat Rendered
  | PutGet kind string Rendered
  | DropBump kind string "answer option"
  | DropRemove kind string "answer option"
  | Release kind string "answer option"
  | Removing kind string
  | ScanEntries string
  | ScanRenders string "string list"
  | Bumping "string list"
  | Invalidating string "string list"
  | Finished

datatype render_result = RenderOk Rendered | RenderErr nat string bool | RenderTimeout | RenderPanic

record env =
  env_now :: int
  env_result :: render_result
  env_timeout :: bool
  env_contended :: bool

record server =
  caches :: Caches
  tasks :: "nat \<Rightarrow> task option"
  channels :: "nat \<Rightarrow> channel"
  answers :: "nat \<Rightarrow> answer option"
  stamps :: "string \<Rightarrow> nat"

definition new_channel :: channel where
  "new_channel = \<lparr>ch_outcome = Stored, ch_version = 0, ch_closed = False\<rparr>"

definition new_server :: server where
  "new_server = \<lparr>caches = new_caches, tasks = (\<lambda>_. None), channels = (\<lambda>_. new_channel),
     answers = (\<lambda>_. None), stamps = (\<lambda>_. 0)\<rparr>"

definition goto :: "nat \<Rightarrow> task \<Rightarrow> server \<Rightarrow> server" where
  "goto t k s = s\<lparr>tasks := (tasks s)(t := Some k)\<rparr>"

definition upd :: "(Caches \<Rightarrow> Caches) \<Rightarrow> server \<Rightarrow> server" where
  "upd f s = s\<lparr>caches := f (caches s)\<rparr>"

definition reply :: "nat \<Rightarrow> answer option \<Rightarrow> server \<Rightarrow> server" where
  "reply t a s = (case a of None \<Rightarrow> s | Some _ \<Rightarrow> s\<lparr>answers := (answers s)(t := a)\<rparr>)"

text \<open>\<open>InlineRenderGuard::fail\<close>: \<open>send_replace\<close> on the claim's channel, unless the lock is contended.\<close>

definition fail_claim :: "string \<Rightarrow> nat \<Rightarrow> string \<Rightarrow> bool \<Rightarrow> server \<Rightarrow> server" where
  "fail_claim key stat msg contended s =
     (if contended then s
      else case map_of (inline_rendering (caches s)) key of
        None \<Rightarrow> s
      | Some st \<Rightarrow> s\<lparr>channels := (channels s)(ir_done st :=
            (channels s (ir_done st))\<lparr>ch_outcome := Failed stat msg,
               ch_version := ch_version (channels s (ir_done st)) + 1\<rparr>)\<rparr>)"

text \<open>The drop of a guard: the entry of the claim goes, and with it the sender of its channel.\<close>

definition drop_claim :: "kind \<Rightarrow> string \<Rightarrow> server \<Rightarrow> server" where
  "drop_claim kd key s =
     (case kd of
        Background \<Rightarrow> upd (\<lambda>c. drop_revalidate c key) s
      | Inline \<Rightarrow>
          (case map_of (inline_rendering (caches s)) key of
             None \<Rightarrow> s
           | Some st \<Rightarrow> (upd (\<lambda>c. drop_inline c key) s)
               \<lparr>channels := (channels s)(ir_done st := (channels s (ir_done st))\<lparr>ch_closed := True\<rparr>)\<rparr>))"

definition valid_status :: "nat \<Rightarrow> nat \<Rightarrow> nat" where
  "valid_status fallback stat = (if 100 \<le> stat \<and> stat < 1000 then stat else fallback)"

definition by_kind :: "kind \<Rightarrow> answer \<Rightarrow> answer option" where
  "by_kind kd a = (case kd of Inline \<Rightarrow> Some a | Background \<Rightarrow> None)"

text \<open>How a rendering that ended is treated: the two calls of \<open>make_render\<close> in \<open>serve_cached\<close>.\<close>

definition rendered_inline :: "nat \<Rightarrow> string \<Rightarrow> nat \<Rightarrow> env \<Rightarrow> server \<Rightarrow> server option" where
  "rendered_inline t key g e s =
     (case env_result e of
        RenderOk r \<Rightarrow>
          Some (goto t (if rd_status r = 200 then PutCheck Inline key g r
                        else Release Inline key (Some (Served r))) s)
      | RenderErr stat msg _ \<Rightarrow>
          Some (goto t (Release Inline key (Some (Refused stat msg)))
                 (fail_claim key stat msg (env_contended e) s))
      | RenderTimeout \<Rightarrow>
          Some (goto t (Release Inline key (Some (Refused 503 ''render timed out'')))
                 (fail_claim key 503 ''render timed out'' (env_contended e) s))
      | RenderPanic \<Rightarrow> Some (goto t (Release Inline key None) s))"

definition rendered_background :: "nat \<Rightarrow> string \<Rightarrow> nat \<Rightarrow> env \<Rightarrow> server \<Rightarrow> server option" where
  "rendered_background t key g e s =
     (case env_result e of
        RenderOk r \<Rightarrow> Some (goto t (PutCheck Background key g r) s)
      | RenderErr _ _ drop_cached \<Rightarrow>
          Some (goto t (if drop_cached then DropBump Background key None
                        else Release Background key None) s)
      | RenderTimeout \<Rightarrow> None
      | RenderPanic \<Rightarrow> Some (goto t (Release Background key None) s))"

text \<open>
  \<open>processed_put_guarded\<close>, one await after another: check, insert, check again, and either drop the
  entry by hand (a bump, then a removal) or read it back.
\<close>

definition put_check :: "nat \<Rightarrow> kind \<Rightarrow> string \<Rightarrow> nat \<Rightarrow> Rendered \<Rightarrow> server \<Rightarrow> server" where
  "put_check t kd key g r s =
     goto t (if generation (caches s) key \<noteq> g then Release kd key (by_kind kd (Served r))
             else PutInsert kd key g r) s"

definition put_insert :: "nat \<Rightarrow> kind \<Rightarrow> string \<Rightarrow> nat \<Rightarrow> Rendered \<Rightarrow> server \<Rightarrow> server" where
  "put_insert t kd key g r s =
     goto t (PutRecheck kd key g r)
       ((upd (\<lambda>c. processed_put c key r) s)\<lparr>stamps := (stamps s)(key := g)\<rparr>)"

definition put_recheck :: "nat \<Rightarrow> kind \<Rightarrow> string \<Rightarrow> nat \<Rightarrow> Rendered \<Rightarrow> server \<Rightarrow> server" where
  "put_recheck t kd key g r s =
     goto t (if generation (caches s) key \<noteq> g then DropBump kd key (by_kind kd (Served r))
             else PutGet kd key r) s"

definition put_get :: "nat \<Rightarrow> kind \<Rightarrow> string \<Rightarrow> Rendered \<Rightarrow> server \<Rightarrow> server" where
  "put_get t kd key r s =
     goto t (Release kd key (by_kind kd (Served (case processed_get (caches s) key of Some c \<Rightarrow> c | None \<Rightarrow> r)))) s"

text \<open>The lookup of \<open>serve_cached\<close>: fresh, stale, or missing.\<close>

definition lookup_step :: "nat \<Rightarrow> string \<Rightarrow> string list \<Rightarrow> env \<Rightarrow> server \<Rightarrow> server" where
  "lookup_step t key sources e s =
     (case processed_get (caches s) key of
        Some r \<Rightarrow> if is_fresh r (env_now e) then goto t Finished (reply t (Some (Served r)) s)
                  else goto t (TryRevalidate key r) s
      | None \<Rightarrow> goto t (Claiming key sources) s)"

definition revalidate_step :: "nat \<Rightarrow> string \<Rightarrow> Rendered \<Rightarrow> server \<Rightarrow> server" where
  "revalidate_step t key r s =
     (case try_start_revalidate (caches s) key of
        None \<Rightarrow> goto t Finished (reply t (Some (Served r)) s)
      | Some c \<Rightarrow> goto t (ReadGeneration Background key (Some (Served r))) (upd (\<lambda>_. c) s))"

definition claim_step :: "nat \<Rightarrow> string \<Rightarrow> string list \<Rightarrow> server \<Rightarrow> server" where
  "claim_step t key sources s =
     (case begin_inline_render (caches s) key sources t of
        (c, Leader) \<Rightarrow> goto t (ReadGeneration Inline key None)
            ((upd (\<lambda>_. c) s)\<lparr>channels := (channels s)(t := new_channel)\<rparr>)
      | (_, Wait ch) \<Rightarrow> goto t (Waiting key sources ch (ch_version (channels s ch))) s)"

text \<open>A waiter: a timeout answers 503; otherwise it wakes on a send or on the end of the claim.\<close>

definition wait_step :: "nat \<Rightarrow> string \<Rightarrow> string list \<Rightarrow> nat \<Rightarrow> nat \<Rightarrow> env \<Rightarrow> server \<Rightarrow> server option" where
  "wait_step t key sources ch seen e s =
     (if env_timeout e
      then Some (goto t Finished (reply t (Some (Refused 503 ''render in progress, try again'')) s))
      else if ch_closed (channels s ch) \<or> seen < ch_version (channels s ch)
      then Some (case ch_outcome (channels s ch) of
             Failed stat msg \<Rightarrow> goto t Finished (reply t (Some (Refused (valid_status 502 stat) msg)) s)
           | Stored \<Rightarrow> goto t (Woken key sources) s)
      else None)"

definition woken_step :: "nat \<Rightarrow> string \<Rightarrow> string list \<Rightarrow> env \<Rightarrow> server \<Rightarrow> server" where
  "woken_step t key sources e s =
     (case processed_get (caches s) key of
        Some r \<Rightarrow> if is_fresh r (env_now e) then goto t Finished (reply t (Some (Served r)) s)
                  else goto t (Claiming key sources) s
      | None \<Rightarrow> goto t (Claiming key sources) s)"

definition release_step :: "nat \<Rightarrow> kind \<Rightarrow> string \<Rightarrow> answer option \<Rightarrow> env \<Rightarrow> server \<Rightarrow> server" where
  "release_step t kd key a e s =
     (if env_contended e then goto t (Removing kd key) (reply t a s)
      else goto t Finished (reply t a (drop_claim kd key s)))"

fun task_step :: "nat \<Rightarrow> task \<Rightarrow> env \<Rightarrow> server \<Rightarrow> server option" where
  "task_step t (Lookup key sources) e s = Some (lookup_step t key sources e s)"
| "task_step t (TryRevalidate key r) e s = Some (revalidate_step t key r s)"
| "task_step t (Claiming key sources) e s = Some (claim_step t key sources s)"
| "task_step t (Waiting key sources ch seen) e s = wait_step t key sources ch seen e s"
| "task_step t (Woken key sources) e s = Some (woken_step t key sources e s)"
| "task_step t (ReadGeneration kd key a) e s =
     Some (goto t (Rendering kd key (generation (caches s) key)) (reply t a s))"
| "task_step t (Rendering Inline key g) e s = rendered_inline t key g e s"
| "task_step t (Rendering Background key g) e s = rendered_background t key g e s"
| "task_step t (PutCheck kd key g r) e s = Some (put_check t kd key g r s)"
| "task_step t (PutInsert kd key g r) e s = Some (put_insert t kd key g r s)"
| "task_step t (PutRecheck kd key g r) e s = Some (put_recheck t kd key g r s)"
| "task_step t (PutGet kd key r) e s = Some (put_get t kd key r s)"
| "task_step t (DropBump kd key a) e s =
     Some (goto t (DropRemove kd key a) (upd (\<lambda>c. bump_generation c key) s))"
| "task_step t (DropRemove kd key a) e s =
     Some (goto t (Release kd key a) (upd (\<lambda>c. processed_remove c key) s))"
| "task_step t (Release kd key a) e s = Some (release_step t kd key a e s)"
| "task_step t (Removing kd key) e s = Some (goto t Finished (drop_claim kd key s))"
| "task_step t (ScanEntries source_id) e s =
     Some (goto t (ScanRenders source_id (affected_entries (caches s) source_id)) s)"
| "task_step t (ScanRenders source_id affected) e s =
     Some (goto t (Bumping (affected @ affected_renders (caches s) source_id)) s)"
| "task_step t (Bumping []) e s = Some (goto t Finished s)"
| "task_step t (Bumping (key # affected)) e s =
     Some (goto t (Invalidating key affected) (upd (\<lambda>c. bump_generation c key) s))"
| "task_step t (Invalidating key affected) e s =
     Some (goto t (Bumping affected) (upd (\<lambda>c. processed_remove c key) s))"
| "task_step t Finished e s = None"

datatype event =
    Request nat string "string list"
  | SourceChanged nat string
  | ProfileChanged nat string
  | Step nat env
  | Evict string
  | EvictGeneration string

definition spawn :: "nat \<Rightarrow> task \<Rightarrow> server \<Rightarrow> server option" where
  "spawn t k s = (if tasks s t = None then Some (goto t k s) else None)"

fun serve_step :: "event \<Rightarrow> server \<Rightarrow> server option" where
  "serve_step (Request t key sources) s = spawn t (Lookup key sources) s"
| "serve_step (SourceChanged t source_id) s = spawn t (ScanEntries source_id) s"
| "serve_step (ProfileChanged t profile_id) s = spawn t (Bumping [profile_key profile_id]) s"
| "serve_step (Step t e) s = (case tasks s t of None \<Rightarrow> None | Some k \<Rightarrow> task_step t k e s)"
| "serve_step (Evict key) s = Some (upd (\<lambda>c. processed_remove c key) s)"
| "serve_step (EvictGeneration key) s =
     Some (upd (\<lambda>c. c\<lparr>generations := AList.delete key (generations c)\<rparr>) s)"

fun run_events :: "event list \<Rightarrow> server \<Rightarrow> server option" where
  "run_events [] s = Some s"
| "run_events (e # es) s = (case serve_step e s of None \<Rightarrow> None | Some s' \<Rightarrow> run_events es s')"

end
