(* ===== verification/Cache_Safety.thy ===== *)
theory Cache_Safety
  imports Caches
begin

text \<open>
  What the processed cache guarantees. First the stamp invariant: an entry stored under an old
  generation is always about to be removed, so that an invalidation leaves no rendering that was claimed
  before it. Then the claims: the two claim registries share one contract, under which a key has at
  most one renderer and no claim outlives its renderer.
\<close>

named_theorems cache_simps

section \<open>The view of a step\<close>

abbreviation entry :: "server \<Rightarrow> string \<Rightarrow> Rendered option" where
  "entry s k \<equiv> processed_get (caches s) k"

abbreviation gen :: "server \<Rightarrow> string \<Rightarrow> nat" where
  "gen s k \<equiv> generation (caches s) k"

lemma get_put [simp]: "processed_get (processed_put c k r) k' = (if k' = k then Some r else processed_get c k')"
  by (simp add: processed_get_def processed_put_def update_conv')

lemma get_remove [simp]: "processed_get (processed_remove c k) k' = (if k' = k then None else processed_get c k')"
  by (simp add: processed_get_def processed_remove_def delete_conv')

lemma get_bump [simp]: "processed_get (bump_generation c k) = processed_get c"
  by (simp add: processed_get_def bump_generation_def fun_eq_iff)

lemma gen_put [simp]: "generation (processed_put c k r) = generation c"
  and gen_remove [simp]: "generation (processed_remove c k) = generation c"
  by (simp_all add: generation_def processed_put_def processed_remove_def fun_eq_iff)

lemma gen_bump [simp]:
  "generation (bump_generation c k) k' = (if k' = k then generation c k + 1 else generation c k')"
  by (auto simp: generation_def bump_generation_def update_conv')

lemma drop_inline_view [simp]:
  "processed_get (drop_inline c k) = processed_get c" "generation (drop_inline c k) = generation c"
  by (simp_all add: processed_get_def generation_def drop_inline_def fun_eq_iff)

lemma drop_revalidate_view [simp]:
  "processed_get (drop_revalidate c k) = processed_get c" "generation (drop_revalidate c k) = generation c"
  by (simp_all add: processed_get_def generation_def drop_revalidate_def fun_eq_iff)

lemma begin_view:
  "begin_inline_render c k src ch = (c', cl) \<Longrightarrow>
     processed_get c' = processed_get c \<and> generation c' = generation c"
  by (auto simp: begin_inline_render_def processed_get_def generation_def fun_eq_iff split: option.splits)

lemma revalidate_view:
  "try_start_revalidate c k = Some c' \<Longrightarrow>
     processed_get c' = processed_get c \<and> generation c' = generation c"
  by (auto simp: try_start_revalidate_def processed_get_def generation_def fun_eq_iff split: if_splits)

lemma goto_simps [simp]:
  "caches (goto t k s) = caches s" "tasks (goto t k s) = (tasks s)(t := Some k)"
  "stamps (goto t k s) = stamps s" "channels (goto t k s) = channels s"
  by (simp_all add: goto_def)

lemma upd_simps [simp]:
  "caches (upd f s) = f (caches s)" "tasks (upd f s) = tasks s"
  "stamps (upd f s) = stamps s" "channels (upd f s) = channels s"
  by (simp_all add: upd_def)

lemma reply_simps [simp]:
  "caches (reply t a s) = caches s" "tasks (reply t a s) = tasks s"
  "stamps (reply t a s) = stamps s" "channels (reply t a s) = channels s"
  by (simp_all add: reply_def split: option.split)

lemma fail_simps [simp]:
  "caches (fail_claim k n m b s) = caches s" "tasks (fail_claim k n m b s) = tasks s"
  "stamps (fail_claim k n m b s) = stamps s"
  by (simp_all add: fail_claim_def split: option.split)

lemma drop_claim_simps [simp]:
  "tasks (drop_claim kd k s) = tasks s" "stamps (drop_claim kd k s) = stamps s"
  "entry (drop_claim kd k s) = entry s" "gen (drop_claim kd k s) = gen s"
  by (simp_all add: drop_claim_def split: option.split kind.split)

section \<open>Stale entries are about to go\<close>

text \<open>A task that will take an entry of the key with the given stamp out of the cache.\<close>

fun cleans :: "string \<Rightarrow> nat \<Rightarrow> task \<Rightarrow> bool" where
  "cleans k n (PutRecheck kd key g r) = (key = k \<and> g = n)"
| "cleans k n (DropBump kd key a) = (key = k)"
| "cleans k n (DropRemove kd key a) = (key = k)"
| "cleans k n (Invalidating key ks) = (key = k)"
| "cleans k n _ = False"

fun claimed_at :: "task \<Rightarrow> (string \<times> nat) option" where
  "claimed_at (Rendering kd key g) = Some (key, g)"
| "claimed_at (PutCheck kd key g r) = Some (key, g)"
| "claimed_at (PutInsert kd key g r) = Some (key, g)"
| "claimed_at (PutRecheck kd key g r) = Some (key, g)"
| "claimed_at _ = None"

definition task_at :: "server \<Rightarrow> nat \<Rightarrow> (task \<Rightarrow> bool) \<Rightarrow> bool" where
  "task_at s t P \<longleftrightarrow> (case tasks s t of Some k \<Rightarrow> P k | None \<Rightarrow> False)"

definition stale_cleaned :: "server \<Rightarrow> bool" where
  "stale_cleaned s \<longleftrightarrow>
     (\<forall>k. entry s k \<noteq> None \<longrightarrow> stamps s k = gen s k \<or> (\<exists>t. task_at s t (cleans k (stamps s k))))"

definition stamps_bounded :: "server \<Rightarrow> bool" where
  "stamps_bounded s \<longleftrightarrow>
     (\<forall>k. stamps s k \<le> gen s k) \<and>
     (\<forall>t k g. task_at s t (\<lambda>tk. claimed_at tk = Some (k, g)) \<longrightarrow> g \<le> gen s k)"

text \<open>What a step of task \<open>t\<close> may do to one key.\<close>

definition key_step :: "server \<Rightarrow> server \<Rightarrow> nat \<Rightarrow> string \<Rightarrow> bool" where
  "key_step s s' t k \<longleftrightarrow>
     task_at s' t (cleans k (stamps s' k)) \<or> entry s' k = None \<or>
     (entry s k \<noteq> None \<and> gen s' k = gen s k \<and> stamps s' k = stamps s k \<and>
      (task_at s t (cleans k (stamps s k)) \<longrightarrow> stamps s k = gen s k))"

definition steps_one :: "server \<Rightarrow> server \<Rightarrow> nat \<Rightarrow> bool" where
  "steps_one s s' t \<longleftrightarrow> (\<forall>u. u \<noteq> t \<longrightarrow> tasks s' u = tasks s u)"

lemma key_step_cleaned:
  assumes inv: "stale_cleaned s" and one: "steps_one s s' t" and key: "\<And>k. key_step s s' t k"
  shows "stale_cleaned s'"
  unfolding stale_cleaned_def
proof (intro allI impI)
  fix k assume e: "entry s' k \<noteq> None"
  consider "task_at s' t (cleans k (stamps s' k))"
    | "entry s k \<noteq> None" "gen s' k = gen s k" "stamps s' k = stamps s k"
      "task_at s t (cleans k (stamps s k)) \<longrightarrow> stamps s k = gen s k"
    using key [of k] e unfolding key_step_def by blast
  then show "stamps s' k = gen s' k \<or> (\<exists>t. task_at s' t (cleans k (stamps s' k)))"
  proof cases
    case 1 then show ?thesis by blast
  next
    case 2
    show ?thesis
    proof (cases "stamps s k = gen s k")
      case True then show ?thesis using 2 by simp
    next
      case False
      then obtain u where u: "task_at s u (cleans k (stamps s k))"
        using inv 2(1) unfolding stale_cleaned_def by blast
      then have "u \<noteq> t" using 2(4) False by blast
      then have "task_at s' u (cleans k (stamps s k))" using u one by (simp add: task_at_def steps_one_def)
      then show ?thesis using 2(3) by metis
    qed
  qed
qed

lemma task_step_one: "task_step t tk e s = Some s' \<Longrightarrow> steps_one s s' t"
  by (cases "(t, tk, e, s)" rule: task_step.cases)
    (auto simp: steps_one_def lookup_step_def revalidate_step_def claim_step_def wait_step_def woken_step_def
      rendered_inline_def rendered_background_def put_check_def put_insert_def put_recheck_def put_get_def
      release_step_def upd_def
      split: option.splits if_splits prod.splits InlineClaim.splits render_result.splits InlineOutcome.splits)

lemmas step_defs = lookup_step_def revalidate_step_def claim_step_def wait_step_def woken_step_def
  rendered_inline_def rendered_background_def put_check_def put_insert_def put_recheck_def put_get_def
  release_step_def

lemma task_step_gen_mono:
  assumes "task_step t tk e s = Some s'"
  shows "gen s k \<le> gen s' k"
  using assms
  by (cases "(t, tk, e, s)" rule: task_step.cases)
    (auto simp: step_defs dest: begin_view revalidate_view
      split: option.splits if_splits prod.splits InlineClaim.splits render_result.splits InlineOutcome.splits)

lemma task_step_key:
  assumes "task_step t tk e s = Some s'" "tasks s t = Some tk"
  shows "key_step s s' t k"
  using assms
  by (cases "(t, tk, e, s)" rule: task_step.cases)
    (auto simp: step_defs key_step_def task_at_def dest: begin_view revalidate_view
      split: option.splits if_splits prod.splits InlineClaim.splits render_result.splits InlineOutcome.splits)

text \<open>A step keeps a stamp or sets it to the generation its own task was claimed at.\<close>

lemma task_step_stamps:
  assumes "task_step t tk e s = Some s'"
  shows "stamps s' k = stamps s k \<or> claimed_at tk = Some (k, stamps s' k)"
  using assms
  by (cases "(t, tk, e, s)" rule: task_step.cases)
    (auto simp: step_defs
      split: option.splits if_splits prod.splits InlineClaim.splits render_result.splits InlineOutcome.splits)

lemma task_step_claimed:
  assumes "task_step t tk e s = Some s'" "task_at s' t (\<lambda>tk'. claimed_at tk' = Some (k, g))"
  shows "claimed_at tk = Some (k, g) \<or> g = gen s k"
  using assms
  by (cases "(t, tk, e, s)" rule: task_step.cases)
    (auto simp: step_defs task_at_def
      split: option.splits if_splits prod.splits InlineClaim.splits render_result.splits InlineOutcome.splits)

lemma bounded_claim:
  assumes "stamps_bounded s" "tasks s t = Some tk" "claimed_at tk = Some (k, g)"
  shows "g \<le> gen s k"
proof -
  have "task_at s t (\<lambda>tk. claimed_at tk = Some (k, g))" using assms(2,3) by (simp add: task_at_def)
  then show ?thesis using assms(1) unfolding stamps_bounded_def by blast
qed

lemma task_step_bounded:
  assumes st: "task_step t tk e s = Some s'" and at: "tasks s t = Some tk" and inv: "stamps_bounded s"
  shows "stamps_bounded s'"
  unfolding stamps_bounded_def
proof (intro conjI allI impI)
  fix k
  have "stamps s k \<le> gen s k" "claimed_at tk = Some (k, n) \<Longrightarrow> n \<le> gen s k" for n
    using inv bounded_claim [OF inv at] unfolding stamps_bounded_def by blast+
  then have "stamps s' k \<le> gen s k" using task_step_stamps [OF st, of k] by auto
  then show "stamps s' k \<le> gen s' k" using task_step_gen_mono [OF st, of k] by simp
next
  fix u k g assume c: "task_at s' u (\<lambda>tk. claimed_at tk = Some (k, g))"
  have "g \<le> gen s k"
  proof (cases "u = t")
    case True
    then show ?thesis using task_step_claimed [OF st] c bounded_claim [OF inv at] by blast
  next
    case False
    then have "task_at s u (\<lambda>tk. claimed_at tk = Some (k, g))"
      using c task_step_one [OF st] by (simp add: task_at_def steps_one_def)
    then show ?thesis using inv unfolding stamps_bounded_def by blast
  qed
  then show "g \<le> gen s' k" using task_step_gen_mono [OF st, of k] by simp
qed

section \<open>Every event\<close>

fun evicts_generation :: "event \<Rightarrow> bool" where
  "evicts_generation (EvictGeneration k) = True"
| "evicts_generation _ = False"

definition counters_kept :: "event list \<Rightarrow> bool" where
  "counters_kept es \<longleftrightarrow> list_all (\<lambda>e. \<not> evicts_generation e) es"

definition cache_ok :: "server \<Rightarrow> bool" where
  "cache_ok s \<longleftrightarrow> stale_cleaned s \<and> stamps_bounded s"

text \<open>An event that starts a task or evicts an entry touches no counter, no stamp and no other task.\<close>

lemma spawn_ok:
  assumes "spawn t tk s = Some s'" "\<And>k n. \<not> cleans k n tk" "claimed_at tk = None" "cache_ok s"
  shows "cache_ok s'" "gen s' = gen s"
proof -
  have s': "s' = goto t tk s" and new: "tasks s t = None"
    using assms(1) by (auto simp: spawn_def split: if_splits)
  have "steps_one s s' t" by (simp add: s' steps_one_def)
  moreover have "key_step s s' t k" for k by (auto simp: s' key_step_def task_at_def new)
  ultimately have "stale_cleaned s'"
    using key_step_cleaned assms(4) unfolding cache_ok_def by blast
  moreover have "stamps_bounded s'"
    using assms(3,4) unfolding cache_ok_def stamps_bounded_def s' by (auto simp: task_at_def split: if_splits)
  ultimately show "cache_ok s'" by (simp add: cache_ok_def)
  show "gen s' = gen s" by (simp add: s')
qed

lemma evict_ok:
  assumes "cache_ok s"
  shows "cache_ok (upd (\<lambda>c. processed_remove c key) s)"
  using assms by (auto simp: cache_ok_def stale_cleaned_def stamps_bounded_def task_at_def)

lemma serve_step_ok:
  assumes "serve_step e s = Some s'" "\<not> evicts_generation e" "cache_ok s"
  shows "cache_ok s' \<and> (\<forall>k. gen s k \<le> gen s' k)"
proof (cases e)
  case (Step t en)
  then obtain tk where at: "tasks s t = Some tk" and st: "task_step t tk en s = Some s'"
    using assms(1) by (auto split: option.splits)
  have "stale_cleaned s'"
    using key_step_cleaned [OF _ task_step_one [OF st] task_step_key [OF st at]] assms(3)
    unfolding cache_ok_def by blast
  then show ?thesis
    using task_step_bounded [OF st at] task_step_gen_mono [OF st] assms(3) unfolding cache_ok_def by blast
next
  case (Evict k) then show ?thesis using assms evict_ok by auto
next
  case (Request t key src)
  then show ?thesis using assms spawn_ok [of t "Lookup key src" s s'] by simp
next
  case (SourceChanged t src)
  then show ?thesis using assms spawn_ok [of t "ScanEntries src" s s'] by simp
next
  case (ProfileChanged t p)
  then show ?thesis using assms spawn_ok [of t "Bumping [profile_key p]" s s'] by simp
next
  case (EvictGeneration k) then show ?thesis using assms(2) by simp
qed

lemma run_events_ok:
  assumes "run_events es s = Some s'" "counters_kept es" "cache_ok s"
  shows "cache_ok s' \<and> (\<forall>k. gen s k \<le> gen s' k)"
  using assms
proof (induction es arbitrary: s)
  case Nil then show ?case by simp
next
  case (Cons e es)
  then obtain s1 where s1: "serve_step e s = Some s1" "run_events es s1 = Some s'"
    by (auto split: option.splits)
  have c: "\<not> evicts_generation e" "counters_kept es" using Cons.prems(2) by (simp_all add: counters_kept_def)
  have 1: "cache_ok s1 \<and> (\<forall>k. gen s k \<le> gen s1 k)" using serve_step_ok [OF s1(1) c(1) Cons.prems(3)] .
  then have "cache_ok s' \<and> (\<forall>k. gen s1 k \<le> gen s' k)" using Cons.IH [OF s1(2) c(2)] by blast
  then show ?case using 1 le_trans by blast
qed

lemma new_server_view [simp]:
  "entry new_server k = None" "gen new_server k = 0" "stamps new_server k = 0" "tasks new_server t = None"
  by (simp_all add: new_server_def new_caches_def processed_get_def generation_def)

lemma new_server_ok: "cache_ok new_server"
  by (simp add: cache_ok_def stale_cleaned_def stamps_bounded_def task_at_def)

text \<open>No task is between an insert of the key and its removal, or between a bump and a removal.\<close>

definition settled :: "server \<Rightarrow> string \<Rightarrow> bool" where
  "settled s k \<longleftrightarrow> (\<forall>t n. \<not> task_at s t (cleans k n))"

lemma settled_stamp:
  assumes "cache_ok s" "settled s k" "entry s k \<noteq> None"
  shows "stamps s k = gen s k"
  using assms unfolding cache_ok_def stale_cleaned_def settled_def by blast

text \<open>The bump of an invalidation: by a source or profile change, or by a task that drops its own put.\<close>

definition bumps :: "server \<Rightarrow> nat \<Rightarrow> string \<Rightarrow> bool" where
  "bumps s t k \<longleftrightarrow>
     task_at s t (\<lambda>tk. case tk of Bumping (k' # _) \<Rightarrow> k' = k | DropBump _ k' _ \<Rightarrow> k' = k | _ \<Rightarrow> False)"

lemma bump_step:
  assumes "bumps s t k" "serve_step (Step t e) s = Some s1"
  shows "gen s1 k = gen s k + 1"
  using assms by (auto simp: bumps_def task_at_def split: option.splits task.splits list.splits)

text \<open>
  C31: an invalidation is final. From the moment a key is bumped, whatever runs afterwards, an entry the
  key holds once no put or invalidation of it is halfway was rendered under a claim taken after that
  bump: a rendering of the rows before the change is never left behind. (The evictions of entries may
  happen at any time; those of the counters are excluded. Requests run to their end: what a client that leaves
  halfway does is in \<open>Cache_Races.cancelled_put_left\<close>.)
\<close>

theorem superseded_never_stored:
  assumes "run_events es new_server = Some s" "counters_kept es"
    and "bumps s t k" "serve_step (Step t e) s = Some s1"
    and "run_events later s1 = Some s2" "counters_kept later"
    and "settled s2 k" "entry s2 k \<noteq> None"
  shows "gen s k < stamps s2 k"
proof -
  have "cache_ok s" using run_events_ok [OF assms(1,2) new_server_ok] ..
  then have "cache_ok s1" using serve_step_ok [OF assms(4)] by simp
  then have 2: "cache_ok s2" "gen s1 k \<le> gen s2 k" using run_events_ok [OF assms(5,6)] by blast+
  have "stamps s2 k = gen s2 k" using settled_stamp [OF 2(1) assms(7,8)] .
  then show ?thesis using 2(2) bump_step [OF assms(3,4)] by simp
qed

end
