(* ===== verification/Cache_Claims.thy ===== *)
theory Cache_Claims
  imports Cache_Safety
begin

text \<open>
  The claims of the processed cache: the set of keys revalidated in the background and the map of keys
  rendered inline keep one contract, so a key has at most one renderer of each kind; a claim always has
  a task that will end it; and a waiter is always woken, because the channel it listens to is either
  closed or belongs to a renderer that still runs.
\<close>

section \<open>Who holds a claim\<close>

fun holds :: "kind \<Rightarrow> task \<Rightarrow> string option" where
  "holds x (ReadGeneration kd key a) = (if kd = x then Some key else None)"
| "holds x (Rendering kd key g) = (if kd = x then Some key else None)"
| "holds x (PutCheck kd key g r) = (if kd = x then Some key else None)"
| "holds x (PutInsert kd key g r) = (if kd = x then Some key else None)"
| "holds x (PutRecheck kd key g r) = (if kd = x then Some key else None)"
| "holds x (PutGet kd key r) = (if kd = x then Some key else None)"
| "holds x (DropBump kd key a) = (if kd = x then Some key else None)"
| "holds x (DropRemove kd key a) = (if kd = x then Some key else None)"
| "holds x (Release kd key a) = (if kd = x then Some key else None)"
| "holds x (Removing kd key) = (if kd = x then Some key else None)"
| "holds x _ = None"

definition holder :: "kind \<Rightarrow> server \<Rightarrow> nat \<Rightarrow> string option" where
  "holder kd s t = (case tasks s t of Some tk \<Rightarrow> holds kd tk | None \<Rightarrow> None)"

text \<open>A registry and its holders correspond one to one.\<close>

definition exclusive :: "(string \<Rightarrow> bool) \<Rightarrow> (nat \<Rightarrow> string option) \<Rightarrow> bool" where
  "exclusive P H \<longleftrightarrow>
     (\<forall>k. P k \<longleftrightarrow> (\<exists>t. H t = Some k)) \<and> (\<forall>t u k. H t = Some k \<longrightarrow> H u = Some k \<longrightarrow> t = u)"

lemma exclusive_same: "exclusive P H \<Longrightarrow> H t = Some k \<Longrightarrow> H u = Some k \<Longrightarrow> t = u"
  unfolding exclusive_def by blast

lemma exclusive_held: "exclusive P H \<Longrightarrow> H t = Some k \<Longrightarrow> P k"
  unfolding exclusive_def by blast

lemma holders_add:
  "H t = None \<Longrightarrow> (\<exists>u. (H(t := Some k)) u = Some k') \<longleftrightarrow> k' = k \<or> (\<exists>u. H u = Some k')"
  by (metis fun_upd_apply option.distinct(1) option.inject)

lemma holders_del:
  assumes "H t = Some k" "\<And>u. H u = Some k \<Longrightarrow> u = t"
  shows "(\<exists>u. (H(t := None)) u = Some k') \<longleftrightarrow> k' \<noteq> k \<and> (\<exists>u. H u = Some k')"
  using assms by (metis fun_upd_apply option.distinct(1) option.inject)

locale claim_registry =
  fixes held :: "Caches \<Rightarrow> string \<Rightarrow> bool"
    and take_claim :: "Caches \<Rightarrow> string \<Rightarrow> 'x \<Rightarrow> Caches"
    and drop_one :: "Caches \<Rightarrow> string \<Rightarrow> Caches"
  assumes held_take: "held (take_claim c k x) k' \<longleftrightarrow> k' = k \<or> held c k'"
    and held_drop: "held (drop_one c k) k' \<longleftrightarrow> k' \<noteq> k \<and> held c k'"
begin

lemma take_exclusive:
  assumes "exclusive (held c) H" "\<not> held c k" "H t = None"
  shows "exclusive (held (take_claim c k x)) (H(t := Some k))"
  unfolding exclusive_def
proof (intro conjI allI impI)
  fix k' show "held (take_claim c k x) k' \<longleftrightarrow> (\<exists>u. (H(t := Some k)) u = Some k')"
    using assms(1) unfolding exclusive_def held_take holders_add [of H t, OF assms(3)] by blast
next
  fix u v k' assume "(H(t := Some k)) u = Some k'" "(H(t := Some k)) v = Some k'"
  then show "u = v" using assms unfolding exclusive_def by (auto split: if_splits)
qed

lemma drop_exclusive:
  assumes "exclusive (held c) H" "H t = Some k"
  shows "exclusive (held (drop_one c k)) (H(t := None))"
  unfolding exclusive_def
proof (intro conjI allI impI)
  fix k' show "held (drop_one c k) k' \<longleftrightarrow> (\<exists>u. (H(t := None)) u = Some k')"
  proof -
    have "(\<exists>u. (H(t := None)) u = Some k') \<longleftrightarrow> k' \<noteq> k \<and> (\<exists>u. H u = Some k')"
      by (rule holders_del [of H t k, OF assms(2)]) (rule exclusive_same [OF assms(1) _ assms(2)])
    then show ?thesis using assms(1) unfolding exclusive_def held_drop by simp
  qed
next
  fix u v k' assume "(H(t := None)) u = Some k'" "(H(t := None)) v = Some k'"
  then show "u = v" using assms unfolding exclusive_def by (auto split: if_splits)
qed

end

definition inline_held :: "Caches \<Rightarrow> string \<Rightarrow> bool" where
  "inline_held c k \<longleftrightarrow> map_of (inline_rendering c) k \<noteq> None"

definition background_held :: "Caches \<Rightarrow> string \<Rightarrow> bool" where
  "background_held c k \<longleftrightarrow> k \<in> revalidating c"

definition take_inline :: "Caches \<Rightarrow> string \<Rightarrow> string list \<times> nat \<Rightarrow> Caches" where
  "take_inline c k x = fst (begin_inline_render c k (fst x) (snd x))"

definition take_background :: "Caches \<Rightarrow> string \<Rightarrow> unit \<Rightarrow> Caches" where
  "take_background c k x = (case try_start_revalidate c k of Some c' \<Rightarrow> c' | None \<Rightarrow> c)"

interpretation inline_claims: claim_registry inline_held take_inline drop_inline
  by unfold_locales
    (auto simp: inline_held_def take_inline_def drop_inline_def begin_inline_render_def update_conv' delete_conv'
      split: option.splits)

interpretation background_claims: claim_registry background_held take_background drop_revalidate
  by unfold_locales
    (auto simp: background_held_def take_background_def drop_revalidate_def try_start_revalidate_def)

fun held_of :: "kind \<Rightarrow> Caches \<Rightarrow> string \<Rightarrow> bool" where
  "held_of Inline = inline_held"
| "held_of Background = background_held"

definition claims_ok :: "server \<Rightarrow> bool" where
  "claims_ok s \<longleftrightarrow> (\<forall>kd. exclusive (held_of kd (caches s)) (holder kd s))"

lemma holder_goto: "holder kd (goto t tk s) = (holder kd s)(t := holds kd tk)"
  by (auto simp: holder_def fun_eq_iff)

lemma inline_held_views [simp]:
  "inline_held (processed_put c k r) = inline_held c" "inline_held (processed_remove c k) = inline_held c"
  "inline_held (bump_generation c k) = inline_held c" "inline_held (drop_revalidate c k) = inline_held c"
  by (rule ext, simp add: inline_held_def processed_put_def processed_remove_def bump_generation_def
      drop_revalidate_def)+

lemma background_held_views [simp]:
  "background_held (processed_put c k r) = background_held c"
  "background_held (processed_remove c k) = background_held c"
  "background_held (bump_generation c k) = background_held c"
  "background_held (drop_inline c k) = background_held c"
  by (rule ext, simp add: background_held_def processed_put_def processed_remove_def bump_generation_def
      drop_inline_def)+

lemma held_views [simp]:
  "held_of kd (processed_put c k r) = held_of kd c" "held_of kd (processed_remove c k) = held_of kd c"
  "held_of kd (bump_generation c k) = held_of kd c"
  by (cases kd; simp)+

text \<open>A step that leaves the registries alone and keeps what its task holds keeps the correspondence.\<close>

lemma claims_frame:
  assumes "claims_ok s" "tasks s t = Some tk" "tasks s' = (tasks s)(t := Some tk')"
    and "\<And>kd. held_of kd (caches s') = held_of kd (caches s)" "\<And>kd. holds kd tk' = holds kd tk"
  shows "claims_ok s'"
proof -
  have "holder kd s' = holder kd s" for kd using assms(2,3,5) by (auto simp: holder_def fun_eq_iff)
  then show ?thesis using assms(1,4) by (simp add: claims_ok_def)
qed

lemma drop_claim_ok:
  assumes "claims_ok s" "holder kd s t = Some key" "\<And>x. x \<noteq> kd \<Longrightarrow> holder x s t = None"
    and "\<And>x. holds x tk = None"
  shows "claims_ok (goto t tk (drop_claim kd key s))"
proof -
  have ex: "exclusive (held_of x (caches s)) (holder x s)" for x using assms(1) by (simp add: claims_ok_def)
  have keep: "(holder x s)(t := None) = holder x s" if "x \<noteq> kd" for x using assms(3) [OF that] by (simp add: fun_upd_idem)
  have h: "holder x (goto t tk (drop_claim kd key s)) = (holder x s)(t := None)" for x
    by (simp add: holder_def fun_eq_iff assms(4))
  have other: "exclusive (held_of x (caches s)) ((holder x s)(t := None))" if "x \<noteq> kd" for x
    using ex [of x] keep [OF that] by simp
  have "exclusive (held_of x (caches (drop_claim kd key s))) ((holder x s)(t := None))" for x
  proof (cases kd)
    case Background
    have "exclusive (background_held (drop_revalidate (caches s) key)) ((holder Background s)(t := None))"
      using background_claims.drop_exclusive ex [of Background] assms(2) Background by simp
    then show ?thesis using other [of Inline] by (cases x) (simp_all add: Background drop_claim_def)
  next
    case Inline
    have "inline_held (caches s) key" using exclusive_held [OF ex [of Inline]] assms(2) Inline by simp
    then obtain st where st: "map_of (inline_rendering (caches s)) key = Some st" by (auto simp: inline_held_def)
    have "exclusive (inline_held (drop_inline (caches s) key)) ((holder Inline s)(t := None))"
      using inline_claims.drop_exclusive ex [of Inline] assms(2) Inline by simp
    then show ?thesis using other [of Background] by (cases x) (simp_all add: Inline drop_claim_def st)
  qed
  then show ?thesis by (simp add: claims_ok_def h)
qed

lemma claims_take:
  assumes "claims_ok s" "\<not> held_of kd (caches s) key" "\<And>x. holder x s t = None"
    and "\<And>x. holds x tk = (if x = kd then Some key else None)"
    and "exclusive (held_of kd (caches s')) ((holder kd s)(t := Some key))"
    and "\<And>x. x \<noteq> kd \<Longrightarrow> held_of x (caches s') = held_of x (caches s)" "tasks s' = (tasks s)(t := Some tk)"
  shows "claims_ok s'"
  unfolding claims_ok_def
proof
  fix x
  have ex: "exclusive (held_of x (caches s)) (holder x s)" using assms(1) by (simp add: claims_ok_def)
  show "exclusive (held_of x (caches s')) (holder x s')"
  proof (cases "x = kd")
    case True
    have "holder kd s' = (holder kd s)(t := Some key)" using assms(4,7) by (auto simp: holder_def fun_eq_iff)
    then show ?thesis using assms(5) True by simp
  next
    case False
    have "holder x s' = holder x s" using assms(3) [of x] assms(4,7) False by (auto simp: holder_def fun_eq_iff)
    then show ?thesis using ex assms(6) [OF False] by simp
  qed
qed

lemma holder_at: "tasks s t = Some tk \<Longrightarrow> holder x s t = holds x tk"
  by (simp add: holder_def)

lemma claims_ex:
  assumes "claims_ok s"
  shows "exclusive (inline_held (caches s)) (holder Inline s)"
    and "exclusive (background_held (caches s)) (holder Background s)"
  using assms held_of.simps unfolding claims_ok_def by metis+

lemma revalidate_claims:
  assumes "claims_ok s" "tasks s t = Some (TryRevalidate key r)"
  shows "claims_ok (revalidate_step t key r s)"
proof (cases "try_start_revalidate (caches s) key")
  case None
  then show ?thesis using assms by (intro claims_frame [OF assms]) (auto simp: revalidate_step_def)
next
  case (Some c)
  have n: "\<not> background_held (caches s) key" and i: "inline_held c = inline_held (caches s)"
    using Some by (auto simp: try_start_revalidate_def background_held_def inline_held_def split: if_splits)
  have "c = take_background (caches s) key ()" by (simp add: take_background_def Some)
  then have "exclusive (background_held c) ((holder Background s)(t := Some key))"
    using background_claims.take_exclusive [OF claims_ex(2) [OF assms(1)] n, of t] assms(2)
    by (simp add: holder_at)
  moreover have "held_of x c = held_of x (caches s)" if "x \<noteq> Background" for x
    using that i by (cases x) simp_all
  ultimately show ?thesis using n
    by (intro claims_take [OF assms(1), of Background key t "ReadGeneration Background key (Some (Served r))"])
      (simp_all add: holder_at [OF assms(2)] revalidate_step_def Some eq_commute)
qed

lemma claim_claims:
  assumes "claims_ok s" "tasks s t = Some (Claiming key src)"
  shows "claims_ok (claim_step t key src s)"
proof (cases "map_of (inline_rendering (caches s)) key")
  case (Some st)
  then show ?thesis using assms
    by (intro claims_frame [OF assms]) (auto simp: claim_step_def begin_inline_render_def)
next
  case None
  have n: "\<not> inline_held (caches s) key" by (simp add: inline_held_def None)
  define c where "c = take_inline (caches s) key (src, t)"
  have b: "begin_inline_render (caches s) key src t = (c, Leader)"
    by (simp add: c_def take_inline_def begin_inline_render_def None)
  have i: "background_held c = background_held (caches s)"
    by (rule ext) (simp add: c_def take_inline_def begin_inline_render_def None background_held_def)
  have "exclusive (inline_held c) ((holder Inline s)(t := Some key))"
    using inline_claims.take_exclusive [OF claims_ex(1) [OF assms(1)] n, of t] assms(2)
    by (simp add: c_def holder_at)
  moreover have "held_of x c = held_of x (caches s)" if "x \<noteq> Inline" for x
    using that i by (cases x) simp_all
  ultimately show ?thesis using n
    by (intro claims_take [OF assms(1), of Inline key t "ReadGeneration Inline key None"])
      (simp_all add: holder_at [OF assms(2)] claim_step_def b eq_commute)
qed

lemma task_step_claims:
  assumes st: "task_step t tk e s = Some s'" and at: "tasks s t = Some tk" and ok: "claims_ok s"
  shows "claims_ok s'"
proof -
  note drop = drop_claim_ok [OF ok]
  show ?thesis
  proof (cases tk)
    case (TryRevalidate key r) then show ?thesis using st at revalidate_claims [OF ok] by auto
  next
    case (Claiming key src) then show ?thesis using st at claim_claims [OF ok] by auto
  next
    case (Removing kd key)
    have "s' = goto t Finished (drop_claim kd key s)" using st Removing by simp
    then show ?thesis using drop [of kd t key Finished] at Removing by (simp add: holder_at)
  next
    case (Release kd key a)
    show ?thesis
    proof (cases "env_contended e")
      case True
      then show ?thesis using st Release
        by (intro claims_frame [OF ok at, of s' "Removing kd key"]) (auto simp: release_step_def)
    next
      case False
      have "claims_ok (goto t Finished (drop_claim kd key s))"
        using drop [of kd t key Finished] at Release by (simp add: holder_at)
      moreover have "s' = goto t Finished (reply t a (drop_claim kd key s))"
        using st Release False by (simp add: release_step_def)
      moreover have "tasks (goto t Finished (reply t a z)) = tasks (goto t Finished z)"
        "caches (goto t Finished (reply t a z)) = caches (goto t Finished z)" for z by simp_all
      ultimately show ?thesis by (simp add: claims_ok_def holder_def [abs_def])
    qed
  next
    case (Rendering kd key g)
    show ?thesis using st at Rendering
      by (cases kd) (auto simp: step_defs intro!: claims_frame [OF ok at] split: render_result.splits if_splits)
  next
    case (Bumping ks)
    show ?thesis using st at Bumping by (cases ks) (auto intro!: claims_frame [OF ok at])
  qed (use st at in \<open>auto simp: step_defs
      intro!: claims_frame [OF ok at]
      split: option.splits if_splits render_result.splits InlineOutcome.splits list.splits kind.splits\<close>)
qed

section \<open>Channels\<close>

definition renders_known :: "server \<Rightarrow> bool" where
  "renders_known s \<longleftrightarrow>
     (\<forall>k st. map_of (inline_rendering (caches s)) k = Some st \<longrightarrow> holder Inline s (ir_done st) = Some k)"

definition waits_on :: "server \<Rightarrow> nat \<Rightarrow> string \<Rightarrow> nat \<Rightarrow> bool" where
  "waits_on s t key ch \<longleftrightarrow> (\<exists>src seen. tasks s t = Some (Waiting key src ch seen))"

definition channels_ok :: "server \<Rightarrow> bool" where
  "channels_ok s \<longleftrightarrow>
     (\<forall>t key ch. waits_on s t key ch \<longrightarrow>
        (ch_closed (channels s ch) \<and> tasks s ch = Some Finished) \<or>
        (\<exists>st. map_of (inline_rendering (caches s)) key = Some st \<and> ir_done st = ch))"

definition waits_known :: "server \<Rightarrow> bool" where
  "waits_known s \<longleftrightarrow> renders_known s \<and> channels_ok s"

definition waits_ok :: "server \<Rightarrow> bool" where
  "waits_ok s \<longleftrightarrow> claims_ok s \<and> renders_known s \<and> channels_ok s"

text \<open>A step that keeps the map of inline renders and closes no channel.\<close>

lemma waits_frame:
  assumes "renders_known s" "channels_ok s" "tasks s t = Some tk" "tk \<noteq> Finished"
    and "tasks s' = (tasks s)(t := Some tk')" "holds Inline tk' = holds Inline tk"
    and "inline_rendering (caches s') = inline_rendering (caches s)"
    and "\<And>ch. ch_closed (channels s' ch) = ch_closed (channels s ch)"
    and "\<And>key src ch seen. tk' = Waiting key src ch seen \<Longrightarrow>
           \<exists>st. map_of (inline_rendering (caches s)) key = Some st \<and> ir_done st = ch"
  shows "renders_known s' \<and> channels_ok s'"
proof
  have "holder Inline s' = holder Inline s" using assms(3,5,6) by (auto simp: holder_def fun_eq_iff)
  then show "renders_known s'" using assms(1,7) by (simp add: renders_known_def)
  show "channels_ok s'"
    unfolding channels_ok_def assms(7,8)
  proof (intro allI impI)
    fix u key ch assume w: "waits_on s' u key ch"
    show "(ch_closed (channels s ch) \<and> tasks s' ch = Some Finished) \<or>
      (\<exists>st. map_of (inline_rendering (caches s)) key = Some st \<and> ir_done st = ch)"
    proof (cases "u = t")
      case True then show ?thesis using w assms(5,9) by (auto simp: waits_on_def)
    next
      case False
      then have "waits_on s u key ch" using w assms(5) by (simp add: waits_on_def)
      then have "(ch_closed (channels s ch) \<and> tasks s ch = Some Finished) \<or>
          (\<exists>st. map_of (inline_rendering (caches s)) key = Some st \<and> ir_done st = ch)"
        using assms(2) unfolding channels_ok_def by blast
      then show ?thesis using assms(3,4,5) by (cases "ch = t") auto
    qed
  qed
qed

lemma fail_channels:
  "ch_closed (channels (fail_claim k n m b s) ch) = ch_closed (channels s ch)"
  by (simp add: fail_claim_def split: option.split)

lemma background_renders [simp]:
  "inline_rendering (processed_put c k r) = inline_rendering c"
  "inline_rendering (processed_remove c k) = inline_rendering c"
  "inline_rendering (bump_generation c k) = inline_rendering c"
  "inline_rendering (drop_revalidate c k) = inline_rendering c"
  by (simp_all add: processed_put_def processed_remove_def bump_generation_def drop_revalidate_def)

lemma waits_onD:
  assumes "channels_ok s" "waits_on s t key ch"
  shows "(ch_closed (channels s ch) \<and> tasks s ch = Some Finished) \<or>
    (\<exists>st. map_of (inline_rendering (caches s)) key = Some st \<and> ir_done st = ch)"
  using assms unfolding channels_ok_def by blast

lemma leader_waits:
  assumes rk: "renders_known s" and co: "channels_ok s" and at: "tasks s t = Some (Claiming key src)"
    and none: "map_of (inline_rendering (caches s)) key = None"
  shows "renders_known (claim_step t key src s) \<and> channels_ok (claim_step t key src s)"
proof
  let ?s = "claim_step t key src s"
  have m: "map_of (inline_rendering (caches ?s)) =
      (map_of (inline_rendering (caches s)))(key := Some \<lparr>ir_sources = src, ir_done = t\<rparr>)"
    and tk: "tasks ?s = (tasks s)(t := Some (ReadGeneration Inline key None))"
    and ch: "channels ?s = (channels s)(t := new_channel)"
    by (simp_all add: claim_step_def begin_inline_render_def none update_conv')
  have nt: "holder Inline s t = None" using at by (simp add: holder_def)
  have h: "holder Inline ?s = (holder Inline s)(t := Some key)" by (auto simp: holder_def fun_eq_iff tk)
  show "renders_known ?s"
    using rk nt unfolding renders_known_def m h by (auto split: if_splits)
  show "channels_ok ?s"
    unfolding channels_ok_def
  proof (intro allI impI)
    fix u k c assume w: "waits_on ?s u k c"
    have "u \<noteq> t" using w by (auto simp: waits_on_def tk)
    then have "waits_on s u k c" using w by (simp add: waits_on_def tk)
    from waits_onD [OF co this]
    show "(ch_closed (channels ?s c) \<and> tasks ?s c = Some Finished) \<or>
        (\<exists>st. map_of (inline_rendering (caches ?s)) k = Some st \<and> ir_done st = c)"
    proof
      assume c: "ch_closed (channels s c) \<and> tasks s c = Some Finished"
      then have "c \<noteq> t" using at by auto
      then show ?thesis using c by (simp add: ch tk)
    next
      assume "\<exists>st. map_of (inline_rendering (caches s)) k = Some st \<and> ir_done st = c"
      then show ?thesis using none by (auto simp: m)
    qed
  qed
qed

lemma drop_waits:
  assumes rk: "renders_known s" and co: "channels_ok s" and cl: "claims_ok s"
    and held: "holder kd s t = Some key" "\<And>x. x \<noteq> kd \<Longrightarrow> holder x s t = None"
    and at: "tasks s t = Some tk" "tk \<noteq> Finished"
    and s': "tasks s' = (tasks s)(t := Some Finished)" "caches s' = caches (drop_claim kd key s)"
      "channels s' = channels (drop_claim kd key s)"
  shows "renders_known s' \<and> channels_ok s'"
proof (cases kd)
  case Background
  then have "holds Inline tk = None" using held(2) [of Inline] at by (simp add: holder_def)
  then show ?thesis
    by (intro waits_frame [OF rk co at s'(1)]) (simp_all add: s' Background drop_claim_def)
next
  case Inline
  then have hk: "holder Inline s t = Some key" using held(1) by simp
  then have "inline_held (caches s) key" using exclusive_held [OF claims_ex(1) [OF cl]] by simp
  then obtain st where st: "map_of (inline_rendering (caches s)) key = Some st" by (auto simp: inline_held_def)
  then have "holder Inline s (ir_done st) = Some key" using rk unfolding renders_known_def by blast
  then have dn: "ir_done st = t" using exclusive_same [OF claims_ex(1) [OF cl]] hk by blast
  have m: "map_of (inline_rendering (caches s')) = (map_of (inline_rendering (caches s)))(key := None)"
    and ch: "channels s' = (channels s)(t := (channels s t)\<lparr>ch_closed := True\<rparr>)"
    by (simp_all add: s' Inline drop_claim_def st dn drop_inline_def delete_conv')
  have h: "holder Inline s' = (holder Inline s)(t := None)" by (auto simp: holder_def fun_eq_iff s'(1))
  have "renders_known s'"
    unfolding renders_known_def m h
  proof (intro allI impI)
    fix k x assume x: "((map_of (inline_rendering (caches s)))(key := None)) k = Some x"
    then have k: "k \<noteq> key" "map_of (inline_rendering (caches s)) k = Some x" by (auto split: if_splits)
    then have "holder Inline s (ir_done x) = Some k" using rk unfolding renders_known_def by blast
    then show "((holder Inline s)(t := None)) (ir_done x) = Some k" using k(1) hk by auto
  qed
  moreover have "channels_ok s'"
    unfolding channels_ok_def
  proof (intro allI impI)
    fix u k c assume w: "waits_on s' u k c"
    have "u \<noteq> t" using w by (auto simp: waits_on_def s'(1))
    then have "waits_on s u k c" using w by (simp add: waits_on_def s'(1))
    from waits_onD [OF co this]
    show "(ch_closed (channels s' c) \<and> tasks s' c = Some Finished) \<or>
        (\<exists>st. map_of (inline_rendering (caches s')) k = Some st \<and> ir_done st = c)"
    proof
      assume "ch_closed (channels s c) \<and> tasks s c = Some Finished"
      then show ?thesis by (simp add: ch s'(1))
    next
      assume "\<exists>x. map_of (inline_rendering (caches s)) k = Some x \<and> ir_done x = c"
      then show ?thesis using st dn by (cases "k = key") (auto simp: ch s'(1) m)
    qed
  qed
  ultimately show ?thesis ..
qed

lemma revalidate_renders:
  "try_start_revalidate c k = Some c' \<Longrightarrow> inline_rendering c' = inline_rendering c"
  by (auto simp: try_start_revalidate_def split: if_splits)

lemma task_step_waits:
  assumes st: "task_step t tk e s = Some s'" and at: "tasks s t = Some tk" and ok: "waits_ok s"
  shows "waits_ok s'"
proof -
  have inv: "renders_known s" "channels_ok s" "claims_ok s" using ok by (simp_all add: waits_ok_def)
  note frame = waits_frame [OF inv(1,2) at, folded waits_known_def]
  have "waits_known s'"
  proof (cases tk)
    case (Claiming key src)
    have s': "s' = claim_step t key src s" using st Claiming by simp
    show ?thesis
    proof (cases "map_of (inline_rendering (caches s)) key")
      case None then show ?thesis using leader_waits [OF inv(1,2), folded waits_known_def] at Claiming s' by simp
    next
      case (Some x)
      then show ?thesis using Claiming s'
        by (intro frame) (auto simp: claim_step_def begin_inline_render_def)
    qed
  next
    case (Removing kd key)
    have "s' = goto t Finished (drop_claim kd key s)" using st Removing by simp
    then show ?thesis
      using drop_waits [OF inv, folded waits_known_def, of kd t key tk s'] at Removing by (simp add: holder_at)
  next
    case (Release kd key a)
    show ?thesis
    proof (cases "env_contended e")
      case True
      then show ?thesis using st Release by (intro frame) (auto simp: release_step_def)
    next
      case False
      then have "s' = goto t Finished (reply t a (drop_claim kd key s))"
        using st Release by (simp add: release_step_def)
      then show ?thesis using drop_waits [OF inv, folded waits_known_def, of kd t key tk s'] at Release by (simp add: holder_at)
    qed
  next
    case (Rendering kd key g)
    show ?thesis using st at Rendering
      by (cases kd) (auto simp: step_defs fail_channels intro!: frame split: render_result.splits if_splits)
  next
    case (Bumping ks)
    show ?thesis using st at Bumping by (cases ks) (auto intro!: frame)
  qed (use st at in \<open>auto simp: step_defs
      intro!: frame dest: revalidate_renders
      split: option.splits if_splits render_result.splits InlineOutcome.splits\<close>)
  then show ?thesis using task_step_claims [OF st at inv(3)] by (simp add: waits_ok_def waits_known_def)
qed

lemma spawn_waits:
  assumes "spawn t tk s = Some s'" "waits_ok s" "\<And>x. holds x tk = None" "tk \<noteq> Finished"
    and "\<And>key src ch seen. tk \<noteq> Waiting key src ch seen"
  shows "waits_ok s'"
proof -
  have s': "s' = goto t tk s" and new: "tasks s t = None" using assms(1) by (auto simp: spawn_def split: if_splits)
  have h: "holder x s' = holder x s" for x using new assms(3) by (auto simp: s' holder_def fun_eq_iff)
  have w: "waits_on s' u k c \<Longrightarrow> waits_on s u k c" for u k c
    using assms(5) by (auto simp: s' waits_on_def split: if_splits)
  have "channels_ok s'"
    unfolding channels_ok_def
  proof (intro allI impI)
    fix u k c assume "waits_on s' u k c"
    then have "(ch_closed (channels s c) \<and> tasks s c = Some Finished) \<or>
        (\<exists>st. map_of (inline_rendering (caches s)) k = Some st \<and> ir_done st = c)"
      using waits_onD w assms(2) unfolding waits_ok_def by blast
    then show "(ch_closed (channels s' c) \<and> tasks s' c = Some Finished) \<or>
        (\<exists>st. map_of (inline_rendering (caches s')) k = Some st \<and> ir_done st = c)"
      using new by (auto simp: s')
  qed
  then show ?thesis using assms(2) h by (simp add: waits_ok_def claims_ok_def renders_known_def s')
qed

lemma upd_waits:
  assumes "waits_ok s" "\<And>kd. held_of kd (f (caches s)) = held_of kd (caches s)"
    and "inline_rendering (f (caches s)) = inline_rendering (caches s)"
  shows "waits_ok (upd f s)"
proof -
  have "holder x (upd f s) = holder x s" "waits_on (upd f s) t k c = waits_on s t k c" for x t k c
    by (simp_all add: holder_def waits_on_def fun_eq_iff)
  then show ?thesis using assms by (simp add: waits_ok_def claims_ok_def renders_known_def channels_ok_def)
qed

lemma serve_step_waits:
  assumes "serve_step e s = Some s'" "waits_ok s"
  shows "waits_ok s'"
proof (cases e)
  case (Step t en) then show ?thesis using assms task_step_waits by (auto split: option.splits)
next
  case (Request t key src) then show ?thesis using assms spawn_waits [of t "Lookup key src"] by simp
next
  case (SourceChanged t src) then show ?thesis using assms spawn_waits [of t "ScanEntries src"] by simp
next
  case (ProfileChanged t p) then show ?thesis using assms spawn_waits [of t "Bumping [profile_key p]"] by simp
next
  case (Evict k) then show ?thesis using assms upd_waits [of s] by auto
next
  case (EvictGeneration k)
  have "held_of kd (c\<lparr>generations := g\<rparr>) = held_of kd c" for kd c g
    by (cases kd; rule ext) (simp_all add: inline_held_def background_held_def)
  then show ?thesis using assms upd_waits [of s] EvictGeneration by auto
qed

lemma new_caches_held [simp]: "held_of kd new_caches k = False"
  by (cases kd) (simp_all add: new_caches_def inline_held_def background_held_def)

lemma new_server_waits: "waits_ok new_server"
proof -
  have c: "caches new_server = new_caches" "map_of (inline_rendering new_caches) k = None" for k
    by (simp_all add: new_server_def new_caches_def)
  show ?thesis
    by (simp add: waits_ok_def claims_ok_def renders_known_def channels_ok_def exclusive_def holder_def
        waits_on_def c)
qed

lemma run_events_waits:
  "run_events es s = Some s' \<Longrightarrow> waits_ok s \<Longrightarrow> waits_ok s'"
  by (induction es arbitrary: s) (auto split: option.splits dest: serve_step_waits)

section \<open>Progress\<close>

fun rank :: "task \<Rightarrow> nat" where
  "rank (ReadGeneration kd key a) = 9"
| "rank (Rendering kd key g) = 8"
| "rank (PutCheck kd key g r) = 7"
| "rank (PutInsert kd key g r) = 6"
| "rank (PutRecheck kd key g r) = 5"
| "rank (PutGet kd key r) = 4"
| "rank (DropBump kd key a) = 4"
| "rank (DropRemove kd key a) = 3"
| "rank (Release kd key a) = 2"
| "rank (Removing kd key) = 1"
| "rank _ = 0"

definition answers_in_time :: "kind \<Rightarrow> env \<Rightarrow> bool" where
  "answers_in_time kd e \<longleftrightarrow> kd = Inline \<or> env_result e \<noteq> RenderTimeout"

lemma holder_advances:
  assumes "holds kd tk = Some k" "answers_in_time kd e"
  shows "\<exists>s' tk'. task_step t tk e s = Some s' \<and> tasks s' t = Some tk' \<and> rank tk' < rank tk \<and>
    (holds kd tk' = Some k \<or> tk' = Finished)"
  using assms
  by (cases "(t, tk, e, s)" rule: task_step.cases)
    (auto simp: step_defs answers_in_time_def split: render_result.splits if_splits)

lemma rank_bound: "rank tk \<le> 9"
  by (cases tk) simp_all

lemma renderer_ends:
  assumes "waits_ok s" "tasks s t = Some tk" "holds kd tk = Some k"
    and "list_all (answers_in_time kd) envs" "rank tk \<le> length envs"
  shows "\<exists>n s'. n \<le> rank tk \<and> run_events (map (Step t) (take n envs)) s = Some s' \<and> tasks s' t = Some Finished \<and>
    (\<forall>u. u \<noteq> t \<longrightarrow> tasks s' u = tasks s u) \<and> waits_ok s'"
  using assms
proof (induction envs arbitrary: s tk)
  case Nil
  then have "rank tk = 0" by simp
  then show ?case using Nil(3) by (cases tk) auto
next
  case (Cons e envs)
  obtain s1 tk1 where st: "task_step t tk e s = Some s1" and at: "tasks s1 t = Some tk1"
    and less: "rank tk1 < rank tk" and nxt: "holds kd tk1 = Some k \<or> tk1 = Finished"
    using holder_advances [OF Cons.prems(3), of e t s] Cons.prems(4) by auto
  have ok1: "waits_ok s1" using task_step_waits [OF st Cons.prems(2,1)] .
  have one: "\<forall>u. u \<noteq> t \<longrightarrow> tasks s1 u = tasks s u" using task_step_one [OF st] by (simp add: steps_one_def)
  have run1: "run_events (map (Step t) (take (Suc n) (e # envs))) s = run_events (map (Step t) (take n envs)) s1" for n
    using Cons.prems(2) st by simp
  show ?case
  proof (cases "tk1 = Finished")
    case True
    then have "run_events (map (Step t) (take (Suc 0) (e # envs))) s = Some s1" using run1 [of 0] by simp
    then show ?thesis using at ok1 one less True by (metis Suc_leI less_nat_zero_code linorder_not_le not_gr_zero)
  next
    case False
    then have "holds kd tk1 = Some k" using nxt by blast
    then obtain n s2 where n: "n \<le> rank tk1" "run_events (map (Step t) (take n envs)) s1 = Some s2"
      "tasks s2 t = Some Finished" "\<forall>u. u \<noteq> t \<longrightarrow> tasks s2 u = tasks s1 u" "waits_ok s2"
      using Cons.IH [OF ok1 at] Cons.prems(4,5) less by fastforce
    then have "run_events (map (Step t) (take (Suc n) (e # envs))) s = Some s2" "Suc n \<le> rank tk"
      using run1 less by auto
    then show ?thesis using n one by metis
  qed
qed

text \<open>
  C33: a request never sleeps on a render that is gone. Whatever has happened before, a waiter's channel
  is already closed, or it belongs to a task that still holds the inline claim; and nine steps of that
  task, whatever its rendering does (an answer, a failure, a timeout or a panic), contended locks
  included, let the waiter go on without its own timeout. (Requests
  run to their end: what a client that leaves halfway does is in \<open>Cache_Exports.dropped_claim_never_released\<close>.)
\<close>

theorem waiter_wakes:
  assumes "run_events es new_server = Some s" "tasks s t = Some (Waiting key src ch seen)"
    and "9 \<le> length envs"
  shows "\<exists>n s' s''. n \<le> 9 \<and> run_events (map (Step ch) (take n envs)) s = Some s' \<and>
    serve_step (Step t en) s' = Some s''"
proof -
  have ok: "waits_ok s" using run_events_waits [OF assms(1) new_server_waits] .
  then have co: "channels_ok s" and rk: "renders_known s" by (simp_all add: waits_ok_def)
  have w: "waits_on s t key ch" using assms(2) by (auto simp: waits_on_def)
  have wake: "\<exists>s''. serve_step (Step t en) s' = Some s''"
    if s': "tasks s' t = Some (Waiting key src ch seen)" "ch_closed (channels s' ch)" for s'
    using s' by (simp add: wait_step_def)
  from waits_onD [OF co w] show ?thesis
  proof
    assume "ch_closed (channels s ch) \<and> tasks s ch = Some Finished"
    then have "\<exists>s''. serve_step (Step t en) s = Some s''" using wake [OF assms(2)] by blast
    moreover have "run_events (map (Step ch) (take 0 envs)) s = Some s" by simp
    ultimately show ?thesis by blast
  next
    assume "\<exists>st. map_of (inline_rendering (caches s)) key = Some st \<and> ir_done st = ch"
    then have "holder Inline s ch = Some key" using rk unfolding renders_known_def by blast
    then obtain tk where tk: "tasks s ch = Some tk" "holds Inline tk = Some key"
      by (auto simp: holder_def split: option.splits)
    have "list_all (answers_in_time Inline) envs" by (simp add: answers_in_time_def list_all_iff)
    then obtain n s' where n: "n \<le> rank tk" "run_events (map (Step ch) (take n envs)) s = Some s'"
      "tasks s' ch = Some Finished" "\<forall>u. u \<noteq> ch \<longrightarrow> tasks s' u = tasks s u" "waits_ok s'"
      using renderer_ends [OF ok tk, of envs] rank_bound [of tk] assms(3) by fastforce
    have "t \<noteq> ch" using tk assms(2) by auto
    then have at: "tasks s' t = Some (Waiting key src ch seen)" using n(4) assms(2) by simp
    then have "waits_on s' t key ch" by (auto simp: waits_on_def)
    then have "ch_closed (channels s' ch)"
      using waits_onD [of s'] n(3,5) unfolding waits_ok_def renders_known_def
      by (fastforce simp: holder_def)
    then show ?thesis using wake [OF at] n(1,2) rank_bound [of tk] le_trans by blast
  qed
qed

end
