(* ===== verification/Cache_Exports.thy ===== *)
theory Cache_Exports
  imports Cache_Claims
begin

text \<open>
  The processed cache with everything that runs on it. The tasks of \<open>Caches\<close> are the requests of
  \<open>serve_cached\<close>, its background renders and the invalidations, none of which stops halfway. Here they run
  beside the exports, whose \<open>cached_render\<close> (\<open>fumox-server/src/alive_export.rs\<close>) shares the inline claims
  and writes to the same cache, and the client of a request may disconnect: the server then drops the
  future of the request at the \<open>await\<close> it has reached, and with it the guards it holds. What has been
  spawned (a background render, the removal of a claim under a contended lock) goes on.
\<close>

section \<open>The exports\<close>

datatype Tier = AliveTier | ReadyTier

fun tier_name :: "Tier \<Rightarrow> string" where
  "tier_name AliveTier = ''alive''"
| "tier_name ReadyTier = ''ready''"

definition cache_key :: "Tier \<Rightarrow> string" where
  "cache_key tier = ''export:'' @ tier_name tier"

text \<open>
  One request of a tier, a step per \<open>await\<close>. The flag of a rendering says whether it runs under the claim
  (the leader) or after a wait that ended without a fresh entry.
\<close>

datatype export_task =
    ExLookup Tier
  | ExClaiming Tier
  | ExWaiting Tier nat nat
  | ExWoken Tier
  | ExReadGeneration Tier
  | ExRendering Tier bool
  | ExPut Tier bool Rendered
  | ExRelease Tier "answer option"
  | ExRemoving Tier
  | ExFinished

record wide =
  served :: server
  exports :: "nat \<Rightarrow> export_task option"
  ex_answers :: "nat \<Rightarrow> answer option"

definition new_wide :: wide where
  "new_wide = \<lparr>served = new_server, exports = (\<lambda>_. None), ex_answers = (\<lambda>_. None)\<rparr>"

definition export_goto :: "nat \<Rightarrow> export_task \<Rightarrow> wide \<Rightarrow> wide" where
  "export_goto t k w = w\<lparr>exports := (exports w)(t := Some k)\<rparr>"

definition on_server :: "(server \<Rightarrow> server) \<Rightarrow> wide \<Rightarrow> wide" where
  "on_server f w = w\<lparr>served := f (served w)\<rparr>"

definition export_reply :: "nat \<Rightarrow> answer option \<Rightarrow> wide \<Rightarrow> wide" where
  "export_reply t a w = (case a of None \<Rightarrow> w | Some _ \<Rightarrow> w\<lparr>ex_answers := (ex_answers w)(t := a)\<rparr>)"

abbreviation wide_caches :: "wide \<Rightarrow> Caches" where
  "wide_caches w \<equiv> caches (served w)"

text \<open>The fresh entry of a tier, if there is one; an expired one is never served.\<close>

definition fresh_entry :: "Caches \<Rightarrow> Tier \<Rightarrow> int \<Rightarrow> Rendered option" where
  "fresh_entry c tier now =
     (case processed_get c (cache_key tier) of
        Some r \<Rightarrow> if is_fresh r now then Some r else None
      | None \<Rightarrow> None)"

definition export_lookup :: "nat \<Rightarrow> Tier \<Rightarrow> export_task \<Rightarrow> env \<Rightarrow> wide \<Rightarrow> wide" where
  "export_lookup t tier otherwise e w =
     (case fresh_entry (wide_caches w) tier (env_now e) of
        Some r \<Rightarrow> export_goto t ExFinished (export_reply t (Some (Served r)) w)
      | None \<Rightarrow> export_goto t otherwise w)"

definition export_claim :: "nat \<Rightarrow> Tier \<Rightarrow> wide \<Rightarrow> wide" where
  "export_claim t tier w =
     (case begin_inline_render (wide_caches w) (cache_key tier) [] t of
        (c, Leader) \<Rightarrow> export_goto t (ExReadGeneration tier)
            (on_server (\<lambda>s. (upd (\<lambda>_. c) s)\<lparr>channels := (channels s)(t := new_channel)\<rparr>) w)
      | (_, Wait ch) \<Rightarrow> export_goto t (ExWaiting tier ch (ch_version (channels (served w) ch))) w)"

text \<open>
  The wait of an export: whether it timed out, was woken by a send or by the end of the claim, or is still
  waiting; what the leader did is not read.
\<close>

definition export_wait :: "nat \<Rightarrow> Tier \<Rightarrow> nat \<Rightarrow> nat \<Rightarrow> env \<Rightarrow> wide \<Rightarrow> wide option" where
  "export_wait t tier ch seen e w =
     (if env_timeout e then Some (export_goto t (ExRendering tier False) w)
      else if ch_closed (channels (served w) ch) \<or> seen < ch_version (channels (served w) ch)
      then Some (export_goto t (ExWoken tier) w)
      else None)"

text \<open>The end of a request: an early return drops the claim of a leader; a waiter has none.\<close>

definition export_end :: "nat \<Rightarrow> Tier \<Rightarrow> bool \<Rightarrow> answer option \<Rightarrow> wide \<Rightarrow> wide" where
  "export_end t tier claimed a w =
     (if claimed then export_goto t (ExRelease tier a) w else export_goto t ExFinished (export_reply t a w))"

definition export_rendered :: "nat \<Rightarrow> Tier \<Rightarrow> bool \<Rightarrow> env \<Rightarrow> wide \<Rightarrow> wide option" where
  "export_rendered t tier claimed e w =
     (case env_result e of
        RenderOk r \<Rightarrow> Some (export_goto t (ExPut tier claimed r) w)
      | RenderErr _ _ _ \<Rightarrow> Some (export_end t tier claimed (Some (Refused 500 ''internal server error'')) w)
      | RenderTimeout \<Rightarrow> None
      | RenderPanic \<Rightarrow> Some (export_end t tier claimed None w))"

definition export_put :: "nat \<Rightarrow> Tier \<Rightarrow> bool \<Rightarrow> Rendered \<Rightarrow> wide \<Rightarrow> wide" where
  "export_put t tier claimed r w =
     export_end t tier claimed (Some (Served r))
       (on_server (\<lambda>s. (upd (\<lambda>c. processed_put c (cache_key tier) r) s)
          \<lparr>stamps := (stamps s)(cache_key tier := generation (caches s) (cache_key tier))\<rparr>) w)"

definition export_drop :: "nat \<Rightarrow> Tier \<Rightarrow> bool \<Rightarrow> wide \<Rightarrow> wide" where
  "export_drop t tier contended w =
     (if contended then export_goto t (ExRemoving tier) w
      else export_goto t ExFinished (on_server (drop_claim Inline (cache_key tier)) w))"

fun export_step :: "nat \<Rightarrow> export_task \<Rightarrow> env \<Rightarrow> wide \<Rightarrow> wide option" where
  "export_step t (ExLookup tier) e w = Some (export_lookup t tier (ExClaiming tier) e w)"
| "export_step t (ExClaiming tier) e w = Some (export_claim t tier w)"
| "export_step t (ExWaiting tier ch seen) e w = export_wait t tier ch seen e w"
| "export_step t (ExWoken tier) e w = Some (export_lookup t tier (ExRendering tier False) e w)"
| "export_step t (ExReadGeneration tier) e w = Some (export_goto t (ExRendering tier True) w)"
| "export_step t (ExRendering tier claimed) e w = export_rendered t tier claimed e w"
| "export_step t (ExPut tier claimed r) e w = Some (export_put t tier claimed r w)"
| "export_step t (ExRelease tier a) e w = Some (export_drop t tier (env_contended e) (export_reply t a w))"
| "export_step t (ExRemoving tier) e w = Some (export_drop t tier False w)"
| "export_step t ExFinished e w = None"

section \<open>Disconnects\<close>

text \<open>
  The future of a request dropped at its \<open>await\<close>. From the end of the registration to the read of the
  generation the claim is in its registry but no guard exists: the drop leaves it there. Later the guard
  of an inline render is dropped with the future; what a background render does is a task of its own.
\<close>

definition abandon :: "nat \<Rightarrow> string \<Rightarrow> bool \<Rightarrow> server \<Rightarrow> server" where
  "abandon t key contended s =
     (if contended then goto t (Removing Inline key) s else goto t Finished (drop_claim Inline key s))"

fun cancel :: "nat \<Rightarrow> task \<Rightarrow> bool \<Rightarrow> server \<Rightarrow> server option" where
  "cancel t (Rendering Inline key g) b s = Some (abandon t key b s)"
| "cancel t (PutCheck Inline key g r) b s = Some (abandon t key b s)"
| "cancel t (PutInsert Inline key g r) b s = Some (abandon t key b s)"
| "cancel t (PutRecheck Inline key g r) b s = Some (abandon t key b s)"
| "cancel t (PutGet Inline key r) b s = Some (abandon t key b s)"
| "cancel t (DropBump Inline key a) b s = Some (abandon t key b s)"
| "cancel t (DropRemove Inline key a) b s = Some (abandon t key b s)"
| "cancel t (Rendering Background key g) b s = None"
| "cancel t (PutCheck Background key g r) b s = None"
| "cancel t (PutInsert Background key g r) b s = None"
| "cancel t (PutRecheck Background key g r) b s = None"
| "cancel t (PutGet Background key r) b s = None"
| "cancel t (DropBump Background key a) b s = None"
| "cancel t (DropRemove Background key a) b s = None"
| "cancel t (Release kd key a) b s = None"
| "cancel t (Removing kd key) b s = None"
| "cancel t Finished b s = None"
| "cancel t tk b s = Some (goto t Finished s)"

fun export_cancel :: "nat \<Rightarrow> export_task \<Rightarrow> bool \<Rightarrow> wide \<Rightarrow> wide option" where
  "export_cancel t (ExRendering tier True) b w = Some (export_drop t tier b w)"
| "export_cancel t (ExPut tier True r) b w = Some (export_drop t tier b w)"
| "export_cancel t (ExRelease tier a) b w = None"
| "export_cancel t (ExRemoving tier) b w = None"
| "export_cancel t ExFinished b w = None"
| "export_cancel t tk b w = Some (export_goto t ExFinished w)"

section \<open>Runs\<close>

datatype wide_event =
    Serve event
  | ExportRequest nat Tier
  | ExportStep nat env
  | Disconnect nat bool
  | ExportDisconnect nat bool

fun started_by :: "event \<Rightarrow> nat option" where
  "started_by (Request t key sources) = Some t"
| "started_by (SourceChanged t source_id) = Some t"
| "started_by (ProfileChanged t profile_id) = Some t"
| "started_by _ = None"

definition taken :: "wide \<Rightarrow> nat \<Rightarrow> bool" where
  "taken w t \<longleftrightarrow> tasks (served w) t \<noteq> None \<or> exports w t \<noteq> None"

definition id_free :: "wide \<Rightarrow> event \<Rightarrow> bool" where
  "id_free w ev = (case started_by ev of Some t \<Rightarrow> \<not> taken w t | None \<Rightarrow> True)"

fun wide_step :: "wide_event \<Rightarrow> wide \<Rightarrow> wide option" where
  "wide_step (Serve ev) w =
     (if id_free w ev then map_option (\<lambda>s. w\<lparr>served := s\<rparr>) (serve_step ev (served w)) else None)"
| "wide_step (ExportRequest t tier) w =
     (if taken w t then None else Some (export_goto t (ExLookup tier) w))"
| "wide_step (ExportStep t e) w = (case exports w t of None \<Rightarrow> None | Some tk \<Rightarrow> export_step t tk e w)"
| "wide_step (Disconnect t b) w =
     (case tasks (served w) t of
        None \<Rightarrow> None
      | Some tk \<Rightarrow> map_option (\<lambda>s. w\<lparr>served := s\<rparr>) (cancel t tk b (served w)))"
| "wide_step (ExportDisconnect t b) w = (case exports w t of None \<Rightarrow> None | Some tk \<Rightarrow> export_cancel t tk b w)"

fun run_wide :: "wide_event list \<Rightarrow> wide \<Rightarrow> wide option" where
  "run_wide [] w = Some w"
| "run_wide (e # es) w = (case wide_step e w of None \<Rightarrow> None | Some w' \<Rightarrow> run_wide es w')"

section \<open>Who renders\<close>

text \<open>Tasks of both sorts: \<open>Inl\<close> of the server, \<open>Inr\<close> of the exports.\<close>

type_synonym task_id = "nat + nat"

fun ex_holds :: "export_task \<Rightarrow> Tier option" where
  "ex_holds (ExReadGeneration tier) = Some tier"
| "ex_holds (ExRendering tier claimed) = (if claimed then Some tier else None)"
| "ex_holds (ExPut tier claimed r) = (if claimed then Some tier else None)"
| "ex_holds (ExRelease tier a) = Some tier"
| "ex_holds (ExRemoving tier) = Some tier"
| "ex_holds _ = None"

text \<open>An export that renders because its wait has ended without a fresh entry.\<close>

fun ex_unclaimed :: "export_task \<Rightarrow> Tier option" where
  "ex_unclaimed (ExRendering tier claimed) = (if claimed then None else Some tier)"
| "ex_unclaimed (ExPut tier claimed r) = (if claimed then None else Some tier)"
| "ex_unclaimed _ = None"

definition export_key :: "(export_task \<Rightarrow> Tier option) \<Rightarrow> wide \<Rightarrow> nat \<Rightarrow> string option" where
  "export_key f w t = (case exports w t of None \<Rightarrow> None | Some tk \<Rightarrow> map_option cache_key (f tk))"

fun claimant :: "kind \<Rightarrow> wide \<Rightarrow> task_id \<Rightarrow> string option" where
  "claimant kd w (Inl t) = holder kd (served w) t"
| "claimant kd w (Inr t) = (case kd of Inline \<Rightarrow> export_key ex_holds w t | Background \<Rightarrow> None)"

fun after_wait :: "wide \<Rightarrow> task_id \<Rightarrow> string option" where
  "after_wait w (Inl t) = None"
| "after_wait w (Inr t) = export_key ex_unclaimed w t"

definition renders :: "kind \<Rightarrow> wide \<Rightarrow> task_id \<Rightarrow> string option" where
  "renders kd w i =
     (case claimant kd w i of Some k \<Rightarrow> Some k | None \<Rightarrow> if kd = Inline then after_wait w i else None)"

section \<open>Claims and their holders\<close>

text \<open>Every holder has its claim and no other task the same one; a claim may have lost its holder.\<close>

definition kept :: "(string \<Rightarrow> bool) \<Rightarrow> ('i \<Rightarrow> string option) \<Rightarrow> bool" where
  "kept P H \<longleftrightarrow>
     (\<forall>i k. H i = Some k \<longrightarrow> P k) \<and> (\<forall>i j k. H i = Some k \<longrightarrow> H j = Some k \<longrightarrow> i = j)"

text \<open>What one step does to a registry \<open>P\<close> and to what its task holds: nothing, forget, take or drop.\<close>

definition claim_effect :: "(string \<Rightarrow> bool) \<Rightarrow> (string \<Rightarrow> bool) \<Rightarrow> string option \<Rightarrow> string option \<Rightarrow> bool" where
  "claim_effect P P' h h' \<longleftrightarrow>
     (P' = P \<and> (h' = h \<or> h' = None)) \<or>
     (\<exists>k. h = None \<and> h' = Some k \<and> \<not> P k \<and> P' = (\<lambda>k'. k' = k \<or> P k')) \<or>
     (\<exists>k. h = Some k \<and> h' = None \<and> P' = (\<lambda>k'. k' \<noteq> k \<and> P k'))"

lemma kept_effect:
  assumes "kept P H" "claim_effect P P' (H i) (H' i)" "\<And>j. j \<noteq> i \<Longrightarrow> H' j = H j"
  shows "kept P' H'"
proof -
  have H': "H' = H(i := H' i)" using assms(3) by auto
  show ?thesis
    using assms(2) unfolding claim_effect_def
  proof (elim disjE exE conjE)
    assume "P' = P" "H' i = H i" then show ?thesis using assms(1) H' by simp
  next
    assume "P' = P" "H' i = None"
    then show ?thesis using assms(1) H' unfolding kept_def by (metis fun_upd_apply option.distinct(1))
  next
    fix k assume k: "H i = None" "H' i = Some k" "\<not> P k" "P' = (\<lambda>k'. k' = k \<or> P k')"
    have new: "H j \<noteq> Some k" for j using assms(1) k(3) unfolding kept_def by blast
    show ?thesis
      unfolding kept_def
    proof (intro conjI allI impI)
      fix j l assume "H' j = Some l" then show "P' l"
        using assms(1,3) k(2,4) unfolding kept_def by (cases "j = i") auto
    next
      fix j j' l assume "H' j = Some l" "H' j' = Some l"
      then show "j = j'" using assms(1,3) k(2) new unfolding kept_def by (metis option.inject)
    qed
  next
    fix k assume k: "H i = Some k" "H' i = None" "P' = (\<lambda>k'. k' \<noteq> k \<and> P k')"
    show ?thesis
      unfolding kept_def
    proof (intro conjI allI impI)
      fix j l assume l: "H' j = Some l"
      then have "j \<noteq> i" "H j = Some l" using k(2) assms(3) by (auto, metis option.distinct(1))
      then show "P' l" using assms(1) k(1,3) unfolding kept_def by metis
    next
      fix j j' l assume "H' j = Some l" "H' j' = Some l"
      then show "j = j'" using assms(1,3) k(2) unfolding kept_def by (metis option.distinct(1))
    qed
  qed
qed

text \<open>A claim no task holds: no step of any task releases it, and none takes it.\<close>

definition orphaned :: "(string \<Rightarrow> bool) \<Rightarrow> ('i \<Rightarrow> string option) \<Rightarrow> string \<Rightarrow> bool" where
  "orphaned P H k \<longleftrightarrow> P k \<and> (\<forall>i. H i \<noteq> Some k)"

lemma orphaned_effect:
  assumes "orphaned P H k" "claim_effect P P' (H i) (H' i)" "\<And>j. j \<noteq> i \<Longrightarrow> H' j = H j"
  shows "orphaned P' H' k"
  unfolding orphaned_def
proof
  show "P' k" using assms(1,2) unfolding orphaned_def claim_effect_def by auto
  have "H' i \<noteq> Some k" using assms(1,2) unfolding orphaned_def claim_effect_def by auto
  then show "\<forall>j. H' j \<noteq> Some k" using assms(1,3) unfolding orphaned_def by metis
qed

lemma same_effect: "P' = P \<Longrightarrow> h' = h \<Longrightarrow> claim_effect P P' h h'"
  and forget_effect: "P' = P \<Longrightarrow> claim_effect P P' h None"
  and take_effect: "\<not> P k \<Longrightarrow> claim_effect P (\<lambda>k'. k' = k \<or> P k') None (Some k)"
  and drop_effect: "claim_effect P (\<lambda>k'. k' \<noteq> k \<and> P k') (Some k) None"
  by (auto simp: claim_effect_def)

section \<open>What each step does to the claims\<close>

lemma held_drop_claim:
  "held_of x (caches (drop_claim kd key s)) =
     (if x = kd then (\<lambda>k. k \<noteq> key \<and> held_of x (caches s) k) else held_of x (caches s))"
proof -
  have "inline_held (caches (drop_claim Inline key s)) = (\<lambda>k. k \<noteq> key \<and> inline_held (caches s) k)"
    by (auto simp: drop_claim_def inline_held_def drop_inline_def delete_conv' fun_eq_iff split: option.split)
  moreover have "background_held (caches (drop_claim Inline key s)) = background_held (caches s)"
    by (simp add: drop_claim_def split: option.split)
  moreover have "background_held (caches (drop_claim Background key s)) = (\<lambda>k. k \<noteq> key \<and> background_held (caches s) k)"
    by (auto simp: drop_claim_def background_held_def drop_revalidate_def fun_eq_iff)
  ultimately show ?thesis by (cases x; cases kd) (simp_all add: drop_claim_def)
qed

lemmas held_drop_inline = held_drop_claim [of Inline Inline] held_drop_claim [of Background Inline]

lemma held_begin:
  assumes "begin_inline_render c key src ch = (c', Leader)"
  shows "\<not> inline_held c key" "inline_held c' = (\<lambda>k. k = key \<or> inline_held c k)" "background_held c' = background_held c"
  using assms
  by (auto simp: begin_inline_render_def inline_held_def background_held_def fun_eq_iff update_conv'
      split: option.splits)

lemma held_revalidate:
  assumes "try_start_revalidate c key = Some c'"
  shows "\<not> background_held c key" "background_held c' = (\<lambda>k. k = key \<or> background_held c k)"
    "inline_held c' = inline_held c"
  using assms
  by (auto simp: try_start_revalidate_def inline_held_def background_held_def fun_eq_iff split: if_splits)

lemma other_holder: "tasks s' u = tasks s u \<Longrightarrow> holder kd s' u = holder kd s u"
  by (simp add: holder_def)

definition task_effect :: "kind \<Rightarrow> server \<Rightarrow> server \<Rightarrow> nat \<Rightarrow> bool" where
  "task_effect kd s s' t \<longleftrightarrow>
     claim_effect (held_of kd (caches s)) (held_of kd (caches s')) (holder kd s t) (holder kd s' t)"

lemma task_effect_same:
  "held_of kd (caches s') = held_of kd (caches s) \<Longrightarrow> holder kd s' t = holder kd s t \<Longrightarrow> task_effect kd s s' t"
  by (simp add: task_effect_def same_effect)

lemma drop_task_effect:
  assumes "tasks s t = Some tk" "holds kd tk = Some key" "\<And>x. x \<noteq> kd \<Longrightarrow> holds x tk = None"
    and "tasks s' t = Some Finished" "caches s' = caches (drop_claim kd key s)"
  shows "task_effect x s s' t"
  using assms drop_effect [of "held_of x (caches s)" key]
  by (cases "x = kd") (auto simp: task_effect_def holder_at held_drop_claim same_effect)

lemma claim_effect_step:
  assumes "tasks s t = Some (Claiming key src)"
  shows "task_effect kd s (claim_step t key src s) t"
proof (cases "begin_inline_render (caches s) key src t")
  case (Pair c cl)
  show ?thesis
  proof (cases cl)
    case Leader
    note h = held_begin [OF Pair [unfolded Leader]]
    show ?thesis
      by (cases kd)
        (simp_all add: task_effect_def claim_step_def Pair Leader holder_def assms h same_effect
          take_effect)
  next
    case (Wait ch)
    then show ?thesis
      by (intro task_effect_same) (simp_all add: claim_step_def Pair holder_def assms)
  qed
qed

lemma revalidate_effect_step:
  assumes "tasks s t = Some (TryRevalidate key r)"
  shows "task_effect kd s (revalidate_step t key r s) t"
proof (cases "try_start_revalidate (caches s) key")
  case None
  then show ?thesis
    by (intro task_effect_same) (simp_all add: revalidate_step_def holder_def assms)
next
  case (Some c)
  note h = held_revalidate [OF Some]
  show ?thesis
    by (cases kd)
      (simp_all add: task_effect_def revalidate_step_def Some holder_def assms h same_effect
        take_effect)
qed

lemma task_step_effect:
  assumes st: "task_step t tk e s = Some s'" and at: "tasks s t = Some tk"
  shows "task_effect kd s s' t"
proof (cases tk)
  case (Claiming key src) then show ?thesis using st at claim_effect_step [of s t key src kd] by auto
next
  case (TryRevalidate key r) then show ?thesis using st at revalidate_effect_step [of s t key r kd] by auto
next
  case (Removing k key)
  then have "s' = goto t Finished (drop_claim k key s)" using st by simp
  then show ?thesis using at Removing by (intro drop_task_effect [OF at, of k key]) auto
next
  case (Release k key a)
  show ?thesis
  proof (cases "env_contended e")
    case True
    then show ?thesis using st at Release
      by (intro task_effect_same) (auto simp: release_step_def holder_def)
  next
    case False
    then have "s' = goto t Finished (reply t a (drop_claim k key s))" using st Release by (simp add: release_step_def)
    then show ?thesis using at Release by (intro drop_task_effect [OF at, of k key]) auto
  qed
next
  case (Rendering k key g)
  show ?thesis using st at Rendering
    by (cases k) (auto simp: step_defs holder_def intro!: task_effect_same split: render_result.splits if_splits)
next
  case (Bumping ks)
  show ?thesis using st at Bumping by (cases ks) (auto simp: holder_def intro!: task_effect_same)
qed (use st at in \<open>auto simp: step_defs holder_def intro!: task_effect_same
    split: option.splits if_splits render_result.splits InlineOutcome.splits\<close>)

lemma abandon_effect:
  assumes "tasks s t = Some tk" "holds Inline tk = Some key" "holds Background tk = None"
  shows "task_effect kd s (abandon t key b s) t"
proof (cases b)
  case True
  then show ?thesis using assms
    by (intro task_effect_same) (cases kd; auto simp: abandon_def holder_def)+
next
  case False
  then show ?thesis using assms
    by (intro drop_task_effect [OF assms(1,2)]) (auto simp: abandon_def, metis kind.exhaust)
qed

lemma forget_task_effect:
  "caches s' = caches s \<Longrightarrow> tasks s' t = Some Finished \<Longrightarrow> task_effect kd s s' t"
  by (simp add: task_effect_def holder_def forget_effect)

lemma cancel_effect:
  assumes "cancel t tk b s = Some s'" "tasks s t = Some tk"
  shows "task_effect kd s s' t"
  using assms
  by (cases "(t, tk, b, s)" rule: cancel.cases)
    (auto intro: abandon_effect forget_task_effect)

lemma cancel_one: "cancel t tk b s = Some s' \<Longrightarrow> steps_one s s' t"
  by (cases "(t, tk, b, s)" rule: cancel.cases) (auto simp: steps_one_def abandon_def)

lemma export_simps [simp]:
  "served (export_goto t k w) = served w" "exports (export_goto t k w) = (exports w)(t := Some k)"
  "served (on_server f w) = f (served w)" "exports (on_server f w) = exports w"
  "served (export_reply t a w) = served w" "exports (export_reply t a w) = exports w"
  "ex_answers (export_goto t k w) = ex_answers w" "ex_answers (on_server f w) = ex_answers w"
  "ex_answers (export_reply t (Some x) w) = (ex_answers w)(t := Some x)"
  by (simp_all add: export_goto_def on_server_def export_reply_def split: option.split)

definition wide_effect :: "kind \<Rightarrow> wide \<Rightarrow> wide \<Rightarrow> task_id \<Rightarrow> bool" where
  "wide_effect kd w w' i \<longleftrightarrow>
     claim_effect (held_of kd (wide_caches w)) (held_of kd (wide_caches w')) (claimant kd w i) (claimant kd w' i) \<and>
     (\<forall>j. j \<noteq> i \<longrightarrow> claimant kd w' j = claimant kd w j)"

lemma server_effect:
  assumes "task_effect kd (served w) s' t" "steps_one (served w) s' t"
  shows "wide_effect kd w (w\<lparr>served := s'\<rparr>) (Inl t)"
  unfolding wide_effect_def
proof (intro conjI allI impI)
  show "claim_effect (held_of kd (wide_caches w)) (held_of kd (wide_caches (w\<lparr>served := s'\<rparr>)))
      (claimant kd w (Inl t)) (claimant kd (w\<lparr>served := s'\<rparr>) (Inl t))"
    using assms(1) by (simp add: task_effect_def)
  fix j :: task_id assume "j \<noteq> Inl t"
  then show "claimant kd (w\<lparr>served := s'\<rparr>) j = claimant kd w j"
    using assms(2) by (cases j) (auto simp: steps_one_def holder_def export_key_def split: kind.split)
qed

text \<open>An export step that only moves its own task, and one that drops or takes the claim of its tier.\<close>

lemma export_effect:
  assumes "tasks (served w') = tasks (served w)" "exports w' = (exports w)(t := Some tk')"
    and "\<And>kd. claim_effect (held_of kd (wide_caches w)) (held_of kd (wide_caches w'))
           (claimant kd w (Inr t)) (claimant kd w' (Inr t))"
  shows "wide_effect kd w w' (Inr t)"
  unfolding wide_effect_def
proof (intro conjI allI impI assms(3))
  fix j :: task_id assume "j \<noteq> Inr t"
  then show "claimant kd w' j = claimant kd w j"
    using assms(1,2) by (cases j) (auto simp: holder_def export_key_def split: kind.split)
qed

lemma export_move:
  assumes "tasks (served w') = tasks (served w)" "exports w' = (exports w)(t := Some tk')"
    and "exports w t = Some tk" "\<And>kd. held_of kd (wide_caches w') = held_of kd (wide_caches w)"
    and "ex_holds tk' = ex_holds tk \<or> ex_holds tk' = None"
  shows "wide_effect kd w w' (Inr t)"
proof (rule export_effect [OF assms(1,2)])
  fix kd
  show "claim_effect (held_of kd (wide_caches w)) (held_of kd (wide_caches w')) (claimant kd w (Inr t)) (claimant kd w' (Inr t))"
    using assms(2,3,5) assms(4) [of kd]
    by (cases kd) (auto simp: export_key_def same_effect forget_effect)
qed

lemma export_drop_effect:
  assumes "exports w t = Some tk" "ex_holds tk = Some tier"
  shows "wide_effect kd w (export_drop t tier b (export_reply t a w)) (Inr t)"
proof (cases b)
  case True
  show ?thesis
    by (rule export_move [OF _ _ assms(1), of _ "ExRemoving tier"]) (use assms(2) True in \<open>simp_all add: export_drop_def\<close>)
next
  case False
  show ?thesis
  proof (rule export_effect [of _ _ _ ExFinished])
    fix kd
    show "claim_effect (held_of kd (wide_caches w)) (held_of kd (wide_caches (export_drop t tier b (export_reply t a w))))
      (claimant kd w (Inr t)) (claimant kd (export_drop t tier b (export_reply t a w)) (Inr t))"
      using assms False drop_effect [of "held_of kd (wide_caches w)" "cache_key tier"]
      by (cases kd) (use held_drop_inline in \<open>simp_all add: export_drop_def export_key_def same_effect\<close>)
  qed (simp_all add: export_drop_def False)
qed

lemma no_reply: "export_reply t None w = w"
  by (simp add: export_reply_def)

lemma export_claim_effect:
  assumes "exports w t = Some (ExClaiming tier)"
  shows "wide_effect kd w (export_claim t tier w) (Inr t)"
proof (cases "begin_inline_render (wide_caches w) (cache_key tier) [] t")
  case (Pair c cl)
  show ?thesis
  proof (cases cl)
    case Leader
    note h = held_begin [OF Pair [unfolded Leader]]
    show ?thesis
    proof (rule export_effect [of _ _ _ "ExReadGeneration tier"])
      fix kd
      show "claim_effect (held_of kd (wide_caches w)) (held_of kd (wide_caches (export_claim t tier w)))
        (claimant kd w (Inr t)) (claimant kd (export_claim t tier w) (Inr t))"
        using assms
        by (cases kd) (simp_all add: export_claim_def Pair Leader h export_key_def same_effect take_effect)
    qed (simp_all add: export_claim_def Pair Leader)
  next
    case (Wait ch)
    show ?thesis
      by (rule export_move [OF _ _ assms, of _ "ExWaiting tier ch (ch_version (channels (served w) ch))"])
        (simp_all add: export_claim_def Pair Wait)
  qed
qed

lemma export_end_effect:
  assumes "exports w t = Some tk" "ex_holds tk = (if claimed then Some tier else None)"
    and "\<And>kd. held_of kd (caches (f (served w))) = held_of kd (wide_caches w)"
    and "tasks (f (served w)) = tasks (served w)"
  shows "wide_effect kd w (export_end t tier claimed a (on_server f w)) (Inr t)"
  by (cases claimed)
    (rule export_move [OF _ _ assms(1), of _ "if claimed then ExRelease tier a else ExFinished"];
      use assms in \<open>simp add: export_end_def\<close>)+

lemma idle_server: "on_server (\<lambda>s. s) w = w"
  by (simp add: on_server_def)

lemma export_step_effect:
  assumes st: "export_step t tk e w = Some w'" and at: "exports w t = Some tk"
  shows "wide_effect kd w w' (Inr t)"
proof (cases tk)
  case (ExClaiming tier) then show ?thesis using st at export_claim_effect [of w t tier kd] by auto
next
  case (ExRelease tier a)
  then show ?thesis using st export_drop_effect [OF at, of tier kd "env_contended e" a] by auto
next
  case (ExRemoving tier)
  then show ?thesis using st export_drop_effect [OF at, of tier kd False None] by (auto simp: no_reply)
next
  case (ExRendering tier claimed)
  have fin: "wide_effect kd w (export_end t tier claimed a w) (Inr t)" for a
    using export_end_effect [OF at, of claimed tier "\<lambda>s. s" kd a] ExRendering by (simp add: idle_server)
  have "wide_effect kd w (export_goto t (ExPut tier claimed r) w) (Inr t)" for r
    by (rule export_move [OF _ _ at, of _ "ExPut tier claimed r"]) (simp_all add: ExRendering)
  then show ?thesis using st fin ExRendering
    by (auto simp: export_rendered_def split: render_result.splits)
next
  case (ExPut tier claimed r)
  then have "w' = export_put t tier claimed r w" using st by simp
  then show ?thesis unfolding export_put_def
    by (simp only:) (rule export_end_effect [OF at], simp_all add: ExPut)
qed (use st at in \<open>auto simp: export_lookup_def export_wait_def intro!: export_move
    split: option.splits if_splits\<close>)

lemma export_cancel_effect:
  assumes "export_cancel t tk b w = Some w'" "exports w t = Some tk"
  shows "wide_effect kd w w' (Inr t)"
proof -
  have gone: "wide_effect kd w (export_goto t ExFinished w) (Inr t)"
    by (rule export_move [OF _ _ assms(2), of _ ExFinished]) simp_all
  have drop: "wide_effect kd w (export_drop t tier b w) (Inr t)" if "ex_holds tk = Some tier" for tier
    using export_drop_effect [OF assms(2) that, of kd b None] by (simp add: no_reply)
  show ?thesis using assms(1) gone drop
    by (cases "(t, tk, b, w)" rule: export_cancel.cases) auto
qed

lemma idle_effect:
  assumes "\<And>t. holder kd s' t = holder kd (served w) t" "held_of kd (caches s') = held_of kd (wide_caches w)"
  shows "wide_effect kd w (w\<lparr>served := s'\<rparr>) i"
proof -
  have "claimant kd (w\<lparr>served := s'\<rparr>) j = claimant kd w j" for j
    using assms(1) by (cases j) (auto simp: export_key_def split: kind.split)
  then show ?thesis by (simp add: wide_effect_def same_effect assms(2))
qed

lemma spawn_effect:
  assumes "spawn t tk s = Some s'" "\<And>x. holds x tk = None"
  shows "holder kd s' u = holder kd s u" "held_of kd (caches s') = held_of kd (caches s)"
  using assms by (auto simp: spawn_def holder_def split: if_splits)

lemma serve_effect:
  assumes "serve_step ev (served w) = Some s'"
  shows "\<exists>i. wide_effect kd w (w\<lparr>served := s'\<rparr>) i"
proof (cases ev)
  case (Step t e)
  then obtain tk where tk: "tasks (served w) t = Some tk" "task_step t tk e (served w) = Some s'"
    using assms by (auto split: option.splits)
  then show ?thesis using server_effect [OF task_step_effect [OF tk(2,1)] task_step_one [OF tk(2)]] by blast
next
  case (Request t key src)
  then show ?thesis using assms spawn_effect [of t "Lookup key src"] idle_effect by simp
next
  case (SourceChanged t src)
  then show ?thesis using assms spawn_effect [of t "ScanEntries src"] idle_effect by simp
next
  case (ProfileChanged t p)
  then show ?thesis using assms spawn_effect [of t "Bumping [profile_key p]"] idle_effect by simp
next
  case (Evict k)
  then have "s' = upd (\<lambda>c. processed_remove c k) (served w)" using assms by simp
  then show ?thesis using idle_effect [of kd s' w] by (simp add: holder_def)
next
  case (EvictGeneration k)
  then have "s' = upd (\<lambda>c. c\<lparr>generations := AList.delete k (generations c)\<rparr>) (served w)" using assms by simp
  moreover have "held_of kd (c\<lparr>generations := g\<rparr>) = held_of kd c" for c g
    by (cases kd; rule ext) (simp_all add: inline_held_def background_held_def)
  ultimately show ?thesis using idle_effect [of kd s' w] by (simp add: holder_def)
qed

lemma wide_step_effect:
  assumes "wide_step ev w = Some w'"
  shows "\<exists>i. wide_effect kd w w' i"
proof (cases ev)
  case (Serve e) then show ?thesis using assms serve_effect by (auto split: if_splits)
next
  case (ExportRequest t tier)
  have "wide_effect kd w (export_goto t (ExLookup tier) w) (Inr t)" if "exports w t = None"
  proof (rule export_effect [of _ _ _ "ExLookup tier"])
    fix kd show "claim_effect (held_of kd (wide_caches w)) (held_of kd (wide_caches (export_goto t (ExLookup tier) w)))
      (claimant kd w (Inr t)) (claimant kd (export_goto t (ExLookup tier) w) (Inr t))"
      using that by (cases kd) (simp_all add: export_key_def same_effect)
  qed simp_all
  then show ?thesis using assms ExportRequest by (auto simp: taken_def split: if_splits)
next
  case (ExportStep t e)
  then obtain tk where "exports w t = Some tk" "export_step t tk e w = Some w'"
    using assms by (auto split: option.splits)
  then show ?thesis using export_step_effect by blast
next
  case (Disconnect t b)
  then obtain tk s' where tk: "tasks (served w) t = Some tk" "cancel t tk b (served w) = Some s'" "w' = w\<lparr>served := s'\<rparr>"
    using assms by (auto split: option.splits)
  then show ?thesis using server_effect [OF cancel_effect [OF tk(2,1)] cancel_one [OF tk(2)]] by blast
next
  case (ExportDisconnect t b)
  then obtain tk where "exports w t = Some tk" "export_cancel t tk b w = Some w'"
    using assms by (auto split: option.splits)
  then show ?thesis using export_cancel_effect by blast
qed

lemma kept_run:
  assumes "run_wide es w = Some w'" "kept (held_of kd (wide_caches w)) (claimant kd w)"
  shows "kept (held_of kd (wide_caches w')) (claimant kd w')"
  using assms
proof (induction es arbitrary: w)
  case Nil then show ?case by simp
next
  case (Cons e es)
  then obtain w1 where w1: "wide_step e w = Some w1" "run_wide es w1 = Some w'" by (auto split: option.splits)
  obtain i where "wide_effect kd w w1 i" using wide_step_effect [OF w1(1)] by blast
  then have "kept (held_of kd (wide_caches w1)) (claimant kd w1)"
    using kept_effect [OF Cons.prems(2)] unfolding wide_effect_def by blast
  then show ?case using Cons.IH [OF w1(2)] by blast
qed

lemma orphaned_run:
  assumes "run_wide es w = Some w'" "orphaned (held_of kd (wide_caches w)) (claimant kd w) key"
  shows "orphaned (held_of kd (wide_caches w')) (claimant kd w') key"
  using assms
proof (induction es arbitrary: w)
  case Nil then show ?case by simp
next
  case (Cons e es)
  then obtain w1 where w1: "wide_step e w = Some w1" "run_wide es w1 = Some w'" by (auto split: option.splits)
  obtain i where "wide_effect kd w w1 i" using wide_step_effect [OF w1(1)] by blast
  then have "orphaned (held_of kd (wide_caches w1)) (claimant kd w1) key"
    using orphaned_effect [OF Cons.prems(2)] unfolding wide_effect_def by blast
  then show ?case using Cons.IH [OF w1(2)] by blast
qed

lemma new_wide_kept: "kept (held_of kd (wide_caches new_wide)) (claimant kd new_wide)"
proof -
  have "claimant kd new_wide i = None" for i
    by (cases i; cases kd) (simp_all add: new_wide_def holder_def export_key_def)
  then show ?thesis by (simp add: kept_def)
qed

lemma one_claimant:
  assumes "run_wide es new_wide = Some w" "claimant kd w i = Some key" "claimant kd w j = Some key"
  shows "i = j"
  using kept_run [OF assms(1) new_wide_kept] assms(2,3) unfolding kept_def by blast

lemma after_wait_tier: "after_wait w i = Some key \<Longrightarrow> \<exists>tier. key = cache_key tier"
  by (cases i) (auto simp: export_key_def split: option.splits)

text \<open>The exports leave the entries, the generations and the tasks of all other keys alone.\<close>

lemma begin_frame:
  "processed_get (fst (begin_inline_render c key src ch)) = processed_get c"
  "generation (fst (begin_inline_render c key src ch)) = generation c"
  by (auto simp: begin_inline_render_def processed_get_def generation_def fun_eq_iff split: option.splits)

lemma export_frame:
  assumes "export_step t tk e w = Some w'" "\<And>tier. k \<noteq> cache_key tier"
  shows "entry (served w') k = entry (served w) k \<and> gen (served w') k = gen (served w) k \<and>
    stamps (served w') k = stamps (served w) k \<and> tasks (served w') = tasks (served w)"
  using assms
  by (cases "(t, tk, e, w)" rule: export_step.cases)
    (auto simp: export_lookup_def export_claim_def export_wait_def export_rendered_def export_put_def export_end_def
      export_drop_def dest: begin_view
      split: option.splits if_splits prod.splits InlineClaim.splits render_result.splits)

section \<open>One render\<close>

text \<open>
  C32: a burst renders once. In a server that answers subscriptions and exports together, whatever the
  order of their steps, of invalidations, evictions and disconnects, two tasks never render the same key
  inline (a task renders until its result is stored and its claim released, the release handed to the
  runtime under a contended lock included), nor do two revalidate it in the background. The one exception
  is what the exports promise: a download whose wait for the leader timed out, or ended without a fresh
  entry, renders its tier without a claim.
\<close>

theorem one_render_per_key:
  assumes "run_wide es new_wide = Some w" "renders kd w i = Some key" "renders kd w j = Some key"
  shows "i = j \<or> (kd = Inline \<and> (\<exists>tier. key = cache_key tier) \<and> (after_wait w i = Some key \<or> after_wait w j = Some key))"
proof -
  have r: "claimant kd w x = Some key \<or> (kd = Inline \<and> after_wait w x = Some key)" if "renders kd w x = Some key" for x
    using that by (auto simp: renders_def split: option.splits if_splits)
  show ?thesis using r [OF assms(2)] r [OF assms(3)] one_claimant [OF assms(1)] after_wait_tier by blast
qed

section \<open>A claim without a guard\<close>

text \<open>
  The guard of a claim is built after the generation has been read, one \<open>await\<close> behind the registration.
  A client that leaves in between leaves the claim behind: from then on no task holds it, none ever
  takes it again, and whatever happens it is never released. Every later request of that key waits for a
  leader that does not exist (or serves its stale entry, which no one revalidates).
\<close>

theorem dropped_claim_never_released:
  assumes "run_wide es new_wide = Some w" "tasks (served w) t = Some (ReadGeneration kd key a)"
    and "wide_step (Disconnect t b) w = Some w1" "run_wide later w1 = Some w2"
  shows "held_of kd (wide_caches w2) key \<and> (\<lambda>i. claimant kd w2 i = Some key) = (\<lambda>i. False)"
proof -
  have k: "kept (held_of kd (wide_caches w)) (claimant kd w)" using kept_run [OF assms(1) new_wide_kept] .
  have c: "claimant kd w (Inl t) = Some key" using assms(2) by (simp add: holder_def)
  have w1: "w1 = w\<lparr>served := goto t Finished (served w)\<rparr>" using assms(2,3) by simp
  have "claimant kd w1 i \<noteq> Some key" for i
  proof (cases "i = Inl t")
    case True then show ?thesis by (simp add: w1 holder_def)
  next
    case False
    then have "claimant kd w i \<noteq> Some key" using k c unfolding kept_def by blast
    then show ?thesis using False by (cases i; cases kd) (auto simp: w1 holder_def export_key_def)
  qed
  moreover have "held_of kd (wide_caches w) key" using k c unfolding kept_def by blast
  then have "held_of kd (wide_caches w1) key" by (simp add: w1)
  ultimately have "orphaned (held_of kd (wide_caches w1)) (claimant kd w1) key" by (simp add: orphaned_def)
  then show ?thesis using orphaned_run [OF assms(4)] unfolding orphaned_def by blast
qed

end
