(* ===== verification/Cache_Races.thy ===== *)
theory Cache_Races
  imports Cache_Exports
begin

text \<open>
  Runs of the cache: what a source change does to a render that was claimed before it, order by order,
  with the two orders in which it misses it; the run in which an evicted counter readmits one; and the
  runs on which the guarantees of the cache are exercised.
\<close>

definition sample_env :: "Rendered \<Rightarrow> env" where
  "sample_env r = \<lparr>env_now = 0, env_result = RenderOk r, env_timeout = False, env_contended = False\<rparr>"

definition own :: "nat \<Rightarrow> nat \<Rightarrow> Rendered \<Rightarrow> event list" where
  "own t n r = replicate n (Step t (sample_env r))"

text \<open>How long an invalidation runs, and what it does to the keys it has found and to all others.\<close>

lemma bumping_run:
  assumes "tasks s u = Some (Bumping ks)"
  shows "\<exists>s'. run_events (replicate (2 * length ks + 1) (Step u e)) s = Some s' \<and>
    tasks s' = (tasks s)(u := Some Finished) \<and>
    (\<forall>k. k \<notin> set ks \<longrightarrow> entry s' k = entry s k \<and> gen s' k = gen s k) \<and>
    (\<forall>k. k \<in> set ks \<longrightarrow> entry s' k = None \<and> gen s k < gen s' k)"
  using assms
proof (induction ks arbitrary: s)
  case Nil then show ?case by auto
next
  case (Cons k ks)
  define z where "z = goto u (Bumping ks) (upd (\<lambda>c. processed_remove c k)
    (goto u (Invalidating k ks) (upd (\<lambda>c. bump_generation c k) s)))"
  have two: "run_events (Step u e # Step u e # es) s = run_events es z" for es by (simp add: Cons.prems z_def)
  have z: "tasks z = (tasks s)(u := Some (Bumping ks))"
    "entry z k' = (if k' = k then None else entry s k')"
    "gen z k' = (if k' = k then gen s k + 1 else gen s k')" for k' by (simp_all add: z_def)
  obtain s' where s': "run_events (replicate (2 * length ks + 1) (Step u e)) z = Some s'"
    "tasks s' = (tasks z)(u := Some Finished)"
    "\<forall>k. k \<notin> set ks \<longrightarrow> entry s' k = entry z k \<and> gen s' k = gen z k"
    "\<forall>k. k \<in> set ks \<longrightarrow> entry s' k = None \<and> gen z k < gen s' k"
    using Cons.IH [of z] unfolding z(1) fun_upd_same by blast
  have "run_events (replicate (2 * length (k # ks) + 1) (Step u e)) s = Some s'"
    using s'(1) two by simp
  moreover have "tasks s' = (tasks s)(u := Some Finished)" using s'(2) z(1) by simp
  moreover have "entry s' k' = None \<and> gen s k' < gen s' k'" if "k' \<in> set (k # ks)" for k'
    using s'(3,4) z(2,3) [of k'] that by (cases "k' \<in> set ks") (auto split: if_splits)
  ultimately show ?case using s'(3) z(2,3) by auto
qed

text \<open>A rendering under the current generation is stored in six steps of its task.\<close>

lemma storing_run:
  assumes "tasks s t = Some (Rendering kd key (gen s key))" "env_result e = RenderOk r" "rd_status r = 200"
    and "\<not> env_contended e"
  shows "\<exists>s'. run_events (replicate 6 (Step t e)) s = Some s' \<and> tasks s' = (tasks s)(t := Some Finished) \<and>
    processed (caches s') = AList.update key r (processed (caches s)) \<and> gen s' = gen s \<and>
    inline_rendering (caches s') =
      (if kd = Inline then AList.delete key (inline_rendering (caches s)) else inline_rendering (caches s))"
proof -
  have none: "AList.delete key m = m" if "map_of m key = None" for m :: "(string \<times> InlineRenderState) list"
    using that by (simp add: delete_idem map_of_eq_None_iff)
  have gens: "generation (processed_put c k x) = generation c" for c k x by simp
  show ?thesis
    by (cases kd)
      (use assms none in \<open>auto simp: numeral_eq_Suc step_defs by_kind_def drop_claim_def drop_inline_def
        drop_revalidate_def processed_put_def generation_def fun_eq_iff fun_upd_def upd_def goto_def reply_def
        split: option.splits\<close>)
qed

lemma missed_by_scans:
  assumes "entry s key = None"
  shows "key \<notin> set (affected_entries (caches s) a)"
  using assms by (auto simp: processed_get_def affected_entries_def map_of_eq_None_iff)

lemma missed_claims:
  assumes "map_of (inline_rendering c) key = None"
  shows "key \<notin> set (affected_renders c a)"
  using assms by (auto simp: affected_renders_def map_of_eq_None_iff)



text \<open>A source change run to its end, from its start and from its second scan.\<close>

lemma second_scan_run:
  assumes "tasks s u = Some (ScanRenders a found)"
  shows "\<exists>n s'. run_events (replicate n (Step u e)) s = Some s' \<and> tasks s' = (tasks s)(u := Some Finished) \<and>
    (\<forall>k. k \<notin> set found \<union> set (affected_renders (caches s) a) \<longrightarrow> entry s' k = entry s k \<and> gen s' k = gen s k) \<and>
    (\<forall>k. k \<in> set found \<union> set (affected_renders (caches s) a) \<longrightarrow> entry s' k = None \<and> gen s k < gen s' k)"
proof -
  let ?ks = "found @ affected_renders (caches s) a"
  define z where "z = goto u (Bumping ?ks) s"
  have z: "tasks z u = Some (Bumping ?ks)" "tasks z = (tasks s)(u := Some (Bumping ?ks))"
    "entry z = entry s" "gen z = gen s" by (simp_all add: z_def)
  have first: "run_events (Step u e # es) s = run_events es z" for es by (simp add: assms z_def)
  obtain s' where s': "run_events (replicate (2 * length ?ks + 1) (Step u e)) z = Some s'"
    "tasks s' = (tasks z)(u := Some Finished)"
    "\<forall>k. k \<notin> set ?ks \<longrightarrow> entry s' k = entry z k \<and> gen s' k = gen z k"
    "\<forall>k. k \<in> set ?ks \<longrightarrow> entry s' k = None \<and> gen z k < gen s' k"
    using bumping_run [OF z(1)] by blast
  have "run_events (replicate (Suc (2 * length ?ks + 1)) (Step u e)) s = Some s'"
    unfolding replicate_Suc first by (rule s'(1))
  moreover have "tasks s' = (tasks s)(u := Some Finished)" using s'(2) z(2) by simp
  ultimately show ?thesis using s'(3,4) z(3,4) unfolding set_append by metis
qed

definition lists :: "server \<Rightarrow> string \<Rightarrow> string set" where
  "lists s a = set (affected_entries (caches s) a) \<union> set (affected_renders (caches s) a)"

lemma change_run:
  assumes "tasks s u = None"
  shows "\<exists>n s'. run_events (SourceChanged u a # replicate n (Step u e)) s = Some s' \<and>
    tasks s' = (tasks s)(u := Some Finished) \<and>
    (\<forall>k. k \<notin> lists s a \<longrightarrow> entry s' k = entry s k \<and> gen s' k = gen s k) \<and>
    (\<forall>k. k \<in> lists s a \<longrightarrow> entry s' k = None \<and> gen s k < gen s' k)"
proof -
  define z where "z = goto u (ScanRenders a (affected_entries (caches s) a)) (goto u (ScanEntries a) s)"
  have z: "tasks z u = Some (ScanRenders a (affected_entries (caches s) a))"
    "(tasks z)(u := Some Finished) = (tasks s)(u := Some Finished)" "caches z = caches s" by (simp_all add: z_def)
  have first: "run_events (SourceChanged u a # Step u e # es) s = run_events es z" for es
    by (simp add: assms spawn_def z_def)
  obtain n s' where s': "run_events (replicate n (Step u e)) z = Some s'" "tasks s' = (tasks z)(u := Some Finished)"
    "\<forall>k. k \<notin> lists s a \<longrightarrow> entry s' k = entry z k \<and> gen s' k = gen z k"
    "\<forall>k. k \<in> lists s a \<longrightarrow> entry s' k = None \<and> gen z k < gen s' k"
    using second_scan_run [OF z(1), of e] z(3) unfolding lists_def by auto
  have "run_events (SourceChanged u a # replicate (Suc n) (Step u e)) s = Some s'"
    unfolding replicate_Suc first by (rule s'(1))
  then show ?thesis using s'(2-4) z(2,3) by metis
qed

lemma run_append:
  "run_events es s = Some s1 \<Longrightarrow> run_events (es @ fs) s = run_events fs s1"
  by (induction es arbitrary: s) (auto split: option.splits)

text \<open>A background render holds no inline claim: once its entry has left the cache, nothing names its key.\<close>

theorem revalidation_not_superseded:
  assumes "tasks s t = Some (Rendering Background key (gen s key))" "entry s key = None"
    and "map_of (inline_rendering (caches s)) key = None" "tasks s u = None"
    and "env_result e = RenderOk r" "rd_status r = 200" "\<not> env_contended e"
  shows "\<exists>n s'. run_events ((SourceChanged u a # replicate n (Step u e)) @ replicate 6 (Step t e)) s = Some s' \<and>
    tasks s' t = Some Finished \<and> tasks s' u = Some Finished \<and> entry s' key = Some r"
proof -
  obtain n s1 where s1: "run_events (SourceChanged u a # replicate n (Step u e)) s = Some s1"
    "tasks s1 = (tasks s)(u := Some Finished)" "gen s1 key = gen s key"
    using change_run [OF assms(4), of a e] missed_by_scans [OF assms(2)] missed_claims [OF assms(3)]
    unfolding lists_def by blast
  have "t \<noteq> u" using assms(1,4) by auto
  then have "tasks s1 t = Some (Rendering Background key (gen s1 key))" using assms(1) s1(2,3) by simp
  from storing_run [OF this assms(5-7)] obtain s2 where s2: "run_events (replicate 6 (Step t e)) s1 = Some s2"
    "tasks s2 = (tasks s1)(t := Some Finished)" "processed (caches s2) = AList.update key r (processed (caches s1))"
    by blast
  have "entry s2 key = Some r" using s2(3) by (simp add: processed_get_def update_conv')
  then show ?thesis using run_append [OF s1(1)] s2(1,2) s1(2) \<open>t \<noteq> u\<close>
    by (intro exI [of _ n] exI [of _ s2]) simp
qed

definition eviction_race :: "string \<Rightarrow> string \<Rightarrow> Rendered \<Rightarrow> event list" where
  "eviction_race profile a r =
     [Request 0 (profile_key profile) [a]] @ own 0 3 r @ [ProfileChanged 1 profile] @ own 1 3 r @
     [EvictGeneration (profile_key profile)] @ own 0 6 r"

definition left_behind :: "server option \<Rightarrow> nat list \<Rightarrow> string \<Rightarrow> Rendered \<Rightarrow> bool" where
  "left_behind res ts key r \<longleftrightarrow>
     (case res of None \<Rightarrow> False
      | Some s \<Rightarrow> list_all (\<lambda>t. tasks s t = Some Finished) ts \<and> entry s key = Some r)"

lemmas run_defs = own_def sample_env_def spawn_def step_defs goto_def upd_def reply_def new_server_def
  new_caches_def processed_get_def processed_put_def processed_remove_def generation_def
  bump_generation_def affected_entries_def affected_renders_def begin_inline_render_def
  try_start_revalidate_def drop_claim_def drop_inline_def drop_revalidate_def by_kind_def is_fresh_def

text \<open>Why the evictions of counters are excluded from \<open>superseded_never_stored\<close>.\<close>

lemma eviction_race_run:
  "rd_status r = 200 \<Longrightarrow>
     left_behind (run_events (eviction_race profile a r) new_server) [0, 1] (profile_key profile) r"
  by (simp add: left_behind_def eviction_race_def run_defs profile_key_def numeral_eq_Suc)

definition over :: "server \<Rightarrow> nat \<Rightarrow> nat \<Rightarrow> bool" where
  "over s t u \<longleftrightarrow> tasks s t = Some Finished \<and> tasks s u = Some Finished"







definition sample_rendered :: "int \<Rightarrow> Rendered" where
  "sample_rendered f = \<lparr>rd_status = 200, rd_body = ''x'', rd_content_type = ''text/plain'', rd_extra_headers = [],
     rd_fresh_until = f, rd_source_ids = [''a'']\<rparr>"



section \<open>The guarantees at work\<close>

text \<open>A cold render is superseded by a profile change between its insert and its second check.\<close>

definition before_bump :: "event list" where
  "before_bump = [Request 0 (profile_key ''p'') [''a'']] @ own 0 6 (sample_rendered 30) @ [ProfileChanged 1 ''p'']"

definition after_bump :: "event list" where
  "after_bump = own 0 4 (sample_rendered 30) @ own 1 2 (sample_rendered 30) @
     [Request 2 (profile_key ''p'') [''a'']] @ own 2 9 (sample_rendered 30)"

theorem superseded_never_stored_witness:
  "\<exists>s s1 s2. run_events before_bump new_server = Some s \<and>
     serve_step (Step 1 (sample_env (sample_rendered 30))) s = Some s1 \<and> run_events after_bump s1 = Some s2 \<and>
     entry s2 (profile_key ''p'') = Some (sample_rendered 30) \<and>
     gen s (profile_key ''p'') < stamps s2 (profile_key ''p'')"
proof -
  let ?k = "profile_key ''p''"
  let ?e = "sample_env (sample_rendered 30)"
  define s where "s = the (run_events before_bump new_server)"
  define s1 where "s1 = the (serve_step (Step 1 ?e) s)"
  define s2 where "s2 = the (run_events after_bump s1)"
  note ev = before_bump_def after_bump_def run_defs profile_key_def sample_rendered_def numeral_eq_Suc
  have 1: "run_events before_bump new_server = Some s" by (simp add: s_def ev)
  have 2: "serve_step (Step 1 ?e) s = Some s1" by (simp add: s1_def s_def ev)
  have 3: "run_events after_bump s1 = Some s2" by (simp add: s2_def s1_def s_def ev)
  have b: "bumps s 1 ?k" by (simp add: s_def ev bumps_def task_at_def)
  have st: "settled s2 ?k" by (simp add: s2_def s1_def s_def ev settled_def task_at_def)
  have e: "entry s2 ?k = Some (sample_rendered 30)" by (simp add: s2_def s1_def s_def ev)
  have c: "counters_kept before_bump" "counters_kept after_bump" by (simp_all add: counters_kept_def ev)
  have "gen s ?k < stamps s2 ?k"
    using superseded_never_stored [OF 1 c(1) b 2 3 c(2) st] e by simp
  then show ?thesis using 1 2 3 e by blast
qed

text \<open>A second request on a cold key waits; the panic of the leader wakes it, and it leads in turn.\<close>

definition two_requests :: "event list" where
  "two_requests = [Request 0 ''src:a'' [''a''], Request 1 ''src:a'' [''a'']] @ own 0 3 (sample_rendered 30) @
     own 1 2 (sample_rendered 30)"

definition panic_env :: env where
  "panic_env = \<lparr>env_now = 0, env_result = RenderPanic, env_timeout = False, env_contended = True\<rparr>"

theorem waiter_wakes_witness:
  "\<exists>s n s' s''. run_events two_requests new_server = Some s \<and>
     tasks s 1 = Some (Waiting ''src:a'' [''a''] 0 0) \<and> n \<le> 9 \<and>
     run_events (map (Step 0) (take n (replicate 9 panic_env))) s = Some s' \<and>
     serve_step (Step 1 panic_env) s' = Some s''"
proof -
  define s where "s = the (run_events two_requests new_server)"
  note ev = two_requests_def run_defs sample_rendered_def new_channel_def numeral_eq_Suc
  have 1: "run_events two_requests new_server = Some s" by (simp add: s_def ev)
  have 2: "tasks s 1 = Some (Waiting ''src:a'' [''a''] 0 0)" by (simp add: s_def ev)
  show ?thesis using waiter_wakes [OF 1 2, of "replicate 9 panic_env" panic_env] 1 2 by force
qed

text \<open>A download that does not wait for the leader to end renders beside it.\<close>

definition impatient_env :: env where
  "impatient_env = \<lparr>env_now = 0, env_result = RenderPanic, env_timeout = True, env_contended = False\<rparr>"

definition two_downloads :: "wide_event list" where
  "two_downloads =
     [ExportRequest 0 AliveTier, ExportRequest 1 AliveTier] @ replicate 3 (ExportStep 0 impatient_env) @
     replicate 3 (ExportStep 1 impatient_env)"

lemmas wide_run_defs = run_defs new_wide_def taken_def id_free_def export_lookup_def export_claim_def export_wait_def
  export_goto_def export_reply_def on_server_def fresh_entry_def abandon_def

theorem one_render_per_key_witness:
  "\<exists>w. run_wide two_downloads new_wide = Some w \<and>
     renders Inline w (Inr 0) = Some ''export:alive'' \<and> renders Inline w (Inr 1) = Some ''export:alive'' \<and>
     (after_wait w (Inr 0) = Some ''export:alive'' \<or> after_wait w (Inr 1) = Some ''export:alive'')"
proof -
  define w where "w = the (run_wide two_downloads new_wide)"
  note ev = two_downloads_def wide_run_defs impatient_env_def new_channel_def numeral_eq_Suc
  have 1: "run_wide two_downloads new_wide = Some w" by (simp add: w_def ev)
  have 2: "renders Inline w (Inr 0) = Some ''export:alive''" "renders Inline w (Inr 1) = Some ''export:alive''"
    by (simp_all add: w_def ev renders_def export_key_def cache_key_def)
  have "(Inr 0 :: task_id) \<noteq> Inr 1" by simp
  then show ?thesis using one_render_per_key [OF 1 2] 1 2 by blast
qed

section \<open>A put that stops halfway\<close>

text \<open>
  The second check of \<open>processed_put_guarded\<close> is behind an \<open>await\<close>. A client that leaves between the insert
  and that check takes the check with it: a rendering that a profile change has superseded stays in the
  cache, and with no task left to remove it, what \<open>superseded_never_stored\<close> says of requests that run to
  their end does not hold of it.
\<close>

definition cancelled_put :: "string \<Rightarrow> string \<Rightarrow> Rendered \<Rightarrow> wide_event list" where
  "cancelled_put profile a r =
     map Serve ([Request 0 (profile_key profile) [a]] @ own 0 5 r @ [ProfileChanged 1 profile] @ own 1 3 r @ own 0 1 r) @
     [Disconnect 0 False]"

definition outdated :: "wide option \<Rightarrow> string \<Rightarrow> Rendered \<Rightarrow> bool" where
  "outdated res key r \<longleftrightarrow>
     (case res of None \<Rightarrow> False
      | Some w \<Rightarrow> over (served w) 0 1 \<and> entry (served w) key = Some r \<and> stamps (served w) key < gen (served w) key)"

theorem cancelled_put_left:
  "rd_status r = 200 \<Longrightarrow> outdated (run_wide (cancelled_put profile a r) new_wide) (profile_key profile) r"
  by (simp add: outdated_def over_def cancelled_put_def wide_run_defs profile_key_def numeral_eq_Suc)

text \<open>A client that leaves while its claim is being registered: the key is never rendered inline again.\<close>

definition left_early :: "wide_event list" where
  "left_early = map Serve ([Request 0 ''src:a'' [''a'']] @ own 0 2 (sample_rendered 30))"

theorem dropped_claim_never_released_witness:
  "\<exists>w w1. run_wide left_early new_wide = Some w \<and> wide_step (Disconnect 0 False) w = Some w1 \<and>
     held_of Inline (wide_caches w1) ''src:a'' \<and> (\<lambda>i. claimant Inline w1 i = Some ''src:a'') = (\<lambda>i. False)"
proof -
  define w where "w = the (run_wide left_early new_wide)"
  define w1 where "w1 = the (wide_step (Disconnect 0 False) w)"
  note ev = left_early_def wide_run_defs sample_rendered_def new_channel_def numeral_eq_Suc
  have 1: "run_wide left_early new_wide = Some w" by (simp add: w_def ev)
  have 2: "tasks (served w) 0 = Some (ReadGeneration Inline ''src:a'' None)" by (simp add: w_def ev)
  have 3: "wide_step (Disconnect 0 False) w = Some w1" by (simp add: w1_def 2)
  have "run_wide [] w1 = Some w1" by simp
  from dropped_claim_never_released [OF 1 2 3 this] show ?thesis using 1 3 by blast
qed

end
