(* ===== verification/Utf8.thy ===== *)
theory Utf8
  imports Fumox_Prelude
begin

text \<open>
  UTF-8 as Rust's standard library decodes it: \<open>String::from_utf8\<close> accepts a sequence of well-formed
  characters, and \<open>from_utf8_lossy\<close> replaces every longest ill-formed prefix of a character by the
  replacement character. What the lossy decoding returns is well-formed, and it keeps what already is.
\<close>

definition is_cont :: "char \<Rightarrow> bool" where
  "is_cont c \<longleftrightarrow> 128 \<le> code c \<and> code c < 192"

text \<open>Of a leading byte: the length of its character and the bounds of the second byte.\<close>

definition utf8_lead :: "nat \<Rightarrow> (nat \<times> nat \<times> nat) option" where
  "utf8_lead b =
     (if 0xC2 \<le> b \<and> b \<le> 0xDF then Some (2, 0x80, 0xBF)
      else if b = 0xE0 then Some (3, 0xA0, 0xBF)
      else if b = 0xED then Some (3, 0x80, 0x9F)
      else if 0xE1 \<le> b \<and> b \<le> 0xEF then Some (3, 0x80, 0xBF)
      else if b = 0xF0 then Some (4, 0x90, 0xBF)
      else if 0xF1 \<le> b \<and> b \<le> 0xF3 then Some (4, 0x80, 0xBF)
      else if b = 0xF4 then Some (4, 0x80, 0x8F)
      else None)"

fun conts :: "nat \<Rightarrow> string \<Rightarrow> nat" where
  "conts (Suc n) (c # s) = (if is_cont c then Suc (conts n s) else 0)"
| "conts n s = 0"

text \<open>The character at the head: its length, or the length of the ill-formed prefix.\<close>

fun utf8_head :: "string \<Rightarrow> nat + nat" where
  "utf8_head [] = Inl 1"
| "utf8_head (c # s) =
     (if code c < 128 then Inr 1
      else case utf8_lead (code c) of
        None \<Rightarrow> Inl 1
      | Some (w, lo, hi) \<Rightarrow>
          (case s of
             [] \<Rightarrow> Inl 1
           | d # r \<Rightarrow>
               if lo \<le> code d \<and> code d \<le> hi
               then (if conts (w - 2) r = w - 2 then Inr w else Inl (2 + conts (w - 2) r))
               else Inl 1))"

definition REPLACEMENT :: string where
  "REPLACEMENT = [CHR 0xEF, CHR 0xBF, CHR 0xBD]"

lemma utf8_lead_width: "utf8_lead b = Some (w, lo, hi) \<Longrightarrow> 2 \<le> w \<and> w \<le> 4"
  by (auto simp: utf8_lead_def split: if_splits)

lemma utf8_head_pos: "utf8_head (c # s) = Inl n \<Longrightarrow> 0 < n" "utf8_head (c # s) = Inr n \<Longrightarrow> 0 < n"
  using utf8_lead_width [of "code c"] by (auto split: if_splits option.splits prod.splits list.splits)

function from_utf8_lossy :: "string \<Rightarrow> string" where
  "from_utf8_lossy s =
     (if s = [] then []
      else case utf8_head s of
        Inr n \<Rightarrow> take n s @ from_utf8_lossy (drop n s)
      | Inl n \<Rightarrow> REPLACEMENT @ from_utf8_lossy (drop n s))"
  by pat_completeness auto
termination
  by (relation "measure length") (use utf8_head_pos in \<open>auto simp: neq_Nil_conv\<close>)

function valid_utf8 :: "string \<Rightarrow> bool" where
  "valid_utf8 s =
     (if s = [] then True
      else case utf8_head s of Inr n \<Rightarrow> valid_utf8 (drop n s) | Inl _ \<Rightarrow> False)"
  by pat_completeness auto
termination
  by (relation "measure length") (use utf8_head_pos in \<open>auto simp: neq_Nil_conv\<close>)

declare from_utf8_lossy.simps [simp del] valid_utf8.simps [simp del]

lemma valid_utf8_Nil [simp]: "valid_utf8 []"
  by (simp add: valid_utf8.simps)

lemma lossy_Nil [simp]: "from_utf8_lossy [] = []"
  by (simp add: from_utf8_lossy.simps)

lemma lossy_valid: "valid_utf8 s \<Longrightarrow> from_utf8_lossy s = s"
proof (induction s rule: from_utf8_lossy.induct)
  case (1 s)
  show ?case
  proof (cases "s = []")
    case False
    then obtain n where n: "utf8_head s = Inr n" "valid_utf8 (drop n s)"
      using 1(3) by (subst (asm) valid_utf8.simps) (auto split: sum.splits)
    have "from_utf8_lossy (drop n s) = drop n s" using 1(2) [OF False n(1) n(2)] .
    then show ?thesis using False n by (subst from_utf8_lossy.simps) simp
  qed simp
qed

lemma conts_length: "conts n s = n \<Longrightarrow> n \<le> length s"
  by (induction n s rule: conts.induct) (auto split: if_splits)

lemma conts_take: "conts n s = n \<Longrightarrow> conts n (take n s @ t) = n"
  by (induction n s rule: conts.induct) (auto split: if_splits)

lemma utf8_head_take:
  assumes "utf8_head s = Inr n"
  shows "utf8_head (take n s @ t) = Inr n" "n \<le> length s" "0 < n"
proof -
  obtain c r where s: "s = c # r" using assms by (cases s) auto
  show "0 < n" using utf8_head_pos assms s by blast
  have "utf8_head (take n s @ t) = Inr n \<and> n \<le> length s"
  proof (cases "code c < 128")
    case True then show ?thesis using assms s by auto
  next
    case False
    then obtain w lo hi d q where w: "utf8_lead (code c) = Some (w, lo, hi)" and r: "r = d # q"
      and d: "lo \<le> code d" "code d \<le> hi" and k: "conts (w - 2) q = w - 2" and n: "n = w"
      using assms s by (auto split: option.splits prod.splits list.splits if_splits)
    have "2 \<le> w" using utf8_lead_width [OF w] by simp
    then obtain m where m: "w = Suc (Suc m)" by (metis add_2_eq_Suc le_Suc_ex)
    then show ?thesis using False s w r d k n conts_take [of m q t] conts_length [of m q] by simp
  qed
  then show "utf8_head (take n s @ t) = Inr n" "n \<le> length s" by auto
qed

lemma valid_utf8_take:
  assumes "utf8_head s = Inr n" "valid_utf8 t"
  shows "valid_utf8 (take n s @ t)"
proof -
  note h = utf8_head_take [OF assms(1)]
  have "take n s @ t \<noteq> []" using h by (cases s) auto
  moreover have "drop n (take n s @ t) = t" using h(2) by simp
  ultimately show ?thesis using assms(2) h(1) [of t] by (subst valid_utf8.simps) simp
qed

lemma valid_lossy [simp]: "valid_utf8 (from_utf8_lossy s)"
proof (induction s rule: from_utf8_lossy.induct)
  case (1 s)
  have rep: "utf8_head (REPLACEMENT @ t) = Inr 3" for t
    by (simp add: REPLACEMENT_def utf8_lead_def is_cont_def code_def numeral_eq_Suc)
  show ?case
  proof (cases "s = []")
    case False
    show ?thesis
    proof (cases "utf8_head s")
      case (Inl n)
      then have "valid_utf8 (from_utf8_lossy (drop n s))" using 1(1) False by blast
      then have "valid_utf8 (take 3 REPLACEMENT @ from_utf8_lossy (drop n s))"
        using valid_utf8_take [of REPLACEMENT 3] rep [of "[]"] by simp
      then show ?thesis using Inl False by (subst from_utf8_lossy.simps) (simp add: REPLACEMENT_def)
    next
      case (Inr n)
      then have "valid_utf8 (from_utf8_lossy (drop n s))" using 1(2) False by blast
      then show ?thesis using valid_utf8_take [OF Inr] Inr False by (subst from_utf8_lossy.simps) simp
    qed
  qed simp
qed

lemma lossy_lossy [simp]: "from_utf8_lossy (from_utf8_lossy s) = from_utf8_lossy s"
  by (rule lossy_valid) simp

lemma valid_ascii: "list_all (\<lambda>c. code c < 128) s \<Longrightarrow> valid_utf8 s"
  by (induction s) (auto intro: valid_utf8.simps [THEN iffD2] simp: valid_utf8.simps)

end
