(* ===== verification/Uri.thy ===== *)
theory Uri
  imports Models Utf8
begin

text \<open>
  The line format most schemes share, \<open>parsers/uri.rs\<close>: the tolerant split of
  \<open>userinfo@host:port[/path][?query][#name]\<close>, the query with its caps, the escaping of what is printed,
  and the generic parser and serializer. An error is a value of \<open>parse_error\<close> in place of its message;
  the messages are only logged.
\<close>

datatype parse_error =
    EmptyHost
  | UnclosedBracket
  | NoPortAfterLiteral
  | MissingPort
  | InvalidPort string
  | QueryTooLong nat
  | ParamTooLong nat nat
  | MissingCredential
  | LineBreak string
  | Malformed string

record UriSchemeSpec =
  us_scheme :: Scheme
  us_prefix :: string
  us_known_keys :: "string list"
  us_credential_required :: bool

definition VLESS_SPEC :: UriSchemeSpec where
  "VLESS_SPEC = \<lparr>us_scheme = Vless, us_prefix = ''vless://'',
     us_known_keys = [''security'', ''encryption'', ''type'', ''headertype'', ''path'', ''host'', ''mode'', ''sni'',
       ''fp'', ''pbk'', ''sid'', ''spx'', ''flow'', ''alpn'', ''servicename'', ''congestioncontrol'',
       ''packetencoding'', ''allowinsecure'', ''insecure'', ''authority''],
     us_credential_required = True\<rparr>"

definition TROJAN_SPEC :: UriSchemeSpec where
  "TROJAN_SPEC = \<lparr>us_scheme = Trojan, us_prefix = ''trojan://'',
     us_known_keys = [''security'', ''type'', ''headertype'', ''path'', ''host'', ''sni'', ''fp'', ''pbk'', ''sid'',
       ''flow'', ''alpn'', ''encryption'', ''allowinsecure'', ''insecure''],
     us_credential_required = True\<rparr>"

definition HYSTERIA2_SPEC :: UriSchemeSpec where
  "HYSTERIA2_SPEC = \<lparr>us_scheme = Hysteria2, us_prefix = ''hysteria2://'',
     us_known_keys = [''sni'', ''insecure'', ''allowinsecure'', ''obfs'', ''obfs-password'', ''alpn'', ''upmbps'',
       ''downmbps'', ''pinsha256''],
     us_credential_required = True\<rparr>"

definition TUIC_SPEC :: UriSchemeSpec where
  "TUIC_SPEC = \<lparr>us_scheme = Tuic, us_prefix = ''tuic://'',
     us_known_keys = [''congestion_control'', ''sni'', ''alpn'', ''udp_relay_mode'', ''disable_sni''],
     us_credential_required = True\<rparr>"

definition MIERU_SPEC :: UriSchemeSpec where
  "MIERU_SPEC = \<lparr>us_scheme = Mieru, us_prefix = ''mieru://'', us_known_keys = [''sni''],
     us_credential_required = True\<rparr>"

definition SOCKS5_SPEC :: UriSchemeSpec where
  "SOCKS5_SPEC = \<lparr>us_scheme = Socks5, us_prefix = ''socks5://'', us_known_keys = [],
     us_credential_required = False\<rparr>"

definition SNELL_SPEC :: UriSchemeSpec where
  "SNELL_SPEC = \<lparr>us_scheme = Snell, us_prefix = ''snell://'',
     us_known_keys = [''version'', ''mode'', ''obfs'', ''obfs-host'', ''reuse'', ''udp''],
     us_credential_required = True\<rparr>"

definition ANYTLS_SPEC :: UriSchemeSpec where
  "ANYTLS_SPEC = \<lparr>us_scheme = AnyTls, us_prefix = ''anytls://'',
     us_known_keys = [''sni'', ''alpn'', ''fp'', ''insecure'', ''allowinsecure'', ''udp''],
     us_credential_required = True\<rparr>"

definition NAIVE_SPEC :: UriSchemeSpec where
  "NAIVE_SPEC = \<lparr>us_scheme = Naive, us_prefix = ''naive+https://'',
     us_known_keys = [''sni'', ''naive_transport''], us_credential_required = True\<rparr>"

section \<open>Splitting\<close>

definition host_for_uri :: "string \<Rightarrow> string" where
  "host_for_uri host =
     (if CHR '':'' \<in> set host \<and> \<not> prefix ''['' host then ''['' @ host @ '']'' else host)"

definition split_at_char :: "char \<Rightarrow> string \<Rightarrow> string \<times> string option" where
  "split_at_char d s = (case split_once d s of Some (a, b) \<Rightarrow> (a, Some b) | None \<Rightarrow> (s, None))"

definition split_fragment :: "string \<Rightarrow> string \<times> string option" where
  "split_fragment s = split_at_char (CHR ''#'') s"

definition split_query :: "string \<Rightarrow> string \<times> string option" where
  "split_query s = split_at_char (CHR ''?'') s"

definition split_userinfo :: "string \<Rightarrow> string option \<times> string" where
  "split_userinfo s = (case rsplit_once (CHR ''@'') s of Some (a, b) \<Rightarrow> (Some a, b) | None \<Rightarrow> (None, s))"

definition split_path :: "string \<Rightarrow> string \<times> string" where
  "split_path s = (case split_once (CHR ''/'') s of Some (a, b) \<Rightarrow> (a, CHR ''/'' # b) | None \<Rightarrow> (s, []))"

definition port_of :: "string \<Rightarrow> string \<Rightarrow> parse_error + (string \<times> u16)" where
  "port_of host port_str =
     (if host = [] then Inl EmptyHost
      else case parse_u16 port_str of None \<Rightarrow> Inl (InvalidPort port_str) | Some p \<Rightarrow> Inr (host, p))"

definition parse_hostport :: "string \<Rightarrow> parse_error + (string \<times> u16)" where
  "parse_hostport s =
     (if s = [] then Inl EmptyHost
      else case strip_prefix ''['' s of
        Some stripped \<Rightarrow>
          (case split_once (CHR '']'') stripped of
             None \<Rightarrow> Inl UnclosedBracket
           | Some (host, after) \<Rightarrow>
               (case strip_prefix '':'' after of
                  None \<Rightarrow> Inl NoPortAfterLiteral
                | Some port \<Rightarrow> port_of host port))
      | None \<Rightarrow>
          (case rsplit_once (CHR '':'') s of
             None \<Rightarrow> Inl MissingPort
           | Some (host, port) \<Rightarrow> port_of host port))"

section \<open>The query\<close>

definition MAX_QUERY_PARAMS :: nat where "MAX_QUERY_PARAMS = 256"
definition MAX_PARAM_BYTES :: nat where "MAX_PARAM_BYTES = 8 * 1024"
definition MAX_LINE_BYTES :: nat where "MAX_LINE_BYTES = 64 * 1024"

definition check_param_size :: "string \<Rightarrow> string \<Rightarrow> parse_error + unit" where
  "check_param_size key val =
     (if length key > MAX_PARAM_BYTES \<or> length val > MAX_PARAM_BYTES
      then Inl (ParamTooLong (length key) (length val)) else Inr ())"

definition split_pair :: "string \<Rightarrow> string \<times> string" where
  "split_pair pair = (case split_once (CHR ''='') pair of Some (k, v) \<Rightarrow> (k, v) | None \<Rightarrow> (pair, []))"

fun parse_pairs :: "string list \<Rightarrow> parse_error + Param list" where
  "parse_pairs [] = Inr []"
| "parse_pairs (pair # rest) =
     (let (key, val) = split_pair pair in
      case check_param_size key val of
        Inl e \<Rightarrow> Inl e
      | Inr _ \<Rightarrow>
          (case parse_pairs rest of
             Inl e \<Rightarrow> Inl e
           | Inr ps \<Rightarrow> Inr (\<lparr>p_key = key, p_value = val, p_known = False\<rparr> # ps)))"

definition parse_query :: "string \<Rightarrow> parse_error + Param list" where
  "parse_query q =
     (let n = length (split_on (CHR ''&'') q) in
      if n > MAX_QUERY_PARAMS then Inl (QueryTooLong n) else parse_pairs (split_on (CHR ''&'') q))"

text \<open>\<open>char::is_control\<close>: C0, DEL, and C1, whose encoding is two bytes.\<close>

definition must_encode :: "bool \<Rightarrow> char \<Rightarrow> bool" where
  "must_encode in_key c \<longleftrightarrow>
     c = CHR ''&'' \<or> c = CHR ''#'' \<or> c = CHR '' '' \<or> code c = 127 \<or> code c < 32 \<or> (in_key \<and> c = CHR ''='')"

definition c1_control :: "char \<Rightarrow> char \<Rightarrow> bool" where
  "c1_control c d \<longleftrightarrow> code c = 0xC2 \<and> 128 \<le> code d \<and> code d < 160"

definition encode_char :: "bool \<Rightarrow> char \<Rightarrow> string" where
  "encode_char in_key c = (if must_encode in_key c then pct_byte c else [c])"

fun encode_query_chars :: "bool \<Rightarrow> string \<Rightarrow> string" where
  "encode_query_chars in_key [] = []"
| "encode_query_chars in_key [c] = encode_char in_key c"
| "encode_query_chars in_key (c # d # s) =
     (if c1_control c d then pct_byte c @ pct_byte d @ encode_query_chars in_key s
      else encode_char in_key c @ encode_query_chars in_key (d # s))"

definition encode_query_delimiters :: "string \<Rightarrow> string" where
  "encode_query_delimiters raw = encode_query_chars False raw"

definition encode_query_key :: "string \<Rightarrow> string" where
  "encode_query_key raw = encode_query_chars True raw"

definition serialize_pair :: "Param \<Rightarrow> string" where
  "serialize_pair p =
     (if p_key p = [] \<and> p_value p = [] then []
      else encode_query_key (p_key p) @ ''='' @ encode_query_delimiters (p_value p))"

definition serialize_query :: "Param list \<Rightarrow> string" where
  "serialize_query params = join ''&'' (map serialize_pair params)"

section \<open>Names\<close>

definition percent_decode :: "string \<Rightarrow> string" where
  "percent_decode s = from_utf8_lossy (pct_decode s)"

definition fragment_keep :: "char \<Rightarrow> bool" where
  "fragment_keep c \<longleftrightarrow>
     is_ascii_alphanumeric c \<or> c = CHR ''-'' \<or> c = CHR ''.'' \<or> c = CHR ''_'' \<or> c = CHR ''~''"

definition encode_fragment :: "string \<Rightarrow> string" where
  "encode_fragment name = concat (map (\<lambda>c. if fragment_keep c then [c] else pct_byte c) name)"

definition mark_known :: "Param list \<Rightarrow> string list \<Rightarrow> Param list" where
  "mark_known params known_keys =
     map (\<lambda>p. p\<lparr>p_known := list_ex (\<lambda>k. k = to_ascii_lowercase (p_key p)) known_keys\<rparr>) params"

section \<open>The generic parser and serializer\<close>

record UriParts =
  up_userinfo :: "string option"
  up_host :: string
  up_port :: u16
  up_raw_path :: string
  up_query_pairs :: "Param list"
  up_fragment :: "string option"

definition split_uri :: "string \<Rightarrow> parse_error + UriParts" where
  "split_uri rest =
     (let (before_frag, fragment) = split_fragment rest;
          (before_query, query) = split_query before_frag;
          (userinfo, hostport_path) = split_userinfo before_query;
          (hostport, raw_path) = split_path hostport_path
      in case parse_hostport hostport of
           Inl e \<Rightarrow> Inl e
         | Inr (host, port) \<Rightarrow>
             (case (case query of None \<Rightarrow> Inr [] | Some q \<Rightarrow> parse_query q) of
                Inl e \<Rightarrow> Inl e
              | Inr pairs \<Rightarrow> Inr \<lparr>up_userinfo = userinfo, up_host = host, up_port = port,
                  up_raw_path = raw_path, up_query_pairs = pairs, up_fragment = fragment\<rparr>))"

definition parse_with_spec :: "UriSchemeSpec \<Rightarrow> string \<Rightarrow> string \<Rightarrow> parse_error + ProxyEntry" where
  "parse_with_spec spec rest raw_line =
     (case split_uri rest of
        Inl e \<Rightarrow> Inl e
      | Inr parts \<Rightarrow>
          (case (case up_userinfo parts of
                   Some u \<Rightarrow> Inr u
                 | None \<Rightarrow> if us_credential_required spec then Inl MissingCredential else Inr []) of
             Inl e \<Rightarrow> Inl e
           | Inr credential \<Rightarrow> Inr \<lparr>pe_scheme = us_scheme spec,
               pe_name = (case up_fragment parts of None \<Rightarrow> [] | Some f \<Rightarrow> percent_decode f),
               pe_host = up_host parts, pe_port = up_port parts, pe_credential = credential,
               pe_params = mark_known (up_query_pairs parts) (us_known_keys spec),
               pe_raw_path = up_raw_path parts, pe_raw_line = raw_line\<rparr>))"

text \<open>Everything after the prefix.\<close>

definition uri_body :: "ProxyEntry \<Rightarrow> string" where
  "uri_body entry =
     (if pe_credential entry = [] then [] else pe_credential entry @ ''@'') @
     host_for_uri (pe_host entry) @ '':'' @ dec_nat (unat (pe_port entry)) @ pe_raw_path entry @
     (if pe_params entry = [] then [] else ''?'' @ serialize_query (pe_params entry)) @
     (if pe_name entry = [] then [] else ''#'' @ encode_fragment (pe_name entry))"

definition serialize_with_spec :: "UriSchemeSpec \<Rightarrow> ProxyEntry \<Rightarrow> string" where
  "serialize_with_spec spec entry = us_prefix spec @ uri_body entry"

end
