(* ===== verification/Yaml_Scan.thy ===== *)
theory Yaml_Scan
  imports Fumox_Prelude
begin

text \<open>
  The scanner of \<open>parsers/mod.rs\<close> that refuses YAML aliases before a payload is parsed
  (\<open>reject_yaml_aliases\<close>, \<open>scan_yaml_line\<close>, \<open>is_block_scalar_header\<close>). The scanned part of a line
  is kept reversed, so its head is the byte before the cursor.
\<close>

section \<open>Block scalars\<close>

lemma trim_start_length: "length (trim_start s) \<le> length s"
proof -
  obtain p where "s = p @ trim_start s" using trim_start_suffix by blast
  then show ?thesis by (metis le_add2 length_append)
qed

function strip_dashes :: "string \<Rightarrow> string" where
  "strip_dashes rest =
     (case strip_prefix ''- '' rest of None \<Rightarrow> rest | Some r \<Rightarrow> strip_dashes (trim_start r))"
  by pat_completeness auto

termination
proof (relation "measure length")
  fix rest r assume "strip_prefix ''- '' rest = Some r"
  then have "length r < length rest" by (auto simp: strip_prefix_Some)
  then show "(trim_start r, rest) \<in> measure length" using trim_start_length [of r] by simp
qed simp

declare strip_dashes.simps [simp del]

text \<open>The indicators after the bar: at most one digit and one chomping mark, in either order.\<close>

fun skip_indicators :: "bool \<Rightarrow> bool \<Rightarrow> string \<Rightarrow> string" where
  "skip_indicators saw_indent saw_chomp [] = []"
| "skip_indicators saw_indent saw_chomp (b # r) =
     (if is_digit b \<and> \<not> saw_indent then skip_indicators True saw_chomp r
      else if (b = CHR ''+'' \<or> b = CHR ''-'') \<and> \<not> saw_chomp then skip_indicators saw_indent True r
      else b # r)"

definition is_block_scalar_header :: "string \<Rightarrow> string \<Rightarrow> bool" where
  "is_block_scalar_header before header =
     (let rest = strip_dashes (trim before) in
      if rest \<noteq> [] \<and> rest \<noteq> ''-'' \<and> \<not> (rest \<noteq> [] \<and> last rest = CHR '':'') then False
      else (let t = trim (skip_indicators False False (drop 1 header)) in t = [] \<or> prefix ''#'' t))"

section \<open>One line\<close>

record scan =
  sc_double :: bool
  sc_single :: bool
  sc_block :: "nat option"

definition token_start :: "string \<Rightarrow> bool" where
  "token_start done_rev =
     (case done_rev of [] \<Rightarrow> True
      | c # _ \<Rightarrow> c \<in> {CHR '' '', TAB, CHR '','', CHR ''['', CHR ''{'', CHR '':'', CHR ''?''})"

definition after_blank :: "string \<Rightarrow> bool" where
  "after_blank done_rev = (case done_rev of [] \<Rightarrow> True | c # _ \<Rightarrow> c = CHR '' '' \<or> c = TAB)"

function scan_yaml_line :: "nat \<Rightarrow> string \<Rightarrow> string \<Rightarrow> scan \<Rightarrow> bool \<times> scan" where
  "scan_yaml_line indent done_rev [] sc = (False, sc)"
| "scan_yaml_line indent done_rev (b # r) sc =
     (if sc_double sc then
        (if b = CHR 0x5C then scan_yaml_line indent (take 1 r @ b # done_rev) (drop 1 r) sc
         else if b = DQUOTE then scan_yaml_line indent (b # done_rev) r (sc\<lparr>sc_double := False\<rparr>)
         else scan_yaml_line indent (b # done_rev) r sc)
      else if sc_single sc then
        (if b = SQUOTE \<and> prefix [SQUOTE] r then scan_yaml_line indent (take 1 r @ b # done_rev) (drop 1 r) sc
         else if b = SQUOTE then scan_yaml_line indent (b # done_rev) r (sc\<lparr>sc_single := False\<rparr>)
         else scan_yaml_line indent (b # done_rev) r sc)
      else if b = DQUOTE \<and> token_start done_rev then
        scan_yaml_line indent (b # done_rev) r (sc\<lparr>sc_double := True\<rparr>)
      else if b = SQUOTE \<and> token_start done_rev then
        scan_yaml_line indent (b # done_rev) r (sc\<lparr>sc_single := True\<rparr>)
      else if b = CHR ''#'' \<and> after_blank done_rev then (False, sc)
      else if b = CHR ''*'' \<and> token_start done_rev then (True, sc)
      else if (b = CHR ''|'' \<or> b = CHR ''>'') \<and> token_start done_rev \<and>
              is_block_scalar_header (rev done_rev) (b # r)
      then scan_yaml_line indent (b # done_rev) r (sc\<lparr>sc_block := Some indent\<rparr>)
      else scan_yaml_line indent (b # done_rev) r sc)"
  by pat_completeness auto
termination
  by (relation "measure (\<lambda>(_, _, r, _). length r)") auto

section \<open>The payload\<close>

definition line_indent :: "string \<Rightarrow> nat" where
  "line_indent line = length line - length (trim_start line)"

text \<open>A line the open block scalar owns is skipped.\<close>

definition in_block :: "scan \<Rightarrow> string \<Rightarrow> bool" where
  "in_block sc line =
     (case sc_block sc of None \<Rightarrow> False
      | Some header_indent \<Rightarrow> trim line = [] \<or> line_indent line > header_indent)"

fun scan_lines :: "nat \<Rightarrow> scan \<Rightarrow> string list \<Rightarrow> nat option" where
  "scan_lines idx sc [] = None"
| "scan_lines idx sc (line # rest) =
     (if in_block sc line then scan_lines (idx + 1) sc rest
      else case scan_yaml_line (line_indent line) [] line (sc\<lparr>sc_block := None\<rparr>) of
             (True, _) \<Rightarrow> Some (idx + 1)
           | (False, sc') \<Rightarrow> scan_lines (idx + 1) sc' rest)"

text \<open>The error is the number of the line.\<close>

definition reject_yaml_aliases :: "string \<Rightarrow> nat + unit" where
  "reject_yaml_aliases payload =
     (case scan_lines 0 \<lparr>sc_double = False, sc_single = False, sc_block = None\<rparr> (lines_of payload) of
        Some n \<Rightarrow> Inl n
      | None \<Rightarrow> Inr ())"

section \<open>What the scanner finds\<close>

text \<open>An asterisk at a token position of the line.\<close>

definition alias_at :: "string \<Rightarrow> string \<Rightarrow> bool" where
  "alias_at done_rev line \<longleftrightarrow> (\<exists>a b. line = a @ CHR ''*'' # b \<and> token_start (rev a @ done_rev))"

lemma alias_at_Nil [simp]: "\<not> alias_at done_rev []"
  by (simp add: alias_at_def)

lemma alias_at_Cons:
  "alias_at done_rev (b # r) \<longleftrightarrow> (b = CHR ''*'' \<and> token_start done_rev) \<or> alias_at (b # done_rev) r"
proof
  assume "alias_at done_rev (b # r)"
  then obtain x y where x: "b # r = x @ CHR ''*'' # y" "token_start (rev x @ done_rev)"
    by (auto simp: alias_at_def)
  then show "(b = CHR ''*'' \<and> token_start done_rev) \<or> alias_at (b # done_rev) r"
    by (cases x) (auto simp: alias_at_def)
next
  have "alias_at done_rev (b # r)" if "r = x @ CHR ''*'' # y" "token_start (rev x @ b # done_rev)" for x y
    unfolding alias_at_def by (rule exI [of _ "b # x"], rule exI [of _ y]) (simp add: that)
  moreover have "alias_at done_rev (b # r)" if "b = CHR ''*''" "token_start done_rev"
    unfolding alias_at_def by (rule exI [of _ "[]"], rule exI [of _ r]) (simp add: that)
  ultimately show "(b = CHR ''*'' \<and> token_start done_rev) \<or> alias_at (b # done_rev) r \<Longrightarrow> alias_at done_rev (b # r)"
    by (auto simp: alias_at_def [of "b # done_rev"])
qed

definition no_scalar_marks :: "string \<Rightarrow> bool" where
  "no_scalar_marks s \<longleftrightarrow> list_all (\<lambda>c. c \<notin> {DQUOTE, SQUOTE, CHR ''#'', CHR ''|'', CHR ''>''}) s"

definition idle :: scan where
  "idle = \<lparr>sc_double = False, sc_single = False, sc_block = None\<rparr>"

lemma scan_line_plain:
  "no_scalar_marks r \<Longrightarrow> scan_yaml_line indent done_rev r idle = (alias_at done_rev r, idle)"
  by (induction r arbitrary: done_rev) (auto simp: no_scalar_marks_def idle_def alias_at_Cons)

lemma scan_lines_plain:
  "list_all no_scalar_marks ls \<Longrightarrow> scan_lines n idle ls = None \<longleftrightarrow> \<not> list_ex (alias_at []) ls"
proof (induction ls arbitrary: n)
  case (Cons l ls)
  have "idle\<lparr>sc_block := None\<rparr> = idle" "\<not> in_block idle l" by (simp_all add: idle_def in_block_def)
  then show ?case using Cons by (cases "alias_at [] l") (simp_all add: scan_line_plain)
qed simp

lemma lines_of_chars: "l \<in> set (lines_of s) \<Longrightarrow> set l \<subseteq> set s"
proof -
  assume "l \<in> set (lines_of s)"
  then consider p where "p \<in> set (split_on LF s)" "l = strip_cr p" | "l = last (split_on LF s)"
    by (auto simp: lines_of_def Let_def dest: in_set_butlastD split: if_splits)
  then show ?thesis
  proof cases
    case 1 then show ?thesis using split_on_piece_chars set_strip_cr by blast
  next
    case 2 then show ?thesis using split_on_piece_chars last_in_set split_on_not_Nil by metis
  qed
qed

text \<open>
  Where no quote, comment or block scalar is in play, the scan is exact: the payload is refused if
  and only if some line has an asterisk at a token position, at its start or after a blank, a tab or
  one of \<open>,[{:?\<close>; \<open>pass*word\<close> is not refused, \<open>?*a\<close> is.
\<close>

theorem alias_scan_exact:
  assumes "no_scalar_marks payload"
  shows "is_ok (reject_yaml_aliases payload) = (\<not> list_ex (alias_at []) (lines_of payload))"
proof -
  have "list_all no_scalar_marks (lines_of payload)"
    using assms lines_of_chars by (fastforce simp: no_scalar_marks_def list_all_iff)
  from scan_lines_plain [OF this, of 0] show ?thesis
    by (cases "scan_lines 0 idle (lines_of payload)") (simp_all add: reject_yaml_aliases_def idle_def)
qed

theorem alias_scan_exact_witness:
  "is_ok (reject_yaml_aliases ''password: pass*word'') \<and> \<not> is_ok (reject_yaml_aliases ''{?*a}'')"
proof -
  have m: "no_scalar_marks ''password: pass*word''" "no_scalar_marks ''{?*a}''"
    by (simp_all add: no_scalar_marks_def)
  have l: "lines_of ''password: pass*word'' = [''password: pass*word'']" "lines_of ''{?*a}'' = [''{?*a}'']"
    by (simp_all add: lines_of_def)
  show ?thesis
    using alias_scan_exact [OF m(1)] alias_scan_exact [OF m(2)]
    by (simp add: l alias_at_Cons token_start_def)
qed

text \<open>Inside a double quote nothing is found before the next one.\<close>

lemma scan_double:
  "sc_double sc \<Longrightarrow> DQUOTE \<notin> set r \<Longrightarrow> scan_yaml_line indent done_rev r sc = (False, sc)"
proof (induction indent done_rev r sc rule: scan_yaml_line.induct)
  case (2 indent done_rev b r sc)
  have "DQUOTE \<notin> set (drop 1 r)" using "2.prems"(2) by (auto dest: in_set_dropD)
  then show ?case using 2 by auto
qed simp

lemma scan_lines_double:
  "sc_double sc \<Longrightarrow> sc_block sc = None \<Longrightarrow> (\<And>l. l \<in> set ls \<Longrightarrow> DQUOTE \<notin> set l) \<Longrightarrow> scan_lines n sc ls = None"
proof (induction ls arbitrary: n)
  case (Cons l ls)
  have "scan_lines n sc (l # ls) = scan_lines (n + 1) sc ls"
    using Cons.prems by (cases sc) (simp add: in_block_def scan_double)
  then show ?case using Cons by simp
qed simp

text \<open>
  A quote inside a plain scalar blinds the scan. In YAML a quote only opens a quoted scalar where a
  scalar starts, but the scanner takes any quote after a blank for one, so after the single line
  \<open>a: b "\<close>, a plain scalar, no alias of the rest of the payload is found, whatever it holds, up to the
  next quote.
\<close>

theorem plain_quote_hides_aliases:
  assumes "DQUOTE \<notin> set rest"
  shows "reject_yaml_aliases (''a: b '' @ DQUOTE # LF # rest) = Inr ()"
proof -
  let ?l = "''a: b '' @ [DQUOTE]"
  have split: "split_on LF (''a: b '' @ DQUOTE # LF # rest) = ?l # split_on LF rest"
    using split_on_append [of LF ?l rest] by simp
  then have lines: "lines_of (''a: b '' @ DQUOTE # LF # rest) = ?l # lines_of rest"
    by (simp add: lines_of_def strip_cr_def Let_def)
  have "scan_yaml_line n [] ?l idle = (False, idle\<lparr>sc_double := True\<rparr>)" for n
    by (simp add: idle_def token_start_def after_blank_def)
  moreover have "scan_lines (Suc 0) (idle\<lparr>sc_double := True\<rparr>) (lines_of rest) = None"
    using assms lines_of_chars by (intro scan_lines_double) (auto simp: idle_def)
  ultimately show ?thesis
    unfolding reject_yaml_aliases_def lines idle_def [symmetric]
    by (simp add: in_block_def idle_def)
qed

theorem plain_quote_hides_aliases_witness:
  "reject_yaml_aliases (''a: b '' @ DQUOTE # LF # ''p: [*x, *x, *x]'') = Inr () \<and>
   \<not> is_ok (reject_yaml_aliases ''p: [*x, *x, *x]'')"
proof -
  have "lines_of ''p: [*x, *x, *x]'' = [''p: [*x, *x, *x]'']" by (simp add: lines_of_def)
  then have "\<not> is_ok (reject_yaml_aliases ''p: [*x, *x, *x]'')"
    by (simp add: reject_yaml_aliases_def in_block_def token_start_def after_blank_def)
  then show ?thesis using plain_quote_hides_aliases [of "''p: [*x, *x, *x]''"] by simp
qed

end
