(* ===== verification/Formats.thy ===== *)
theory Formats
  imports Uri Yaml_Scan Json
begin

text \<open>
  The helpers of the output formats, \<open>fumox-core/src/formats/mod.rs\<close>: unique names for the structured
  documents, and the readers of parameters that may hold percent escapes (from URI lines) or YAML text
  (from Clash items). The YAML library is a parameter, as a parser and a printer that may fail.
\<close>

section \<open>Unique names\<close>

definition suffixed :: "string \<Rightarrow> nat \<Rightarrow> string" where
  "suffixed name n = name @ '' ('' @ dec_nat n @ '')''"

lemma suffixed_inj: "suffixed name m = suffixed name n \<longleftrightarrow> m = n"
  by (simp add: suffixed_def)

text \<open>The inner loop: count up to a suffix that is free. It ends because the taken names are finitely many.\<close>

definition taken_above :: "string list \<Rightarrow> string \<Rightarrow> nat \<Rightarrow> nat set" where
  "taken_above taken name n = {m. n < m \<and> suffixed name m \<in> set taken}"

lemma taken_above_finite: "finite (taken_above taken name n)"
proof -
  have "inj_on (suffixed name) (taken_above taken name n)" by (simp add: inj_on_def suffixed_inj)
  moreover have "suffixed name ` taken_above taken name n \<subseteq> set taken" by (auto simp: taken_above_def)
  ultimately show ?thesis using finite_subset finite_imageD by blast
qed

lemma taken_above_less:
  assumes "suffixed name (n + 1) \<in> set taken"
  shows "card (taken_above taken name (n + 1)) < card (taken_above taken name n)"
proof (rule psubset_card_mono [OF taken_above_finite])
  show "taken_above taken name (n + 1) \<subset> taken_above taken name n"
    using assms by (force simp: taken_above_def)
qed

function free_suffix :: "string list \<Rightarrow> string \<Rightarrow> nat \<Rightarrow> nat" where
  "free_suffix taken name n =
     (if suffixed name (n + 1) \<in> set taken then free_suffix taken name (n + 1) else n + 1)"
  by pat_completeness auto
termination
  by (relation "measure (\<lambda>(taken, name, n). card (taken_above taken name n))")
    (auto dest: taken_above_less simp del: One_nat_def)

declare free_suffix.simps [simp del]

fun dedupe_loop :: "string list \<Rightarrow> (string \<Rightarrow> nat option) \<Rightarrow> string list \<Rightarrow> string list" where
  "dedupe_loop taken next_suffix [] = []"
| "dedupe_loop taken next_suffix (name # names) =
     (if name \<in> set taken
      then (let n = free_suffix taken name (case next_suffix name of Some k \<Rightarrow> k | None \<Rightarrow> 1)
            in suffixed name n # dedupe_loop (suffixed name n # taken) (next_suffix(name \<mapsto> n)) names)
      else name # dedupe_loop (name # taken) next_suffix names)"

definition dedupe_names :: "string list \<Rightarrow> string list" where
  "dedupe_names names = dedupe_loop [] Map.empty names"

lemma free_suffix_free: "suffixed name (free_suffix taken name n) \<notin> set taken"
proof (induction taken name n rule: free_suffix.induct)
  case (1 taken name n)
  then show ?case by (subst free_suffix.simps) simp
qed

lemma free_suffix_less: "n < free_suffix taken name n"
proof (induction taken name n rule: free_suffix.induct)
  case (1 taken name n)
  then show ?case by (subst free_suffix.simps) fastforce
qed

lemma dedupe_loop_fresh:
  "distinct (dedupe_loop taken nx names) \<and> set (dedupe_loop taken nx names) \<inter> set taken = {} \<and>
   length (dedupe_loop taken nx names) = length names"
proof (induction names arbitrary: taken nx)
  case (Cons name names)
  define n where "n = free_suffix taken name (case nx name of Some k \<Rightarrow> k | None \<Rightarrow> 1)"
  have free: "suffixed name n \<notin> set taken" unfolding n_def by (rule free_suffix_free)
  show ?case
  proof (cases "name \<in> set taken")
    case True
    then show ?thesis
      using free Cons.IH [of "suffixed name n # taken" "nx(name \<mapsto> n)"]
      by (auto simp: n_def [symmetric] Let_def simp del: fun_upd_apply)
  next
    case False
    then show ?thesis using Cons.IH [of "name # taken" nx] by auto
  qed
qed simp

text \<open>Every output name is its input, or its input with a counter from two upwards.\<close>

definition renamed :: "string \<Rightarrow> string \<Rightarrow> bool" where
  "renamed name out \<longleftrightarrow> out = name \<or> (\<exists>n \<ge> 2. out = suffixed name n)"

lemma dedupe_loop_renamed:
  "(\<And>k v. nx k = Some v \<Longrightarrow> 1 \<le> v) \<Longrightarrow> list_all2 renamed names (dedupe_loop taken nx names)"
proof (induction names arbitrary: taken nx)
  case (Cons name names)
  show ?case
  proof (cases "name \<in> set taken")
    case True
    define n where "n = free_suffix taken name (case nx name of Some k \<Rightarrow> k | None \<Rightarrow> 1)"
    have "1 \<le> (case nx name of Some k \<Rightarrow> k | None \<Rightarrow> 1)" using Cons.prems by (auto split: option.split)
    then have n: "2 \<le> n" using free_suffix_less [of _ taken name] unfolding n_def
      by (metis One_nat_def Suc_1 Suc_leI le_less_trans)
    have "list_all2 renamed names (dedupe_loop (suffixed name n # taken) (nx(name \<mapsto> n)) names)"
      using Cons.prems n by (intro Cons.IH) (auto split: if_splits)
    moreover have "renamed name (suffixed name n)" using n by (auto simp: renamed_def)
    ultimately show ?thesis using True by (simp add: n_def [symmetric] Let_def)
  next
    case False
    then show ?thesis using Cons.IH [OF Cons.prems] by (simp add: renamed_def [of name name])
  qed
qed simp

text \<open>The first of a run of names that nothing has taken keeps its name.\<close>

lemma dedupe_loop_kept:
  "distinct names \<Longrightarrow> set names \<inter> set taken = {} \<Longrightarrow> dedupe_loop taken nx names = names"
  by (induction names arbitrary: taken) auto

text \<open>
  The names of a structured document are unique. The output has one name per entry, all of them
  different, each the entry's own name or that name with a counter of at least two; names that were
  already different are left alone. The counter loop ends on every input.
\<close>

theorem dedupe_names_spec:
  "length (dedupe_names names) = length names \<and> distinct (dedupe_names names) \<and>
   list_all2 renamed names (dedupe_names names) \<and> (dedupe_names names = names) = distinct names"
proof -
  have "length (dedupe_names names) = length names" "distinct (dedupe_names names)"
    "list_all2 renamed names (dedupe_names names)" "distinct names \<Longrightarrow> dedupe_names names = names"
    using dedupe_loop_fresh [of "[]" Map.empty names] dedupe_loop_renamed [of Map.empty names "[]"]
      dedupe_loop_kept [of names "[]" Map.empty]
    by (auto simp: dedupe_names_def)
  then show ?thesis by metis
qed

section \<open>Reading parameters\<close>

definition is_insecure :: "Param list \<Rightarrow> bool" where
  "is_insecure params = list_ex is_insecure_param params"

definition param_value :: "ProxyEntry \<Rightarrow> string \<Rightarrow> string option" where
  "param_value entry key =
     (case param_ignore_case entry key of
        None \<Rightarrow> None
      | Some v \<Rightarrow> if trim v = [] then None else Some (percent_decode (trim v)))"

definition param_truthy :: "ProxyEntry \<Rightarrow> string \<Rightarrow> bool" where
  "param_truthy entry key =
     (case param_ignore_case entry key of None \<Rightarrow> False | Some v \<Rightarrow> is_truthy_toggle v)"

definition unwrap_or_default :: "string option \<Rightarrow> string" where
  "unwrap_or_default x = (case x of None \<Rightarrow> [] | Some s \<Rightarrow> s)"

definition list_item :: "(yaml \<Rightarrow> string option) \<Rightarrow> yaml \<Rightarrow> string" where
  "list_item yaml_print v =
     (case v of YString s \<Rightarrow> s | other \<Rightarrow> trim (unwrap_or_default (yaml_print other)))"

definition some_list :: "string list \<Rightarrow> string list option" where
  "some_list xs = (if xs = [] then None else Some xs)"

definition param_list ::
  "(string \<Rightarrow> yaml option) \<Rightarrow> (yaml \<Rightarrow> string option) \<Rightarrow> ProxyEntry \<Rightarrow> string \<Rightarrow> string list option" where
  "param_list yaml_parse yaml_print entry key =
     (case param_ignore_case entry key of
        None \<Rightarrow> None
      | Some raw \<Rightarrow>
          if trim raw = [] then None
          else (case (if is_ok (reject_yaml_aliases raw) then Option.bind (yaml_parse raw) yaml_sequence else None) of
             Some items \<Rightarrow> some_list (filter (\<lambda>s. s \<noteq> []) (map (list_item yaml_print) items))
           | None \<Rightarrow>
               some_list (filter (\<lambda>s. s \<noteq> []) (map trim (split_on (CHR '','') (percent_decode raw))))))"

definition param_map :: "(string \<Rightarrow> yaml option) \<Rightarrow> ProxyEntry \<Rightarrow> string \<Rightarrow> ymapping option" where
  "param_map yaml_parse entry key =
     (case param_ignore_case entry key of
        None \<Rightarrow> None
      | Some raw \<Rightarrow>
          if \<not> is_ok (reject_yaml_aliases (trim raw)) then None
          else (case Option.bind (yaml_parse (trim raw)) as_mapping of
             Some m \<Rightarrow> if m = [] then None else Some m
           | None \<Rightarrow> None))"

definition capitalize :: "string \<Rightarrow> string" where
  "capitalize key = (case key of [] \<Rightarrow> [] | c # r \<Rightarrow> ascii_upper c # r)"

fun first_map_str :: "ymapping \<Rightarrow> string list \<Rightarrow> string option" where
  "first_map_str m [] = None"
| "first_map_str m (k # ks) =
     (case Option.bind (yget m k) yaml_str of
        Some v \<Rightarrow> if trim v \<noteq> [] then Some (trim v) else first_map_str m ks
      | None \<Rightarrow> first_map_str m ks)"

definition map_str :: "ymapping option \<Rightarrow> string \<Rightarrow> string option" where
  "map_str m key = Option.bind m (\<lambda>m. first_map_str m [key, capitalize key])"

definition or_else :: "'a option \<Rightarrow> 'a option \<Rightarrow> 'a option" where
  "or_else x y = (case x of Some v \<Rightarrow> Some v | None \<Rightarrow> y)"

definition network_of :: "ProxyEntry \<Rightarrow> string \<Rightarrow> string option" where
  "network_of entry uri_key =
     map_option to_ascii_lowercase (or_else (param_value entry uri_key) (param_value entry ''network''))"

definition reality_public_key :: "(string \<Rightarrow> yaml option) \<Rightarrow> ProxyEntry \<Rightarrow> string option" where
  "reality_public_key yaml_parse entry =
     or_else (param_value entry ''pbk'') (map_str (param_map yaml_parse entry ''reality-opts'') ''public-key'')"

definition reality_short_id :: "(string \<Rightarrow> yaml option) \<Rightarrow> ProxyEntry \<Rightarrow> string option" where
  "reality_short_id yaml_parse entry =
     or_else (param_value entry ''sid'') (map_str (param_map yaml_parse entry ''reality-opts'') ''short-id'')"

end
