(* ===== verification/Parsers.thy ===== *)
theory Parsers
  imports Formats
begin

text \<open>
  The line parsers and serializers: \<open>parsers/ss.rs\<close>, \<open>parsers/vmess.rs\<close> and the dispatch, translation
  and payload detection of \<open>parsers/mod.rs\<close>. Base64, JSON and YAML are libraries and parameters:
  \<open>b64_decode\<close> is the standard engine, \<open>b64_encode\<close> the one without padding, \<open>json_parse\<close>,
  \<open>json_print\<close>, \<open>yaml_parse\<close> and \<open>yaml_print\<close> their namesakes.
\<close>

section \<open>Shadowsocks\<close>

definition reject_line_breaks :: "string \<Rightarrow> string \<Rightarrow> parse_error + unit" where
  "reject_line_breaks field val = (if LF \<in> set val \<or> CR \<in> set val then Inl (LineBreak field) else Inr ())"

definition url_safe_char :: "char \<Rightarrow> char" where
  "url_safe_char c = (if c = CHR ''-'' then CHR ''+'' else if c = CHR ''_'' then CHR ''/'' else c)"

definition decode_b64_lenient :: "(string \<Rightarrow> string option) \<Rightarrow> string \<Rightarrow> string option" where
  "decode_b64_lenient b64_decode input =
     (if input = [] then None
      else let normalized = map url_safe_char input in
        if length normalized mod 4 = 2 then b64_decode (normalized @ ''=='')
        else if length normalized mod 4 = 3 then b64_decode (normalized @ ''='')
        else if length normalized mod 4 = 0 then b64_decode normalized
        else None)"

definition from_utf8 :: "string \<Rightarrow> string option" where
  "from_utf8 bytes = (if valid_utf8 bytes then Some bytes else None)"

definition ok_or :: "'e \<Rightarrow> 'a option \<Rightarrow> 'e + 'a" where
  "ok_or e x = (case x of None \<Rightarrow> Inl e | Some v \<Rightarrow> Inr v)"

definition parse_sip002 ::
  "(string \<Rightarrow> string option) \<Rightarrow> string \<Rightarrow> parse_error + (string \<times> string \<times> u16 \<times> string)" where
  "parse_sip002 b64_decode before_query =
     bind_res (ok_or (Malformed ''missing @'') (rsplit_once (CHR ''@'') before_query)) (\<lambda>(userinfo, hostport_path).
     bind_res (ok_or (Malformed ''invalid base64 userinfo'') (decode_b64_lenient b64_decode userinfo)) (\<lambda>decoded.
     bind_res (ok_or (Malformed ''non-UTF-8 userinfo'') (from_utf8 decoded)) (\<lambda>credential.
     if CHR '':'' \<notin> set credential then Inl (Malformed ''userinfo is not method:password'')
     else bind_res (reject_line_breaks ''credential'' credential) (\<lambda>_.
       let (hostport, raw_path) = split_path hostport_path in
       bind_res (parse_hostport hostport) (\<lambda>(host, port). Inr (credential, host, port, raw_path))))))"

definition parse_legacy ::
  "(string \<Rightarrow> string option) \<Rightarrow> string \<Rightarrow> parse_error + (string \<times> string \<times> u16 \<times> string)" where
  "parse_legacy b64_decode before_query =
     bind_res (ok_or (Malformed ''invalid base64'') (decode_b64_lenient b64_decode before_query)) (\<lambda>bytes.
     bind_res (ok_or (Malformed ''non-UTF-8 payload'') (from_utf8 bytes)) (\<lambda>decoded.
     bind_res (ok_or (Malformed ''no @'') (rsplit_once (CHR ''@'') decoded)) (\<lambda>(credential, hostport).
     if CHR '':'' \<notin> set credential then Inl (Malformed ''not method:password@host:port'')
     else bind_res (reject_line_breaks ''credential'' credential) (\<lambda>_.
       bind_res (parse_hostport hostport) (\<lambda>(host, port).
       bind_res (reject_line_breaks ''host'' host) (\<lambda>_. Inr (credential, host, port, [])))))))"

definition optional_query :: "string option \<Rightarrow> parse_error + Param list" where
  "optional_query q = (case q of None \<Rightarrow> Inr [] | Some q \<Rightarrow> parse_query q)"

definition ss_parse :: "(string \<Rightarrow> string option) \<Rightarrow> string \<Rightarrow> string \<Rightarrow> parse_error + ProxyEntry" where
  "ss_parse b64_decode rest raw_line =
     (let (before_frag, fragment) = split_fragment rest;
          (before_query, query) = split_query before_frag in
      bind_res (if CHR ''@'' \<in> set before_query then parse_sip002 b64_decode before_query
                else parse_legacy b64_decode before_query) (\<lambda>(credential, host, port, raw_path).
      bind_res (optional_query query) (\<lambda>params.
        Inr \<lparr>pe_scheme = Ss, pe_name = (case fragment of None \<Rightarrow> [] | Some f \<Rightarrow> percent_decode f),
          pe_host = host, pe_port = port, pe_credential = credential, pe_params = mark_known params [],
          pe_raw_path = raw_path, pe_raw_line = raw_line\<rparr>)))"

definition ss_serialize :: "(string \<Rightarrow> string) \<Rightarrow> ProxyEntry \<Rightarrow> string" where
  "ss_serialize b64_encode entry =
     (let credential = (case split_once (CHR '':'') (pe_credential entry) of
            Some _ \<Rightarrow> pe_credential entry
          | None \<Rightarrow> ''chacha20-ietf-poly1305:'' @ pe_credential entry) in
      ''ss://'' @ b64_encode credential @ ''@'' @ host_for_uri (pe_host entry) @ '':'' @
      dec_nat (unat (pe_port entry)) @ pe_raw_path entry @
      (if pe_params entry = [] then [] else ''?'' @ serialize_query (pe_params entry)) @
      (if pe_name entry = [] then [] else ''#'' @ encode_fragment (pe_name entry)))"

section \<open>VMess\<close>

definition KNOWN_FIELDS :: "string list" where
  "KNOWN_FIELDS = [''v'', ''ps'', ''add'', ''port'', ''id'', ''aid'', ''scy'', ''net'', ''type'', ''host'', ''path'',
     ''tls'', ''sni'', ''alpn'', ''fp'', ''allowinsecure'', ''insecure'', ''skip-cert-verify'']"

definition CONSUMED_FIELDS :: "string list" where
  "CONSUMED_FIELDS = [''ps'', ''add'', ''port'', ''id'']"

type_synonym jobject = "(string \<times> json) list"

definition string_field :: "jobject \<Rightarrow> string \<Rightarrow> parse_error + string" where
  "string_field obj key =
     (case map_of obj key of
        Some (JString s) \<Rightarrow> Inr s
      | Some (JInt n) \<Rightarrow> Inr (dec_int n)
      | Some (JFloat t) \<Rightarrow> Inr t
      | Some _ \<Rightarrow> Inl (Malformed ''field is not a string'')
      | None \<Rightarrow> Inl (Malformed ''missing field''))"

definition numeric_field :: "jobject \<Rightarrow> string \<Rightarrow> parse_error + u16" where
  "numeric_field obj key =
     (case map_of obj key of
        Some (JInt n) \<Rightarrow> if 0 \<le> n \<and> n \<le> 65535 then Inr (of_int n) else Inl (Malformed ''port out of range'')
      | Some (JFloat t) \<Rightarrow> Inl (Malformed ''port out of range'')
      | Some (JString s) \<Rightarrow> ok_or (InvalidPort s) (parse_u16 (trim s))
      | Some _ \<Rightarrow> Inl (Malformed ''field is not numeric'')
      | None \<Rightarrow> Inl (Malformed ''missing field''))"

definition json_to_param_value :: "(json \<Rightarrow> string) \<Rightarrow> json \<Rightarrow> string" where
  "json_to_param_value json_print v =
     (case v of JString s \<Rightarrow> s | JInt n \<Rightarrow> dec_int n | JFloat t \<Rightarrow> t | JBool b \<Rightarrow> bool_text b | JNull \<Rightarrow> []
      | other \<Rightarrow> json_print other)"

definition member :: "string \<Rightarrow> string list \<Rightarrow> bool" where
  "member x xs = list_ex (\<lambda>y. y = x) xs"

definition vmess_params :: "(json \<Rightarrow> string) \<Rightarrow> jobject \<Rightarrow> Param list" where
  "vmess_params json_print obj =
     sort_key (\<lambda>p :: Param. p_key p \<noteq> ''v'')
       (map (\<lambda>(key, val). \<lparr>p_key = key, p_value = json_to_param_value json_print val,
                           p_known = member (to_ascii_lowercase key) KNOWN_FIELDS\<rparr>)
         (filter (\<lambda>(key, _). \<not> member key CONSUMED_FIELDS) obj))"

fun check_all :: "(Param \<Rightarrow> parse_error + unit) \<Rightarrow> Param list \<Rightarrow> parse_error + unit" where
  "check_all f [] = Inr ()"
| "check_all f (p # ps) = bind_res (f p) (\<lambda>_. check_all f ps)"

definition param_too_long :: "Param \<Rightarrow> parse_error + unit" where
  "param_too_long p =
     (if length (p_key p) > MAX_PARAM_BYTES \<or> length (p_value p) > MAX_PARAM_BYTES
      then Inl (ParamTooLong (length (p_key p)) (length (p_value p))) else Inr ())"

definition vmess_entry :: "(json \<Rightarrow> string) \<Rightarrow> jobject \<Rightarrow> string \<Rightarrow> parse_error + ProxyEntry" where
  "vmess_entry json_print obj raw_line =
     bind_res (string_field obj ''add'') (\<lambda>host.
     bind_res (numeric_field obj ''port'') (\<lambda>port.
     bind_res (string_field obj ''id'') (\<lambda>credential.
     let name = unwrap_or_default (Option.bind (map_of obj ''ps'') json_str);
         params = vmess_params json_print obj in
     if host = [] then Inl EmptyHost
     else if length params > MAX_QUERY_PARAMS then Inl (QueryTooLong (length params))
     else bind_res (reject_line_breaks ''add'' host) (\<lambda>_.
       bind_res (reject_line_breaks ''id'' credential) (\<lambda>_.
       bind_res (check_all (\<lambda>p. reject_line_breaks (p_key p) (p_value p)) params) (\<lambda>_.
       bind_res (check_all param_too_long params) (\<lambda>_.
       Inr \<lparr>pe_scheme = Vmess, pe_name = name, pe_host = host, pe_port = port, pe_credential = credential,
         pe_params = params, pe_raw_path = [], pe_raw_line = raw_line\<rparr>)))))))"

definition vmess_parse ::
  "(string \<Rightarrow> string option) \<Rightarrow> (string \<Rightarrow> json option) \<Rightarrow> (json \<Rightarrow> string) \<Rightarrow> string \<Rightarrow> string \<Rightarrow>
   parse_error + ProxyEntry" where
  "vmess_parse b64_decode json_parse json_print rest raw_line =
     (let (b64, fragment) = split_fragment rest in
      if b64 = [] then Inl (Malformed ''empty base64 payload'')
      else bind_res (ok_or (Malformed ''invalid base64'') (decode_b64_lenient b64_decode b64)) (\<lambda>bytes.
        bind_res (ok_or (Malformed ''invalid JSON'') (json_parse bytes)) (\<lambda>val.
        bind_res (ok_or (Malformed ''not a JSON object'') (as_object val)) (\<lambda>obj.
          vmess_entry json_print obj raw_line))))"

fun insert_params :: "Param list \<Rightarrow> jobject \<Rightarrow> jobject" where
  "insert_params [] obj = obj"
| "insert_params (p # ps) obj =
     insert_params ps
       (if eq_ignore_ascii_case (p_key p) ''v'' \<or> list_ex (eq_ignore_ascii_case (p_key p)) CONSUMED_FIELDS
        then obj else obj_insert (p_key p) (JString (p_value p)) obj)"

definition vmess_object :: "ProxyEntry \<Rightarrow> jobject" where
  "vmess_object entry =
     insert_params (pe_params entry)
       (obj_insert ''id'' (JString (pe_credential entry))
         (obj_insert ''port'' (JString (dec_nat (unat (pe_port entry))))
           (obj_insert ''add'' (JString (pe_host entry))
             (obj_insert ''ps'' (JString (pe_name entry))
               (case param_ignore_case entry ''v'' of
                  Some v \<Rightarrow> obj_insert ''v'' (JString v) [] | None \<Rightarrow> [])))))"

definition vmess_serialize :: "(string \<Rightarrow> string) \<Rightarrow> (json \<Rightarrow> string) \<Rightarrow> ProxyEntry \<Rightarrow> string" where
  "vmess_serialize b64_encode json_print entry =
     ''vmess://'' @ b64_encode (json_print (JObject (vmess_object entry)))"

end
