(* ===== verification/Lines.thy ===== *)
theory Lines
  imports Parsers
begin

text \<open>
  One subscription line, \<open>parsers/mod.rs\<close>: the dispatch of \<open>parse_line\<close>, the translation of Clash
  spellings onto the URI vocabulary, the sanitizing of line breaks and \<open>serialize\<close>. The libraries come
  as one record of functions.
\<close>

record codecs =
  b64_decode :: "string \<Rightarrow> string option"
  b64_encode :: "string \<Rightarrow> string"
  json_parse :: "string \<Rightarrow> json option"
  json_print :: "json \<Rightarrow> string"
  yaml_parse :: "string \<Rightarrow> yaml option"
  yaml_print :: "yaml \<Rightarrow> string option"

section \<open>Parsing\<close>

datatype LineOutcome = Parsed ProxyEntry | Discarded | Unrecognized

fun parsed :: "parse_error + ProxyEntry \<Rightarrow> LineOutcome" where
  "parsed (Inr entry) = Parsed entry"
| "parsed (Inl _) = Unrecognized"

definition parse_naive :: "string \<Rightarrow> string \<Rightarrow> string \<Rightarrow> LineOutcome" where
  "parse_naive transport rest line =
     (if transport \<noteq> ''https'' \<and> transport \<noteq> ''quic'' then Unrecognized
      else case parse_with_spec NAIVE_SPEC rest line of
        Inl _ \<Rightarrow> Unrecognized
      | Inr entry \<Rightarrow> Parsed (entry\<lparr>pe_params :=
          \<lparr>p_key = ''naive_transport'', p_value = transport, p_known = True\<rparr> # pe_params entry\<rparr>))"

text \<open>The generic schemes with the prefixes they are read under.\<close>

definition generic_specs :: "(string \<times> UriSchemeSpec) list" where
  "generic_specs = [(''vless'', VLESS_SPEC), (''trojan'', TROJAN_SPEC), (''hysteria2'', HYSTERIA2_SPEC),
     (''hy2'', HYSTERIA2_SPEC), (''tuic'', TUIC_SPEC), (''mieru'', MIERU_SPEC), (''socks5'', SOCKS5_SPEC),
     (''snell'', SNELL_SPEC), (''anytls'', ANYTLS_SPEC)]"

definition spec_for :: "string \<Rightarrow> UriSchemeSpec option" where
  "spec_for scheme = map_of generic_specs scheme"

definition parse_scheme :: "codecs \<Rightarrow> string \<Rightarrow> string \<Rightarrow> string \<Rightarrow> LineOutcome" where
  "parse_scheme co scheme rest line =
     (case spec_for scheme of
        Some spec \<Rightarrow> parsed (parse_with_spec spec rest line)
      | None \<Rightarrow>
          if scheme = ''ss'' then parsed (ss_parse (b64_decode co) rest line)
          else if scheme = ''vmess'' then
            parsed (vmess_parse (b64_decode co) (json_parse co) (json_print co) rest line)
          else if scheme = ''happ'' then Discarded
          else (case strip_prefix ''naive+'' scheme of
                  Some transport \<Rightarrow> parse_naive transport rest line
                | None \<Rightarrow> Unrecognized))"

definition parse_line :: "codecs \<Rightarrow> string \<Rightarrow> LineOutcome" where
  "parse_line co raw =
     (if length raw > MAX_LINE_BYTES then Unrecognized
      else let line = trim raw in
        case split_once_str ''://'' line of
          None \<Rightarrow> Unrecognized
        | Some (scheme_raw, rest) \<Rightarrow> parse_scheme co (to_ascii_lowercase scheme_raw) rest line)"

section \<open>Clash spellings\<close>

definition push :: "Param list \<Rightarrow> string \<Rightarrow> string \<Rightarrow> Param list" where
  "push out key val =
     (if val = [] then out else out @ [\<lparr>p_key = key, p_value = val, p_known = True\<rparr>])"

definition push_opt :: "Param list \<Rightarrow> string \<Rightarrow> string option \<Rightarrow> Param list" where
  "push_opt out key val = (case val of None \<Rightarrow> out | Some v \<Rightarrow> push out key v)"

fun yaml_scalar :: "yaml \<Rightarrow> string option" where
  "yaml_scalar (YString s) = Some s"
| "yaml_scalar (YInt n) = Some (dec_int n)"
| "yaml_scalar (YFloat t) = Some t"
| "yaml_scalar (YBool b) = Some (bool_text b)"
| "yaml_scalar _ = None"

definition yaml_value :: "codecs \<Rightarrow> string \<Rightarrow> yaml option" where
  "yaml_value co text = (if is_ok (reject_yaml_aliases text) then yaml_parse co text else None)"

definition yaml_mapping :: "codecs \<Rightarrow> string \<Rightarrow> ymapping option" where
  "yaml_mapping co text = Option.bind (yaml_value co text) as_mapping"

definition block_value :: "ymapping \<Rightarrow> string \<Rightarrow> yaml option" where
  "block_value m key =
     map_option snd (find (\<lambda>(k, _). case yaml_str k of None \<Rightarrow> False | Some s \<Rightarrow> eq_ignore_ascii_case s key) m)"

definition block_string :: "ymapping \<Rightarrow> string \<Rightarrow> string option" where
  "block_string m key =
     (case block_value m key of
        None \<Rightarrow> None
      | Some (YSequence items) \<Rightarrow>
          (let xs = List.map_filter yaml_scalar items in if xs = [] then None else Some (join '','' xs))
      | Some other \<Rightarrow> (case yaml_scalar other of None \<Rightarrow> None | Some s \<Rightarrow> if s = [] then None else Some s))"

definition joined_alpn :: "codecs \<Rightarrow> string \<Rightarrow> string" where
  "joined_alpn co val =
     (case yaml_value co val of
        Some (YSequence items) \<Rightarrow>
          (let xs = List.map_filter yaml_scalar items in if xs = [] then val else join '','' xs)
      | _ \<Rightarrow> val)"

definition nested_host :: "ymapping \<Rightarrow> Param list \<Rightarrow> Param list" where
  "nested_host m out =
     (case Option.bind (block_value m ''headers'') as_mapping of
        None \<Rightarrow> out
      | Some headers \<Rightarrow> push_opt out ''host'' (block_string headers ''host''))"

definition flatten_ws_opts :: "codecs \<Rightarrow> string \<Rightarrow> Param list \<Rightarrow> Param list" where
  "flatten_ws_opts co val out =
     (case yaml_mapping co val of
        None \<Rightarrow> out
      | Some m \<Rightarrow> nested_host m (push_opt out ''path'' (block_string m ''path'')))"

definition with_block :: "codecs \<Rightarrow> string \<Rightarrow> Param list \<Rightarrow> (ymapping \<Rightarrow> Param list) \<Rightarrow> Param list" where
  "with_block co val out f = (case yaml_mapping co val of None \<Rightarrow> out | Some m \<Rightarrow> f m)"

definition tls_toggle :: "string \<Rightarrow> bool" where
  "tls_toggle val \<longleftrightarrow> is_truthy_toggle val \<or> eq_ignore_ascii_case val ''tls''"

definition translate_tls :: "Scheme \<Rightarrow> Param \<Rightarrow> string \<Rightarrow> Param list \<Rightarrow> Param list" where
  "translate_tls scheme p val out =
     (if scheme = Vless \<or> scheme = Trojan then (if tls_toggle val then push out ''security'' ''tls'' else out)
      else if scheme = Vmess then (if tls_toggle val then push out ''tls'' ''tls'' else out)
      else out @ [p])"

definition translate_insecure :: "Scheme \<Rightarrow> string \<Rightarrow> Param list \<Rightarrow> Param list" where
  "translate_insecure scheme val out =
     (if \<not> is_truthy_toggle val then out
      else if scheme = Vless \<or> scheme = Trojan \<or> scheme = Vmess then push out ''allowInsecure'' ''1''
      else if scheme = Hysteria2 \<or> scheme = AnyTls then push out ''insecure'' ''1''
      else out)"

definition translate_uri_param :: "codecs \<Rightarrow> Scheme \<Rightarrow> Param \<Rightarrow> Param list \<Rightarrow> Param list" where
  "translate_uri_param co scheme p out =
     (let key = to_ascii_lowercase (p_key p); val = trim (p_value p) in
      if key = ''servername'' then push out ''sni'' val
      else if key = ''network'' then push out (if scheme = Vmess then ''net'' else ''type'') val
      else if key = ''ws-path'' then push out ''path'' val
      else if key = ''client-fingerprint'' then push out ''fp'' val
      else if key = ''grpc-service-name'' then push out ''servicename'' val
      else if key = ''fingerprint'' then push out ''pinsha256'' val
      else if key = ''cipher'' \<and> scheme = Vmess then push out ''scy'' val
      else if key = ''alterid'' \<and> scheme = Vmess then push out ''aid'' val
      else if key = ''alpn'' then push out ''alpn'' (joined_alpn co val)
      else if key = ''tls'' then translate_tls scheme p val out
      else if key = ''skip-cert-verify'' then translate_insecure scheme val out
      else if key = ''ws-opts'' then flatten_ws_opts co val out
      else if key = ''ws-headers'' then
        with_block co val out (\<lambda>m. push_opt out ''host'' (block_string m ''host''))
      else if key = ''reality-opts'' then
        with_block co val out (\<lambda>m. push_opt
          (push_opt out ''pbk'' (or_else (block_string m ''public-key'') (block_string m ''public_key'')))
          ''sid'' (or_else (block_string m ''short-id'') (block_string m ''short_id'')))
      else if key = ''grpc-opts'' then
        with_block co val out (\<lambda>m. push_opt out ''servicename''
          (or_else (block_string m ''grpc-service-name'') (block_string m ''serviceName'')))
      else if key = ''h2-opts'' then
        with_block co val out (\<lambda>m. push_opt (push_opt out ''host'' (block_string m ''host''))
          ''path'' (block_string m ''path''))
      else if key = ''http-opts'' then
        with_block co val out (\<lambda>m. nested_host m (push_opt out ''path'' (block_string m ''path'')))
      else if key = ''obfs-opts'' then
        with_block co val out (\<lambda>m. push_opt (push_opt out ''obfs'' (block_string m ''mode''))
          ''obfs-host'' (block_string m ''host''))
      else out @ [p])"

definition force_reality :: "Param list \<Rightarrow> Param list" where
  "force_reality ps =
     (if list_ex (\<lambda>p. eq_ignore_ascii_case (p_key p) ''security'') ps
      then update_first (\<lambda>p. eq_ignore_ascii_case (p_key p) ''security'') (\<lambda>p. p\<lparr>p_value := ''reality''\<rparr>) ps
      else push ps ''security'' ''reality'')"

definition canonical_uri_entry :: "codecs \<Rightarrow> ProxyEntry \<Rightarrow> ProxyEntry" where
  "canonical_uri_entry co entry =
     (let translated = foldl (\<lambda>out p. translate_uri_param co (pe_scheme entry) p out) [] (pe_params entry);
          ps = retain_first (\<lambda>p. to_ascii_lowercase (p_key p)) [] translated in
      entry\<lparr>pe_params :=
        if (pe_scheme entry = Vless \<or> pe_scheme entry = Trojan) \<and>
           reality_public_key (yaml_parse co) entry \<noteq> None
        then force_reality ps else ps\<rparr>)"

section \<open>Printing\<close>

definition has_line_break :: "string \<Rightarrow> bool" where
  "has_line_break s \<longleftrightarrow> LF \<in> set s \<or> CR \<in> set s"

definition strip_breaks :: "string \<Rightarrow> string" where
  "strip_breaks s = map (\<lambda>c. if c = LF \<or> c = CR then CHR '' '' else c) s"

definition needs_fix :: "ProxyEntry \<Rightarrow> bool" where
  "needs_fix entry \<longleftrightarrow> has_line_break (pe_host entry) \<or> has_line_break (pe_credential entry) \<or>
     has_line_break (pe_raw_path entry) \<or>
     list_ex (\<lambda>p. has_line_break (p_key p) \<or> has_line_break (p_value p)) (pe_params entry)"

definition sanitize_for_output :: "ProxyEntry \<Rightarrow> ProxyEntry option" where
  "sanitize_for_output entry =
     (if \<not> needs_fix entry then None
      else Some (entry\<lparr>pe_host := strip_breaks (pe_host entry), pe_credential := strip_breaks (pe_credential entry),
        pe_raw_path := strip_breaks (pe_raw_path entry),
        pe_params := map (\<lambda>p. p\<lparr>p_key := strip_breaks (p_key p), p_value := strip_breaks (p_value p)\<rparr>)
          (pe_params entry)\<rparr>))"

definition serialize_naive :: "ProxyEntry \<Rightarrow> string" where
  "serialize_naive entry =
     (let transport = (case param entry ''naive_transport'' of Some t \<Rightarrow> t | None \<Rightarrow> ''https'');
          stripped = entry\<lparr>pe_params := filter (\<lambda>p. p_key p \<noteq> ''naive_transport'') (pe_params entry)\<rparr>;
          generic = serialize_with_spec NAIVE_SPEC stripped
      in ''naive+'' @ transport @ ''://'' @ drop (length (us_prefix NAIVE_SPEC)) generic)"

fun serialize_scheme :: "codecs \<Rightarrow> Scheme \<Rightarrow> ProxyEntry \<Rightarrow> string" where
  "serialize_scheme co Vless entry = serialize_with_spec VLESS_SPEC entry"
| "serialize_scheme co Trojan entry = serialize_with_spec TROJAN_SPEC entry"
| "serialize_scheme co Hysteria2 entry = serialize_with_spec HYSTERIA2_SPEC entry"
| "serialize_scheme co Tuic entry = serialize_with_spec TUIC_SPEC entry"
| "serialize_scheme co Mieru entry = serialize_with_spec MIERU_SPEC entry"
| "serialize_scheme co Socks5 entry = serialize_with_spec SOCKS5_SPEC entry"
| "serialize_scheme co Snell entry = serialize_with_spec SNELL_SPEC entry"
| "serialize_scheme co AnyTls entry = serialize_with_spec ANYTLS_SPEC entry"
| "serialize_scheme co Naive entry = serialize_naive entry"
| "serialize_scheme co Ss entry = ss_serialize (b64_encode co) entry"
| "serialize_scheme co Vmess entry = vmess_serialize (b64_encode co) (json_print co) entry"

definition serialize :: "codecs \<Rightarrow> ProxyEntry \<Rightarrow> string" where
  "serialize co entry =
     (let entry = (if pe_raw_line entry = [] then canonical_uri_entry co entry else entry);
          entry = (case sanitize_for_output entry of Some e \<Rightarrow> e | None \<Rightarrow> entry)
      in serialize_scheme co (pe_scheme entry) entry)"

end
