(* ===== verification/Uri_Properties.thy ===== *)
theory Uri_Properties
  imports Uri
begin

text \<open>
  The round trip of the generic lines: what the parser read, the serializer prints so that the parser
  reads it again. Query, host and name each have their own round trip; the escapes leave no structural
  character and no line break in what they print.
\<close>

section \<open>Escaping\<close>

text \<open>Whether the query escape changes the text at all.\<close>

fun needs_escape :: "bool \<Rightarrow> string \<Rightarrow> bool" where
  "needs_escape in_key [] = False"
| "needs_escape in_key [c] = must_encode in_key c"
| "needs_escape in_key (c # d # s) = (c1_control c d \<or> must_encode in_key c \<or> needs_escape in_key (d # s))"

lemma encode_plain: "\<not> needs_escape k s \<Longrightarrow> encode_query_chars k s = s"
  by (induction k s rule: encode_query_chars.induct) (auto simp: encode_char_def)

lemma pct_byte_plain: "x \<in> set (pct_byte c) \<Longrightarrow> \<not> must_encode k x"
  by (drule pct_byte_chars) (auto simp: must_encode_def is_digit_def is_upper_def code_def)

lemma encode_query_chars_plain: "x \<in> set (encode_query_chars k s) \<Longrightarrow> \<not> must_encode k x"
  by (induction k s rule: encode_query_chars.induct)
    (auto simp: encode_char_def dest: pct_byte_plain split: if_splits)

lemma plain_not [simp]:
  "must_encode k (CHR ''&'')" "must_encode k (CHR ''#'')" "must_encode k LF" "must_encode k CR"
  "must_encode True (CHR ''='')" "must_encode k (CHR '' '')"
  by (simp_all add: must_encode_def code_def)

lemma encode_no [chars]: "must_encode k c \<Longrightarrow> c \<notin> set (encode_query_chars k s)"
  using encode_query_chars_plain by blast

interpretation fragment_escaper: byte_escaper fragment_keep
  by unfold_locales (simp add: fragment_keep_def is_ascii_alphanumeric_def is_digit_def is_upper_def
      is_lower_def code_def)

lemma pct_decode_encode_fragment [simp]: "pct_decode (encode_fragment name) = name"
  by (simp add: encode_fragment_def fragment_escaper.decode_escaped)

lemma percent_decode_encode [simp]: "valid_utf8 name \<Longrightarrow> percent_decode (encode_fragment name) = name"
  by (simp add: percent_decode_def lossy_valid)

lemma encode_fragment_chars [chars]:
  "x \<in> set (encode_fragment name) \<Longrightarrow> fragment_keep x \<or> x = CHR ''%''"
  using fragment_escaper.escaped_chars [of x name]
  by (auto simp: encode_fragment_def fragment_keep_def is_ascii_alphanumeric_def)

section \<open>The query\<close>

definition clean_param :: "Param \<Rightarrow> bool" where
  "clean_param p \<longleftrightarrow> \<not> needs_escape True (p_key p) \<and> \<not> needs_escape False (p_value p)"

definition unmarked :: "Param \<Rightarrow> Param" where
  "unmarked p = p\<lparr>p_known := False\<rparr>"

lemma serialize_pair_unmarked [simp]: "serialize_pair (p\<lparr>p_known := b\<rparr>) = serialize_pair p"
  by (simp add: serialize_pair_def)

lemma serialize_query_marked [simp]: "serialize_query (mark_known ps ks) = serialize_query ps"
  by (simp add: serialize_query_def mark_known_def o_def)

lemma clean_marked [simp]: "list_all clean_param (mark_known ps ks) = list_all clean_param ps"
  by (simp add: mark_known_def list_all_iff clean_param_def)

text \<open>The pairs a query can be split into.\<close>

definition pair_ok :: "Param \<Rightarrow> bool" where
  "pair_ok p \<longleftrightarrow> \<not> p_known p \<and> CHR ''='' \<notin> set (p_key p) \<and> CHR ''&'' \<notin> set (p_key p @ p_value p) \<and>
     check_param_size (p_key p) (p_value p) = Inr ()"

lemma parse_pairs_ok:
  "parse_pairs segs = Inr ps \<Longrightarrow> (\<And>s. s \<in> set segs \<Longrightarrow> CHR ''&'' \<notin> set s) \<Longrightarrow>
     list_all pair_ok ps \<and> length ps = length segs"
proof (induction segs arbitrary: ps)
  case (Cons s segs)
  obtain k v where kv: "split_pair s = (k, v)" by (cases "split_pair s")
  then obtain ps' where ps': "parse_pairs segs = Inr ps'" "check_param_size k v = Inr ()"
    and ps: "ps = \<lparr>p_key = k, p_value = v, p_known = False\<rparr> # ps'"
    using Cons.prems(1) by (auto split: sum.splits)
  have "CHR ''='' \<notin> set k" "set k \<union> set v \<subseteq> set s"
    using kv by (auto simp: split_pair_def split_once_Some split: option.splits)
  then show ?case using Cons.IH [OF ps'(1)] Cons.prems(2) ps ps'(2) by (auto simp: pair_ok_def)
qed simp

lemma serialize_pair_split:
  assumes "pair_ok p" "clean_param p"
  shows "split_pair (serialize_pair p) = (p_key p, p_value p)" "CHR ''&'' \<notin> set (serialize_pair p)"
  using assms
  by (auto simp: serialize_pair_def split_pair_def clean_param_def pair_ok_def encode_query_key_def
      encode_query_delimiters_def encode_plain str_simps)

lemma parse_pairs_serialized:
  "list_all pair_ok ps \<Longrightarrow> list_all clean_param ps \<Longrightarrow> parse_pairs (map serialize_pair ps) = Inr ps"
  by (induction ps) (auto simp: serialize_pair_split, simp add: pair_ok_def)

lemma query_round_trip:
  assumes "parse_query q = Inr ps" "list_all clean_param ps"
  shows "parse_query (serialize_query ps) = Inr ps" "ps \<noteq> []"
proof -
  have parsed: "parse_pairs (split_on (CHR ''&'') q) = Inr ps"
    and small: "\<not> length (split_on (CHR ''&'') q) > MAX_QUERY_PARAMS"
    using assms(1) by (auto simp: parse_query_def Let_def split: if_splits)
  have ok: "list_all pair_ok ps \<and> length ps = length (split_on (CHR ''&'') q)"
    using parse_pairs_ok [OF parsed] split_on_pieces by blast
  then show "ps \<noteq> []" by auto
  then have "split_on (CHR ''&'') (serialize_query ps) = map serialize_pair ps"
    unfolding serialize_query_def
    using split_on_join [of "map serialize_pair ps" "CHR ''&''"] ok assms(2) serialize_pair_split(2)
    by (auto simp: list_all_iff)
  then show "parse_query (serialize_query ps) = Inr ps"
    using ok assms(2) small parse_pairs_serialized by (simp add: parse_query_def)
qed

lemma serialize_query_no [chars]:
  assumes "must_encode False c" "c \<noteq> CHR ''&''"
  shows "c \<notin> set (serialize_query ps)"
proof -
  have "must_encode True c" "c \<noteq> CHR ''=''" using assms(1) by (auto simp: must_encode_def code_def)
  then have "c \<notin> set (serialize_pair p)" for p
    using assms(1) by (auto simp: serialize_pair_def encode_query_key_def encode_query_delimiters_def chars)
  then show ?thesis
    using set_join [of "''&''" "map serialize_pair ps"] assms(2) by (auto simp: serialize_query_def)
qed

section \<open>The host\<close>

lemma hostport_round_trip:
  assumes "h \<noteq> []" "CHR ''['' \<notin> set h" "CHR '']'' \<notin> set h"
  shows "parse_hostport (host_for_uri h @ '':'' @ dec_nat (unat (p :: u16))) = Inr (h, p)"
proof (cases "CHR '':'' \<in> set h")
  case True
  then have "host_for_uri h @ '':'' @ dec_nat (unat p) = CHR ''['' # h @ CHR '']'' # CHR '':'' # dec_nat (unat p)"
    using assms by (cases h) (auto simp: host_for_uri_def)
  moreover have "strip_prefix '':'' (CHR '':'' # dec_nat (unat p)) = Some (dec_nat (unat p))"
    "strip_prefix ''['' (CHR ''['' # x) = Some x" for x
    by (simp_all add: strip_prefix_def)
  ultimately show ?thesis using assms by (simp add: parse_hostport_def port_of_def split_once_append)
next
  case False
  have colon: "CHR '':'' \<notin> set (dec_nat n)" for n
    by (rule dec_nat_no) (simp add: is_digit_def code_def)
  have "strip_prefix ''['' (h @ CHR '':'' # dec_nat (unat p)) = None"
    using assms by (cases h) (auto simp: strip_prefix_def)
  then show ?thesis
    using False assms colon by (simp add: host_for_uri_def parse_hostport_def port_of_def rsplit_once_append)
qed

lemma host_for_uri_chars: "set (host_for_uri h) \<subseteq> set h \<union> {CHR ''['', CHR '']''}"
  by (auto simp: host_for_uri_def)

section \<open>The line\<close>

lemma split_at_char_simps [str_simps]:
  "d \<notin> set a \<Longrightarrow> split_at_char d (a @ d # b) = (a, Some b)" "d \<notin> set a \<Longrightarrow> split_at_char d a = (a, None)"
  by (auto simp: split_at_char_def str_simps split: option.splits dest: split_once_Some [THEN iffD1])

lemma split_at_char_parts:
  "split_at_char d s = (a, b) \<Longrightarrow> d \<notin> set a \<and> set a \<subseteq> set s \<and> (\<forall>x. b = Some x \<longrightarrow> set x \<subseteq> set s)"
  by (auto simp: split_at_char_def split_once_Some split: option.splits)

lemma port_of_Inr: "port_of h q = Inr (h', p) \<longleftrightarrow> h' = h \<and> h \<noteq> [] \<and> parse_u16 q = Some p"
  by (auto simp: port_of_def split: option.splits)

lemma parse_hostport_host:
  assumes "parse_hostport s = Inr (h, p)"
  shows "h \<noteq> []" "set h \<subseteq> set s"
proof -
  have "h \<noteq> [] \<and> set h \<subseteq> set s"
    using assms
    by (auto simp: parse_hostport_def port_of_Inr strip_prefix_Some split_once_Some rsplit_once_Some
        split: if_splits option.splits)
  then show "h \<noteq> []" "set h \<subseteq> set s" by blast+
qed

text \<open>What the parts of a parsed entry look like.\<close>

definition no_chars :: "string \<Rightarrow> string \<Rightarrow> bool" where
  "no_chars ds s \<longleftrightarrow> list_all (\<lambda>d. d \<notin> set s) ds"

definition uri_shape :: "string list \<Rightarrow> ProxyEntry \<Rightarrow> bool" where
  "uri_shape known_keys e \<longleftrightarrow>
     pe_host e \<noteq> [] \<and> no_chars ''#?@/'' (pe_host e) \<and> no_chars ''#?'' (pe_credential e) \<and>
     no_chars ''#?@'' (pe_raw_path e) \<and> (pe_raw_path e = [] \<or> hd (pe_raw_path e) = CHR ''/'') \<and>
     valid_utf8 (pe_name e) \<and>
     (\<exists>ps. pe_params e = mark_known ps known_keys \<and> (ps = [] \<or> (\<exists>q. parse_query q = Inr ps)))"

lemma parsed_shape:
  assumes "parse_with_spec spec rest raw = Inr e"
  shows "uri_shape (us_known_keys spec) e" "pe_scheme e = us_scheme spec" "pe_raw_line e = raw"
    "set (pe_host e) \<union> set (pe_credential e) \<subseteq> set rest"
proof -
  obtain bf fr where 1: "split_at_char (CHR ''#'') rest = (bf, fr)" by force
  obtain bq q where 2: "split_at_char (CHR ''?'') bf = (bq, q)" by force
  obtain u hp where 3: "split_userinfo bq = (u, hp)" by force
  obtain ho pa where 4: "split_path hp = (ho, pa)" by force
  obtain parts where parts: "split_uri rest = Inr parts"
    using assms by (cases "split_uri rest") (auto simp: parse_with_spec_def)
  then obtain h p ps where 5: "parse_hostport ho = Inr (h, p)"
    and 6: "(case q of None \<Rightarrow> Inr [] | Some q \<Rightarrow> parse_query q) = Inr ps"
    and pt: "parts = \<lparr>up_userinfo = u, up_host = h, up_port = p, up_raw_path = pa, up_query_pairs = ps,
      up_fragment = fr\<rparr>"
    by (auto simp: split_uri_def split_fragment_def split_query_def 1 2 3 4
        split: sum.split_asm prod.split_asm)
  have e: "e = \<lparr>pe_scheme = us_scheme spec,
      pe_name = (case fr of None \<Rightarrow> [] | Some f \<Rightarrow> percent_decode f),
      pe_host = h, pe_port = p, pe_credential = (case u of None \<Rightarrow> [] | Some c \<Rightarrow> c),
      pe_params = mark_known ps (us_known_keys spec), pe_raw_path = pa, pe_raw_line = raw\<rparr>"
    using assms by (cases u; cases "us_credential_required spec") (simp_all add: parse_with_spec_def parts pt)
  have bq: "CHR ''#'' \<notin> set bq" "CHR ''?'' \<notin> set bq"
    using split_at_char_parts [OF 1] split_at_char_parts [OF 2] by auto
  have hp: "set hp \<subseteq> set bq" "CHR ''@'' \<notin> set hp" "\<And>c. u = Some c \<Longrightarrow> set c \<subseteq> set bq"
    using 3 by (auto simp: split_userinfo_def rsplit_once_Some split: option.splits)
  have ho: "set ho \<subseteq> set hp" "CHR ''/'' \<notin> set ho" "set pa \<subseteq> set hp" "pa = [] \<or> hd pa = CHR ''/''"
    using 4 by (auto simp: split_path_def split_once_Some split: option.splits)
  note h = parse_hostport_host [OF 5]
  have "no_chars ''#?@/'' h" using h ho hp bq by (auto simp: no_chars_def)
  moreover have "no_chars ''#?@'' pa" using ho hp bq by (auto simp: no_chars_def)
  moreover have "no_chars ''#?'' (pe_credential e)" using hp(3) bq by (auto simp: e no_chars_def split: option.splits)
  moreover have "valid_utf8 (pe_name e)" by (simp add: e percent_decode_def split: option.split)
  moreover have "ps = [] \<or> (\<exists>q. parse_query q = Inr ps)" using 6 by (auto split: option.splits)
  ultimately show "uri_shape (us_known_keys spec) e" using h(1) ho(4) by (auto simp: uri_shape_def e)
  have rest: "set bq \<subseteq> set rest" using split_at_char_parts [OF 1] split_at_char_parts [OF 2] by auto
  have "set h \<subseteq> set rest" using h(2) ho(1) hp(1) rest by (meson order_trans)
  moreover have "set (pe_credential e) \<subseteq> set rest"
    using hp(3) rest by (cases u) (auto simp: e)
  ultimately show "set (pe_host e) \<union> set (pe_credential e) \<subseteq> set rest" by (simp add: e)
  show "pe_scheme e = us_scheme spec" "pe_raw_line e = raw" by (simp_all add: e)
qed

lemma no_chars_mem: "no_chars ds s \<Longrightarrow> d \<in> set ds \<Longrightarrow> d \<notin> set s"
  by (auto simp: no_chars_def list_all_iff)

lemma query_round_trip_marked:
  assumes "ps = [] \<or> (\<exists>q. parse_query q = Inr ps)" "list_all clean_param ps" "ps \<noteq> []"
  shows "parse_query (serialize_query ps) = Inr ps"
  using assms query_round_trip by blast

lemma split_path_append:
  assumes "CHR ''/'' \<notin> set a" "b = [] \<or> hd b = CHR ''/''"
  shows "split_path (a @ b) = (a, b)"
proof (cases b)
  case Nil
  have "split_once (CHR ''/'') a = None" using assms(1) by simp
  then show ?thesis using Nil by (simp add: split_path_def del: split_once_None)
next
  case (Cons c r)
  then show ?thesis using assms by (simp add: split_path_def split_once_append)
qed

lemma shaped_body_splits:
  assumes shape: "uri_shape known e"
    and host: "no_chars ''[]'' (pe_host e)" and clean: "list_all clean_param (pe_params e)"
  shows "\<exists>ps. pe_params e = mark_known ps known \<and> split_uri (uri_body e) = Inr \<lparr>
      up_userinfo = (if pe_credential e = [] then None else Some (pe_credential e)), up_host = pe_host e,
      up_port = pe_port e, up_raw_path = pe_raw_path e, up_query_pairs = ps,
      up_fragment = (if pe_name e = [] then None else Some (encode_fragment (pe_name e)))\<rparr>"
proof -
  obtain ps where ps: "pe_params e = mark_known ps (known)" "ps = [] \<or> (\<exists>q. parse_query q = Inr ps)"
    using shape by (auto simp: uri_shape_def)
  have clean': "list_all clean_param ps" using clean ps(1) by simp
  have pe: "pe_params e = [] \<longleftrightarrow> ps = []" by (simp add: ps(1) mark_known_def)
  define hp where "hp = host_for_uri (pe_host e) @ '':'' @ dec_nat (unat (pe_port e))"
  define A where "A = (if pe_credential e = [] then [] else pe_credential e @ ''@'') @ hp @ pe_raw_path e"
  define Q where "Q = (if ps = [] then [] else ''?'' @ serialize_query ps)"
  define F where "F = (if pe_name e = [] then [] else ''#'' @ encode_fragment (pe_name e))"
  have body: "uri_body e = A @ Q @ F"
    by (simp add: uri_body_def A_def hp_def Q_def F_def pe) (simp add: ps(1))
  have digits: "d \<notin> set (dec_nat n)" if "d \<in> set ''#?@/''" for d n
    using that by (intro dec_nat_no) (auto simp: is_digit_def code_def)
  have hpc: "d \<notin> set hp" if "d \<in> set ''#?@/''" for d
    using that digits [OF that] host_for_uri_chars [of "pe_host e"] shape
    by (auto simp: hp_def uri_shape_def no_chars_def)
  have A: "CHR ''#'' \<notin> set A" "CHR ''?'' \<notin> set A"
    using hpc shape by (auto simp: A_def uri_shape_def no_chars_def)
  have AQ: "CHR ''#'' \<notin> set (A @ Q)"
    using A serialize_query_no [of "CHR ''#''" ps] by (auto simp: Q_def)
  have f: "split_fragment (uri_body e) =
      (A @ Q, if pe_name e = [] then None else Some (encode_fragment (pe_name e)))"
    using AQ split_at_char_simps [OF AQ] by (simp add: body F_def split_fragment_def)
  have q: "split_query (A @ Q) = (A, if ps = [] then None else Some (serialize_query ps))"
    using split_at_char_simps [OF A(2)] by (simp add: Q_def split_query_def)
  have u: "split_userinfo A =
      (if pe_credential e = [] then None else Some (pe_credential e), hp @ pe_raw_path e)"
    using hpc [of "CHR ''@''"] shape rsplit_once_append [of "CHR ''@''" "hp @ pe_raw_path e" "pe_credential e"]
    by (auto simp: A_def split_userinfo_def uri_shape_def no_chars_def split: option.split)
  have p: "split_path (hp @ pe_raw_path e) = (hp, pe_raw_path e)"
    using hpc [of "CHR ''/''"] shape by (intro split_path_append) (simp_all add: uri_shape_def)
  have h: "parse_hostport hp = Inr (pe_host e, pe_port e)"
    unfolding hp_def using shape host by (intro hostport_round_trip) (auto simp: uri_shape_def no_chars_def)
  have query: "(case (if ps = [] then None else Some (serialize_query ps)) of
      None \<Rightarrow> Inr [] | Some q \<Rightarrow> parse_query q) = Inr ps"
    using query_round_trip_marked [OF ps(2) clean'] by simp
  then show ?thesis
    using ps by (intro exI [of _ ps]) (simp add: split_uri_def f q u p h Let_def split: option.split)
qed

lemma shaped_body_parses:
  assumes shape: "uri_shape (us_known_keys spec) e" and scheme: "pe_scheme e = us_scheme spec"
    and host: "no_chars ''[]'' (pe_host e)" and clean: "list_all clean_param (pe_params e)"
    and cred: "us_credential_required spec \<Longrightarrow> pe_credential e \<noteq> []"
  shows "parse_with_spec spec (uri_body e) raw' = Inr (e\<lparr>pe_raw_line := raw'\<rparr>)"
proof -
  obtain ps where ps: "pe_params e = mark_known ps (us_known_keys spec)"
    and split: "split_uri (uri_body e) = Inr \<lparr>
      up_userinfo = (if pe_credential e = [] then None else Some (pe_credential e)), up_host = pe_host e,
      up_port = pe_port e, up_raw_path = pe_raw_path e, up_query_pairs = ps,
      up_fragment = (if pe_name e = [] then None else Some (encode_fragment (pe_name e)))\<rparr>"
    using shaped_body_splits [OF shape host clean] by blast
  have name: "valid_utf8 (pe_name e)" using shape by (simp add: uri_shape_def)
  show ?thesis
    using cred name ps scheme by (cases "us_credential_required spec") (auto simp: parse_with_spec_def split)
qed

text \<open>
  The round trip of a generic line. What \<open>parse_with_spec\<close> read from any line, \<open>serialize_with_spec\<close>
  prints under the scheme's prefix, and parsing that again gives the same entry: name, host, port,
  credential, path and every parameter in order with its mark. The conditions are the ones the code
  leaves open: no bracket in the host, no control character or blank in the query, and a credential
  where the scheme needs one.
\<close>

theorem uri_round_trip:
  assumes "parse_with_spec spec rest raw = Inr e"
    and "no_chars ''[]'' (pe_host e)" and "list_all clean_param (pe_params e)"
    and "us_credential_required spec \<longrightarrow> pe_credential e \<noteq> []"
  shows "\<exists>body. serialize_with_spec spec e = us_prefix spec @ body \<and>
    parse_with_spec spec body raw' = Inr (e\<lparr>pe_raw_line := raw'\<rparr>)"
proof -
  note s = parsed_shape [OF assms(1)]
  have "parse_with_spec spec (uri_body e) raw' = Inr (e\<lparr>pe_raw_line := raw'\<rparr>)"
    using shaped_body_parses [OF s(1,2) assms(2,3)] assms(4) by blast
  then show ?thesis by (auto simp: serialize_with_spec_def)
qed

text \<open>
  A line with an empty userinfo is accepted and then lost. The check for a missing credential tests
  the at sign only, so the parser of a scheme that needs a credential accepts \<open>@host:port\<close>; the entry
  is stored and served, but its printed line has no userinfo, and the same parser rejects it.
\<close>

theorem empty_userinfo_lost:
  assumes "parse_with_spec spec rest raw = Inr e" "us_credential_required spec" "pe_credential e = []"
    and "no_chars ''[]'' (pe_host e)" "list_all clean_param (pe_params e)"
  shows "parse_with_spec spec (uri_body e) raw' = Inl MissingCredential"
proof -
  obtain ps where "split_uri (uri_body e) = Inr \<lparr>
      up_userinfo = (if pe_credential e = [] then None else Some (pe_credential e)), up_host = pe_host e,
      up_port = pe_port e, up_raw_path = pe_raw_path e, up_query_pairs = ps,
      up_fragment = (if pe_name e = [] then None else Some (encode_fragment (pe_name e)))\<rparr>"
    using shaped_body_splits [OF parsed_shape(1) [OF assms(1)] assms(4,5)] by blast
  then show ?thesis using assms(2,3) by (simp add: parse_with_spec_def)
qed

lemma empty_userinfo_parses:
  "parse_with_spec VLESS_SPEC ''@h.io:443'' raw = Inr \<lparr>pe_scheme = Vless, pe_name = [], pe_host = ''h.io'',
     pe_port = 443, pe_credential = [], pe_params = [], pe_raw_path = [], pe_raw_line = raw\<rparr>"
  by (simp add: parse_with_spec_def split_uri_def split_fragment_def split_query_def split_at_char_def
      split_userinfo_def split_path_def parse_hostport_def strip_prefix_def port_of_def parse_u16_def
      parse_unsigned_def mark_known_def VLESS_SPEC_def is_digit_def code_def)

lemma port_text: "dec_nat 443 = ''443''"
  by code_simp

theorem empty_userinfo_lost_witness:
  "is_ok (parse_with_spec VLESS_SPEC ''@h.io:443'' ''vless://@h.io:443'') \<and>
   parse_with_spec VLESS_SPEC ''h.io:443'' ''vless://h.io:443'' = Inl MissingCredential"
proof -
  let ?e = "\<lparr>pe_scheme = Vless, pe_name = [], pe_host = ''h.io'', pe_port = 443, pe_credential = [],
     pe_params = [], pe_raw_path = [], pe_raw_line = ''vless://@h.io:443''\<rparr> :: ProxyEntry"
  have b: "uri_body ?e = ''h.io:443''"
    by (simp add: uri_body_def host_for_uri_def port_text)
  have "us_credential_required VLESS_SPEC" by (simp add: VLESS_SPEC_def)
  then show ?thesis
    using empty_userinfo_lost [OF empty_userinfo_parses, of "''vless://@h.io:443''" "''vless://h.io:443''"] b
    by (simp add: empty_userinfo_parses no_chars_def)
qed

end
