(* ===== verification/Lines_Properties.thy ===== *)
theory Lines_Properties
  imports Lines Uri_Properties
begin

text \<open>
  Properties of one subscription line: what \<open>serialize\<close> prints is one line, whatever the entry holds;
  \<open>parse_line\<close> reads back what it prints; and the case in which it does not, an accepted line without
  credential.
\<close>

section \<open>One line\<close>

definition single_line :: "string \<Rightarrow> bool" where
  "single_line s \<longleftrightarrow> LF \<notin> set s \<and> CR \<notin> set s"

lemma single_line_append [simp]: "single_line (a @ b) \<longleftrightarrow> single_line a \<and> single_line b"
  by (auto simp: single_line_def)

lemma single_line_Nil [simp]: "single_line []"
  by (simp add: single_line_def)

lemma single_line_Cons [simp]: "single_line (c # s) \<longleftrightarrow> c \<noteq> LF \<and> c \<noteq> CR \<and> single_line s"
  by (auto simp: single_line_def)

lemma single_line_drop: "single_line s \<Longrightarrow> single_line (drop n s)"
  by (auto simp: single_line_def dest: in_set_dropD)

lemma single_line_strip_breaks [simp]: "single_line (strip_breaks s)"
  by (auto simp: single_line_def strip_breaks_def)

lemma single_line_has_break: "single_line s \<longleftrightarrow> \<not> has_line_break s"
  by (simp add: single_line_def has_line_break_def)

lemma single_line_host_for_uri [simp]: "single_line (host_for_uri h) = single_line h"
  by (simp add: host_for_uri_def)

lemma single_line_dec_nat [simp]: "single_line (dec_nat n)"
  by (auto simp: single_line_def is_digit_def code_def intro!: dec_nat_no)

lemma single_line_query [simp]: "single_line (serialize_query ps)"
  by (simp add: single_line_def serialize_query_no)

lemma single_line_fragment [simp]: "single_line (encode_fragment name)"
  using encode_fragment_chars [of LF name] encode_fragment_chars [of CR name]
  by (auto simp: single_line_def fragment_keep_def is_ascii_alphanumeric_def is_digit_def is_upper_def
      is_lower_def code_def)

definition single_lined :: "ProxyEntry \<Rightarrow> bool" where
  "single_lined e \<longleftrightarrow> single_line (pe_host e) \<and> single_line (pe_credential e) \<and> single_line (pe_raw_path e) \<and>
     list_all (\<lambda>p. single_line (p_key p) \<and> single_line (p_value p)) (pe_params e)"

lemma single_lined_needs_fix: "single_lined e \<longleftrightarrow> \<not> needs_fix e"
  by (auto simp: single_lined_def needs_fix_def single_line_has_break list_all_iff list_ex_iff)

lemma sanitized_single: "single_lined (case sanitize_for_output e of Some e' \<Rightarrow> e' | None \<Rightarrow> e)"
  by (auto simp: sanitize_for_output_def single_lined_needs_fix [symmetric] single_lined_def list_all_iff)

lemma uri_body_single: "single_lined e \<Longrightarrow> single_line (uri_body e)"
  by (simp add: uri_body_def single_lined_def)

lemma param_single: "single_lined e \<Longrightarrow> param e k = Some v \<Longrightarrow> single_line v"
  by (auto simp: single_lined_def param_def list_all_iff find_Some_iff)

lemma spec_prefix_single [simp]:
  "single_line (us_prefix VLESS_SPEC)" "single_line (us_prefix TROJAN_SPEC)"
  "single_line (us_prefix HYSTERIA2_SPEC)" "single_line (us_prefix TUIC_SPEC)"
  "single_line (us_prefix MIERU_SPEC)" "single_line (us_prefix SOCKS5_SPEC)"
  "single_line (us_prefix SNELL_SPEC)" "single_line (us_prefix ANYTLS_SPEC)"
  "single_line (us_prefix NAIVE_SPEC)"
  by (simp_all add: VLESS_SPEC_def TROJAN_SPEC_def HYSTERIA2_SPEC_def TUIC_SPEC_def MIERU_SPEC_def
      SOCKS5_SPEC_def SNELL_SPEC_def ANYTLS_SPEC_def NAIVE_SPEC_def)

lemma naive_single: "single_lined e \<Longrightarrow> single_line (serialize_naive e)"
proof -
  assume e: "single_lined e"
  have "single_lined (e\<lparr>pe_params := filter (\<lambda>p. p_key p \<noteq> ''naive_transport'') (pe_params e)\<rparr>)"
    using e by (auto simp: single_lined_def list_all_iff)
  then have "single_line (serialize_with_spec NAIVE_SPEC
      (e\<lparr>pe_params := filter (\<lambda>p. p_key p \<noteq> ''naive_transport'') (pe_params e)\<rparr>))"
    by (simp add: serialize_with_spec_def uri_body_single)
  moreover have "single_line (case param e ''naive_transport'' of Some t \<Rightarrow> t | None \<Rightarrow> ''https'')"
    using param_single [OF e, of "''naive_transport''"] by (auto split: option.split)
  ultimately show ?thesis by (simp add: serialize_naive_def Let_def single_line_drop)
qed

lemma ss_single:
  assumes "\<And>s. single_line (enc s)" "single_lined e"
  shows "single_line (ss_serialize enc e)"
  using assms by (simp add: ss_serialize_def single_lined_def Let_def)

lemma serialize_scheme_single:
  assumes "\<And>s. single_line (b64_encode co s)" "single_lined e"
  shows "single_line (serialize_scheme co sch e)"
  using assms
  by (cases sch) (simp_all add: serialize_with_spec_def uri_body_single naive_single ss_single vmess_serialize_def)

lemma serialize_single:
  assumes "\<forall>s. single_line (b64_encode co s)"
  shows "single_line (serialize co entry)"
proof -
  define e where "e = (if pe_raw_line entry = [] then canonical_uri_entry co entry else entry)"
  have "single_lined (case sanitize_for_output e of Some e' \<Rightarrow> e' | None \<Rightarrow> e)" by (rule sanitized_single)
  then show ?thesis
    using serialize_scheme_single assms by (simp add: serialize_def e_def [symmetric] Let_def)
qed

text \<open>
  One proxy is one output line. Whatever the entry holds, in any scheme, stored before the parsers
  rejected line breaks or written into the database by hand, and whatever the YAML blocks it was
  translated from contain, \<open>serialize\<close> prints neither a line feed nor a carriage return; the base64
  alphabet is all that is assumed of the libraries. So no stored proxy can smuggle a second line into a
  subscription.
\<close>

theorem serialize_one_line:
  assumes "\<forall>s. single_line (b64_encode co s)"
  shows "single_line (serialize co entry)"
  by (rule serialize_single [OF assms])

section \<open>The round trip of a line\<close>

definition generic_schemes :: "Scheme list" where
  "generic_schemes = [Vless, Trojan, Hysteria2, Tuic, Mieru, Socks5, Snell, AnyTls]"

lemma spec_schemes [simp]:
  "us_scheme VLESS_SPEC = Vless" "us_scheme TROJAN_SPEC = Trojan" "us_scheme HYSTERIA2_SPEC = Hysteria2"
  "us_scheme TUIC_SPEC = Tuic" "us_scheme MIERU_SPEC = Mieru" "us_scheme SOCKS5_SPEC = Socks5"
  "us_scheme SNELL_SPEC = Snell" "us_scheme ANYTLS_SPEC = AnyTls" "us_scheme NAIVE_SPEC = Naive"
  by (simp_all add: VLESS_SPEC_def TROJAN_SPEC_def HYSTERIA2_SPEC_def TUIC_SPEC_def MIERU_SPEC_def
      SOCKS5_SPEC_def SNELL_SPEC_def ANYTLS_SPEC_def NAIVE_SPEC_def)

text \<open>The three places that name a generic scheme agree: the dispatch, the specification, the printer.\<close>

definition spec_agrees :: "codecs \<Rightarrow> ProxyEntry \<Rightarrow> string \<Rightarrow> UriSchemeSpec \<Rightarrow> bool" where
  "spec_agrees co e b spec \<longleftrightarrow>
     us_scheme spec \<in> set generic_schemes \<and>
     us_credential_required spec = (us_scheme spec \<noteq> Socks5) \<and>
     serialize_scheme co (us_scheme spec) e = us_prefix spec @ uri_body e \<and>
     map_option (\<lambda>(name, rest). (spec_for (to_ascii_lowercase name), rest))
       (split_once_str ''://'' (us_prefix spec @ b)) = Some (Some spec, b)"

lemma spec_for_table:
  "spec_for ''vless'' = Some VLESS_SPEC" "spec_for ''trojan'' = Some TROJAN_SPEC"
  "spec_for ''hysteria2'' = Some HYSTERIA2_SPEC" "spec_for ''tuic'' = Some TUIC_SPEC"
  "spec_for ''mieru'' = Some MIERU_SPEC" "spec_for ''socks5'' = Some SOCKS5_SPEC"
  "spec_for ''snell'' = Some SNELL_SPEC" "spec_for ''anytls'' = Some ANYTLS_SPEC"
  by (simp_all add: spec_for_def generic_specs_def)

lemma lower_names:
  "to_ascii_lowercase ''vless'' = ''vless''" "to_ascii_lowercase ''trojan'' = ''trojan''"
  "to_ascii_lowercase ''hysteria2'' = ''hysteria2''" "to_ascii_lowercase ''tuic'' = ''tuic''"
  "to_ascii_lowercase ''mieru'' = ''mieru''" "to_ascii_lowercase ''socks5'' = ''socks5''"
  "to_ascii_lowercase ''snell'' = ''snell''" "to_ascii_lowercase ''anytls'' = ''anytls''"
  by code_simp+

lemma spec_prefixes:
  "us_prefix VLESS_SPEC = ''vless://''"
  "us_prefix TROJAN_SPEC = ''trojan://''"
  "us_prefix HYSTERIA2_SPEC = ''hysteria2://''"
  "us_prefix TUIC_SPEC = ''tuic://''"
  "us_prefix MIERU_SPEC = ''mieru://''"
  "us_prefix SOCKS5_SPEC = ''socks5://''"
  "us_prefix SNELL_SPEC = ''snell://''"
  "us_prefix ANYTLS_SPEC = ''anytls://''"
  by (simp_all add: VLESS_SPEC_def TROJAN_SPEC_def HYSTERIA2_SPEC_def TUIC_SPEC_def MIERU_SPEC_def SOCKS5_SPEC_def SNELL_SPEC_def ANYTLS_SPEC_def)

lemma spec_credentials:
  "us_credential_required VLESS_SPEC = True"
  "us_credential_required TROJAN_SPEC = True"
  "us_credential_required HYSTERIA2_SPEC = True"
  "us_credential_required TUIC_SPEC = True"
  "us_credential_required MIERU_SPEC = True"
  "us_credential_required SOCKS5_SPEC = False"
  "us_credential_required SNELL_SPEC = True"
  "us_credential_required ANYTLS_SPEC = True"
  by (simp_all add: VLESS_SPEC_def TROJAN_SPEC_def HYSTERIA2_SPEC_def TUIC_SPEC_def MIERU_SPEC_def SOCKS5_SPEC_def SNELL_SPEC_def ANYTLS_SPEC_def)

lemma prefix_split:
  "split_once_str ''://'' (''vless://'' @ b) = Some (''vless'', b)"
  "split_once_str ''://'' (''trojan://'' @ b) = Some (''trojan'', b)"
  "split_once_str ''://'' (''hysteria2://'' @ b) = Some (''hysteria2'', b)"
  "split_once_str ''://'' (''tuic://'' @ b) = Some (''tuic'', b)"
  "split_once_str ''://'' (''mieru://'' @ b) = Some (''mieru'', b)"
  "split_once_str ''://'' (''socks5://'' @ b) = Some (''socks5'', b)"
  "split_once_str ''://'' (''snell://'' @ b) = Some (''snell'', b)"
  "split_once_str ''://'' (''anytls://'' @ b) = Some (''anytls'', b)"
  by simp_all

lemma spec_agrees_simps:
  "spec_agrees co e b VLESS_SPEC"
  "spec_agrees co e b TROJAN_SPEC"
  "spec_agrees co e b HYSTERIA2_SPEC"
  "spec_agrees co e b TUIC_SPEC"
  "spec_agrees co e b MIERU_SPEC"
  "spec_agrees co e b SOCKS5_SPEC"
  "spec_agrees co e b SNELL_SPEC"
  "spec_agrees co e b ANYTLS_SPEC"
  by (simp_all only: spec_agrees_def spec_schemes generic_schemes_def list.set serialize_scheme.simps
      serialize_with_spec_def spec_prefixes spec_credentials prefix_split lower_names spec_for_table
      option.map prod.case insert_iff Scheme.distinct simp_thms Scheme.simps)

text \<open>The three places that name a generic scheme agree: the dispatch, the specification, the printer.\<close>

lemma spec_for_agrees:
  assumes "spec_for sch = Some spec"
  shows "spec_agrees co e b spec"
proof -
  have "spec \<in> snd ` set generic_specs"
    using assms map_of_SomeD [of generic_specs sch spec] by (force simp: spec_for_def)
  then show ?thesis by (auto simp: generic_specs_def spec_agrees_simps)
qed
lemma ss_parse_scheme: "ss_parse d rest line = Inr e \<Longrightarrow> pe_scheme e = Ss"
  by (auto simp: ss_parse_def Let_def bind_res_Inr split: prod.splits if_splits)

lemma vmess_entry_scheme: "vmess_entry pr obj line = Inr e \<Longrightarrow> pe_scheme e = Vmess"
  by (auto simp: vmess_entry_def Let_def bind_res_Inr split: if_splits)

lemma vmess_parse_scheme: "vmess_parse d jp pr rest line = Inr e \<Longrightarrow> pe_scheme e = Vmess"
  by (auto simp: vmess_parse_def Let_def bind_res_Inr dest: vmess_entry_scheme split: prod.splits if_splits)

lemma parsed_eq: "parsed r = Parsed e \<longleftrightarrow> r = Inr e"
  by (cases r) auto

lemma naive_scheme: "parse_naive tr rest line = Parsed e \<Longrightarrow> pe_scheme e = Naive"
  by (auto simp: parse_naive_def dest!: parsed_shape(2) split: if_splits sum.splits)

text \<open>A parsed line of a generic scheme came through its specification.\<close>

lemma parse_scheme_generic:
  assumes "parse_scheme co sch rest line = Parsed e" "pe_scheme e \<in> set generic_schemes"
  obtains spec where "spec_for sch = Some spec" "parse_with_spec spec rest line = Inr e"
proof (cases "spec_for sch")
  case None
  then show ?thesis
    using assms
    by (auto simp: parse_scheme_def parsed_eq generic_schemes_def dest!: ss_parse_scheme vmess_parse_scheme naive_scheme
        split: if_splits option.splits)
next
  case (Some spec)
  then show ?thesis using assms that by (simp add: parse_scheme_def parsed_eq)
qed

definition needs_credential :: "Scheme \<Rightarrow> bool" where
  "needs_credential sch \<longleftrightarrow> sch \<noteq> Socks5"

text \<open>What the code leaves open, each with its reason in the theory above.\<close>

definition printable_entry :: "ProxyEntry \<Rightarrow> bool" where
  "printable_entry e \<longleftrightarrow> no_chars ''[]'' (pe_host e) \<and> list_all clean_param (pe_params e) \<and>
     (\<not> needs_credential (pe_scheme e) \<or> pe_credential e \<noteq> []) \<and> single_lined e"

text \<open>
  C25: the round trip of a line. An entry read from a line of one of the eight generic schemes is
  printed as a line that is read as the same entry, the new line being its source line now: scheme,
  name, host, port, credential, path and every parameter in order. Asked of the entry are the
  conditions of \<open>printable_entry\<close>, of the printed line that it is within the size cap and does not
  end in white space.
\<close>

theorem line_round_trip:
  assumes "parse_line co raw = Parsed e" "pe_scheme e \<in> set generic_schemes" "printable_entry e"
    and "length (serialize co e) \<le> MAX_LINE_BYTES" "trim (serialize co e) = serialize co e"
  shows "parse_line co (serialize co e) = Parsed (e\<lparr>pe_raw_line := serialize co e\<rparr>)"
proof -
  obtain name rest where line: "split_once_str ''://'' (trim raw) = Some (name, rest)"
    and ps: "parse_scheme co (to_ascii_lowercase name) rest (trim raw) = Parsed e"
    using assms(1) by (auto simp: parse_line_def Let_def split: if_splits option.splits)
  obtain spec where spec: "spec_for (to_ascii_lowercase name) = Some spec"
    and parse: "parse_with_spec spec rest (trim raw) = Inr e"
    using parse_scheme_generic [OF ps assms(2)] .
  note shape = parsed_shape [OF parse]
  have "trim raw \<noteq> []" using line by auto
  then have rl: "pe_raw_line e \<noteq> []" using shape(3) by simp
  have agrees: "spec_agrees co e (uri_body e) spec" using spec_for_agrees [OF spec] .
  have "\<not> needs_fix e" using assms(3) by (simp add: printable_entry_def single_lined_needs_fix [symmetric])
  then have ser: "serialize co e = us_prefix spec @ uri_body e"
    using rl agrees shape(2) by (simp add: serialize_def sanitize_for_output_def spec_agrees_def)
  obtain name' where n: "split_once_str ''://'' (us_prefix spec @ uri_body e) = Some (name', uri_body e)"
    "spec_for (to_ascii_lowercase name') = Some spec"
    using agrees by (auto simp: spec_agrees_def)
  have "us_credential_required spec \<Longrightarrow> pe_credential e \<noteq> []"
    using agrees shape(2) assms(3) by (simp add: printable_entry_def spec_agrees_def needs_credential_def)
  then have "parse_with_spec spec (uri_body e) (serialize co e) = Inr (e\<lparr>pe_raw_line := serialize co e\<rparr>)"
    using shaped_body_parses [OF shape(1,2)] assms(3) by (simp add: printable_entry_def)
  then show ?thesis
    using assms(4,5) n by (simp add: parse_line_def ser parse_scheme_def Let_def)
qed

section \<open>Witnesses\<close>

text \<open>A codec to evaluate on: base64 replaced by hexadecimal digits, no JSON and no YAML.\<close>

definition hex_text :: "string \<Rightarrow> string" where
  "hex_text s = concat (map (\<lambda>c. [hex_digit (code c div 16), hex_digit (code c mod 16)]) s)"

definition hex_codecs :: codecs where
  "hex_codecs = \<lparr>b64_decode = (\<lambda>_. None), b64_encode = hex_text, json_parse = (\<lambda>_. None),
     json_print = (\<lambda>_. ''{}''), yaml_parse = (\<lambda>_. None), yaml_print = (\<lambda>_. None)\<rparr>"

lemma hex_text_single: "single_line (hex_text s)"
proof -
  have "\<not> is_digit LF" "\<not> is_upper LF" "\<not> is_digit CR" "\<not> is_upper CR"
    by (simp_all add: is_digit_def is_upper_def code_def)
  moreover have "is_digit (hex_digit (code c div 16)) \<or> is_upper (hex_digit (code c div 16))"
    "is_digit (hex_digit (code c mod 16)) \<or> is_upper (hex_digit (code c mod 16))" for c
    using hex_digit_kind [OF code_div_16(1)] hex_digit_kind [OF code_div_16(2)] by blast+
  then have "x \<in> set (hex_text s) \<Longrightarrow> is_digit x \<or> is_upper x" for x
    by (auto simp: hex_text_def)
  ultimately show ?thesis unfolding single_line_def by blast
qed

definition broken_entry :: ProxyEntry where
  "broken_entry = \<lparr>pe_scheme = Trojan, pe_name = [CHR ''a'', LF, CHR ''b''], pe_host = ''h.io'' @ [LF] @ ''x'',
     pe_port = 443, pe_credential = ''pw'', pe_params = [\<lparr>p_key = ''sni'', p_value = [CR], p_known = True\<rparr>],
     pe_raw_path = [], pe_raw_line = ''x''\<rparr>"

theorem serialize_one_line_witness:
  "single_line (serialize hex_codecs broken_entry) \<and> needs_fix broken_entry"
proof -
  have "\<forall>s. single_line (b64_encode hex_codecs s)" by (simp add: hex_codecs_def hex_text_single)
  from serialize_one_line [OF this] show ?thesis
    by (simp add: broken_entry_def needs_fix_def has_line_break_def)
qed

definition sample_line :: string where
  "sample_line = ''  HY2://pw@[2001:db8::1]:443/p?sni=a.b&insecure=1#A%20b ''"

definition sample_parsed :: ProxyEntry where
  "sample_parsed = \<lparr>pe_scheme = Hysteria2, pe_name = ''A b'', pe_host = ''2001:db8::1'', pe_port = 443,
     pe_credential = ''pw'', pe_params = [\<lparr>p_key = ''sni'', p_value = ''a.b'', p_known = True\<rparr>,
       \<lparr>p_key = ''insecure'', p_value = ''1'', p_known = True\<rparr>],
     pe_raw_path = ''/p'', pe_raw_line = ''HY2://pw@[2001:db8::1]:443/p?sni=a.b&insecure=1#A%20b''\<rparr>"

definition sample_printed :: string where
  "sample_printed = ''hysteria2://pw@[2001:db8::1]:443/p?sni=a.b&insecure=1#A%20b''"

lemma sample_trims: "trim sample_line = pe_raw_line sample_parsed"
  by code_simp

lemma sample_rest_parses:
  "parse_with_spec HYSTERIA2_SPEC ''pw@[2001:db8::1]:443/p?sni=a.b&insecure=1#A%20b'' (pe_raw_line sample_parsed) =
     Inr sample_parsed"
proof -
  have n: "percent_decode ''A%20b'' = ''A b''" by code_simp
  have q: "parse_query ''sni=a.b&insecure=1'' = Inr [\<lparr>p_key = ''sni'', p_value = ''a.b'', p_known = False\<rparr>,
      \<lparr>p_key = ''insecure'', p_value = ''1'', p_known = False\<rparr>]"
    by (simp add: parse_query_def MAX_QUERY_PARAMS_def split_pair_def check_param_size_def MAX_PARAM_BYTES_def)
  have h: "parse_hostport ''[2001:db8::1]:443'' = Inr (''2001:db8::1'', 443)"
    by (simp add: parse_hostport_def strip_prefix_def port_of_def parse_u16_def parse_unsigned_def is_digit_def code_def)
  have k: "to_ascii_lowercase ''sni'' = ''sni''" "to_ascii_lowercase ''insecure'' = ''insecure''" by code_simp+
  show ?thesis
    by (simp add: parse_with_spec_def split_uri_def split_fragment_def split_query_def split_at_char_def
        split_userinfo_def split_path_def n q h mark_known_def HYSTERIA2_SPEC_def sample_parsed_def
        k del: to_ascii_lowercase_simps)
qed

lemma sample_line_parses: "parse_line hex_codecs sample_line = Parsed sample_parsed"
proof -
  have l: "length sample_line \<le> MAX_LINE_BYTES" by (simp add: sample_line_def MAX_LINE_BYTES_def)
  have s: "split_once_str ''://'' (pe_raw_line sample_parsed) =
      Some (''HY2'', ''pw@[2001:db8::1]:443/p?sni=a.b&insecure=1#A%20b'')"
    by (simp add: sample_parsed_def)
  have k: "to_ascii_lowercase ''HY2'' = ''hy2''" by code_simp
  have sp: "spec_for ''hy2'' = Some HYSTERIA2_SPEC" by (simp add: spec_for_def generic_specs_def)
  show ?thesis
    using l by (simp only: parse_line_def Let_def sample_trims s option.case prod.case parse_scheme_def k sp
        sample_rest_parses parsed.simps not_less [symmetric] if_False simp_thms)
qed

lemma sample_prints: "serialize hex_codecs sample_parsed = sample_printed"
  by code_simp

theorem line_round_trip_witness:
  "parse_line hex_codecs sample_line = Parsed sample_parsed \<and>
   parse_line hex_codecs sample_printed = Parsed (sample_parsed\<lparr>pe_raw_line := sample_printed\<rparr>)"
proof -
  have g: "pe_scheme sample_parsed \<in> set generic_schemes" by (simp add: sample_parsed_def generic_schemes_def)
  have p: "printable_entry sample_parsed"
    by (simp add: printable_entry_def no_chars_def sample_parsed_def clean_param_def c1_control_def
        must_encode_def code_def needs_credential_def single_lined_def)
  have l: "length (serialize hex_codecs sample_parsed) \<le> MAX_LINE_BYTES"
    by (simp add: sample_prints sample_printed_def MAX_LINE_BYTES_def)
  have t: "trim (serialize hex_codecs sample_parsed) = serialize hex_codecs sample_parsed"
    unfolding sample_prints sample_printed_def by code_simp
  show ?thesis using line_round_trip [OF sample_line_parses g p l t] sample_line_parses
    by (simp add: sample_prints)
qed

end
