(* ===== verification/Clash_Output.thy ===== *)
theory Clash_Output
  imports Formats
begin

text \<open>
  The Clash (mihomo) writer, \<open>formats/clash.rs\<close>: one mapping per entry of a supported scheme, built by
  insertions in the order of the code. An insertion replaces the value of a key in its place.
\<close>

section \<open>Insertion\<close>

definition yput :: "string \<Rightarrow> yaml \<Rightarrow> ymapping \<Rightarrow> ymapping" where
  "yput key v m = obj_insert (YString key) v m"

definition yput_opt :: "string \<Rightarrow> yaml option \<Rightarrow> ymapping \<Rightarrow> ymapping" where
  "yput_opt key v m = (case v of None \<Rightarrow> m | Some x \<Rightarrow> yput key x m)"

definition yput_if :: "bool \<Rightarrow> string \<Rightarrow> yaml \<Rightarrow> ymapping \<Rightarrow> ymapping" where
  "yput_if b key v m = (if b then yput key v m else m)"

definition text_opt :: "string option \<Rightarrow> yaml option" where
  "text_opt = map_option YString"

definition copy_param :: "ProxyEntry \<Rightarrow> string \<Rightarrow> string \<Rightarrow> ymapping \<Rightarrow> ymapping" where
  "copy_param entry src dst m = yput_opt dst (text_opt (param_value entry src)) m"

definition parse_i64 :: "string \<Rightarrow> int option" where
  "parse_i64 s =
     (case s of
        c # r \<Rightarrow>
          if c = CHR ''-'' then
            (case parse_unsigned (2 ^ 63) r of
               Some n \<Rightarrow> if r \<noteq> [] \<and> hd r \<noteq> CHR ''+'' then Some (- int n) else None
             | None \<Rightarrow> None)
          else map_option int (parse_unsigned (2 ^ 63 - 1) s)
      | [] \<Rightarrow> None)"

definition is_supported :: "Scheme \<Rightarrow> bool" where
  "is_supported s \<longleftrightarrow> s \<in> {Vless, Vmess, Trojan, Ss, Hysteria2, Socks5, Snell, AnyTls}"

definition security_is :: "ProxyEntry \<Rightarrow> string \<Rightarrow> bool" where
  "security_is entry want =
     (case param_value entry ''security'' of None \<Rightarrow> False | Some v \<Rightarrow> eq_ignore_ascii_case v want)"

definition param_value_is :: "ProxyEntry \<Rightarrow> string \<Rightarrow> string \<Rightarrow> bool" where
  "param_value_is entry key want =
     (case param_value entry key of None \<Rightarrow> False | Some v \<Rightarrow> eq_ignore_ascii_case v want)"

section \<open>Blocks\<close>

definition put_reality_opts :: "(string \<Rightarrow> yaml option) \<Rightarrow> ProxyEntry \<Rightarrow> ymapping \<Rightarrow> ymapping" where
  "put_reality_opts yp entry m =
     (let pbk = reality_public_key yp entry; sid = reality_short_id yp entry in
      if pbk = None \<and> sid = None then m
      else yput ''reality-opts''
        (YMapping (yput_opt ''short-id'' (text_opt sid) (yput_opt ''public-key'' (text_opt pbk) []))) m)"

definition put_alpn ::
  "(string \<Rightarrow> yaml option) \<Rightarrow> (yaml \<Rightarrow> string option) \<Rightarrow> ProxyEntry \<Rightarrow> ymapping \<Rightarrow> ymapping" where
  "put_alpn yp ypr entry m =
     yput_opt ''alpn'' (map_option (\<lambda>l. YSequence (map YString l)) (param_list yp ypr entry ''alpn'')) m"

fun first_host :: "ymapping \<Rightarrow> string list \<Rightarrow> string option" where
  "first_host m [] = None"
| "first_host m (k # ks) =
     (case Option.bind (yget m k) yaml_str of
        Some h \<Rightarrow> if trim h \<noteq> [] then Some (trim h) else first_host m ks
      | None \<Rightarrow> first_host m ks)"

definition ws_nested_host :: "ymapping option \<Rightarrow> string option" where
  "ws_nested_host ws =
     (case Option.bind (Option.bind ws (\<lambda>m. yget m ''headers'')) as_mapping of
        None \<Rightarrow> None
      | Some headers \<Rightarrow> first_host headers [''Host'', ''host''])"

definition put_ws_opts :: "(string \<Rightarrow> yaml option) \<Rightarrow> ProxyEntry \<Rightarrow> bool \<Rightarrow> ymapping \<Rightarrow> ymapping" where
  "put_ws_opts yp entry http_upgrade m =
     (let ws_yaml = param_map yp entry ''ws-opts'';
          headers_yaml = param_map yp entry ''ws-headers'';
          path = or_else (param_value entry ''path'') (map_str ws_yaml ''path'');
          host = or_else (or_else (param_value entry ''host'') (map_str headers_yaml ''host''))
            (ws_nested_host ws_yaml)
      in if path = None \<and> host = None \<and> \<not> http_upgrade then m
         else yput ''ws-opts'' (YMapping
           (yput_if http_upgrade ''v2ray-http-upgrade'' (YBool True)
             (yput_opt ''headers'' (map_option (\<lambda>h. YMapping (yput ''Host'' (YString h) [])) host)
               (yput_opt ''path'' (text_opt path) [])))) m)"

definition put_grpc_opts :: "(string \<Rightarrow> yaml option) \<Rightarrow> ProxyEntry \<Rightarrow> ymapping \<Rightarrow> ymapping" where
  "put_grpc_opts yp entry m =
     (let yaml = param_map yp entry ''grpc-opts'';
          service = or_else (or_else (param_value entry ''serviceName'') (map_str yaml ''grpc-service-name''))
            (param_value entry ''grpc-service-name'');
          service = (if pe_scheme entry = Vmess then or_else service (param_value entry ''path'') else service)
      in yput_opt ''grpc-opts''
           (map_option (\<lambda>s. YMapping (yput ''grpc-service-name'' (YString s) [])) service) m)"

definition yaml_list :: "ymapping option \<Rightarrow> string \<Rightarrow> string list option" where
  "yaml_list m key =
     (case Option.bind (Option.bind m (\<lambda>m. yget m key)) yaml_sequence of
        None \<Rightarrow> None
      | Some seq \<Rightarrow> some_list (map trim (filter (\<lambda>s. trim s \<noteq> []) (List.map_filter yaml_str seq))))"

definition comma_list :: "string \<Rightarrow> string list" where
  "comma_list h = filter (\<lambda>s. s \<noteq> []) (map trim (split_on (CHR '','') h))"

definition put_h2_opts :: "(string \<Rightarrow> yaml option) \<Rightarrow> ProxyEntry \<Rightarrow> ymapping \<Rightarrow> ymapping" where
  "put_h2_opts yp entry m =
     (let yaml = param_map yp entry ''h2-opts'';
          path = or_else (param_value entry ''path'') (map_str yaml ''path'');
          hosts = or_else (map_option comma_list (or_else (param_value entry ''host'') (map_str yaml ''host'')))
            (yaml_list yaml ''host'')
      in if path = None \<and> hosts = None then m
         else yput ''h2-opts'' (YMapping
           (yput_opt ''path'' (text_opt path)
             (yput_opt ''host'' (map_option (\<lambda>hs. YSequence (map YString hs)) hosts) []))) m)"

definition put_http_opts :: "ProxyEntry \<Rightarrow> ymapping \<Rightarrow> ymapping" where
  "put_http_opts entry m =
     (let path = param_value entry ''path''; host = param_value entry ''host'' in
      if path = None \<and> host = None then m
      else yput ''http-opts'' (YMapping
        (yput_opt ''headers''
          (map_option (\<lambda>h. YMapping (yput ''Host'' (YSequence [YString h]) [])) host)
          (yput_opt ''path'' (map_option (\<lambda>p. YSequence [YString p]) path) []))) m)"

definition put_transport :: "(string \<Rightarrow> yaml option) \<Rightarrow> ProxyEntry \<Rightarrow> string \<Rightarrow> ymapping \<Rightarrow> ymapping" where
  "put_transport yp entry uri_key m =
     (case map_option to_ascii_lowercase (or_else (param_value entry uri_key) (param_value entry ''network'')) of
        None \<Rightarrow> m
      | Some network \<Rightarrow>
          if network = [] \<or> network = ''tcp'' then
            (if param_value_is entry ''headerType'' ''http'' \<or>
                (pe_scheme entry = Vmess \<and> param_value_is entry ''type'' ''http'')
             then put_http_opts entry (yput ''network'' (YString ''http'') m) else m)
          else if network = ''ws'' \<or> network = ''httpupgrade'' then
            put_ws_opts yp entry (network = ''httpupgrade'') (yput ''network'' (YString ''ws'') m)
          else if network = ''grpc'' then put_grpc_opts yp entry (yput ''network'' (YString ''grpc'') m)
          else if network = ''h2'' then put_h2_opts yp entry (yput ''network'' (YString ''h2'') m)
          else if network = ''http'' then
            (if pe_scheme entry = Vmess \<or> param_value_is entry ''headerType'' ''http''
             then put_http_opts entry (yput ''network'' (YString ''http'') m)
             else put_h2_opts yp entry (yput ''network'' (YString ''h2'') m))
          else yput ''network'' (YString network) m)"

section \<open>The Shadowsocks plugin\<close>

definition plugin_part :: "string \<Rightarrow> (string \<times> string) list \<times> string list \<Rightarrow> (string \<times> string) list \<times> string list" where
  "plugin_part part acc =
     (let p = trim part in
      if p = [] then acc
      else case split_once (CHR ''='') p of
        Some (k, v) \<Rightarrow> (fst acc @ [(to_ascii_lowercase (trim k), trim v)], snd acc)
      | None \<Rightarrow> (fst acc, snd acc @ [to_ascii_lowercase p]))"

definition put_plugin_opts :: "ymapping \<Rightarrow> ymapping \<Rightarrow> ymapping" where
  "put_plugin_opts opts m = (if opts = [] then m else yput ''plugin-opts'' (YMapping opts) m)"

definition version_value :: "string \<Rightarrow> yaml" where
  "version_value v = (case parse_i64 v of Some n \<Rightarrow> YInt n | None \<Rightarrow> YString v)"

definition put_ss_plugin :: "ProxyEntry \<Rightarrow> ymapping \<Rightarrow> ymapping" where
  "put_ss_plugin entry m =
     (case param_value entry ''plugin'' of
        None \<Rightarrow> m
      | Some raw \<Rightarrow>
          (let parts = split_on (CHR '';'') raw; name = trim (hd parts);
               (kvs, flags) = foldl (\<lambda>acc p. plugin_part p acc) ([], []) (tl parts);
               kv = (\<lambda>key. text_opt (map_of kvs key)); flag = (\<lambda>key. list_ex (\<lambda>f. f = key) flags)
           in if name = [] then m
              else if name = ''obfs-local'' \<or> name = ''simple-obfs'' then
                put_plugin_opts (yput_opt ''host'' (kv ''obfs-host'') (yput_opt ''mode'' (kv ''obfs'') []))
                  (yput ''plugin'' (YString ''obfs'') m)
              else if name = ''v2ray-plugin'' then
                put_plugin_opts
                  (yput_if (flag ''skipverify'') ''skip-cert-verify'' (YBool True)
                    (yput_if (flag ''mux'') ''mux'' (YBool True)
                      (yput_if (flag ''tls'') ''tls'' (YBool True)
                        (yput_opt ''path'' (kv ''path'') (yput_opt ''host'' (kv ''host'')
                          (yput_opt ''mode'' (kv ''mode'') []))))))
                  (yput ''plugin'' (YString ''v2ray-plugin'') m)
              else if name = ''shadow-tls'' then
                put_plugin_opts
                  (yput_opt ''version'' (map_option version_value (map_of kvs ''version''))
                    (yput_opt ''password'' (kv ''password'') (yput_opt ''host'' (kv ''host'') [])))
                  (yput ''plugin'' (YString ''shadow-tls'') m)
              else put_plugin_opts
                  (foldl (\<lambda>o' f. yput f (YBool True) o') (foldl (\<lambda>o' (k, v). yput k (YString v) o') [] kvs) flags)
                  (yput ''plugin'' (YString name) m)))"

section \<open>One entry\<close>

definition tls_block :: "ProxyEntry \<Rightarrow> ymapping \<Rightarrow> ymapping" where
  "tls_block entry m =
     copy_param entry ''servername'' ''servername''
       (copy_param entry ''sni'' ''servername'' (yput ''tls'' (YBool True) m))"

definition clash_vless where
  "clash_vless yp ypr entry m =
     (let m = copy_param entry ''flow'' ''flow''
            (yput ''uuid'' (YString (pe_credential entry)) (yput ''type'' (YString ''vless'') m));
          m = (if security_is entry ''tls'' \<or> security_is entry ''reality'' \<or> param_truthy entry ''tls''
               then tls_block entry m else m)
      in put_transport yp entry ''type'' (put_alpn yp ypr entry (put_reality_opts yp entry
           (copy_param entry ''fp'' ''client-fingerprint'' m))))"

definition alter_id :: "(string \<Rightarrow> int option) \<Rightarrow> ProxyEntry \<Rightarrow> int" where
  "alter_id parse entry =
     (case Option.bind (or_else (param_value entry ''aid'') (param_value entry ''alterId'')) parse of
        Some n \<Rightarrow> n | None \<Rightarrow> 0)"

definition vmess_cipher :: "ProxyEntry \<Rightarrow> string" where
  "vmess_cipher entry =
     (case or_else (param_value entry ''scy'') (param_value entry ''cipher'') of Some c \<Rightarrow> c | None \<Rightarrow> ''auto'')"

definition vmess_tls :: "ProxyEntry \<Rightarrow> bool" where
  "vmess_tls entry \<longleftrightarrow>
     param_value_is entry ''tls'' ''tls'' \<or> param_truthy entry ''tls'' \<or> security_is entry ''tls''"

definition clash_vmess where
  "clash_vmess yp ypr entry m =
     (let m = yput ''cipher'' (YString (vmess_cipher entry)) (yput ''alterId'' (YInt (alter_id parse_i64 entry))
            (yput ''uuid'' (YString (pe_credential entry)) (yput ''type'' (YString ''vmess'') m)));
          m = (if vmess_tls entry then tls_block entry m else m)
      in put_transport yp entry ''net'' (put_alpn yp ypr entry
           (copy_param entry ''client-fingerprint'' ''client-fingerprint''
             (copy_param entry ''fp'' ''client-fingerprint'' m))))"

definition clash_trojan where
  "clash_trojan yp ypr entry m =
     put_transport yp entry ''type'' (put_alpn yp ypr entry (put_reality_opts yp entry
       (copy_param entry ''fp'' ''client-fingerprint'' (copy_param entry ''flow'' ''flow''
         (copy_param entry ''sni'' ''sni'' (yput ''password'' (YString (pe_credential entry))
           (yput ''type'' (YString ''trojan'') m)))))))"

definition ss_credential :: "ProxyEntry \<Rightarrow> string \<times> string" where
  "ss_credential entry =
     (case split_once (CHR '':'') (pe_credential entry) of
        Some (c, p) \<Rightarrow> (c, p) | None \<Rightarrow> (''chacha20-ietf-poly1305'', pe_credential entry))"

definition clash_ss where
  "clash_ss entry m =
     put_ss_plugin entry (yput ''password'' (YString (snd (ss_credential entry)))
       (yput ''cipher'' (YString (fst (ss_credential entry))) (yput ''type'' (YString ''ss'') m)))"

definition clash_hysteria2 where
  "clash_hysteria2 yp ypr entry m =
     (let m = yput ''password'' (YString (pe_credential entry)) (yput ''type'' (YString ''hysteria2'') m);
          m = foldl (\<lambda>m (src, dst). copy_param entry src dst m) m
            [(''sni'', ''sni''), (''obfs'', ''obfs''), (''obfs-password'', ''obfs-password''), (''upMbps'', ''up''),
             (''up'', ''up''), (''downMbps'', ''down''), (''down'', ''down''), (''pinSHA256'', ''fingerprint''),
             (''fingerprint'', ''fingerprint''), (''ports'', ''ports'')]
      in put_alpn yp ypr entry m)"

definition socks_user :: "ProxyEntry \<Rightarrow> string \<times> string" where
  "socks_user entry = (case split_once (CHR '':'') (pe_credential entry) of Some up \<Rightarrow> up | None \<Rightarrow> ([], []))"

definition clash_socks5 where
  "clash_socks5 entry m =
     yput_if (param_truthy entry ''tls'') ''tls'' (YBool True)
       (yput_if (snd (socks_user entry) \<noteq> []) ''password'' (YString (snd (socks_user entry)))
         (yput_if (fst (socks_user entry) \<noteq> []) ''username'' (YString (fst (socks_user entry)))
           (yput ''type'' (YString ''socks5'') m)))"

definition snell_opts :: "string option \<Rightarrow> string option \<Rightarrow> ymapping" where
  "snell_opts obfs obfs_host =
     yput_opt ''host'' (text_opt obfs_host)
       (yput ''mode'' (YString (case obfs of Some x \<Rightarrow> x | None \<Rightarrow> ''off'')) [])"

definition clash_snell where
  "clash_snell yp entry m =
     (let obfs_yaml = param_map yp entry ''obfs-opts'';
          obfs = or_else (param_value entry ''obfs'') (map_str obfs_yaml ''mode'');
          obfs_host = or_else (param_value entry ''obfs-host'') (map_str obfs_yaml ''host'');
          m = copy_param entry ''mode'' ''mode'' (yput_if (param_truthy entry ''reuse'') ''reuse'' (YBool True)
            (copy_param entry ''version'' ''version'' (yput ''psk'' (YString (pe_credential entry))
              (yput ''type'' (YString ''snell'') m))))
      in yput_if (obfs \<noteq> None \<or> obfs_host \<noteq> None) ''obfs-opts'' (YMapping (snell_opts obfs obfs_host)) m)"

definition clash_anytls where
  "clash_anytls entry m =
     copy_param entry ''sni'' ''sni'' (yput ''password'' (YString (pe_credential entry))
       (yput ''type'' (YString ''anytls'') m))"

definition clash_scheme ::
  "(string \<Rightarrow> yaml option) \<Rightarrow> (yaml \<Rightarrow> string option) \<Rightarrow> ProxyEntry \<Rightarrow> ymapping \<Rightarrow> ymapping option" where
  "clash_scheme yp ypr entry m =
     (case pe_scheme entry of
        Vless \<Rightarrow> Some (clash_vless yp ypr entry m)
      | Vmess \<Rightarrow> Some (clash_vmess yp ypr entry m)
      | Trojan \<Rightarrow> Some (clash_trojan yp ypr entry m)
      | Ss \<Rightarrow> Some (clash_ss entry m)
      | Hysteria2 \<Rightarrow> Some (clash_hysteria2 yp ypr entry m)
      | Socks5 \<Rightarrow> Some (clash_socks5 entry m)
      | Snell \<Rightarrow> Some (clash_snell yp entry m)
      | AnyTls \<Rightarrow> Some (clash_anytls entry m)
      | _ \<Rightarrow> None)"

definition entry_to_clash_named ::
  "(string \<Rightarrow> yaml option) \<Rightarrow> (yaml \<Rightarrow> string option) \<Rightarrow> ProxyEntry \<Rightarrow> string \<Rightarrow> yaml option" where
  "entry_to_clash_named yp ypr entry name =
     map_option (\<lambda>m. YMapping (yput_if (param_truthy entry ''udp'') ''udp'' (YBool True)
         (yput_if (is_insecure (pe_params entry)) ''skip-cert-verify'' (YBool True) m)))
       (clash_scheme yp ypr entry (yput ''port'' (YInt (int (unat (pe_port entry))))
         (yput ''server'' (YString (pe_host entry)) (yput ''name'' (YString name) []))))"

definition entry_to_clash ::
  "(string \<Rightarrow> yaml option) \<Rightarrow> (yaml \<Rightarrow> string option) \<Rightarrow> ProxyEntry \<Rightarrow> yaml option" where
  "entry_to_clash yp ypr entry = entry_to_clash_named yp ypr entry (pe_name entry)"

section \<open>The document\<close>

definition clash_items ::
  "(string \<Rightarrow> yaml option) \<Rightarrow> (yaml \<Rightarrow> string option) \<Rightarrow> ProxyEntry list \<Rightarrow> yaml list" where
  "clash_items yp ypr entries =
     (let supported = filter (\<lambda>e. is_supported (pe_scheme e)) entries;
          names = dedupe_names (map pe_name supported)
      in List.map_filter (\<lambda>(entry, name). entry_to_clash_named yp ypr entry name) (zip supported names))"

definition encode_clash ::
  "(string \<Rightarrow> yaml option) \<Rightarrow> (yaml \<Rightarrow> string option) \<Rightarrow> ProxyEntry list \<Rightarrow> string" where
  "encode_clash yp ypr entries =
     unwrap_or_default (ypr (YMapping (yput ''proxies'' (YSequence (clash_items yp ypr entries)) [])))"

end
