(* ===== verification/Singbox_Output.thy ===== *)
theory Singbox_Output
  imports Clash_Output
begin

text \<open>
  The sing-box writer, \<open>formats/singbox.rs\<close>: one JSON outbound per entry of a supported scheme, built by
  insertions in the order of the code. The pretty printer of \<open>serde_json\<close> is a parameter.
\<close>

type_synonym jmap = "(string \<times> json) list"

section \<open>Insertion\<close>

definition jput :: "string \<Rightarrow> json \<Rightarrow> jmap \<Rightarrow> jmap" where
  "jput key v m = obj_insert key v m"

definition jput_opt :: "string \<Rightarrow> json option \<Rightarrow> jmap \<Rightarrow> jmap" where
  "jput_opt key v m = (case v of None \<Rightarrow> m | Some x \<Rightarrow> jput key x m)"

definition jput_if :: "bool \<Rightarrow> string \<Rightarrow> json \<Rightarrow> jmap \<Rightarrow> jmap" where
  "jput_if b key v m = (if b then jput key v m else m)"

definition jtext_opt :: "string option \<Rightarrow> json option" where
  "jtext_opt = map_option JString"

definition non_empty_param :: "ProxyEntry \<Rightarrow> string \<Rightarrow> string option" where
  "non_empty_param entry key =
     (case param entry key of None \<Rightarrow> None | Some v \<Rightarrow> if v = [] then None else Some v)"

definition singbox_is_supported :: "Scheme \<Rightarrow> bool" where
  "singbox_is_supported s \<longleftrightarrow> s \<in> {Vless, Vmess, Trojan, Ss, Hysteria2, Socks5}"

section \<open>TLS\<close>

definition sni_of :: "ProxyEntry \<Rightarrow> string option" where
  "sni_of entry = or_else (non_empty_param entry ''sni'') (param_value entry ''servername'')"

text \<open>The stated toggle, when there is one.\<close>

definition toggle_word :: "string \<Rightarrow> bool option" where
  "toggle_word w =
     map_of [(''1'', True), (''true'', True), (''yes'', True), (''on'', True), (''tls'', True),
             (''0'', False), (''false'', False), (''no'', False), (''off'', False)] w"

definition stated_toggle :: "ProxyEntry \<Rightarrow> bool option" where
  "stated_toggle entry =
     Option.bind (param_value entry ''tls'') (\<lambda>tls. toggle_word (to_ascii_lowercase (trim tls)))"

definition wants_tls :: "ProxyEntry \<Rightarrow> bool" where
  "wants_tls entry \<longleftrightarrow>
     (case stated_toggle entry of
        Some on \<Rightarrow> on
      | None \<Rightarrow> param entry ''security'' = Some ''tls'' \<or> sni_of entry \<noteq> None \<or> is_insecure (pe_params entry))"

definition tls_common :: "ProxyEntry \<Rightarrow> jmap" where
  "tls_common entry =
     jput_if (is_insecure (pe_params entry)) ''insecure'' (JBool True)
       (jput_opt ''server_name'' (jtext_opt (sni_of entry)) (jput ''enabled'' (JBool True) []))"

definition minimal_tls :: "ProxyEntry \<Rightarrow> json" where
  "minimal_tls entry = JObject (tls_common entry)"

definition utls_object :: "string \<Rightarrow> json" where
  "utls_object fp = JObject (jput ''fingerprint'' (JString fp) (jput ''enabled'' (JBool True) []))"

definition reality_object :: "string option \<Rightarrow> string option \<Rightarrow> json" where
  "reality_object pbk sid =
     JObject (jput_opt ''short_id'' (jtext_opt sid) (jput_opt ''public_key'' (jtext_opt pbk)
       (jput ''enabled'' (JBool True) [])))"

definition tls_object ::
  "(string \<Rightarrow> yaml option) \<Rightarrow> (yaml \<Rightarrow> string option) \<Rightarrow> ProxyEntry \<Rightarrow> bool \<Rightarrow> bool \<Rightarrow> json option" where
  "tls_object yp ypr entry enabled reality =
     (if \<not> enabled then None
      else let pbk = reality_public_key yp entry; sid = reality_short_id yp entry in
        Some (JObject
          (jput_if (reality \<and> (pbk \<noteq> None \<or> sid \<noteq> None)) ''reality'' (reality_object pbk sid)
            (jput_opt ''utls'' (map_option utls_object (non_empty_param entry ''fp''))
              (jput_opt ''alpn'' (map_option (\<lambda>l. JArray (map JString l)) (param_list yp ypr entry ''alpn''))
                (tls_common entry))))))"

section \<open>Transport\<close>

definition ws_transport :: "ProxyEntry \<Rightarrow> string \<Rightarrow> jmap" where
  "ws_transport entry network =
     (let t = jput_opt ''path'' (jtext_opt (param_value entry ''path'')) (jput ''type'' (JString network) []) in
      case param_value entry ''host'' of
        None \<Rightarrow> t
      | Some host \<Rightarrow>
          if network = ''ws'' then jput ''headers'' (JObject (jput ''Host'' (JString host) [])) t
          else jput ''host'' (JString host) t)"

definition grpc_transport :: "ProxyEntry \<Rightarrow> jmap" where
  "grpc_transport entry =
     (let service = param_value entry ''serviceName'';
          service = (if pe_scheme entry = Vmess then or_else service (param_value entry ''path'') else service)
      in jput_opt ''service_name'' (jtext_opt service) (jput ''type'' (JString ''grpc'') []))"

definition http_transport :: "ProxyEntry \<Rightarrow> jmap" where
  "http_transport entry =
     jput_opt ''path'' (jtext_opt (param_value entry ''path''))
       (jput_opt ''host'' (map_option (\<lambda>h. JArray (map JString (comma_list h))) (param_value entry ''host''))
         (jput ''type'' (JString ''http'') []))"

definition transport_object :: "ProxyEntry \<Rightarrow> string \<Rightarrow> json option" where
  "transport_object entry uri_key =
     (case network_of entry uri_key of
        None \<Rightarrow> None
      | Some network \<Rightarrow>
          if network = ''ws'' \<or> network = ''httpupgrade'' then Some (JObject (ws_transport entry network))
          else if network = ''grpc'' then Some (JObject (grpc_transport entry))
          else if network = ''h2'' \<or> network = ''http'' then Some (JObject (http_transport entry))
          else None)"

section \<open>One entry\<close>

definition num :: "u16 \<Rightarrow> json" where
  "num p = JInt (int (unat p))"

definition parse_u64 :: "string \<Rightarrow> int option" where
  "parse_u64 s = map_option int (parse_unsigned (2 ^ 64 - 1) s)"

definition singbox_base :: "ProxyEntry \<Rightarrow> string \<Rightarrow> string \<Rightarrow> jmap" where
  "singbox_base entry kind tag =
     jput ''server_port'' (num (pe_port entry)) (jput ''server'' (JString (pe_host entry))
       (jput ''type'' (JString kind) (jput ''tag'' (JString tag) [])))"

definition wants_reality :: "(string \<Rightarrow> yaml option) \<Rightarrow> ProxyEntry \<Rightarrow> bool" where
  "wants_reality yp entry \<longleftrightarrow> security_is entry ''reality'' \<or> reality_public_key yp entry \<noteq> None"

definition singbox_vless where
  "singbox_vless yp ypr entry tag =
     (let reality = wants_reality yp entry in
      jput_opt ''transport'' (transport_object entry ''type'')
        (jput_opt ''tls'' (tls_object yp ypr entry (reality \<or> wants_tls entry) reality)
          (jput_opt ''flow'' (jtext_opt (non_empty_param entry ''flow''))
            (jput ''uuid'' (JString (pe_credential entry)) (singbox_base entry ''vless'' tag)))))"

definition singbox_vmess where
  "singbox_vmess yp ypr entry tag =
     jput_opt ''transport'' (transport_object entry ''net'')
       (jput_opt ''tls'' (tls_object yp ypr entry (vmess_tls entry) False)
         (jput ''alter_id'' (JInt (alter_id parse_u64 entry))
           (jput ''security'' (JString (vmess_cipher entry))
             (jput ''uuid'' (JString (pe_credential entry)) (singbox_base entry ''vmess'' tag)))))"

definition singbox_trojan where
  "singbox_trojan yp ypr entry tag =
     jput_opt ''transport'' (transport_object entry ''type'')
       (jput_opt ''tls'' (tls_object yp ypr entry True (wants_reality yp entry))
         (jput ''password'' (JString (pe_credential entry)) (singbox_base entry ''trojan'' tag)))"

definition trim_end_semicolons :: "string \<Rightarrow> string" where
  "trim_end_semicolons s = rev (dropWhile (\<lambda>c. c = CHR '';'') (rev s))"

definition singbox_plugin :: "ProxyEntry \<Rightarrow> jmap \<Rightarrow> jmap" where
  "singbox_plugin entry m =
     (case param_value entry ''plugin'' of
        None \<Rightarrow> m
      | Some raw \<Rightarrow>
          (let (head, rest) = (case split_once (CHR '';'') raw of Some (a, b) \<Rightarrow> (a, Some b) | None \<Rightarrow> (raw, None));
               name = trim head
           in if name = [] then m
              else (let m = jput ''plugin'' (JString name) m in
                case map_option (\<lambda>r. trim_end_semicolons (trim r)) rest of
                  None \<Rightarrow> m
                | Some opts \<Rightarrow> jput_if (opts \<noteq> []) ''plugin_opts'' (JString opts) m)))"

definition singbox_ss where
  "singbox_ss entry tag =
     singbox_plugin entry
       (jput ''password'' (JString (snd (ss_credential entry)))
         (jput ''method'' (JString (fst (ss_credential entry))) (singbox_base entry ''shadowsocks'' tag)))"

text \<open>The leading digits of a rate such as \<open>100 Mbps\<close>.\<close>

definition rate_of :: "string \<Rightarrow> nat option" where
  "rate_of v = parse_u32 (rev (dropWhile (\<lambda>c. \<not> is_digit c) (rev (trim v))))"

definition put_rate :: "ProxyEntry \<Rightarrow> string \<Rightarrow> string \<Rightarrow> string \<Rightarrow> jmap \<Rightarrow> jmap" where
  "put_rate entry out_key k1 k2 m =
     jput_opt out_key (map_option (\<lambda>n. JInt (int n))
       (Option.bind (or_else (param_value entry k1) (param_value entry k2)) rate_of)) m"

definition obfs_object :: "ProxyEntry \<Rightarrow> string \<Rightarrow> json" where
  "obfs_object entry obfs =
     JObject (jput_opt ''password'' (jtext_opt (non_empty_param entry ''obfs-password''))
       (jput ''type'' (JString obfs) []))"

definition singbox_hysteria2 where
  "singbox_hysteria2 yp ypr entry tag =
     put_rate entry ''down_mbps'' ''downMbps'' ''down'' (put_rate entry ''up_mbps'' ''upMbps'' ''up''
       (jput_opt ''obfs'' (map_option (obfs_object entry) (non_empty_param entry ''obfs''))
         (jput_opt ''tls'' (tls_object yp ypr entry True False)
           (jput ''password'' (JString (pe_credential entry)) (singbox_base entry ''hysteria2'' tag)))))"

definition singbox_socks5 where
  "singbox_socks5 entry tag =
     jput_if (param_truthy entry ''tls'') ''tls'' (minimal_tls entry)
       (jput_if (snd (socks_user entry) \<noteq> []) ''password'' (JString (snd (socks_user entry)))
         (jput_if (fst (socks_user entry) \<noteq> []) ''username'' (JString (fst (socks_user entry)))
           (singbox_base entry ''socks'' tag)))"

definition entry_to_outbound_named ::
  "(string \<Rightarrow> yaml option) \<Rightarrow> (yaml \<Rightarrow> string option) \<Rightarrow> ProxyEntry \<Rightarrow> string \<Rightarrow> jmap option" where
  "entry_to_outbound_named yp ypr entry tag =
     (case pe_scheme entry of
        Vless \<Rightarrow> Some (singbox_vless yp ypr entry tag)
      | Vmess \<Rightarrow> Some (singbox_vmess yp ypr entry tag)
      | Trojan \<Rightarrow> Some (singbox_trojan yp ypr entry tag)
      | Ss \<Rightarrow> Some (singbox_ss entry tag)
      | Hysteria2 \<Rightarrow> Some (singbox_hysteria2 yp ypr entry tag)
      | Socks5 \<Rightarrow> Some (singbox_socks5 entry tag)
      | _ \<Rightarrow> None)"

definition entry_to_outbound ::
  "(string \<Rightarrow> yaml option) \<Rightarrow> (yaml \<Rightarrow> string option) \<Rightarrow> ProxyEntry \<Rightarrow> jmap option" where
  "entry_to_outbound yp ypr entry = entry_to_outbound_named yp ypr entry (pe_name entry)"

definition singbox_outbounds ::
  "(string \<Rightarrow> yaml option) \<Rightarrow> (yaml \<Rightarrow> string option) \<Rightarrow> ProxyEntry list \<Rightarrow> jmap list" where
  "singbox_outbounds yp ypr entries =
     (let supported = filter (\<lambda>e. singbox_is_supported (pe_scheme e)) entries;
          tags = dedupe_names (map pe_name supported)
      in List.map_filter (\<lambda>(entry, tag). entry_to_outbound_named yp ypr entry tag) (zip supported tags))"

definition encode_singbox ::
  "(json \<Rightarrow> string option) \<Rightarrow> (string \<Rightarrow> yaml option) \<Rightarrow> (yaml \<Rightarrow> string option) \<Rightarrow> ProxyEntry list \<Rightarrow> string"
where
  "encode_singbox pretty yp ypr entries =
     unwrap_or_default (pretty (JObject (jput ''outbounds''
       (JArray (map JObject (singbox_outbounds yp ypr entries))) [])))"

end
