(* ===== verification/Singbox_Input.thy ===== *)
theory Singbox_Input
  imports Singbox_Output Lines
begin

text \<open>
  The reader of JSON subscriptions, \<open>parsers/singbox.rs\<close>: both dialects, sing-box outbounds and the Xray
  configurations, flattened onto the parameters of the URI lines. A list of parameters that the code pushes
  in order is the concatenation of what each step pushes. The JSON parser and printer are parameters.
\<close>

section \<open>Fields\<close>

definition str_field :: "jmap \<Rightarrow> string \<Rightarrow> string option" where
  "str_field m key =
     (case Option.bind (map_of m key) json_str of
        None \<Rightarrow> None | Some s \<Rightarrow> if s = [] then None else Some s)"

fun as_bool :: "json \<Rightarrow> bool option" where
  "as_bool (JBool b) = Some b"
| "as_bool _ = None"

fun as_array :: "json \<Rightarrow> json list option" where
  "as_array (JArray xs) = Some xs"
| "as_array _ = None"

fun as_u64 :: "json \<Rightarrow> nat option" where
  "as_u64 (JInt n) = (if 0 \<le> n \<and> n < 2 ^ 64 then Some (nat n) else None)"
| "as_u64 _ = None"

definition obj_field :: "jmap \<Rightarrow> string \<Rightarrow> jmap option" where
  "obj_field m key = Option.bind (map_of m key) as_object"

definition bool_field :: "jmap \<Rightarrow> string \<Rightarrow> bool option" where
  "bool_field m key = Option.bind (map_of m key) as_bool"

definition text_field :: "jmap \<Rightarrow> string \<Rightarrow> string option" where
  "text_field m key = Option.bind (map_of m key) json_str"

definition required_str :: "jmap \<Rightarrow> string \<Rightarrow> parse_error + string" where
  "required_str m key = ok_or (Malformed (''missing field '' @ key)) (str_field m key)"

definition port_field :: "jmap \<Rightarrow> string \<Rightarrow> parse_error + u16" where
  "port_field m key =
     (case map_of m key of
        Some (JInt n) \<Rightarrow> if 0 \<le> n \<and> n \<le> 65535 then Inr (of_int n) else Inl (Malformed ''port out of range'')
      | Some (JFloat t) \<Rightarrow> Inl (Malformed ''port out of range'')
      | Some (JString s) \<Rightarrow> ok_or (InvalidPort s) (parse_u16 (trim s))
      | _ \<Rightarrow> Inl (Malformed (''missing field '' @ key)))"

definition xray_truthy :: "jmap \<Rightarrow> string \<Rightarrow> bool" where
  "xray_truthy m key =
     (case map_of m key of
        Some (JBool b) \<Rightarrow> b
      | Some (JString s) \<Rightarrow> to_ascii_lowercase (trim s) \<in> {''true'', ''1''}
      | _ \<Rightarrow> False)"

definition string_or_joined_array :: "json option \<Rightarrow> string option" where
  "string_or_joined_array v =
     (case v of
        Some (JString s) \<Rightarrow> if s = [] then None else Some s
      | Some (JArray items) \<Rightarrow>
          (let joined = join '','' (filter (\<lambda>s. s \<noteq> []) (List.map_filter json_str items)) in
           if joined = [] then None else Some joined)
      | _ \<Rightarrow> None)"

section \<open>Parameters\<close>

text \<open>What \<open>push_param\<close> adds; an empty value adds nothing.\<close>

definition push_param :: "bool \<Rightarrow> string \<Rightarrow> string \<Rightarrow> Param list" where
  "push_param known key val = (if val = [] then [] else [\<lparr>p_key = key, p_value = val, p_known = known\<rparr>])"

definition push_some :: "string \<Rightarrow> string option \<Rightarrow> Param list" where
  "push_some key val = (case val of None \<Rightarrow> [] | Some v \<Rightarrow> push_param True key v)"

definition push_when :: "bool \<Rightarrow> string \<Rightarrow> string \<Rightarrow> Param list" where
  "push_when b key val = (if b then push_param True key val else [])"

definition with_object :: "jmap option \<Rightarrow> (jmap \<Rightarrow> Param list) \<Rightarrow> Param list" where
  "with_object m f = (case m of None \<Rightarrow> [] | Some m \<Rightarrow> f m)"

definition CLIENT_SIDE_FIELDS :: "string list" where
  "CLIENT_SIDE_FIELDS = [''mux'', ''sockopt'']"

fun is_null :: "json \<Rightarrow> bool" where
  "is_null JNull = True"
| "is_null _ = False"

definition pass_fields :: "(json \<Rightarrow> string) \<Rightarrow> string list \<Rightarrow> jmap \<Rightarrow> Param list" where
  "pass_fields jp consumed m =
     concat (map (\<lambda>(key, v).
       if member key consumed \<or> is_null v then []
       else push_param False key (json_to_param_value jp v)) m)"

definition passthrough :: "(json \<Rightarrow> string) \<Rightarrow> jmap \<Rightarrow> string list \<Rightarrow> Param list" where
  "passthrough jp m consumed = pass_fields jp (consumed @ CLIENT_SIDE_FIELDS) m"

definition finish ::
  "Scheme \<Rightarrow> string \<Rightarrow> string \<times> u16 \<Rightarrow> string \<Rightarrow> Param list \<Rightarrow> parse_error + ProxyEntry" where
  "finish scheme name endpoint credential params =
     bind_res (reject_line_breaks ''server'' (fst endpoint)) (\<lambda>_.
     bind_res (reject_line_breaks ''credential'' credential) (\<lambda>_.
     bind_res (check_all (\<lambda>p. reject_line_breaks (p_key p) (p_value p)) params) (\<lambda>_.
     if length params > MAX_QUERY_PARAMS then Inl (QueryTooLong (length params))
     else bind_res (check_all param_too_long params) (\<lambda>_.
       Inr \<lparr>pe_scheme = scheme, pe_name = name, pe_host = fst endpoint, pe_port = snd endpoint,
         pe_credential = credential, pe_params = params, pe_raw_path = [], pe_raw_line = []\<rparr>))))"

section \<open>The sing-box dialect\<close>

definition native_endpoint :: "jmap \<Rightarrow> parse_error + string \<times> u16" where
  "native_endpoint m =
     bind_res (ok_or (Malformed ''missing server'') (str_field m ''server'')) (\<lambda>host.
     bind_res (port_field m ''server_port'') (\<lambda>port. Inr (host, port)))"

text \<open>The security spelling of a scheme: \<open>security=tls\<close>, or \<open>tls=tls\<close> for vmess.\<close>

definition security_param :: "string \<times> string \<Rightarrow> bool \<Rightarrow> Param list" where
  "security_param sec reality_on =
     (if fst sec = ''security'' \<and> reality_on then push_param True ''security'' ''reality''
      else push_param True (fst sec) (snd sec))"

definition reality_params :: "jmap \<Rightarrow> Param list" where
  "reality_params r = push_some ''pbk'' (str_field r ''public_key'') @ push_some ''sid'' (str_field r ''short_id'')"

definition reality_enabled :: "jmap \<Rightarrow> bool" where
  "reality_enabled tls \<longleftrightarrow>
     (case obj_field tls ''reality'' of
        None \<Rightarrow> False
      | Some r \<Rightarrow> str_field r ''public_key'' \<noteq> None \<or> bool_field r ''enabled'' = Some True)"

definition native_tls_params :: "jmap \<Rightarrow> string \<times> string \<Rightarrow> Param list" where
  "native_tls_params tls sec =
     (if bool_field tls ''enabled'' \<noteq> Some True \<and> \<not> reality_enabled tls then []
      else security_param sec (reality_enabled tls)
        @ (if reality_enabled tls then with_object (obj_field tls ''reality'') reality_params else [])
        @ push_some ''sni'' (str_field tls ''server_name'')
        @ push_when (bool_field tls ''insecure'' = Some True) ''insecure'' ''true''
        @ push_some ''alpn'' (string_or_joined_array (map_of tls ''alpn''))
        @ push_some ''fp'' (Option.bind (obj_field tls ''utls'') (\<lambda>u. str_field u ''fingerprint'')))"

definition transport_fields :: "jmap \<Rightarrow> string \<Rightarrow> Param list" where
  "transport_fields t network =
     (if network = ''ws'' then
        push_some ''path'' (str_field t ''path'')
        @ push_some ''host'' (Option.bind (obj_field t ''headers'') (\<lambda>h. text_field h ''Host''))
      else if network = ''httpupgrade'' then
        push_some ''path'' (str_field t ''path'') @ push_some ''host'' (str_field t ''host'')
      else if network = ''grpc'' then push_some ''serviceName'' (str_field t ''service_name'')
      else if network = ''http'' \<or> network = ''h2'' then
        push_some ''host'' (string_or_joined_array (map_of t ''host'')) @ push_some ''path'' (str_field t ''path'')
      else [])"

definition native_transport_params :: "(json \<Rightarrow> string) \<Rightarrow> jmap \<Rightarrow> string \<Rightarrow> Param list" where
  "native_transport_params jp t network_key =
     (case str_field t ''type'' of
        None \<Rightarrow> []
      | Some network \<Rightarrow>
          push_param True network_key network @ transport_fields t network
          @ pass_fields jp [''type'', ''path'', ''host'', ''headers'', ''service_name''] t)"

definition tls_transport :: "(json \<Rightarrow> string) \<Rightarrow> jmap \<Rightarrow> string \<times> string \<Rightarrow> string \<Rightarrow> Param list" where
  "tls_transport jp m sec network_key =
     with_object (obj_field m ''tls'') (\<lambda>tls. native_tls_params tls sec)
     @ with_object (obj_field m ''transport'') (\<lambda>t. native_transport_params jp t network_key)"

definition native_vless :: "(json \<Rightarrow> string) \<Rightarrow> jmap \<Rightarrow> string \<Rightarrow> parse_error + ProxyEntry" where
  "native_vless jp m name =
     bind_res (native_endpoint m) (\<lambda>endpoint.
     bind_res (required_str m ''uuid'') (\<lambda>credential.
     finish Vless name endpoint credential
       (push_some ''flow'' (str_field m ''flow'') @ tls_transport jp m (''security'', ''tls'') ''type''
        @ passthrough jp m [''tag'', ''type'', ''server'', ''server_port'', ''uuid'', ''flow'', ''tls'', ''transport''])))"

definition native_vmess :: "(json \<Rightarrow> string) \<Rightarrow> jmap \<Rightarrow> string \<Rightarrow> parse_error + ProxyEntry" where
  "native_vmess jp m name =
     bind_res (native_endpoint m) (\<lambda>endpoint.
     bind_res (required_str m ''uuid'') (\<lambda>credential.
     finish Vmess name endpoint credential
       (push_some ''scy'' (str_field m ''security'')
        @ push_some ''aid'' (map_option (json_to_param_value jp) (map_of m ''alter_id''))
        @ tls_transport jp m (''tls'', ''tls'') ''net''
        @ passthrough jp m [''tag'', ''type'', ''server'', ''server_port'', ''uuid'', ''security'', ''alter_id'',
            ''tls'', ''transport''])))"

definition native_trojan :: "(json \<Rightarrow> string) \<Rightarrow> jmap \<Rightarrow> string \<Rightarrow> parse_error + ProxyEntry" where
  "native_trojan jp m name =
     bind_res (native_endpoint m) (\<lambda>endpoint.
     bind_res (required_str m ''password'') (\<lambda>credential.
     finish Trojan name endpoint credential
       (tls_transport jp m (''security'', ''tls'') ''type''
        @ passthrough jp m [''tag'', ''type'', ''server'', ''server_port'', ''password'', ''tls'', ''transport''])))"

definition sip003 :: "string \<Rightarrow> string \<Rightarrow> string" where
  "sip003 plugin opts = (if opts = [] then plugin else plugin @ '';'' @ opts)"

definition native_ss :: "(json \<Rightarrow> string) \<Rightarrow> jmap \<Rightarrow> string \<Rightarrow> parse_error + ProxyEntry" where
  "native_ss jp m name =
     bind_res (native_endpoint m) (\<lambda>endpoint.
     bind_res (required_str m ''method'') (\<lambda>meth.
     finish Ss name endpoint (meth @ '':'' @ unwrap_or_default (str_field m ''password''))
       (push_some ''plugin'' (map_option (\<lambda>p. sip003 p (unwrap_or_default (str_field m ''plugin_opts'')))
          (str_field m ''plugin''))
        @ passthrough jp m [''tag'', ''type'', ''server'', ''server_port'', ''method'', ''password'', ''plugin'',
            ''plugin_opts''])))"

definition rate_param :: "jmap \<Rightarrow> string \<Rightarrow> string \<Rightarrow> Param list" where
  "rate_param m key out = push_some out (map_option dec_nat (Option.bind (map_of m key) as_u64))"

definition obfs_params :: "jmap \<Rightarrow> Param list" where
  "obfs_params o' = push_some ''obfs'' (str_field o' ''type'') @ push_some ''obfs-password'' (str_field o' ''password'')"

definition native_hysteria2 :: "(json \<Rightarrow> string) \<Rightarrow> jmap \<Rightarrow> string \<Rightarrow> parse_error + ProxyEntry" where
  "native_hysteria2 jp m name =
     bind_res (native_endpoint m) (\<lambda>endpoint.
     bind_res (required_str m ''password'') (\<lambda>credential.
     finish Hysteria2 name endpoint credential
       (with_object (obj_field m ''tls'') (\<lambda>tls. native_tls_params tls (''security'', ''tls''))
        @ with_object (obj_field m ''obfs'') obfs_params
        @ rate_param m ''up_mbps'' ''upMbps'' @ rate_param m ''down_mbps'' ''downMbps''
        @ passthrough jp m [''tag'', ''type'', ''server'', ''server_port'', ''password'', ''tls'', ''obfs'',
            ''up_mbps'', ''down_mbps''])))"

definition socks_tls :: "jmap \<Rightarrow> Param list" where
  "socks_tls tls =
     (if bool_field tls ''enabled'' \<noteq> Some True then []
      else push_param True ''tls'' ''true'' @ push_some ''sni'' (str_field tls ''server_name'')
        @ push_when (bool_field tls ''insecure'' = Some True) ''insecure'' ''true'')"

definition native_socks :: "(json \<Rightarrow> string) \<Rightarrow> jmap \<Rightarrow> string \<Rightarrow> parse_error + ProxyEntry" where
  "native_socks jp m name =
     bind_res (native_endpoint m) (\<lambda>endpoint.
     finish Socks5 name endpoint
       (unwrap_or_default (str_field m ''username'') @ '':'' @ unwrap_or_default (str_field m ''password''))
       (with_object (obj_field m ''tls'') socks_tls
        @ passthrough jp m [''tag'', ''type'', ''server'', ''server_port'', ''username'', ''password'', ''tls'',
            ''version'']))"

section \<open>The Xray dialect\<close>

definition XRAY_TOP_LEVEL_CONSUMED :: "string list" where
  "XRAY_TOP_LEVEL_CONSUMED = [''tag'', ''protocol'', ''settings'', ''streamSettings'', ''mux'']"

definition objects :: "json list \<Rightarrow> jmap list" where
  "objects items = List.map_filter as_object items"

definition xray_users :: "jmap \<Rightarrow> jmap list" where
  "xray_users m = (case Option.bind (map_of m ''users'') as_array of None \<Rightarrow> [] | Some users \<Rightarrow> objects users)"

definition xray_settings_list :: "jmap \<Rightarrow> string \<Rightarrow> parse_error + jmap list" where
  "xray_settings_list m field =
     (case Option.bind (Option.bind (obj_field m ''settings'') (\<lambda>s. map_of s field)) as_array of
        None \<Rightarrow> Inl (Malformed (''missing settings.'' @ field))
      | Some items \<Rightarrow> Inr (objects items))"

definition xray_endpoint :: "jmap \<Rightarrow> parse_error + string \<times> u16" where
  "xray_endpoint m =
     bind_res (ok_or (Malformed ''missing address'') (str_field m ''address'')) (\<lambda>host.
     bind_res (port_field m ''port'') (\<lambda>port. Inr (host, port)))"

definition xray_tls_params :: "jmap \<Rightarrow> Param list" where
  "xray_tls_params tls =
     push_some ''sni'' (str_field tls ''serverName'') @ push_some ''fp'' (str_field tls ''fingerprint'')
     @ push_some ''alpn'' (string_or_joined_array (map_of tls ''alpn''))
     @ push_when (xray_truthy tls ''allowInsecure'') ''insecure'' ''true''"

definition xray_reality_params :: "jmap \<Rightarrow> Param list" where
  "xray_reality_params r =
     push_some ''sni'' (str_field r ''serverName'') @ push_some ''fp'' (str_field r ''fingerprint'')
     @ push_some ''pbk'' (str_field r ''publicKey'') @ push_some ''sid'' (str_field r ''shortId'')
     @ push_when (xray_truthy r ''allowInsecure'') ''insecure'' ''true''"

definition xray_security_params :: "jmap \<Rightarrow> string \<times> string \<Rightarrow> Param list" where
  "xray_security_params stream sec =
     (if str_field stream ''security'' = Some ''tls'' then
        push_param True (fst sec) (snd sec) @ with_object (obj_field stream ''tlsSettings'') xray_tls_params
      else if str_field stream ''security'' = Some ''reality'' then
        security_param sec True @ with_object (obj_field stream ''realitySettings'') xray_reality_params
      else [])"

definition xhttp_params :: "(json \<Rightarrow> string) \<Rightarrow> jmap \<Rightarrow> Param list" where
  "xhttp_params jp x =
     push_some ''host'' (str_field x ''host'') @ push_some ''path'' (str_field x ''path'')
     @ push_some ''mode'' (str_field x ''mode'')
     @ (case map_of x ''extra'' of
          None \<Rightarrow> [] | Some extra \<Rightarrow> push_param False ''extra'' (json_to_param_value jp extra))"

definition tcp_header_params :: "string \<Rightarrow> jmap \<Rightarrow> Param list" where
  "tcp_header_params network_key header =
     (if str_field header ''type'' \<noteq> Some ''http'' then []
      else push_param True network_key ''tcp'' @ push_param True ''headertype'' ''http''
        @ with_object (obj_field header ''request'') (\<lambda>request.
            push_some ''path'' (string_or_joined_array (map_of request ''path''))
            @ push_some ''host'' (Option.bind (obj_field request ''headers'')
                (\<lambda>h. string_or_joined_array (map_of h ''Host'')))))"

definition xray_network_params :: "(json \<Rightarrow> string) \<Rightarrow> jmap \<Rightarrow> string \<Rightarrow> string \<Rightarrow> Param list" where
  "xray_network_params jp stream network_key network =
     (if network = ''ws'' then
        with_object (obj_field stream ''wsSettings'') (\<lambda>ws. push_some ''path'' (str_field ws ''path'')
          @ push_some ''host'' (Option.bind (obj_field ws ''headers'') (\<lambda>h. string_or_joined_array (map_of h ''Host''))))
      else if network = ''grpc'' then
        with_object (obj_field stream ''grpcSettings'') (\<lambda>g. push_some ''serviceName'' (str_field g ''serviceName''))
      else if network = ''http'' \<or> network = ''h2'' then
        with_object (obj_field stream ''httpSettings'') (\<lambda>h.
          push_some ''host'' (string_or_joined_array (map_of h ''host'')) @ push_some ''path'' (str_field h ''path''))
      else if network = ''httpupgrade'' then
        with_object (obj_field stream ''httpupgradeSettings'') (\<lambda>u.
          push_some ''path'' (str_field u ''path'') @ push_some ''host'' (str_field u ''host''))
      else if network = ''xhttp'' \<or> network = ''splithttp'' then
        with_object (obj_field stream ''xhttpSettings'') (xhttp_params jp)
      else if network = ''tcp'' then
        with_object (Option.bind (obj_field stream ''tcpSettings'') (\<lambda>t. obj_field t ''header''))
          (tcp_header_params network_key)
      else [])"

definition xray_stream_params :: "(json \<Rightarrow> string) \<Rightarrow> string \<Rightarrow> string \<times> string \<Rightarrow> jmap \<Rightarrow> Param list" where
  "xray_stream_params jp network_key sec stream =
     (let network = (case str_field stream ''network'' of Some n \<Rightarrow> n | None \<Rightarrow> ''tcp'') in
      (if network \<noteq> ''tcp'' then push_param True network_key network else [])
      @ xray_security_params stream sec @ xray_network_params jp stream network_key network)"

text \<open>
  The entries of an outbound: each element of the endpoint list gives some, one that is malformed gives
  none, and the outbound fails only when there are elements and no entry at all.
\<close>

fun ok_list :: "'e + 'a \<Rightarrow> 'a list" where
  "ok_list (Inr x) = [x]"
| "ok_list (Inl _) = []"

definition collect_entries ::
  "string \<Rightarrow> (jmap \<Rightarrow> ProxyEntry list) \<Rightarrow> jmap list \<Rightarrow> parse_error + ProxyEntry list" where
  "collect_entries msg f servers =
     (let entries = concat (map f servers) in
      if servers \<noteq> [] \<and> entries = [] then Inl (Malformed msg) else Inr entries)"

definition stream_of :: "(json \<Rightarrow> string) \<Rightarrow> jmap \<Rightarrow> string \<Rightarrow> string \<times> string \<Rightarrow> Param list" where
  "stream_of jp m network_key sec =
     with_object (obj_field m ''streamSettings'') (xray_stream_params jp network_key sec)
     @ passthrough jp m XRAY_TOP_LEVEL_CONSUMED"

definition encryption_param :: "jmap \<Rightarrow> Param list" where
  "encryption_param user =
     (if str_field user ''encryption'' = Some ''none'' then [] else push_some ''encryption'' (str_field user ''encryption''))"

definition per_user :: "(string \<times> u16 \<Rightarrow> jmap \<Rightarrow> string \<Rightarrow> parse_error + ProxyEntry) \<Rightarrow> jmap \<Rightarrow> ProxyEntry list"
where
  "per_user build vnext =
     (case xray_endpoint vnext of
        Inl _ \<Rightarrow> []
      | Inr endpoint \<Rightarrow>
          concat (map (\<lambda>user. case str_field user ''id'' of
            None \<Rightarrow> [] | Some uid \<Rightarrow> ok_list (build endpoint user uid)) (xray_users vnext)))"

definition xray_vless :: "(json \<Rightarrow> string) \<Rightarrow> jmap \<Rightarrow> string \<Rightarrow> parse_error + ProxyEntry list" where
  "xray_vless jp m name =
     bind_res (xray_settings_list m ''vnext'') (collect_entries ''vless vnext without a usable user''
       (per_user (\<lambda>endpoint user uid. finish Vless name endpoint uid
         (push_some ''flow'' (str_field user ''flow'') @ encryption_param user
          @ stream_of jp m ''type'' (''security'', ''tls'')))))"

definition xray_vmess :: "(json \<Rightarrow> string) \<Rightarrow> jmap \<Rightarrow> string \<Rightarrow> parse_error + ProxyEntry list" where
  "xray_vmess jp m name =
     bind_res (xray_settings_list m ''vnext'') (collect_entries ''vmess vnext without a usable user''
       (per_user (\<lambda>endpoint user uid. finish Vmess name endpoint uid
         (push_some ''scy'' (str_field user ''security'')
          @ push_some ''aid'' (map_option (json_to_param_value jp) (map_of user ''alterId''))
          @ encryption_param user @ stream_of jp m ''net'' (''tls'', ''tls'')))))"

definition xray_trojan :: "(json \<Rightarrow> string) \<Rightarrow> jmap \<Rightarrow> string \<Rightarrow> parse_error + ProxyEntry list" where
  "xray_trojan jp m name =
     bind_res (xray_settings_list m ''servers'') (collect_entries ''trojan server without a usable endpoint''
       (\<lambda>server. ok_list
         (bind_res (xray_endpoint server) (\<lambda>endpoint.
          bind_res (required_str server ''password'') (\<lambda>credential.
          finish Trojan name endpoint credential (stream_of jp m ''type'' (''security'', ''tls'')))))))"

definition xray_plugin :: "jmap \<Rightarrow> Param list" where
  "xray_plugin m =
     push_some ''plugin'' (map_option
       (\<lambda>p. sip003 p (unwrap_or_default (Option.bind (obj_field m ''settings'') (\<lambda>s. text_field s ''pluginOpts''))))
       (Option.bind (obj_field m ''settings'') (\<lambda>s. text_field s ''plugin'')))"

definition xray_ss :: "(json \<Rightarrow> string) \<Rightarrow> jmap \<Rightarrow> string \<Rightarrow> parse_error + ProxyEntry list" where
  "xray_ss jp m name =
     bind_res (xray_settings_list m ''servers'') (collect_entries ''shadowsocks server without a usable endpoint''
       (\<lambda>server. ok_list
         (bind_res (xray_endpoint server) (\<lambda>endpoint.
          bind_res (required_str server ''method'') (\<lambda>meth.
          finish Ss name endpoint (meth @ '':'' @ unwrap_or_default (str_field server ''password''))
            (xray_plugin m @ passthrough jp m XRAY_TOP_LEVEL_CONSUMED))))))"

definition socks_credentials :: "jmap \<Rightarrow> (string \<times> string) list" where
  "socks_credentials server =
     (let users = map (\<lambda>user. (unwrap_or_default (str_field user ''user''), unwrap_or_default (str_field user ''pass'')))
        (xray_users server)
      in if users = [] then [([], [])] else users)"

definition socks_endpoint :: "jmap \<Rightarrow> parse_error + string \<times> u16" where
  "socks_endpoint server =
     bind_res (ok_or (Malformed ''missing address'')
       (or_else (str_field server ''address'') (str_field server ''addr''))) (\<lambda>host.
     bind_res (port_field server ''port'') (\<lambda>port. Inr (host, port)))"

definition xray_socks :: "(json \<Rightarrow> string) \<Rightarrow> jmap \<Rightarrow> string \<Rightarrow> parse_error + ProxyEntry list" where
  "xray_socks jp m name =
     bind_res (xray_settings_list m ''servers'') (collect_entries ''socks server without a usable endpoint''
       (\<lambda>server. case socks_endpoint server of
          Inl _ \<Rightarrow> []
        | Inr endpoint \<Rightarrow> concat (map (\<lambda>(user, pass). ok_list
            (finish Socks5 name endpoint (user @ '':'' @ pass) (passthrough jp m XRAY_TOP_LEVEL_CONSUMED)))
            (socks_credentials server))))"

section \<open>Payloads\<close>

definition NON_PROXY_TYPES :: "string list" where
  "NON_PROXY_TYPES = [''direct'', ''block'', ''dns'', ''selector'', ''urltest'', ''freedom'', ''blackhole'', ''loopback'']"

record SingBoxParseResult =
  sb_entries :: "ProxyEntry list"
  sb_unsupported :: nat
  sb_invalid :: nat

definition no_result :: SingBoxParseResult where
  "no_result = \<lparr>sb_entries = [], sb_unsupported = 0, sb_invalid = 0\<rparr>"

definition native_builder ::
  "string \<Rightarrow> ((json \<Rightarrow> string) \<Rightarrow> jmap \<Rightarrow> string \<Rightarrow> parse_error + ProxyEntry) option" where
  "native_builder kind =
     map_of [(''vless'', native_vless), (''vmess'', native_vmess), (''trojan'', native_trojan),
       (''shadowsocks'', native_ss), (''hysteria2'', native_hysteria2), (''socks'', native_socks),
       (''socks5'', native_socks)] kind"

definition xray_builder ::
  "string \<Rightarrow> ((json \<Rightarrow> string) \<Rightarrow> jmap \<Rightarrow> string \<Rightarrow> parse_error + ProxyEntry list) option" where
  "xray_builder kind =
     map_of [(''vless'', xray_vless), (''vmess'', xray_vmess), (''trojan'', xray_trojan),
       (''shadowsocks'', xray_ss), (''socks'', xray_socks)] kind"

definition build_outbound ::
  "(json \<Rightarrow> string) \<Rightarrow> jmap \<Rightarrow> bool \<Rightarrow> string \<Rightarrow> (parse_error + ProxyEntry list) option" where
  "build_outbound jp m native kind =
     (let name = unwrap_or_default (text_field m ''tag'') in
      if native then
        map_option (\<lambda>b. bind_res (b jp m name) (\<lambda>entry. Inr [entry])) (native_builder kind)
      else map_option (\<lambda>b. b jp m name) (xray_builder kind))"

definition dialect :: "jmap \<Rightarrow> (bool \<times> string) option" where
  "dialect m =
     (case text_field m ''type'' of
        Some kind \<Rightarrow> Some (True, kind)
      | None \<Rightarrow> map_option (\<lambda>kind. (False, kind)) (text_field m ''protocol''))"

definition parse_outbound :: "(json \<Rightarrow> string) \<Rightarrow> json \<Rightarrow> SingBoxParseResult \<Rightarrow> SingBoxParseResult" where
  "parse_outbound jp outbound result =
     (case Option.bind (as_object outbound) (\<lambda>m. map_option (Pair m) (dialect m)) of
        None \<Rightarrow> result\<lparr>sb_invalid := sb_invalid result + 1\<rparr>
      | Some (m, native, kind) \<Rightarrow>
          if member kind NON_PROXY_TYPES then result
          else (case build_outbound jp m native kind of
              None \<Rightarrow> result\<lparr>sb_unsupported := sb_unsupported result + 1\<rparr>
            | Some (Inl _) \<Rightarrow> result\<lparr>sb_invalid := sb_invalid result + 1\<rparr>
            | Some (Inr entries) \<Rightarrow> result\<lparr>sb_entries := sb_entries result @ entries\<rparr>))"

definition outbounds_of :: "jmap \<Rightarrow> json list option" where
  "outbounds_of config = Option.bind (map_of config ''outbounds'') as_array"

definition harvest :: "(json \<Rightarrow> string) \<Rightarrow> jmap \<Rightarrow> SingBoxParseResult \<Rightarrow> bool \<times> SingBoxParseResult" where
  "harvest jp config result =
     (case outbounds_of config of
        None \<Rightarrow> (False, result)
      | Some outbounds \<Rightarrow> (True, foldl (\<lambda>r o'. parse_outbound jp o' r) result outbounds))"

fun harvest_all :: "(json \<Rightarrow> string) \<Rightarrow> json list \<Rightarrow> bool \<Rightarrow> SingBoxParseResult \<Rightarrow> bool \<times> SingBoxParseResult"
where
  "harvest_all jp [] found result = (found, result)"
| "harvest_all jp (config # configs) found result =
     (case as_object config of
        None \<Rightarrow> harvest_all jp configs found result
      | Some m \<Rightarrow> (let (hit, r) = harvest jp m result in harvest_all jp configs (found \<or> hit) r))"

definition singbox_parse_payload ::
  "(string \<Rightarrow> json option) \<Rightarrow> (json \<Rightarrow> string) \<Rightarrow> string \<Rightarrow> parse_error + SingBoxParseResult" where
  "singbox_parse_payload jparse jp payload =
     bind_res (ok_or (Malformed ''invalid JSON'') (jparse payload)) (\<lambda>root.
     bind_res (case root of
         JObject config \<Rightarrow> Inr (harvest jp config no_result)
       | JArray configs \<Rightarrow> Inr (harvest_all jp configs False no_result)
       | _ \<Rightarrow> Inl (Malformed ''neither an object nor an array'')) (\<lambda>(found, result).
     if found then Inr result else Inl (Malformed ''no outbounds array'')))"

end
