(* ===== verification/Clash_Input.thy ===== *)
theory Clash_Input
  imports Singbox_Input
begin

text \<open>
  The reader of Clash subscriptions, \<open>parsers/clash.rs\<close>, and the payload level of \<open>parsers/mod.rs\<close>:
  the transport encoding, the detection of the format and \<open>parse_subscription\<close>.
\<close>

section \<open>Item types\<close>

record ClashTypeSpec =
  ct_scheme :: Scheme
  ct_credential_fields :: "string list"
  ct_optional_credential_fields :: bool
  ct_known_fields :: "string list"

definition CLASH_SS_SPEC :: ClashTypeSpec where
  "CLASH_SS_SPEC = \<lparr>ct_scheme = Ss, ct_credential_fields = [''cipher'', ''password''],
     ct_optional_credential_fields = False, ct_known_fields = [''udp'', ''plugin'', ''plugin-opts'']\<rparr>"

definition CLASH_TROJAN_SPEC :: ClashTypeSpec where
  "CLASH_TROJAN_SPEC = \<lparr>ct_scheme = Trojan, ct_credential_fields = [''password''],
     ct_optional_credential_fields = False,
     ct_known_fields = [''sni'', ''skip-cert-verify'', ''alpn'', ''network'', ''ws-path'', ''ws-headers'',
       ''fingerprint'', ''udp'']\<rparr>"

definition CLASH_VMESS_SPEC :: ClashTypeSpec where
  "CLASH_VMESS_SPEC = \<lparr>ct_scheme = Vmess, ct_credential_fields = [''uuid''],
     ct_optional_credential_fields = False,
     ct_known_fields = [''alterid'', ''cipher'', ''tls'', ''skip-cert-verify'', ''servername'', ''network'',
       ''ws-path'', ''ws-headers'', ''ws-opts'', ''h2-opts'', ''http-opts'', ''grpc-service-name'',
       ''fingerprint'', ''client-fingerprint'', ''udp'']\<rparr>"

definition CLASH_HYSTERIA2_SPEC :: ClashTypeSpec where
  "CLASH_HYSTERIA2_SPEC = \<lparr>ct_scheme = Hysteria2, ct_credential_fields = [''password''],
     ct_optional_credential_fields = False,
     ct_known_fields = [''sni'', ''skip-cert-verify'', ''alpn'', ''obfs'', ''obfs-password'', ''fingerprint'',
       ''ports'']\<rparr>"

definition CLASH_VLESS_SPEC :: ClashTypeSpec where
  "CLASH_VLESS_SPEC = \<lparr>ct_scheme = Vless, ct_credential_fields = [''uuid''],
     ct_optional_credential_fields = False,
     ct_known_fields = [''tls'', ''skip-cert-verify'', ''servername'', ''network'', ''ws-path'', ''ws-headers'',
       ''ws-opts'', ''flow'', ''reality-opts'', ''client-fingerprint'', ''fingerprint'', ''alpn'', ''udp'']\<rparr>"

definition CLASH_SOCKS5_SPEC :: ClashTypeSpec where
  "CLASH_SOCKS5_SPEC = \<lparr>ct_scheme = Socks5, ct_credential_fields = [''username'', ''password''],
     ct_optional_credential_fields = True, ct_known_fields = [''udp'']\<rparr>"

definition CLASH_SNELL_SPEC :: ClashTypeSpec where
  "CLASH_SNELL_SPEC = \<lparr>ct_scheme = Snell, ct_credential_fields = [''psk''],
     ct_optional_credential_fields = False,
     ct_known_fields = [''version'', ''mode'', ''reuse'', ''udp'', ''obfs'', ''obfs-host'', ''obfs-opts'']\<rparr>"

definition CLASH_ANYTLS_SPEC :: ClashTypeSpec where
  "CLASH_ANYTLS_SPEC = \<lparr>ct_scheme = AnyTls, ct_credential_fields = [''password''],
     ct_optional_credential_fields = False,
     ct_known_fields = [''sni'', ''udp'', ''skip-cert-verify'', ''insecure'']\<rparr>"

definition clash_type_spec :: "string \<Rightarrow> ClashTypeSpec option" where
  "clash_type_spec type_name =
     map_of [(''ss'', CLASH_SS_SPEC), (''trojan'', CLASH_TROJAN_SPEC), (''vmess'', CLASH_VMESS_SPEC),
       (''hysteria2'', CLASH_HYSTERIA2_SPEC), (''vless'', CLASH_VLESS_SPEC), (''socks5'', CLASH_SOCKS5_SPEC),
       (''snell'', CLASH_SNELL_SPEC), (''anytls'', CLASH_ANYTLS_SPEC)] type_name"

definition STRUCTURAL_FIELDS :: "string list" where
  "STRUCTURAL_FIELDS = [''name'', ''type'', ''server'', ''port'']"

section \<open>One item\<close>

definition yaml_field :: "ymapping \<Rightarrow> string \<Rightarrow> parse_error + string" where
  "yaml_field m key = ok_or (Malformed (''missing field '' @ key)) (Option.bind (yget m key) yaml_str)"

definition yaml_port :: "ymapping \<Rightarrow> string \<Rightarrow> parse_error + u16" where
  "yaml_port m key =
     (case yget m key of
        Some (YInt n) \<Rightarrow> if 0 \<le> n \<and> n \<le> 65535 then Inr (of_int n) else Inl (Malformed ''port out of range'')
      | Some (YFloat t) \<Rightarrow> Inl (Malformed ''port out of range'')
      | Some (YString s) \<Rightarrow> ok_or (InvalidPort s) (parse_u16 (trim s))
      | _ \<Rightarrow> Inl (Malformed (''missing field '' @ key)))"

fun yaml_to_string :: "(yaml \<Rightarrow> string option) \<Rightarrow> yaml \<Rightarrow> string" where
  "yaml_to_string ypr (YString s) = s"
| "yaml_to_string ypr (YInt n) = dec_int n"
| "yaml_to_string ypr (YFloat t) = t"
| "yaml_to_string ypr (YBool b) = bool_text b"
| "yaml_to_string ypr YNull = []"
| "yaml_to_string ypr other = trim (unwrap_or_default (ypr other))"

definition joined_credential :: "bool \<Rightarrow> string option list \<Rightarrow> string" where
  "joined_credential optional parts =
     (if list_all (\<lambda>f. f = None) parts then []
      else join '':'' (map unwrap_or_default
        (if optional then parts else dropWhile (\<lambda>f. f = None) parts)))"

definition key_text :: "yaml \<Rightarrow> string" where
  "key_text key = unwrap_or_default (yaml_str key)"

definition clash_params :: "(yaml \<Rightarrow> string option) \<Rightarrow> ClashTypeSpec \<Rightarrow> ymapping \<Rightarrow> Param list" where
  "clash_params ypr spec m =
     map (\<lambda>(key, v). \<lparr>p_key = key_text key, p_value = yaml_to_string ypr v,
         p_known = member (to_ascii_lowercase (key_text key)) (ct_known_fields spec)\<rparr>)
       (filter (\<lambda>(key, _). \<not> member (key_text key) STRUCTURAL_FIELDS \<and>
          \<not> member (key_text key) (ct_credential_fields spec)) m)"

definition clash_entry ::
  "(yaml \<Rightarrow> string option) \<Rightarrow> ClashTypeSpec \<Rightarrow> ymapping \<Rightarrow> parse_error + ProxyEntry" where
  "clash_entry ypr spec m =
     bind_res (yaml_field m ''server'') (\<lambda>host.
     bind_res (yaml_port m ''port'') (\<lambda>port.
     let name = unwrap_or_default (Option.bind (yget m ''name'') yaml_str);
         credential = joined_credential (ct_optional_credential_fields spec)
           (map (\<lambda>field. map_option (yaml_to_string ypr) (yget m field)) (ct_credential_fields spec));
         params = clash_params ypr spec m in
     bind_res (reject_line_breaks ''server'' host) (\<lambda>_.
     bind_res (reject_line_breaks ''credential'' credential) (\<lambda>_.
     if length params > MAX_QUERY_PARAMS then Inl (QueryTooLong (length params))
     else bind_res (check_all param_too_long params) (\<lambda>_.
       Inr \<lparr>pe_scheme = ct_scheme spec, pe_name = name, pe_host = host, pe_port = port,
         pe_credential = credential, pe_params = params, pe_raw_path = [], pe_raw_line = []\<rparr>)))))"

definition parse_item :: "(yaml \<Rightarrow> string option) \<Rightarrow> yaml \<Rightarrow> parse_error + ProxyEntry option" where
  "parse_item ypr item =
     bind_res (ok_or (Malformed ''not a mapping'') (as_mapping item)) (\<lambda>m.
     bind_res (yaml_field m ''type'') (\<lambda>type_name.
     case clash_type_spec type_name of
       None \<Rightarrow> Inr None
     | Some spec \<Rightarrow> bind_res (clash_entry ypr spec m) (\<lambda>entry. Inr (Some entry))))"

record ClashParseResult =
  cl_entries :: "ProxyEntry list"
  cl_unsupported :: nat
  cl_invalid :: nat

definition clash_item_result ::
  "(yaml \<Rightarrow> string option) \<Rightarrow> yaml \<Rightarrow> ClashParseResult \<Rightarrow> ClashParseResult" where
  "clash_item_result ypr item result =
     (case parse_item ypr item of
        Inr (Some entry) \<Rightarrow> result\<lparr>cl_entries := cl_entries result @ [entry]\<rparr>
      | Inr None \<Rightarrow> result\<lparr>cl_unsupported := cl_unsupported result + 1\<rparr>
      | Inl _ \<Rightarrow> result\<lparr>cl_invalid := cl_invalid result + 1\<rparr>)"

definition proxies_of :: "yaml \<Rightarrow> yaml list option" where
  "proxies_of root = Option.bind (Option.bind (as_mapping root) (\<lambda>m. yget m ''proxies'')) yaml_sequence"

definition clash_parse_payload ::
  "(string \<Rightarrow> yaml option) \<Rightarrow> (yaml \<Rightarrow> string option) \<Rightarrow> string \<Rightarrow> parse_error + ClashParseResult" where
  "clash_parse_payload yp ypr payload =
     (if \<not> is_ok (reject_yaml_aliases payload) then Inl (Malformed ''YAML alias reference'')
      else bind_res (ok_or (Malformed ''invalid YAML'') (yp payload)) (\<lambda>root.
        bind_res (ok_or (Malformed ''no proxies list'') (proxies_of root)) (\<lambda>items.
          Inr (foldl (\<lambda>r item. clash_item_result ypr item r)
            \<lparr>cl_entries = [], cl_unsupported = 0, cl_invalid = 0\<rparr> items))))"

section \<open>A subscription\<close>

record ParsedSubscription =
  ps_entries :: "ProxyEntry list"
  ps_discarded :: nat
  ps_unrecognized :: nat
  ps_clash_skipped :: nat
  ps_format :: InputFormat

text \<open>\<open>split_whitespace().collect()\<close>: the text without its white space characters.\<close>

function strip_all_ws :: "string \<Rightarrow> string" where
  "strip_all_ws s =
     (case s of [] \<Rightarrow> []
      | c # r \<Rightarrow> (case first_strip ws_codes s of Some t \<Rightarrow> strip_all_ws t | None \<Rightarrow> c # strip_all_ws r))"
  by pat_completeness auto
termination
  by (relation "measure length") (auto dest: first_strip_shorter)

declare strip_all_ws.simps [simp del]

definition decode_base64_text :: "codecs \<Rightarrow> string \<Rightarrow> string option" where
  "decode_base64_text co input =
     Option.bind (Option.bind (decode_b64_lenient (b64_decode co) (strip_all_ws input)) from_utf8)
       (\<lambda>text. if trim text \<noteq> [] then Some text else None)"

definition json_head :: "string \<Rightarrow> bool" where
  "json_head s \<longleftrightarrow> prefix ''{'' s \<or> prefix ''['' s"

definition looks_like_subscription :: "string \<Rightarrow> bool" where
  "looks_like_subscription decoded \<longleftrightarrow>
     contains_str ''://'' decoded \<or> contains_str ''proxies:'' decoded \<or> json_head (trim_start decoded)"

definition auto_decoded :: "codecs \<Rightarrow> string \<Rightarrow> string option" where
  "auto_decoded co payload =
     (if trim payload = [] \<or> contains_str ''://'' (trim payload) then None
      else case decode_base64_text co (trim payload) of
        None \<Rightarrow> None
      | Some decoded \<Rightarrow> if looks_like_subscription decoded then Some decoded else None)"

definition decode_payload :: "codecs \<Rightarrow> string \<Rightarrow> Encoding \<Rightarrow> parse_error + string" where
  "decode_payload co payload encoding =
     (case encoding of
        PlainEncoding \<Rightarrow> Inr payload
      | Base64Encoding \<Rightarrow> ok_or (Malformed ''payload is not valid base64'') (decode_base64_text co payload)
      | AutoEncoding \<Rightarrow> Inr (case auto_decoded co payload of Some decoded \<Rightarrow> decoded | None \<Rightarrow> payload))"

definition has_proxies_key :: "string \<Rightarrow> bool" where
  "has_proxies_key text \<longleftrightarrow>
     prefix ''proxies:'' (trim_start text) \<or> contains_str (LF # ''proxies:'') text \<or>
     contains_str (CR # LF # ''proxies:'') text"

definition detect_format :: "string \<Rightarrow> InputFormat" where
  "detect_format text =
     (if json_head (trim_start text) then SingBoxJson
      else if has_proxies_key text then ClashYaml
      else UriListInput)"

definition uri_list_line :: "codecs \<Rightarrow> ParsedSubscription \<Rightarrow> string \<Rightarrow> ParsedSubscription" where
  "uri_list_line co result raw =
     (let line = trim raw in
      if line = [] \<or> prefix ''#'' line then result
      else case parse_line co line of
        Parsed entry \<Rightarrow> result\<lparr>ps_entries := ps_entries result @ [entry]\<rparr>
      | Discarded \<Rightarrow> result\<lparr>ps_discarded := ps_discarded result + 1\<rparr>
      | Unrecognized \<Rightarrow> result\<lparr>ps_unrecognized := ps_unrecognized result + 1\<rparr>)"

definition empty_subscription :: "InputFormat \<Rightarrow> ParsedSubscription" where
  "empty_subscription fmt = \<lparr>ps_entries = [], ps_discarded = 0, ps_unrecognized = 0, ps_clash_skipped = 0,
     ps_format = fmt\<rparr>"

definition parse_uri_list :: "codecs \<Rightarrow> string \<Rightarrow> InputFormat \<Rightarrow> parse_error + ParsedSubscription" where
  "parse_uri_list co text fmt = Inr (foldl (uri_list_line co) (empty_subscription fmt) (lines_of text))"

definition parse_clash_payload :: "codecs \<Rightarrow> string \<Rightarrow> parse_error + ParsedSubscription" where
  "parse_clash_payload co text =
     bind_res (clash_parse_payload (yaml_parse co) (yaml_print co) text) (\<lambda>r.
       Inr ((empty_subscription ClashYaml)\<lparr>ps_entries := cl_entries r,
         ps_clash_skipped := cl_unsupported r + cl_invalid r\<rparr>))"

definition parse_singbox_payload :: "codecs \<Rightarrow> string \<Rightarrow> parse_error + ParsedSubscription" where
  "parse_singbox_payload co text =
     bind_res (singbox_parse_payload (json_parse co) (json_print co) text) (\<lambda>r.
       Inr ((empty_subscription SingBoxJson)\<lparr>ps_entries := sb_entries r,
         ps_clash_skipped := sb_unsupported r + sb_invalid r\<rparr>))"

definition parse_subscription ::
  "codecs \<Rightarrow> string \<Rightarrow> Encoding \<Rightarrow> InputFormat option \<Rightarrow> parse_error + ParsedSubscription" where
  "parse_subscription co payload encoding input_format =
     bind_res (decode_payload co payload encoding) (\<lambda>text.
     case (case input_format of Some pinned \<Rightarrow> pinned | None \<Rightarrow> detect_format text) of
       UriListInput \<Rightarrow> parse_uri_list co text UriListInput
     | ClashYaml \<Rightarrow> parse_clash_payload co text
     | SingBoxJson \<Rightarrow> parse_singbox_payload co text)"

end
