(* ===== verification/Input_Properties.thy ===== *)
theory Input_Properties
  imports Clash_Input Uri_Properties
begin

text \<open>
  What holds of every subscription payload, whatever its format: the caps of the stored entries, the
  absence of line feeds, and the accounting of log-and-skip.
\<close>

section \<open>The caps of an entry\<close>

definition param_capped :: "Param \<Rightarrow> bool" where
  "param_capped p \<longleftrightarrow> length (p_key p) \<le> MAX_PARAM_BYTES \<and> length (p_value p) \<le> MAX_PARAM_BYTES"

text \<open>The naive reader adds its transport to the parameters of the query.\<close>

definition entry_capped :: "ProxyEntry \<Rightarrow> bool" where
  "entry_capped e \<longleftrightarrow>
     length (pe_params e) \<le> MAX_QUERY_PARAMS + (if pe_scheme e = Naive then 1 else 0) \<and>
     list_all param_capped (pe_params e) \<and> LF \<notin> set (pe_host e) \<and> LF \<notin> set (pe_credential e)"

text \<open>A structured document can hold any text, so its readers check for both line breaks.\<close>

definition one_line :: "string \<Rightarrow> bool" where
  "one_line s \<longleftrightarrow> LF \<notin> set s \<and> CR \<notin> set s"

definition document_entry :: "ProxyEntry \<Rightarrow> bool" where
  "document_entry e \<longleftrightarrow> entry_capped e \<and> one_line (pe_host e) \<and> one_line (pe_credential e)"

definition outbound_entry :: "ProxyEntry \<Rightarrow> bool" where
  "outbound_entry e \<longleftrightarrow> document_entry e \<and> list_all (\<lambda>p. one_line (p_value p)) (pe_params e)"

definition format_capped :: "InputFormat \<Rightarrow> ProxyEntry \<Rightarrow> bool" where
  "format_capped fmt e =
     (case fmt of UriListInput \<Rightarrow> entry_capped e | ClashYaml \<Rightarrow> document_entry e | SingBoxJson \<Rightarrow> outbound_entry e)"

lemma format_capped_simps:
  "format_capped UriListInput = entry_capped" "format_capped ClashYaml = document_entry"
  "format_capped SingBoxJson = outbound_entry"
  by (simp_all add: fun_eq_iff format_capped_def)

lemma check_all_Inr [simp]: "check_all f ps = Inr () \<longleftrightarrow> list_all (\<lambda>p. f p = Inr ()) ps"
  by (induction ps) (auto simp: bind_res_Inr)

lemma param_too_long_Inr [simp]: "param_too_long p = Inr () \<longleftrightarrow> param_capped p"
  by (auto simp: param_too_long_def param_capped_def)

lemma reject_line_breaks_Inr [simp]: "reject_line_breaks f s = Inr () \<longleftrightarrow> LF \<notin> set s \<and> CR \<notin> set s"
  by (simp add: reject_line_breaks_def)

lemma check_param_size_Inr: "check_param_size k v = Inr () \<longleftrightarrow> param_capped \<lparr>p_key = k, p_value = v, p_known = b\<rparr>"
  by (auto simp: check_param_size_def param_capped_def)

lemma parse_pairs_capped: "parse_pairs segs = Inr ps \<Longrightarrow> list_all param_capped ps \<and> length ps = length segs"
proof (induction segs arbitrary: ps)
  case (Cons s segs)
  obtain k v where kv: "split_pair s = (k, v)" by force
  from Cons.prems obtain qs where "check_param_size k v = Inr ()" "parse_pairs segs = Inr qs"
    "ps = \<lparr>p_key = k, p_value = v, p_known = False\<rparr> # qs"
    by (auto simp: kv split: sum.splits)
  then show ?case using Cons.IH check_param_size_Inr by simp
qed simp

lemma parse_query_capped: "parse_query q = Inr ps \<Longrightarrow> list_all param_capped ps \<and> length ps \<le> MAX_QUERY_PARAMS"
  by (auto simp: parse_query_def Let_def dest: parse_pairs_capped split: if_splits)

lemma mark_known_capped: "list_all param_capped (mark_known ps ks) = list_all param_capped ps"
  by (simp add: mark_known_def list_all_iff param_capped_def)

lemma length_mark_known [simp]: "length (mark_known ps ks) = length ps"
  by (simp add: mark_known_def)

section \<open>Lines\<close>

lemma spec_capped:
  assumes "parse_with_spec spec rest raw = Inr e"
  shows "length (pe_params e) \<le> MAX_QUERY_PARAMS" "list_all param_capped (pe_params e)"
proof -
  obtain ps where ps: "pe_params e = mark_known ps (us_known_keys spec)" "ps = [] \<or> (\<exists>q. parse_query q = Inr ps)"
    using parsed_shape(1) [OF assms] by (auto simp: uri_shape_def)
  have "list_all param_capped ps \<and> length ps \<le> MAX_QUERY_PARAMS"
    using ps(2) parse_query_capped by auto
  then show "length (pe_params e) \<le> MAX_QUERY_PARAMS" "list_all param_capped (pe_params e)"
    by (simp_all add: ps(1) mark_known_capped)
qed

lemma spec_entry_capped:
  assumes "parse_with_spec spec rest raw = Inr e" "LF \<notin> set rest"
  shows "entry_capped e"
  using spec_capped [OF assms(1)] parsed_shape(4) [OF assms(1)] assms(2) by (auto simp: entry_capped_def)

lemma naive_entry_capped:
  assumes "parse_naive tr rest raw = Parsed e" "LF \<notin> set rest"
  shows "entry_capped e"
proof -
  obtain e0 where tr: "tr = ''https'' \<or> tr = ''quic''" and e0: "parse_with_spec NAIVE_SPEC rest raw = Inr e0"
    and e: "e = e0\<lparr>pe_params := \<lparr>p_key = ''naive_transport'', p_value = tr, p_known = True\<rparr> # pe_params e0\<rparr>"
    using assms(1) by (auto simp: parse_naive_def split: if_splits sum.splits)
  have "param_capped \<lparr>p_key = ''naive_transport'', p_value = tr, p_known = True\<rparr>"
    using tr by (auto simp: param_capped_def MAX_PARAM_BYTES_def)
  moreover have "pe_scheme e0 = Naive" using parsed_shape(2) [OF e0] by (simp add: NAIVE_SPEC_def)
  ultimately show ?thesis using spec_capped [OF e0] parsed_shape(4) [OF e0] assms(2)
    by (auto simp: e entry_capped_def)
qed

lemma optional_query_capped:
  "optional_query q = Inr ps \<Longrightarrow> list_all param_capped ps \<and> length ps \<le> MAX_QUERY_PARAMS"
  by (auto simp: optional_query_def dest: parse_query_capped split: option.splits)

lemma parse_sip002_unbroken:
  "parse_sip002 d bq = Inr (cred, ho, port, path) \<Longrightarrow> LF \<notin> set bq \<Longrightarrow> LF \<notin> set cred \<and> LF \<notin> set ho"
  by (auto simp: parse_sip002_def bind_res_Inr ok_or_def split_path_def Let_def split_once_Some rsplit_once_Some
      dest!: parse_hostport_host(2) split: if_splits option.splits)

lemma parse_legacy_unbroken:
  "parse_legacy d bq = Inr (cred, ho, port, path) \<Longrightarrow> LF \<notin> set cred \<and> LF \<notin> set ho"
  by (auto simp: parse_legacy_def bind_res_Inr split: if_splits)

lemma ss_entry_capped:
  assumes "ss_parse d rest raw = Inr e" "LF \<notin> set rest"
  shows "entry_capped e"
proof -
  obtain bf fr where 1: "split_at_char (CHR ''#'') rest = (bf, fr)" by force
  obtain bq q where 2: "split_at_char (CHR ''?'') bf = (bq, q)" by force
  have "LF \<notin> set bq" using split_at_char_parts [OF 1] split_at_char_parts [OF 2] assms(2) by auto
  then have *: "entry_capped \<lparr>pe_scheme = Ss, pe_name = n, pe_host = ho, pe_port = port, pe_credential = cred,
      pe_params = mark_known ps [], pe_raw_path = path, pe_raw_line = raw\<rparr>"
    if "(if CHR ''@'' \<in> set bq then parse_sip002 d bq else parse_legacy d bq) = Inr (cred, ho, port, path)"
      "optional_query q = Inr ps" for n cred ho port path ps
    using that optional_query_capped parse_sip002_unbroken [of d bq] parse_legacy_unbroken [of d bq]
    by (auto simp: entry_capped_def mark_known_capped split: if_splits)
  show ?thesis using assms(1)
    by (auto simp: ss_parse_def split_fragment_def split_query_def 1 2 Let_def bind_res_Inr intro!: *
        simp del: if_split_asm)
qed

lemma vmess_entry_capped: "vmess_entry jp obj raw = Inr e \<Longrightarrow> entry_capped e"
  by (auto simp: vmess_entry_def Let_def bind_res_Inr entry_capped_def split: if_splits)

lemma vmess_parse_capped: "vmess_parse d jparse jp rest raw = Inr e \<Longrightarrow> entry_capped e"
  by (auto simp: vmess_parse_def Let_def bind_res_Inr dest: vmess_entry_capped split: prod.splits if_splits)

lemma split_once_str_rest: "split_once_str p s = Some (a, b) \<Longrightarrow> set b \<subseteq> set s"
  by (induction s arbitrary: a) (auto split: if_splits dest: in_set_dropD)

lemma parsed_Parsed [simp]: "parsed r = Parsed e \<longleftrightarrow> r = Inr e"
  by (cases r) auto

lemma parse_scheme_capped:
  assumes "parse_scheme co sch rest line = Parsed e" "LF \<notin> set rest"
  shows "entry_capped e"
  using assms
  by (auto simp: parse_scheme_def intro: spec_entry_capped ss_entry_capped vmess_parse_capped naive_entry_capped
      split: option.splits if_splits)

lemma parse_line_capped:
  assumes "parse_line co raw = Parsed e" "LF \<notin> set raw"
  shows "entry_capped e"
  using assms set_trim [of raw]
  by (auto simp: parse_line_def Let_def intro: parse_scheme_capped dest!: split_once_str_rest
      split: option.splits if_splits)

section \<open>Structured documents\<close>

text \<open>Every builder of \<open>singbox.rs\<close> ends in \<open>finish\<close>, which is where the caps are enforced.\<close>

lemma finish_capped: "finish sch name ep cred ps = Inr e \<Longrightarrow> outbound_entry e"
  by (auto simp: finish_def bind_res_Inr outbound_entry_def document_entry_def one_line_def entry_capped_def split: if_splits)

lemma ok_list_mem [simp]: "x \<in> set (ok_list r) \<longleftrightarrow> r = Inr x"
  by (cases r) auto

lemma collect_entries_mem:
  "collect_entries msg f servers = Inr es \<Longrightarrow> e \<in> set es \<Longrightarrow> \<exists>s \<in> set servers. e \<in> set (f s)"
  by (auto simp: collect_entries_def Let_def split: if_splits)

lemma per_user_mem:
  "e \<in> set (per_user build vnext) \<Longrightarrow> \<exists>endpoint user uid. build endpoint user uid = Inr e"
  by (auto simp: per_user_def split: sum.splits option.splits)

lemma native_capped: "native_builder kind = Some b \<Longrightarrow> b jp m name = Inr e \<Longrightarrow> outbound_entry e"
  by (auto simp: native_builder_def native_vless_def native_vmess_def native_trojan_def native_ss_def
      native_hysteria2_def native_socks_def bind_res_Inr dest: finish_capped split: if_splits)

lemma xray_users_capped:
  "xray_vless jp m name = Inr es \<Longrightarrow> e \<in> set es \<Longrightarrow> outbound_entry e"
  "xray_vmess jp m name = Inr es \<Longrightarrow> e \<in> set es \<Longrightarrow> outbound_entry e"
  by (auto simp: xray_vless_def xray_vmess_def bind_res_Inr dest!: collect_entries_mem per_user_mem
      dest: finish_capped)

lemma xray_servers_capped:
  "xray_trojan jp m name = Inr es \<Longrightarrow> e \<in> set es \<Longrightarrow> outbound_entry e"
  "xray_ss jp m name = Inr es \<Longrightarrow> e \<in> set es \<Longrightarrow> outbound_entry e"
  "xray_socks jp m name = Inr es \<Longrightarrow> e \<in> set es \<Longrightarrow> outbound_entry e"
  by (auto simp: xray_trojan_def xray_ss_def xray_socks_def bind_res_Inr dest!: collect_entries_mem
      dest: finish_capped split: sum.splits)

lemma xray_capped: "xray_builder kind = Some b \<Longrightarrow> b jp m name = Inr es \<Longrightarrow> e \<in> set es \<Longrightarrow> outbound_entry e"
  by (auto simp: xray_builder_def dest: xray_users_capped xray_servers_capped split: if_splits)

lemma build_outbound_capped:
  "build_outbound jp m native kind = Some (Inr es) \<Longrightarrow> list_all outbound_entry es"
  by (auto simp: build_outbound_def Let_def bind_res_Inr list_all_iff dest: native_capped xray_capped
      split: if_splits)

lemma parse_outbound_capped:
  "list_all outbound_entry (sb_entries r) \<Longrightarrow> list_all outbound_entry (sb_entries (parse_outbound jp o' r))"
  by (auto simp: parse_outbound_def dest: build_outbound_capped split: option.split sum.split)

lemma foldl_keeps: "P r \<Longrightarrow> (\<And>r x. P r \<Longrightarrow> P (f r x)) \<Longrightarrow> P (foldl f r xs)"
  by (induction xs arbitrary: r) auto

lemma harvest_capped:
  "list_all outbound_entry (sb_entries r) \<Longrightarrow> list_all outbound_entry (sb_entries (snd (harvest jp config r)))"
  by (auto simp: harvest_def split: option.split
      intro: foldl_keeps [where P = "\<lambda>r. list_all outbound_entry (sb_entries r)"] parse_outbound_capped)

lemma harvest_all_capped:
  "list_all outbound_entry (sb_entries r) \<Longrightarrow>
   list_all outbound_entry (sb_entries (snd (harvest_all jp configs found r)))"
proof (induction configs arbitrary: found r)
  case (Cons config configs)
  then show ?case using harvest_capped [OF Cons.prems]
    by (auto split: option.split prod.split simp: Let_def dest: sym) (metis Cons.IH snd_conv)
qed simp

lemma singbox_payload_capped:
  assumes "singbox_parse_payload jparse jp payload = Inr r"
  shows "list_all outbound_entry (sb_entries r)"
proof -
  have "list_all outbound_entry (sb_entries no_result)" by (simp add: no_result_def)
  then have "list_all outbound_entry (sb_entries (snd (harvest jp c no_result)))"
    "list_all outbound_entry (sb_entries (snd (harvest_all jp cs False no_result)))" for c cs
    by (auto intro: harvest_capped harvest_all_capped)
  note kept = this
  obtain root fr where "jparse payload = Some root" and fr: "(case root of
         JObject config \<Rightarrow> Inr (harvest jp config no_result)
       | JArray configs \<Rightarrow> Inr (harvest_all jp configs False no_result)
       | _ \<Rightarrow> Inl (Malformed ''neither an object nor an array'')) = Inr fr" and r: "snd fr = r"
    using assms by (auto simp: singbox_parse_payload_def bind_res_Inr ok_or_def split: option.splits if_splits)
  then show ?thesis using kept by (cases root) auto
qed

lemma clash_entry_capped: "clash_entry ypr spec m = Inr e \<Longrightarrow> ct_scheme spec \<noteq> Naive \<Longrightarrow> document_entry e"
  by (auto simp: clash_entry_def Let_def bind_res_Inr document_entry_def one_line_def entry_capped_def split: if_splits)

lemma clash_spec_not_naive: "clash_type_spec t = Some spec \<Longrightarrow> ct_scheme spec \<noteq> Naive"
  by (auto simp: clash_type_spec_def CLASH_SS_SPEC_def CLASH_TROJAN_SPEC_def CLASH_VMESS_SPEC_def
      CLASH_HYSTERIA2_SPEC_def CLASH_VLESS_SPEC_def CLASH_SOCKS5_SPEC_def CLASH_SNELL_SPEC_def
      CLASH_ANYTLS_SPEC_def split: if_splits)

lemma parse_item_capped: "parse_item ypr item = Inr (Some e) \<Longrightarrow> document_entry e"
  by (auto simp: parse_item_def bind_res_Inr dest: clash_entry_capped clash_spec_not_naive split: option.splits)

lemma clash_payload_capped:
  assumes "clash_parse_payload yp ypr payload = Inr r"
  shows "list_all document_entry (cl_entries r)"
proof -
  have "list_all document_entry (cl_entries (clash_item_result ypr item r))"
    if "list_all document_entry (cl_entries r)" for item r
    using that by (auto simp: clash_item_result_def dest: parse_item_capped split: sum.split option.split)
  then show ?thesis using assms
    by (auto simp: clash_parse_payload_def bind_res_Inr split: if_splits
        intro: foldl_keeps [where P = "\<lambda>r. list_all document_entry (cl_entries r)"])
qed

section \<open>Whole payloads\<close>

lemma uri_list_line_capped:
  "list_all entry_capped (ps_entries r) \<Longrightarrow> LF \<notin> set raw \<Longrightarrow>
   list_all entry_capped (ps_entries (uri_list_line co r raw))"
  using set_trim [of raw]
  by (auto simp: uri_list_line_def Let_def dest: parse_line_capped split: LineOutcome.split)

lemma uri_lines_capped:
  "list_all entry_capped (ps_entries r) \<Longrightarrow> (\<And>l. l \<in> set ls \<Longrightarrow> LF \<notin> set l) \<Longrightarrow>
   list_all entry_capped (ps_entries (foldl (uri_list_line co) r ls))"
proof (induction ls arbitrary: r)
  case (Cons l ls)
  then show ?case using uri_list_line_capped [of r l co] by simp
qed simp

text \<open>
  C27: what a subscription may put into the pool. However the payload is encoded and in whatever format it
  comes, every entry it yields has at most 256 parameters (257 for a naive line, which adds its transport),
  none of them over 8192 bytes in key or value, and neither its host nor its credential holds a line feed. In
  an entry of a Clash or JSON document host and credential hold no carriage return either, and in an entry of
  a JSON document no parameter value holds a line feed or a carriage return.
\<close>

theorem parsed_entries_capped:
  assumes "parse_subscription co payload encoding input_format = Inr r"
  shows "list_all (format_capped (ps_format r)) (ps_entries r)"
proof -
  have uri: "list_all entry_capped (ps_entries (foldl (uri_list_line co) (empty_subscription f) (lines_of t)))" for f t
    by (rule uri_lines_capped) (auto simp: empty_subscription_def dest: lines_of_no_LF)
  have same: "ps_format (foldl (uri_list_line co) r0 ls) = ps_format r0" for r0 ls
    by (induction ls arbitrary: r0) (simp_all add: uri_list_line_def Let_def split: LineOutcome.split)
  obtain t fmt where "(case fmt of UriListInput \<Rightarrow> parse_uri_list co t UriListInput
     | ClashYaml \<Rightarrow> parse_clash_payload co t | SingBoxJson \<Rightarrow> parse_singbox_payload co t) = Inr r"
    using assms by (auto simp: parse_subscription_def bind_res_Inr)
  then show ?thesis using uri
    by (cases fmt) (auto simp: parse_uri_list_def parse_clash_payload_def parse_singbox_payload_def bind_res_Inr
        empty_subscription_def format_capped_simps same dest: clash_payload_capped singbox_payload_capped)
qed

text \<open>A JSON parser for one document: a socks outbound and one of an unknown kind.\<close>

definition sample_outbounds :: "json list" where
  "sample_outbounds =
     [JObject [(''type'', JString ''socks''), (''tag'', JString ''a''), (''server'', JString ''h.io''),
        (''server_port'', JInt 1080)],
      JObject [(''type'', JString ''tuic'')]]"

definition sample_json_codecs :: codecs where
  "sample_json_codecs = \<lparr>b64_decode = \<lambda>_. None, b64_encode = \<lambda>s. s,
     json_parse = \<lambda>_. Some (JObject [(''outbounds'', JArray sample_outbounds)]),
     json_print = \<lambda>_. [], yaml_parse = \<lambda>_. None, yaml_print = \<lambda>_. None\<rparr>"

lemma sample_socks:
  "parse_outbound jp (JObject [(''type'', JString ''socks''), (''tag'', JString ''a''), (''server'', JString ''h.io''),
     (''server_port'', JInt 1080)]) r =
   r\<lparr>sb_entries := sb_entries r @ [\<lparr>pe_scheme = Socks5, pe_name = ''a'', pe_host = ''h.io'', pe_port = 1080,
     pe_credential = '':'', pe_params = [], pe_raw_path = [], pe_raw_line = []\<rparr>]\<rparr>"
  by (simp add: parse_outbound_def dialect_def text_field_def member_def NON_PROXY_TYPES_def build_outbound_def
      native_builder_def native_socks_def native_endpoint_def str_field_def ok_or_def port_field_def
      unwrap_or_default_def obj_field_def with_object_def passthrough_def pass_fields_def CLIENT_SIDE_FIELDS_def
      finish_def reject_line_breaks_def MAX_QUERY_PARAMS_def)

lemma sample_tuic:
  "parse_outbound jp (JObject [(''type'', JString ''tuic'')]) r = r\<lparr>sb_unsupported := sb_unsupported r + 1\<rparr>"
  by (simp add: parse_outbound_def dialect_def text_field_def member_def NON_PROXY_TYPES_def build_outbound_def
      native_builder_def)

lemma sample_subscription:
  "parse_subscription sample_json_codecs t PlainEncoding (Some SingBoxJson) =
     Inr \<lparr>ps_entries = [\<lparr>pe_scheme = Socks5, pe_name = ''a'', pe_host = ''h.io'', pe_port = 1080,
       pe_credential = '':'', pe_params = [], pe_raw_path = [], pe_raw_line = []\<rparr>],
       ps_discarded = 0, ps_unrecognized = 0, ps_clash_skipped = 1, ps_format = SingBoxJson\<rparr>"
  by (simp add: parse_subscription_def decode_payload_def parse_singbox_payload_def singbox_parse_payload_def
      sample_json_codecs_def ok_or_def harvest_def outbounds_of_def sample_outbounds_def sample_socks sample_tuic
      no_result_def empty_subscription_def)

theorem parsed_entries_capped_witness:
  "\<exists>r. parse_subscription sample_json_codecs ''{}'' PlainEncoding (Some SingBoxJson) = Inr r \<and>
     length (ps_entries r) = 1 \<and> list_all (format_capped SingBoxJson) (ps_entries r)"
  using parsed_entries_capped [OF sample_subscription [of "''{}''"]] sample_subscription [of "''{}''"] by simp

section \<open>Log and skip\<close>

















lemma harvest_account:
  "harvest jp config r = (case outbounds_of config of None \<Rightarrow> (False, r)
     | Some os \<Rightarrow> (True, foldl (\<lambda>r o'. parse_outbound jp o' r) r os))"
  by (simp add: harvest_def)



section \<open>The elements of a payload\<close>








end
