(* ===== verification/Singbox_Properties.thy ===== *)
theory Singbox_Properties
  imports Input_Properties
begin

text \<open>
  The sing-box writer and reader against each other: reading an outbound that was written gives an entry
  from which the same outbound is written again.
\<close>

section \<open>Objects built by insertions\<close>

lemma map_of_jput [simp]: "map_of (jput k v m) = (map_of m)(k \<mapsto> v)"
  by (simp add: jput_def)

lemma map_of_jput_opt [simp]:
  "k' \<noteq> k \<Longrightarrow> map_of (jput_opt k v m) k' = map_of m k'"
  "map_of (jput_opt k v m) k = or_else v (map_of m k)"
  by (simp_all add: jput_opt_def or_else_def split: option.split)

lemma map_of_jput_if [simp]:
  "k' \<noteq> k \<Longrightarrow> map_of (jput_if b k v m) k' = map_of m k'"
  "map_of (jput_if b k v m) k = (if b then Some v else map_of m k)"
  by (simp_all add: jput_if_def)

lemma or_else_simps [simp]: "or_else None y = y" "or_else (Some x) y = Some x" "or_else z None = z"
  by (simp_all add: or_else_def split: option.split)

text \<open>Objects whose keys are all read structurally pass nothing through.\<close>

definition keys_in :: "string list \<Rightarrow> jmap \<Rightarrow> bool" where
  "keys_in ks m \<longleftrightarrow> list_all (\<lambda>(k, _). member k ks) m"

lemma keys_in_Nil [simp]: "keys_in ks []"
  by (simp add: keys_in_def)

lemma keys_in_jput [simp]: "member k ks \<Longrightarrow> keys_in ks (jput k v m) = keys_in ks m"
proof -
  assume "member k ks"
  then have "keys_in ks (obj_insert k v m) = keys_in ks m" by (induction m) (auto simp: keys_in_def split: if_splits)
  then show ?thesis by (simp add: jput_def)
qed

lemma keys_in_jput_opt [simp]: "member k ks \<Longrightarrow> keys_in ks (jput_opt k v m) = keys_in ks m"
  by (simp add: jput_opt_def split: option.split)

lemma keys_in_jput_if [simp]: "member k ks \<Longrightarrow> keys_in ks (jput_if b k v m) = keys_in ks m"
  by (simp add: jput_if_def)

lemma member_simps [simp]: "member x [] = False" "member x (y # ys) = (y = x \<or> member x ys)"
  by (simp_all add: member_def)

lemma pass_fields_none [simp]: "keys_in ks m \<Longrightarrow> pass_fields jp ks m = []"
  by (auto simp: keys_in_def pass_fields_def list_all_iff)

lemma keys_in_append: "keys_in ks m \<Longrightarrow> keys_in (ks @ ks') m"
  by (auto simp: keys_in_def list_all_iff member_def)

lemma passthrough_none [simp]: "keys_in ks m \<Longrightarrow> passthrough jp m ks = []"
  by (simp add: passthrough_def keys_in_append)

section \<open>Texts that survive\<close>

text \<open>A text the readers and writers leave as it is.\<close>

definition plain :: "string \<Rightarrow> bool" where
  "plain v \<longleftrightarrow> v \<noteq> [] \<and> trim v = v \<and> percent_decode v = v \<and> LF \<notin> set v \<and> CR \<notin> set v \<and>
     length v \<le> MAX_PARAM_BYTES"

definition plain_opt :: "string option \<Rightarrow> bool" where
  "plain_opt v \<longleftrightarrow> (case v of None \<Rightarrow> True | Some s \<Rightarrow> plain s)"

lemma plain_opt_simps [simp]: "plain_opt None" "plain_opt (Some s) = plain s"
  by (simp_all add: plain_opt_def)

lemma plain_parts: "plain v \<Longrightarrow> v \<noteq> []" "plain v \<Longrightarrow> trim v = v" "plain v \<Longrightarrow> percent_decode v = v"
  by (simp_all add: plain_def)

lemma pct_decode_no_percent: "CHR ''%'' \<notin> set s \<Longrightarrow> pct_decode s = s"
  by (induction s rule: pct_decode.induct) auto

lemma plain_ascii:
  assumes "s \<noteq> []" "list_all (\<lambda>c. graph_char c \<and> c \<noteq> CHR ''%'') s" "length s \<le> MAX_PARAM_BYTES"
  shows "plain s"
proof -
  have g: "\<And>c. c \<in> set s \<Longrightarrow> graph_char c" "CHR ''%'' \<notin> set s" using assms(2) by (auto simp: list_all_iff)
  then have "valid_utf8 s" by (intro valid_ascii) (fastforce simp: list_all_iff graph_char_def)
  then have "percent_decode s = s" by (simp add: percent_decode_def pct_decode_no_percent g lossy_valid)
  moreover have "trim s = s" using assms(1) g by (intro trim_graph) simp
  moreover have "\<not> graph_char LF" "\<not> graph_char CR" by (simp_all add: graph_char_def code_def)
  ultimately show ?thesis using assms g by (auto simp: plain_def)
qed

lemma plain_words [simp]:
  "plain ''tls''" "plain ''reality''" "plain ''true''" "plain ''ws''" "plain ''httpupgrade''" "plain ''grpc''"
  "plain ''http''"
  by (auto intro!: plain_ascii simp: graph_char_def code_def MAX_PARAM_BYTES_def)

lemma length_dec_nat: "n < 10 ^ k \<Longrightarrow> 0 < k \<Longrightarrow> length (dec_nat n) \<le> k"
proof (induction k arbitrary: n)
  case (Suc k)
  show ?case
  proof (cases "n < 10")
    case False
    then have "n div 10 < 10 ^ k" "0 < k" using Suc.prems by (auto simp: less_mult_imp_div_less intro: gr0I)
    then have "length (dec_nat (n div 10)) \<le> k" by (rule Suc.IH)
    then show ?thesis using False by (subst dec_nat.simps) simp
  qed (subst dec_nat.simps, simp)
qed simp

lemma plain_dec_nat:
  assumes "n < 2 ^ 64"
  shows "plain (dec_nat n)"
proof (rule plain_ascii)
  show "length (dec_nat n) \<le> MAX_PARAM_BYTES"
    using length_dec_nat [of n 20] assms by (simp add: MAX_PARAM_BYTES_def)
  show "list_all (\<lambda>c. graph_char c \<and> c \<noteq> CHR ''%'') (dec_nat n)"
    by (auto simp: list_all_iff graph_char_def is_digit_def code_def dest!: dec_nat_mem)
qed simp

section \<open>Looking up parameters\<close>

text \<open>The value under the first key that satisfies a test: either lookup of an entry is an instance.\<close>

definition look :: "(string \<Rightarrow> bool) \<Rightarrow> Param list \<Rightarrow> string option" where
  "look P ps = map_option p_value (find (\<lambda>p. P (p_key p)) ps)"

lemma find_append: "find P (xs @ ys) = (case find P xs of Some x \<Rightarrow> Some x | None \<Rightarrow> find P ys)"
  by (induction xs) auto

lemma look_append [simp]: "look P (xs @ ys) = or_else (look P xs) (look P ys)"
  by (simp add: look_def find_append or_else_def split: option.split)

lemma look_Nil [simp]: "look P [] = None"
  by (simp add: look_def)

lemma look_push_param [simp]: "v \<noteq> [] \<Longrightarrow> look P (push_param b key v) = (if P key then Some v else None)"
  by (simp add: push_param_def look_def)

lemma look_push_some [simp]: "plain_opt v \<Longrightarrow> look P (push_some key v) = (if P key then v else None)"
  by (auto simp: push_some_def plain_def split: option.split)

lemma look_push_when [simp]: "v \<noteq> [] \<Longrightarrow> look P (push_when b key v) = (if b \<and> P key then Some v else None)"
  by (simp add: push_when_def)

lemma param_value_look:
  "look (\<lambda>k'. eq_ignore_ascii_case k' k) (pe_params e) = v \<Longrightarrow> plain_opt v \<Longrightarrow> param_value e k = v"
  by (cases v) (auto simp: param_value_def param_ignore_case_def look_def plain_def split: option.split)

lemma non_empty_param_look:
  "look (\<lambda>k'. k' = k) (pe_params e) = v \<Longrightarrow> plain_opt v \<Longrightarrow> non_empty_param e k = v"
  by (cases v) (auto simp: non_empty_param_def param_def look_def plain_def split: option.split)

lemma param_map_look:
  "look (\<lambda>k'. eq_ignore_ascii_case k' k) (pe_params e) = None \<Longrightarrow> param_map yp e k = None"
  by (auto simp: param_map_def param_ignore_case_def look_def split: option.split)

lemma param_truthy_look:
  "look (\<lambda>k'. eq_ignore_ascii_case k' k) (pe_params e) = v \<Longrightarrow>
   param_truthy e k = (case v of None \<Rightarrow> False | Some t \<Rightarrow> is_truthy_toggle t)"
  by (auto simp: param_truthy_def param_ignore_case_def look_def split: option.split)

text \<open>Lowering of the keys at hand is a table, not a computation on characters.\<close>

declare to_ascii_lowercase_simps [simp del]

lemma lower_keys:
  "to_ascii_lowercase ''security'' = ''security''" "to_ascii_lowercase ''tls'' = ''tls''"
  "to_ascii_lowercase ''pbk'' = ''pbk''" "to_ascii_lowercase ''sid'' = ''sid''"
  "to_ascii_lowercase ''sni'' = ''sni''" "to_ascii_lowercase ''insecure'' = ''insecure''"
  "to_ascii_lowercase ''alpn'' = ''alpn''" "to_ascii_lowercase ''fp'' = ''fp''"
  "to_ascii_lowercase ''type'' = ''type''" "to_ascii_lowercase ''net'' = ''net''"
  "to_ascii_lowercase ''path'' = ''path''" "to_ascii_lowercase ''host'' = ''host''"
  "to_ascii_lowercase ''serviceName'' = ''servicename''" "to_ascii_lowercase ''flow'' = ''flow''"
  "to_ascii_lowercase ''scy'' = ''scy''" "to_ascii_lowercase ''aid'' = ''aid''"
  "to_ascii_lowercase ''alterId'' = ''alterid''" "to_ascii_lowercase ''cipher'' = ''cipher''"
  "to_ascii_lowercase ''network'' = ''network''" "to_ascii_lowercase ''servername'' = ''servername''"
  "to_ascii_lowercase ''reality-opts'' = ''reality-opts''" "to_ascii_lowercase ''plugin'' = ''plugin''"
  "to_ascii_lowercase ''obfs'' = ''obfs''" "to_ascii_lowercase ''obfs-password'' = ''obfs-password''"
  "to_ascii_lowercase ''upMbps'' = ''upmbps''" "to_ascii_lowercase ''downMbps'' = ''downmbps''"
  "to_ascii_lowercase ''up'' = ''up''" "to_ascii_lowercase ''down'' = ''down''"
  "to_ascii_lowercase ''true'' = ''true''" "to_ascii_lowercase ''reality'' = ''reality''"
  "to_ascii_lowercase ''ws'' = ''ws''" "to_ascii_lowercase ''grpc'' = ''grpc''"
  "to_ascii_lowercase ''http'' = ''http''" "to_ascii_lowercase ''httpupgrade'' = ''httpupgrade''"
  by code_simp+

lemmas key_simps = eq_ignore_ascii_case_def lower_keys

section \<open>What the reader makes of a written block\<close>

definition tls_flat ::
  "(string \<Rightarrow> yaml option) \<Rightarrow> (yaml \<Rightarrow> string option) \<Rightarrow> ProxyEntry \<Rightarrow> string \<times> string \<Rightarrow> bool \<Rightarrow> Param list" where
  "tls_flat yp ypr e sec ron =
     security_param sec ron
     @ (if ron then push_some ''pbk'' (reality_public_key yp e) @ push_some ''sid'' (reality_short_id yp e) else [])
     @ push_some ''sni'' (sni_of e) @ push_when (is_insecure (pe_params e)) ''insecure'' ''true''
     @ push_some ''alpn'' (map_option (join '','') (param_list yp ypr e ''alpn''))
     @ push_some ''fp'' (non_empty_param e ''fp'')"

text \<open>The texts of a TLS block survive; the list is read back from its commas, and not as YAML.\<close>

definition list_text :: "(string \<Rightarrow> yaml option) \<Rightarrow> string list \<Rightarrow> bool" where
  "list_text yp l \<longleftrightarrow> plain (join '','' l) \<and> comma_list (join '','' l) = l \<and> l \<noteq> [] \<and>
     \<not> (is_ok (reject_yaml_aliases (join '','' l)) \<and> Option.bind (yp (join '','' l)) yaml_sequence \<noteq> None)"

definition plain_tls :: "(string \<Rightarrow> yaml option) \<Rightarrow> (yaml \<Rightarrow> string option) \<Rightarrow> ProxyEntry \<Rightarrow> bool" where
  "plain_tls yp ypr e \<longleftrightarrow>
     plain_opt (reality_public_key yp e) \<and> plain_opt (reality_short_id yp e) \<and> plain_opt (sni_of e) \<and>
     plain_opt (non_empty_param e ''fp'') \<and>
     (case param_list yp ypr e ''alpn'' of None \<Rightarrow> True | Some l \<Rightarrow> list_text yp l)"

definition reality_on :: "(string \<Rightarrow> yaml option) \<Rightarrow> ProxyEntry \<Rightarrow> bool \<Rightarrow> bool" where
  "reality_on yp e reality \<longleftrightarrow> reality \<and> (reality_public_key yp e \<noteq> None \<or> reality_short_id yp e \<noteq> None)"

lemma str_field_text: "plain_opt v \<Longrightarrow> map_of m k = jtext_opt v \<Longrightarrow> str_field m k = v"
  by (cases v) (auto simp: str_field_def jtext_opt_def plain_def)

lemma str_field_simps [simp]:
  "plain_opt v \<Longrightarrow> str_field (jput_opt k (jtext_opt v) m) k = or_else v (str_field m k)"
  "k' \<noteq> k \<Longrightarrow> str_field (jput_opt k x m) k' = str_field m k'"
  "k' \<noteq> k \<Longrightarrow> str_field (jput k y m) k' = str_field m k'"
  "str_field (jput k (JString t) m) k = (if t = [] then None else Some t)"
  "k' \<noteq> k \<Longrightarrow> str_field (jput_if b k y m) k' = str_field m k'"
  "str_field [] k = None"
proof -
  show "plain_opt v \<Longrightarrow> str_field (jput_opt k (jtext_opt v) m) k = or_else v (str_field m k)"
    by (cases v) (simp_all add: str_field_def jtext_opt_def plain_def)
qed (simp_all add: str_field_def)

lemma map_filter_json_str [simp]: "List.map_filter json_str (map JString l) = l"
  by (induction l) (auto simp: List.map_filter_simps)

lemma comma_list_items: "x \<in> set (comma_list h) \<Longrightarrow> x \<noteq> [] \<and> CHR '','' \<notin> set x \<and> trim x = x"
  using set_trim split_on_pieces by (fastforce simp: comma_list_def)

lemma joined_array:
  "plain (join '','' l) \<Longrightarrow> comma_list (join '','' l) = l \<Longrightarrow>
   string_or_joined_array (Some (JArray (map JString l))) = Some (join '','' l)"
proof -
  assume p: "plain (join '','' l)" and l: "comma_list (join '','' l) = l"
  have "filter (\<lambda>s. s \<noteq> []) l = l" by (rule filter_True) (metis comma_list_items l)
  then show ?thesis using p by (simp add: string_or_joined_array_def plain_def)
qed

lemma joined_alpn_read:
  "(case x of None \<Rightarrow> True | Some l \<Rightarrow> list_text yp l) \<Longrightarrow>
   string_or_joined_array (map_option (\<lambda>l. JArray (map JString l)) x) = map_option (join '','') x"
  by (cases x) (auto simp: list_text_def joined_array, simp add: string_or_joined_array_def)

lemma tls_read_back:
  assumes "plain_tls yp ypr e" "tls_object yp ypr e True reality = Some (JObject tls)"
  shows "native_tls_params tls sec = tls_flat yp ypr e sec (reality_on yp e reality)"
proof -
  note def = assms(1) [unfolded plain_tls_def]
  have tls: "tls = jput_if (reality_on yp e reality) ''reality''
        (reality_object (reality_public_key yp e) (reality_short_id yp e))
      (jput_opt ''utls'' (map_option utls_object (non_empty_param e ''fp''))
        (jput_opt ''alpn'' (map_option (\<lambda>l. JArray (map JString l)) (param_list yp ypr e ''alpn'')) (tls_common e)))"
    using assms(2) by (simp add: tls_object_def Let_def reality_on_def)
  have enabled: "bool_field tls ''enabled'' = Some True"
    by (simp add: tls bool_field_def tls_common_def)
  have reality: "obj_field tls ''reality'' = (if reality_on yp e reality then as_object
      (reality_object (reality_public_key yp e) (reality_short_id yp e)) else None)"
    by (simp add: tls obj_field_def tls_common_def)
  have ron: "reality_enabled tls = reality_on yp e reality"
    by (simp add: reality_enabled_def reality reality_object_def bool_field_def)
  have rp: "with_object (obj_field tls ''reality'') reality_params =
      push_some ''pbk'' (reality_public_key yp e) @ push_some ''sid'' (reality_short_id yp e)"
    if "reality_on yp e reality"
    using that def by (simp add: reality reality_object_def with_object_def reality_params_def)
  have sni: "str_field tls ''server_name'' = sni_of e"
    using def by (intro str_field_text) (simp_all add: tls tls_common_def)
  have ins: "bool_field tls ''insecure'' = Some True \<longleftrightarrow> is_insecure (pe_params e)"
    by (simp add: tls bool_field_def tls_common_def)
  have alpn: "string_or_joined_array (map_of tls ''alpn'') = map_option (join '','') (param_list yp ypr e ''alpn'')"
    using joined_alpn_read [of yp "param_list yp ypr e ''alpn''"] def by (simp add: tls tls_common_def)
  have fp: "Option.bind (obj_field tls ''utls'') (\<lambda>u. str_field u ''fingerprint'') = non_empty_param e ''fp''"
    using def by (cases "non_empty_param e ''fp''")
      (simp_all add: tls obj_field_def tls_common_def utls_object_def str_field_def plain_def)
  show ?thesis
    by (simp add: native_tls_params_def tls_flat_def enabled ron rp sni ins alpn fp)
qed

text \<open>The same for a transport block.\<close>

definition transport_flat :: "ProxyEntry \<Rightarrow> string \<Rightarrow> string \<Rightarrow> string \<Rightarrow> Param list" where
  "transport_flat e uri_key net key =
     (if net = ''ws'' \<or> net = ''httpupgrade'' then
        push_param True key net @ push_some ''path'' (param_value e ''path'') @ push_some ''host'' (param_value e ''host'')
      else if net = ''grpc'' then
        push_param True key net @ push_some ''serviceName''
          (if pe_scheme e = Vmess then or_else (param_value e ''serviceName'') (param_value e ''path'')
           else param_value e ''serviceName'')
      else push_param True key ''http''
        @ push_some ''host'' (map_option (\<lambda>h. join '','' (comma_list h)) (param_value e ''host''))
        @ push_some ''path'' (param_value e ''path''))"

definition plain_transport :: "ProxyEntry \<Rightarrow> bool" where
  "plain_transport e \<longleftrightarrow>
     plain_opt (param_value e ''path'') \<and> plain_opt (param_value e ''host'') \<and>
     plain_opt (param_value e ''serviceName'') \<and>
     plain_opt (map_option (\<lambda>h. join '','' (comma_list h)) (param_value e ''host''))"

lemma split_on_join_comma:
  assumes "\<And>x. x \<in> set l \<Longrightarrow> x \<noteq> [] \<and> CHR '','' \<notin> set x \<and> trim x = x"
  shows "comma_list (join '','' l) = l"
proof (cases "l = []")
  case True
  have "trim [] = []" by (simp add: trim_graph)
  then show ?thesis by (simp add: True comma_list_def)
next
  case False
  then have "split_on (CHR '','') (join '','' l) = l" using assms by (intro split_on_join) auto
  moreover have "map trim l = l" using assms by (simp add: map_idI)
  moreover have "filter (\<lambda>s. s \<noteq> []) l = l" using assms by (simp add: filter_id_conv)
  ultimately show ?thesis by (simp add: comma_list_def)
qed

lemma comma_list_join [simp]: "comma_list (join '','' (comma_list h)) = comma_list h"
  by (rule split_on_join_comma) (rule comma_list_items)

lemma transport_read_back:
  assumes "plain_transport e" "network_of e uri_key = Some net" "transport_object e uri_key = Some (JObject t)"
  shows "native_transport_params jp t key = transport_flat e uri_key net key"
proof -
  note def = assms(1) [unfolded plain_transport_def]
  consider (ws) "net = ''ws''" | (up) "net = ''httpupgrade''" | (grpc) "net = ''grpc''"
    | (h2) "net = ''h2'' \<or> net = ''http''"
    using assms(2,3) by (auto simp: transport_object_def split: if_splits)
  then show ?thesis
  proof cases
    case ws
    then have t: "t = ws_transport e ''ws''" using assms(2,3) by (simp add: transport_object_def)
    show ?thesis using def
      by (cases "param_value e ''host''")
        (simp_all add: t ws ws_transport_def native_transport_params_def transport_fields_def transport_flat_def obj_field_def
          text_field_def)
  next
    case up
    then have t: "t = ws_transport e ''httpupgrade''" using assms(2,3) by (simp add: transport_object_def)
    show ?thesis using def
      by (cases "param_value e ''host''")
        (simp_all add: t up ws_transport_def native_transport_params_def transport_fields_def transport_flat_def plain_def)
  next
    case grpc
    then have t: "t = grpc_transport e" using assms(2,3) by (simp add: transport_object_def)
    have "plain_opt (or_else (param_value e ''serviceName'') (param_value e ''path''))"
      using def by (auto simp: or_else_def split: option.split)
    then show ?thesis using def
      by (simp add: t grpc grpc_transport_def native_transport_params_def transport_fields_def transport_flat_def)
  next
    case h2
    then have t: "t = http_transport e" and net: "net \<noteq> ''ws''" "net \<noteq> ''httpupgrade''" "net \<noteq> ''grpc''"
      using assms(2,3) by (auto simp: transport_object_def)
    have "string_or_joined_array (map_of t ''host'') =
        map_option (\<lambda>h. join '','' (comma_list h)) (param_value e ''host'')"
      using def by (cases "param_value e ''host''")
        (simp_all add: t http_transport_def joined_array, simp add: string_or_joined_array_def)
    then show ?thesis using def net
      by (simp add: t http_transport_def native_transport_params_def transport_fields_def transport_flat_def)
  qed
qed

section \<open>What the writer makes of the entry read\<close>

abbreviation key_is :: "string \<Rightarrow> string \<Rightarrow> bool" where
  "key_is k \<equiv> (\<lambda>k'. eq_ignore_ascii_case k' k)"

lemma param_list_look:
  assumes "look (key_is k) (pe_params e) = map_option (join '','') x"
    and "case x of None \<Rightarrow> True | Some l \<Rightarrow> list_text yp l"
  shows "param_list yp ypr e k = x"
proof (cases x)
  case None
  then show ?thesis using assms(1)
    by (auto simp: param_list_def param_ignore_case_def look_def split: option.split)
next
  case (Some l)
  then have l: "list_text yp l" "look (key_is k) (pe_params e) = Some (join '','' l)" using assms by simp_all
  then have raw: "param_ignore_case e k = Some (join '','' l)" by (simp add: param_ignore_case_def look_def)
  have j: "plain (join '','' l)" "comma_list (join '','' l) = l" "l \<noteq> []" using l(1) by (simp_all add: list_text_def)
  have "(if is_ok (reject_yaml_aliases (join '','' l)) then Option.bind (yp (join '','' l)) yaml_sequence else None) = None"
    using l(1) by (auto simp: list_text_def)
  then show ?thesis using j
    by (simp add: param_list_def raw Some plain_def comma_list_def some_list_def)
qed

lemma reality_public_look:
  assumes "look (key_is ''reality-opts'') (pe_params e) = None"
    and "look (key_is ''pbk'') (pe_params e) = pbk" "plain_opt pbk"
  shows "reality_public_key yp e = pbk"
  using assms(1) param_value_look [OF assms(2,3)] by (simp add: reality_public_key_def param_map_look map_str_def)

lemma reality_short_look:
  assumes "look (key_is ''reality-opts'') (pe_params e) = None"
    and "look (key_is ''sid'') (pe_params e) = sid" "plain_opt sid"
  shows "reality_short_id yp e = sid"
  using assms(1) param_value_look [OF assms(2,3)] by (simp add: reality_short_id_def param_map_look map_str_def)

lemma sni_look:
  assumes "look (\<lambda>k. k = ''sni'') (pe_params e) = sni" "look (key_is ''servername'') (pe_params e) = None"
    and "plain_opt sni"
  shows "sni_of e = sni"
  using assms non_empty_param_look [of "''sni''" e sni] param_value_look [of "''servername''" e None]
  by (simp add: sni_of_def)

lemma tls_written_again:
  assumes e: "plain_tls yp ypr e"
    and sni: "look (\<lambda>k. k = ''sni'') (pe_params e') = sni_of e" "look (key_is ''servername'') (pe_params e') = None"
    and ins: "is_insecure (pe_params e') = is_insecure (pe_params e)"
    and alpn: "look (key_is ''alpn'') (pe_params e') = map_option (join '','') (param_list yp ypr e ''alpn'')"
    and fp: "look (\<lambda>k. k = ''fp'') (pe_params e') = non_empty_param e ''fp''"
    and opts: "look (key_is ''reality-opts'') (pe_params e') = None"
    and pbk: "look (key_is ''pbk'') (pe_params e') = (if reality_on yp e reality then reality_public_key yp e else None)"
    and sid: "look (key_is ''sid'') (pe_params e') = (if reality_on yp e reality then reality_short_id yp e else None)"
    and on: "reality_on yp e reality \<Longrightarrow> reality'"
  shows "tls_object yp ypr e' True reality' = tls_object yp ypr e True reality"
proof -
  note def = e [unfolded plain_tls_def]
  have "plain_opt (if reality_on yp e reality then reality_public_key yp e else None)"
    "plain_opt (if reality_on yp e reality then reality_short_id yp e else None)" using def by simp_all
  note rk = reality_public_look [OF opts pbk this(1)] reality_short_look [OF opts sid this(2)]
  have eqs: "sni_of e' = sni_of e" "non_empty_param e' ''fp'' = non_empty_param e ''fp''"
    "param_list yp ypr e' ''alpn'' = param_list yp ypr e ''alpn''"
    using def sni_look [OF sni] non_empty_param_look [OF fp] param_list_look [OF alpn, of yp ypr] by auto
  show ?thesis using on
    by (cases "reality_on yp e reality")
      (auto simp: tls_object_def rk eqs ins tls_common_def Let_def reality_on_def jput_if_def)
qed

text \<open>The network the reader finds, which spells HTTP/2 as \<open>http\<close>.\<close>

definition net_read :: "string \<Rightarrow> string" where
  "net_read net = (if net = ''ws'' \<or> net = ''httpupgrade'' \<or> net = ''grpc'' then net else ''http'')"

definition service_written :: "ProxyEntry \<Rightarrow> string option" where
  "service_written e =
     (if pe_scheme e = Vmess then or_else (param_value e ''serviceName'') (param_value e ''path'')
      else param_value e ''serviceName'')"

definition host_written :: "ProxyEntry \<Rightarrow> string \<Rightarrow> string option" where
  "host_written e net =
     (if net = ''ws'' \<or> net = ''httpupgrade'' then param_value e ''host''
      else if net = ''grpc'' then None
      else map_option (\<lambda>h. join '','' (comma_list h)) (param_value e ''host''))"

lemma plain_transport_parts:
  assumes "plain_transport e"
  shows "plain_opt (param_value e ''path'')" "plain_opt (host_written e net)" "plain_opt (service_written e)"
    "plain_opt (param_value e ''host'')"
  using assms by (auto simp: plain_transport_def host_written_def service_written_def or_else_def split: option.split)

lemma net_cases:
  assumes "net \<in> {''ws'', ''httpupgrade'', ''grpc'', ''h2'', ''http''}"
  obtains (up) "net = ''ws'' \<or> net = ''httpupgrade''" | (grpc) "net = ''grpc''" | (h2) "net = ''h2'' \<or> net = ''http''"
  using assms by blast

lemma transport_flat_segments:
  assumes "net \<in> {''ws'', ''httpupgrade'', ''grpc'', ''h2'', ''http''}"
  shows "net = ''ws'' \<or> net = ''httpupgrade'' \<Longrightarrow> transport_flat e uri_key net key =
      push_param True key (net_read net) @ push_some ''path'' (param_value e ''path'')
      @ push_some ''host'' (host_written e net)"
    "net = ''grpc'' \<Longrightarrow> transport_flat e uri_key net key =
      push_param True key (net_read net) @ push_some ''serviceName'' (service_written e)"
    "net = ''h2'' \<or> net = ''http'' \<Longrightarrow> transport_flat e uri_key net key =
      push_param True key (net_read net) @ push_some ''host'' (host_written e net)
      @ push_some ''path'' (param_value e ''path'')"
  using assms by (auto simp: transport_flat_def net_read_def host_written_def service_written_def)

lemma net_read_not_Nil [simp]: "net \<in> {''ws'', ''httpupgrade'', ''grpc'', ''h2'', ''http''} \<Longrightarrow> net_read net \<noteq> []"
  by (auto simp: net_read_def)

lemma transport_flat_look:
  assumes p: "plain_transport e" and net: "net \<in> {''ws'', ''httpupgrade'', ''grpc'', ''h2'', ''http''}"
    and P: "\<not> (P ''path'' \<and> P ''host'')"
  shows "look P (transport_flat e uri_key net key) =
     (if P key then Some (net_read net)
      else if net = ''grpc'' then if P ''serviceName'' then service_written e else None
      else or_else (if P ''path'' then param_value e ''path'' else None)
        (if P ''host'' then host_written e net else None))"
  using net
proof (cases rule: net_cases)
  case up
  then show ?thesis
    by (subst transport_flat_segments(1) [OF net up]) (use net plain_transport_parts [OF p] in auto)
next
  case grpc
  then show ?thesis
    by (subst transport_flat_segments(2) [OF net grpc]) (use net plain_transport_parts [OF p] in auto)
next
  case h2
  then show ?thesis
    by (subst transport_flat_segments(3) [OF net h2]) (use P net plain_transport_parts [OF p] in auto)
qed

lemma transport_written_again:
  assumes e: "plain_transport e" and net: "network_of e uri_key = Some net"
    and t: "transport_object e uri_key = Some (JObject t)" and scheme: "pe_scheme e' = pe_scheme e"
    and key: "param_value e' key = Some (net_read net)"
    and path: "net \<noteq> ''grpc'' \<Longrightarrow> param_value e' ''path'' = param_value e ''path''"
    and host: "net \<noteq> ''grpc'' \<Longrightarrow> param_value e' ''host'' = host_written e net"
    and svc: "net = ''grpc'' \<Longrightarrow> param_value e' ''serviceName'' = service_written e"
    and svc': "net = ''grpc'' \<Longrightarrow> param_value e' ''path'' = None"
  shows "transport_object e' key = transport_object e uri_key"
proof -
  have n: "net \<in> {''ws'', ''httpupgrade'', ''grpc'', ''h2'', ''http''}"
    using net t by (auto simp: transport_object_def split: if_splits)
  then have "to_ascii_lowercase (net_read net) = net_read net" by (auto simp: net_read_def lower_keys)
  then have net': "network_of e' key = Some (net_read net)" using key by (simp add: network_of_def)
  from n show ?thesis
  proof (cases rule: net_cases)
    case up
    then have "net_read net = net" "host_written e net = param_value e ''host''" "net \<noteq> ''grpc''"
      by (auto simp: net_read_def host_written_def)
    then show ?thesis using net net' path host up
      by (simp add: transport_object_def ws_transport_def)
  next
    case grpc
    then show ?thesis using net net' svc svc' scheme
      by (simp add: transport_object_def net_read_def grpc_transport_def service_written_def)
  next
    case h2
    then have "net_read net = ''http''" "net \<noteq> ''grpc''"
        "host_written e net = map_option (\<lambda>h. join '','' (comma_list h)) (param_value e ''host'')"
      by (auto simp: net_read_def host_written_def)
    then show ?thesis using net net' path host h2
      by (auto simp: transport_object_def http_transport_def option.map_comp o_def)
  qed
qed

section \<open>Both blocks inside an entry\<close>

abbreviation networks :: "string list" where
  "networks \<equiv> [''ws'', ''httpupgrade'', ''grpc'', ''h2'', ''http'']"

definition transport_part :: "ProxyEntry \<Rightarrow> string \<Rightarrow> string \<Rightarrow> Param list" where
  "transport_part e uri_key key =
     (case network_of e uri_key of
        None \<Rightarrow> [] | Some net \<Rightarrow> if net \<in> set networks then transport_flat e uri_key net key else [])"

lemma transport_object_None:
  "transport_object e uri_key = None \<longleftrightarrow> (\<forall>net. network_of e uri_key = Some net \<longrightarrow> net \<notin> set networks)"
  by (auto simp: transport_object_def split: option.splits)

lemma transport_object_Some:
  "network_of e uri_key = Some net \<Longrightarrow> net \<in> set networks \<Longrightarrow> \<exists>t. transport_object e uri_key = Some (JObject t)"
  by (auto simp: transport_object_def)

lemma transport_part_None: "transport_object e uri_key = None \<Longrightarrow> transport_part e uri_key key = []"
  by (auto simp: transport_object_None transport_part_def split: option.split)

lemma transport_part_read:
  assumes "plain_transport e"
  shows "with_object (Option.bind (transport_object e uri_key) as_object) (\<lambda>t. native_transport_params jp t key) =
     transport_part e uri_key key"
proof (cases "transport_object e uri_key")
  case None
  then show ?thesis by (simp add: with_object_def transport_part_None)
next
  case (Some x)
  then obtain net where net: "network_of e uri_key = Some net" "net \<in> set networks"
    by (auto simp: transport_object_def split: option.splits if_splits)
  then obtain t where "transport_object e uri_key = Some (JObject t)" using transport_object_Some by blast
  then show ?thesis using transport_read_back [OF assms net(1)] net
    by (simp add: with_object_def transport_part_def)
qed

lemma tls_part_read:
  assumes "plain_tls yp ypr e"
  shows "with_object (Option.bind (tls_object yp ypr e en reality) as_object) (\<lambda>tls. native_tls_params tls sec) =
     (if en then tls_flat yp ypr e sec (reality_on yp e reality) else [])"
proof (cases en)
  case True
  then obtain tls where "tls_object yp ypr e True reality = Some (JObject tls)"
    by (auto simp: tls_object_def Let_def)
  then show ?thesis using tls_read_back [OF assms] True by (simp add: with_object_def)
qed (simp add: tls_object_def with_object_def)

lemma transport_part_look:
  assumes "plain_transport e" "\<not> (P ''path'' \<and> P ''host'')"
  shows "look P (transport_part e uri_key key) =
     (case network_of e uri_key of
        None \<Rightarrow> None
      | Some net \<Rightarrow> if net \<notin> set networks then None
          else if P key then Some (net_read net)
          else if net = ''grpc'' then if P ''serviceName'' then service_written e else None
          else or_else (if P ''path'' then param_value e ''path'' else None)
            (if P ''host'' then host_written e net else None))"
  using transport_flat_look [OF assms(1) _ assms(2)] by (simp add: transport_part_def split: option.split)

lemma transport_part_no_look:
  "plain_transport e \<Longrightarrow> \<not> P key \<Longrightarrow> \<not> P ''path'' \<Longrightarrow> \<not> P ''host'' \<Longrightarrow> \<not> P ''serviceName'' \<Longrightarrow>
   look P (transport_part e uri_key key) = None"
  by (subst transport_part_look) (auto split: option.split)

lemma transport_again:
  assumes e: "plain_transport e" and ps: "pe_params e' = pre @ transport_part e uri_key key"
    and pre: "\<And>k. k \<in> {key, ''path'', ''host'', ''serviceName'', ''network''} \<Longrightarrow> look (key_is k) pre = None"
    and key: "key = ''type'' \<or> key = ''net''" and scheme: "pe_scheme e' = pe_scheme e"
  shows "transport_object e' key = transport_object e uri_key"
proof (cases "transport_object e uri_key")
  case None
  have "pe_params e' = pre" using None by (simp add: ps transport_part_None)
  then have "param_value e' key = None" "param_value e' ''network'' = None"
    using pre [of key] pre [of "''network''"] param_value_look [of key e' None]
      param_value_look [of "''network''" e' None] by simp_all
  then have "network_of e' key = None" by (simp add: network_of_def)
  then show ?thesis using None by (simp add: transport_object_def)
next
  case (Some x)
  then obtain net where net: "network_of e uri_key = Some net" "net \<in> set networks"
    by (auto simp: transport_object_def split: option.splits if_splits)
  then obtain t where t: "transport_object e uri_key = Some (JObject t)" using transport_object_Some by blast
  have plain_net: "plain (net_read net)" using net(2) by (auto simp: net_read_def)
  have look: "look (key_is k) (pe_params e') = (if key_is k key then Some (net_read net)
      else if net = ''grpc'' then if key_is k ''serviceName'' then service_written e else None
      else or_else (if key_is k ''path'' then param_value e ''path'' else None)
        (if key_is k ''host'' then host_written e net else None))"
    if "k \<in> {key, ''path'', ''host'', ''serviceName''}" for k
  proof -
    have "\<not> (key_is k ''path'' \<and> key_is k ''host'')" using that key by (auto simp: key_simps)
    note part = transport_part_look [OF e this, of uri_key key]
    have "look (key_is k) pre = None" using that by (intro pre) blast
    then show ?thesis using part net by (simp only: ps look_append or_else_simps) simp
  qed
  note parts = plain_transport_parts [OF e]
  have keys: "key_is key key" "\<not> key_is ''path'' key" "\<not> key_is ''host'' key" "\<not> key_is ''serviceName'' key"
    using key by (auto simp: key_simps)
  have "param_value e' key = Some (net_read net)"
    using param_value_look [OF look [of key]] keys plain_net by simp
  moreover have "param_value e' ''path'' = param_value e ''path''" if "net \<noteq> ''grpc''"
    using param_value_look [OF look [of "''path''"]] keys that parts by (simp add: key_simps)
  moreover have "param_value e' ''host'' = host_written e net" if "net \<noteq> ''grpc''"
    using param_value_look [OF look [of "''host''"]] keys that parts by (simp add: key_simps)
  moreover have "param_value e' ''serviceName'' = service_written e" if "net = ''grpc''"
    using param_value_look [OF look [of "''serviceName''"]] keys that parts by (simp add: key_simps)
  moreover have "param_value e' ''path'' = None" if "net = ''grpc''"
    using param_value_look [OF look [of "''path''"]] keys that by (simp add: key_simps)
  ultimately show ?thesis by (rule transport_written_again [OF e net(1) t scheme])
qed

lemma look_exact: "look (key_is k) ps = None \<Longrightarrow> look (\<lambda>k'. k' = k) ps = None"
  by (induction ps) (auto simp: look_def eq_ignore_ascii_case_def split: if_splits)

lemma is_insecure_simps [simp]: "\<not> is_insecure []" "is_insecure (xs @ ys) = (is_insecure xs \<or> is_insecure ys)"
  by (simp_all add: is_insecure_def)

lemma is_insecure_push [simp]:
  "to_ascii_lowercase key \<notin> set INSECURE_ALIASES \<Longrightarrow> \<not> is_insecure (push_param b key v)"
  "to_ascii_lowercase key \<notin> set INSECURE_ALIASES \<Longrightarrow> \<not> is_insecure (push_some key w)"
  by (simp_all add: is_insecure_def push_param_def push_some_def is_insecure_param_def split: option.split)

lemma is_insecure_toggle [simp]: "is_insecure (push_when b ''insecure'' ''true'') = b"
proof -
  have "is_insecure_param \<lparr>p_key = ''insecure'', p_value = ''true'', p_known = True\<rparr>" by code_simp
  then show ?thesis by (simp add: is_insecure_def push_when_def push_param_def)
qed

lemma aliases: "set INSECURE_ALIASES = {''insecure'', ''allowinsecure'', ''skip-cert-verify'', ''allow_insecure''}"
  by (simp add: INSECURE_ALIASES_def)

definition tls_part ::
  "(string \<Rightarrow> yaml option) \<Rightarrow> (yaml \<Rightarrow> string option) \<Rightarrow> ProxyEntry \<Rightarrow> string \<times> string \<Rightarrow> bool \<Rightarrow> bool \<Rightarrow> Param list" where
  "tls_part yp ypr e sec en reality = (if en then tls_flat yp ypr e sec (reality_on yp e reality) else [])"

definition sec_values :: "(string \<times> string) set" where
  "sec_values = {(''security'', ''tls''), (''tls'', ''tls'')}"

definition tls_keys :: "string set" where
  "tls_keys = {''sni'', ''servername'', ''alpn'', ''fp'', ''reality-opts'', ''pbk'', ''sid''}"

text \<open>A list of parameters with none of the given keys.\<close>

definition free_of :: "string set \<Rightarrow> Param list \<Rightarrow> bool" where
  "free_of ks ps \<longleftrightarrow> (\<forall>k \<in> ks. look (key_is k) ps = None)"

lemma free_of_look: "free_of ks ps \<Longrightarrow> k \<in> ks \<Longrightarrow> look (key_is k) ps = None"
  by (simp add: free_of_def)

lemma free_of_exact: "free_of ks ps \<Longrightarrow> k \<in> ks \<Longrightarrow> look (\<lambda>k'. k' = k) ps = None"
  by (simp add: free_of_def look_exact)

lemma look_tls_flat:
  assumes "plain_tls yp ypr e" "sec \<in> sec_values"
  shows "look P (tls_flat yp ypr e sec ron) =
     or_else (if P (fst sec) then Some (if fst sec = ''security'' \<and> ron then ''reality'' else ''tls'') else None)
    (or_else (if ron \<and> P ''pbk'' then reality_public_key yp e else None)
    (or_else (if ron \<and> P ''sid'' then reality_short_id yp e else None)
    (or_else (if P ''sni'' then sni_of e else None)
    (or_else (if is_insecure (pe_params e) \<and> P ''insecure'' then Some ''true'' else None)
    (or_else (if P ''alpn'' then map_option (join '','') (param_list yp ypr e ''alpn'') else None)
      (if P ''fp'' then non_empty_param e ''fp'' else None))))))"
proof -
  have "plain_opt (map_option (join '','') (param_list yp ypr e ''alpn''))"
    using assms(1) by (auto simp: plain_tls_def list_text_def split: option.splits)
  moreover have "plain_opt (reality_public_key yp e)" "plain_opt (reality_short_id yp e)" "plain_opt (sni_of e)"
      "plain_opt (non_empty_param e ''fp'')"
    using assms(1) by (simp_all add: plain_tls_def)
  moreover have "look P (security_param sec ron) =
      (if P (fst sec) then Some (if fst sec = ''security'' \<and> ron then ''reality'' else ''tls'') else None)"
    using assms(2) by (auto simp: security_param_def sec_values_def)
  ultimately show ?thesis by (cases ron) (simp_all add: tls_flat_def)
qed

lemma tls_again:
  assumes e: "plain_tls yp ypr e" and sec: "sec \<in> sec_values"
    and ps: "pe_params e' = pre @ tls_part yp ypr e sec True reality @ post"
    and free: "free_of tls_keys pre" "free_of tls_keys post"
    and ins: "\<not> is_insecure pre" "\<not> is_insecure post"
    and on: "reality_on yp e reality \<Longrightarrow> reality'"
  shows "tls_object yp ypr e' True reality' = tls_object yp ypr e True reality"
proof (rule tls_written_again [OF e _ _ _ _ _ _ _ _ on])
  note flat = look_tls_flat [OF e sec]
  have m: "look (key_is k) (pe_params e') = look (key_is k) (tls_flat yp ypr e sec (reality_on yp e reality))"
    if "k \<in> tls_keys" for k
    using free_of_look [OF free(1) that] free_of_look [OF free(2) that] by (simp add: ps tls_part_def)
  have x: "look (\<lambda>k'. k' = k) (pe_params e') = look (\<lambda>k'. k' = k) (tls_flat yp ypr e sec (reality_on yp e reality))"
    if "k \<in> tls_keys" for k
    using free_of_exact [OF free(1) that] free_of_exact [OF free(2) that] by (simp add: ps tls_part_def)
  have sec': "fst sec \<noteq> ''sni''" "fst sec \<noteq> ''fp''" "\<not> key_is ''servername'' (fst sec)" "\<not> key_is ''alpn'' (fst sec)"
      "\<not> key_is ''reality-opts'' (fst sec)" "\<not> key_is ''pbk'' (fst sec)" "\<not> key_is ''sid'' (fst sec)"
    using sec by (auto simp: sec_values_def key_simps)
  show "look (\<lambda>k. k = ''sni'') (pe_params e') = sni_of e"
    using x [of "''sni''"] sec' by (simp add: flat tls_keys_def)
  show "look (\<lambda>k. k = ''fp'') (pe_params e') = non_empty_param e ''fp''"
    using x [of "''fp''"] sec' by (simp add: flat tls_keys_def)
  show "look (key_is ''servername'') (pe_params e') = None"
    using m [of "''servername''"] sec' by (simp add: flat tls_keys_def key_simps)
  show "look (key_is ''reality-opts'') (pe_params e') = None"
    using m [of "''reality-opts''"] sec' by (simp add: flat tls_keys_def key_simps)
  show "look (key_is ''alpn'') (pe_params e') = map_option (join '','') (param_list yp ypr e ''alpn'')"
    using m [of "''alpn''"] sec' by (simp add: flat tls_keys_def key_simps)
  show "look (key_is ''pbk'') (pe_params e') = (if reality_on yp e reality then reality_public_key yp e else None)"
    using m [of "''pbk''"] sec' by (simp add: flat tls_keys_def key_simps)
  show "look (key_is ''sid'') (pe_params e') = (if reality_on yp e reality then reality_short_id yp e else None)"
    using m [of "''sid''"] sec' by (simp add: flat tls_keys_def key_simps)
  have "\<not> is_insecure (security_param sec ron)" for ron
    using sec by (auto simp: security_param_def sec_values_def aliases lower_keys)
  then show "is_insecure (pe_params e') = is_insecure (pe_params e)"
    using ins by (simp add: ps tls_part_def tls_flat_def aliases lower_keys)
qed

section \<open>Storing\<close>

definition storable :: "Param \<Rightarrow> bool" where
  "storable p \<longleftrightarrow> LF \<notin> set (p_value p) \<and> CR \<notin> set (p_value p) \<and> param_capped p"

lemma finish_storable:
  assumes "list_all storable ps" "length ps \<le> MAX_QUERY_PARAMS"
    and "LF \<notin> set h \<and> CR \<notin> set h" "LF \<notin> set c \<and> CR \<notin> set c"
  shows "finish sch name (h, p) c ps = Inr \<lparr>pe_scheme = sch, pe_name = name, pe_host = h, pe_port = p,
     pe_credential = c, pe_params = ps, pe_raw_path = [], pe_raw_line = []\<rparr>"
  using assms by (auto simp: finish_def bind_res_Inr list_all_iff storable_def)

definition short_block :: "Param list \<Rightarrow> nat \<Rightarrow> bool" where
  "short_block ps n \<longleftrightarrow> list_all storable ps \<and> length ps \<le> n"

lemma short_block_append: "short_block xs m \<Longrightarrow> short_block ys n \<Longrightarrow> short_block (xs @ ys) (m + n)"
  by (simp add: short_block_def)

lemma short_block_push [simp]:
  "plain v \<Longrightarrow> length key \<le> MAX_PARAM_BYTES \<Longrightarrow> short_block (push_param b key v) (Suc 0)"
  "plain_opt w \<Longrightarrow> length key \<le> MAX_PARAM_BYTES \<Longrightarrow> short_block (push_some key w) (Suc 0)"
  by (auto simp: short_block_def push_param_def push_some_def storable_def param_capped_def plain_def
      split: option.split)

lemma short_block_weaken: "short_block ps m \<Longrightarrow> m \<le> n \<Longrightarrow> short_block ps n"
  by (simp add: short_block_def)

lemma short_block_Nil [simp]: "short_block [] n"
  by (simp add: short_block_def)

lemma short_tls_part:
  assumes "plain_tls yp ypr e" "sec \<in> sec_values"
  shows "short_block (tls_part yp ypr e sec en reality) 7"
proof -
  define ron where "ron = reality_on yp e reality"
  have alpn: "plain_opt (map_option (join '','') (param_list yp ypr e ''alpn''))"
    using assms(1) by (auto simp: plain_tls_def list_text_def split: option.splits)
  note p = assms(1) [unfolded plain_tls_def]
  have len: "length k \<le> MAX_PARAM_BYTES" if "length k \<le> 8192" for k :: string
    using that by (simp add: MAX_PARAM_BYTES_def)
  have "short_block (security_param sec ron) (Suc 0)"
    using assms(2) by (auto simp: security_param_def sec_values_def intro!: short_block_push len)
  moreover have "short_block (if ron then push_some ''pbk'' (reality_public_key yp e)
      @ push_some ''sid'' (reality_short_id yp e) else []) (Suc 0 + Suc 0)"
    using p by (cases ron) (auto intro!: short_block_append short_block_push len simp del: add_Suc add_Suc_right)
  moreover have "short_block (push_some ''sni'' (sni_of e)) (Suc 0)"
    "short_block (push_when (is_insecure (pe_params e)) ''insecure'' ''true'') (Suc 0)"
    "short_block (push_some ''alpn'' (map_option (join '','') (param_list yp ypr e ''alpn''))) (Suc 0)"
    "short_block (push_some ''fp'' (non_empty_param e ''fp'')) (Suc 0)"
    using p alpn by (auto simp: push_when_def intro!: short_block_push len)
  ultimately have "short_block (tls_flat yp ypr e sec ron) (Suc 0 + ((Suc 0 + Suc 0) + (Suc 0 + (Suc 0 + (Suc 0 + Suc 0)))))"
    unfolding tls_flat_def by (intro short_block_append)
  then have "short_block (tls_flat yp ypr e sec ron) 7" by (rule short_block_weaken) simp
  then show ?thesis by (simp add: tls_part_def ron_def)
qed

lemma short_transport_part:
  assumes "plain_transport e" "key = ''type'' \<or> key = ''net''"
  shows "short_block (transport_part e uri_key key) 3"
proof (cases "network_of e uri_key")
  case (Some net)
  have len: "length k \<le> MAX_PARAM_BYTES" if "length k \<le> 8192" for k :: string
    using that by (simp add: MAX_PARAM_BYTES_def)
  note parts = plain_transport_parts [OF assms(1)]
  show ?thesis
  proof (cases "net \<in> set networks")
    case True
    then have net: "net \<in> {''ws'', ''httpupgrade'', ''grpc'', ''h2'', ''http''}" by simp
    have "plain (net_read net)" using net by (auto simp: net_read_def)
    then have a: "short_block (push_param True key (net_read net)) (Suc 0)"
      using assms(2) by (intro short_block_push len) auto
    have b: "short_block (push_some ''path'' (param_value e ''path'')) (Suc 0)"
      "short_block (push_some ''host'' (host_written e net)) (Suc 0)"
      "short_block (push_some ''serviceName'' (service_written e)) (Suc 0)"
      using parts by (auto intro!: short_block_push len)
    from net have "short_block (transport_flat e uri_key net key) (Suc 0 + (Suc 0 + Suc 0))"
    proof (cases rule: net_cases)
      case up
      show ?thesis unfolding transport_flat_segments(1) [OF net up] by (intro short_block_append a b)
    next
      case grpc
      show ?thesis unfolding transport_flat_segments(2) [OF net grpc]
        by (rule short_block_weaken [OF short_block_append [OF a b(3)]]) simp
    next
      case h2
      show ?thesis unfolding transport_flat_segments(3) [OF net h2] by (intro short_block_append a b)
    qed
    then show ?thesis using Some True by (simp add: transport_part_def numeral_3_eq_3)
  qed (simp add: transport_part_def Some)
qed (simp add: transport_part_def)

end
