(* ===== verification/Singbox_Round_Trip.thy ===== *)
theory Singbox_Round_Trip
  imports Singbox_Properties
begin

text \<open>
  The round trip of the sing-box format, scheme by scheme: the outbound of an entry whose texts survive is
  read as an entry with the same outbound.
\<close>

section \<open>The common part of an outbound\<close>

lemma singbox_base_fields [simp]:
  "map_of (singbox_base e kind tag) ''server'' = Some (JString (pe_host e))"
  "map_of (singbox_base e kind tag) ''server_port'' = Some (num (pe_port e))"
  "map_of (singbox_base e kind tag) ''type'' = Some (JString kind)"
  "map_of (singbox_base e kind tag) ''tag'' = Some (JString tag)"
  "k \<notin> {''server'', ''server_port'', ''type'', ''tag''} \<Longrightarrow> map_of (singbox_base e kind tag) k = None"
  by (auto simp: singbox_base_def)

lemma str_field_base [simp]:
  "k \<notin> {''server'', ''server_port'', ''type'', ''tag''} \<Longrightarrow> str_field (singbox_base e kind tag) k = None"
  by (simp add: str_field_def)

lemma keys_in_base [simp]:
  "member ''server'' ks \<Longrightarrow> member ''server_port'' ks \<Longrightarrow> member ''type'' ks \<Longrightarrow> member ''tag'' ks \<Longrightarrow>
   keys_in ks (singbox_base e kind tag)"
  by (simp add: singbox_base_def)

lemma endpoint_read:
  assumes "map_of j ''server'' = Some (JString h)" "map_of j ''server_port'' = Some (num p)" "h \<noteq> []"
  shows "native_endpoint j = Inr (h, p)"
proof -
  have "uint p \<le> 65535" using unsigned_less [of p, where ?'a = int] by simp
  then show ?thesis using assms
    by (simp add: native_endpoint_def str_field_def ok_or_def port_field_def num_def)
qed

definition unbroken :: "string \<Rightarrow> bool" where
  "unbroken s \<longleftrightarrow> LF \<notin> set s \<and> CR \<notin> set s"

definition sane_entry :: "ProxyEntry \<Rightarrow> bool" where
  "sane_entry e \<longleftrightarrow> pe_host e \<noteq> [] \<and> unbroken (pe_host e) \<and> unbroken (pe_credential e)"

lemma finish_block:
  "short_block ps n \<Longrightarrow> n \<le> 256 \<Longrightarrow> unbroken h \<Longrightarrow> unbroken c \<Longrightarrow>
   finish sch name (h, p) c ps = Inr \<lparr>pe_scheme = sch, pe_name = name, pe_host = h, pe_port = p,
     pe_credential = c, pe_params = ps, pe_raw_path = [], pe_raw_line = []\<rparr>"
  by (rule finish_storable) (auto simp: short_block_def unbroken_def MAX_QUERY_PARAMS_def)

text \<open>The entry read keeps the identity of the entry written.\<close>

definition same_node :: "ProxyEntry \<Rightarrow> ProxyEntry \<Rightarrow> bool" where
  "same_node e' e \<longleftrightarrow> pe_scheme e' = pe_scheme e \<and> pe_host e' = pe_host e \<and> pe_port e' = pe_port e"

lemma same_node_base: "same_node e' e \<Longrightarrow> singbox_base e' kind tag = singbox_base e kind tag"
  by (simp add: singbox_base_def same_node_def)

section \<open>VLESS and Trojan\<close>

lemma tls_part_no_look:
  assumes "plain_tls yp ypr e" "sec \<in> sec_values"
    and "\<not> P (fst sec)" "\<not> P ''pbk''" "\<not> P ''sid''" "\<not> P ''sni''" "\<not> P ''insecure''" "\<not> P ''alpn''" "\<not> P ''fp''"
  shows "look P (tls_part yp ypr e sec en reality) = None"
  using assms(3-) by (simp add: tls_part_def look_tls_flat [OF assms(1,2)])

lemma free_tls_part:
  assumes "plain_tls yp ypr e" "sec \<in> sec_values"
    and ks: "\<And>k. k \<in> ks \<Longrightarrow> to_ascii_lowercase k \<notin>
      {''security'', ''tls'', ''pbk'', ''sid'', ''sni'', ''insecure'', ''alpn'', ''fp''}"
  shows "free_of ks (tls_part yp ypr e sec en reality)"
proof -
  have "to_ascii_lowercase (fst sec) \<in> {''security'', ''tls''}"
    using assms(2) by (auto simp: sec_values_def lower_keys)
  then have "look (key_is k) (tls_part yp ypr e sec en reality) = None" if "k \<in> ks" for k
    using ks [OF that] by (intro tls_part_no_look [OF assms(1,2)]) (auto simp: key_simps)
  then show ?thesis by (simp add: free_of_def)
qed

lemma free_transport_keys_tls:
  "plain_tls yp ypr e \<Longrightarrow> sec \<in> sec_values \<Longrightarrow>
   free_of {''type'', ''net'', ''path'', ''host'', ''serviceName'', ''network''} (tls_part yp ypr e sec en reality)"
  by (rule free_tls_part) (auto simp: lower_keys)

lemma free_transport_part:
  assumes "plain_transport e" "key = ''type'' \<or> key = ''net''"
    and "\<And>k. k \<in> ks \<Longrightarrow> to_ascii_lowercase k \<notin> {''type'', ''net'', ''path'', ''host'', ''servicename''}"
  shows "free_of ks (transport_part e uri_key key)"
proof -
  have "look (key_is k) (transport_part e uri_key key) = None" if "k \<in> ks" for k
    using assms(3) [OF that] assms(2) by (intro transport_part_no_look [OF assms(1)]) (auto simp: key_simps)
  then show ?thesis by (simp add: free_of_def)
qed

lemma not_insecure_transport:
  "key = ''type'' \<or> key = ''net'' \<Longrightarrow> \<not> is_insecure (transport_part e uri_key key)"
  by (auto simp: transport_part_def transport_flat_def aliases lower_keys split: option.split)

lemma free_tls_keys_transport:
  "plain_transport e \<Longrightarrow> key = ''type'' \<or> key = ''net'' \<Longrightarrow> free_of tls_keys (transport_part e uri_key key)"
  by (rule free_transport_part) (auto simp: tls_keys_def lower_keys)

lemma free_of_append [simp]: "free_of ks (xs @ ys) \<longleftrightarrow> free_of ks xs \<and> free_of ks ys"
  by (auto simp: free_of_def or_else_def split: option.splits)

lemma free_of_Nil [simp]: "free_of ks []"
  by (simp add: free_of_def)

lemma free_of_push_some:
  "plain_opt v \<Longrightarrow> to_ascii_lowercase key \<notin> to_ascii_lowercase ` ks \<Longrightarrow> free_of ks (push_some key v)"
  by (auto simp: free_of_def eq_ignore_ascii_case_def)

abbreviation transport_keys :: "string set" where
  "transport_keys \<equiv> {''type'', ''net'', ''path'', ''host'', ''serviceName'', ''network''}"

lemma transport_again':
  assumes "plain_transport e" "pe_params e' = pre @ transport_part e key key" "free_of transport_keys pre"
    and "key = ''type'' \<or> key = ''net''" "same_node e' e"
  shows "transport_object e' key = transport_object e key"
  using assms free_of_look [OF assms(3)] by (intro transport_again [OF assms(1,2)]) (auto simp: same_node_def)

text \<open>Whether a block is there at all depends on the stated toggle and the security word.\<close>

lemma param_look: "param e k = look (\<lambda>k'. k' = k) (pe_params e)"
  by (simp add: param_def look_def)

lemma stated_toggle_none: "look (key_is ''tls'') (pe_params e) = None \<Longrightarrow> stated_toggle e = None"
  by (simp add: stated_toggle_def param_value_look)

abbreviation uri_sec :: "string \<times> string" where
  "uri_sec \<equiv> (''security'', ''tls'')"

lemma uri_sec_value [simp]: "uri_sec \<in> sec_values"
  by (simp add: sec_values_def)

text \<open>An entry that was read with a TLS block wants TLS again, and REALITY when the block said so.\<close>

lemma wants_again:
  assumes tls: "plain_tls yp ypr e" and ps: "pe_params e' = pre @ tls_part yp ypr e uri_sec en reality @ post"
    and free: "free_of (insert ''tls'' (insert ''security'' tls_keys)) pre"
      "free_of (insert ''tls'' (insert ''security'' tls_keys)) post"
    and ins: "\<not> is_insecure pre" "\<not> is_insecure post"
  shows "wants_reality yp e' = (en \<and> reality_on yp e reality)" "wants_reality yp e' \<or> wants_tls e' \<longleftrightarrow> en"
proof -
  let ?flat = "tls_part yp ypr e uri_sec en reality"
  have m: "look (key_is k) (pe_params e') = look (key_is k) ?flat"
      "look (\<lambda>k'. k' = k) (pe_params e') = look (\<lambda>k'. k' = k) ?flat"
    if "k \<in> insert ''tls'' (insert ''security'' tls_keys)" for k
    using free_of_look [OF free(1) that] free_of_look [OF free(2) that]
      free_of_exact [OF free(1) that] free_of_exact [OF free(2) that] by (simp_all add: ps)
  note flat = look_tls_flat [OF tls uri_sec_value]
  note p = tls [unfolded plain_tls_def]
  have tog: "stated_toggle e' = None"
    using m(1) [of "''tls''"] by (intro stated_toggle_none) (simp add: tls_part_def flat key_simps)
  have sec: "param e' ''security'' =
      (if en then Some (if reality_on yp e reality then ''reality'' else ''tls'') else None)"
    using m(2) [of "''security''"] by (simp add: param_look tls_part_def flat)
  have "look (key_is ''security'') (pe_params e') =
      (if en then Some (if reality_on yp e reality then ''reality'' else ''tls'') else None)"
    using m(1) [of "''security''"] by (simp add: tls_part_def flat key_simps)
  then have sec': "param_value e' ''security'' =
      (if en then Some (if reality_on yp e reality then ''reality'' else ''tls'') else None)"
    by (rule param_value_look) simp
  have rpk: "reality_public_key yp e' = (if en \<and> reality_on yp e reality then reality_public_key yp e else None)"
    using m(1) [of "''reality-opts''"] m(1) [of "''pbk''"] p
    by (intro reality_public_look) (auto simp: tls_part_def flat key_simps tls_keys_def)
  show on: "wants_reality yp e' = (en \<and> reality_on yp e reality)"
    using sec' rpk by (auto simp: wants_reality_def security_is_def key_simps)
  have "sni_of e' = None" "\<not> is_insecure (pe_params e')" if "\<not> en"
    using that m [of "''sni''"] m [of "''servername''"] ins sni_look [of e' None]
    by (auto simp: tls_part_def tls_keys_def ps)
  then show "wants_reality yp e' \<or> wants_tls e' \<longleftrightarrow> en"
    using tog sec by (cases en) (auto simp: wants_tls_def on)
qed

lemma tls_again':
  assumes tls: "plain_tls yp ypr e" and ps: "pe_params e' = pre @ tls_part yp ypr e uri_sec en reality @ post"
    and free: "free_of (insert ''tls'' (insert ''security'' tls_keys)) pre"
      "free_of (insert ''tls'' (insert ''security'' tls_keys)) post"
    and ins: "\<not> is_insecure pre" "\<not> is_insecure post"
  shows "tls_object yp ypr e' (wants_reality yp e' \<or> wants_tls e') (wants_reality yp e') = tls_object yp ypr e en reality"
proof (cases en)
  case True
  have "free_of tls_keys pre" "free_of tls_keys post" using free by (simp_all add: free_of_def)
  note free' = this
  have "pe_params e' = pre @ tls_part yp ypr e uri_sec True reality @ post" using ps True by simp
  from tls_again [OF tls uri_sec_value this free' ins] True show ?thesis
    using wants_again [OF tls ps free ins] by simp
next
  case False
  then show ?thesis using wants_again [OF tls ps free ins] by (simp add: tls_object_def)
qed

lemma len_key: "length k \<le> 8192 \<Longrightarrow> length k \<le> MAX_PARAM_BYTES"
  by (simp add: MAX_PARAM_BYTES_def)

lemma vless_again:
  assumes scheme: "pe_scheme e = Vless" and sane: "sane_entry e" and cred: "pe_credential e \<noteq> []"
    and tls: "plain_tls yp ypr e" and tr: "plain_transport e" and flow: "plain_opt (non_empty_param e ''flow'')"
  shows "\<exists>e'. native_vless jp (singbox_vless yp ypr e tag) nm = Inr e' \<and> same_node e' e \<and> pe_name e' = nm \<and>
     pe_credential e' = pe_credential e \<and> singbox_vless yp ypr e' tag = singbox_vless yp ypr e tag"
proof -
  define reality where "reality = wants_reality yp e"
  define en where "en = (reality \<or> wants_tls e)"
  let ?sec = "(''security'', ''tls'')"
  let ?flow = "push_some ''flow'' (non_empty_param e ''flow'')"
  let ?tls = "tls_part yp ypr e ?sec en reality"
  let ?tr = "transport_part e ''type'' ''type''"
  define e' where "e' = \<lparr>pe_scheme = Vless, pe_name = nm, pe_host = pe_host e, pe_port = pe_port e,
    pe_credential = pe_credential e, pe_params = ?flow @ ?tls @ ?tr, pe_raw_path = [], pe_raw_line = []\<rparr>"
  have sec: "?sec \<in> sec_values" by (simp add: sec_values_def)
  have short: "short_block (?flow @ ?tls @ ?tr) (Suc 0 + (7 + 3))"
    using flow by (intro short_block_append short_block_push short_tls_part [OF tls sec] short_transport_part [OF tr] len_key)
      simp_all
  have "native_vless jp (singbox_vless yp ypr e tag) nm =
      finish Vless nm (pe_host e, pe_port e) (pe_credential e) (?flow @ ?tls @ ?tr)"
    using sane cred flow
    by (simp add: native_vless_def singbox_vless_def Let_def endpoint_read sane_entry_def required_str_def ok_or_def
        tls_transport_def obj_field_def tls_part_read [OF tls] transport_part_read [OF tr] tls_part_def reality_def en_def)
  then have read: "native_vless jp (singbox_vless yp ypr e tag) nm = Inr e'"
    using sane by (simp add: finish_block [OF short] e'_def sane_entry_def)
  have same: "same_node e' e" by (simp add: same_node_def e'_def scheme)
  have tobj: "transport_object e' ''type'' = transport_object e ''type''"
    by (rule transport_again' [OF tr, where pre = "?flow @ ?tls"])
      (use same free_transport_keys_tls [OF tls sec] flow in \<open>auto simp: e'_def lower_keys intro!: free_of_push_some\<close>)
  have rest: "free_of (insert ''tls'' (insert ''security'' tls_keys)) ?flow"
      "free_of (insert ''tls'' (insert ''security'' tls_keys)) ?tr" "\<not> is_insecure ?flow" "\<not> is_insecure ?tr"
    using flow not_insecure_transport
    by (auto intro!: free_of_push_some free_transport_part [OF tr] simp: tls_keys_def lower_keys aliases)
  have ps: "pe_params e' = ?flow @ ?tls @ ?tr" by (simp add: e'_def)
  have "non_empty_param e' ''flow'' = non_empty_param e ''flow''"
  proof (rule non_empty_param_look [OF _ flow])
    show "look (\<lambda>k'. k' = ''flow'') (pe_params e') = non_empty_param e ''flow''"
      using tls_part_no_look [OF tls sec, of "\<lambda>k'. k' = ''flow''"]
        transport_part_no_look [OF tr, of "\<lambda>k'. k' = ''flow''" "''type''"] flow
      by (simp add: ps)
  qed
  then have "singbox_vless yp ypr e' tag = singbox_vless yp ypr e tag"
    using tobj tls_again' [OF tls ps rest] same_node_base [OF same]
    by (simp add: singbox_vless_def Let_def en_def reality_def e'_def)
  then show ?thesis using read same by (auto simp: e'_def)
qed

lemma trojan_again:
  assumes scheme: "pe_scheme e = Trojan" and sane: "sane_entry e" and cred: "pe_credential e \<noteq> []"
    and tls: "plain_tls yp ypr e" and tr: "plain_transport e"
  shows "\<exists>e'. native_trojan jp (singbox_trojan yp ypr e tag) nm = Inr e' \<and> same_node e' e \<and> pe_name e' = nm \<and>
     singbox_trojan yp ypr e' tag = singbox_trojan yp ypr e tag"
proof -
  define reality where "reality = wants_reality yp e"
  let ?tls = "tls_part yp ypr e uri_sec True reality"
  let ?tr = "transport_part e ''type'' ''type''"
  define e' where "e' = \<lparr>pe_scheme = Trojan, pe_name = nm, pe_host = pe_host e, pe_port = pe_port e,
    pe_credential = pe_credential e, pe_params = ?tls @ ?tr, pe_raw_path = [], pe_raw_line = []\<rparr>"
  have short: "short_block (?tls @ ?tr) (7 + 3)"
    by (intro short_block_append short_tls_part [OF tls uri_sec_value] short_transport_part [OF tr]) simp
  have "native_trojan jp (singbox_trojan yp ypr e tag) nm =
      finish Trojan nm (pe_host e, pe_port e) (pe_credential e) (?tls @ ?tr)"
    using sane cred
    by (simp add: native_trojan_def singbox_trojan_def endpoint_read sane_entry_def required_str_def ok_or_def
        tls_transport_def obj_field_def tls_part_read [OF tls] transport_part_read [OF tr] tls_part_def reality_def)
  then have read: "native_trojan jp (singbox_trojan yp ypr e tag) nm = Inr e'"
    using sane by (simp add: finish_block [OF short] e'_def sane_entry_def)
  have same: "same_node e' e" by (simp add: same_node_def e'_def scheme)
  have tobj: "transport_object e' ''type'' = transport_object e ''type''"
    by (rule transport_again' [OF tr, where pre = ?tls])
      (use same free_transport_keys_tls [OF tls uri_sec_value] in \<open>auto simp: e'_def\<close>)
  have rest: "free_of (insert ''tls'' (insert ''security'' tls_keys)) ?tr" "\<not> is_insecure ?tr"
    using not_insecure_transport
    by (auto intro!: free_transport_part [OF tr] simp: tls_keys_def lower_keys)
  have ps: "pe_params e' = [] @ ?tls @ ?tr" by (simp add: e'_def)
  have "tls_object yp ypr e' True (wants_reality yp e') = tls_object yp ypr e True reality"
    using wants_again(1) [OF tls ps _ rest(1) _ rest(2)] rest
    by (intro tls_again [OF tls uri_sec_value ps]) (auto simp: free_of_def)
  then have "singbox_trojan yp ypr e' tag = singbox_trojan yp ypr e tag"
    using tobj same_node_base [OF same] by (simp add: singbox_trojan_def reality_def e'_def)
  then show ?thesis using read same by (auto simp: e'_def)
qed

section \<open>VMess\<close>

lemma alter_id_range: "0 \<le> alter_id parse_u64 e" "alter_id parse_u64 e < 2 ^ 64"
  by (auto simp: alter_id_def parse_u64_def parse_unsigned_def Let_def split: option.splits bind_splits if_splits)

lemma dec_int_nonneg: "0 \<le> n \<Longrightarrow> dec_int n = dec_nat (nat n)"
  by (simp add: dec_int_def)

abbreviation vmess_sec :: "string \<times> string" where
  "vmess_sec \<equiv> (''tls'', ''tls'')"

lemma vmess_sec_value [simp]: "vmess_sec \<in> sec_values"
  by (simp add: sec_values_def)

lemma vmess_again:
  assumes scheme: "pe_scheme e = Vmess" and sane: "sane_entry e" and cred: "pe_credential e \<noteq> []"
    and tls: "plain_tls yp ypr e" and tr: "plain_transport e" and cipher: "plain (vmess_cipher e)"
  shows "\<exists>e'. native_vmess jp (singbox_vmess yp ypr e tag) nm = Inr e' \<and> same_node e' e \<and> pe_name e' = nm \<and>
     singbox_vmess yp ypr e' tag = singbox_vmess yp ypr e tag"
proof -
  define aid where "aid = dec_int (alter_id parse_u64 e)"
  have aid: "plain aid" "parse_u64 aid = Some (alter_id parse_u64 e)"
    using alter_id_range [of e]
    by (auto simp: aid_def dec_int_nonneg parse_u64_def nat_less_iff intro!: plain_dec_nat exI [of _ "nat (alter_id parse_u64 e)"]
        parse_unsigned_dec_nat)
  let ?pre = "push_some ''scy'' (Some (vmess_cipher e)) @ push_some ''aid'' (Some aid)"
  let ?tls = "tls_part yp ypr e vmess_sec (vmess_tls e) False"
  let ?tr = "transport_part e ''net'' ''net''"
  define e' where "e' = \<lparr>pe_scheme = Vmess, pe_name = nm, pe_host = pe_host e, pe_port = pe_port e,
    pe_credential = pe_credential e, pe_params = ?pre @ ?tls @ ?tr, pe_raw_path = [], pe_raw_line = []\<rparr>"
  have short: "short_block (?pre @ ?tls @ ?tr) ((Suc 0 + Suc 0) + (7 + 3))"
    using cipher aid
    by (intro short_block_append short_block_push short_tls_part [OF tls vmess_sec_value] short_transport_part [OF tr]
        len_key) simp_all
  have "native_vmess jp (singbox_vmess yp ypr e tag) nm =
      finish Vmess nm (pe_host e, pe_port e) (pe_credential e) (?pre @ ?tls @ ?tr)"
    using sane cred cipher
    by (simp add: native_vmess_def singbox_vmess_def endpoint_read sane_entry_def required_str_def ok_or_def
        tls_transport_def obj_field_def tls_part_read [OF tls] transport_part_read [OF tr] tls_part_def
        json_to_param_value_def aid_def plain_def)
  then have read: "native_vmess jp (singbox_vmess yp ypr e tag) nm = Inr e'"
    using sane by (simp add: finish_block [OF short] e'_def sane_entry_def del: append_assoc)
  have same: "same_node e' e" by (simp add: same_node_def e'_def scheme)
  have pre: "free_of (transport_keys \<union> insert ''tls'' (insert ''security'' tls_keys)) ?pre" "\<not> is_insecure ?pre"
    using cipher aid by (auto intro!: free_of_push_some simp: tls_keys_def lower_keys aliases)
  have tobj: "transport_object e' ''net'' = transport_object e ''net''"
    by (rule transport_again' [OF tr, where pre = "?pre @ ?tls"])
      (use same free_transport_keys_tls [OF tls vmess_sec_value] pre in \<open>auto simp: e'_def free_of_def\<close>)
  have rest: "free_of (insert ''tls'' (insert ''security'' (insert ''scy'' (insert ''aid'' tls_keys)))) ?tr"
      "\<not> is_insecure ?tr"
    using not_insecure_transport
    by (auto intro!: free_transport_part [OF tr] simp: tls_keys_def lower_keys)
  have ps: "pe_params e' = ?pre @ ?tls @ ?tr" by (simp add: e'_def)
  have "look (key_is ''tls'') (pe_params e') = (if vmess_tls e then Some ''tls'' else None)"
    "look (key_is ''security'') (pe_params e') = None"
    using pre(1) rest(1) cipher aid
    by (simp_all add: ps tls_part_def look_tls_flat [OF tls vmess_sec_value] key_simps free_of_def)
  then have "vmess_tls e' = vmess_tls e"
    using param_value_look [of "''tls''" e'] param_value_look [of "''security''" e'] param_truthy_look [of "''tls''" e']
    by (simp add: vmess_tls_def param_value_is_def security_is_def key_simps)
  moreover have "tls_object yp ypr e' True False = tls_object yp ypr e True False" if "vmess_tls e"
  proof (rule tls_again [OF tls vmess_sec_value])
    show "pe_params e' = ?pre @ tls_part yp ypr e vmess_sec True False @ ?tr" using ps that by simp
  qed (use pre rest in \<open>auto simp: free_of_def reality_on_def\<close>)
  moreover have "look (key_is ''scy'') (pe_params e') = Some (vmess_cipher e)"
    "look (key_is ''aid'') (pe_params e') = Some aid"
    using cipher aid by (simp_all add: ps key_simps)
  then have "vmess_cipher e' = vmess_cipher e" "alter_id parse_u64 e' = alter_id parse_u64 e"
    using param_value_look [of "''scy''" e'] param_value_look [of "''aid''" e'] cipher aid
    by (simp_all add: vmess_cipher_def alter_id_def)
  ultimately have "singbox_vmess yp ypr e' tag = singbox_vmess yp ypr e tag"
    using tobj same_node_base [OF same]
    by (cases "vmess_tls e") (simp_all add: singbox_vmess_def e'_def tls_object_def)
  then show ?thesis using read same by (auto simp: e'_def)
qed

section \<open>Shadowsocks\<close>

text \<open>The plugin name and options as the writer splits them.\<close>

definition plugin_parts :: "string \<Rightarrow> string \<times> string" where
  "plugin_parts raw =
     (case split_once (CHR '';'') raw of
        None \<Rightarrow> (trim raw, [])
      | Some (a, b) \<Rightarrow> (trim a, trim_end_semicolons (trim b)))"

definition plain_plugin :: "ProxyEntry \<Rightarrow> bool" where
  "plain_plugin e \<longleftrightarrow>
     (case param_value e ''plugin'' of
        None \<Rightarrow> True
      | Some raw \<Rightarrow> (case plugin_parts raw of (name, opts) \<Rightarrow>
          name = [] \<or> plain (sip003 name opts) \<and> trim_end_semicolons (trim opts) = opts))"

definition written_plugin :: "ProxyEntry \<Rightarrow> (string \<times> string) option" where
  "written_plugin e =
     (case param_value e ''plugin'' of
        None \<Rightarrow> None
      | Some raw \<Rightarrow> if fst (plugin_parts raw) = [] then None else Some (plugin_parts raw))"

lemma singbox_plugin_written:
  "singbox_plugin e m =
     (case written_plugin e of
        None \<Rightarrow> m
      | Some (name, opts) \<Rightarrow> jput_if (opts \<noteq> []) ''plugin_opts'' (JString opts) (jput ''plugin'' (JString name) m))"
  by (auto simp: singbox_plugin_def written_plugin_def plugin_parts_def Let_def jput_if_def
      split: option.split prod.split simp del: split_once_None)

lemma plugin_parts_again:
  assumes "plugin_parts raw = (name, opts)" "name \<noteq> []" "trim_end_semicolons (trim opts) = opts"
  shows "plugin_parts (sip003 name opts) = (name, opts)"
proof -
  obtain a where a: "name = trim a" "CHR '';'' \<notin> set a"
  proof (cases "split_once (CHR '';'') raw")
    case None
    then have "CHR '';'' \<notin> set raw" by simp
    then show ?thesis using that [of raw] None assms(1) by (simp add: plugin_parts_def del: split_once_None)
  next
    case (Some ab)
    then show ?thesis using that [of "fst ab"] assms(1)
      by (cases ab) (auto simp: plugin_parts_def split_once_Some split_once_append simp del: split_once_None)
  qed
  then have name: "trim name = name" "CHR '';'' \<notin> set name" using set_trim [of a] by auto
  show ?thesis
  proof (cases "opts = []")
    case True
    have "split_once (CHR '';'') name = None" using name by simp
    then show ?thesis using True name by (simp add: plugin_parts_def sip003_def del: split_once_None)
  next
    case False
    have "split_once (CHR '';'') (name @ CHR '';'' # opts) = Some (name, opts)"
      using name by (simp add: split_once_append)
    then show ?thesis using False name assms(3) by (simp add: plugin_parts_def sip003_def)
  qed
qed

lemma written_plugin_again:
  assumes e: "plain_plugin e"
    and e': "param_value e' ''plugin'' = map_option (\<lambda>(n, o'). sip003 n o') (written_plugin e)"
  shows "written_plugin e' = written_plugin e"
proof (cases "written_plugin e")
  case None
  then show ?thesis using e' by (simp add: written_plugin_def)
next
  case (Some no)
  obtain n o' where no: "no = (n, o')" by force
  obtain raw where raw: "param_value e ''plugin'' = Some raw" "plugin_parts raw = (n, o')" "n \<noteq> []"
    using Some by (auto simp: written_plugin_def no split: option.splits if_splits)
  then have "trim_end_semicolons (trim o') = o'" using e by (simp add: plain_plugin_def)
  then have "plugin_parts (sip003 n o') = (n, o')" using plugin_parts_again raw by blast
  moreover have "param_value e' ''plugin'' = Some (sip003 n o')" using e' Some no by simp
  ultimately show ?thesis using raw Some no by (simp add: written_plugin_def [of e'])
qed

lemma ss_again:
  assumes scheme: "pe_scheme e = Ss" and sane: "sane_entry e" and meth: "fst (ss_credential e) \<noteq> []"
    and plugin: "plain_plugin e"
  shows "\<exists>e'. native_ss jp (singbox_ss e tag) nm = Inr e' \<and> same_node e' e \<and> pe_name e' = nm \<and>
     singbox_ss e' tag = singbox_ss e tag"
proof -
  obtain me pw where mp: "ss_credential e = (me, pw)" by force
  have me: "me \<noteq> []" "CHR '':'' \<notin> set me" "unbroken (me @ '':'' @ pw)"
    using mp meth sane
    by (auto simp: ss_credential_def split_once_Some unbroken_def sane_entry_def split: option.splits)
  let ?ps = "push_some ''plugin'' (map_option (\<lambda>(n, o'). sip003 n o') (written_plugin e))"
  have plain: "plain_opt (map_option (\<lambda>(n, o'). sip003 n o') (written_plugin e))"
    using plugin by (auto simp: plain_plugin_def written_plugin_def split: option.splits)
  then have short: "short_block ?ps (Suc 0)" by (intro short_block_push len_key) simp_all
  define e' where "e' = \<lparr>pe_scheme = Ss, pe_name = nm, pe_host = pe_host e, pe_port = pe_port e,
    pe_credential = me @ '':'' @ pw, pe_params = ?ps, pe_raw_path = [], pe_raw_line = []\<rparr>"
  have wp: "\<And>n o'. written_plugin e = Some (n, o') \<Longrightarrow> n \<noteq> []"
    by (auto simp: written_plugin_def split: option.splits if_splits)
  have "native_ss jp (singbox_ss e tag) nm = finish Ss nm (pe_host e, pe_port e) (me @ '':'' @ pw) ?ps"
  proof (cases "written_plugin e")
    case None
    then show ?thesis using sane me mp
      by (simp add: native_ss_def singbox_ss_def singbox_plugin_written endpoint_read sane_entry_def
          required_str_def ok_or_def unwrap_or_default_def push_some_def)
  next
    case (Some no)
    then obtain n o' where no: "written_plugin e = Some (n, o')" by force
    then show ?thesis using sane me mp wp [OF no]
      by (simp add: native_ss_def singbox_ss_def singbox_plugin_written endpoint_read sane_entry_def
          required_str_def ok_or_def unwrap_or_default_def push_some_def str_field_def jput_if_def)
  qed
  then have read: "native_ss jp (singbox_ss e tag) nm = Inr e'"
    using sane me by (simp add: finish_block [OF short] e'_def sane_entry_def)
  have same: "same_node e' e" by (simp add: same_node_def e'_def scheme)
  have "ss_credential e' = (me, pw)"
    using me by (simp add: ss_credential_def e'_def split_once_append)
  moreover have "param_value e' ''plugin'' = map_option (\<lambda>(n, o'). sip003 n o') (written_plugin e)"
    by (rule param_value_look [OF _ plain]) (use plain in \<open>simp add: e'_def key_simps\<close>)
  then have "written_plugin e' = written_plugin e" using written_plugin_again [OF plugin] by blast
  ultimately have "singbox_ss e' tag = singbox_ss e tag"
    using mp same_node_base [OF same] by (simp add: singbox_ss_def singbox_plugin_written)
  then show ?thesis using read same by (auto simp: e'_def)
qed

section \<open>Hysteria2\<close>

lemma rate_of_bound: "rate_of v = Some n \<Longrightarrow> n < 2 ^ 32"
  by (auto simp: rate_of_def parse_u32_def parse_unsigned_def Let_def split: if_splits)

lemma rate_of_dec_nat:
  assumes "n < 2 ^ 32"
  shows "rate_of (dec_nat n) = Some n"
proof -
  have "n < 2 ^ 64" using assms by simp
  then have "trim (dec_nat n) = dec_nat n" using plain_dec_nat plain_parts by blast
  moreover have "dropWhile (\<lambda>c. \<not> is_digit c) (rev (dec_nat n)) = rev (dec_nat n)"
    using dec_nat_mem [of "hd (rev (dec_nat n))" n] by (cases "rev (dec_nat n)") (auto simp: hd_rev)
  ultimately show ?thesis using assms by (simp add: rate_of_def parse_u32_def parse_unsigned_dec_nat)
qed

definition rate :: "ProxyEntry \<Rightarrow> string \<Rightarrow> string \<Rightarrow> nat option" where
  "rate e k1 k2 = Option.bind (or_else (param_value e k1) (param_value e k2)) rate_of"

lemma rate_bound: "rate e k1 k2 = Some n \<Longrightarrow> n < 2 ^ 32"
  using rate_of_bound by (fastforce simp: rate_def split: bind_splits)

lemma plain_rate: "plain_opt (map_option dec_nat (rate e k1 k2))"
  using rate_bound [of e k1 k2] by (cases "rate e k1 k2") (auto intro: plain_dec_nat)

lemma rate_again:
  assumes "look (key_is k1) (pe_params e') = map_option dec_nat (rate e k1 k2)" "look (key_is k2) (pe_params e') = None"
  shows "rate e' k1 k2 = rate e k1 k2"
  using param_value_look [OF assms(1) plain_rate] param_value_look [OF assms(2)] rate_bound [of e k1 k2]
  by (cases "rate e k1 k2") (auto simp: rate_def [of e'] rate_of_dec_nat)

lemma put_rate_rate: "put_rate e out k1 k2 m = jput_opt out (map_option (\<lambda>n. JInt (int n)) (rate e k1 k2)) m"
  by (simp add: put_rate_def rate_def)

lemma rate_param_read:
  "map_of j key = map_option (\<lambda>n. JInt (int n)) (rate e k1 k2) \<Longrightarrow>
   rate_param j key out = push_some out (map_option dec_nat (rate e k1 k2))"
  using rate_bound [of e k1 k2] by (cases "rate e k1 k2") (simp_all add: rate_param_def)

definition obfs_part :: "ProxyEntry \<Rightarrow> Param list" where
  "obfs_part e =
     (case non_empty_param e ''obfs'' of
        None \<Rightarrow> []
      | Some obfs \<Rightarrow> push_some ''obfs'' (Some obfs) @ push_some ''obfs-password'' (non_empty_param e ''obfs-password''))"

lemma hysteria2_again:
  assumes scheme: "pe_scheme e = Hysteria2" and sane: "sane_entry e" and cred: "pe_credential e \<noteq> []"
    and tls: "plain_tls yp ypr e"
    and obfs: "plain_opt (non_empty_param e ''obfs'')" "plain_opt (non_empty_param e ''obfs-password'')"
  shows "\<exists>e'. native_hysteria2 jp (singbox_hysteria2 yp ypr e tag) nm = Inr e' \<and> same_node e' e \<and> pe_name e' = nm \<and>
     singbox_hysteria2 yp ypr e' tag = singbox_hysteria2 yp ypr e tag"
proof -
  let ?tls = "tls_part yp ypr e uri_sec True False"
  let ?up = "push_some ''upMbps'' (map_option dec_nat (rate e ''upMbps'' ''up''))"
  let ?down = "push_some ''downMbps'' (map_option dec_nat (rate e ''downMbps'' ''down''))"
  let ?post = "obfs_part e @ ?up @ ?down"
  define e' where "e' = \<lparr>pe_scheme = Hysteria2, pe_name = nm, pe_host = pe_host e, pe_port = pe_port e,
    pe_credential = pe_credential e, pe_params = ?tls @ ?post, pe_raw_path = [], pe_raw_line = []\<rparr>"
  have "short_block (obfs_part e) (Suc 0 + Suc 0)" using obfs
    by (cases "non_empty_param e ''obfs''")
      (auto simp: obfs_part_def intro!: short_block_append short_block_push len_key simp del: add_Suc add_Suc_right)
  then have short: "short_block (?tls @ ?post) (7 + ((Suc 0 + Suc 0) + (Suc 0 + Suc 0)))"
    by (intro short_block_append short_block_push short_tls_part [OF tls uri_sec_value] plain_rate len_key) simp_all
  have ob: "with_object (Option.bind (map_option (obfs_object e) (non_empty_param e ''obfs'')) as_object) obfs_params =
      obfs_part e"
    using obfs by (cases "non_empty_param e ''obfs''")
      (simp_all add: with_object_def obfs_object_def obfs_params_def obfs_part_def plain_def push_some_def)
  have "native_hysteria2 jp (singbox_hysteria2 yp ypr e tag) nm =
      finish Hysteria2 nm (pe_host e, pe_port e) (pe_credential e) (?tls @ ?post)"
    using sane cred tls_part_read [OF tls, where en = True]
    by (simp add: native_hysteria2_def singbox_hysteria2_def put_rate_rate endpoint_read sane_entry_def
        required_str_def ok_or_def obj_field_def ob rate_param_read tls_part_def)
  then have read: "native_hysteria2 jp (singbox_hysteria2 yp ypr e tag) nm = Inr e'"
    using sane by (simp add: finish_block [OF short] e'_def sane_entry_def del: append_assoc)
  have same: "same_node e' e" by (simp add: same_node_def e'_def scheme)
  have obfs_free: "free_of ks (obfs_part e)"
    if "to_ascii_lowercase ` ks \<inter> {''obfs'', ''obfs-password''} = {}" for ks
    using obfs that by (cases "non_empty_param e ''obfs''")
      (auto simp: obfs_part_def lower_keys intro!: free_of_push_some)
  have post: "free_of tls_keys ?post" "\<not> is_insecure ?post"
    using obfs by (auto intro!: obfs_free free_of_push_some plain_rate simp: tls_keys_def lower_keys)
      (auto simp: obfs_part_def aliases lower_keys split: option.splits)
  have ps: "pe_params e' = [] @ ?tls @ ?post" by (simp add: e'_def)
  have t: "tls_object yp ypr e' True False = tls_object yp ypr e True False"
    using post by (intro tls_again [OF tls uri_sec_value ps]) (auto simp: reality_on_def)
  have none: "look P ?tls = None" if "\<not> P ''security''" "\<not> P ''pbk''" "\<not> P ''sid''" "\<not> P ''sni''" "\<not> P ''insecure''"
      "\<not> P ''alpn''" "\<not> P ''fp''" for P
    using that by (intro tls_part_no_look [OF tls uri_sec_value]) auto
  have lo: "look P (obfs_part e) = (if non_empty_param e ''obfs'' = None then None
      else if P ''obfs'' then non_empty_param e ''obfs''
      else if P ''obfs-password'' then non_empty_param e ''obfs-password'' else None)" for P
    using obfs by (cases "non_empty_param e ''obfs''") (auto simp: obfs_part_def)
  have r: "rate e' ''upMbps'' ''up'' = rate e ''upMbps'' ''up''"
    "rate e' ''downMbps'' ''down'' = rate e ''downMbps'' ''down''"
    by (rule rate_again; simp add: e'_def none lo plain_rate key_simps)+
  have o: "non_empty_param e' ''obfs'' = non_empty_param e ''obfs''"
    by (rule non_empty_param_look [OF _ obfs(1)]) (simp add: e'_def none lo plain_rate)
  have op: "non_empty_param e' ''obfs-password'' =
      (if non_empty_param e ''obfs'' = None then None else non_empty_param e ''obfs-password'')"
    by (rule non_empty_param_look) (use obfs in \<open>simp_all add: e'_def none lo plain_rate\<close>)
  have "map_option (obfs_object e') (non_empty_param e' ''obfs'') = map_option (obfs_object e) (non_empty_param e ''obfs'')"
    by (cases "non_empty_param e ''obfs''") (simp_all add: o op obfs_object_def)
  moreover have "pe_credential e' = pe_credential e" by (simp add: e'_def)
  ultimately have "singbox_hysteria2 yp ypr e' tag = singbox_hysteria2 yp ypr e tag"
    using t same_node_base [OF same] by (simp add: singbox_hysteria2_def put_rate_rate r)
  then show ?thesis using read same by (auto simp: e'_def)
qed

section \<open>SOCKS5\<close>

lemma truthy_true: "is_truthy_toggle ''true''"
  by (simp add: is_truthy_toggle_def trim_graph graph_char_def code_def lower_keys)

lemma socks_again:
  assumes scheme: "pe_scheme e = Socks5" and sane: "sane_entry e" and sni: "plain_opt (sni_of e)"
  shows "\<exists>e'. native_socks jp (singbox_socks5 e tag) nm = Inr e' \<and> same_node e' e \<and> pe_name e' = nm \<and>
     singbox_socks5 e' tag = singbox_socks5 e tag"
proof -
  obtain us pw where up: "socks_user e = (us, pw)" by force
  have us: "CHR '':'' \<notin> set us" "unbroken (us @ '':'' @ pw)"
    using up sane
    by (auto simp: socks_user_def split_once_Some unbroken_def sane_entry_def split: option.splits)
  define tls where "tls = param_truthy e ''tls''"
  let ?ps = "if tls then push_param True ''tls'' ''true'' @ push_some ''sni'' (sni_of e)
    @ push_when (is_insecure (pe_params e)) ''insecure'' ''true'' else []"
  define e' where "e' = \<lparr>pe_scheme = Socks5, pe_name = nm, pe_host = pe_host e, pe_port = pe_port e,
    pe_credential = us @ '':'' @ pw, pe_params = ?ps, pe_raw_path = [], pe_raw_line = []\<rparr>"
  have short: "short_block ?ps (Suc 0 + (Suc 0 + Suc 0))"
  proof -
    have "short_block (push_when (is_insecure (pe_params e)) ''insecure'' ''true'') (Suc 0)"
      by (auto simp: push_when_def intro!: short_block_push len_key)
    then show ?thesis using sni
      by (auto intro!: short_block_append short_block_push len_key simp del: add_Suc add_Suc_right)
  qed
  have block: "with_object (Some (tls_common e)) socks_tls = push_param True ''tls'' ''true'' @ push_some ''sni'' (sni_of e)
      @ push_when (is_insecure (pe_params e)) ''insecure'' ''true''"
    using sni by (simp add: with_object_def socks_tls_def tls_common_def bool_field_def)
  have "native_socks jp (singbox_socks5 e tag) nm = finish Socks5 nm (pe_host e, pe_port e) (us @ '':'' @ pw) ?ps"
    using sane block
    by (simp add: native_socks_def singbox_socks5_def endpoint_read sane_entry_def obj_field_def minimal_tls_def up
        str_field_def unwrap_or_default_def with_object_def [of None] tls_def)
  then have read: "native_socks jp (singbox_socks5 e tag) nm = Inr e'"
    using sane us by (simp add: finish_block [OF short] e'_def sane_entry_def)
  have same: "same_node e' e" by (simp add: same_node_def e'_def scheme)
  have "socks_user e' = (us, pw)" using us by (simp add: socks_user_def e'_def split_once_append)
  moreover have "param_truthy e' ''tls'' = tls"
    using param_truthy_look [of "''tls''" e' "if tls then Some ''true'' else None"] sni
    by (simp add: e'_def key_simps truthy_true)
  moreover have "tls_common e' = tls_common e" if tls
  proof -
    have "sni_of e' = sni_of e" using sni that by (intro sni_look) (simp_all add: e'_def key_simps)
    moreover have "is_insecure (pe_params e') = is_insecure (pe_params e)"
      using that by (simp add: e'_def aliases lower_keys)
    ultimately show ?thesis by (simp add: tls_common_def)
  qed
  ultimately have "singbox_socks5 e' tag = singbox_socks5 e tag"
    using up same_node_base [OF same] by (cases tls) (simp_all add: singbox_socks5_def minimal_tls_def tls_def jput_if_def)
  then show ?thesis using read same by (auto simp: e'_def)
qed

section \<open>Every scheme\<close>

text \<open>
  The entries whose texts survive the two trips: nothing in them is changed by trimming or percent decoding,
  holds a line break or exceeds the cap, and a list is its own reading.
\<close>

definition plain_entry :: "(string \<Rightarrow> yaml option) \<Rightarrow> (yaml \<Rightarrow> string option) \<Rightarrow> ProxyEntry \<Rightarrow> bool" where
  "plain_entry yp ypr e \<longleftrightarrow> sane_entry e \<and>
     (pe_scheme e \<in> {Vless, Vmess, Trojan, Hysteria2} \<longrightarrow> pe_credential e \<noteq> [] \<and> plain_tls yp ypr e) \<and>
     (pe_scheme e \<in> {Vless, Vmess, Trojan} \<longrightarrow> plain_transport e) \<and>
     (pe_scheme e = Vless \<longrightarrow> plain_opt (non_empty_param e ''flow'')) \<and>
     (pe_scheme e = Vmess \<longrightarrow> plain (vmess_cipher e)) \<and>
     (pe_scheme e = Hysteria2 \<longrightarrow>
        plain_opt (non_empty_param e ''obfs'') \<and> plain_opt (non_empty_param e ''obfs-password'')) \<and>
     (pe_scheme e = Ss \<longrightarrow> fst (ss_credential e) \<noteq> [] \<and> plain_plugin e) \<and>
     (pe_scheme e = Socks5 \<longrightarrow> plain_opt (sni_of e))"

definition singbox_kind :: "Scheme \<Rightarrow> string option" where
  "singbox_kind s = map_of [(Vless, ''vless''), (Vmess, ''vmess''), (Trojan, ''trojan''), (Ss, ''shadowsocks''),
     (Hysteria2, ''hysteria2''), (Socks5, ''socks'')] s"

lemma outbound_head:
  assumes "entry_to_outbound yp ypr e = Some j"
  shows "text_field j ''tag'' = Some (pe_name e)"
    "text_field j ''type'' = singbox_kind (pe_scheme e)"
proof -
  have plugin: "map_of (singbox_plugin e m) k = map_of m k" if "k = ''tag'' \<or> k = ''type''" for m k
    using that by (auto simp: singbox_plugin_written split: option.split prod.split)
  show "text_field j ''tag'' = Some (pe_name e)"
    using assms
    by (cases "pe_scheme e") (auto simp: entry_to_outbound_def entry_to_outbound_named_def text_field_def Let_def
      singbox_vless_def singbox_vmess_def singbox_trojan_def singbox_ss_def singbox_hysteria2_def singbox_socks5_def
      put_rate_def plugin)
  show "text_field j ''type'' = singbox_kind (pe_scheme e)"
    using assms
    by (cases "pe_scheme e") (auto simp: entry_to_outbound_def entry_to_outbound_named_def text_field_def Let_def
      singbox_vless_def singbox_vmess_def singbox_trojan_def singbox_ss_def singbox_hysteria2_def singbox_socks5_def
      put_rate_def plugin singbox_kind_def)
qed

lemma built_again:
  assumes "entry_to_outbound yp ypr e = Some j" "plain_entry yp ypr e" "text_field j ''type'' = Some kind"
  shows "\<exists>b e'. native_builder kind = Some b \<and> b jp j (pe_name e) = Inr e' \<and> same_node e' e \<and>
     pe_name e' = pe_name e \<and> entry_to_outbound yp ypr e' = Some j"
proof -
  note p = assms(2) [unfolded plain_entry_def]
  note out = entry_to_outbound_def entry_to_outbound_named_def
  have kind: "singbox_kind (pe_scheme e) = Some kind" using outbound_head(2) [OF assms(1)] assms(3) by simp
  consider (vless) "pe_scheme e = Vless" "kind = ''vless''" | (vmess) "pe_scheme e = Vmess" "kind = ''vmess''"
    | (trojan) "pe_scheme e = Trojan" "kind = ''trojan''" | (ss) "pe_scheme e = Ss" "kind = ''shadowsocks''"
    | (hysteria2) "pe_scheme e = Hysteria2" "kind = ''hysteria2''" | (socks) "pe_scheme e = Socks5" "kind = ''socks''"
    using kind by (cases "pe_scheme e") (auto simp: singbox_kind_def)
  then show ?thesis
  proof cases
    case vless
    then show ?thesis using p vless_again [OF vless(1), of yp ypr jp "pe_name e" "pe_name e"] assms(1)
      by (auto simp: out native_builder_def same_node_def)
  next
    case vmess
    then show ?thesis using p vmess_again [OF vmess(1), of yp ypr jp "pe_name e" "pe_name e"] assms(1)
      by (auto simp: out native_builder_def same_node_def)
  next
    case trojan
    then show ?thesis using p trojan_again [OF trojan(1), of yp ypr jp "pe_name e" "pe_name e"] assms(1)
      by (auto simp: out native_builder_def same_node_def)
  next
    case ss
    then show ?thesis using p ss_again [OF ss(1), of jp "pe_name e" "pe_name e"] assms(1)
      by (auto simp: out native_builder_def same_node_def)
  next
    case hysteria2
    then show ?thesis using p hysteria2_again [OF hysteria2(1), of yp ypr jp "pe_name e" "pe_name e"] assms(1)
      by (auto simp: out native_builder_def same_node_def)
  next
    case socks
    then show ?thesis using p socks_again [OF socks(1), of jp "pe_name e" "pe_name e"] assms(1)
      by (auto simp: out native_builder_def same_node_def)
  qed
qed

text \<open>
  C26: the sing-box reader inverts the sing-box writer. The outbound of an entry whose texts survive trimming
  and percent decoding is read as exactly one entry, with the same scheme, name, host and port, and that
  entry is written as the same outbound, TLS, REALITY, transport, plugin and rates included.
\<close>

theorem singbox_round_trip:
  assumes "entry_to_outbound yp ypr e = Some j" "plain_entry yp ypr e"
  shows "\<exists>e'. parse_outbound jp (JObject j) r = r\<lparr>sb_entries := sb_entries r @ [e']\<rparr> \<and>
     pe_scheme e' = pe_scheme e \<and> pe_name e' = pe_name e \<and> pe_host e' = pe_host e \<and> pe_port e' = pe_port e \<and>
     entry_to_outbound yp ypr e' = Some j"
proof -
  obtain kind where kind: "text_field j ''type'' = Some kind" "\<not> member kind NON_PROXY_TYPES"
    using outbound_head(2) [OF assms(1)] assms(1)
    by (cases "pe_scheme e") (auto simp: singbox_kind_def NON_PROXY_TYPES_def entry_to_outbound_def
        entry_to_outbound_named_def)
  obtain b e' where b: "native_builder kind = Some b" "b jp j (pe_name e) = Inr e'" "same_node e' e"
      "pe_name e' = pe_name e" "entry_to_outbound yp ypr e' = Some j"
    using built_again [OF assms kind(1)] by blast
  have "parse_outbound jp (JObject j) r = r\<lparr>sb_entries := sb_entries r @ [e']\<rparr>"
    using kind b outbound_head(1) [OF assms(1)]
    by (simp add: parse_outbound_def dialect_def build_outbound_def unwrap_or_default_def del: member_simps)
  then show ?thesis using b by (auto simp: same_node_def)
qed

text \<open>A VLESS entry over TLS and a websocket.\<close>

definition sample_vless :: ProxyEntry where
  "sample_vless = \<lparr>pe_scheme = Vless, pe_name = ''n'', pe_host = ''h.io'', pe_port = 443, pe_credential = ''u'',
     pe_params = push_some ''security'' (Some ''tls'') @ push_some ''sni'' (Some ''a.b'')
       @ push_some ''type'' (Some ''ws'') @ push_some ''path'' (Some ''/p''),
     pe_raw_path = [], pe_raw_line = []\<rparr>"

lemma sample_texts [simp]: "plain ''a.b''" "plain ''/p''"
  by (auto intro!: plain_ascii simp: graph_char_def code_def MAX_PARAM_BYTES_def)

lemma sample_look:
  "look P (pe_params sample_vless) =
     (if P ''security'' then Some ''tls'' else if P ''sni'' then Some ''a.b''
      else if P ''type'' then Some ''ws'' else if P ''path'' then Some ''/p'' else None)"
  by (simp add: sample_vless_def)

lemma sample_values:
  "param_value sample_vless ''path'' = Some ''/p''" "param_value sample_vless ''type'' = Some ''ws''"
  "param_value sample_vless ''host'' = None" "param_value sample_vless ''serviceName'' = None"
  "param_value sample_vless ''security'' = Some ''tls''"
  "sni_of sample_vless = Some ''a.b''" "non_empty_param sample_vless ''fp'' = None"
  "non_empty_param sample_vless ''flow'' = None" "param_list yp ypr sample_vless ''alpn'' = None"
  "reality_public_key yp sample_vless = None" "reality_short_id yp sample_vless = None"
  by (rule param_value_look sni_look non_empty_param_look reality_public_look reality_short_look
        param_list_look [where yp = yp]; simp add: sample_look key_simps)+

lemma sample_plain: "plain_entry yp ypr sample_vless"
proof -
  have "sane_entry sample_vless" "pe_credential sample_vless \<noteq> []" "pe_scheme sample_vless = Vless"
    by (simp_all add: sane_entry_def unbroken_def sample_vless_def)
  then show ?thesis
    by (simp add: plain_entry_def plain_tls_def plain_transport_def sample_values)
qed

theorem singbox_round_trip_witness:
  "\<exists>j e'. entry_to_outbound (\<lambda>_. None) (\<lambda>_. None) sample_vless = Some j \<and>
     parse_outbound (\<lambda>_. []) (JObject j) no_result = no_result\<lparr>sb_entries := [e']\<rparr> \<and>
     entry_to_outbound (\<lambda>_. None) (\<lambda>_. None) e' = Some j \<and> pe_host e' = ''h.io''"
proof -
  have "pe_scheme sample_vless = Vless" by (simp add: sample_vless_def)
  then obtain j where j: "entry_to_outbound (\<lambda>_. None) (\<lambda>_. None) sample_vless = Some j"
    by (simp add: entry_to_outbound_def entry_to_outbound_named_def)
  from singbox_round_trip [OF this sample_plain, of "\<lambda>_. []" no_result] show ?thesis
    using j by (auto simp: no_result_def sample_vless_def)
qed

end
