(* ===== verification/Writer_Agreement.thy ===== *)
theory Writer_Agreement
  imports Singbox_Round_Trip
begin

text \<open>
  The Clash and the sing-box writer side by side: whether they wrap the same entry in TLS, and what the
  percent decoding of both does to values that were never encoded.
\<close>

section \<open>Keys of a Clash item\<close>

lemma yget_Nil [simp]: "yget [] k = None"
  by (simp add: yget_def)

lemma yget_yput [simp]: "yget (yput k v m) k' = (if k' = k then Some v else yget m k')"
  by (simp add: yget_def yput_def)

lemma yget_yput_opt [simp]:
  "yget (yput_opt k v m) k' = (if k' = k then or_else v (yget m k) else yget m k')"
  by (simp add: yput_opt_def split: option.split)

lemma yget_yput_if [simp]: "yget (yput_if b k v m) k' = (if b \<and> k' = k then Some v else yget m k')"
  by (simp add: yput_if_def)

lemma yget_copy_param [simp]: "k' \<noteq> dst \<Longrightarrow> yget (copy_param e src dst m) k' = yget m k'"
  by (simp add: copy_param_def)

lemma yget_blocks [simp]:
  "k \<noteq> ''reality-opts'' \<Longrightarrow> yget (put_reality_opts yp e m) k = yget m k"
  "k \<noteq> ''alpn'' \<Longrightarrow> yget (put_alpn yp ypr e m) k = yget m k"
  by (simp_all add: put_reality_opts_def put_alpn_def Let_def)

definition transport_keys :: "string set" where
  "transport_keys = {''network'', ''ws-opts'', ''grpc-opts'', ''h2-opts'', ''http-opts''}"

lemma yget_opts:
  assumes "k \<notin> transport_keys"
  shows "yget (put_ws_opts yp e up m) k = yget m k" "yget (put_grpc_opts yp e m) k = yget m k"
    "yget (put_h2_opts yp e m) k = yget m k" "yget (put_http_opts e m) k = yget m k"
proof -
  have ks: "k \<noteq> ''network''" "k \<noteq> ''ws-opts''" "k \<noteq> ''grpc-opts''" "k \<noteq> ''h2-opts''" "k \<noteq> ''http-opts''"
    using assms by (auto simp: transport_keys_def)
  show "yget (put_ws_opts yp e up m) k = yget m k" unfolding put_ws_opts_def Let_def
    by (subst if_distrib [of "\<lambda>x. yget x k"]) (simp only: yget_yput ks if_False if_cancel)
  show "yget (put_grpc_opts yp e m) k = yget m k" unfolding put_grpc_opts_def Let_def
    by (simp only: yget_yput_opt ks if_False)
  show "yget (put_h2_opts yp e m) k = yget m k" unfolding put_h2_opts_def Let_def
    by (subst if_distrib [of "\<lambda>x. yget x k"]) (simp only: yget_yput ks if_False if_cancel)
  show "yget (put_http_opts e m) k = yget m k" unfolding put_http_opts_def Let_def
    by (subst if_distrib [of "\<lambda>x. yget x k"]) (simp only: yget_yput ks if_False if_cancel)
qed

lemma yget_transport [simp]:
  assumes "k \<notin> transport_keys"
  shows "yget (put_transport yp e key m) k = yget m k"
proof -
  have net: "yget (yput ''network'' v m) k = yget m k" for v m using assms by (simp add: transport_keys_def)
  show ?thesis unfolding put_transport_def
    by (cases "map_option to_ascii_lowercase (or_else (param_value e key) (param_value e ''network''))")
      (simp_all only: option.simps if_distrib [of "\<lambda>x. yget x k"] yget_opts [OF assms] net if_cancel)
qed

lemma yget_copies:
  "k \<notin> snd ` set copies \<Longrightarrow> yget (foldl (\<lambda>m (src, dst). copy_param e src dst m) m copies) k = yget m k"
proof (induction copies arbitrary: m)
  case (Cons c copies)
  obtain src dst where c: "c = (src, dst)" by fastforce
  have "k \<noteq> dst" "k \<notin> snd ` set copies" using Cons.prems unfolding c by auto
  with Cons.IH [of "copy_param e src dst m"] show ?case unfolding c by simp
qed simp

lemma yget_plugin:
  "k \<notin> {''plugin'', ''plugin-opts''} \<Longrightarrow> yget (put_plugin_opts opts m) k = yget m k"
  by (simp add: put_plugin_opts_def)

lemma yget_ss_plugin:
  assumes "k \<notin> {''plugin'', ''plugin-opts''}"
  shows "yget (put_ss_plugin e m) k = yget m k"
proof (cases "param_value e ''plugin''")
  case (Some raw)
  obtain kvs flags where "foldl (\<lambda>acc p. plugin_part p acc) ([], []) (tl (split_on (CHR '';'') raw)) = (kvs, flags)"
    by fastforce
  then show ?thesis unfolding put_ss_plugin_def Some Let_def option.case prod.case
    using assms by (simp add: if_distrib [of "\<lambda>x. yget x k"] yget_plugin cong: if_cong)
qed (simp add: put_ss_plugin_def)

definition clash_has_tls :: "yaml option \<Rightarrow> bool" where
  "clash_has_tls item \<longleftrightarrow> Option.bind (Option.bind item as_mapping) (\<lambda>m. yget m ''tls'') = Some (YBool True)"

definition singbox_has_tls :: "jmap option \<Rightarrow> bool" where
  "singbox_has_tls item \<longleftrightarrow> Option.bind item (\<lambda>m. map_of m ''tls'') \<noteq> None"

lemma clash_vless_tls:
  assumes "pe_scheme e = Vless"
  shows "clash_has_tls (entry_to_clash yp ypr e) \<longleftrightarrow>
     security_is e ''tls'' \<or> security_is e ''reality'' \<or> param_truthy e ''tls''"
  using assms
  by (simp add: clash_has_tls_def entry_to_clash_def entry_to_clash_named_def clash_scheme_def clash_vless_def
      tls_block_def transport_keys_def Let_def)

lemma clash_vmess_tls:
  assumes "pe_scheme e = Vmess"
  shows "clash_has_tls (entry_to_clash yp ypr e) \<longleftrightarrow> vmess_tls e"
  using assms
  by (simp add: clash_has_tls_def entry_to_clash_def entry_to_clash_named_def clash_scheme_def clash_vmess_def
      tls_block_def transport_keys_def Let_def)

lemma tls_object_exists: "tls_object yp ypr e en reality = None \<longleftrightarrow> \<not> en"
  by (simp add: tls_object_def Let_def)

lemma singbox_vless_tls:
  assumes "pe_scheme e = Vless"
  shows "singbox_has_tls (entry_to_outbound yp ypr e) \<longleftrightarrow> wants_reality yp e \<or> wants_tls e"
  using assms tls_object_exists [of yp ypr e]
  by (simp add: singbox_has_tls_def entry_to_outbound_def entry_to_outbound_named_def singbox_vless_def Let_def
      del: not_None_eq)

lemma singbox_vmess_tls:
  assumes "pe_scheme e = Vmess"
  shows "singbox_has_tls (entry_to_outbound yp ypr e) \<longleftrightarrow> vmess_tls e"
  using assms tls_object_exists [of yp ypr e]
  by (simp add: singbox_has_tls_def entry_to_outbound_def entry_to_outbound_named_def singbox_vmess_def Let_def
      del: not_None_eq)

lemma vmess_writers_agree:
  "pe_scheme e = Vmess \<Longrightarrow> clash_has_tls (entry_to_clash yp ypr e) = singbox_has_tls (entry_to_outbound yp ypr e)"
  by (simp add: clash_vmess_tls singbox_vmess_tls)

section \<open>Where the writers part\<close>

definition vless_with :: "Param list \<Rightarrow> ProxyEntry" where
  "vless_with ps = \<lparr>pe_scheme = Vless, pe_name = ''n'', pe_host = ''h.io'', pe_port = 443, pe_credential = ''u'',
     pe_params = ps, pe_raw_path = [], pe_raw_line = []\<rparr>"

lemma vless_with_fields [simp]: "pe_scheme (vless_with ps) = Vless" "pe_params (vless_with ps) = ps"
  by (simp_all add: vless_with_def)

abbreviation (input) upper_security :: "Param list" where
  "upper_security \<equiv> push_some ''security'' (Some ''TLS'')"

abbreviation (input) tls_word :: "Param list" where
  "tls_word \<equiv> push_some ''tls'' (Some ''tls'')"

abbreviation (input) tls_off :: "Param list" where
  "tls_off \<equiv> push_some ''security'' (Some ''tls'') @ push_some ''tls'' (Some ''0'')"

lemma more_texts [simp]: "plain ''TLS''" "plain ''tls''" "plain ''0''"
  by (auto intro!: plain_ascii simp: graph_char_def code_def MAX_PARAM_BYTES_def)

lemma lower_words [simp]:
  "to_ascii_lowercase ''TLS'' = ''tls''" "to_ascii_lowercase ''0'' = ''0''" "to_ascii_lowercase ''reality'' = ''reality''"
  by code_simp+

lemma trim_words [simp]: "trim ''tls'' = ''tls''" "trim ''0'' = ''0''"
  using more_texts by (simp_all add: plain_def)

lemma toggle_values:
  "\<not> is_truthy_toggle ''tls''" "\<not> is_truthy_toggle ''0''"
  "toggle_word ''tls'' = Some True" "toggle_word ''0'' = Some False"
  by (simp_all add: is_truthy_toggle_def toggle_word_def lower_keys)

text \<open>
  The two writers read the same VLESS parameters differently: each emits TLS for an entry the other
  leaves in clear text.
\<close>

theorem vless_writers_disagree:
  "clash_has_tls (entry_to_clash yp ypr (vless_with upper_security)) \<and>
   \<not> singbox_has_tls (entry_to_outbound yp ypr (vless_with upper_security)) \<and>
   \<not> clash_has_tls (entry_to_clash yp ypr (vless_with tls_word)) \<and>
   singbox_has_tls (entry_to_outbound yp ypr (vless_with tls_word)) \<and>
   clash_has_tls (entry_to_clash yp ypr (vless_with tls_off)) \<and>
   \<not> singbox_has_tls (entry_to_outbound yp ypr (vless_with tls_off))"
proof -
  have sec: "param_value (vless_with upper_security) ''security'' = Some ''TLS''"
    "param_value (vless_with tls_word) ''security'' = None" "param_value (vless_with tls_off) ''security'' = Some ''tls''"
    "param_value (vless_with upper_security) ''tls'' = None" "param_value (vless_with tls_word) ''tls'' = Some ''tls''"
    "param_value (vless_with tls_off) ''tls'' = Some ''0''"
    by (rule param_value_look; simp add: key_simps)+
  have rest: "reality_public_key yp (vless_with ps) = None" "sni_of (vless_with ps) = None" "\<not> is_insecure ps"
    if "ps = upper_security \<or> ps = tls_word \<or> ps = tls_off" for ps
    using that by (auto intro!: reality_public_look sni_look simp: key_simps INSECURE_ALIASES_def)
  have truthy: "\<not> param_truthy (vless_with tls_word) ''tls''"
    by (subst param_truthy_look [where v = "Some ''tls''"]) (simp_all add: key_simps toggle_values)
  have exact: "param (vless_with upper_security) ''security'' = Some ''TLS''"
    "param (vless_with tls_word) ''security'' = None"
    by (simp_all add: param_def push_some_def push_param_def)
  have c: "security_is (vless_with upper_security) ''tls''" "security_is (vless_with tls_off) ''tls''"
    "\<not> security_is (vless_with tls_word) w" "\<not> security_is (vless_with upper_security) ''reality''"
    "\<not> security_is (vless_with tls_off) ''reality''" for w
    by (simp_all add: security_is_def sec key_simps)
  have stated: "stated_toggle (vless_with upper_security) = None" "stated_toggle (vless_with tls_word) = Some True"
    "stated_toggle (vless_with tls_off) = Some False"
    by (simp_all add: stated_toggle_def sec toggle_values lower_keys)
  show ?thesis
    unfolding clash_vless_tls [OF vless_with_fields(1)] singbox_vless_tls [OF vless_with_fields(1)]
    by (simp add: c truthy stated exact wants_tls_def wants_reality_def rest)
qed

section \<open>Values that were never encoded\<close>

text \<open>A structured feed carries plain values. One that holds a percent sign before two hex digits is decoded
  all the same: the path \<open>/a%2Fb\<close> of a sing-box outbound is printed as \<open>/a/b\<close>.\<close>

lemma percent_path_text:
  "trim ''/a%2Fb'' = ''/a%2Fb''" "percent_decode ''/a%2Fb'' = ''/a/b''"
proof -
  show "trim ''/a%2Fb'' = ''/a%2Fb''" by (rule trim_graph) (simp add: graph_char_def code_def)
  show "percent_decode ''/a%2Fb'' = ''/a/b''" by code_simp
qed

theorem percent_path_rewritten:
  "param_value (vless_with (native_transport_params jp
       [(''type'', JString ''ws''), (''path'', JString ''/a%2Fb'')] ''type'')) ''path'' = Some ''/a/b''"
  by (simp add: param_value_def param_ignore_case_def native_transport_params_def str_field_def transport_fields_def
      push_param_def push_some_def key_simps percent_path_text)

end
