(* ===== verification/Catalog.thy ===== *)
theory Catalog
  imports Db Json
begin

text \<open>
  \<open>repo/sources.rs\<close>, \<open>repo/profiles.rs\<close>, \<open>repo/fetch_log.rs\<close> and the \<open>meta\<close> functions of \<open>repo/mod.rs\<close>:
  the catalog of sources and profiles around the proxy tables of \<open>Db\<close>, with the unique keys, the foreign
  keys and the cascades of the migrations. Columns that hold JSON text (tags, headers, pipeline, countries)
  carry the value itself. A statement that violates a constraint is an error and changes nothing.
\<close>

section \<open>Rows\<close>

record Source =
  so_id :: string
  so_slug :: "string option"
  so_name :: string
  so_url :: string
  so_enabled :: bool
  so_encoding :: Encoding
  so_input_format :: "InputFormat option"
  so_protocols :: "Scheme list option"
  so_cache_ttl_seconds :: int
  so_tags :: "string list option"
  so_pipeline :: "json option"
  so_headers :: "(string \<times> string) list option"
  so_ip_family :: "IpFamily option"
  so_created_at :: int
  so_updated_at :: int
  so_last_fetched_at :: "int option"
  so_last_error :: "string option"
  so_error_class :: "ErrorClass option"

record Profile =
  pf_id :: string
  pf_slug :: "string option"
  pf_access_token :: "string option"
  pf_name :: string
  pf_output_format :: OutputFormat
  pf_pipeline :: "json option"
  pf_countries :: "string list"
  pf_enabled :: bool
  pf_created_at :: int
  pf_updated_at :: int

record Member =
  m_profile :: string
  m_source :: string
  m_position :: int

record FetchLogEntry =
  fe_source_id :: string
  fe_fetched_at :: int
  fe_ok :: bool
  fe_http_status :: "int option"
  fe_bytes :: "int option"
  fe_proxies_found :: "int option"
  fe_error :: "string option"
  fe_error_class :: "ErrorClass option"

record FetchLogRow =
  fl_id :: nat
  fl_entry :: FetchLogEntry
  fl_duration_ms :: "int option"

record Store =
  st_db :: Db
  st_sources :: "Source list"
  st_profiles :: "Profile list"
  st_members :: "Member list"
  st_journal :: "FetchLogRow list"
  st_next_log :: nat
  st_meta :: "string \<rightharpoonup> string"

definition row_not_found :: error where
  "row_not_found = Database ''no rows returned by a query that expected to return at least one row'' []"

definition foreign_key_failed :: error where
  "foreign_key_failed = Database ''FOREIGN KEY constraint failed'' []"

definition unique_violation :: error where
  "unique_violation = Database ''UNIQUE constraint failed'' []"

section \<open>Keys\<close>

text \<open>A slug is \<open>UNIQUE\<close>, which lets any number of rows have none.\<close>

definition slug_free :: "('a \<Rightarrow> string option) \<Rightarrow> string option \<Rightarrow> 'a list \<Rightarrow> bool" where
  "slug_free slug s rows \<longleftrightarrow> s = None \<or> \<not> list_ex (\<lambda>r. slug r = s) rows"

definition keyed :: "('a \<Rightarrow> string) \<Rightarrow> ('a \<Rightarrow> string option) \<Rightarrow> 'a list \<Rightarrow> bool" where
  "keyed key slug rows \<longleftrightarrow> distinct (map key rows) \<and> distinct (List.map_filter slug rows)"

definition find_key :: "('a \<Rightarrow> string) \<Rightarrow> string \<Rightarrow> 'a list \<Rightarrow> 'a option" where
  "find_key key i rows = find (\<lambda>r. key r = i) rows"

definition put_row :: "('a \<Rightarrow> string) \<Rightarrow> 'a \<Rightarrow> 'a list \<Rightarrow> 'a list" where
  "put_row key r rows = map (\<lambda>q. if key q = key r then r else q) rows"

definition drop_row :: "('a \<Rightarrow> string) \<Rightarrow> string \<Rightarrow> 'a list \<Rightarrow> 'a list" where
  "drop_row key i rows = filter (\<lambda>r. key r \<noteq> i) rows"

text \<open>\<open>WHERE slug = ? OR id = ? ORDER BY slug IS NULL LIMIT 1\<close>, over the rows in scan order.\<close>

definition resolve_row :: "('a \<Rightarrow> string) \<Rightarrow> ('a \<Rightarrow> string option) \<Rightarrow> string \<Rightarrow> 'a list \<Rightarrow> 'a option" where
  "resolve_row key slug token rows =
     (case sort_key (\<lambda>r. slug r = None) (filter (\<lambda>r. slug r = Some token \<or> key r = token) rows) of
        [] \<Rightarrow> None | r # _ \<Rightarrow> Some r)"

section \<open>Sources\<close>

definition get_source :: "Store \<Rightarrow> string \<Rightarrow> Source option" where
  "get_source st i = find_key so_id i (st_sources st)"

definition get_many :: "Store \<Rightarrow> string list \<Rightarrow> string \<rightharpoonup> Source" where
  "get_many st ids = (\<lambda>i. if i \<in> set ids then get_source st i else None)"

definition source_by_slug :: "Store \<Rightarrow> string \<Rightarrow> Source option" where
  "source_by_slug st slug = find (\<lambda>s. so_slug s = Some slug) (st_sources st)"

definition resolve_source :: "Store \<Rightarrow> string \<Rightarrow> Source option" where
  "resolve_source st token = resolve_row so_id so_slug token (st_sources st)"

definition list_sources :: "bool \<Rightarrow> Store \<Rightarrow> Source list" where
  "list_sources enabled_only st =
     sort_key so_created_at (filter (\<lambda>s. enabled_only \<longrightarrow> so_enabled s) (st_sources st))"

definition create_source :: "Source \<Rightarrow> Store \<Rightarrow> error + Store" where
  "create_source s st =
     (if find_key so_id (so_id s) (st_sources st) \<noteq> None \<or> \<not> slug_free so_slug (so_slug s) (st_sources st)
      then Inl unique_violation
      else Inr (st\<lparr>st_sources := st_sources st @ [s]\<rparr>))"

definition fetch_stamp_stale :: "Source \<Rightarrow> Source \<Rightarrow> bool" where
  "fetch_stamp_stale old new \<longleftrightarrow>
     so_url old \<noteq> so_url new \<or> so_enabled old \<noteq> so_enabled new \<or> so_encoding old \<noteq> so_encoding new \<or>
     so_input_format old \<noteq> so_input_format new \<or> so_protocols old \<noteq> so_protocols new \<or>
     so_cache_ttl_seconds old \<noteq> so_cache_ttl_seconds new \<or> so_pipeline old \<noteq> so_pipeline new \<or>
     so_headers old \<noteq> so_headers new \<or> so_ip_family old \<noteq> so_ip_family new"

definition updated_source :: "Source \<Rightarrow> Source \<Rightarrow> Source" where
  "updated_source existing s =
     s\<lparr>so_created_at := so_created_at existing,
       so_last_fetched_at := if fetch_stamp_stale existing s then None else so_last_fetched_at s\<rparr>"

definition update_source :: "Source \<Rightarrow> Store \<Rightarrow> error + Store" where
  "update_source s st =
     (case get_source st (so_id s) of
        None \<Rightarrow> Inl row_not_found
      | Some existing \<Rightarrow>
          if \<not> slug_free so_slug (so_slug s) (drop_row so_id (so_id s) (st_sources st))
          then Inl unique_violation
          else Inr (st\<lparr>st_sources := put_row so_id (updated_source existing s) (st_sources st)\<rparr>))"

text \<open>\<open>ON DELETE CASCADE\<close>: memberships, proxy links and journal rows go with the source.\<close>

definition delete_source :: "string \<Rightarrow> Store \<Rightarrow> bool \<times> Store" where
  "delete_source i st =
     (get_source st i \<noteq> None,
      if get_source st i = None then st
      else st\<lparr>st_sources := drop_row so_id i (st_sources st),
        st_members := filter (\<lambda>m. m_source m \<noteq> i) (st_members st),
        st_journal := filter (\<lambda>r. fe_source_id (fl_entry r) \<noteq> i) (st_journal st),
        st_db := (st_db st)\<lparr>links := filter (\<lambda>l. l_source l \<noteq> i) (links (st_db st))\<rparr>\<rparr>)"

datatype FetchOutcome = FetchSuccess int | FetchFailure int string ErrorClass

definition write_outcome :: "FetchOutcome \<Rightarrow> Source \<Rightarrow> Source" where
  "write_outcome outcome s =
     (case outcome of
        FetchSuccess at' \<Rightarrow>
          s\<lparr>so_last_fetched_at := Some at', so_last_error := None, so_error_class := None, so_updated_at := at'\<rparr>
      | FetchFailure _ err cls \<Rightarrow> s\<lparr>so_last_error := Some err, so_error_class := Some cls\<rparr>)"

definition record_fetch_outcome :: "string \<Rightarrow> FetchOutcome \<Rightarrow> Store \<Rightarrow> Store" where
  "record_fetch_outcome i outcome st =
     st\<lparr>st_sources := map (\<lambda>s. if so_id s = i then write_outcome outcome s else s) (st_sources st)\<rparr>"

section \<open>Profiles\<close>

definition get_profile :: "Store \<Rightarrow> string \<Rightarrow> Profile option" where
  "get_profile st i = find_key pf_id i (st_profiles st)"

definition resolve_profile :: "Store \<Rightarrow> string \<Rightarrow> Profile option" where
  "resolve_profile st token = resolve_row pf_id pf_slug token (st_profiles st)"

text \<open>The countries of a stored profile are normalized when the row is read.\<close>

definition normalize_countries :: "string list \<Rightarrow> string list" where
  "normalize_countries codes =
     retain_first id [] (filter (\<lambda>c. c \<noteq> []) (map (\<lambda>c. to_ascii_uppercase (trim c)) codes))"

definition stored_profile :: "Profile \<Rightarrow> Profile" where
  "stored_profile p = p\<lparr>pf_countries := normalize_countries (pf_countries p)\<rparr>"

definition create_profile :: "Profile \<Rightarrow> Store \<Rightarrow> error + Store" where
  "create_profile p st =
     (if find_key pf_id (pf_id p) (st_profiles st) \<noteq> None \<or> \<not> slug_free pf_slug (pf_slug p) (st_profiles st)
      then Inl unique_violation
      else Inr (st\<lparr>st_profiles := st_profiles st @ [stored_profile p]\<rparr>))"

definition update_profile :: "Profile \<Rightarrow> Store \<Rightarrow> error + Store" where
  "update_profile p st =
     (case get_profile st (pf_id p) of
        None \<Rightarrow> Inl row_not_found
      | Some existing \<Rightarrow>
          if \<not> slug_free pf_slug (pf_slug p) (drop_row pf_id (pf_id p) (st_profiles st))
          then Inl unique_violation
          else Inr (st\<lparr>st_profiles := put_row pf_id
            ((stored_profile p)\<lparr>pf_created_at := pf_created_at existing\<rparr>) (st_profiles st)\<rparr>))"

definition delete_profile :: "string \<Rightarrow> Store \<Rightarrow> bool \<times> Store" where
  "delete_profile i st =
     (get_profile st i \<noteq> None,
      st\<lparr>st_profiles := drop_row pf_id i (st_profiles st),
         st_members := filter (\<lambda>m. m_profile m \<noteq> i) (st_members st)\<rparr>)"

fun insert_members :: "string \<Rightarrow> (string \<times> int) list \<Rightarrow> Store \<Rightarrow> error + Store" where
  "insert_members p [] st = Inr st"
| "insert_members p ((s, pos) # rest) st =
     (if list_ex (\<lambda>m. m_profile m = p \<and> m_source m = s) (st_members st) then Inl unique_violation
      else if get_profile st p = None \<or> get_source st s = None then Inl foreign_key_failed
      else insert_members p rest
        (st\<lparr>st_members := st_members st @ [\<lparr>m_profile = p, m_source = s, m_position = pos\<rparr>]\<rparr>))"

definition set_sources :: "string \<Rightarrow> (string \<times> int) list \<Rightarrow> Store \<Rightarrow> error + Store" where
  "set_sources p sources st =
     insert_members p sources (st\<lparr>st_members := filter (\<lambda>m. m_profile m \<noteq> p) (st_members st)\<rparr>)"

definition get_sources :: "Store \<Rightarrow> string \<Rightarrow> (string \<times> int) list" where
  "get_sources st p =
     map (\<lambda>m. (m_source m, m_position m))
       (sort_key (\<lambda>m. (m_position m, m_source m)) (filter (\<lambda>m. m_profile m = p) (st_members st)))"

text \<open>The counts of the panel: \<open>list_with_counts\<close> and \<open>dedup_stats\<close> for one profile.\<close>

definition reachable_rows :: "Store \<Rightarrow> string \<Rightarrow> ProxyRow list" where
  "reachable_rows st p =
     concat (map (\<lambda>m. concat (map (\<lambda>l. filter (\<lambda>r. r_id r = l_proxy l) (proxies (st_db st)))
         (filter (\<lambda>l. l_source l = m_source m) (links (st_db st)))))
       (filter (\<lambda>m. m_profile m = p) (st_members st)))"

definition sources_count :: "Store \<Rightarrow> string \<Rightarrow> nat" where
  "sources_count st p = length (filter (\<lambda>m. m_profile m = p) (st_members st))"

definition proxies_count :: "Store \<Rightarrow> string \<Rightarrow> nat" where
  "proxies_count st p =
     length (remdups (map r_id (filter (\<lambda>r. r_status r = Ready) (reachable_rows st p))))"

definition dedup_stats :: "Store \<Rightarrow> string \<Rightarrow> nat \<times> nat" where
  "dedup_stats st p =
     (length (reachable_rows st p), length (remdups (map r_fingerprint (reachable_rows st p))))"

section \<open>The fetch journal\<close>

definition insert_timed :: "FetchLogEntry \<Rightarrow> int option \<Rightarrow> Store \<Rightarrow> error + Store" where
  "insert_timed e duration st =
     (if get_source st (fe_source_id e) = None then Inl foreign_key_failed
      else Inr (st\<lparr>st_journal := st_journal st @ [\<lparr>fl_id = st_next_log st, fl_entry = e, fl_duration_ms = duration\<rparr>],
        st_next_log := Suc (st_next_log st)\<rparr>))"

text \<open>\<open>ORDER BY fetched_at DESC, id DESC\<close>: the rows lie in id order.\<close>

definition journal_newest_first :: "FetchLogRow list \<Rightarrow> FetchLogRow list" where
  "journal_newest_first rows = rev (sort_key (\<lambda>r. fe_fetched_at (fl_entry r)) rows)"

definition of_source :: "string \<Rightarrow> FetchLogRow \<Rightarrow> bool" where
  "of_source i r \<longleftrightarrow> fe_source_id (fl_entry r) = i"

definition recent_for_source :: "Store \<Rightarrow> string \<Rightarrow> nat \<Rightarrow> FetchLogRow list" where
  "recent_for_source st i lim = take lim (journal_newest_first (filter (of_source i) (st_journal st)))"

definition list_for_source :: "Store \<Rightarrow> string \<Rightarrow> nat \<Rightarrow> nat \<Rightarrow> FetchLogRow list" where
  "list_for_source st i lim offset = take lim (drop offset (journal_newest_first (filter (of_source i) (st_journal st))))"

definition journal_filter :: "bool option \<Rightarrow> string \<Rightarrow> string \<Rightarrow> FetchLogRow \<Rightarrow> bool" where
  "journal_filter ok cls source r \<longleftrightarrow>
     (case ok of Some b \<Rightarrow> fe_ok (fl_entry r) = b | None \<Rightarrow> True) \<and>
     (cls \<noteq> [] \<longrightarrow> map_option error_class_as_str (fe_error_class (fl_entry r)) = Some cls) \<and>
     (source \<noteq> [] \<longrightarrow> of_source source r)"

definition count_filtered :: "Store \<Rightarrow> (FetchLogRow \<Rightarrow> bool) \<Rightarrow> nat" where
  "count_filtered st f = length (filter f (st_journal st))"

definition list_page :: "Store \<Rightarrow> (FetchLogRow \<Rightarrow> bool) \<Rightarrow> nat \<Rightarrow> nat \<Rightarrow> FetchLogRow list" where
  "list_page st f lim offset = take lim (drop offset (journal_newest_first (filter f (st_journal st))))"

definition purge_log_before :: "int \<Rightarrow> Store \<Rightarrow> nat \<times> Store" where
  "purge_log_before cutoff st =
     (length (filter (\<lambda>r. fe_fetched_at (fl_entry r) < cutoff) (st_journal st)),
      st\<lparr>st_journal := filter (\<lambda>r. \<not> fe_fetched_at (fl_entry r) < cutoff) (st_journal st)\<rparr>)"

section \<open>Service keys\<close>

definition meta_get :: "Store \<Rightarrow> string \<Rightarrow> string option" where
  "meta_get st key = st_meta st key"

definition meta_set :: "string \<Rightarrow> string \<Rightarrow> Store \<Rightarrow> Store" where
  "meta_set key v st = st\<lparr>st_meta := (st_meta st)(key \<mapsto> v)\<rparr>"

text \<open>\<open>CAST(value AS INTEGER)\<close> of a text is SQLite's.\<close>

definition meta_increment :: "(string \<Rightarrow> int) \<Rightarrow> string \<Rightarrow> Store \<Rightarrow> int \<times> Store" where
  "meta_increment cast key st =
     (let v = (case st_meta st key of None \<Rightarrow> 1 | Some t \<Rightarrow> cast t + 1) in (v, meta_set key (dec_int v) st))"

section \<open>Invariant\<close>

text \<open>Primary and unique keys of the catalog, and its foreign keys.\<close>

definition refs_ok :: "Store \<Rightarrow> bool" where
  "refs_ok st \<longleftrightarrow>
     (\<forall>m \<in> set (st_members st). m_profile m \<in> pf_id ` set (st_profiles st) \<and> m_source m \<in> so_id ` set (st_sources st)) \<and>
     (\<forall>r \<in> set (st_journal st). fe_source_id (fl_entry r) \<in> so_id ` set (st_sources st)) \<and>
     (\<forall>l \<in> set (links (st_db st)). l_source l \<in> so_id ` set (st_sources st))"

definition journal_ok :: "Store \<Rightarrow> bool" where
  "journal_ok st \<longleftrightarrow> distinct (map fl_id (st_journal st)) \<and> (\<forall>r \<in> set (st_journal st). fl_id r < st_next_log st)"

definition members_ok :: "Store \<Rightarrow> bool" where
  "members_ok st \<longleftrightarrow> distinct (map (\<lambda>m. (m_profile m, m_source m)) (st_members st))"

definition wf_store :: "Store \<Rightarrow> bool" where
  "wf_store st \<longleftrightarrow> keyed so_id so_slug (st_sources st) \<and> keyed pf_id pf_slug (st_profiles st) \<and>
     members_ok st \<and> journal_ok st \<and> refs_ok st \<and> sound_db (st_db st)"

subsection \<open>Keyed tables\<close>

lemma find_key_Some: "find_key key i rows = Some r \<Longrightarrow> r \<in> set rows \<and> key r = i"
  by (auto simp: find_key_def find_Some_iff)

lemma find_key_None [simp]: "find_key key i rows = None \<longleftrightarrow> i \<notin> key ` set rows"
  by (auto simp: find_key_def find_None_iff)

lemma find_key_iff:
  "keyed key slug rows \<Longrightarrow> find_key key i rows = Some r \<longleftrightarrow> r \<in> set rows \<and> key r = i"
  by (induction rows) (auto simp: find_key_def keyed_def List.map_filter_simps split: option.splits)

lemma slugs_in: "set (List.map_filter slug rows) = {s. \<exists>r \<in> set rows. slug r = Some s}"
  by (induction rows) (auto simp: List.map_filter_simps split: option.split)

lemma slug_free_iff: "slug_free slug s rows \<longleftrightarrow> (case s of None \<Rightarrow> True | Some t \<Rightarrow> t \<notin> set (List.map_filter slug rows))"
  by (auto simp: slug_free_def slugs_in list_ex_iff split: option.split)

lemma keyed_append:
  assumes "keyed key slug rows" "find_key key (key r) rows = None" "slug_free slug (slug r) rows"
  shows "keyed key slug (rows @ [r])"
  using assms by (auto simp: keyed_def slug_free_iff List.map_filter_def split: option.splits)

lemma keys_put_row [simp]: "map key (put_row key r rows) = map key rows"
  by (induction rows) (auto simp: put_row_def)

lemma drop_row_other: "key x \<noteq> i \<Longrightarrow> drop_row key i (x # xs) = x # drop_row key i xs"
  by (simp add: drop_row_def)

lemma put_row_absent: "key r \<notin> key ` set rows \<Longrightarrow> put_row key r rows = rows"
  by (induction rows) (auto simp: put_row_def)

lemma drop_row_absent: "i \<notin> key ` set rows \<Longrightarrow> drop_row key i rows = rows"
  by (auto simp: drop_row_def filter_id_conv)

lemma keyed_Cons:
  "keyed key slug (x # xs) \<longleftrightarrow> key x \<notin> key ` set xs \<and> slug_free slug (slug x) xs \<and> keyed key slug xs"
  by (auto simp: keyed_def slug_free_iff List.map_filter_simps split: option.split)

lemma slug_free_Cons: "slug_free slug s (x # xs) \<longleftrightarrow> (s = None \<or> slug x \<noteq> s) \<and> slug_free slug s xs"
  by (auto simp: slug_free_def)

lemma slug_free_put_row:
  "slug_free slug s rows \<Longrightarrow> s = None \<or> slug r \<noteq> s \<Longrightarrow> slug_free slug s (put_row key r rows)"
  by (auto simp: slug_free_def put_row_def list_ex_iff)

lemma keyed_put_row:
  "keyed key slug rows \<Longrightarrow> slug_free slug (slug r) (drop_row key (key r) rows) \<Longrightarrow>
   keyed key slug (put_row key r rows)"
proof (induction rows)
  case (Cons x xs)
  show ?case
  proof (cases "key x = key r")
    case True
    then have "key r \<notin> key ` set xs" using Cons.prems(1) by (simp add: keyed_Cons)
    then show ?thesis using Cons.prems True put_row_absent [of key r xs] drop_row_absent [of "key r" key xs]
      by (simp add: keyed_Cons put_row_def drop_row_def)
  next
    case False
    have "key ` set (put_row key r xs) = key ` set xs"
      using keys_put_row [of key r xs] by (metis list.set_map)
    moreover have "slug_free slug (slug x) (put_row key r xs)"
      using Cons.prems False by (intro slug_free_put_row)
        (auto simp: keyed_Cons drop_row_other [of key x] slug_free_Cons)
    ultimately show ?thesis using Cons False
      by (simp add: keyed_Cons put_row_def drop_row_other [of key x] slug_free_Cons)
  qed
qed (simp add: put_row_def)

lemma keyed_filter: "keyed key slug rows \<Longrightarrow> keyed key slug (filter P rows)"
proof (induction rows)
  case (Cons x xs)
  then show ?case by (auto simp: keyed_Cons slug_free_def list_ex_iff)
qed simp

lemma keyed_map_same:
  "(\<And>r. key (f r) = key r \<and> slug (f r) = slug r) \<Longrightarrow> keyed key slug (map f rows) = keyed key slug rows"
  by (simp add: keyed_def List.map_filter_def comp_def filter_map)

subsection \<open>Every statement keeps the invariant\<close>

lemma get_source_iff:
  "wf_store st \<Longrightarrow> get_source st i = Some s \<longleftrightarrow> s \<in> set (st_sources st) \<and> so_id s = i"
  using find_key_iff [of so_id so_slug "st_sources st"] by (simp add: get_source_def wf_store_def)

lemma get_source_None: "get_source st i = None \<longleftrightarrow> i \<notin> so_id ` set (st_sources st)"
  by (simp add: get_source_def)

lemma get_profile_None: "get_profile st i = None \<longleftrightarrow> i \<notin> pf_id ` set (st_profiles st)"
  by (simp add: get_profile_def)

lemma sound_db_links:
  assumes "sound_db db" "set ls \<subseteq> set (links db)" "distinct (map (\<lambda>l. (l_proxy l, l_source l)) ls)"
  shows "sound_db (db\<lparr>links := ls\<rparr>)"
proof -
  have "l_proxy ` set ls \<subseteq> r_id ` set (proxies db)"
    using assms(1,2) by (meson image_mono order_trans sound_db_def wf_db_def)
  then show ?thesis using assms by (simp add: sound_db_def wf_db_def rows_ok_def)
qed

lemma set_keys_put_row: "key ` set (put_row key r rows) = key ` set rows"
  using keys_put_row [of key r rows] by (metis list.set_map)

lemma create_source_wf: "wf_store st \<Longrightarrow> create_source s st = Inr st' \<Longrightarrow> wf_store st'"
  by (auto simp: create_source_def wf_store_def refs_ok_def journal_ok_def members_ok_def intro!: keyed_append
      split: if_splits)

lemma updated_keys [simp]: "so_id (updated_source q s) = so_id s" "so_slug (updated_source q s) = so_slug s"
  by (simp_all add: updated_source_def)

lemma update_source_wf:
  assumes "wf_store st" "update_source s st = Inr st'"
  shows "wf_store st'"
proof -
  obtain q where q: "slug_free so_slug (so_slug s) (drop_row so_id (so_id s) (st_sources st))"
      "st' = st\<lparr>st_sources := put_row so_id (updated_source q s) (st_sources st)\<rparr>"
    using assms(2) by (auto simp: update_source_def split: option.splits if_splits)
  then show ?thesis using assms(1) keyed_put_row [of so_id so_slug "st_sources st" "updated_source q s"]
    by (simp add: wf_store_def refs_ok_def journal_ok_def members_ok_def set_keys_put_row)
qed

lemma delete_source_wf:
  assumes "wf_store st"
  shows "wf_store (snd (delete_source i st))"
proof -
  have "distinct (map (\<lambda>l. (l_proxy l, l_source l)) (links (st_db st)))" "sound_db (st_db st)"
    using assms by (simp_all add: wf_store_def sound_db_def wf_db_def)
  then have "sound_db ((st_db st)\<lparr>links := filter (\<lambda>l. l_source l \<noteq> i) (links (st_db st))\<rparr>)"
    by (intro sound_db_links distinct_map_filter) auto
  then show ?thesis using assms
    by (auto simp: delete_source_def wf_store_def refs_ok_def journal_ok_def members_ok_def drop_row_def
        intro!: keyed_filter distinct_map_filter)
qed

lemma record_fetch_outcome_wf: "wf_store st \<Longrightarrow> wf_store (record_fetch_outcome i out st)"
proof -
  assume st: "wf_store st"
  let ?f = "\<lambda>s. if so_id s = i then write_outcome out s else s"
  have f: "so_id (?f s) = so_id s" "so_slug (?f s) = so_slug s" for s
    by (simp_all add: write_outcome_def split: FetchOutcome.split)
  have "keyed so_id so_slug (map ?f (st_sources st))"
    using st keyed_map_same [of so_id ?f so_slug "st_sources st", OF conjI, OF f] by (simp add: wf_store_def)
  moreover have "so_id ` set (map ?f (st_sources st)) = so_id ` set (st_sources st)"
    unfolding set_map image_image f(1) ..
  ultimately show ?thesis using st
    by (simp add: record_fetch_outcome_def wf_store_def refs_ok_def journal_ok_def members_ok_def del: set_map)
qed

lemma stored_keys [simp]: "pf_id (stored_profile p) = pf_id p" "pf_slug (stored_profile p) = pf_slug p"
  by (simp_all add: stored_profile_def)

lemma create_profile_wf: "wf_store st \<Longrightarrow> create_profile p st = Inr st' \<Longrightarrow> wf_store st'"
  by (auto simp: create_profile_def wf_store_def refs_ok_def journal_ok_def members_ok_def
      intro!: keyed_append split: if_splits)

lemma update_profile_wf:
  assumes "wf_store st" "update_profile p st = Inr st'"
  shows "wf_store st'"
proof -
  obtain x where q: "slug_free pf_slug (pf_slug p) (drop_row pf_id (pf_id p) (st_profiles st))"
      "st' = st\<lparr>st_profiles := put_row pf_id ((stored_profile p)\<lparr>pf_created_at := x\<rparr>) (st_profiles st)\<rparr>"
    using assms(2) by (auto simp: update_profile_def split: option.splits if_splits)
  then show ?thesis using assms(1)
      keyed_put_row [of pf_id pf_slug "st_profiles st" "(stored_profile p)\<lparr>pf_created_at := x\<rparr>"]
    by (simp add: wf_store_def refs_ok_def journal_ok_def members_ok_def set_keys_put_row)
qed

lemma delete_profile_wf: "wf_store st \<Longrightarrow> wf_store (snd (delete_profile i st))"
  by (auto simp: delete_profile_def wf_store_def refs_ok_def journal_ok_def members_ok_def drop_row_def
      intro!: keyed_filter distinct_map_filter)

lemma insert_members_wf: "insert_members p sources st = Inr st' \<Longrightarrow> wf_store st \<Longrightarrow> wf_store st'"
proof (induction p sources st rule: insert_members.induct)
  case (2 p s pos rest st)
  let ?st = "st\<lparr>st_members := st_members st @ [\<lparr>m_profile = p, m_source = s, m_position = pos\<rparr>]\<rparr>"
  from 2(2) have new: "\<not> list_ex (\<lambda>m. m_profile m = p \<and> m_source m = s) (st_members st)"
      and fk: "get_profile st p \<noteq> None" "get_source st s \<noteq> None" and rest: "insert_members p rest ?st = Inr st'"
    by (auto split: if_splits)
  then have "wf_store ?st" using 2(3)
    by (auto simp: wf_store_def members_ok_def refs_ok_def journal_ok_def list_ex_iff get_profile_None
        get_source_None simp del: not_None_eq)
  then show ?case using 2(1) [OF _ _ rest] new fk by auto
qed simp

lemma set_sources_wf: "wf_store st \<Longrightarrow> set_sources p sources st = Inr st' \<Longrightarrow> wf_store st'"
  unfolding set_sources_def
  by (erule insert_members_wf)
    (auto simp: wf_store_def refs_ok_def journal_ok_def members_ok_def intro!: distinct_map_filter)

lemma journal_append:
  assumes "journal_ok st"
  shows "journal_ok (st\<lparr>st_journal := st_journal st @ [\<lparr>fl_id = st_next_log st, fl_entry = e, fl_duration_ms = d\<rparr>],
    st_next_log := Suc (st_next_log st)\<rparr>)"
proof -
  have "st_next_log st \<notin> fl_id ` set (st_journal st)" using assms by (auto simp: journal_ok_def)
  then show ?thesis using assms by (auto simp: journal_ok_def less_SucI)
qed

lemma insert_timed_wf: "wf_store st \<Longrightarrow> insert_timed e d st = Inr st' \<Longrightarrow> wf_store st'"
  using journal_append [of st e d]
  by (auto simp: insert_timed_def wf_store_def refs_ok_def members_ok_def get_source_None
      simp del: not_None_eq split: if_splits)

lemma purge_log_before_wf: "wf_store st \<Longrightarrow> wf_store (snd (purge_log_before cutoff st))"
  by (auto simp: purge_log_before_def wf_store_def refs_ok_def journal_ok_def members_ok_def
      intro!: distinct_map_filter)

lemma meta_wf: "wf_store st \<Longrightarrow> wf_store (meta_set k v st)"
  by (simp add: meta_set_def wf_store_def refs_ok_def journal_ok_def members_ok_def)

section \<open>The statements of the panel and the scheduler\<close>

datatype catalog_op =
    CreateSource Source | UpdateSource Source | DeleteSource string | RecordOutcome string FetchOutcome
  | CreateProfile Profile | UpdateProfile Profile | DeleteProfile string | SetSources string "(string \<times> int) list"
  | InsertTimed FetchLogEntry "int option" | PurgeBefore int | MetaSet string string

text \<open>A refused statement leaves the store as it was.\<close>

definition committed :: "error + Store \<Rightarrow> Store \<Rightarrow> Store" where
  "committed r st = (case r of Inl _ \<Rightarrow> st | Inr st' \<Rightarrow> st')"

fun run_op :: "catalog_op \<Rightarrow> Store \<Rightarrow> Store" where
  "run_op (CreateSource s) st = committed (create_source s st) st"
| "run_op (UpdateSource s) st = committed (update_source s st) st"
| "run_op (DeleteSource i) st = snd (delete_source i st)"
| "run_op (RecordOutcome i out) st = record_fetch_outcome i out st"
| "run_op (CreateProfile p) st = committed (create_profile p st) st"
| "run_op (UpdateProfile p) st = committed (update_profile p st) st"
| "run_op (DeleteProfile i) st = snd (delete_profile i st)"
| "run_op (SetSources p ss) st = committed (set_sources p ss st) st"
| "run_op (InsertTimed e d) st = committed (insert_timed e d st) st"
| "run_op (PurgeBefore c) st = snd (purge_log_before c st)"
| "run_op (MetaSet k v) st = meta_set k v st"

lemma committed_wf: "wf_store st \<Longrightarrow> (\<And>st'. r = Inr st' \<Longrightarrow> wf_store st') \<Longrightarrow> wf_store (committed r st)"
  by (simp add: committed_def split: sum.split)

lemma run_op_wf: "wf_store st \<Longrightarrow> wf_store (run_op op st)"
  by (cases op) (auto intro: committed_wf create_source_wf update_source_wf delete_source_wf
      record_fetch_outcome_wf create_profile_wf update_profile_wf delete_profile_wf set_sources_wf insert_timed_wf
      purge_log_before_wf meta_wf)

definition empty_store :: Store where
  "empty_store = \<lparr>st_db = \<lparr>proxies = [], links = [], results = [], requests = [], next_id = 0\<rparr>, st_sources = [],
     st_profiles = [], st_members = [], st_journal = [], st_next_log = 0, st_meta = Map.empty\<rparr>"

lemma empty_store_wf: "wf_store empty_store"
  by (simp add: empty_store_def wf_store_def keyed_def members_ok_def journal_ok_def refs_ok_def sound_db_def
      wf_db_def rows_ok_def List.map_filter_simps)

text \<open>The composition of a profile names every source once, in the order of the positions.\<close>

lemma composition_order:
  assumes "wf_store st"
  shows "distinct (map fst (get_sources st p)) \<and> sorted (map snd (get_sources st p))"
proof -
  let ?ms = "filter (\<lambda>m. m_profile m = p) (st_members st)"
  have "distinct (map (\<lambda>m. (m_profile m, m_source m)) ?ms)"
    using assms by (intro distinct_map_filter) (simp add: wf_store_def members_ok_def)
  then have "distinct (map m_source ?ms)"
    by (simp add: distinct_map inj_on_def)
  then have "distinct (map fst (get_sources st p))"
    by (simp add: get_sources_def comp_def distinct_map)
  moreover have "sorted (map snd (get_sources st p))"
  proof -
    have "sorted (map (\<lambda>m. (m_position m, m_source m)) (sort_key (\<lambda>m. (m_position m, m_source m)) ?ms))" by simp
    then show ?thesis
      by (simp add: get_sources_def comp_def sorted_map) (erule sorted_wrt_mono_rel [rotated], auto)
  qed
  ultimately show ?thesis by blast
qed

end
