(* ===== verification/Fetcher.thy ===== *)
theory Fetcher
  imports Ssrf
begin

text \<open>
  \<open>fumox-server/fetcher.rs\<close>: the download of a source. The URL crate, the resolver and the HTTP client are
  parameters; what the program does with them is here: the vetting of every hop, the pinned address, the
  scope of the source's headers, the size cap, the classification of failures and the retries. A run
  returns the requests it sent and the delays it slept.
\<close>

section \<open>Failures\<close>

datatype FetchFailure =
    NetworkFailure string bool
  | HttpServerFailure nat
  | HttpClientFailure nat
  | ResponseTooLarge nat

fun error_class :: "FetchFailure \<Rightarrow> ErrorClass" where
  "error_class (NetworkFailure _ _) = Network"
| "error_class (HttpServerFailure _) = HttpServer"
| "error_class (HttpClientFailure _) = HttpClient"
| "error_class (ResponseTooLarge _) = HttpServer"

fun is_recoverable :: "FetchFailure \<Rightarrow> bool" where
  "is_recoverable (NetworkFailure _ permanent) = (\<not> permanent)"
| "is_recoverable (HttpServerFailure _) = True"
| "is_recoverable _ = False"

fun failure_http_status :: "FetchFailure \<Rightarrow> nat option" where
  "failure_http_status (HttpServerFailure s) = Some s"
| "failure_http_status (HttpClientFailure s) = Some s"
| "failure_http_status _ = None"

fun failure_text :: "FetchFailure \<Rightarrow> string" where
  "failure_text (NetworkFailure m _) = ''network error: '' @ m"
| "failure_text (HttpServerFailure s) = ''server error: HTTP '' @ dec_nat s"
| "failure_text (HttpClientFailure s) = ''client error: HTTP '' @ dec_nat s"
| "failure_text (ResponseTooLarge l) = ''response exceeds the '' @ dec_nat l @ '' byte cap''"

record FetchedPayload =
  fp_http_status :: nat
  fp_bytes :: nat
  fp_body :: string

section \<open>What the program is given\<close>

record url =
  url_text :: string
  url_scheme :: string
  url_host :: "string option"
  url_port :: "u16 option"

record url_lib =
  url_parse :: "string \<Rightarrow> string + url"
  url_join :: "url \<Rightarrow> string \<Rightarrow> url option"

record FetchConfig =
  fc_max_retries :: nat
  fc_retry_base_backoff_ms :: nat
  fc_max_response_bytes :: nat
  fc_ip_family :: IpFamily
  fc_allow_private :: bool
  fc_dns_timeout :: nat

record request =
  rq_url :: url
  rq_pinned :: ip_addr
  rq_port :: u16
  rq_headers :: "(string \<times> string) list"

text \<open>A reply: the status, the \<open>Location\<close> header when it is text, and the body as it arrives.\<close>

datatype reply = SendFailed string | Reply nat "string option" "(string + string) list"

record 's network =
  net_lookup :: "string \<Rightarrow> 's \<Rightarrow> lookup_outcome \<times> 's"
  net_send :: "request \<Rightarrow> 's \<Rightarrow> reply \<times> 's"

section \<open>Vetting\<close>

definition MAX_URL_LEN :: nat where "MAX_URL_LEN = 2048"
definition MAX_REDIRECTS :: nat where "MAX_REDIRECTS = 5"
definition MAX_RETRY_BACKOFF :: nat where "MAX_RETRY_BACKOFF = 60000"
definition MAX_RETRIES :: nat where "MAX_RETRIES = 16"

fun family_matches :: "ip_addr \<Rightarrow> IpFamily \<Rightarrow> bool" where
  "family_matches ip AnyFamily = True"
| "family_matches ip Ipv4Family = is_ipv4 ip"
| "family_matches ip Ipv6Family = is_ipv6 ip"

fun family_label :: "IpFamily \<Rightarrow> string" where
  "family_label AnyFamily = ''IPv4/IPv6''"
| "family_label Ipv4Family = ''IPv4''"
| "family_label Ipv6Family = ''IPv6''"

definition no_address :: "string \<Rightarrow> IpFamily \<Rightarrow> string" where
  "no_address host family = ''no '' @ family_label family @ '' addresses for '' @ host"

fun check_all_ips :: "string \<Rightarrow> bool \<Rightarrow> ip_addr list \<Rightarrow> string + unit" where
  "check_all_ips host allow_private [] = Inr ()"
| "check_all_ips host allow_private (ip # ips) =
     bind_res (map_err (\<lambda>reason. host @ '' -> '' @ show_ip ip @ '': '' @ reason) (check_ip ip allow_private))
       (\<lambda>_. check_all_ips host allow_private ips)"

definition vet_addrs :: "string \<Rightarrow> bool \<Rightarrow> IpFamily \<Rightarrow> ip_addr list \<Rightarrow> string + ip_addr" where
  "vet_addrs host allow_private family addrs =
     bind_res (check_all_ips host allow_private addrs) (\<lambda>_.
       case pick_vetted addrs family of None \<Rightarrow> Inl (no_address host family) | Some ip \<Rightarrow> Inr ip)"

definition vet_host ::
  "(string \<Rightarrow> 's \<Rightarrow> lookup_outcome \<times> 's) \<Rightarrow> string \<Rightarrow> bool \<Rightarrow> IpFamily \<Rightarrow> nat \<Rightarrow> 's \<Rightarrow>
   (string + ip_addr) \<times> 's" where
  "vet_host lookup host allow_private family dns_timeout s =
     (case parse_ip host of
        Some ip \<Rightarrow>
          (if \<not> family_matches ip family
           then Inl (host @ '' is a '' @ (if is_ipv4 ip then ''IPv4'' else ''IPv6'')
                  @ '' address but the source requires '' @ family_label family)
           else vet_addrs host allow_private family [ip], s)
      | None \<Rightarrow>
          (let (outcome, s') = lookup host s in
           (bind_res (timeout_lookup host dns_timeout outcome) (\<lambda>found.
              let addrs = filter (\<lambda>ip. family_matches ip family) found in
              if addrs = [] then Inl (no_address host family)
              else vet_addrs host allow_private family addrs), s')))"

definition default_port :: "url \<Rightarrow> u16" where
  "default_port u =
     (case url_port u of Some p \<Rightarrow> p | None \<Rightarrow> if url_scheme u = ''https'' then 443 else 80)"

definition origin_of :: "url \<Rightarrow> string \<times> string \<times> u16" where
  "origin_of u =
     (to_ascii_lowercase (url_scheme u),
      to_ascii_lowercase (case url_host u of Some h \<Rightarrow> h | None \<Rightarrow> []), default_port u)"

definition configured_origin :: "url_lib \<Rightarrow> string \<Rightarrow> (string \<times> string \<times> u16) option" where
  "configured_origin lib addr = (case url_parse lib addr of Inl _ \<Rightarrow> None | Inr u \<Rightarrow> Some (origin_of u))"

section \<open>One attempt\<close>

fun read_body :: "nat \<Rightarrow> string \<Rightarrow> (string + string) list \<Rightarrow> FetchFailure + string" where
  "read_body limit body [] = Inr body"
| "read_body limit body (Inl err # chunks) = Inl (NetworkFailure err False)"
| "read_body limit body (Inr chunk # chunks) =
     (if length body + length chunk > limit then Inl (ResponseTooLarge limit)
      else read_body limit (body @ chunk) chunks)"

definition classify :: "nat \<Rightarrow> FetchFailure option" where
  "classify status =
     (if status \<ge> 500 \<or> status = 408 \<or> status = 429 then Some (HttpServerFailure status)
      else if \<not> (200 \<le> status \<and> status < 300) then Some (HttpClientFailure status)
      else None)"

definition payload :: "nat \<Rightarrow> string \<Rightarrow> FetchedPayload" where
  "payload status body = \<lparr>fp_http_status = status, fp_bytes = length body, fp_body = body\<rparr>"

text \<open>What one reply means: the next URL of a redirect, or the verdict.\<close>

definition on_reply :: "url_lib \<Rightarrow> nat \<Rightarrow> url \<Rightarrow> reply \<Rightarrow> (FetchFailure + FetchedPayload) + string" where
  "on_reply lib limit u rep =
     (case rep of
        SendFailed err \<Rightarrow> Inl (Inl (NetworkFailure err False))
      | Reply status location chunks \<Rightarrow>
          if 300 \<le> status \<and> status < 400 then
            (case location of
               None \<Rightarrow> Inl (Inl (HttpClientFailure status))
             | Some l \<Rightarrow>
                 (case url_join lib u l of
                    None \<Rightarrow> Inl (Inl (HttpClientFailure status))
                  | Some v \<Rightarrow> Inr (url_text v)))
          else
            (case classify status of
               Some failure \<Rightarrow> Inl (Inl failure)
             | None \<Rightarrow> Inl (bind_res (read_body limit [] chunks) (\<lambda>body. Inr (payload status body)))))"

text \<open>The URL of a hop, or why it cannot be asked.\<close>

definition hop_url :: "url_lib \<Rightarrow> string \<Rightarrow> FetchFailure + url \<times> string" where
  "hop_url lib current =
     (if length current > MAX_URL_LEN then Inl (HttpClientFailure 414)
      else (case url_parse lib current of
              Inl e \<Rightarrow> Inl (NetworkFailure (''invalid URL: '' @ e) True)
            | Inr u \<Rightarrow>
                if url_scheme u \<noteq> ''http'' \<and> url_scheme u \<noteq> ''https''
                then Inl (NetworkFailure (''unsupported scheme: '' @ url_scheme u) True)
                else (case url_host u of
                        None \<Rightarrow> Inl (NetworkFailure ''URL has no host'' True)
                      | Some host \<Rightarrow> Inr (u, host))))"

definition hop_request ::
  "url_lib \<Rightarrow> (string \<times> string) list \<Rightarrow> (string \<times> string \<times> u16) option \<Rightarrow> url \<Rightarrow> ip_addr \<Rightarrow> request" where
  "hop_request lib headers origin u pinned =
     \<lparr>rq_url = u, rq_pinned = pinned, rq_port = default_port u,
      rq_headers = (if origin = Some (origin_of u) then headers else [])\<rparr>"

text \<open>A client that cannot be built fails as a request that cannot be sent.\<close>

fun hops ::
  "url_lib \<Rightarrow> 's network \<Rightarrow> FetchConfig \<Rightarrow> (string \<times> string) list \<Rightarrow> IpFamily \<Rightarrow>
   (string \<times> string \<times> u16) option \<Rightarrow> nat \<Rightarrow> string \<Rightarrow> 's \<Rightarrow>
   (FetchFailure + FetchedPayload) \<times> request list \<times> 's"
where
  "hops lib net cfg headers family origin 0 current s = (Inl (HttpClientFailure 508), [], s)"
| "hops lib net cfg headers family origin (Suc n) current s =
     (case hop_url lib current of
        Inl failure \<Rightarrow> (Inl failure, [], s)
      | Inr (u, host) \<Rightarrow>
          (let (vetted, s1) = vet_host (net_lookup net) host (fc_allow_private cfg) family
                 (fc_dns_timeout cfg) s in
           case vetted of
             Inl _ \<Rightarrow> (Inl (HttpClientFailure 403), [], s1)
           | Inr pinned \<Rightarrow>
               (let rq = hop_request lib headers origin u pinned;
                    (rep, s2) = net_send net rq s1 in
                case on_reply lib (fc_max_response_bytes cfg) u rep of
                  Inl result \<Rightarrow> (result, [rq], s2)
                | Inr next_url \<Rightarrow>
                    (let (result, rqs, s3) = hops lib net cfg headers family origin n next_url s2
                     in (result, rq # rqs, s3)))))"

definition fetch_once where
  "fetch_once lib net cfg addr headers family s =
     hops lib net cfg headers family (configured_origin lib addr) (Suc MAX_REDIRECTS) addr s"

section \<open>Retries\<close>

definition sat_u64 :: "nat \<Rightarrow> nat" where
  "sat_u64 n = min n (2 ^ 64 - 1)"

definition backoff_delay :: "FetchConfig \<Rightarrow> nat \<Rightarrow> nat" where
  "backoff_delay cfg attempt =
     min (sat_u64 (fc_retry_base_backoff_ms cfg * sat_u64 (2 ^ attempt))) MAX_RETRY_BACKOFF"

record 's fetch_run =
  fr_result :: "FetchFailure + FetchedPayload"
  fr_requests :: "request list"
  fr_delays :: "nat list"
  fr_world :: 's

text \<open>The loop of \<open>fetch\<close>, over the retries that are left.\<close>

fun attempts ::
  "url_lib \<Rightarrow> 's network \<Rightarrow> FetchConfig \<Rightarrow> string \<Rightarrow> (string \<times> string) list \<Rightarrow> IpFamily \<Rightarrow>
   nat \<Rightarrow> nat \<Rightarrow> 's \<Rightarrow> 's fetch_run"
where
  "attempts lib net cfg addr headers family attempt left s =
     (let (result, rqs, s1) = fetch_once lib net cfg addr headers family s;
          finished = \<lparr>fr_result = result, fr_requests = rqs, fr_delays = [], fr_world = s1\<rparr> in
      case result of
        Inr _ \<Rightarrow> finished
      | Inl failure \<Rightarrow>
          (case left of
             0 \<Rightarrow> finished
           | Suc n \<Rightarrow>
               if \<not> is_recoverable failure then finished
               else (let more = attempts lib net cfg addr headers family (Suc attempt) n s1
                     in more\<lparr>fr_requests := rqs @ fr_requests more,
                             fr_delays := backoff_delay cfg attempt # fr_delays more\<rparr>)))"

declare attempts.simps [simp del]

definition fetch where
  "fetch lib net cfg addr headers family s =
     attempts lib net cfg addr headers (case family of Some f \<Rightarrow> f | None \<Rightarrow> fc_ip_family cfg) 0
       (min (fc_max_retries cfg) MAX_RETRIES) s"

section \<open>Checks of the form\<close>

record UrlIssue =
  ui_key :: string
  ui_args :: "string list"

definition validate_url :: "url_lib \<Rightarrow> string \<Rightarrow> UrlIssue + unit" where
  "validate_url lib addr =
     (if length addr > MAX_URL_LEN then Inl \<lparr>ui_key = ''val.url_too_long'', ui_args = [dec_nat MAX_URL_LEN]\<rparr>
      else (case url_parse lib addr of
              Inl e \<Rightarrow> Inl \<lparr>ui_key = ''val.url_invalid'', ui_args = [e]\<rparr>
            | Inr u \<Rightarrow>
                if url_scheme u \<noteq> ''http'' \<and> url_scheme u \<noteq> ''https''
                then Inl \<lparr>ui_key = ''val.url_scheme'', ui_args = [url_scheme u]\<rparr>
                else if url_host u = None then Inl \<lparr>ui_key = ''val.url_no_host'', ui_args = []\<rparr>
                else Inr ()))"

definition vet_url where
  "vet_url lib lookup addr allow_private family dns_timeout s =
     (case validate_url lib addr of
        Inl i \<Rightarrow> (Inl i, s)
      | Inr _ \<Rightarrow>
          if allow_private then (Inr (), s)
          else (case url_parse lib addr of
                  Inl e \<Rightarrow> (Inl \<lparr>ui_key = ''val.url_invalid'', ui_args = [e]\<rparr>, s)
                | Inr u \<Rightarrow>
                    (case url_host u of
                       None \<Rightarrow> (Inl \<lparr>ui_key = ''val.url_no_host'', ui_args = []\<rparr>, s)
                     | Some host \<Rightarrow>
                         (let (r, s') = vet_host lookup host False family dns_timeout s in
                          (case r of Inl reason \<Rightarrow> Inl \<lparr>ui_key = ''val.url_ssrf'', ui_args = [reason]\<rparr>
                                   | Inr _ \<Rightarrow> Inr (), s')))))"

section \<open>Secrets in a logged query\<close>

definition SENSITIVE_QUERY_PARAMS :: "string list" where
  "SENSITIVE_QUERY_PARAMS = [''token'', ''key'', ''auth'', ''secret'', ''pass'']"

definition is_sensitive_param :: "string \<Rightarrow> bool" where
  "is_sensitive_param name =
     list_ex (\<lambda>stem. sublist stem (to_ascii_lowercase name)) SENSITIVE_QUERY_PARAMS"

definition redact_pair :: "string \<Rightarrow> string" where
  "redact_pair pair =
     (case split_once (CHR ''='') pair of
        Some (name, _) \<Rightarrow> if is_sensitive_param name then name @ ''=[redacted]'' else pair
      | None \<Rightarrow> pair)"

definition redact_query :: "string \<Rightarrow> string" where
  "redact_query query = join ''&'' (map redact_pair (split_on (CHR ''&'') query))"

section \<open>What a fetch asks, and what it keeps\<close>

lemma check_all_ips_ok:
  "check_all_ips host allow_private ips = Inr () \<Longrightarrow> ip \<in> set ips \<Longrightarrow> check_ip ip allow_private = Inr ()"
  by (induction ips) (auto simp: bind_res_Inr map_err_Inr)

lemma first_where_set: "first_where P xs = Some x \<Longrightarrow> x \<in> set xs \<and> P x"
  by (induction xs) (auto split: if_splits)

lemma pick_vetted_in: "pick_vetted addrs family = Some ip \<Longrightarrow> ip \<in> set addrs \<and> (addrs = filter (\<lambda>ip. family_matches ip family) addrs \<longrightarrow> family_matches ip family)"
  by (cases family) (auto dest!: first_where_set split: option.splits list.splits)

lemma vet_addrs_ok:
  assumes "vet_addrs host allow_private family addrs = Inr ip" "list_all (\<lambda>ip. family_matches ip family) addrs"
  shows "ip \<in> set addrs \<and> check_ip ip allow_private = Inr () \<and> family_matches ip family"
  using assms check_all_ips_ok [of host allow_private addrs ip] pick_vetted_in [of addrs family ip]
  by (auto simp: vet_addrs_def bind_res_Inr list_all_iff split: option.splits)

lemma vet_host_ok:
  assumes "vet_host lookup host allow_private family dns_timeout s = (Inr ip, s')"
  shows "check_ip ip allow_private = Inr () \<and> family_matches ip family"
  using assms vet_addrs_ok [of host allow_private family _ ip]
  by (auto simp: vet_host_def bind_res_Inr Let_def list_all_iff split: option.splits if_splits prod.splits)

definition request_ok ::
  "bool \<Rightarrow> IpFamily \<Rightarrow> (string \<times> string \<times> u16) option \<Rightarrow> request \<Rightarrow> bool" where
  "request_ok allow_private family origin rq \<longleftrightarrow>
     (url_scheme (rq_url rq) = ''http'' \<or> url_scheme (rq_url rq) = ''https'') \<and> url_host (rq_url rq) \<noteq> None \<and>
     check_ip (rq_pinned rq) allow_private = Inr () \<and> family_matches (rq_pinned rq) family \<and>
     (rq_headers rq \<noteq> [] \<longrightarrow> origin = Some (origin_of (rq_url rq)))"

lemma hop_url_ok:
  "hop_url lib current = Inr (u, host) \<Longrightarrow>
   (url_scheme u = ''http'' \<or> url_scheme u = ''https'') \<and> url_host u = Some host"
  by (auto simp: hop_url_def split: if_splits sum.splits option.splits)

lemma hop_request_ok:
  assumes "hop_url lib current = Inr (u, host)"
    and "vet_host lookup host allow_private family dns_timeout s = (Inr ip, s')"
  shows "request_ok allow_private family origin (hop_request lib headers origin u ip)"
  using hop_url_ok [OF assms(1)] vet_host_ok [OF assms(2)] by (auto simp: request_ok_def hop_request_def)

lemma hops_requests:
  "list_all (request_ok (fc_allow_private cfg) family origin) (fst (snd (hops lib net cfg headers family origin n current s))) \<and>
   length (fst (snd (hops lib net cfg headers family origin n current s))) \<le> n"
proof (induction n arbitrary: current s)
  case (Suc n)
  show ?case
  proof (cases "hop_url lib current")
    case (Inr x)
    obtain u host where x: "x = (u, host)" by force
    obtain v s1 where v: "vet_host (net_lookup net) host (fc_allow_private cfg) family (fc_dns_timeout cfg) s = (v, s1)"
      by force
    show ?thesis
    proof (cases v)
      case (Inr pinned)
      let ?rq = "hop_request lib headers origin u pinned"
      obtain rep s2 where rep: "net_send net ?rq s1 = (rep, s2)" by force
      have ok: "request_ok (fc_allow_private cfg) family origin ?rq"
        using hop_request_ok [of lib current u host] v \<open>hop_url lib current = Inr x\<close> by (simp add: x Inr)
      show ?thesis using Suc.IH ok
        by (cases "on_reply lib (fc_max_response_bytes cfg) u rep")
          (auto simp: \<open>hop_url lib current = Inr x\<close> x v Inr rep Let_def split_beta)
    qed (simp add: Inr x v)
  qed simp
qed simp

lemma fetch_once_requests:
  "list_all (request_ok (fc_allow_private cfg) family (configured_origin lib addr)) (fst (snd (fetch_once lib net cfg addr headers family s))) \<and>
   length (fst (snd (fetch_once lib net cfg addr headers family s))) \<le> 6"
  using hops_requests [of cfg family "configured_origin lib addr" lib net headers "Suc MAX_REDIRECTS" addr s]
  by (simp add: fetch_once_def MAX_REDIRECTS_def)

lemma backoff_delay_le: "backoff_delay cfg n \<le> 60000"
  by (simp add: backoff_delay_def MAX_RETRY_BACKOFF_def)

lemma attempts_bounds:
  "list_all (request_ok (fc_allow_private cfg) family (configured_origin lib addr))
     (fr_requests (attempts lib net cfg addr headers family attempt left s)) \<and>
   length (fr_requests (attempts lib net cfg addr headers family attempt left s)) \<le> 6 * Suc left \<and>
   length (fr_delays (attempts lib net cfg addr headers family attempt left s)) \<le> left \<and>
   list_all (\<lambda>d. d \<le> 60000) (fr_delays (attempts lib net cfg addr headers family attempt left s))"
proof (induction left arbitrary: attempt s)
  case 0
  show ?case using fetch_once_requests [of cfg family lib addr net headers s]
    by (auto simp: attempts.simps [of lib net cfg addr headers family attempt 0] Let_def split: prod.split sum.split)
next
  case (Suc n)
  show ?case using fetch_once_requests [of cfg family lib addr net headers s] Suc.IH
    by (auto simp: attempts.simps [of lib net cfg addr headers family attempt "Suc n"] Let_def backoff_delay_le
        split: prod.split sum.split intro: le_trans [OF add_mono])
qed

text \<open>
  C9: server-side request forgery. Every request a fetch sends, on every hop of every attempt and whatever
  the resolver, the servers and their redirects answer, goes over http or https to an address that passed the
  policy and has the family asked for, and carries the source's headers only to the configured origin. A
  fetch sends at most six requests for each attempt, makes at most seventeen attempts, and sleeps at most a
  minute between two.
\<close>

theorem fetch_requests_vetted:
  "list_all (request_ok (fc_allow_private cfg) (case family of Some f \<Rightarrow> f | None \<Rightarrow> fc_ip_family cfg) (configured_origin lib addr))
     (fr_requests (fetch lib net cfg addr headers family s)) \<and>
   length (fr_requests (fetch lib net cfg addr headers family s)) \<le> 6 * Suc (min (fc_max_retries cfg) 16) \<and>
   length (fr_delays (fetch lib net cfg addr headers family s)) \<le> min (fc_max_retries cfg) 16 \<and>
   list_all (\<lambda>d. d \<le> 60000) (fr_delays (fetch lib net cfg addr headers family s))"
  using attempts_bounds [of cfg "case family of Some f \<Rightarrow> f | None \<Rightarrow> fc_ip_family cfg" lib addr net headers 0
    "min (fc_max_retries cfg) 16" s] unfolding fetch_def MAX_RETRIES_def by simp

lemma read_body_bound: "read_body limit body chunks = Inr b \<Longrightarrow> length body \<le> limit \<Longrightarrow> length b \<le> limit"
  by (induction limit body chunks rule: read_body.induct) (auto split: if_splits)

lemma on_reply_payload:
  "on_reply lib limit u rep = Inl (Inr p) \<Longrightarrow>
   200 \<le> fp_http_status p \<and> fp_http_status p < 300 \<and> fp_bytes p = length (fp_body p) \<and> length (fp_body p) \<le> limit"
  by (auto simp: on_reply_def classify_def bind_res_Inr payload_def split: reply.splits option.splits if_splits
      dest: read_body_bound)

lemma hops_payload:
  "fst (hops lib net cfg headers family origin n current s) = Inr p \<Longrightarrow>
   200 \<le> fp_http_status p \<and> fp_http_status p < 300 \<and> fp_bytes p = length (fp_body p) \<and>
   length (fp_body p) \<le> fc_max_response_bytes cfg"
proof (induction n arbitrary: current s)
  case (Suc n)
  then show ?case
    by (auto simp: Let_def split: sum.splits prod.splits dest!: on_reply_payload) (metis fst_conv)+
qed simp

lemma attempts_payload:
  "fr_result (attempts lib net cfg addr headers family attempt left s) = Inr p \<Longrightarrow>
   200 \<le> fp_http_status p \<and> fp_http_status p < 300 \<and> fp_bytes p = length (fp_body p) \<and>
   length (fp_body p) \<le> fc_max_response_bytes cfg"
proof (induction left arbitrary: attempt s)
  case 0
  then show ?case using hops_payload [of lib net cfg headers family "configured_origin lib addr" "Suc MAX_REDIRECTS" addr s p]
    by (auto simp: attempts.simps [of lib net cfg addr headers family attempt 0] fetch_once_def Let_def
        split: prod.splits sum.splits)
next
  case (Suc n)
  then show ?case using hops_payload [of lib net cfg headers family "configured_origin lib addr" "Suc MAX_REDIRECTS" addr s p]
    by (auto simp: attempts.simps [of lib net cfg addr headers family attempt "Suc n"] fetch_once_def Let_def
        split: prod.splits sum.splits if_splits)
qed

lemma attempts_failure:
  "fr_result (attempts lib net cfg addr headers family attempt left s) = Inl f \<Longrightarrow> is_recoverable f \<Longrightarrow>
   length (fr_delays (attempts lib net cfg addr headers family attempt left s)) = left"
proof (induction left arbitrary: attempt s)
  case 0
  then show ?case
    by (auto simp: attempts.simps [of lib net cfg addr headers family attempt 0] Let_def split: prod.splits sum.splits)
next
  case (Suc n)
  then show ?case
    by (auto simp: attempts.simps [of lib net cfg addr headers family attempt "Suc n"] Let_def
        split: prod.splits sum.splits if_splits)
qed

text \<open>
  What a fetch returns. A payload has a success status and stays within the size cap; a failure that could
  pass is reported only after every retry was spent.
\<close>

theorem fetch_result:
  "case fr_result (fetch lib net cfg addr headers family s) of
     Inr p \<Rightarrow> 200 \<le> fp_http_status p \<and> fp_http_status p < 300 \<and> fp_bytes p = length (fp_body p) \<and>
       length (fp_body p) \<le> fc_max_response_bytes cfg
   | Inl f \<Rightarrow> (if is_recoverable f
       then length (fr_delays (fetch lib net cfg addr headers family s)) = min (fc_max_retries cfg) 16 else True)"
  using attempts_payload [of lib net cfg addr headers] attempts_failure [of lib net cfg addr headers]
  by (auto simp: fetch_def MAX_RETRIES_def split: sum.split)

text \<open>
  The host of an IPv6 URL comes in brackets, which \<open>parse_ip\<close> does not read: the literal is sent to the
  resolver instead of being vetted as an address.
\<close>

theorem bracketed_literal_looked_up:
  "parse_ip (CHR ''['' # h) = None \<and>
   snd (vet_host (\<lambda>host n. (LookupFailed [], Suc n)) (CHR ''['' # h) allow_private family t (0::nat)) = 1"
proof -
  have "parse_ip (CHR ''['' # h) = None"
    by (rule parse_ip_name) (simp_all add: hex_val_def is_digit_def code_def)
  then show ?thesis by (simp add: vet_host_def Let_def)
qed

end
