(* ===== verification/Engine.thy ===== *)
theory Engine
  imports Pipeline_Properties Catalog Clash_Input Clash_Output Singbox_Output Fetcher
begin

text \<open>
  What ingestion and rendering share: the libraries of the two as one record, and the way of a proxy row
  back to an entry (\<open>ProxyRow::to_entry\<close> of \<open>repo/proxies.rs\<close>). The stored parameters are two JSON objects;
  the round trip through them is stated under the law of the JSON codec.
\<close>

record ('r, 's) engine =
  en_sha256 :: "string \<Rightarrow> string"
  en_to_text :: "json_params \<Rightarrow> string"
  en_from_text :: "string \<Rightarrow> string + (string \<times> json) list"
  en_codecs :: codecs
  en_pretty :: "json \<Rightarrow> string option"
  en_decode :: "json \<Rightarrow> string + PipelineConfig"
  en_build :: "string \<Rightarrow> Flags \<Rightarrow> string + 'r"
  en_is_match :: "'r \<Rightarrow> string \<Rightarrow> bool"
  en_replace_all :: "'r \<Rightarrow> string \<Rightarrow> string \<Rightarrow> string"
  en_to_lowercase :: "string \<Rightarrow> string"
  en_resolve :: "string \<Rightarrow> 's \<Rightarrow> GeoInfo option \<times> 's"
  en_geo_active :: bool

definition compile :: "('r, 's) engine \<Rightarrow> json option \<Rightarrow> PipelineIssue list + 'r CompiledPipeline" where
  "compile en config = from_json (en_decode en) (en_build en) config"

definition apply_engine :: "('r, 's) engine \<Rightarrow> 'r CompiledPipeline \<Rightarrow> Candidate list \<Rightarrow> 's \<Rightarrow> Candidate list \<times> 's" where
  "apply_engine en p cs s =
     apply_pipeline (en_is_match en) (en_replace_all en) (en_sha256 en) (en_to_lowercase en) p (en_resolve en)
       (en_geo_active en) cs s"

section \<open>A row as an entry\<close>

definition column_params :: "(string \<Rightarrow> string + (string \<times> json) list) \<Rightarrow> string option \<Rightarrow> bool \<Rightarrow> error + Param list" where
  "column_params from_text column known =
     (case column of
        None \<Rightarrow> Inr []
      | Some t \<Rightarrow>
          (case from_text t of
             Inl e \<Rightarrow> Inl (Parse (''corrupt proxy params JSON: '' @ e) [])
           | Inr m \<Rightarrow> Inr (map (\<lambda>(k, v). \<lparr>p_key = k, p_value = unwrap_or_default (json_str v), p_known = known\<rparr>) m)))"

definition to_entry :: "(string \<Rightarrow> string + (string \<times> json) list) \<Rightarrow> ProxyRow \<Rightarrow> error + ProxyEntry" where
  "to_entry from_text r =
     bind_res (column_params from_text (r_params r) True) (\<lambda>known.
     bind_res (column_params from_text (r_unknown_params r) False) (\<lambda>unknown.
       if r_port r < 0 \<or> r_port r > 65535 then Inl (Parse (''port out of range: '' @ dec_int (r_port r)) [])
       else Inr \<lparr>pe_scheme = r_scheme r, pe_name = r_name r, pe_host = r_host r, pe_port = word_of_int (r_port r),
         pe_credential = r_credential r, pe_params = known @ unknown, pe_raw_path = [],
         pe_raw_line = unwrap_or_default (r_raw_line r)\<rparr>))"

text \<open>
  The law of the codec: the text of a map of texts is read back as its pairs, each key once. \<open>preserve_order\<close>
  makes the order that of insertion, of which nothing here depends.
\<close>

definition params_codec :: "(json_params \<Rightarrow> string) \<Rightarrow> (string \<Rightarrow> string + (string \<times> json) list) \<Rightarrow> bool" where
  "params_codec to_text from_text \<longleftrightarrow>
     (\<forall>m. finite (dom m) \<longrightarrow> (\<exists>kvs. from_text (to_text m) = Inr kvs \<and> distinct (map fst kvs) \<and>
        map_of kvs = map_option JString \<circ> m))"

text \<open>An entry the columns can hold: no empty key, and no key twice in one column.\<close>

definition storable :: "ProxyEntry \<Rightarrow> bool" where
  "storable e \<longleftrightarrow> distinct (map (\<lambda>p. (p_key p, p_known p)) (pe_params e)) \<and> [] \<notin> p_key ` set (pe_params e)"

lemma or_insert_finite: "finite (dom m) \<Longrightarrow> finite (dom (or_insert m ps))"
  by (induction m ps rule: or_insert.induct) (auto split: option.split)

lemma split_params_finite: "finite (dom (split_params_json ps known))"
  by (simp add: split_params_json_def or_insert_finite)

lemma column_params_read:
  assumes "params_codec to_text from_text"
  obtains qs where "column_params from_text (Some (to_text (split_params_json ps known))) known = Inr qs"
    "distinct (map p_key qs)" "\<And>q. q \<in> set qs \<longleftrightarrow> p_known q = known \<and> split_params_json ps known (p_key q) = Some (p_value q)"
proof -
  obtain kvs where kvs: "from_text (to_text (split_params_json ps known)) = Inr kvs" "distinct (map fst kvs)"
      "map_of kvs = map_option JString \<circ> split_params_json ps known"
    using assms split_params_finite unfolding params_codec_def by blast
  let ?f = "\<lambda>(k, v). \<lparr>p_key = k, p_value = unwrap_or_default (json_str v), p_known = known\<rparr>"
  have mem: "(k, v) \<in> set kvs \<longleftrightarrow> (\<exists>t. v = JString t \<and> split_params_json ps known k = Some t)" for k v
    using map_of_eq_Some_iff [OF kvs(2), of k v] fun_cong [OF kvs(3), of k] by auto
  have f: "q \<in> ?f ` set kvs \<longleftrightarrow> p_known q = known \<and> split_params_json ps known (p_key q) = Some (p_value q)" for q
  proof
    assume "q \<in> ?f ` set kvs"
    then show "p_known q = known \<and> split_params_json ps known (p_key q) = Some (p_value q)"
      by (auto simp: mem unwrap_or_default_def)
  next
    assume q: "p_known q = known \<and> split_params_json ps known (p_key q) = Some (p_value q)"
    then have "(p_key q, JString (p_value q)) \<in> set kvs" by (simp add: mem)
    then show "q \<in> ?f ` set kvs" using q by (auto simp: unwrap_or_default_def intro!: image_eqI)
  qed
  have "distinct (map p_key (map ?f kvs))" using kvs(2) by (simp add: comp_def case_prod_unfold)
  then show thesis using that [of "map ?f kvs"] kvs(1) f by (simp add: column_params_def)
qed

lemma find_in: "find P xs = Some x \<Longrightarrow> x \<in> set xs \<and> P x"
  by (induction xs) (auto split: if_splits)

lemma param_eqI: "p_key p = p_key q \<Longrightarrow> p_known p = p_known q \<Longrightarrow> p_value p = p_value q \<Longrightarrow> p = (q :: Param)"
  by simp

lemma split_params_member:
  assumes "storable e"
  shows "p_known q = known \<and> split_params_json (pe_params e) known (p_key q) = Some (p_value q) \<longleftrightarrow>
     q \<in> set (pe_params e) \<and> p_known q = known"
    (is "?stored \<longleftrightarrow> ?there")
proof
  assume st: ?stored
  then obtain p where p: "find (\<lambda>p. p_key p = p_key q \<and> p_known p = known) (pe_params e) = Some p" "p_value p = p_value q"
    by (auto simp: split_params_json_lookup split: if_splits)
  note f = find_in [OF p(1)]
  have "p = q" using f p(2) st by (intro param_eqI) simp_all
  with f show ?there by simp
next
  assume q: ?there
  have key: "p_key q \<noteq> []" using assms q by (force simp: storable_def)
  have "find (\<lambda>p. p_key p = p_key q \<and> p_known p = known) (pe_params e) \<noteq> None"
    using q by (auto simp: find_None_iff simp del: not_None_eq)
  then obtain p where p: "find (\<lambda>p. p_key p = p_key q \<and> p_known p = known) (pe_params e) = Some p" by blast
  note f = find_in [OF p]
  have "inj_on (\<lambda>p. (p_key p, p_known p)) (set (pe_params e))"
    using assms by (simp add: storable_def distinct_map)
  then have "p = q" using f q by (auto dest: inj_onD)
  then show ?stored using p q key by (simp add: split_params_json_lookup)
qed

lemma column_params_stored:
  assumes "params_codec to_text from_text" "storable e"
  obtains qs where "column_params from_text (Some (to_text (split_params_json (pe_params e) known))) known = Inr qs"
    "distinct (map p_key qs)" "set qs = {q \<in> set (pe_params e). p_known q = known}"
proof (rule column_params_read [OF assms(1), of "pe_params e" known])
  fix qs
  assume qs: "column_params from_text (Some (to_text (split_params_json (pe_params e) known))) known = Inr qs"
    "distinct (map p_key qs)"
    "\<And>q. q \<in> set qs \<longleftrightarrow> p_known q = known \<and> split_params_json (pe_params e) known (p_key q) = Some (p_value q)"
  have "set qs = {q \<in> set (pe_params e). p_known q = known}"
    by (rule set_eqI) (simp only: qs(3) split_params_member [OF assms(2)] mem_Collect_eq)
  with qs(1,2) show thesis by (rule that)
qed

lemma fingerprint_cong:
  assumes "pe_scheme a = pe_scheme b" "pe_host a = pe_host b" "pe_port a = pe_port b"
    "pe_credential a = pe_credential b" "mset (pe_params a) = mset (pe_params b)"
  shows "fingerprint sha256 a = fingerprint sha256 b"
proof -
  have "mset (List.map_filter f zs) = image_mset (the \<circ> f) (filter_mset (\<lambda>x. f x \<noteq> None) (mset zs))"
    for f :: "Param \<Rightarrow> (string \<times> string) option" and zs
    unfolding List.map_filter_def mset_map mset_filter ..
  then have "mset (security_pairs a) = mset (security_pairs b)"
    unfolding security_pairs_def assms(1) using assms(5) by presburger
  then have "fp_key a = fp_key b" using assms by (simp add: fp_key_def)
  then have "fp_preimage a = fp_preimage b" by (simp only: fp_preimage_eq_key)
  then show ?thesis by (simp add: fingerprint_def)
qed

text \<open>
  C29: the way through the table. An entry that gives no parameter key twice among its known or among its
  unknown parameters, and no empty key (\<open>storable\<close>), is stored as a row that reads back as an entry with the
  same scheme, name, address, credential and line, and the same parameters up to their order, so it is the
  same node for deduplication. Both conditions are needed: the columns are JSON objects, which keep one value
  per key (\<open>doubled_param_changes_identity\<close>), and an empty key is dropped.
\<close>

theorem row_round_trip:
  assumes "params_codec to_text from_text" "storable e"
  shows "\<exists>e'. to_entry from_text (new_row to_text now fp e geo i) = Inr e' \<and>
     mset (pe_params e') = mset (pe_params e) \<and> pe_scheme e' = pe_scheme e \<and> pe_name e' = pe_name e \<and>
     pe_host e' = pe_host e \<and> pe_port e' = pe_port e \<and> pe_credential e' = pe_credential e \<and>
     pe_raw_line e' = pe_raw_line e \<and> fingerprint sha256 e' = fingerprint sha256 e"
proof -
  obtain ks where ks: "column_params from_text (Some (to_text (known_params_json e))) True = Inr ks"
      "distinct (map p_key ks)" "set ks = {q \<in> set (pe_params e). p_known q = True}"
    unfolding known_params_json_def by (rule column_params_stored [OF assms])
  obtain us where us: "column_params from_text (Some (to_text (unknown_params_json e))) False = Inr us"
      "distinct (map p_key us)" "set us = {q \<in> set (pe_params e). p_known q = False}"
    unfolding unknown_params_json_def by (rule column_params_stored [OF assms])
  have port: "0 \<le> uint (pe_port e)" "uint (pe_port e) \<le> 65535"
    using unsigned_less [of "pe_port e", where ?'a = int] by simp_all
  let ?e = "e\<lparr>pe_params := ks @ us, pe_raw_path := []\<rparr>"
  have d: "distinct ks" "distinct us" "distinct (pe_params e)"
    using ks(2) us(2) assms(2) by (simp_all add: storable_def distinct_map)
  have "mset (ks @ us) = mset (pe_params e)"
    using d ks(3) us(3) by (intro set_eq_iff_mset_eq_distinct [THEN iffD1]) auto
  moreover have "to_entry from_text (new_row to_text now fp e geo i) = Inr ?e"
    using ks(1) us(1) port by (simp add: to_entry_def new_row_def unwrap_or_default_def)
  ultimately show ?thesis by (intro exI [of _ ?e]) (simp add: fingerprint_cong [of ?e e])
qed

subsection \<open>A codec\<close>

text \<open>A printer and a parser of maps of texts that obey the law: each byte of a text after an \<open>x\<close>, a dot after
  each text.\<close>

definition put_text :: "string \<Rightarrow> string" where
  "put_text s = concat (map (\<lambda>c. [CHR ''x'', c]) s) @ ''.''"

fun take_text :: "string \<Rightarrow> (string \<times> string) option" where
  "take_text (x # r) =
     (if x = CHR ''.'' then Some ([], r)
      else (case r of [] \<Rightarrow> None | c # r' \<Rightarrow> map_option (\<lambda>(s, r''). (c # s, r'')) (take_text r')))"
| "take_text [] = None"

fun take_pairs :: "nat \<Rightarrow> string \<Rightarrow> (string \<times> json) list" where
  "take_pairs 0 s = []"
| "take_pairs (Suc n) s =
     (case take_text s of
        None \<Rightarrow> []
      | Some (k, r) \<Rightarrow> (case take_text r of None \<Rightarrow> [] | Some (v, r') \<Rightarrow> (k, JString v) # take_pairs n r'))"

definition sample_to_text :: "json_params \<Rightarrow> string" where
  "sample_to_text m = concat (map (\<lambda>k. put_text k @ put_text (unwrap_or_default (m k))) (sorted_list_of_set (dom m)))"

definition sample_from_text :: "string \<Rightarrow> string + (string \<times> json) list" where
  "sample_from_text s = Inr (take_pairs (length s) s)"

lemma take_put_text [simp]: "take_text (put_text s @ r) = Some (s, r)"
  by (induction s) (simp_all add: put_text_def)

lemma put_text_not_empty [simp]: "put_text s \<noteq> []"
  by (simp add: put_text_def)

lemma take_pairs_put:
  "length ks \<le> n \<Longrightarrow>
   take_pairs n (concat (map (\<lambda>k. put_text k @ put_text (f k)) ks)) = map (\<lambda>k. (k, JString (f k))) ks"
proof (induction ks arbitrary: n)
  case Nil
  then show ?case by (cases n) simp_all
next
  case (Cons k ks)
  then show ?case by (cases n) simp_all
qed

lemma length_concat_ge: "(\<And>x. x \<in> set xs \<Longrightarrow> f x \<noteq> []) \<Longrightarrow> length xs \<le> length (concat (map f xs))"
proof (induction xs)
  case (Cons x xs)
  have "Suc 0 \<le> length (f x)" using Cons.prems [of x] by (cases "f x") simp_all
  moreover have "length xs \<le> length (concat (map f xs))" using Cons by simp
  ultimately show ?case by simp
qed simp

lemma sample_codec: "params_codec sample_to_text sample_from_text"
proof -
  have "\<exists>kvs. sample_from_text (sample_to_text m) = Inr kvs \<and> distinct (map fst kvs) \<and> map_of kvs = map_option JString \<circ> m"
    if "finite (dom m)" for m :: json_params
  proof (intro exI conjI)
    let ?ks = "sorted_list_of_set (dom m)"
    let ?kvs = "map (\<lambda>k. (k, JString (unwrap_or_default (m k)))) ?ks"
    have "length ?ks \<le> length (sample_to_text m)" unfolding sample_to_text_def by (rule length_concat_ge) simp
    then show "sample_from_text (sample_to_text m) = Inr ?kvs"
      unfolding sample_from_text_def by (simp add: sample_to_text_def take_pairs_put)
    show "distinct (map fst ?kvs)" by (simp add: comp_def)
    show "map_of ?kvs = map_option JString \<circ> m"
      using that by (auto simp: fun_eq_iff map_of_map_restrict restrict_map_def unwrap_or_default_def split: option.split)
  qed
  then show ?thesis by (simp add: params_codec_def)
qed

definition sample_stored :: ProxyEntry where
  "sample_stored = \<lparr>pe_scheme = Trojan, pe_name = ''n'', pe_host = ''h.io'', pe_port = 443, pe_credential = ''pw'',
     pe_params = [\<lparr>p_key = ''sni'', p_value = ''a'', p_known = True\<rparr>, \<lparr>p_key = ''x'', p_value = ''b'', p_known = False\<rparr>],
     pe_raw_path = [], pe_raw_line = ''line''\<rparr>"

theorem row_round_trip_witness:
  "\<exists>e'. to_entry sample_from_text (new_row sample_to_text 5 [] sample_stored no_stamp 0) = Inr e' \<and>
     pe_credential e' = ''pw'' \<and> mset (pe_params e') = mset (pe_params sample_stored)"
proof -
  have "storable sample_stored" by (simp add: storable_def sample_stored_def)
  from row_round_trip [OF sample_codec this, of 5 "[]" no_stamp 0 "\<lambda>s. s"]
  show ?thesis by (auto simp: sample_stored_def)
qed

text \<open>
  A parameter given twice is stored once, and the entry read back is another node than the one the row is
  filed under.
\<close>

definition doubled_entry :: ProxyEntry where
  "doubled_entry = sample_stored\<lparr>pe_params := [\<lparr>p_key = ''sni'', p_value = ''a'', p_known = True\<rparr>,
     \<lparr>p_key = ''sni'', p_value = ''b'', p_known = True\<rparr>]\<rparr>"

theorem doubled_param_changes_identity:
  "\<exists>e'. to_entry sample_from_text (new_row sample_to_text 5 (fingerprint (\<lambda>s. s) doubled_entry) doubled_entry no_stamp 0) = Inr e' \<and>
     fp_preimage e' \<noteq> fp_preimage doubled_entry"
proof -
  have k: "known_params_json doubled_entry = [''sni'' \<mapsto> ''a'']" "unknown_params_json doubled_entry = Map.empty"
    by (auto simp: known_params_json_def unknown_params_json_def split_params_json_def doubled_entry_def)
  have c: "column_params sample_from_text (Some (sample_to_text [''sni'' \<mapsto> ''a''])) True =
      Inr [\<lparr>p_key = ''sni'', p_value = ''a'', p_known = True\<rparr>]"
    "column_params sample_from_text (Some (sample_to_text Map.empty)) False = Inr []"
    by (simp_all add: column_params_def sample_from_text_def sample_to_text_def put_text_def unwrap_or_default_def
        numeral_eq_Suc)
  let ?e = "sample_stored\<lparr>pe_params := [\<lparr>p_key = ''sni'', p_value = ''a'', p_known = True\<rparr>]\<rparr>"
  have "to_entry sample_from_text (new_row sample_to_text 5 (fingerprint (\<lambda>s. s) doubled_entry) doubled_entry no_stamp 0) = Inr ?e"
    using c by (simp add: to_entry_def new_row_def k unwrap_or_default_def)
      (simp add: doubled_entry_def sample_stored_def)
  moreover have "mset (security_pairs ?e) \<noteq> mset (security_pairs doubled_entry)"
  proof -
    have "length (security_pairs ?e) = 1" "length (security_pairs doubled_entry) = 2"
      by (simp_all add: doubled_entry_def sample_stored_def) code_simp+
    then show ?thesis using mset_eq_length [of "security_pairs ?e" "security_pairs doubled_entry"] by auto
  qed
  then have "fp_preimage ?e \<noteq> fp_preimage doubled_entry" unfolding fp_preimage_eq_key fp_key_def by simp
  ultimately show ?thesis by blast
qed

end
