(* ===== verification/Ingest.thy ===== *)
theory Ingest
  imports Engine
begin

text \<open>
  \<open>fumox-server/ingest.rs\<close>: one pass over one source, from the payload to the tables. The download is
  \<open>Fetcher\<close>; its outcome and duration come as arguments, and so does the store it is applied to, which may
  have changed since the caller read the source row. Lookups for the geo stamps run one after the other.
\<close>

record IngestSettings =
  is_refresh_check_limit :: nat
  is_drop_gate :: bool
  is_removed_as_unknown :: bool

datatype payload_error =
    NotUtf8 string
  | BadSubscription parse_error
  | NothingRecognized nat nat nat
  | BadPipeline
  | NothingAllowed

text \<open>The texts of the UTF-8 decoder and of the parser are theirs.\<close>

fun payload_message :: "(parse_error \<Rightarrow> string) \<Rightarrow> payload_error \<Rightarrow> string" where
  "payload_message show_parse (NotUtf8 e) = ''payload is not valid UTF-8: '' @ e"
| "payload_message show_parse (BadSubscription e) = show_parse e"
| "payload_message show_parse (NothingRecognized d u c) =
     ''no proxies recognized (discarded='' @ dec_nat d @ '', unrecognized='' @ dec_nat u @ '', clash_skipped=''
     @ dec_nat c @ '')''"
| "payload_message show_parse BadPipeline = ''pipeline config failed validation; refusing to ingest''"
| "payload_message show_parse NothingAllowed = ''no proxies left after the protocol allowlist''"

datatype IngestOutcome =
    IngestOk nat ReconciliationStats "int option"
  | FetchFailed FetchFailure int
  | ParseFailed payload_error int

section \<open>From the payload to the entries\<close>

record FilteredPayload =
  fi_entries :: "ProxyEntry list"
  fi_recognized :: nat
  fi_has_drop_rules :: bool

definition allowed_entries :: "Scheme list option \<Rightarrow> ProxyEntry list \<Rightarrow> ProxyEntry list" where
  "allowed_entries protocols entries =
     (case protocols of Some allowed \<Rightarrow> filter (\<lambda>e. pe_scheme e \<in> set allowed) entries | None \<Rightarrow> entries)"

definition source_drop_rules :: "('r, 's) engine \<Rightarrow> json option \<Rightarrow> payload_error + bool" where
  "source_drop_rules en pipeline =
     (case pipeline of
        None \<Rightarrow> Inr False
      | Some v \<Rightarrow>
          (case compile en (Some v) of Inr compiled \<Rightarrow> Inr (has_drop_rules compiled) | Inl _ \<Rightarrow> Inl BadPipeline))"

definition parse_payload :: "('r, 's) engine \<Rightarrow> (string \<Rightarrow> string) \<Rightarrow> Source \<Rightarrow> FetchedPayload \<Rightarrow> payload_error + FilteredPayload" where
  "parse_payload en utf8_error source p =
     (if \<not> valid_utf8 (fp_body p) then Inl (NotUtf8 (utf8_error (fp_body p)))
      else bind_res (map_err BadSubscription
             (parse_subscription (en_codecs en) (fp_body p) (so_encoding source) (so_input_format source))) (\<lambda>parsed.
        if ps_entries parsed = []
        then Inl (NothingRecognized (ps_discarded parsed) (ps_unrecognized parsed) (ps_clash_skipped parsed))
        else (let entries = allowed_entries (so_protocols source) (ps_entries parsed) in
          bind_res (source_drop_rules en (so_pipeline source)) (\<lambda>has_drop_rules.
            if entries = [] then Inl NothingAllowed
            else Inr \<lparr>fi_entries = entries, fi_recognized = length (ps_entries parsed),
                      fi_has_drop_rules = has_drop_rules\<rparr>))))"

definition resolve_geo_stamps :: "('r, 's) engine \<Rightarrow> ProxyEntry list \<Rightarrow> 's \<Rightarrow> GeoStamp option list \<times> 's" where
  "resolve_geo_stamps en entries s =
     (if \<not> en_geo_active en then ([], s)
      else (let (infos, s') = thread (\<lambda>e. en_resolve en (pe_host e)) entries s
            in (map (map_option stamp_from_info) infos, s')))"

definition apply_drop_rules ::
  "('r, 's) engine \<Rightarrow> Source \<Rightarrow> ProxyEntry list \<Rightarrow> GeoStamp option list \<Rightarrow>
   payload_error + (ProxyEntry list \<times> GeoStamp option list \<times> nat)" where
  "apply_drop_rules en source entries geo =
     (case so_pipeline source of
        None \<Rightarrow> Inr (entries, geo, 0)
      | Some v \<Rightarrow>
          (case compile en (Some v) of
             Inl _ \<Rightarrow> Inl BadPipeline
           | Inr compiled \<Rightarrow>
               if \<not> has_drop_rules compiled then Inr (entries, geo, 0)
               else (let (after, after_geo) = drop_entries_with_geo (en_is_match en) compiled entries geo
                     in Inr (after, after_geo, length entries - length after))))"

section \<open>The tables\<close>

text \<open>Linking to a source that is gone violates the foreign key and rolls the transaction back.\<close>

definition reconcile_store ::
  "('r, 's) engine \<Rightarrow> string \<Rightarrow> ProxyEntry list \<Rightarrow> GeoStamp option list \<Rightarrow> int \<Rightarrow> bool \<Rightarrow> Store \<Rightarrow>
   error + (ReconciliationStats \<times> Store)" where
  "reconcile_store en source entries geo now linger st =
     bind_res (reconcile_source (en_sha256 en) (en_to_text en) source entries geo now linger (st_db st)) (\<lambda>(stats, db).
       if entries \<noteq> [] \<and> get_source st source = None then Inl foreign_key_failed
       else Inr (stats, st\<lparr>st_db := db\<rparr>))"

definition journal :: "FetchLogEntry \<Rightarrow> int \<Rightarrow> FetchOutcome \<Rightarrow> Store \<Rightarrow> Store" where
  "journal entry duration outcome st =
     record_fetch_outcome (fe_source_id entry) outcome (committed (insert_timed entry (Some duration) st) st)"

definition journal_success :: "Source \<Rightarrow> FetchedPayload \<Rightarrow> nat \<Rightarrow> int \<Rightarrow> int \<Rightarrow> Store \<Rightarrow> Store" where
  "journal_success source p found now duration =
     journal \<lparr>fe_source_id = so_id source, fe_fetched_at = now, fe_ok = True, fe_http_status = Some (int (fp_http_status p)),
       fe_bytes = Some (int (fp_bytes p)), fe_proxies_found = Some (int found), fe_error = None, fe_error_class = None\<rparr>
       duration (FetchSuccess now)"

definition journal_failure :: "Source \<Rightarrow> FetchFailure \<Rightarrow> string option \<Rightarrow> int \<Rightarrow> int \<Rightarrow> Store \<Rightarrow> Store" where
  "journal_failure source failure override now duration =
     (let message = (case override of Some m \<Rightarrow> m | None \<Rightarrow> failure_text failure) in
      journal \<lparr>fe_source_id = so_id source, fe_fetched_at = now, fe_ok = False,
        fe_http_status = map_option int (failure_http_status failure), fe_bytes = None, fe_proxies_found = None,
        fe_error = Some message, fe_error_class = Some (error_class failure)\<rparr>
        duration (FetchFailure now message (error_class failure)))"

definition journal_parse_failure :: "Source \<Rightarrow> FetchedPayload \<Rightarrow> string \<Rightarrow> int \<Rightarrow> int \<Rightarrow> Store \<Rightarrow> Store" where
  "journal_parse_failure source p message now duration =
     journal \<lparr>fe_source_id = so_id source, fe_fetched_at = now, fe_ok = False, fe_http_status = Some (int (fp_http_status p)),
       fe_bytes = Some (int (fp_bytes p)), fe_proxies_found = Some 0, fe_error = Some message,
       fe_error_class = Some ParseError\<rparr>
       duration (FetchFailure now message ParseError)"

definition enqueue_probe_requests :: "nat list \<Rightarrow> nat \<Rightarrow> int \<Rightarrow> Db \<Rightarrow> Db" where
  "enqueue_probe_requests ids lim now db = (if lim = 0 \<or> ids = [] then db else snd (enqueue_checks ids lim now db))"

text \<open>What follows a successful reconciliation: the revival of removed rows and the priority queue.\<close>

definition hand_over ::
  "('r, 's) engine \<Rightarrow> IngestSettings \<Rightarrow> ProxyEntry list \<Rightarrow> ReconciliationStats \<Rightarrow> int \<Rightarrow> Db \<Rightarrow> Db" where
  "hand_over en settings entries stats now db =
     (let (queue_ids, db1) =
            (if is_removed_as_unknown settings
             then (let (ids, db') = revive_removed (map (fingerprint (en_sha256 en)) entries) now db
                   in (rs_inserted_ids stats @ ids, db'))
             else (rs_inserted_ids stats, db))
      in enqueue_probe_requests queue_ids (is_refresh_check_limit settings) now db1)"

section \<open>One pass\<close>

definition still_fresh :: "Source \<Rightarrow> int \<Rightarrow> bool" where
  "still_fresh source now \<longleftrightarrow>
     (case so_last_fetched_at source of
        None \<Rightarrow> False
      | Some fetched_at \<Rightarrow> now - fetched_at < so_cache_ttl_seconds source)"

record texts =
  tx_utf8 :: "string \<Rightarrow> string"
  tx_parse :: "parse_error \<Rightarrow> string"
  tx_error :: "error \<Rightarrow> string"

definition store_entries ::
  "('r, 's) engine \<Rightarrow> texts \<Rightarrow> IngestSettings \<Rightarrow> Source \<Rightarrow> FetchedPayload \<Rightarrow> int \<Rightarrow> int \<Rightarrow> nat \<Rightarrow> bool \<Rightarrow>
   ProxyEntry list \<Rightarrow> GeoStamp option list \<Rightarrow> Store \<Rightarrow> IngestOutcome \<times> Store" where
  "store_entries en tx settings source p now duration recognised has_drop entries geo st =
     (case reconcile_store en (so_id source) entries geo now (\<not> (is_drop_gate settings \<and> has_drop)) st of
        Inr (stats, st1) \<Rightarrow>
          (let st2 = journal_success source p recognised now duration st1
           in (IngestOk recognised stats (Some duration),
               st2\<lparr>st_db := hand_over en settings entries stats now (st_db st2)\<rparr>))
      | Inl err \<Rightarrow>
          (FetchFailed (HttpServerFailure 500) duration,
           journal_failure source (HttpServerFailure 500) (Some (tx_error tx err)) now duration st))"

definition ingest_payload ::
  "('r, 's) engine \<Rightarrow> texts \<Rightarrow> IngestSettings \<Rightarrow> Source \<Rightarrow> FetchedPayload \<Rightarrow> int \<Rightarrow> int \<Rightarrow> Store \<Rightarrow> 's \<Rightarrow>
   (IngestOutcome \<times> Store) \<times> 's" where
  "ingest_payload en tx settings source p now duration st s =
     (case parse_payload en (tx_utf8 tx) source p of
        Inl e \<Rightarrow>
          ((ParseFailed e duration, journal_parse_failure source p (payload_message (tx_parse tx) e) now duration st), s)
      | Inr filtered \<Rightarrow>
          (let (geo, s1) = resolve_geo_stamps en (fi_entries filtered) s in
           case apply_drop_rules en source (fi_entries filtered) geo of
             Inl e \<Rightarrow>
               ((ParseFailed e duration,
                 journal_parse_failure source p (payload_message (tx_parse tx) e) now duration st), s1)
           | Inr (entries, geo', dropped) \<Rightarrow>
               (store_entries en tx settings source p now duration (fi_recognized filtered) (fi_has_drop_rules filtered)
                  entries geo' st, s1)))"

definition ingest_source ::
  "('r, 's) engine \<Rightarrow> texts \<Rightarrow> IngestSettings \<Rightarrow> Source \<Rightarrow> bool \<Rightarrow> int \<Rightarrow> FetchFailure + FetchedPayload \<Rightarrow> int \<Rightarrow>
   Store \<Rightarrow> 's \<Rightarrow> (IngestOutcome \<times> Store) \<times> 's" where
  "ingest_source en tx settings source force now fetched duration st s =
     (if \<not> force \<and> still_fresh source now then ((IngestOk 0 no_stats None, st), s)
      else (case fetched of
              Inl failure \<Rightarrow> ((FetchFailed failure duration, journal_failure source failure None now duration st), s)
            | Inr p \<Rightarrow> ingest_payload en tx settings source p now duration st s))"

section \<open>The dry run of the form\<close>

datatype DryRunOutcome =
    DryRunOk nat nat nat nat "string list"
  | DryRunFetchFailed FetchFailure
  | DryRunParseFailed nat payload_error

definition sample_line :: "ProxyEntry \<Rightarrow> string" where
  "sample_line e =
     (let endpoint = scheme_as_str (pe_scheme e) @ ''://'' @ pe_host e @ '':'' @ dec_nat (unat (pe_port e))
      in if pe_name e = [] then endpoint else endpoint @ '', '' @ pe_name e)"

definition dry_run_source ::
  "('r, 's) engine \<Rightarrow> texts \<Rightarrow> Source \<Rightarrow> FetchFailure + FetchedPayload \<Rightarrow> 's \<Rightarrow> DryRunOutcome \<times> 's" where
  "dry_run_source en tx source fetched s =
     (case fetched of
        Inl failure \<Rightarrow> (DryRunFetchFailed failure, s)
      | Inr p \<Rightarrow>
          (case parse_payload en (tx_utf8 tx) source p of
             Inl e \<Rightarrow> (DryRunParseFailed (fp_http_status p) e, s)
           | Inr filtered \<Rightarrow>
               (let (geo, s1) = resolve_geo_stamps en (fi_entries filtered) s in
                (case apply_drop_rules en source (fi_entries filtered) geo of
                   Inl e \<Rightarrow> DryRunParseFailed (fp_http_status p) e
                 | Inr (kept, _, dropped) \<Rightarrow>
                     DryRunOk (fp_http_status p) (fp_bytes p) (fi_recognized filtered) dropped
                       (map sample_line (take 10 kept)), s1))))"

end
