(* ===== verification/Ingest_Properties.thy ===== *)
theory Ingest_Properties
  imports Ingest Lifecycle_Properties Input_Properties
begin

text \<open>
  Ingestion against the catalog: every pass keeps the invariant of the store, a pass that fails leaves the
  pool and the freshness stamps alone, a pass that succeeds links every entry it kept and stamps the source,
  also when the source was edited while the payload was on its way.
\<close>

section \<open>Links after a reconciliation\<close>

lemma reconcile_link_sources:
  assumes "reconcile_source sha256 to_text source entries geo now linger db = Inr (stats, db')" "wf_db db"
    and "l \<in> set (links db')"
  shows "l \<in> set (links db) \<or> l_source l = source \<and> entries \<noteq> []"
proof -
  from reconcile_Inr [OF assms(1,2)] obtain mid stats' where
    s: "sweep source now linger stats' mid = (stats, db')" and m: "reconcile_mid sha256 source entries now db mid" .
  have "l \<in> set (links mid)" using s assms(3) by (auto simp: sweep_def Let_def split: if_splits)
  then show ?thesis using m by (auto simp: reconcile_mid_def carried_def)
qed

lemma links_revive_loop [simp]: "links (snd (revive_loop cs now acc db)) = links db"
  by (induction cs now acc db rule: revive_loop.induct) (auto simp: update_returning_def split: prod.split)

lemma links_revive_removed [simp]: "links (snd (revive_removed fps now db)) = links db"
  by (simp add: revive_removed_def)

lemma links_enqueue [simp]: "links (snd (enqueue_checks ids lim now db)) = links db"
  using enqueue_checks_sound [of ids lim now db] by (simp add: only_requests_def)

lemma hand_over_links [simp]: "links (hand_over en settings entries stats now db) = links db"
  by (simp add: hand_over_def enqueue_probe_requests_def split_beta)

lemma hand_over_sound: "sound_db db \<Longrightarrow> sound_db (hand_over en settings entries stats now db)"
  by (auto simp: hand_over_def enqueue_probe_requests_def split_beta revive_removed_def
      intro!: enqueue_sound revive_loop_sound)

section \<open>The invariant of the store\<close>

text \<open>Only the proxy tables change, and every new link is to a source of the catalog.\<close>

lemma with_db_wf:
  assumes "wf_store st" "sound_db db" "\<And>l. l \<in> set (links db) \<Longrightarrow> l_source l \<in> so_id ` set (st_sources st)"
  shows "wf_store (st\<lparr>st_db := db\<rparr>)"
  using assms by (simp add: wf_store_def refs_ok_def journal_ok_def members_ok_def)

lemma reconcile_store_wf:
  assumes "wf_store st" "reconcile_store en source entries geo now linger st = Inr (stats, st')"
  shows "wf_store st'"
proof -
  obtain db where r: "reconcile_source (en_sha256 en) (en_to_text en) source entries geo now linger (st_db st) = Inr (stats, db)"
      and st': "st' = st\<lparr>st_db := db\<rparr>" and fk: "entries = [] \<or> get_source st source \<noteq> None"
    using assms(2) by (auto simp: reconcile_store_def bind_res_Inr split: if_splits)
  have wf: "wf_db (st_db st)" "rows_ok (st_db st)" using assms(1) by (simp_all add: wf_store_def sound_db_def)
  have "l_source l \<in> so_id ` set (st_sources st)" if "l \<in> set (links db)" for l
    using reconcile_link_sources [OF r wf(1) that] fk assms(1)
    by (auto simp: get_source_None wf_store_def refs_ok_def simp del: not_None_eq)
  then show ?thesis unfolding st'
    using reconcile_keeps [OF r wf] by (intro with_db_wf [OF assms(1)]) (simp_all add: sound_db_def)
qed

lemma journal_wf: "wf_store st \<Longrightarrow> wf_store (journal e d out st)"
  by (auto simp: journal_def intro!: record_fetch_outcome_wf committed_wf intro: insert_timed_wf)

lemma journal_entries_wf:
  "wf_store st \<Longrightarrow> wf_store (journal_success source p n now d st)"
  "wf_store st \<Longrightarrow> wf_store (journal_failure source f m now d st)"
  "wf_store st \<Longrightarrow> wf_store (journal_parse_failure source p t now d st)"
  by (simp_all add: journal_success_def journal_failure_def journal_parse_failure_def Let_def journal_wf)

lemma hand_over_wf:
  assumes "wf_store st"
  shows "wf_store (st\<lparr>st_db := hand_over en settings entries stats now (st_db st)\<rparr>)"
  using assms by (intro with_db_wf hand_over_sound) (simp_all add: wf_store_def refs_ok_def)

lemma store_entries_wf:
  "wf_store st \<Longrightarrow> wf_store (snd (store_entries en tx settings source p now d n has_drop entries geo st))"
  by (auto simp: store_entries_def Let_def intro!: hand_over_wf journal_entries_wf
      intro: reconcile_store_wf split: sum.split)

lemma ingest_source_wf:
  "wf_store st \<Longrightarrow> wf_store (snd (fst (ingest_source en tx settings source force now fetched d st s)))"
  by (auto simp: ingest_source_def ingest_payload_def split_beta intro!: journal_entries_wf store_entries_wf
      split: sum.split)

text \<open>
  The statements on the proxy tables other than a reconciliation: the verdicts of the probe, for any row and
  whatever happened to it since it was drawn; the geo columns; the queue of checks and the probe journal, which
  refuses a row that is gone; the resets, revivals and clean-ups of the panel.
\<close>

datatype table_op =
    CheckSucceeded nat int "int option" bool bool
  | CheckFailed int nat int nat int int bool
  | EngineUnavailable nat int
  | QuarantineCheckFailed nat int int "int list"
  | UpdateGeo nat GeoStamp
  | UpdateGeoFull nat GeoStamp string
  | EnqueueChecks "nat list" nat int
  | ClaimChecks "nat list"
  | PurgeSettled
  | PurgeRequests int
  | InsertResult ProbeResult
  | PurgeResults int
  | ResetStatus nat int
  | ReviveRemoved "string list" int
  | ReviveCountry string int
  | ReviveAsn string int
  | ReviveUnprobed int
  | ReviveQuarantine int
  | MarkOrphans "ProxyStatus list" int
  | PurgeRemoved
  | QuarantineToRemoved int
  | RemoveWithoutCountry int
  | RemoveAsn string int
  | RemoveCountry string int
  | RemoveUnprobeable int

fun table_step :: "table_op \<Rightarrow> Db \<Rightarrow> Db" where
  "table_step (CheckSucceeded i now lat rst tunnel) db =
     snd (check_succeeded i now lat rst (if tunnel then Ready else Alive) db)"
| "table_step (CheckFailed draw i now lim min_secs spread mark) db = snd (check_failed draw i now lim min_secs spread mark db)"
| "table_step (EngineUnavailable i now) db = snd (check_engine_unavailable i now db)"
| "table_step (QuarantineCheckFailed i now step delays) db = snd (quarantine_check_failed i now step delays db)"
| "table_step (UpdateGeo i stamp) db = update_geo i stamp db"
| "table_step (UpdateGeoFull i stamp ip) db = update_geo_full i stamp ip db"
| "table_step (EnqueueChecks ids lim now) db = snd (enqueue_checks ids lim now db)"
| "table_step (ClaimChecks ids) db = snd (claim_checks ids db)"
| "table_step PurgeSettled db = snd (purge_settled_checks db)"
| "table_step (PurgeRequests cutoff) db = snd (purge_requests_before cutoff db)"
| "table_step (InsertResult entry) db = (if pr_proxy entry \<in> r_id ` set (proxies db) then insert_result entry db else db)"
| "table_step (PurgeResults cutoff) db = snd (purge_before cutoff db)"
| "table_step (ResetStatus i now) db = snd (reset_status i now db)"
| "table_step (ReviveRemoved fps now) db = snd (revive_removed fps now db)"
| "table_step (ReviveCountry c now) db = snd (revive_removed_by_country c now db)"
| "table_step (ReviveAsn asn now) db = snd (revive_removed_by_asn asn now db)"
| "table_step (ReviveUnprobed now) db = snd (revive_removed_without_probe_history now db)"
| "table_step (ReviveQuarantine now) db = snd (revive_quarantine now db)"
| "table_step (MarkOrphans protected now) db = snd (mark_orphans_removed protected now db)"
| "table_step PurgeRemoved db = snd (purge_removed db)"
| "table_step (QuarantineToRemoved now) db = snd (quarantine_to_removed now db)"
| "table_step (RemoveWithoutCountry now) db = snd (remove_alive_without_country now db)"
| "table_step (RemoveAsn asn now) db = snd (remove_alive_by_asn asn now db)"
| "table_step (RemoveCountry c now) db = snd (remove_alive_by_country c now db)"
| "table_step (RemoveUnprobeable now) db = snd (remove_unprobeable_unknown now db)"

lemma table_step_kind: "table_step op db = db \<or> admin_step db (table_step op db) \<or> verdict_step db (table_step op db)"
  by (cases op) (auto intro: admin_step.intros verdict_step.intros)

lemma table_step_sound: "sound_db db \<Longrightarrow> sound_db (table_step op db)"
  using table_step_kind [of op db] admin_step_sound verdict_step_sound by metis

lemma check_failed_links: "links (snd (check_failed draw i now lim min_secs spread mark db)) = links db"
  by (simp add: check_failed_def Let_def split_beta split: list.split)

lemma table_step_links: "set (links (table_step op db)) \<subseteq> set (links db)"
  by (cases op) (auto simp: check_succeeded_def check_failed_links check_engine_unavailable_def quarantine_check_failed_def
      update_geo_def update_geo_full_def claim_checks_def purge_settled_checks_def purge_requests_before_def
      insert_result_def purge_before_def reset_status_def revive_removed_by_country_def revive_removed_by_asn_def
      revive_removed_without_probe_history_def revive_quarantine_def update_returning_def mark_orphans_removed_def
      purge_removed_def quarantine_to_removed_def remove_alive_without_country_def remove_alive_by_asn_def
      remove_alive_by_country_def remove_unprobeable_unknown_def cleanup_def Let_def split: option.splits if_splits)

lemma table_step_wf:
  assumes "wf_store st"
  shows "wf_store (st\<lparr>st_db := table_step op (st_db st)\<rparr>)"
  using assms table_step_links [of op "st_db st"] table_step_sound [of "st_db st" op]
  by (intro with_db_wf) (auto simp: wf_store_def refs_ok_def)

datatype store_event =
    CatalogStep catalog_op
  | TableStep table_op
  | IngestPass Source bool int "FetchFailure + FetchedPayload" int

definition store_step ::
  "('r, 's) engine \<Rightarrow> texts \<Rightarrow> IngestSettings \<Rightarrow> Store \<times> 's \<Rightarrow> store_event \<Rightarrow> Store \<times> 's" where
  "store_step en tx settings w ev =
     (case ev of
        CatalogStep op \<Rightarrow> (run_op op (fst w), snd w)
      | TableStep op \<Rightarrow> ((fst w)\<lparr>st_db := table_step op (st_db (fst w))\<rparr>, snd w)
      | IngestPass source force now fetched d \<Rightarrow>
          (let (r, s) = ingest_source en tx settings source force now fetched d (fst w) (snd w) in (snd r, s)))"

lemma store_step_wf: "wf_store (fst w) \<Longrightarrow> wf_store (fst (store_step en tx settings w ev))"
  by (auto simp: store_step_def split_beta run_op_wf ingest_source_wf table_step_wf split: store_event.split)

lemma store_steps_wf: "wf_store (fst w) \<Longrightarrow> wf_store (fst (foldl (store_step en tx settings) w evs))"
  by (induction evs arbitrary: w) (simp_all add: store_step_wf)

text \<open>
  C16: the keys, the references and the lifecycle columns hold after any sequence of catalog statements,
  ingestion passes, verdicts of the probe and statements of the panel on the proxy tables, in any
  interleaving: cascades, refused statements and failed passes included, whatever source row a pass was
  started with and whatever became of a row since the probe drew it. The composition of a profile names every
  source once, in the order of positions.
\<close>

theorem store_invariant:
  "wf_store (fst (foldl (store_step en tx settings) (empty_store, s) evs)) \<and>
   distinct (map fst (get_sources (fst (foldl (store_step en tx settings) (empty_store, s) evs)) p)) \<and>
   sorted (map snd (get_sources (fst (foldl (store_step en tx settings) (empty_store, s) evs)) p))"
  using store_steps_wf [of "(empty_store, s)" en tx settings evs] composition_order [of _ p] by (simp add: empty_store_wf)

section \<open>A pass that fails\<close>

definition without_error :: "Source \<Rightarrow> Source" where
  "without_error s = s\<lparr>so_last_error := None, so_error_class := None\<rparr>"

text \<open>The catalog as it was, but for the error columns of the sources and for the journal.\<close>

definition only_errors :: "Store \<Rightarrow> Store \<Rightarrow> bool" where
  "only_errors st st' \<longleftrightarrow> st_db st' = st_db st \<and> map without_error (st_sources st') = map without_error (st_sources st) \<and>
     st_profiles st' = st_profiles st \<and> st_members st' = st_members st \<and> st_meta st' = st_meta st"

lemma failed_journal:
  "only_errors st (journal e d (FetchFailure at' m c) st)"
  by (simp add: only_errors_def journal_def record_fetch_outcome_def committed_def insert_timed_def
      write_outcome_def without_error_def split: sum.split)

lemma failed_journals:
  "only_errors st (journal_failure source f m now d st)"
  "only_errors st (journal_parse_failure source p t now d st)"
  by (simp_all add: journal_failure_def journal_parse_failure_def Let_def failed_journal)

lemma store_entries_failed:
  "(\<exists>k stats t. fst (store_entries en tx settings source p now d n has_drop entries geo st) = IngestOk k stats t) \<or>
   only_errors st (snd (store_entries en tx settings source p now d n has_drop entries geo st))"
  by (auto simp: store_entries_def Let_def failed_journals split: sum.split)

text \<open>
  C17: a pass that fails, in the fetch, in the parser, in the rules or in the transaction, leaves the pool of
  proxies, the links and every freshness stamp as they were; only the error columns and the journal tell
  of it.
\<close>

theorem failed_ingest_keeps_pool:
  "case fst (fst (ingest_source en tx settings source force now fetched d st s)) of
     IngestOk n stats t \<Rightarrow> True
   | _ \<Rightarrow> only_errors st (snd (fst (ingest_source en tx settings source force now fetched d st s)))"
proof -
  have "(\<exists>k stats t. fst (fst (ingest_source en tx settings source force now fetched d st s)) = IngestOk k stats t) \<or>
      only_errors st (snd (fst (ingest_source en tx settings source force now fetched d st s)))"
    using store_entries_failed [of en tx settings source]
    by (auto simp: ingest_source_def ingest_payload_def split_beta failed_journals split: sum.split)
  then show ?thesis by (auto split: IngestOutcome.split)
qed

section \<open>A pass that succeeds\<close>

lemma find_map_rows: "find P (map f xs) = map_option f (find (P \<circ> f) xs)"
  by (induction xs) auto

lemma record_outcome_source:
  "get_source (record_fetch_outcome i out st) k =
     map_option (\<lambda>s. if so_id s = i then write_outcome out s else s) (get_source st k)"
proof -
  have id: "so_id (if so_id s = i then write_outcome out s else s) = so_id s" for s
    by (simp add: write_outcome_def split: FetchOutcome.split)
  have "(\<lambda>r. so_id r = k) \<circ> (\<lambda>s. if so_id s = i then write_outcome out s else s) = (\<lambda>r. so_id r = k)"
    by (rule ext) (simp only: comp_def id)
  then show ?thesis by (simp add: get_source_def find_key_def record_fetch_outcome_def find_map_rows)
qed

lemma get_source_other [simp]:
  "get_source (st\<lparr>st_db := db\<rparr>) k = get_source st k"
  "get_source (committed (insert_timed e d st) st) k = get_source st k"
  by (simp_all add: get_source_def committed_def insert_timed_def split: sum.split)

lemma journal_db [simp]: "st_db (journal e d out st) = st_db st"
  by (simp add: journal_def record_fetch_outcome_def committed_def insert_timed_def split: sum.split)

lemma journal_success_simps [simp]:
  "st_db (journal_success source p n now d st) = st_db st"
  "get_source (journal_success source p n now d st) k =
     map_option (\<lambda>s. if so_id s = so_id source then write_outcome (FetchSuccess now) s else s) (get_source st k)"
  by (simp_all add: journal_success_def, simp add: journal_def record_outcome_source)

definition row_keys :: "Db \<Rightarrow> (nat \<times> string) set" where
  "row_keys db = (\<lambda>r. (r_id r, r_fingerprint r)) ` set (proxies db)"

lemma row_keys_update:
  "(\<And>r. r_id (f r) = r_id r \<and> r_fingerprint (f r) = r_fingerprint r) \<Longrightarrow> row_keys (update_rows g f db) = row_keys db"
  unfolding row_keys_def proxies_update_rows set_map image_image by (rule image_cong) simp_all

lemma row_keys_revive [simp]: "row_keys (snd (revive_loop cs now acc db)) = row_keys db"
proof (induction cs now acc db rule: revive_loop.induct)
  case (2 chunk rest now acc db)
  have "row_keys (update_rows (revive_fps_guard db chunk) (revive_row now) db) = row_keys db"
    by (rule row_keys_update) (simp add: revive_row_def reset_set_def)
  with 2 show ?case by (simp add: update_returning_def)
qed simp

lemma row_keys_hand_over:
  assumes "sound_db db"
  shows "row_keys (hand_over en settings entries stats now db) = row_keys db"
proof -
  have q: "row_keys (snd (enqueue_checks ids lim now db')) = row_keys db'" if "sound_db db'" for ids lim db'
    using enqueue_checks_sound [of ids lim now db'] that
    by (cases "enqueue_checks ids lim now db'") (simp add: sound_db_def only_requests_def row_keys_def)
  show ?thesis using assms revive_loop_sound [OF assms]
    by (simp add: hand_over_def enqueue_probe_requests_def split_beta revive_removed_def q)
qed

text \<open>What a fetch carries into the tables: the entry has its row, linked to the source by this pass.\<close>

definition carried_in :: "(string \<Rightarrow> string) \<Rightarrow> string \<Rightarrow> int \<Rightarrow> Db \<Rightarrow> ProxyEntry \<Rightarrow> bool" where
  "carried_in sha256 source now db e \<longleftrightarrow>
     (\<exists>i. (i, fingerprint sha256 e) \<in> row_keys db \<and> \<lparr>l_proxy = i, l_source = source, l_seen_at = now\<rparr> \<in> set (links db))"

lemma reconcile_carries:
  assumes "wf_store st" "reconcile_store en source entries geo now linger st = Inr (stats, st')" "e \<in> set entries"
  shows "carried_in (en_sha256 en) source now (st_db st') e"
proof -
  obtain db where r: "reconcile_source (en_sha256 en) (en_to_text en) source entries geo now linger (st_db st) = Inr (stats, db)"
      and st': "st' = st\<lparr>st_db := db\<rparr>"
    using assms(2) by (auto simp: reconcile_store_def bind_res_Inr split: if_splits)
  have "wf_db (st_db st)" using assms(1) by (simp add: wf_store_def sound_db_def)
  from reconcile_entries_present [OF r this] assms(3) obtain q l where
    "q \<in> set (proxies db)" "r_fingerprint q = fingerprint (en_sha256 en) e" "l \<in> set (links db)" "l_proxy l = r_id q"
    "l_source l = source" "l_seen_at l = now" by blast
  moreover from this have "l = \<lparr>l_proxy = r_id q, l_source = source, l_seen_at = now\<rparr>" by simp
  moreover from calculation have "(r_id q, fingerprint (en_sha256 en) e) \<in> row_keys db"
    unfolding row_keys_def by (intro image_eqI [of _ _ q]) simp_all
  ultimately show ?thesis unfolding carried_in_def st' by auto
qed

text \<open>The source row after a success: its settings of the moment, stamped with the time the pass began.\<close>

definition stamped_source :: "int \<Rightarrow> Source \<Rightarrow> Source" where
  "stamped_source now q =
     q\<lparr>so_last_fetched_at := Some now, so_last_error := None, so_error_class := None, so_updated_at := now\<rparr>"

lemma store_entries_ok:
  assumes "wf_store st" "store_entries en tx settings source p now d n has_drop entries geo st = (IngestOk k stats t, st')"
  shows "list_all (carried_in (en_sha256 en) (so_id source) now (st_db st')) entries \<and>
     get_source st' (so_id source) = map_option (stamped_source now) (get_source st (so_id source))"
proof -
  obtain st1 where r: "reconcile_store en (so_id source) entries geo now (\<not> (is_drop_gate settings \<and> has_drop)) st = Inr (stats, st1)"
      and st': "st' = (journal_success source p n now d st1)\<lparr>st_db := hand_over en settings entries stats now (st_db st1)\<rparr>"
    using assms(2) by (auto simp: store_entries_def Let_def split: sum.splits)
  have sound: "sound_db (st_db st1)" using reconcile_store_wf [OF assms(1) r] by (simp add: wf_store_def)
  have "carried_in (en_sha256 en) (so_id source) now (st_db st') e" if "e \<in> set entries" for e
    using reconcile_carries [OF assms(1) r that] by (simp add: carried_in_def st' row_keys_hand_over [OF sound])
  then have "list_all (carried_in (en_sha256 en) (so_id source) now (st_db st')) entries" by (simp add: list_all_iff)
  moreover have "get_source st1 (so_id source) = get_source st (so_id source)"
    using r by (auto simp: reconcile_store_def bind_res_Inr split: if_splits)
  then have src: "get_source st' (so_id source) =
      map_option (\<lambda>q. if so_id q = so_id source then write_outcome (FetchSuccess now) q else q) (get_source st (so_id source))"
    by (simp add: st')
  have "get_source st' (so_id source) = map_option (stamped_source now) (get_source st (so_id source))"
  proof (cases "get_source st (so_id source)")
    case (Some q)
    then have "so_id q = so_id source" unfolding get_source_def by (blast dest: find_key_Some)
    then show ?thesis by (simp add: src Some stamped_source_def write_outcome_def)
  qed (simp add: src)
  ultimately show ?thesis by simp
qed

text \<open>
  C18: a pass that succeeds. Every entry that passed the allowlist and the drop rules has its row, linked to
  the source with the time of this pass; the source is stamped fresh and its error is cleared.
\<close>

theorem ingest_success:
  assumes "wf_store st" "fst (ingest_source en tx settings source force now (Inr p) d st s) = (IngestOk n stats (Some t), st')"
  shows "\<exists>filtered entries geo dropped.
     parse_payload en (tx_utf8 tx) source p = Inr filtered \<and>
     apply_drop_rules en source (fi_entries filtered) (fst (resolve_geo_stamps en (fi_entries filtered) s)) =
       Inr (entries, geo, dropped) \<and>
     list_all (carried_in (en_sha256 en) (so_id source) now (st_db st')) entries \<and>
     get_source st' (so_id source) = map_option (stamped_source now) (get_source st (so_id source))"
proof -
  have "fst (ingest_payload en tx settings source p now d st s) = (IngestOk n stats (Some t), st')"
    using assms(2) by (auto simp: ingest_source_def split: if_splits)
  then obtain filtered es geo k where f: "parse_payload en (tx_utf8 tx) source p = Inr filtered"
      and a: "apply_drop_rules en source (fi_entries filtered) (fst (resolve_geo_stamps en (fi_entries filtered) s)) = Inr (es, geo, k)"
      and st: "store_entries en tx settings source p now d (fi_recognized filtered) (fi_has_drop_rules filtered) es geo st = (IngestOk n stats (Some t), st')"
    by (auto simp: ingest_payload_def split_beta split: sum.splits)
  show ?thesis using store_entries_ok [OF assms(1) st] f a
    by (intro exI [of _ filtered] exI [of _ es] exI [of _ geo] exI [of _ k]) simp
qed

subsection \<open>A pass on concrete input\<close>

definition sample_engine :: "(unit, unit) engine" where
  "sample_engine = \<lparr>en_sha256 = \<lambda>s. s, en_to_text = sample_to_text, en_from_text = sample_from_text,
     en_codecs = sample_json_codecs, en_pretty = \<lambda>_. None, en_decode = \<lambda>_. Inl [], en_build = \<lambda>_ _. Inl [],
     en_is_match = \<lambda>_ _. False, en_replace_all = \<lambda>_ t _. t, en_to_lowercase = \<lambda>s. s,
     en_resolve = \<lambda>_ s. (None, s), en_geo_active = False\<rparr>"

definition sample_source :: Source where
  "sample_source = \<lparr>so_id = ''s'', so_slug = None, so_name = ''src'', so_url = ''https://a/'', so_enabled = True,
     so_encoding = PlainEncoding, so_input_format = Some SingBoxJson, so_protocols = None,
     so_cache_ttl_seconds = 600, so_tags = None, so_pipeline = None, so_headers = None, so_ip_family = None,
     so_created_at = 0, so_updated_at = 0, so_last_fetched_at = None, so_last_error = None, so_error_class = None\<rparr>"

definition sample_body :: FetchedPayload where
  "sample_body = \<lparr>fp_http_status = 200, fp_bytes = 2, fp_body = ''{}''\<rparr>"

definition sample_settings :: IngestSettings where
  "sample_settings = \<lparr>is_refresh_check_limit = 0, is_drop_gate = False, is_removed_as_unknown = False\<rparr>"

definition sample_store :: Store where
  "sample_store = empty_store\<lparr>st_sources := [sample_source]\<rparr>"

lemma sample_store_wf: "wf_store sample_store"
  by (simp add: sample_store_def empty_store_def wf_store_def keyed_def members_ok_def journal_ok_def refs_ok_def
      sound_db_def wf_db_def rows_ok_def List.map_filter_simps sample_source_def)

lemma sample_parsed:
  "\<exists>e. parse_payload sample_engine show_utf8 sample_source sample_body =
     Inr \<lparr>fi_entries = [e], fi_recognized = 1, fi_has_drop_rules = False\<rparr>"
proof -
  have "valid_utf8 ''{}''" by code_simp
  then show ?thesis using sample_subscription [of "''{}''"]
    by (simp add: parse_payload_def sample_engine_def sample_source_def sample_body_def allowed_entries_def
        source_drop_rules_def)
qed

lemma sample_pass:
  assumes "wf_store st" "get_source st ''s'' \<noteq> None"
  shows "\<exists>stats st'. fst (ingest_source sample_engine tx sample_settings sample_source False now (Inr sample_body) d st s) =
     (IngestOk 1 stats (Some d), st')"
proof -
  obtain e where e: "parse_payload sample_engine (tx_utf8 tx) sample_source sample_body =
     Inr \<lparr>fi_entries = [e], fi_recognized = 1, fi_has_drop_rules = False\<rparr>" using sample_parsed by blast
  have wf: "wf_db (st_db st)" using assms(1) by (simp add: wf_store_def sound_db_def)
  have len: "length [] \<le> length [e]" by simp
  from reconcile_steps [OF len wf] obtain stats db where
    r: "reconcile_source (\<lambda>s. s) sample_to_text ''s'' [e] [] now True (st_db st) = Inr (stats, db)"
    by (metis surj_pair)
  have fresh: "\<not> still_fresh sample_source now" by (simp add: still_fresh_def sample_source_def)
  have id: "so_id sample_source = ''s''" "so_pipeline sample_source = None" by (simp_all add: sample_source_def)
  have "reconcile_store sample_engine ''s'' [e] [] now True st = Inr (stats, st\<lparr>st_db := db\<rparr>)"
    using assms(2) by (auto simp: reconcile_store_def r sample_engine_def)
  then show ?thesis
    by (simp add: ingest_source_def fresh ingest_payload_def e id resolve_geo_stamps_def apply_drop_rules_def store_entries_def
        sample_settings_def Let_def) (simp add: sample_engine_def)
qed

definition no_texts :: texts where
  "no_texts = \<lparr>tx_utf8 = \<lambda>_. [], tx_parse = \<lambda>_. [], tx_error = \<lambda>_. []\<rparr>"

theorem ingest_success_witness:
  "\<exists>stats st'. fst (ingest_source sample_engine no_texts sample_settings sample_source False 100 (Inr sample_body) 7 sample_store ()) =
      (IngestOk 1 stats (Some 7), st') \<and>
     get_source st' ''s'' = Some (stamped_source 100 sample_source)"
proof -
  have src: "get_source sample_store ''s'' = Some sample_source" "so_id sample_source = ''s''"
    by (simp_all add: get_source_def find_key_def sample_store_def sample_source_def)
  then obtain stats st' where
    r: "fst (ingest_source sample_engine no_texts sample_settings sample_source False 100 (Inr sample_body) 7 sample_store ()) = (IngestOk 1 stats (Some 7), st')"
    using sample_pass [OF sample_store_wf, of no_texts 100 7 "()"] by auto
  from ingest_success [OF sample_store_wf r] src r show ?thesis by auto
qed

section \<open>An edit during a fetch\<close>

text \<open>
  C19: an edit that lands while a payload is on its way is overtaken by it. The update resets the freshness
  stamp, so that the next pass fetches under the new settings; the pass in flight, begun under the old
  ones, then stamps the edited row, and no unforced pass asks the new address before a whole TTL is over.
\<close>

theorem edit_during_fetch_lost:
  assumes "wf_store st" "get_source st (so_id new) = Some old" "update_source new st = Inr edited"
    and "fetch_stamp_stale old new" "0 < so_cache_ttl_seconds new"
    and "fst (ingest_source en tx settings old force now (Inr p) d edited s) = (IngestOk n stats (Some t), st')"
  shows "\<exists>row. get_source edited (so_id new) = Some (updated_source old new) \<and>
     \<not> still_fresh (updated_source old new) now \<and>
     get_source st' (so_id new) = Some row \<and> so_url row = so_url new \<and>
     (\<forall>later fetched d' s'. later < now + so_cache_ttl_seconds new \<longrightarrow>
        ingest_source en tx settings row False later fetched d' st' s' = ((IngestOk 0 no_stats None, st'), s'))"
proof -
  have id: "so_id old = so_id new" using find_key_Some assms(2) unfolding get_source_def by metis
  have wf: "wf_store edited" using update_source_wf [OF assms(1,3)] .
  have "updated_source old new \<in> set (st_sources edited)"
    using assms(2,3) find_key_Some [of so_id "so_id new" "st_sources st" old]
    by (auto simp: update_source_def get_source_def put_row_def split: if_splits intro!: image_eqI [of _ _ old])
  then have e: "get_source edited (so_id new) = Some (updated_source old new)"
    using wf by (simp add: get_source_iff)
  have "fst (ingest_payload en tx settings old p now d edited s) = (IngestOk n stats (Some t), st')"
    using assms(6) by (auto simp: ingest_source_def split: if_splits)
  then obtain filtered :: FilteredPayload and es geo where
    "store_entries en tx settings old p now d (fi_recognized filtered) (fi_has_drop_rules filtered) es geo edited = (IngestOk n stats (Some t), st')"
    by (auto simp: ingest_payload_def split_beta split: sum.splits)
  from store_entries_ok [OF wf this] have
    st': "get_source st' (so_id new) = Some (stamped_source now (updated_source old new))"
    by (simp add: id e)
  have "\<not> still_fresh (updated_source old new) now"
    using assms(4) by (simp add: still_fresh_def updated_source_def)
  then show ?thesis using e st'
    by (simp add: ingest_source_def still_fresh_def stamped_source_def updated_source_def)
qed

theorem edit_during_fetch_lost_witness:
  "\<exists>st' row. get_source st' ''s'' = Some row \<and> so_url row = ''https://b/'' \<and>
     ingest_source sample_engine no_texts sample_settings row False 699 (Inr sample_body) 1 st' () =
       ((IngestOk 0 no_stats None, st'), ())"
proof -
  let ?new = "sample_source\<lparr>so_url := ''https://b/''\<rparr>"
  have src: "get_source sample_store (so_id ?new) = Some sample_source"
    by (simp add: get_source_def find_key_def sample_store_def sample_source_def)
  have up: "update_source ?new sample_store = Inr (sample_store\<lparr>st_sources := put_row so_id (updated_source sample_source ?new) (st_sources sample_store)\<rparr>)"
    using src by (simp add: update_source_def slug_free_def) (simp add: sample_source_def)
  let ?edited = "sample_store\<lparr>st_sources := put_row so_id (updated_source sample_source ?new) (st_sources sample_store)\<rparr>"
  have stale: "fetch_stamp_stale sample_source ?new" by (simp add: fetch_stamp_stale_def sample_source_def)
  have ed: "get_source ?edited ''s'' \<noteq> None"
    by (simp add: get_source_def find_key_def sample_store_def put_row_def sample_source_def updated_source_def)
  obtain stats st' where
    r: "fst (ingest_source sample_engine no_texts sample_settings sample_source False 100 (Inr sample_body) 7 ?edited ()) = (IngestOk 1 stats (Some 7), st')"
    using sample_pass [OF update_source_wf [OF sample_store_wf up] ed, of no_texts 100 7 "()"] by auto
  have ttl: "so_cache_ttl_seconds ?new = 600" "so_id ?new = ''s''" "so_url ?new = ''https://b/''"
    by (simp_all add: sample_source_def)
  from edit_during_fetch_lost [OF sample_store_wf src up stale _ r] obtain row where
    row: "get_source st' ''s'' = Some row" "so_url row = ''https://b/''"
      "\<forall>later fetched d' s'. later < 700 \<longrightarrow>
        ingest_source sample_engine no_texts sample_settings row False later fetched d' st' s' = ((IngestOk 0 no_stats None, st'), s')"
    by (auto simp: ttl)
  then show ?thesis by (intro exI [of _ st'] exI [of _ row] conjI allI impI) simp_all
qed

end
