(* ===== verification/Schedule.thy ===== *)
theory Schedule
  imports Ingest_Properties
begin

text \<open>
  \<open>fumox-server/scheduler.rs\<close>: which sources a sweep picks, the backoff a failing source earns from the
  journal, the marks and permits that bound the fetches in flight, and the retention of the journals. A task
  is a list of steps (mark, permit, release), so that sweeps, refreshes and fetches interleave.
\<close>

section \<open>When a source is due\<close>

definition FAILURE_BACKOFF_BASE_SECS :: int where "FAILURE_BACKOFF_BASE_SECS = 60"
definition FAILURE_BACKOFF_MAX_SECS :: int where "FAILURE_BACKOFF_MAX_SECS = 3600"
definition FAILURE_HISTORY_ROWS :: nat where "FAILURE_HISTORY_ROWS = 8"

record FailureHistory =
  fh_last_attempt_at :: int
  fh_consecutive_failures :: nat

definition failure_backoff_secs :: "nat \<Rightarrow> int" where
  "failure_backoff_secs n = min (FAILURE_BACKOFF_BASE_SECS * 2 ^ min n 16) FAILURE_BACKOFF_MAX_SECS"

definition is_due :: "Source \<Rightarrow> int \<Rightarrow> FailureHistory option \<Rightarrow> bool" where
  "is_due source now history \<longleftrightarrow>
     (let ttl_due = (case so_last_fetched_at source of None \<Rightarrow> True | Some ts \<Rightarrow> now - ts \<ge> so_cache_ttl_seconds source) in
      if \<not> ttl_due then False
      else (case history of
              None \<Rightarrow> True
            | Some h \<Rightarrow>
                if fh_consecutive_failures h = 0 then True
                else if so_updated_at source > fh_last_attempt_at h then True
                else now - fh_last_attempt_at h \<ge> failure_backoff_secs (fh_consecutive_failures h)))"

definition failure_history :: "Store \<Rightarrow> string \<Rightarrow> FailureHistory option" where
  "failure_history st i =
     (let rows = recent_for_source st i FAILURE_HISTORY_ROWS in
      case rows of
        [] \<Rightarrow> None
      | newest # _ \<Rightarrow> Some \<lparr>fh_last_attempt_at = fe_fetched_at (fl_entry newest),
          fh_consecutive_failures = length (takeWhile (\<lambda>r. \<not> fe_ok (fl_entry r)) rows)\<rparr>)"

definition sweep_history :: "Store \<Rightarrow> Source \<Rightarrow> FailureHistory option" where
  "sweep_history st source = (if so_error_class source \<noteq> None then failure_history st (so_id source) else None)"

definition SERVER_CYCLE_KEY :: string where "SERVER_CYCLE_KEY = ''server_cycle''"

text \<open>
  One sweep: the stamp of the loop, and the sources to spawn. The clock is read at the start and again once
  the sources are listed.
\<close>

definition sweep_due :: "int \<Rightarrow> int \<Rightarrow> Store \<Rightarrow> Source list \<times> Store" where
  "sweep_due started_at now st =
     (let st1 = meta_set SERVER_CYCLE_KEY (dec_int started_at) st in
      (filter (\<lambda>s. is_due s now (sweep_history st1 s)) (list_sources True st1), st1))"

definition dispatch_refresh :: "Store \<Rightarrow> string \<Rightarrow> Source option" where
  "dispatch_refresh st i = get_source st i"

section \<open>Retention\<close>

record ServerRetention =
  sr_fetch_log_days :: nat
  sr_queue_stale_days :: nat
  sr_interval_secs :: nat

record LastRotation =
  lr_ts :: int
  lr_probe_results :: nat
  lr_fetch_log :: nat
  lr_probe_requests :: nat

definition LAST_ROTATION_KEY :: string where "LAST_ROTATION_KEY = ''last_rotation''"

definition retention_cutoff :: "int \<Rightarrow> nat \<Rightarrow> int" where
  "retention_cutoff now days = now - int (max days 1) * 86400"

definition retention_sweep :: "(LastRotation \<Rightarrow> string) \<Rightarrow> ServerRetention \<Rightarrow> int \<Rightarrow> Store \<Rightarrow> Store" where
  "retention_sweep stamp_text retention now st =
     (let (deleted_fetch_log, st1) = purge_log_before (retention_cutoff now (sr_fetch_log_days retention)) st;
          (settled, db1) = purge_settled_checks (st_db st1);
          (stale, db2) = purge_requests_before (retention_cutoff now (sr_queue_stale_days retention)) db1
      in meta_set LAST_ROTATION_KEY
           (stamp_text \<lparr>lr_ts = now, lr_probe_results = 0, lr_fetch_log = deleted_fetch_log,
              lr_probe_requests = settled + stale\<rparr>)
           (st1\<lparr>st_db := db2\<rparr>))"

text \<open>The flag of the command line that names the configuration file.\<close>

fun config_path_from_args :: "string list \<Rightarrow> string option" where
  "config_path_from_args [] = None"
| "config_path_from_args (arg # args) =
     (case strip_prefix ''--config='' arg of
        Some v \<Rightarrow> Some v
      | None \<Rightarrow>
          if arg = ''--config'' \<or> arg = ''-c'' then (case args of [] \<Rightarrow> None | v # _ \<Rightarrow> Some v)
          else config_path_from_args args)"

section \<open>Fetches in flight\<close>

text \<open>
  The marks, the tasks that wait for a permit, those that hold one, and those that have ended and whose mark
  is still to be cleared: the guard's destructor clears it on the spot, or hands it to a task when the lock
  of the set is contended.
\<close>

record Scheduler =
  sd_max :: nat
  sd_in_flight :: "string set"
  sd_queued :: "string list"
  sd_running :: "string list"
  sd_clearing :: "string list"

definition new_scheduler :: "nat \<Rightarrow> Scheduler" where
  "new_scheduler max_concurrency =
     \<lparr>sd_max = max max_concurrency 1, sd_in_flight = {}, sd_queued = [], sd_running = [], sd_clearing = []\<rparr>"

definition acquire_source :: "string \<Rightarrow> Scheduler \<Rightarrow> bool \<times> Scheduler" where
  "acquire_source i sd = (i \<notin> sd_in_flight sd, sd\<lparr>sd_in_flight := insert i (sd_in_flight sd)\<rparr>)"

definition drop_guard :: "bool \<Rightarrow> string \<Rightarrow> Scheduler \<Rightarrow> Scheduler" where
  "drop_guard contended i sd =
     (if contended then sd\<lparr>sd_clearing := i # sd_clearing sd\<rparr>
      else sd\<lparr>sd_in_flight := sd_in_flight sd - {i}\<rparr>)"

definition clear_mark :: "string \<Rightarrow> Scheduler \<Rightarrow> Scheduler option" where
  "clear_mark i sd =
     (if i \<in> set (sd_clearing sd)
      then Some (sd\<lparr>sd_clearing := remove1 i (sd_clearing sd), sd_in_flight := sd_in_flight sd - {i}\<rparr>) else None)"

text \<open>
  \<open>spawn_ingest\<close> up to the semaphore, the permit (tokio hands them out in the order of the requests), and
  the end of the pass, a panic included.
\<close>

definition spawn_ingest :: "string \<Rightarrow> Scheduler \<Rightarrow> Scheduler" where
  "spawn_ingest i sd =
     (let (mine, sd1) = acquire_source i sd in if mine then sd1\<lparr>sd_queued := sd_queued sd1 @ [i]\<rparr> else sd1)"

definition take_permit :: "Scheduler \<Rightarrow> Scheduler option" where
  "take_permit sd =
     (case sd_queued sd of
        [] \<Rightarrow> None
      | i # rest \<Rightarrow>
          if length (sd_running sd) < sd_max sd
          then Some (sd\<lparr>sd_queued := rest, sd_running := i # sd_running sd\<rparr>) else None)"

definition end_pass :: "bool \<Rightarrow> string \<Rightarrow> Scheduler \<Rightarrow> Scheduler option" where
  "end_pass contended i sd =
     (if i \<in> set (sd_running sd)
      then Some (drop_guard contended i (sd\<lparr>sd_running := remove1 i (sd_running sd)\<rparr>)) else None)"

inductive sched_step :: "Scheduler \<Rightarrow> Scheduler \<Rightarrow> bool" where
  spawn: "sched_step sd (spawn_ingest i sd)"
| permit: "take_permit sd = Some sd' \<Longrightarrow> sched_step sd sd'"
| finish: "end_pass contended i sd = Some sd' \<Longrightarrow> sched_step sd sd'"
| clear: "clear_mark i sd = Some sd' \<Longrightarrow> sched_step sd sd'"

section \<open>One pass per source\<close>

definition marks_ok :: "Scheduler \<Rightarrow> bool" where
  "marks_ok sd \<longleftrightarrow>
     distinct (sd_queued sd @ sd_running sd @ sd_clearing sd) \<and>
     set (sd_queued sd @ sd_running sd @ sd_clearing sd) = sd_in_flight sd \<and>
     length (sd_running sd) \<le> sd_max sd"

lemma spawn_marks: "marks_ok sd \<Longrightarrow> marks_ok (spawn_ingest i sd)"
  by (auto simp: marks_ok_def spawn_ingest_def acquire_source_def)

lemma permit_marks: "\<lbrakk>marks_ok sd; take_permit sd = Some sd'\<rbrakk> \<Longrightarrow> marks_ok sd'"
  by (auto simp: marks_ok_def take_permit_def split: list.splits if_splits)

lemma finish_marks: "\<lbrakk>marks_ok sd; end_pass contended i sd = Some sd'\<rbrakk> \<Longrightarrow> marks_ok sd'"
  by (auto simp: marks_ok_def end_pass_def drop_guard_def length_remove1 dest: notin_set_remove1 split: if_splits)

lemma clear_marks: "\<lbrakk>marks_ok sd; clear_mark i sd = Some sd'\<rbrakk> \<Longrightarrow> marks_ok sd'"
  by (auto simp: marks_ok_def clear_mark_def split: if_splits)

lemma step_marks: "\<lbrakk>sched_step sd sd'; marks_ok sd\<rbrakk> \<Longrightarrow> marks_ok sd' \<and> sd_max sd' = sd_max sd"
proof (induction rule: sched_step.induct)
  case (spawn sd i)
  then show ?case using spawn_marks by (auto simp: spawn_ingest_def acquire_source_def)
next
  case (permit sd sd')
  then show ?case using permit_marks by (auto simp: take_permit_def split: list.splits if_splits)
next
  case (finish contended i sd sd')
  then show ?case using finish_marks by (auto simp: end_pass_def drop_guard_def split: if_splits)
next
  case (clear i sd sd')
  then show ?case using clear_marks by (auto simp: clear_mark_def split: if_splits)
qed

lemma steps_marks: "\<lbrakk>sched_step\<^sup>*\<^sup>* sd sd'; marks_ok sd\<rbrakk> \<Longrightarrow> marks_ok sd' \<and> sd_max sd' = sd_max sd"
  by (induction rule: rtranclp_induct) (auto dest: step_marks)

text \<open>
  C21: under every interleaving of sweeps, refreshes, permits, ends, panics and late clearings a source is in
  at most one pass, the marks are exactly the passes that wait, run or are being cleared, and at most
  \<open>max_concurrency\<close> (at least one) passes run.
\<close>

theorem one_pass_per_source:
  assumes "sched_step\<^sup>*\<^sup>* (new_scheduler n) sd"
  shows "distinct (sd_queued sd @ sd_running sd @ sd_clearing sd) \<and>
    set (sd_queued sd @ sd_running sd @ sd_clearing sd) = sd_in_flight sd \<and>
    length (sd_running sd) \<le> max n 1"
proof -
  have "marks_ok (new_scheduler n)" by (simp add: marks_ok_def new_scheduler_def)
  from steps_marks [OF assms this] show ?thesis by (simp add: marks_ok_def new_scheduler_def)
qed

text \<open>A run: two sources are spawned, one of them twice, one gets the only permit and ends contended.\<close>

definition sample_queue :: Scheduler where
  "sample_queue = spawn_ingest ''a'' (spawn_ingest ''b'' (spawn_ingest ''a'' (new_scheduler 0)))"

definition sample_run :: Scheduler where
  "sample_run = the (end_pass True ''a'' (the (take_permit sample_queue)))"

lemma sample_run_reached: "sched_step\<^sup>*\<^sup>* (new_scheduler 0) sample_run"
proof -
  have q: "sched_step\<^sup>*\<^sup>* (new_scheduler 0) sample_queue"
    unfolding sample_queue_def by (meson rtranclp.rtrancl_refl rtranclp.rtrancl_into_rtrancl sched_step.spawn)
  have p: "sched_step sample_queue (the (take_permit sample_queue))"
    by (rule sched_step.permit) (simp add: sample_queue_def take_permit_def spawn_ingest_def acquire_source_def new_scheduler_def)
  have f: "sched_step (the (take_permit sample_queue)) sample_run"
    unfolding sample_run_def
    by (rule sched_step.finish [where contended = True and i = "''a''"])
      (simp add: sample_queue_def take_permit_def spawn_ingest_def acquire_source_def new_scheduler_def end_pass_def)
  from q p f show ?thesis by (meson rtranclp.rtrancl_into_rtrancl)
qed

lemma one_pass_per_source_witness:
  "sd_in_flight sample_run = {''a'', ''b''} \<and> sd_queued sample_run = [''b''] \<and>
   length (sd_running sample_run) \<le> 1 \<and> distinct (sd_queued sample_run @ sd_running sample_run @ sd_clearing sample_run)"
proof -
  have "sd_in_flight sample_run = {''a'', ''b''} \<and> sd_queued sample_run = [''b'']"
    by (auto simp: sample_run_def sample_queue_def take_permit_def spawn_ingest_def acquire_source_def new_scheduler_def
        end_pass_def drop_guard_def)
  then show ?thesis using one_pass_per_source [OF sample_run_reached] by simp
qed

section \<open>The backoff of a failing source\<close>

text \<open>The attempts of one source, newest first, and how many of them failed in a row.\<close>

definition attempts_of :: "Store \<Rightarrow> string \<Rightarrow> FetchLogRow list" where
  "attempts_of st i = journal_newest_first (filter (of_source i) (st_journal st))"

definition failures_in_a_row :: "FetchLogRow list \<Rightarrow> nat" where
  "failures_in_a_row rows = length (takeWhile (\<lambda>r. \<not> fe_ok (fl_entry r)) rows)"

lemma takeWhile_take_length: "length (takeWhile P (take n xs)) = min n (length (takeWhile P xs))"
proof (induction xs arbitrary: n)
  case (Cons x xs)
  then show ?case by (cases n) auto
qed simp

lemma capped_backoff: "failure_backoff_secs (min 8 k) = min 3600 (60 * 2 ^ k)"
proof (cases "k \<le> 8")
  case True
  then have "k \<in> {0, 1, 2, 3, 4, 5, 6, 7, 8}" by auto
  then show ?thesis
    by (auto simp: failure_backoff_secs_def FAILURE_BACKOFF_BASE_SECS_def FAILURE_BACKOFF_MAX_SECS_def)
next
  case False
  then have "(2 :: int) ^ 8 \<le> 2 ^ k" by (intro power_increasing) auto
  then show ?thesis using False
    by (simp add: failure_backoff_secs_def FAILURE_BACKOFF_BASE_SECS_def FAILURE_BACKOFF_MAX_SECS_def min_def)
qed

lemma history_of_attempts:
  assumes "attempts_of st i = newest # rest"
  shows "failure_history st i = Some \<lparr>fh_last_attempt_at = fe_fetched_at (fl_entry newest),
    fh_consecutive_failures = min 8 (failures_in_a_row (newest # rest))\<rparr>"
proof -
  have "recent_for_source st i FAILURE_HISTORY_ROWS = take 8 (newest # rest)"
    using assms by (simp add: recent_for_source_def attempts_of_def FAILURE_HISTORY_ROWS_def)
  moreover have "take 8 (newest # rest) = newest # take 7 rest" by (simp add: take_Cons')
  moreover note takeWhile_take_length [of "\<lambda>r. \<not> fe_ok (fl_entry r)" 8 "newest # rest"]
  ultimately show ?thesis unfolding failure_history_def failures_in_a_row_def Let_def by simp
qed

lemma due_after_failures:
  assumes "so_error_class source \<noteq> None" "attempts_of st (so_id source) = newest # rest" "\<not> fe_ok (fl_entry newest)"
    "so_updated_at source \<le> fe_fetched_at (fl_entry newest)"
    "case so_last_fetched_at source of None \<Rightarrow> True | Some ts \<Rightarrow> now - ts \<ge> so_cache_ttl_seconds source"
  shows "is_due source now (sweep_history st source) \<longleftrightarrow>
    now \<ge> fe_fetched_at (fl_entry newest) + min 3600 (60 * 2 ^ failures_in_a_row (newest # rest))"
proof -
  let ?k = "failures_in_a_row (newest # rest)"
  have "?k > 0" using assms(3) by (simp add: failures_in_a_row_def)
  then have pos: "min 8 ?k \<noteq> 0" by simp
  have hist: "sweep_history st source = Some \<lparr>fh_last_attempt_at = fe_fetched_at (fl_entry newest),
      fh_consecutive_failures = min 8 ?k\<rparr>"
    using assms(1) history_of_attempts [OF assms(2)] by (simp add: sweep_history_def)
  show ?thesis
    using assms(4,5) pos unfolding hist is_due_def Let_def option.case FailureHistory.simps capped_backoff by auto
qed

definition failed_entry :: "Source \<Rightarrow> int \<Rightarrow> int \<Rightarrow> Store \<Rightarrow> Store \<Rightarrow> bool" where
  "failed_entry source now d st st' \<longleftrightarrow>
     (\<exists>e m c. st' = journal e d (FetchFailure now m c) st \<and> fe_source_id e = so_id source \<and> fe_fetched_at e = now \<and> \<not> fe_ok e)"

lemma failed_entries:
  "failed_entry source now d st (journal_failure source f m now d st)"
  "failed_entry source now d st (journal_parse_failure source p t now d st)"
  unfolding failed_entry_def journal_failure_def journal_parse_failure_def Let_def
  by (intro exI conjI, rule refl, simp_all)+

lemma store_entries_entry:
  "(\<exists>k stats t. fst (store_entries en tx settings source p now d n has_drop entries geo st) = IngestOk k stats t) \<or>
   failed_entry source now d st (snd (store_entries en tx settings source p now d n has_drop entries geo st))"
  by (auto simp: store_entries_def Let_def failed_entries split: sum.split)

lemma failed_pass_entry:
  "(\<exists>k stats t. fst (fst (ingest_source en tx settings source force now fetched d st s)) = IngestOk k stats t) \<or>
   failed_entry source now d st (snd (fst (ingest_source en tx settings source force now fetched d st s)))"
  using store_entries_entry [of en tx settings source]
  by (auto simp: ingest_source_def ingest_payload_def split_beta failed_entries split: sum.split)

lemma newest_appended:
  assumes "\<forall>r\<in>set rows. fe_fetched_at (fl_entry r) \<le> fe_fetched_at (fl_entry new)"
  shows "journal_newest_first (rows @ [new]) = new # journal_newest_first rows"
proof -
  have stable: "filter (\<lambda>r. k = fe_fetched_at (fl_entry r)) (sort_key (\<lambda>r. fe_fetched_at (fl_entry r)) rows) =
      filter (\<lambda>r. k = fe_fetched_at (fl_entry r)) rows" for k
    using sort_key_stable [of "\<lambda>r. fe_fetched_at (fl_entry r)" k rows] by (simp add: eq_commute)
  have "sort_key (\<lambda>r. fe_fetched_at (fl_entry r)) (rows @ [new]) = sort_key (\<lambda>r. fe_fetched_at (fl_entry r)) rows @ [new]"
    using assms by (intro properties_for_sort_key) (auto simp: sorted_append stable)
  then show ?thesis by (simp add: journal_newest_first_def)
qed

text \<open>
  C20: a failed pass, whatever failed in it, holds its source back for exactly
  min(3600, 60 * 2^(k+1)) seconds, where k is the number of failures in a row before it: the eight rows the
  sweep reads are enough, and no sweep before that moment, and every one from it on, finds the source due.
\<close>

theorem failed_pass_backs_off:
  assumes "get_source st (so_id source) = Some source"
    and "\<And>n stats t. fst (fst (ingest_source en tx settings source force now fetched d st s)) \<noteq> IngestOk n stats t"
    and "\<forall>r\<in>set (attempts_of st (so_id source)). fe_fetched_at (fl_entry r) \<le> now"
    and "so_updated_at source \<le> now"
    and "case so_last_fetched_at source of None \<Rightarrow> True | Some ts \<Rightarrow> later - ts \<ge> so_cache_ttl_seconds source"
    and "st' = snd (fst (ingest_source en tx settings source force now fetched d st s))"
  shows "\<exists>failed. get_source st' (so_id source) = Some failed \<and>
    (is_due failed later (sweep_history st' failed) \<longleftrightarrow>
       later \<ge> now + min 3600 (60 * 2 ^ (failures_in_a_row (attempts_of st (so_id source)) + 1)))"
proof -
  from failed_pass_entry [of en tx settings source force now fetched d st s] assms(2,6)
  have "failed_entry source now d st st'" by auto
  then obtain e m c where st': "st' = journal e d (FetchFailure now m c) st"
    and e: "fe_source_id e = so_id source" "fe_fetched_at e = now" "\<not> fe_ok e"
    unfolding failed_entry_def by blast
  let ?new = "\<lparr>fl_id = st_next_log st, fl_entry = e, fl_duration_ms = Some d\<rparr>"
  let ?failed = "write_outcome (FetchFailure now m c) source"
  have rows: "st_journal st' = st_journal st @ [?new]"
    using assms(1) e(1) by (simp add: st' journal_def record_fetch_outcome_def committed_def insert_timed_def)
  have "get_source (committed (insert_timed e (Some d) st) st) (so_id source) = Some source"
    using assms(1) e(1) by (simp add: committed_def insert_timed_def get_source_def)
  then have sources: "get_source st' (so_id source) = Some ?failed"
    using e(1) by (simp add: st' journal_def record_outcome_source)
  have old: "\<forall>r\<in>set (filter (of_source (so_id source)) (st_journal st)). fe_fetched_at (fl_entry r) \<le> fe_fetched_at (fl_entry ?new)"
    using assms(3) e(2) by (simp add: attempts_of_def journal_newest_first_def)
  have att: "attempts_of st' (so_id source) = ?new # attempts_of st (so_id source)"
    using newest_appended [OF old] e(1) by (simp add: attempts_of_def rows of_source_def)
  have k: "failures_in_a_row (?new # attempts_of st (so_id source)) = failures_in_a_row (attempts_of st (so_id source)) + 1"
    using e(3) by (simp add: failures_in_a_row_def)
  have kept: "so_error_class ?failed \<noteq> None" "so_id ?failed = so_id source" "so_updated_at ?failed = so_updated_at source"
    "so_last_fetched_at ?failed = so_last_fetched_at source" "so_cache_ttl_seconds ?failed = so_cache_ttl_seconds source"
    by (simp_all add: write_outcome_def)
  have ttl: "case so_last_fetched_at ?failed of None \<Rightarrow> True | Some ts \<Rightarrow> later - ts \<ge> so_cache_ttl_seconds ?failed"
    using assms(5) unfolding kept .
  have newest: "\<not> fe_ok (fl_entry ?new)" "so_updated_at ?failed \<le> fe_fetched_at (fl_entry ?new)"
    using e assms(4) kept by simp_all
  have "is_due ?failed later (sweep_history st' ?failed) \<longleftrightarrow>
      later \<ge> now + min 3600 (60 * 2 ^ (failures_in_a_row (attempts_of st (so_id source)) + 1))"
    using due_after_failures [OF kept(1) att [folded kept(2)] newest ttl] e(2) k kept(2) by simp
  then show ?thesis using sources by blast
qed

lemma failed_pass_backs_off_witness:
  "\<exists>failed st'. st' = snd (fst (ingest_source sample_engine no_texts sample_settings sample_source False 100
       (Inl (HttpClientFailure 404)) 7 sample_store ())) \<and>
     get_source st' ''s'' = Some failed \<and>
     \<not> is_due failed 219 (sweep_history st' failed) \<and> is_due failed 220 (sweep_history st' failed)"
proof -
  let ?pass = "ingest_source sample_engine no_texts sample_settings sample_source False 100 (Inl (HttpClientFailure 404)) 7 sample_store ()"
  have src: "get_source sample_store (so_id sample_source) = Some sample_source"
    by (simp add: get_source_def find_key_def sample_store_def sample_source_def)
  have none: "attempts_of sample_store (so_id sample_source) = []"
    by (simp add: attempts_of_def sample_store_def empty_store_def journal_newest_first_def)
  have fresh: "fst (fst ?pass) \<noteq> IngestOk n stats t" for n stats t
    by (simp add: ingest_source_def still_fresh_def sample_source_def)
  note pass = failed_pass_backs_off [OF src, of sample_engine no_texts sample_settings False 100 "Inl (HttpClientFailure 404)" 7 "()",
      unfolded none, simplified failures_in_a_row_def, OF fresh _ _ _ refl]
  have up: "so_updated_at sample_source \<le> 100" "so_last_fetched_at sample_source = None" "so_id sample_source = ''s''"
    by (simp_all add: sample_source_def)
  show ?thesis using pass [of 219] pass [of 220] up by auto
qed

end
