(* ===== verification/Render.thy ===== *)
theory Render
  imports Ingest Caches Host_Gate Security Lines_Properties
begin

text \<open>
  The public listener of \<open>fumox-server/serve.rs\<close>: who is answered (\<open>serve_sub\<close>, \<open>serve_src\<close>), and what is
  rendered (\<open>render_sub\<close>, \<open>render_src\<close>). The tables are those of \<open>Catalog\<close>; the cache around the rendering
  is \<open>Caches\<close>. The text of a time, which the \<open>time\<close> crate prints, and the version of the package are
  parameters. A failing database is not modelled.
\<close>

section \<open>Replies\<close>

record Response =
  rs_status :: nat
  rs_headers :: "(string \<times> string) list"
  rs_body :: string
  rs_auth_failure :: "string option"

definition CONTENT_TYPE :: string where "CONTENT_TYPE = ''content-type''"

definition error_response :: "nat \<Rightarrow> string \<Rightarrow> Response" where
  "error_response status message =
     \<lparr>rs_status = status, rs_headers = [(CONTENT_TYPE, ''text/plain; charset=utf-8'')], rs_body = message @ [LF],
      rs_auth_failure = None\<rparr>"

text \<open>\<open>StatusCode::from_u16\<close>, and the bytes \<open>HeaderName\<close> and \<open>HeaderValue\<close> take.\<close>

definition status_code :: "nat \<Rightarrow> nat option" where
  "status_code n = (if 100 \<le> n \<and> n \<le> 999 then Some n else None)"

definition token_byte :: "char \<Rightarrow> bool" where
  "token_byte c \<longleftrightarrow>
     (CHR ''0'' \<le> c \<and> c \<le> CHR ''9'') \<or> (CHR ''A'' \<le> c \<and> c \<le> CHR ''Z'') \<or> (CHR ''a'' \<le> c \<and> c \<le> CHR ''z'') \<or>
     c \<in> set [CHR ''!'', CHR ''#'', CHR ''$'', CHR ''%'', CHR ''&'', CHR 0x27, CHR ''*'', CHR ''+'', CHR ''-'', CHR ''.'',
       CHR ''^'', CHR ''_'', CHR 0x60, CHR ''|'', CHR ''~'']"

definition header_name :: "string \<Rightarrow> string option" where
  "header_name s = (if s \<noteq> [] \<and> list_all token_byte s then Some (to_ascii_lowercase s) else None)"

definition value_byte :: "char \<Rightarrow> bool" where
  "value_byte c \<longleftrightarrow> (CHR '' '' \<le> c \<and> c \<noteq> CHR 0x7F) \<or> c = CHR 0x09"

definition header_value :: "string \<Rightarrow> string option" where
  "header_value s = (if list_all value_byte s then Some s else None)"

definition put_header :: "(string \<times> string) list \<Rightarrow> string \<times> string \<Rightarrow> (string \<times> string) list" where
  "put_header hs h =
     (case (header_name (fst h), header_value (snd h)) of (Some n, Some v) \<Rightarrow> obj_insert n v hs | _ \<Rightarrow> hs)"

definition to_response :: "Rendered \<Rightarrow> Response" where
  "to_response r =
     (let base = (case header_value (rd_content_type r) of Some v \<Rightarrow> [(CONTENT_TYPE, v)] | None \<Rightarrow> []) in
      \<lparr>rs_status = (case status_code (rd_status r) of Some n \<Rightarrow> n | None \<Rightarrow> 500),
       rs_headers = foldl put_header base (rd_extra_headers r), rs_body = rd_body r, rs_auth_failure = None\<rparr>)"

section \<open>Errors of a rendering\<close>

record ErrorReply =
  er_status :: nat
  er_message :: string
  er_drop_cached :: bool

definition corrupted_pipeline :: ErrorReply where
  "corrupted_pipeline = \<lparr>er_status = 500, er_message = ''internal server error'', er_drop_cached = False\<rparr>"

definition upstream_unavailable :: "nat \<Rightarrow> string \<Rightarrow> ErrorReply" where
  "upstream_unavailable status message = \<lparr>er_status = status, er_message = message, er_drop_cached = True\<rparr>"

definition last_http_status :: "Store \<Rightarrow> string \<Rightarrow> nat option" where
  "last_http_status st i =
     (case recent_for_source st i 1 of
        [] \<Rightarrow> None
      | r # _ \<Rightarrow>
          (case fe_http_status (fl_entry r) of
             Some s \<Rightarrow> if 0 \<le> s \<and> s \<le> 65535 then Some (nat s) else None
           | None \<Rightarrow> None))"

text \<open>The answer for a source that failed with a client error.\<close>

definition upstream_reply :: "Store \<Rightarrow> Source \<Rightarrow> ErrorReply" where
  "upstream_reply st source =
     (let upstream = (case last_http_status st (so_id source) of Some n \<Rightarrow> n | None \<Rightarrow> 502) in
      upstream_unavailable (case status_code upstream of Some n \<Rightarrow> n | None \<Rightarrow> 502)
        (''source '' @ [DQUOTE] @ so_name source @ [DQUOTE] @ '' unavailable: '' @
         (case so_last_error source of Some e \<Rightarrow> e | None \<Rightarrow> ''HTTP client error'')))"

section \<open>The texts\<close>

record clock_text =
  ct_rfc3339 :: "int \<Rightarrow> string"
  ct_version :: string

definition uri_lines :: "codecs \<Rightarrow> Candidate list \<Rightarrow> string" where
  "uri_lines co cs = join [LF] (map (\<lambda>c. serialize co (c_entry c)) cs)"

definition no_breaks :: "string \<Rightarrow> string" where
  "no_breaks s = map (\<lambda>c. if c = LF \<or> c = CR then CHR '' '' else c) s"

definition url_list_header_block :: "clock_text \<Rightarrow> int \<Rightarrow> string \<Rightarrow> int \<Rightarrow> nat \<Rightarrow> string" where
  "url_list_header_block ct now title interval_hours n =
     ''# profile-title: '' @ no_breaks title @ [LF] @
     ''# profile-update-interval: '' @ dec_int interval_hours @ [LF] @
     ''# nodes count: '' @ dec_nat n @ [LF] @
     ''# generated by: fumox '' @ ct_version ct @ '' at '' @ ct_rfc3339 ct now @ [LF]"

definition encode_body :: "('r, 's) engine \<Rightarrow> Candidate list \<Rightarrow> OutputFormat \<Rightarrow> string \<Rightarrow> string \<times> string" where
  "encode_body en cs format block =
     (let co = en_codecs en; entries = map c_entry cs in
      case format of
        UriListOutput \<Rightarrow> (if block = [] then uri_lines co cs else block @ uri_lines co cs, ''text/plain; charset=utf-8'')
      | Base64Output \<Rightarrow> (b64_encode co (uri_lines co cs), ''text/plain; charset=utf-8'')
      | ClashOutput \<Rightarrow> (encode_clash (yaml_parse co) (yaml_print co) entries, ''text/yaml; charset=utf-8'')
      | SingBoxOutput \<Rightarrow>
          (encode_singbox (en_pretty en) (yaml_parse co) (yaml_print co) entries, ''application/json; charset=utf-8''))"

section \<open>Rows and members\<close>

definition candidate_of :: "int \<Rightarrow> ProxyRow \<Rightarrow> ProxyEntry \<Rightarrow> Candidate" where
  "candidate_of position r e =
     \<lparr>c_entry = e, c_source_position = position, c_status = r_status r, c_latency_ms = r_latency_ms r,
      c_geo_country = r_geo_country r, c_geo_asn = r_geo_asn r\<rparr>"

definition rows_to_candidates :: "('r, 's) engine \<Rightarrow> ProxyRow list \<Rightarrow> int \<Rightarrow> Candidate list" where
  "rows_to_candidates en rows position =
     List.map_filter (\<lambda>r. case to_entry (en_from_text en) r of
         Inl _ \<Rightarrow> None | Inr e \<Rightarrow> Some (candidate_of position r e)) rows"

text \<open>\<open>list_with_source\<close>: one row per link, by proxy id.\<close>

definition list_with_source :: "Db \<Rightarrow> string list \<Rightarrow> (string \<times> ProxyRow) list" where
  "list_with_source db ids =
     sort_key (\<lambda>(_, r). r_id r) (concat (map (\<lambda>l. map (Pair (l_source l)) (filter (\<lambda>r. r_id r = l_proxy l) (proxies db)))
       (filter (\<lambda>l. l_source l \<in> set ids) (links db))))"

definition by_source :: "string \<Rightarrow> (string \<times> ProxyRow) list \<Rightarrow> ProxyRow list" where
  "by_source i rows = map snd (filter (\<lambda>(j, _). j = i) rows)"

definition allowed_countries :: "Profile \<Rightarrow> string set option" where
  "allowed_countries p =
     (if pf_countries p = [] then None
      else Some (set (filter (\<lambda>c. c \<noteq> []) (map (\<lambda>c. to_ascii_uppercase (trim c)) (pf_countries p)))))"

definition in_countries :: "string set option \<Rightarrow> Candidate \<Rightarrow> bool" where
  "in_countries allowed c \<longleftrightarrow>
     (case allowed of
        None \<Rightarrow> True
      | Some codes \<Rightarrow> (case c_geo_country c of Some cc \<Rightarrow> to_ascii_uppercase cc \<in> codes | None \<Rightarrow> False))"

fun load_members ::
  "('r, 's) engine \<Rightarrow> Profile \<Rightarrow> (string \<rightharpoonup> Source) \<Rightarrow> (string \<times> int) list \<Rightarrow>
   ErrorReply + (Source \<times> 'r CompiledPipeline) list"
where
  "load_members en p loaded [] = Inr []"
| "load_members en p loaded ((i, _) # rest) =
     (case loaded i of
        None \<Rightarrow> load_members en p loaded rest
      | Some source \<Rightarrow>
          if \<not> so_enabled source then load_members en p loaded rest
          else (case compile en (merge_configs (so_pipeline source) (pf_pipeline p)) of
                  Inl _ \<Rightarrow> Inl corrupted_pipeline
                | Inr compiled \<Rightarrow>
                    bind_res (load_members en p loaded rest) (\<lambda>ms. Inr ((source, compiled) # ms))))"

text \<open>The loop over the members: their candidates, the statuses they loaded, and what the headers tell.\<close>

record Merged =
  mg_all :: "Candidate list"
  mg_statuses :: "ProxyStatus list"
  mg_stale :: bool
  mg_parse_error :: bool

fun merge_members ::
  "('r, 's) engine \<Rightarrow> string set option \<Rightarrow> int \<Rightarrow> (Source \<times> 'r CompiledPipeline) list \<Rightarrow>
   (string \<times> ProxyRow) list \<Rightarrow> 's \<Rightarrow> Merged \<times> 's"
where
  "merge_members en allowed position [] rows s =
     (\<lparr>mg_all = [], mg_statuses = [], mg_stale = False, mg_parse_error = False\<rparr>, s)"
| "merge_members en allowed position ((source, compiled) # members) rows s =
     (let cs = filter (in_countries allowed) (rows_to_candidates en (by_source (so_id source) rows) position);
          (out, s1) = apply_engine en compiled cs s;
          (more, s2) = merge_members en allowed (position + 1) members
            (filter (\<lambda>(j, _). j \<noteq> so_id source) rows) s1
      in (\<lparr>mg_all = out @ mg_all more, mg_statuses = map c_status cs @ mg_statuses more,
           mg_stale = (so_error_class source \<in> {Some Network, Some HttpServer} \<or> mg_stale more),
           mg_parse_error = (so_error_class source = Some ParseError \<or> mg_parse_error more)\<rparr>, s2))"

definition all_quarantined :: "Merged \<Rightarrow> bool" where
  "all_quarantined mg \<longleftrightarrow>
     mg_statuses mg \<noteq> [] \<and> mg_all mg = [] \<and> list_all (\<lambda>s. s = Quarantine \<or> s = Removed) (mg_statuses mg)"

section \<open>The global sort, and the intervals\<close>

definition source_sort :: "(Source \<times> 'r CompiledPipeline) list \<Rightarrow> 'r CompiledPipeline \<Rightarrow> json option" where
  "source_sort members profile_pipeline =
     (case find (\<lambda>(_, compiled). cp_sort_explicit compiled) members of
        None \<Rightarrow> None
      | Some (source, _) \<Rightarrow>
          if cp_sort_explicit profile_pipeline then None
          else Option.bind (Option.bind (so_pipeline source) as_object) (\<lambda>m. map_of m ''sort''))"

definition finalize_config :: "json option \<Rightarrow> json option \<Rightarrow> json option" where
  "finalize_config profile_pipeline sort_value =
     (let config = (case profile_pipeline of
          None \<Rightarrow> JObject [(''version'', JInt 1)]
        | Some JNull \<Rightarrow> JObject [(''version'', JInt 1)]
        | Some v \<Rightarrow> v)
      in Some (case (sort_value, config) of (Some v, JObject m) \<Rightarrow> JObject (obj_insert ''sort'' v m) | _ \<Rightarrow> config))"

definition min_member_ttl :: "(Source \<times> 'r CompiledPipeline) list \<Rightarrow> int" where
  "min_member_ttl members =
     max 1 (case map (\<lambda>(s, _). so_cache_ttl_seconds s) members of [] \<Rightarrow> 3600 | ttl # ttls \<Rightarrow> foldl min ttl ttls)"

definition whole_hours :: "int \<Rightarrow> int" where
  "whole_hours ttl_seconds = (max ttl_seconds 1 + 3599) div 3600"

definition update_interval_hours :: "(Source \<times> 'r CompiledPipeline) list \<Rightarrow> string" where
  "update_interval_hours members = dec_int (whole_hours (min_member_ttl members))"

definition RENDER_FRESHNESS_CAP_SECS :: int where "RENDER_FRESHNESS_CAP_SECS = 30"

section \<open>A profile\<close>

text \<open>
  What \<open>render_sub\<close> settles before it loads a row: the members with their pipelines, no member that failed
  with a client error, and the pipeline of the profile.
\<close>

definition failed_member :: "(Source \<times> 'r CompiledPipeline) list \<Rightarrow> Source option" where
  "failed_member members =
     (case find (\<lambda>(source, _). so_error_class source = Some HttpClient) members of
        Some (source, _) \<Rightarrow> Some source | None \<Rightarrow> None)"

definition sub_plan ::
  "('r, 's) engine \<Rightarrow> Store \<Rightarrow> Profile \<Rightarrow> ErrorReply + (Source \<times> 'r CompiledPipeline) list \<times> 'r CompiledPipeline" where
  "sub_plan en st p =
     (let member_links = get_sources st (pf_id p) in
      bind_res (load_members en p (get_many st (map fst member_links)) member_links) (\<lambda>members.
      case failed_member members of
        Some source \<Rightarrow> Inl (upstream_reply st source)
      | None \<Rightarrow>
          (case compile en (pf_pipeline p) of
             Inl _ \<Rightarrow> Inl corrupted_pipeline
           | Inr profile_pipeline \<Rightarrow> Inr (members, profile_pipeline))))"

definition sub_headers :: "Profile \<Rightarrow> (Source \<times> 'r CompiledPipeline) list \<Rightarrow> Merged \<Rightarrow> (string \<times> string) list" where
  "sub_headers p members mg =
     [(''profile-title'', pf_name p), (''profile-update-interval'', update_interval_hours members)] @
     (if mg_stale mg then [(''X-Fumox-Stale'', ''true'')] else []) @
     (if mg_parse_error mg then [(''X-Fumox-Warning'', ''parse-error'')]
      else if all_quarantined mg then [(''X-Fumox-Warning'', ''all-proxies-quarantined'')] else [])"

text \<open>The body, from the merged candidates; \<open>printed\<close> is the clock of the header block, \<open>now\<close> that of the cache.\<close>

definition sub_rendered ::
  "('r, 's) engine \<Rightarrow> clock_text \<Rightarrow> Profile \<Rightarrow> int \<Rightarrow> int \<Rightarrow> (Source \<times> 'r CompiledPipeline) list \<Rightarrow> Merged \<Rightarrow>
   Candidate list \<Rightarrow> Rendered" where
  "sub_rendered en ct p printed now members mg out =
     (let (body, content_type) = encode_body en out (pf_output_format p)
            (url_list_header_block ct printed (pf_name p) (whole_hours (min_member_ttl members)) (length out))
      in \<lparr>rd_status = 200, rd_body = body, rd_content_type = content_type,
          rd_extra_headers = sub_headers p members mg,
          rd_fresh_until = now + min (min_member_ttl members) RENDER_FRESHNESS_CAP_SECS,
          rd_source_ids = map (\<lambda>(source, _). so_id source) members\<rparr>)"

definition merged_rows ::
  "('r, 's) engine \<Rightarrow> Store \<Rightarrow> Profile \<Rightarrow> (Source \<times> 'r CompiledPipeline) list \<Rightarrow> 's \<Rightarrow> Merged \<times> 's" where
  "merged_rows en st p members s =
     merge_members en (allowed_countries p) 0 members
       (list_with_source (st_db st) (map (\<lambda>(source, _). so_id source) members)) s"

definition sub_output ::
  "('r, 's) engine \<Rightarrow> Profile \<Rightarrow> (Source \<times> 'r CompiledPipeline) list \<Rightarrow> 'r CompiledPipeline \<Rightarrow> Merged \<Rightarrow>
   ErrorReply + Candidate list" where
  "sub_output en p members profile_pipeline mg =
     (case compile en (finalize_config (pf_pipeline p) (source_sort members profile_pipeline)) of
        Inl _ \<Rightarrow> Inl corrupted_pipeline
      | Inr finalizer \<Rightarrow> Inr (finalize (en_sha256 en) (en_to_lowercase en) finalizer (mg_all mg)))"

definition render_sub ::
  "('r, 's) engine \<Rightarrow> clock_text \<Rightarrow> Store \<Rightarrow> Profile \<Rightarrow> int \<Rightarrow> int \<Rightarrow> 's \<Rightarrow> (ErrorReply + Rendered) \<times> 's" where
  "render_sub en ct st p printed now s =
     (case sub_plan en st p of
        Inl e \<Rightarrow> (Inl e, s)
      | Inr (members, profile_pipeline) \<Rightarrow>
          (let (mg, s1) = merged_rows en st p members s in
           (bind_res (sub_output en p members profile_pipeline mg)
              (\<lambda>out. Inr (sub_rendered en ct p printed now members mg out)), s1)))"

section \<open>A source\<close>

definition src_live :: "Candidate \<Rightarrow> bool" where
  "src_live c \<longleftrightarrow> c_status c = Alive \<or> c_status c = Ready"

definition src_headers :: "Source \<Rightarrow> (string \<times> string) list" where
  "src_headers source =
     (if so_error_class source \<in> {Some Network, Some HttpServer} then [(''X-Fumox-Stale'', ''true'')]
      else if so_error_class source = Some ParseError then [(''X-Fumox-Warning'', ''parse-error'')] else [])"

definition src_output ::
  "('r, 's) engine \<Rightarrow> Store \<Rightarrow> Source \<Rightarrow> 'r CompiledPipeline \<Rightarrow> 's \<Rightarrow> Candidate list \<times> 's" where
  "src_output en st source compiled s =
     apply_engine en compiled (filter src_live
       (rows_to_candidates en (map snd (list_with_source (st_db st) [so_id source])) 0)) s"

definition render_src ::
  "('r, 's) engine \<Rightarrow> clock_text \<Rightarrow> Store \<Rightarrow> Source \<Rightarrow> int \<Rightarrow> int \<Rightarrow> 's \<Rightarrow> (ErrorReply + Rendered) \<times> 's" where
  "render_src en ct st source printed now s =
     (if so_error_class source = Some HttpClient then (Inl (upstream_reply st source), s)
      else (case compile en (so_pipeline source) of
              Inl _ \<Rightarrow> (Inl corrupted_pipeline, s)
            | Inr compiled \<Rightarrow>
                (let (out, s1) = src_output en st source compiled s;
                     (body, content_type) = encode_body en out UriListOutput
                       (url_list_header_block ct printed (so_name source) (whole_hours (so_cache_ttl_seconds source))
                         (length out))
                 in (Inr \<lparr>rd_status = 200, rd_body = body, rd_content_type = content_type,
                       rd_extra_headers = src_headers source,
                       rd_fresh_until = now + min (max (so_cache_ttl_seconds source) 1) RENDER_FRESHNESS_CAP_SECS,
                       rd_source_ids = [so_id source]\<rparr>, s1))))"

section \<open>Requests\<close>

text \<open>What the handlers decide before the cache: a reply, or the key and what to render under it.\<close>

datatype 'a gate = Refuse Response | Serve string 'a

definition AUTHORIZATION :: string where "AUTHORIZATION = ''authorization''"

definition bearer_token :: "header_map \<Rightarrow> string option" where
  "bearer_token headers =
     Option.bind (Option.bind (header_get headers AUTHORIZATION) to_str) (strip_prefix ''Bearer '')"

definition token_ok :: "(string \<rightharpoonup> string) \<Rightarrow> header_map \<Rightarrow> string \<Rightarrow> bool" where
  "token_ok query headers required =
     (case (case query ''token'' of Some t \<Rightarrow> Some t | None \<Rightarrow> bearer_token headers) of
        Some provided \<Rightarrow> ct_eq provided required | None \<Rightarrow> False)"

definition serve_sub :: "Store \<Rightarrow> string \<Rightarrow> (string \<rightharpoonup> string) \<Rightarrow> header_map \<Rightarrow> Profile gate" where
  "serve_sub st i query headers =
     (if query ''format'' \<noteq> None
      then Refuse (error_response 400
        ''the ?format= parameter is not supported: the output format is fixed by the profile'')
      else (case resolve_profile st i of
              None \<Rightarrow> Refuse (error_response 404 ''profile not found'')
            | Some p \<Rightarrow>
                if \<not> pf_enabled p then Refuse (error_response 404 ''profile not found'')
                else (case pf_access_token p of
                        None \<Rightarrow> Serve (profile_key (pf_id p)) p
                      | Some required \<Rightarrow>
                          if token_ok query headers required then Serve (profile_key (pf_id p)) p
                          else Refuse ((error_response 403 ''access token is missing or invalid'')
                            \<lparr>rs_auth_failure := Some ''profile access token''\<rparr>))))"

definition member_source_ids :: "Store \<Rightarrow> string \<Rightarrow> string list" where
  "member_source_ids st i = map fst (get_sources st i)"

definition serve_src :: "Store \<Rightarrow> string \<Rightarrow> (string \<rightharpoonup> string) \<Rightarrow> Source gate" where
  "serve_src st i query =
     (if query ''format'' \<noteq> None then Refuse (error_response 400 ''the ?format= parameter is not supported'')
      else (case resolve_source st i of
              None \<Rightarrow> Refuse (error_response 404 ''source not found'')
            | Some source \<Rightarrow>
                if \<not> so_enabled source then Refuse (error_response 404 ''source not found'')
                else Serve (''src:'' @ so_id source) source))"

end
