(* ===== verification/Render_Properties.thy ===== *)
theory Render_Properties
  imports Render Ingest_Properties
begin

text \<open>
  What the public listener serves: only rows of enabled members in the allowed countries, each node once,
  fresh for at most half a minute; one line per node; a token that is exact; a client error of a member
  that answers for the whole profile. And a profile whose empty pipeline makes it answer 500.
\<close>

section \<open>Where a served candidate comes from\<close>

text \<open>
  Two candidates of one row. A step of the pipeline relates its output to its input by a relation \<open>R\<close>: the
  filters and the filling of the ASN keep the entry, the rename rules rewrite it, the naming step gives it
  another name.
\<close>

definition same_row :: "Candidate \<Rightarrow> Candidate \<Rightarrow> bool" where
  "same_row c d \<longleftrightarrow> c_status c = c_status d \<and> c_source_position c = c_source_position d \<and> c_latency_ms c = c_latency_ms d"

definition drawn_from :: "(Candidate \<Rightarrow> Candidate \<Rightarrow> bool) \<Rightarrow> Candidate list \<Rightarrow> Candidate list \<Rightarrow> bool" where
  "drawn_from R out cs \<longleftrightarrow> (\<forall>c\<in>set out. \<exists>d\<in>set cs. R c d)"

definition kept :: "Candidate \<Rightarrow> Candidate \<Rightarrow> bool" where
  "kept c d \<longleftrightarrow> same_row c d \<and> c_entry c = c_entry d"

definition renamed_entry :: "('r \<Rightarrow> string \<Rightarrow> string \<Rightarrow> string) \<Rightarrow> 'r CompiledPipeline \<Rightarrow> ProxyEntry \<Rightarrow> ProxyEntry" where
  "renamed_entry ra p e = foldl (apply_rename_rule ra) e (cp_rename p)"

definition rewritten :: "('r \<Rightarrow> string \<Rightarrow> string \<Rightarrow> string) \<Rightarrow> 'r CompiledPipeline \<Rightarrow> Candidate \<Rightarrow> Candidate \<Rightarrow> bool" where
  "rewritten ra p c d \<longleftrightarrow> same_row c d \<and> c_entry c = renamed_entry ra p (c_entry d)"

text \<open>The name a node may get from the geo facts of its own host.\<close>

definition geo_named :: "string \<Rightarrow> (string \<Rightarrow> 's \<Rightarrow> GeoInfo option \<times> 's) \<Rightarrow> ProxyEntry \<Rightarrow> ProxyEntry \<Rightarrow> bool" where
  "geo_named template resolve e n \<longleftrightarrow>
     (\<exists>s info. fst (resolve (pe_host e) s) = Some info \<and> n = e\<lparr>pe_name := apply_template template info (pe_name e)\<rparr>)"

lemma drawn_refl [simp]: "drawn_from kept cs cs"
  by (auto simp: drawn_from_def kept_def same_row_def)

lemma drawn_filter: "drawn_from R out cs \<Longrightarrow> drawn_from R (filter P out) cs"
  by (auto simp: drawn_from_def)

lemma drawn_map: "\<lbrakk>drawn_from R out cs; \<And>c d. R c d \<Longrightarrow> Q (f c) d\<rbrakk> \<Longrightarrow> drawn_from Q (map f out) cs"
  by (auto simp: drawn_from_def) blast

lemma drawn_thread:
  assumes "\<And>c d s. R c d \<Longrightarrow> Q (fst (f c s)) d"
  shows "drawn_from R out cs \<Longrightarrow> drawn_from Q (fst (thread f out s)) cs"
proof (induction out arbitrary: s)
  case (Cons c out)
  from Cons.prems obtain d where "d \<in> set cs" "R c d" by (auto simp: drawn_from_def)
  then have "\<exists>d\<in>set cs. Q (fst (f c s)) d" using assms by blast
  moreover have "drawn_from Q (fst (thread f out (snd (f c s)))) cs" using Cons by (simp add: drawn_from_def)
  ultimately show ?case by (simp add: split_beta Let_def drawn_from_def)
qed (simp add: drawn_from_def)

lemma drawn_weaken: "\<lbrakk>drawn_from R out cs; \<And>c d. R c d \<Longrightarrow> Q c d\<rbrakk> \<Longrightarrow> drawn_from Q out cs"
  by (auto simp: drawn_from_def) blast

lemma fill_kept: "kept c d \<Longrightarrow> kept (fst (fill_asn resolve c s)) d"
  by (simp add: fill_asn_def kept_def same_row_def split_beta Let_def split: option.split)

lemma drawn_optional: "drawn_from R out cs \<Longrightarrow> drawn_from R (case x of None \<Rightarrow> out | Some a \<Rightarrow> filter (P a) out) cs"
  by (cases x) (simp_all add: drawn_filter)

lemma drawn_if: "drawn_from R out cs \<Longrightarrow> drawn_from R (if b then filter P out else out) cs"
  by (simp add: drawn_filter)

lemma renamed_drawn:
  "drawn_from kept out cs \<Longrightarrow>
     drawn_from (rewritten ra p) (map (\<lambda>c. c\<lparr>c_entry := foldl (apply_rename_rule ra) (c_entry c) (cp_rename p)\<rparr>) out) cs"
  by (erule drawn_map) (simp add: kept_def rewritten_def renamed_entry_def same_row_def)

text \<open>The node \<open>n\<close> that the steps of a source make of the entry \<open>e\<close> of a row.\<close>

definition node_of ::
  "('r \<Rightarrow> string \<Rightarrow> string \<Rightarrow> string) \<Rightarrow> 'r CompiledPipeline \<Rightarrow> (string \<Rightarrow> 's \<Rightarrow> GeoInfo option \<times> 's) \<Rightarrow> bool \<Rightarrow>
   ProxyEntry \<Rightarrow> ProxyEntry \<Rightarrow> bool" where
  "node_of ra p resolve active e n \<longleftrightarrow>
     n = renamed_entry ra p e \<or> cp_geo_enabled p \<and> active \<and> geo_named (cp_geo_template p) resolve (renamed_entry ra p e) n"

definition served_as where
  "served_as ra p resolve active c d \<longleftrightarrow> same_row c d \<and> node_of ra p resolve active (c_entry d) (c_entry c)"

lemma enrich_named:
  assumes "rewritten ra p c d"
  shows "same_row (fst (geo_enrich t resolve c s)) d \<and>
    (c_entry (fst (geo_enrich t resolve c s)) = renamed_entry ra p (c_entry d) \<or>
     geo_named t resolve (renamed_entry ra p (c_entry d)) (c_entry (fst (geo_enrich t resolve c s))))"
proof (cases "resolve (pe_host (c_entry c)) s")
  case (Pair info s')
  with assms show ?thesis
    by (cases info) (auto simp: geo_enrich_def rewritten_def same_row_def geo_named_def intro!: exI [of _ s])
qed

lemma enrich_served:
  assumes "cp_geo_enabled p" "active" "rewritten ra p c d"
  shows "served_as ra p resolve active (fst (geo_enrich (cp_geo_template p) resolve c s)) d"
  using enrich_named [OF assms(3), of "cp_geo_template p" resolve s] assms(1,2) by (auto simp: served_as_def node_of_def)

lemma enriched_drawn:
  assumes "drawn_from (rewritten ra p) out cs"
  shows "drawn_from (served_as ra p resolve active)
    (fst (if cp_geo_enabled p \<and> active then thread (geo_enrich (cp_geo_template p) resolve) out s else (out, s))) cs"
proof (cases "cp_geo_enabled p \<and> active")
  case True
  have "drawn_from (served_as ra p resolve active) (fst (thread (geo_enrich (cp_geo_template p) resolve) out s)) cs"
    using assms True by (blast intro: drawn_thread enrich_served)
  with True show ?thesis by simp
next
  case False
  have "drawn_from (served_as ra p resolve active) out cs"
    using assms by (rule drawn_weaken) (simp add: rewritten_def served_as_def node_of_def)
  then show ?thesis by (simp only: if_not_P [OF False] fst_conv)
qed

lemma drawn_filled: "drawn_from kept out cs \<Longrightarrow> drawn_from kept (fst (thread (fill_asn resolve) out s)) cs"
  by (blast intro: drawn_thread fill_kept)

lemma per_source_drawn:
  "drawn_from (served_as ra p resolve active) (fst (apply_per_source is_match ra p resolve active cs s)) cs"
  unfolding apply_per_source_def Let_def split_beta fst_conv
  by (intro drawn_filter enriched_drawn renamed_drawn drawn_if drawn_optional drawn_filled drawn_refl)

lemma per_source_status:
  "c \<in> set (fst (apply_per_source is_match ra p resolve active cs s)) \<Longrightarrow> c_status c \<notin> set (cp_exclude_statuses p)"
  by (simp add: apply_per_source_def split_beta Let_def)

lemma finalize_subset: "set (finalize sha lcase p cs) \<subseteq> set cs"
proof -
  let ?kept = "retain_first (\<lambda>c. fingerprint sha (c_entry c)) [] cs"
  have "set (sort_candidates lcase p ?kept) = set ?kept" by (rule mset_eq_setD) simp
  moreover have "set ?kept \<subseteq> set cs" by (rule subseq_set [OF retain_first_subseq])
  moreover have "set (finalize sha lcase p cs) \<subseteq> set (sort_candidates lcase p ?kept)"
    by (simp add: finalize_def Let_def set_take_subset split: option.split)
  ultimately show ?thesis by simp
qed

lemma finalize_distinct: "distinct (map (\<lambda>c. fingerprint sha (c_entry c)) (finalize sha lcase p cs))"
proof -
  let ?fp = "\<lambda>c. fingerprint sha (c_entry c)"
  let ?sorted = "sort_candidates lcase p (retain_first ?fp [] cs)"
  have "mset (map ?fp ?sorted) = mset (map ?fp (retain_first ?fp [] cs))" by simp
  then have "distinct (map ?fp ?sorted)" using retain_first_distinct [of ?fp "[]" cs] by (metis mset_eq_imp_distinct_iff)
  then show ?thesis by (simp add: finalize_def Let_def distinct_take take_map [symmetric] split: option.split)
qed

lemma engine_subset:
  "set (fst (apply_engine en p cs s)) \<subseteq>
     set (fst (apply_per_source (en_is_match en) (en_replace_all en) p (en_resolve en) (en_geo_active en) cs s))"
  by (simp add: apply_engine_def apply_pipeline_def split_beta Let_def finalize_subset)

text \<open>What a source makes of an entry, with the libraries of the server.\<close>

definition source_node :: "('r, 's) engine \<Rightarrow> 'r CompiledPipeline \<Rightarrow> ProxyEntry \<Rightarrow> ProxyEntry \<Rightarrow> bool" where
  "source_node en p e n \<longleftrightarrow> node_of (en_replace_all en) p (en_resolve en) (en_geo_active en) e n"

text \<open>The protocol and the credential are the row's; so is all but the name when the pipeline has no rename rules.\<close>

lemma rename_rule_keeps:
  "pe_scheme (apply_rename_rule ra e rule) = pe_scheme e \<and> pe_credential (apply_rename_rule ra e rule) = pe_credential e"
  by (simp add: apply_rename_rule_def Let_def split: RenameTarget.split option.split)

lemma rename_rules_keep:
  "pe_scheme (foldl (apply_rename_rule ra) e rules) = pe_scheme e \<and>
     pe_credential (foldl (apply_rename_rule ra) e rules) = pe_credential e"
  by (induction rules arbitrary: e) (simp_all add: rename_rule_keeps)

lemma source_node_keeps:
  assumes "source_node en p e n"
  shows "pe_scheme n = pe_scheme e" "pe_credential n = pe_credential e"
    "cp_rename p = [] \<Longrightarrow> n = e\<lparr>pe_name := pe_name n\<rparr>"
  using assms by (auto simp: source_node_def node_of_def geo_named_def renamed_entry_def rename_rules_keep)

lemma engine_drawn:
  assumes "c \<in> set (fst (apply_engine en p cs s))"
  obtains d where "d \<in> set cs" "same_row c d" "source_node en p (c_entry d) (c_entry c)"
  using per_source_drawn [of "en_replace_all en" p "en_resolve en" "en_geo_active en" "en_is_match en" cs s]
    engine_subset [of en p cs s] assms by (auto simp: drawn_from_def served_as_def source_node_def)

lemma engine_status:
  "c \<in> set (fst (apply_engine en p cs s)) \<Longrightarrow> c_status c \<notin> set (cp_exclude_statuses p)"
  by (rule per_source_status [OF subsetD [OF engine_subset]])

section \<open>The rows behind a profile\<close>

text \<open>A row that may back a candidate of a member: linked to the source, and in the countries.\<close>

definition served_row :: "Db \<Rightarrow> string set option \<Rightarrow> Source \<Rightarrow> ProxyRow \<Rightarrow> bool" where
  "served_row db allowed source r \<longleftrightarrow>
     r \<in> set (proxies db) \<and> (\<exists>l\<in>set (links db). l_proxy l = r_id r \<and> l_source l = so_id source) \<and>
     (case allowed of None \<Rightarrow> True
      | Some codes \<Rightarrow> (case r_geo_country r of Some cc \<Rightarrow> to_ascii_uppercase cc \<in> codes | None \<Rightarrow> False))"

lemma rows_to_candidates_row:
  "c \<in> set (rows_to_candidates en rows position) \<Longrightarrow>
     \<exists>r\<in>set rows. to_entry (en_from_text en) r = Inr (c_entry c) \<and> c_status c = r_status r \<and>
       c_latency_ms c = r_latency_ms r \<and> c_geo_country c = r_geo_country r \<and> c_source_position c = position"
  by (auto simp: rows_to_candidates_def List.map_filter_def candidate_of_def split: sum.splits)

lemma list_with_source_row:
  "(i, r) \<in> set (list_with_source db ids) \<Longrightarrow>
     r \<in> set (proxies db) \<and> (\<exists>l\<in>set (links db). l_proxy l = r_id r \<and> l_source l = i)"
  by (auto simp: list_with_source_def)

lemma merged_row:
  "c \<in> set (mg_all (fst (merge_members en allowed position members rows s))) \<Longrightarrow>
     \<exists>source compiled r e. (source, compiled) \<in> set members \<and> (so_id source, r) \<in> set rows \<and>
       to_entry (en_from_text en) r = Inr e \<and> source_node en compiled e (c_entry c) \<and>
       c_status c = r_status r \<and> c_latency_ms c = r_latency_ms r \<and> c_status c \<notin> set (cp_exclude_statuses compiled) \<and>
       (case allowed of None \<Rightarrow> True
        | Some codes \<Rightarrow> (case r_geo_country r of Some cc \<Rightarrow> to_ascii_uppercase cc \<in> codes | None \<Rightarrow> False))"
proof (induction en allowed position members rows s rule: merge_members.induct)
  case (2 en allowed position source compiled members rows s)
  let ?cs = "filter (in_countries allowed) (rows_to_candidates en (by_source (so_id source) rows) position)"
  let ?out = "apply_engine en compiled ?cs s"
  let ?rest = "filter (\<lambda>(j, _). j \<noteq> so_id source) rows"
  from "2.prems" consider "c \<in> set (fst ?out)"
    | "c \<in> set (mg_all (fst (merge_members en allowed (position + 1) members ?rest (snd ?out))))"
    by (auto simp: split_beta Let_def)
  then show ?case
  proof cases
    case 1
    from 1 obtain d where d: "d \<in> set ?cs" "same_row c d" "source_node en compiled (c_entry d) (c_entry c)"
      by (rule engine_drawn)
    from d(1) rows_to_candidates_row [of d en "by_source (so_id source) rows" position] obtain r where
      "r \<in> set (by_source (so_id source) rows)" "to_entry (en_from_text en) r = Inr (c_entry d)"
      "c_status d = r_status r" "c_latency_ms d = r_latency_ms r" "c_geo_country d = r_geo_country r" by auto
    then show ?thesis using d engine_status [OF 1]
      by (intro exI [of _ source] exI [of _ compiled] exI [of _ r] exI [of _ "c_entry d"])
        (auto simp: by_source_def same_row_def in_countries_def split: option.splits)
  next
    case 2
    from "2.IH" [OF refl refl prod.collapse 2] show ?thesis by fastforce
  qed
qed simp

section \<open>The members of a profile\<close>

text \<open>An enabled source of the profile.\<close>

definition active_member :: "Store \<Rightarrow> Profile \<Rightarrow> Source \<Rightarrow> bool" where
  "active_member st p source \<longleftrightarrow>
     so_enabled source \<and> get_source st (so_id source) = Some source \<and>
     so_id source \<in> set (map fst (get_sources st (pf_id p)))"

lemma load_members_in:
  "\<lbrakk>load_members en p loaded ls = Inr ms; (source, compiled) \<in> set ms\<rbrakk> \<Longrightarrow>
     so_enabled source \<and> (\<exists>i\<in>set (map fst ls). loaded i = Some source) \<and>
     compile en (merge_configs (so_pipeline source) (pf_pipeline p)) = Inr compiled"
proof (induction ls arbitrary: ms)
  case (Cons l ls)
  obtain i position where l: "l = (i, position)" by (cases l)
  show ?case
  proof (cases "\<exists>x. loaded i = Some x \<and> so_enabled x")
    case False
    then have "load_members en p loaded ls = Inr ms" using Cons.prems(1) l by (auto split: option.splits)
    from Cons.IH [OF this Cons.prems(2)] show ?thesis by auto
  next
    case True
    then obtain x c ms' where x: "loaded i = Some x" "so_enabled x"
      "compile en (merge_configs (so_pipeline x) (pf_pipeline p)) = Inr c"
      "load_members en p loaded ls = Inr ms'" "ms = (x, c) # ms'"
      using Cons.prems(1) l by (auto simp: bind_res_Inr split: sum.splits)
    then show ?thesis using Cons.IH [OF x(4)] Cons.prems(2) l by auto
  qed
qed simp

lemma found_id: "get_source st i = Some source \<Longrightarrow> so_id source = i"
  by (auto simp: get_source_def find_key_def dest: find_in)

lemma plan_members:
  assumes "sub_plan en st p = Inr (members, pp)" "(source, compiled) \<in> set members"
  shows "active_member st p source"
proof -
  let ?ls = "get_sources st (pf_id p)"
  have "load_members en p (get_many st (map fst ?ls)) ?ls = Inr members"
    using assms(1) by (auto simp: sub_plan_def Let_def bind_res_Inr split: option.splits sum.splits)
  from load_members_in [OF this assms(2)] obtain i where "so_enabled source" "i \<in> set (map fst ?ls)"
    "get_source st i = Some source" by (auto simp: get_many_def split: if_splits)
  then show ?thesis using found_id by (auto simp: active_member_def)
qed

lemma min_ttl_pos: "min_member_ttl members \<ge> 1"
  by (simp add: min_member_ttl_def)

text \<open>
  C1: what a profile serves. Every node of the body stands for a stored row that is linked to an enabled
  member of the profile and lies in a country of the profile when it names any. The node is the entry of that
  row after the rename rules of the member's pipeline, given another name at most by the geo template: its
  host, its port and its parameters are the row's but for what those rules rewrite, its protocol and
  credential are the row's, and status and latency are. No node is served twice, the pipeline's excluded statuses are
  out, and the rendering is fresh for 1 to 30 seconds, however long the sources' own intervals are.
\<close>

theorem sub_serves_members:
  assumes "fst (render_sub en ct st p printed now s) = Inr rd"
  shows "\<exists>out members pp. sub_plan en st p = Inr (members, pp) \<and> rd_status rd = 200 \<and>
    (rd_body rd, rd_content_type rd) = encode_body en out (pf_output_format p)
      (url_list_header_block ct printed (pf_name p) (whole_hours (min_member_ttl members)) (length out)) \<and>
    distinct (map (\<lambda>c. fingerprint (en_sha256 en) (c_entry c)) out) \<and>
    (\<forall>c\<in>set out. \<exists>source compiled r e. (source, compiled) \<in> set members \<and> active_member st p source \<and>
       served_row (st_db st) (allowed_countries p) source r \<and> to_entry (en_from_text en) r = Inr e \<and>
       source_node en compiled e (c_entry c) \<and> c_status c = r_status r \<and> c_latency_ms c = r_latency_ms r \<and>
       r_status r \<notin> set (cp_exclude_statuses compiled)) \<and>
    now + 1 \<le> rd_fresh_until rd \<and> rd_fresh_until rd \<le> now + 30"
proof -
  from assms obtain members pp where plan: "sub_plan en st p = Inr (members, pp)"
    by (cases "sub_plan en st p") (auto simp: render_sub_def)
  define mg where "mg = fst (merged_rows en st p members s)"
  from assms plan obtain out where out: "sub_output en p members pp mg = Inr out"
    and rd: "rd = sub_rendered en ct p printed now members mg out"
    by (auto simp: render_sub_def mg_def split_beta Let_def bind_res_Inr)
  from out obtain fin where "compile en (finalize_config (pf_pipeline p) (source_sort members pp)) = Inr fin"
    and fin: "out = finalize (en_sha256 en) (en_to_lowercase en) fin (mg_all mg)"
    by (auto simp: sub_output_def split: sum.splits)
  have row: "\<exists>source compiled r e. (source, compiled) \<in> set members \<and> active_member st p source \<and>
       served_row (st_db st) (allowed_countries p) source r \<and> to_entry (en_from_text en) r = Inr e \<and>
       source_node en compiled e (c_entry c) \<and> c_status c = r_status r \<and> c_latency_ms c = r_latency_ms r \<and>
       r_status r \<notin> set (cp_exclude_statuses compiled)" if "c \<in> set out" for c
  proof -
    have "c \<in> set (mg_all mg)" using that finalize_subset unfolding fin by blast
    from merged_row [OF this [unfolded mg_def merged_rows_def]] obtain source compiled r e where
      m: "(source, compiled) \<in> set members" and r: "(so_id source, r) \<in> set (list_with_source (st_db st) (map (\<lambda>(s, _). so_id s) members))"
      and e: "to_entry (en_from_text en) r = Inr e" "source_node en compiled e (c_entry c)" "c_latency_ms c = r_latency_ms r"
      and st: "c_status c = r_status r" "c_status c \<notin> set (cp_exclude_statuses compiled)"
      and cc: "case allowed_countries p of None \<Rightarrow> True
        | Some codes \<Rightarrow> (case r_geo_country r of Some cc \<Rightarrow> to_ascii_uppercase cc \<in> codes | None \<Rightarrow> False)"
      by blast
    have "served_row (st_db st) (allowed_countries p) source r"
      using list_with_source_row [OF r] cc by (simp add: served_row_def)
    then show ?thesis using m e st plan_members [OF plan m] by metis
  qed
  show ?thesis
    using plan row min_ttl_pos [of members]
    by (intro exI [of _ out] exI [of _ members] exI [of _ pp])
      (simp add: rd sub_rendered_def split_beta Let_def RENDER_FRESHNESS_CAP_SECS_def finalize_distinct fin)
qed

text \<open>
  C2: a source link serves live nodes only. Whatever the pipeline of the source lets through, every node of
  the body is the entry of a row linked to the source whose status is alive or ready, after the renames and
  the geo name of the source's own pipeline, each node once.
\<close>

theorem src_serves_live:
  assumes "fst (render_src en ct st source printed now s) = Inr rd"
  shows "\<exists>out. rd_status rd = 200 \<and>
    (rd_body rd, rd_content_type rd) = encode_body en out UriListOutput
      (url_list_header_block ct printed (so_name source) (whole_hours (so_cache_ttl_seconds source)) (length out)) \<and>
    distinct (map (\<lambda>c. fingerprint (en_sha256 en) (c_entry c)) out) \<and>
    (\<forall>c\<in>set out. c_status c \<in> {Alive, Ready} \<and> (\<exists>compiled r e. compile en (so_pipeline source) = Inr compiled \<and>
       served_row (st_db st) None source r \<and> to_entry (en_from_text en) r = Inr e \<and>
       source_node en compiled e (c_entry c) \<and> c_status c = r_status r \<and> c_latency_ms c = r_latency_ms r)) \<and>
    now + 1 \<le> rd_fresh_until rd \<and> rd_fresh_until rd \<le> now + 30"
proof -
  from assms obtain compiled where compiled: "compile en (so_pipeline source) = Inr compiled"
    by (auto simp: render_src_def split: if_splits sum.splits)
  define out where "out = fst (src_output en st source compiled s)"
  have live: "c_status c \<in> {Alive, Ready} \<and> (\<exists>compiled r e. compile en (so_pipeline source) = Inr compiled \<and>
       served_row (st_db st) None source r \<and> to_entry (en_from_text en) r = Inr e \<and>
       source_node en compiled e (c_entry c) \<and> c_status c = r_status r \<and> c_latency_ms c = r_latency_ms r)"
    if "c \<in> set out" for c
  proof -
    let ?rows = "map snd (list_with_source (st_db st) [so_id source])"
    from that [unfolded out_def src_output_def] obtain d where d: "d \<in> set (filter src_live (rows_to_candidates en ?rows 0))"
      "same_row c d" "source_node en compiled (c_entry d) (c_entry c)" by (rule engine_drawn)
    with rows_to_candidates_row [of d en ?rows 0] obtain i r where
      r: "(i, r) \<in> set (list_with_source (st_db st) [so_id source])" and e: "to_entry (en_from_text en) r = Inr (c_entry d)"
      "c_status d = r_status r" "c_latency_ms d = r_latency_ms r" by auto
    then have "i = so_id source" by (auto simp: list_with_source_def)
    then have "served_row (st_db st) None source r" using list_with_source_row [OF r] by (simp add: served_row_def)
    then show ?thesis using compiled d e
      by (intro conjI exI [of _ compiled] exI [of _ r] exI [of _ "c_entry d"]) (auto simp: same_row_def src_live_def)
  qed
  have once: "distinct (map (\<lambda>c. fingerprint (en_sha256 en) (c_entry c)) out)"
    by (simp add: out_def src_output_def apply_engine_def apply_pipeline_def split_beta Let_def finalize_distinct)
  show ?thesis
    using assms compiled live once
    by (intro exI [of _ out]) (auto simp: render_src_def out_def split_beta Let_def RENDER_FRESHNESS_CAP_SECS_def split: if_splits)
qed

section \<open>One line per node\<close>

lemma no_breaks_single [simp]: "single_line (no_breaks s)"
  by (auto simp: no_breaks_def single_line_def)

lemma dec_int_single [simp]: "single_line (dec_int i)"
  by (simp add: dec_int_def)

definition comment_lines :: "clock_text \<Rightarrow> int \<Rightarrow> string \<Rightarrow> int \<Rightarrow> nat \<Rightarrow> string list" where
  "comment_lines ct now title hours n =
     [''# profile-title: '' @ no_breaks title, ''# profile-update-interval: '' @ dec_int hours,
      ''# nodes count: '' @ dec_nat n, ''# generated by: fumox '' @ ct_version ct @ '' at '' @ ct_rfc3339 ct now]"

lemma single_line_LF: "single_line s \<Longrightarrow> LF \<notin> set s"
  by (simp add: single_line_def)

lemma block_lines:
  assumes "single_line (ct_version ct)" "single_line (ct_rfc3339 ct now)"
  shows "split_on LF (url_list_header_block ct now title hours n @ rest) = comment_lines ct now title hours n @ split_on LF rest"
proof -
  let ?l = "comment_lines ct now title hours n"
  have "\<forall>l\<in>set ?l. single_line l" using assms by (simp add: comment_lines_def)
  then have single: "\<forall>l\<in>set ?l. LF \<notin> set l" by (auto dest: single_line_LF)
  have "url_list_header_block ct now title hours n @ rest = ?l ! 0 @ LF # ?l ! 1 @ LF # ?l ! 2 @ LF # ?l ! 3 @ LF # rest"
    by (simp add: url_list_header_block_def comment_lines_def)
  moreover have "?l = [?l ! 0, ?l ! 1, ?l ! 2, ?l ! 3]" by (simp add: comment_lines_def)
  moreover have "LF \<notin> set (?l ! 0)" "LF \<notin> set (?l ! 1)" "LF \<notin> set (?l ! 2)" "LF \<notin> set (?l ! 3)"
    using single by (simp_all add: comment_lines_def)
  ultimately show ?thesis by (metis split_on_append append_Cons append_Nil)
qed

lemma uri_lines_split:
  assumes "\<forall>s. single_line (b64_encode co s)"
  shows "split_on LF (uri_lines co cs) = (if cs = [] then [[]] else map (\<lambda>c. serialize co (c_entry c)) cs)"
  using serialize_single [OF assms] split_on_join [of "map (\<lambda>c. serialize co (c_entry c)) cs" LF]
  by (auto simp: uri_lines_def dest: single_line_LF)

text \<open>
  C3: a URI list of a profile reads as its lines: four comments, then exactly one line per served node, and
  the count the comments name is their number. Neither the name of the profile nor anything in an entry
  adds a line.
\<close>

theorem uri_list_lines:
  assumes "\<forall>s. single_line (b64_encode (en_codecs en) s)" "single_line (ct_version ct)" "single_line (ct_rfc3339 ct printed)"
    and "pf_output_format p = UriListOutput" "fst (render_sub en ct st p printed now s) = Inr rd"
  shows "\<exists>(out :: Candidate list) hours. split_on LF (rd_body rd) =
    [''# profile-title: '' @ no_breaks (pf_name p), ''# profile-update-interval: '' @ dec_int hours,
     ''# nodes count: '' @ dec_nat (length out), ''# generated by: fumox '' @ ct_version ct @ '' at '' @ ct_rfc3339 ct printed] @
    (if out = [] then [[]] else map (\<lambda>c. serialize (en_codecs en) (c_entry c)) out)"
proof -
  from assms(5) obtain members mg out where "rd = sub_rendered en ct p printed now members mg out"
    by (auto simp: render_sub_def split_beta Let_def bind_res_Inr split: sum.splits)
  then have "rd_body rd = url_list_header_block ct printed (pf_name p) (whole_hours (min_member_ttl members)) (length out) @
      uri_lines (en_codecs en) out"
    using assms(4) by (simp add: sub_rendered_def encode_body_def split_beta Let_def)
  then have "split_on LF (rd_body rd) = comment_lines ct printed (pf_name p) (whole_hours (min_member_ttl members)) (length out) @
      split_on LF (uri_lines (en_codecs en) out)"
    using block_lines [OF assms(2,3)] by simp
  then show ?thesis
    by (intro exI [of _ out] exI [of _ "whole_hours (min_member_ttl members)"])
      (simp add: comment_lines_def uri_lines_split [OF assms(1)])
qed

section \<open>Who is answered\<close>

text \<open>
  C5: the gate of a profile is exact. A request is answered from the profile exactly when it names no format,
  the token of its path resolves to an enabled profile, and that profile is public or the request presents
  its access token, in the query or, when the query has none, as a bearer token.
\<close>

theorem serve_sub_exact:
  "serve_sub st i query headers = Serve key p \<longleftrightarrow>
     query ''format'' = None \<and> resolve_profile st i = Some p \<and> pf_enabled p \<and> key = ''sub:'' @ pf_id p \<and>
     (pf_access_token p = None \<or>
      pf_access_token p = (if query ''token'' \<noteq> None then query ''token'' else bearer_token headers))"
  by (auto simp: serve_sub_def token_ok_def profile_key_def ct_eq_exact split: option.splits)

text \<open>No value of a rendering reaches a response header with a line break in it.\<close>

lemma value_byte_breaks: "\<not> value_byte LF \<and> \<not> value_byte CR"
  by code_simp

lemma header_value_single: "header_value s = Some v \<Longrightarrow> single_line v"
  using value_byte_breaks by (auto simp: header_value_def list_all_iff single_line_def split: if_splits)

lemma inserted_headers:
  "(n, v) \<in> set (obj_insert n' v' hs) \<Longrightarrow> (n, v) = (n', v') \<or> (n, v) \<in> set hs"
  by (induction hs) (auto split: if_splits)

definition clean_headers :: "(string \<times> string) list \<Rightarrow> bool" where
  "clean_headers hs \<longleftrightarrow> (\<forall>h\<in>set hs. single_line (snd h))"

lemma put_header_clean: "clean_headers hs \<Longrightarrow> clean_headers (put_header hs h)"
  unfolding put_header_def clean_headers_def
  by (cases "header_name (fst h)"; cases "header_value (snd h)") (auto dest!: inserted_headers header_value_single)

lemma put_headers_clean: "clean_headers hs \<Longrightarrow> clean_headers (foldl put_header hs xs)"
  by (induction xs arbitrary: hs) (simp_all add: put_header_clean)

lemma response_headers_single: "clean_headers (rs_headers (to_response r))"
proof -
  have "clean_headers (case header_value (rd_content_type r) of Some v \<Rightarrow> [(CONTENT_TYPE, v)] | None \<Rightarrow> [])"
    using header_value_single by (cases "header_value (rd_content_type r)") (auto simp: clean_headers_def)
  then show ?thesis by (simp add: to_response_def Let_def put_headers_clean)
qed

section \<open>A member that answers for the profile\<close>

lemma load_members_all:
  "\<lbrakk>load_members en p loaded ls = Inr ms; i \<in> set (map fst ls); loaded i = Some source; so_enabled source\<rbrakk> \<Longrightarrow>
     source \<in> fst ` set ms"
proof (induction ls arbitrary: ms)
  case (Cons l ls)
  obtain j position where l: "l = (j, position)" by (cases l)
  show ?case
  proof (cases "\<exists>x. loaded j = Some x \<and> so_enabled x")
    case False
    then have "load_members en p loaded ls = Inr ms" using Cons.prems(1) l by (auto split: option.splits)
    moreover have "i \<in> set (map fst ls)" using False Cons.prems l by auto
    ultimately show ?thesis using Cons.IH Cons.prems by blast
  next
    case True
    then obtain x c ms' where x: "loaded j = Some x" "load_members en p loaded ls = Inr ms'" "ms = (x, c) # ms'"
      using Cons.prems(1) l by (auto simp: bind_res_Inr split: sum.splits)
    then show ?thesis using Cons.IH [OF x(2)] Cons.prems l by (cases "i = j") auto
  qed
qed simp

definition members_of :: "('r, 's) engine \<Rightarrow> Store \<Rightarrow> Profile \<Rightarrow> ErrorReply + (Source \<times> 'r CompiledPipeline) list" where
  "members_of en st p =
     (let ls = get_sources st (pf_id p) in load_members en p (get_many st (map fst ls)) ls)"

lemma bind_res_Inl: "bind_res r f = Inl e \<longleftrightarrow> r = Inl e \<or> (\<exists>x. r = Inr x \<and> f x = Inl e)"
  by (cases r) auto

lemma members_active:
  assumes "members_of en st p = Inr members"
  shows "source \<in> fst ` set members \<longleftrightarrow> active_member st p source"
proof
  let ?ls = "get_sources st (pf_id p)"
  assume "source \<in> fst ` set members"
  then obtain compiled where "(source, compiled) \<in> set members" by auto
  from load_members_in [OF assms [unfolded members_of_def Let_def] this] obtain i where "so_enabled source" "i \<in> set (map fst ?ls)"
    "get_source st i = Some source" by (auto simp: get_many_def split: if_splits)
  then show "active_member st p source" using found_id by (auto simp: active_member_def)
next
  let ?ls = "get_sources st (pf_id p)"
  assume "active_member st p source"
  then show "source \<in> fst ` set members"
    using load_members_all [OF assms [unfolded members_of_def Let_def], of "so_id source" source]
    by (auto simp: active_member_def get_many_def)
qed

lemma failed_member_iff:
  "failed_member members = None \<longleftrightarrow> (\<forall>source\<in>fst ` set members. so_error_class source \<noteq> Some HttpClient)"
  unfolding failed_member_def by (induction members) auto

lemma failed_member_in:
  "failed_member members = Some source \<Longrightarrow> source \<in> fst ` set members \<and> so_error_class source = Some HttpClient"
  by (force simp: failed_member_def dest: find_in split: option.splits)

text \<open>
  C4: which members answer for the whole profile. When the merged pipelines compile, a rendering is refused
  with the upstream's status, dropping the cached body, exactly when the last fetch of an enabled member
  failed with a client error; every other outcome keeps the cached body. The refusal asks neither the
  resolver nor the tables for a row, and its status is one HTTP has.
\<close>

theorem upstream_error_exactly:
  assumes "members_of en st p = Inr members"
  shows "((\<exists>e. fst (render_sub en ct st p printed now s) = Inl e \<and> er_drop_cached e) \<longleftrightarrow>
      (\<exists>source. active_member st p source \<and> so_error_class source = Some HttpClient)) \<and>
    (\<forall>e. fst (render_sub en ct st p printed now s) = Inl e \<and> er_drop_cached e \<longrightarrow>
      snd (render_sub en ct st p printed now s) = s \<and> er_status e \<in> {100..999} \<and>
      (\<exists>source. active_member st p source \<and> so_error_class source = Some HttpClient \<and> e = upstream_reply st source))"
proof (cases "failed_member members")
  case None
  have "\<not> er_drop_cached e" if "fst (render_sub en ct st p printed now s) = Inl e" for e
    using that None assms
    by (auto simp: render_sub_def sub_plan_def members_of_def sub_output_def corrupted_pipeline_def Let_def split_beta bind_res_Inl
        split: sum.splits option.splits)
  moreover have "\<not> (\<exists>source. active_member st p source \<and> so_error_class source = Some HttpClient)"
    using None members_active [OF assms] unfolding failed_member_iff by blast
  ultimately show ?thesis by blast
next
  case (Some source)
  have "render_sub en ct st p printed now s = (Inl (upstream_reply st source), s)"
    using Some assms by (simp add: render_sub_def sub_plan_def members_of_def Let_def)
  moreover have "er_drop_cached (upstream_reply st source)" "er_status (upstream_reply st source) \<in> {100..999}"
    by (auto simp: upstream_reply_def upstream_unavailable_def status_code_def Let_def)
  moreover have "active_member st p source \<and> so_error_class source = Some HttpClient"
    using failed_member_in [OF Some] members_active [OF assms] by blast
  ultimately show ?thesis by auto
qed

section \<open>An empty pipeline that breaks its profile\<close>

text \<open>
  A profile stored with the pipeline \<open>{}\<close>, which compiles and is accepted by the forms, answers 500 as
  soon as the pipeline of a member sets a sort and the profile does not: the sort section of the source is
  put into an object without a version, which the decoder rejects.
\<close>

theorem empty_profile_pipeline_breaks:
  assumes "\<And>m. map_of m ''version'' = None \<Longrightarrow> \<exists>e. en_decode en (JObject m) = Inl e"
    and "pf_pipeline p = Some (JObject [])" "sub_plan en st p = Inr (members, pp)"
    and "find (\<lambda>(_, compiled). cp_sort_explicit compiled) members = Some (source, compiled)"
    and "so_pipeline source = Some (JObject m)" "map_of m ''sort'' = Some sort_value"
  shows "compile en (pf_pipeline p) = Inr default_pipeline \<and> fst (render_sub en ct st p printed now s) = Inl corrupted_pipeline"
proof -
  have ok: "compile en (pf_pipeline p) = Inr default_pipeline" using assms(2) by (simp add: compile_def from_json_def)
  then have "pp = default_pipeline"
    using assms(3) by (auto simp: sub_plan_def Let_def bind_res_Inr split: option.splits)
  then have "source_sort members pp = Some sort_value"
    using assms(4-6) by (simp add: source_sort_def default_pipeline_def)
  then have config: "finalize_config (pf_pipeline p) (source_sort members pp) = Some (JObject [(''sort'', sort_value)])"
    using assms(2) by (simp add: finalize_config_def)
  obtain e where "en_decode en (JObject [(''sort'', sort_value)]) = Inl e" using assms(1) [of "[(''sort'', sort_value)]"] by auto
  then have "sub_output en p members pp mg = Inl corrupted_pipeline" for mg
    by (simp add: sub_output_def config compile_def from_json_def)
  then show ?thesis using ok assms(3) by (simp add: render_sub_def split_beta Let_def)
qed

section \<open>Concrete renderings\<close>

text \<open>A decoder that wants the version and reads a sort, the codecs of \<open>Lines_Properties\<close>, one pool row.\<close>

definition sample_decode :: "json \<Rightarrow> string + PipelineConfig" where
  "sample_decode v =
     (case v of
        JObject m \<Rightarrow>
          if map_of m ''version'' = None then Inl ''missing field version''
          else Inr \<lparr>pc_version = 1, pc_filter = None, pc_rename = None, pc_drop = None, pc_geo = None, pc_health = None,
            pc_dedup = None, pc_sort = map_option (\<lambda>_. \<lparr>sc_by = SortLatency, sc_desc = False\<rparr>) (map_of m ''sort''),
            pc_limit = None\<rparr>
      | _ \<Rightarrow> Inl ''not an object'')"

definition render_engine :: "(unit, unit) engine" where
  "render_engine = sample_engine\<lparr>en_decode := sample_decode, en_codecs := hex_codecs\<rparr>"

definition sample_clock :: clock_text where
  "sample_clock = \<lparr>ct_rfc3339 = \<lambda>_. ''1970-01-01T00:00:00Z'', ct_version = ''1''\<rparr>"

definition sample_profile :: Profile where
  "sample_profile = \<lparr>pf_id = ''p'', pf_slug = None, pf_access_token = None, pf_name = ''mine'', pf_output_format = UriListOutput,
     pf_pipeline = None, pf_countries = [], pf_enabled = True, pf_created_at = 0, pf_updated_at = 0\<rparr>"

definition sample_pool :: Store where
  "sample_pool = sample_store\<lparr>st_profiles := [sample_profile],
     st_members := [\<lparr>m_profile = ''p'', m_source = ''s'', m_position = 0\<rparr>],
     st_db := \<lparr>proxies = [(new_row sample_to_text 5 [] sample_stored no_stamp 0)\<lparr>r_status := Alive\<rparr>],
       links = [\<lparr>l_proxy = 0, l_source = ''s'', l_seen_at = 5\<rparr>], results = [], requests = [], next_id = 1\<rparr>\<rparr>"

lemma sample_compile:
  "compile render_engine None = Inr default_pipeline"
  "compile render_engine (Some (JObject [(''version'', JInt 1)])) = Inr default_pipeline"
  by (simp_all add: compile_def from_json_def render_engine_def sample_decode_def compile_config_def
      limit_section_def sort_section_def dedup_section_def health_section_def geo_section_def drop_section_def
      rename_section_def filter_section_def)

lemma sample_members: "members_of render_engine sample_pool sample_profile = Inr [(sample_source, default_pipeline)]"
  by (simp add: members_of_def sample_pool_def sample_store_def get_sources_def get_many_def get_source_def find_key_def
      sample_profile_def sample_source_def merge_configs_def sample_compile)

lemma sample_plan: "sub_plan render_engine sample_pool sample_profile = Inr ([(sample_source, default_pipeline)], default_pipeline)"
  using sample_members
  by (simp add: sub_plan_def members_of_def Let_def failed_member_def sample_compile) (simp add: sample_source_def sample_profile_def sample_compile)

lemma sample_rendered:
  "\<exists>rd. fst (render_sub render_engine sample_clock sample_pool sample_profile 0 100 s) = Inr rd"
proof -
  have "\<exists>out. sub_output render_engine sample_profile [(sample_source, default_pipeline)] default_pipeline mg = Inr out" for mg
    by (simp add: sub_output_def source_sort_def finalize_config_def sample_profile_def default_pipeline_def)
      (simp add: sample_compile)
  then show ?thesis by (auto simp: render_sub_def sample_plan split_beta Let_def bind_res_Inr)
qed

theorem sub_serves_members_witness:
  "\<exists>rd. fst (render_sub render_engine sample_clock sample_pool sample_profile 0 100 ()) = Inr rd \<and>
     rd_status rd = 200 \<and> 101 \<le> rd_fresh_until rd \<and> rd_fresh_until rd \<le> 130"
proof -
  obtain rd where rd: "fst (render_sub render_engine sample_clock sample_pool sample_profile 0 100 ()) = Inr rd"
    using sample_rendered by blast
  from sub_serves_members [OF rd] rd show ?thesis by auto
qed

theorem uri_list_lines_witness:
  "\<exists>rd (out :: Candidate list) hours. fst (render_sub render_engine sample_clock sample_pool sample_profile 0 100 ()) = Inr rd \<and>
     split_on LF (rd_body rd) =
       [''# profile-title: mine'', ''# profile-update-interval: '' @ dec_int hours, ''# nodes count: '' @ dec_nat (length out),
        ''# generated by: fumox 1 at 1970-01-01T00:00:00Z''] @
       (if out = [] then [[]] else map (\<lambda>c. serialize hex_codecs (c_entry c)) out)"
proof -
  obtain rd where rd: "fst (render_sub render_engine sample_clock sample_pool sample_profile 0 100 ()) = Inr rd"
    using sample_rendered by blast
  have hyps: "\<forall>s. single_line (b64_encode (en_codecs render_engine) s)" "single_line (ct_version sample_clock)"
    "single_line (ct_rfc3339 sample_clock 0)" "pf_output_format sample_profile = UriListOutput"
    by (simp_all add: render_engine_def hex_codecs_def hex_text_single sample_clock_def sample_profile_def)
  have shown: "no_breaks (pf_name sample_profile) = ''mine''" "ct_version sample_clock = ''1''"
    "ct_rfc3339 sample_clock 0 = ''1970-01-01T00:00:00Z''" "en_codecs render_engine = hex_codecs"
    by (simp_all add: sample_profile_def sample_clock_def no_breaks_def render_engine_def)
  from uri_list_lines [OF hyps rd, unfolded shown] obtain out :: "Candidate list" and hours where
    "split_on LF (rd_body rd) =
       [''# profile-title: '' @ ''mine'', ''# profile-update-interval: '' @ dec_int hours, ''# nodes count: '' @ dec_nat (length out),
        ''# generated by: fumox '' @ ''1'' @ '' at '' @ ''1970-01-01T00:00:00Z''] @
       (if out = [] then [[]] else map (\<lambda>c. serialize hex_codecs (c_entry c)) out)" by blast
  then show ?thesis using rd unfolding append.simps by blast
qed

theorem src_serves_live_witness:
  "\<exists>rd (out :: Candidate list). fst (render_src render_engine sample_clock sample_pool sample_source 0 100 ()) = Inr rd \<and>
     (rd_body rd, rd_content_type rd) = encode_body render_engine out UriListOutput
       (url_list_header_block sample_clock 0 ''src'' 1 (length out)) \<and>
     list_all (\<lambda>c. c_status c = Alive \<or> c_status c = Ready) out"
proof -
  have src: "so_error_class sample_source \<noteq> Some HttpClient" "so_pipeline sample_source = None"
    "so_name sample_source = ''src''" "whole_hours (so_cache_ttl_seconds sample_source) = 1"
    by (simp_all add: sample_source_def whole_hours_def)
  then obtain rd where rd: "fst (render_src render_engine sample_clock sample_pool sample_source 0 100 ()) = Inr rd"
    by (simp add: render_src_def sample_compile split_beta Let_def)
  from src_serves_live [OF rd] rd src show ?thesis by (fastforce simp: list_all_iff)
qed

definition failed_source :: Source where
  "failed_source = sample_source\<lparr>so_error_class := Some HttpClient\<rparr>"

definition failed_pool :: Store where
  "failed_pool = sample_pool\<lparr>st_sources := [failed_source]\<rparr>"

theorem upstream_error_exactly_witness:
  "active_member failed_pool sample_profile failed_source \<and>
   (\<exists>e. fst (render_sub render_engine sample_clock failed_pool sample_profile 0 100 ()) = Inl e \<and> er_drop_cached e)"
proof -
  have members: "members_of render_engine failed_pool sample_profile = Inr [(failed_source, default_pipeline)]"
    by (simp add: members_of_def failed_pool_def sample_pool_def sample_store_def get_sources_def get_many_def get_source_def
        find_key_def sample_profile_def failed_source_def sample_source_def merge_configs_def sample_compile)
  then have "active_member failed_pool sample_profile failed_source" using members_active [OF members, of failed_source] by simp
  moreover have "so_error_class failed_source = Some HttpClient" by (simp add: failed_source_def)
  ultimately show ?thesis using upstream_error_exactly [OF members, of sample_clock 0 100 "()"] by blast
qed

definition sorted_source :: Source where
  "sorted_source = sample_source\<lparr>so_pipeline := Some (JObject [(''version'', JInt 1), (''sort'', JNull)])\<rparr>"

definition empty_pipeline_profile :: Profile where
  "empty_pipeline_profile = sample_profile\<lparr>pf_pipeline := Some (JObject [])\<rparr>"

definition sorted_pool :: Store where
  "sorted_pool = sample_pool\<lparr>st_sources := [sorted_source], st_profiles := [empty_pipeline_profile]\<rparr>"

theorem empty_profile_pipeline_breaks_witness:
  "compile render_engine (pf_pipeline empty_pipeline_profile) = Inr default_pipeline \<and>
   fst (render_sub render_engine sample_clock sorted_pool empty_pipeline_profile 0 100 ()) = Inl corrupted_pipeline"
proof -
  let ?sorted = "default_pipeline\<lparr>cp_sort_by := SortLatency, cp_sort_desc := False, cp_sort_explicit := True\<rparr>"
  have compiled: "compile render_engine (Some (JObject [(''version'', JInt 1), (''sort'', JNull)])) = Inr ?sorted"
    by (simp add: compile_def from_json_def render_engine_def sample_decode_def compile_config_def
        limit_section_def sort_section_def dedup_section_def health_section_def geo_section_def drop_section_def
        rename_section_def filter_section_def)
  have plain: "compile render_engine (Some (JObject [])) = Inr default_pipeline" by (simp add: compile_def from_json_def)
  have plan: "sub_plan render_engine sorted_pool empty_pipeline_profile = Inr ([(sorted_source, ?sorted)], default_pipeline)"
    by (simp add: sub_plan_def sorted_pool_def sample_pool_def sample_store_def get_sources_def get_many_def get_source_def
        find_key_def empty_pipeline_profile_def sample_profile_def sorted_source_def sample_source_def merge_configs_def
        compiled plain failed_member_def)
  have dec: "\<exists>e. en_decode render_engine (JObject m) = Inl e" if "map_of m ''version'' = None" for m
    using that by (simp add: render_engine_def sample_decode_def)
  have src: "pf_pipeline empty_pipeline_profile = Some (JObject [])"
    "so_pipeline sorted_source = Some (JObject [(''version'', JInt 1), (''sort'', JNull)])"
    by (simp_all add: empty_pipeline_profile_def sorted_source_def)
  show ?thesis
    by (rule empty_profile_pipeline_breaks [OF dec src(1) plan _ src(2)]) simp_all
qed

end
