(* ===== verification/Listener.thy ===== *)
theory Listener
  imports Render_Properties Cache_Exports
begin

text \<open>
  The rest of the public listener: the rate limit in front of its routes (\<open>public_rate_limit\<close> of
  \<open>serve.rs\<close>), the two registries that keep a scan out of the log (\<open>AuthFailLog\<close>, \<open>HostRejectLog\<close>), and
  the export links of \<open>alive_export.rs\<close>. An \<open>Instant\<close> is a number of seconds. Both registries have the same
  code; it is written once, over the label of its summary.
\<close>

section \<open>The registries of warnings\<close>

definition AUTH_FAIL_WARN_WINDOW :: nat where "AUTH_FAIL_WARN_WINDOW = 3600"
definition AUTH_FAIL_MAX_TRACKED :: nat where "AUTH_FAIL_MAX_TRACKED = 1024"
definition AUTH_FAIL_MAX_WARNS :: nat where "AUTH_FAIL_MAX_WARNS = 64"

record WarnLog =
  wl_seen :: "(string \<times> nat) list"
  wl_window_start :: "nat option"
  wl_warns_emitted :: nat
  wl_suppressed :: "string option"
  wl_suppressed_total :: nat

definition new_warn_log :: WarnLog where
  "new_warn_log = \<lparr>wl_seen = [], wl_window_start = None, wl_warns_emitted = 0, wl_suppressed = None, wl_suppressed_total = 0\<rparr>"

definition summary_text :: "string \<Rightarrow> string \<Rightarrow> nat \<Rightarrow> string \<Rightarrow> string" where
  "summary_text label kind dropped first =
     label @ '': '' @ dec_nat dropped @ '' dropped to debug this window, first suppressed '' @ kind @ '' '' @ first"

definition roll_window :: "(nat \<Rightarrow> string \<Rightarrow> string) \<Rightarrow> nat \<Rightarrow> WarnLog \<Rightarrow> string option \<times> WarnLog" where
  "roll_window summary now wl =
     (case wl_window_start wl of
        None \<Rightarrow> (None, wl\<lparr>wl_window_start := Some now\<rparr>)
      | Some start \<Rightarrow>
          if now - start < AUTH_FAIL_WARN_WINDOW then (None, wl)
          else (map_option (summary (wl_suppressed_total wl)) (wl_suppressed wl),
            wl\<lparr>wl_suppressed := None, wl_suppressed_total := 0, wl_warns_emitted := 0, wl_window_start := Some now\<rparr>))"

text \<open>The oldest entry goes; of several with one stamp, the first of the list (the order of a \<open>HashMap\<close>).\<close>

definition drop_oldest :: "(string \<times> nat) list \<Rightarrow> (string \<times> nat) list" where
  "drop_oldest seen = (case sort_key snd seen of [] \<Rightarrow> [] | (oldest, _) # _ \<Rightarrow> AList.delete oldest seen)"

definition should_warn :: "(nat \<Rightarrow> string \<Rightarrow> string) \<Rightarrow> string \<Rightarrow> nat \<Rightarrow> WarnLog \<Rightarrow> (bool \<times> string option) \<times> WarnLog" where
  "should_warn summary who now wl0 =
     (let (due, wl) = roll_window summary now wl0 in
      case map_of (wl_seen wl) who of
        Some first \<Rightarrow>
          if now - first < AUTH_FAIL_WARN_WINDOW then ((False, due), wl)
          else ((True, due), wl\<lparr>wl_seen := AList.update who now (wl_seen wl)\<rparr>)
      | None \<Rightarrow>
          (let seen = (if length (wl_seen wl) \<ge> AUTH_FAIL_MAX_TRACKED then drop_oldest (wl_seen wl) else wl_seen wl);
               wl1 = wl\<lparr>wl_seen := AList.update who now seen\<rparr>
           in if wl_warns_emitted wl1 \<ge> AUTH_FAIL_MAX_WARNS
              then ((False, due), wl1\<lparr>wl_suppressed := (case wl_suppressed wl1 of None \<Rightarrow> Some who | Some w \<Rightarrow> Some w),
                      wl_suppressed_total := Suc (wl_suppressed_total wl1)\<rparr>)
              else ((True, due), wl1\<lparr>wl_warns_emitted := Suc (wl_warns_emitted wl1)\<rparr>)))"

definition should_warn_auth_failure :: "string \<Rightarrow> nat \<Rightarrow> WarnLog \<Rightarrow> (bool \<times> string option) \<times> WarnLog" where
  "should_warn_auth_failure = should_warn (summary_text ''public auth failures'' ''client'')"

definition should_warn_host_reject :: "string \<Rightarrow> nat \<Rightarrow> WarnLog \<Rightarrow> (bool \<times> string option) \<times> WarnLog" where
  "should_warn_host_reject = should_warn (summary_text ''host-gate rejections'' ''host'')"

section \<open>The rate limit\<close>

record PublicRateLimits =
  pl_all :: RateLimiter
  pl_auth_failures :: RateLimiter

definition new_limits :: "u64 \<Rightarrow> u64 \<Rightarrow> PublicRateLimits" where
  "new_limits all failures = \<lparr>pl_all = new_limiter all 60, pl_auth_failures = new_limiter failures 60\<rparr>"

definition unlimited :: PublicRateLimits where
  "unlimited = new_limits (- 1) (- 1)"

text \<open>The limits of the configuration, each with its own window; \<open>RateLimit\<close> of \<open>config.rs\<close>.\<close>

record RateLimit =
  rt_limit :: "32 word"
  rt_window :: nat

definition limits_from_config :: "RateLimit \<Rightarrow> RateLimit \<Rightarrow> PublicRateLimits" where
  "limits_from_config rate_limit auth_fail_rate_limit =
     \<lparr>pl_all = new_limiter (ucast (rt_limit rate_limit)) (rt_window rate_limit),
      pl_auth_failures = new_limiter (ucast (rt_limit auth_fail_rate_limit)) (rt_window auth_fail_rate_limit)\<rparr>"

record Listener =
  ls_limits :: PublicRateLimits
  ls_auth_log :: WarnLog

text \<open>What the middleware does after the handler answered \<open>response\<close>.\<close>

definition after_handler :: "nat \<Rightarrow> string \<Rightarrow> Response \<Rightarrow> Listener \<Rightarrow> Response \<times> Listener" where
  "after_handler now ip response ls =
     (let ls1 = (case rs_auth_failure response of
            Some _ \<Rightarrow> ls\<lparr>ls_auth_log := snd (should_warn_auth_failure ip now (ls_auth_log ls))\<rparr>
          | None \<Rightarrow> ls) in
      if rs_status response = 403 then
        (let (ok, failures) = allow now ip (pl_auth_failures (ls_limits ls1));
             limits = (ls_limits ls1)\<lparr>pl_auth_failures := failures\<rparr>
         in if ok then (response, ls1\<lparr>ls_limits := limits\<rparr>)
            else (error_response 429 ''too many failed access attempts, try again later'',
                  ls1\<lparr>ls_limits := limits\<lparr>pl_all := refund now ip (pl_all limits)\<rparr>\<rparr>))
      else (response, ls1))"

definition public_rate_limit ::
  "nat \<Rightarrow> socket_addr option \<Rightarrow> header_map \<Rightarrow> ip_net list \<Rightarrow> Response \<Rightarrow> Listener \<Rightarrow> Response \<times> Listener" where
  "public_rate_limit now peer headers trusted_cidrs response ls =
     (case peer of
        None \<Rightarrow> (response, ls)
      | Some addr \<Rightarrow>
          (let ip = show_ip (client_key addr headers trusted_cidrs);
               (ok, all) = allow now ip (pl_all (ls_limits ls));
               ls1 = ls\<lparr>ls_limits := (ls_limits ls)\<lparr>pl_all := all\<rparr>\<rparr>
           in if \<not> ok then (error_response 429 ''too many requests, try again later'', ls1)
              else after_handler now ip response ls1))"

section \<open>The export links\<close>

definition TOKEN_KEY :: string where "TOKEN_KEY = ''alive_export_token''"
definition EXPORT_TTL_SECS :: int where "EXPORT_TTL_SECS = 30"

definition ensure_token :: "string \<Rightarrow> Store \<Rightarrow> string \<times> Store" where
  "ensure_token new_id st =
     (case meta_get st TOKEN_KEY of Some token \<Rightarrow> (token, st) | None \<Rightarrow> (new_id, meta_set TOKEN_KEY new_id st))"

definition rotate_token :: "string \<Rightarrow> Store \<Rightarrow> string \<times> Store" where
  "rotate_token new_id st = (new_id, meta_set TOKEN_KEY new_id st)"

fun tier_status :: "Tier \<Rightarrow> ProxyStatus" where
  "tier_status AliveTier = Alive"
| "tier_status ReadyTier = Ready"

text \<open>\<open>list_alive\<close> and \<open>list_ready\<close>: at least one row, whatever the limit.\<close>

definition list_tier :: "Tier \<Rightarrow> nat \<Rightarrow> Db \<Rightarrow> ProxyRow list" where
  "list_tier tier lim db =
     take (max lim 1) (sort_key r_id (filter (\<lambda>r. r_status r = tier_status tier \<and> linked db (r_id r)) (proxies db)))"

definition count_tier :: "Tier \<Rightarrow> Db \<Rightarrow> nat" where
  "count_tier tier db = length (filter (\<lambda>r. r_status r = tier_status tier \<and> linked db (r_id r)) (proxies db))"

definition tier_lines :: "('r, 's) engine \<Rightarrow> ProxyRow list \<Rightarrow> string list" where
  "tier_lines en rows =
     List.map_filter (\<lambda>r. case to_entry (en_from_text en) r of
         Inl _ \<Rightarrow> None | Inr e \<Rightarrow> Some (serialize (en_codecs en) e)) rows"

definition render_tier :: "('r, 's) engine \<Rightarrow> clock_text \<Rightarrow> Store \<Rightarrow> Tier \<Rightarrow> nat \<Rightarrow> int \<Rightarrow> int \<Rightarrow> Rendered" where
  "render_tier en ct st tier lim printed now =
     (let lines = tier_lines en (list_tier tier lim (st_db st)) in
      \<lparr>rd_status = 200,
       rd_body = url_list_header_block ct printed (''export/'' @ tier_name tier) 1 (length lines) @ join [LF] lines,
       rd_content_type = ''text/plain; charset=utf-8'', rd_extra_headers = [],
       rd_fresh_until = now + EXPORT_TTL_SECS, rd_source_ids = []\<rparr>)"

text \<open>
  What one request gets from the cache and leaves in it. The third argument is what it meets at the claim:
  \<open>None\<close> when it is the leader; otherwise whether its wait ended before the deadline, and the cache and the
  clock it then finds. The steps of many requests are in \<open>Cache_Exports\<close>; below, this is what a request
  does there.
\<close>

definition waited_render :: "bool \<Rightarrow> Caches \<Rightarrow> Tier \<Rightarrow> int \<Rightarrow> Rendered \<Rightarrow> Rendered \<times> Caches" where
  "waited_render woke c tier now fresh =
     (case (if woke then fresh_entry c tier now else None) of
        Some cached \<Rightarrow> (cached, c)
      | None \<Rightarrow> (fresh, processed_put c (cache_key tier) fresh))"

definition cached_render ::
  "Caches \<Rightarrow> Tier \<Rightarrow> int \<Rightarrow> (bool \<times> Caches \<times> int) option \<Rightarrow> Rendered \<Rightarrow> Rendered \<times> Caches" where
  "cached_render c tier now wait fresh =
     (case fresh_entry c tier now of
        Some cached \<Rightarrow> (cached, c)
      | None \<Rightarrow>
          (case wait of
             None \<Rightarrow> (fresh, processed_put c (cache_key tier) fresh)
           | Some (woke, c1, now1) \<Rightarrow> waited_render woke c1 tier now1 fresh))"

text \<open>The gate of both links, up to the rendering.\<close>

definition link_not_found :: Response where
  "link_not_found = error_response 404 ''link not found''"

definition export_gate :: "Store \<Rightarrow> string list \<Rightarrow> header_map \<Rightarrow> string \<Rightarrow> (string \<rightharpoonup> string) \<Rightarrow> Response option" where
  "export_gate st allowed_hosts headers token query =
     (case validate_request_host headers allowed_hosts of
        Inl _ \<Rightarrow> Some link_not_found
      | Inr _ \<Rightarrow>
          if query ''format'' \<noteq> None
          then Some (error_response 400 ''the ?format= parameter is not supported: the export is always a plain url_list'')
          else (case meta_get st TOKEN_KEY of
                  None \<Rightarrow> Some link_not_found
                | Some expected \<Rightarrow>
                    if ct_eq expected token then None
                    else Some (link_not_found\<lparr>rs_auth_failure := Some ''export capability token''\<rparr>)))"

definition CONTENT_DISPOSITION :: string where "CONTENT_DISPOSITION = ''content-disposition''"

definition download_response :: "Tier \<Rightarrow> string \<Rightarrow> (string \<rightharpoonup> string) \<Rightarrow> Rendered \<Rightarrow> Response" where
  "download_response tier date query rendered =
     (let response = to_response rendered in
      if query ''download'' = None then response
      else (case header_value (''attachment; filename='' @ [DQUOTE] @ ''fumox-'' @ tier_name tier @ ''-'' @ date @ ''.txt'' @ [DQUOTE]) of
              Some v \<Rightarrow> response\<lparr>rs_headers := obj_insert CONTENT_DISPOSITION v (rs_headers response)\<rparr>
            | None \<Rightarrow> response))"

definition serve_tier ::
  "('r, 's) engine \<Rightarrow> clock_text \<Rightarrow> Store \<Rightarrow> string list \<Rightarrow> nat \<Rightarrow> header_map \<Rightarrow> string \<Rightarrow> (string \<rightharpoonup> string) \<Rightarrow> Tier \<Rightarrow>
   string \<Rightarrow> int \<Rightarrow> Caches \<Rightarrow> (bool \<times> Caches \<times> int) option \<Rightarrow> Response \<times> Caches" where
  "serve_tier en ct st allowed_hosts max_rows headers token query tier date now c wait =
     (case export_gate st allowed_hosts headers token query of
        Some refused \<Rightarrow> (refused, c)
      | None \<Rightarrow>
          (let (rendered, c1) = cached_render c tier now wait (render_tier en ct st tier max_rows now now)
           in (download_response tier date query rendered, c1)))"

section \<open>One download\<close>

text \<open>A request that is alone from its lookup to its end: \<open>cached_render\<close> without a wait.\<close>

lemma export_alone:
  assumes "exports w t = Some (ExLookup tier)" "env_result e = RenderOk fresh" "\<not> env_contended e"
    and "map_of (inline_rendering (wide_caches w)) (cache_key tier) = None"
  shows "\<exists>n w'. run_wide (replicate n (ExportStep t e)) w = Some w' \<and> exports w' t = Some ExFinished \<and>
    ex_answers w' t = Some (Served (fst (cached_render (wide_caches w) tier (env_now e) None fresh))) \<and>
    processed (wide_caches w') = processed (snd (cached_render (wide_caches w) tier (env_now e) None fresh)) \<and>
    inline_rendering (wide_caches w') = inline_rendering (wide_caches w)"
proof (cases "fresh_entry (wide_caches w) tier (env_now e)")
  case (Some r)
  then show ?thesis using assms(1)
    by (intro exI [of _ 1]) (simp add: export_lookup_def cached_render_def)
next
  case None
  have gone: "AList.delete (cache_key tier) (inline_rendering (wide_caches w)) = inline_rendering (wide_caches w)"
    using assms(4) by (simp add: delete_idem map_of_eq_None_iff)
  show ?thesis using assms None gone
    by (intro exI [of _ 6])
      (simp add: numeral_eq_Suc export_lookup_def export_claim_def begin_inline_render_def export_rendered_def
        export_put_def export_end_def export_drop_def drop_claim_def drop_inline_def processed_put_def
        cached_render_def update_conv' delete_update_same)
qed

text \<open>A request at the end of its wait, whether the deadline passed or the leader is gone.\<close>

lemma export_waited:
  assumes "exports w t = Some (ExWaiting tier ch seen)" "env_result e = RenderOk fresh"
    and "ch_closed (channels (served w) ch)"
  shows "\<exists>n w'. run_wide (replicate n (ExportStep t e)) w = Some w' \<and> exports w' t = Some ExFinished \<and>
    ex_answers w' t = Some (Served (fst (waited_render (\<not> env_timeout e) (wide_caches w) tier (env_now e) fresh))) \<and>
    wide_caches w' = snd (waited_render (\<not> env_timeout e) (wide_caches w) tier (env_now e) fresh)"
proof (cases "if env_timeout e then None else fresh_entry (wide_caches w) tier (env_now e)")
  case (Some r)
  then show ?thesis using assms
    by (intro exI [of _ 2])
      (auto simp: numeral_eq_Suc export_wait_def export_lookup_def waited_render_def split: if_splits)
next
  case None
  show ?thesis
  proof (cases "env_timeout e")
    case True
    then show ?thesis using assms
      by (intro exI [of _ 3])
        (simp add: numeral_eq_Suc export_wait_def export_rendered_def export_put_def export_end_def waited_render_def)
  next
    case False
    then show ?thesis using assms None
      by (intro exI [of _ 4])
        (simp add: numeral_eq_Suc export_wait_def export_lookup_def export_rendered_def export_put_def
          export_end_def waited_render_def)
  qed
qed

section \<open>Guesses are bounded\<close>

text \<open>
  A run of the listener: requests, each with what its handler answers, and evictions of entries of the two
  limiter caches, which the cache library chooses.
\<close>

record Knock =
  kn_time :: nat
  kn_peer :: "socket_addr option"
  kn_headers :: header_map
  kn_reply :: Response

datatype listener_event = Ask Knock | EvictHits string nat | EvictFailures string nat

fun event_time :: "listener_event \<Rightarrow> nat" where
  "event_time (Ask k) = kn_time k"
| "event_time (EvictHits key t) = t"
| "event_time (EvictFailures key t) = t"

definition knock_key :: "ip_net list \<Rightarrow> Knock \<Rightarrow> string option" where
  "knock_key cidrs k = map_option (\<lambda>a. show_ip (client_key a (kn_headers k) cidrs)) (kn_peer k)"

definition answer_knock :: "ip_net list \<Rightarrow> Knock \<Rightarrow> Listener \<Rightarrow> Response \<times> Listener" where
  "answer_knock cidrs k = public_rate_limit (kn_time k) (kn_peer k) (kn_headers k) cidrs (kn_reply k)"

definition evict_hits :: "string \<Rightarrow> Listener \<Rightarrow> Listener" where
  "evict_hits key ls = ls\<lparr>ls_limits := (ls_limits ls)\<lparr>pl_all := evict_counter key (pl_all (ls_limits ls))\<rparr>\<rparr>"

definition evict_failures :: "string \<Rightarrow> Listener \<Rightarrow> Listener" where
  "evict_failures key ls =
     ls\<lparr>ls_limits := (ls_limits ls)\<lparr>pl_auth_failures := evict_counter key (pl_auth_failures (ls_limits ls))\<rparr>\<rparr>"

text \<open>The requests of a run, in order, each with the client key and the status of its reply.\<close>

fun serve_knocks :: "ip_net list \<Rightarrow> listener_event list \<Rightarrow> Listener \<Rightarrow> (string option \<times> nat) list" where
  "serve_knocks cidrs [] ls = []"
| "serve_knocks cidrs (Ask k # es) ls =
     (let (reply, ls1) = answer_knock cidrs k ls in (knock_key cidrs k, rs_status reply) # serve_knocks cidrs es ls1)"
| "serve_knocks cidrs (EvictHits key t # es) ls = serve_knocks cidrs es (evict_hits key ls)"
| "serve_knocks cidrs (EvictFailures key t # es) ls = serve_knocks cidrs es (evict_failures key ls)"

text \<open>What these events do to the window of failures.\<close>

fun failure_hits :: "ip_net list \<Rightarrow> listener_event list \<Rightarrow> Listener \<Rightarrow> rl_op list" where
  "failure_hits cidrs [] ls = []"
| "failure_hits cidrs (Ask k # es) ls =
     (let rest = failure_hits cidrs es (snd (answer_knock cidrs k ls)) in
      case knock_key cidrs k of
        None \<Rightarrow> rest
      | Some ip \<Rightarrow>
          if fst (allow (kn_time k) ip (pl_all (ls_limits ls))) \<and> rs_status (kn_reply k) = 403
          then Allow ip (kn_time k) # rest else rest)"
| "failure_hits cidrs (EvictHits key t # es) ls = failure_hits cidrs es (evict_hits key ls)"
| "failure_hits cidrs (EvictFailures key t # es) ls = Evicted key t # failure_hits cidrs es (evict_failures key ls)"

text \<open>The replies 403 a client gets, the client keys of a run, and how often the failures of one are evicted.\<close>

definition refused_replies :: "string \<Rightarrow> ip_net list \<Rightarrow> listener_event list \<Rightarrow> Listener \<Rightarrow> nat" where
  "refused_replies key cidrs es ls = length (filter (\<lambda>(k, status). k = Some key \<and> status = 403) (serve_knocks cidrs es ls))"

definition client_keys :: "ip_net list \<Rightarrow> listener_event list \<Rightarrow> string list" where
  "client_keys cidrs es = List.map_filter (\<lambda>e. case e of Ask k \<Rightarrow> knock_key cidrs k | _ \<Rightarrow> None) es"

definition failure_evictions :: "string \<Rightarrow> listener_event list \<Rightarrow> nat" where
  "failure_evictions key es = length (filter (\<lambda>e. case e of EvictFailures k _ \<Rightarrow> k = key | _ \<Rightarrow> False) es)"

lemma limit_outcome:
  "public_rate_limit now (Some addr) headers cidrs response ls =
     (let ip = show_ip (client_key addr headers cidrs) in
      if fst (allow now ip (pl_all (ls_limits ls))) then
        after_handler now ip response (ls\<lparr>ls_limits := (ls_limits ls)\<lparr>pl_all := snd (allow now ip (pl_all (ls_limits ls)))\<rparr>\<rparr>)
      else (error_response 429 ''too many requests, try again later'',
        ls\<lparr>ls_limits := (ls_limits ls)\<lparr>pl_all := snd (allow now ip (pl_all (ls_limits ls)))\<rparr>\<rparr>))"
  by (simp add: public_rate_limit_def Let_def split_beta)

lemma after_handler_failures:
  "rs_status (fst (after_handler now ip response ls)) = 403 \<longleftrightarrow>
     rs_status response = 403 \<and> fst (allow now ip (pl_auth_failures (ls_limits ls)))"
  "pl_auth_failures (ls_limits (snd (after_handler now ip response ls))) =
     (if rs_status response = 403 then snd (allow now ip (pl_auth_failures (ls_limits ls))) else pl_auth_failures (ls_limits ls))"
  by (auto simp: after_handler_def Let_def split_beta error_response_def split: option.split)

text \<open>One request: the reply is 403 exactly when its hit on the window of failures is allowed.\<close>

lemma knock_outcome:
  assumes "knock_key cidrs k = Some ip"
  shows "rs_status (fst (answer_knock cidrs k ls)) = 403 \<longleftrightarrow>
      fst (allow (kn_time k) ip (pl_all (ls_limits ls))) \<and> rs_status (kn_reply k) = 403 \<and>
      fst (allow (kn_time k) ip (pl_auth_failures (ls_limits ls)))"
    "pl_auth_failures (ls_limits (snd (answer_knock cidrs k ls))) =
      (if fst (allow (kn_time k) ip (pl_all (ls_limits ls))) \<and> rs_status (kn_reply k) = 403
       then snd (allow (kn_time k) ip (pl_auth_failures (ls_limits ls))) else pl_auth_failures (ls_limits ls))"
proof -
  obtain addr where "kn_peer k = Some addr" "ip = show_ip (client_key addr (kn_headers k) cidrs)"
    using assms by (auto simp: knock_key_def)
  then show "rs_status (fst (answer_knock cidrs k ls)) = 403 \<longleftrightarrow>
      fst (allow (kn_time k) ip (pl_all (ls_limits ls))) \<and> rs_status (kn_reply k) = 403 \<and>
      fst (allow (kn_time k) ip (pl_auth_failures (ls_limits ls)))"
    "pl_auth_failures (ls_limits (snd (answer_knock cidrs k ls))) =
      (if fst (allow (kn_time k) ip (pl_all (ls_limits ls))) \<and> rs_status (kn_reply k) = 403
       then snd (allow (kn_time k) ip (pl_auth_failures (ls_limits ls))) else pl_auth_failures (ls_limits ls))"
    by (auto simp: answer_knock_def limit_outcome Let_def after_handler_failures error_response_def)
qed

lemma unkeyed_knock: "knock_key cidrs k = None \<Longrightarrow> snd (answer_knock cidrs k ls) = ls"
  by (simp add: knock_key_def answer_knock_def public_rate_limit_def)

lemma refused_replies_accepted:
  "refused_replies key cidrs es ls = accepted key (failure_hits cidrs es ls) (pl_auth_failures (ls_limits ls))"
proof (induction cidrs es ls rule: failure_hits.induct)
  case (2 cidrs k es ls)
  show ?case
  proof (cases "knock_key cidrs k")
    case None
    then show ?thesis using 2 by (simp add: refused_replies_def split_beta Let_def unkeyed_knock)
  next
    case (Some ip)
    then show ?thesis using 2 knock_outcome [OF Some, of ls]
      by (auto simp: refused_replies_def split_beta Let_def)
  qed
qed (simp_all add: refused_replies_def evict_hits_def evict_failures_def)

lemma failure_hits_times:
  "op \<in> set (failure_hits cidrs es ls) \<Longrightarrow>
     op_time op \<in> event_time ` set es \<and> \<not> is_refund op \<and> (is_eviction op \<or> op_key op \<in> set (client_keys cidrs es))"
  by (induction cidrs es ls rule: failure_hits.induct)
    (auto simp: Let_def client_keys_def List.map_filter_def split: option.splits if_splits)

lemma failure_hits_length: "length (failure_hits cidrs es ls) \<le> length es"
  by (induction cidrs es ls rule: failure_hits.induct) (auto simp: Let_def le_SucI split: option.split)

lemma wider_limit: "unat (ucast (l :: 32 word) :: u64) = unat l"
  by transfer (simp add: take_bit_eq_mod)

lemma failure_hits_evictions: "evictions key (failure_hits cidrs es ls) = failure_evictions key es"
  by (induction cidrs es ls rule: failure_hits.induct) (auto simp: Let_def failure_evictions_def split: option.split)

text \<open>
  C6: a client cannot try tokens faster than the windows of failures allow. From the start of the listener
  with the limits of its configuration, over \<open>n\<close> windows of \<open>auth_fail_rate_limit\<close>, whatever the requests, their
  order and their mix with other clients', a client gets at most \<open>n\<close> times that limit replies 403, the reply that
  tells a guess was wrong; past that it sees 429. This holds as long as no more than 100000 client keys are
  seen: beyond that the cache of the limiter may drop a client's counter, and each time it does the client can
  start over.
\<close>

theorem token_guesses_bounded:
  assumes "list_all (\<lambda>e. t0 \<le> event_time e \<and> event_time e < t0 + n * rt_window auth_fail_rate_limit) es"
    and "length es < 2 ^ 64" "ls_limits ls = limits_from_config rate_limit auth_fail_rate_limit"
  shows "refused_replies key cidrs es ls \<le> n * unat (rt_limit auth_fail_rate_limit) *
    (1 + (if card (set (client_keys cidrs es)) \<le> MAX_LIMITER_KEYS then 0 else failure_evictions key es))"
proof -
  let ?ops = "failure_hits cidrs es ls" and ?rl = "pl_auth_failures (ls_limits ls)"
  let ?kept = "filter (\<lambda>op. \<not> is_eviction op) ?ops"
  have fresh: "counters ?rl = Map.empty" "window ?rl = rt_window auth_fail_rate_limit"
    "unat (limit ?rl) = unat (rt_limit auth_fail_rate_limit)"
    using assms(3) by (simp_all add: limits_from_config_def new_limiter_def wider_limit)
  have times: "\<forall>op\<in>set ?ops. t0 \<le> op_time op \<and> op_time op < t0 + n * window ?rl"
    using assms(1) failure_hits_times [of _ cidrs es ls] by (fastforce simp: list_all_iff fresh(2))
  have none: "refunds key ?ops = 0" "refunds key ?kept = 0" "evictions key ?kept = 0"
    using failure_hits_times by (auto simp: refunds_def evictions_def filter_empty_conv)
  have few: "hits key ?ops < 2 ^ 64" "hits key ?kept < 2 ^ 64"
  proof -
    have "hits key ?ops \<le> length ?ops" "hits key ?kept \<le> length ?kept" by (simp_all only: hits_def length_filter_le)
    moreover have "length ?kept \<le> length ?ops" by simp
    ultimately show "hits key ?ops < 2 ^ 64" "hits key ?kept < 2 ^ 64"
      using assms(2) failure_hits_length [of cidrs es ls] by linarith+
  qed
  have all: "accepted key ?ops ?rl \<le> n * unat (limit ?rl) * (1 + failure_evictions key es)"
    using accepted_windows [OF _ times few(1)] none(1) fresh(1) by (simp add: failure_hits_evictions)
  have kept: "accepted key ?ops ?rl \<le> n * unat (limit ?rl)" if "card (set (client_keys cidrs es)) \<le> MAX_LIMITER_KEYS"
  proof -
    have "accepted key ?ops ?rl = accepted key ?kept ?rl"
      using failure_hits_times fresh(1) by (intro nothing_evicted [OF finite_set that]) auto
    also have "\<dots> \<le> n * unat (limit ?rl)"
      using accepted_windows [of ?rl key ?kept t0 n] times few(2) none(2,3) fresh(1) by simp
    finally show ?thesis .
  qed
  show ?thesis using all kept by (simp add: refused_replies_accepted fresh(3))
qed

definition sample_knock :: "nat \<Rightarrow> listener_event" where
  "sample_knock t = Ask \<lparr>kn_time = t, kn_peer = Some (SocketAddr (V4 (Ipv4 9 9 9 9)) 1), kn_headers = [],
     kn_reply = error_response 403 ''access token is missing or invalid''\<rparr>"

definition sample_listener :: Listener where
  "sample_listener = \<lparr>ls_limits = limits_from_config \<lparr>rt_limit = 60, rt_window = 60\<rparr> \<lparr>rt_limit = 2, rt_window = 10\<rparr>,
     ls_auth_log = new_warn_log\<rparr>"

lemma sample_key:
  "knock_key [] \<lparr>kn_time = t, kn_peer = Some (SocketAddr (V4 (Ipv4 9 9 9 9)) 1), kn_headers = [], kn_reply = r\<rparr> =
     Some (show_ip (V4 (Ipv4 9 9 9 9)))"
  by (simp add: knock_key_def client_key_def)

theorem token_guesses_bounded_witness:
  "map snd (serve_knocks [] (map sample_knock [0, 1, 2, 11, 12, 13]) sample_listener) = [403, 403, 429, 403, 403, 429] \<and>
   refused_replies (show_ip (V4 (Ipv4 9 9 9 9))) [] (map sample_knock [0, 1, 2, 11, 12, 13]) sample_listener \<le> 4"
proof
  show "map snd (serve_knocks [] (map sample_knock [0, 1, 2, 11, 12, 13]) sample_listener) = [403, 403, 429, 403, 403, 429]"
    by (simp add: sample_knock_def sample_listener_def answer_knock_def limit_outcome client_key_def after_handler_def
        error_response_def allow_def refund_def limits_from_config_def new_limiter_def get_counter_def Let_def saturating_sub1_def)
  have keys: "set (client_keys [] (map sample_knock [0, 1, 2, 11, 12, 13])) = {show_ip (V4 (Ipv4 9 9 9 9))}"
    by (simp add: client_keys_def List.map_filter_def sample_knock_def sample_key)
  show "refused_replies (show_ip (V4 (Ipv4 9 9 9 9))) [] (map sample_knock [0, 1, 2, 11, 12, 13]) sample_listener \<le> 4"
    using token_guesses_bounded [of 0 2 "\<lparr>rt_limit = 2, rt_window = 10\<rparr>" "map sample_knock [0, 1, 2, 11, 12, 13]" sample_listener
        "\<lparr>rt_limit = 60, rt_window = 60\<rparr>" "show_ip (V4 (Ipv4 9 9 9 9))" "[]"] keys
    by (simp add: sample_knock_def [of 0] sample_knock_def sample_listener_def MAX_LIMITER_KEYS_def)
qed

section \<open>Who gets an export\<close>

text \<open>
  An export link is answered exactly when the host is admitted, no format is asked for, and the token of
  the path is the stored one; every other request changes nothing in the cache.
\<close>

theorem export_gate_exact:
  "export_gate st allowed_hosts headers token query = None \<longleftrightarrow>
     validate_request_host headers allowed_hosts = Inr () \<and> query ''format'' = None \<and> meta_get st TOKEN_KEY = Some token"
  by (auto simp: export_gate_def ct_eq_exact split: sum.splits option.splits)

lemma rotated_link_dies:
  "token \<noteq> new_id \<Longrightarrow> export_gate (snd (rotate_token new_id st)) allowed_hosts headers token query \<noteq> None"
  by (simp add: export_gate_exact rotate_token_def meta_get_def meta_set_def)

lemma export_whole_tier: "length (list_tier tier lim db) = min (max lim 1) (count_tier tier db)"
  by (simp add: list_tier_def count_tier_def)

text \<open>
  A request with a format tells an admitted host from a refused one before any token is checked, which the
  identical replies are meant to prevent.
\<close>

theorem format_probe_distinguishes:
  assumes "query ''format'' \<noteq> None" "validate_request_host good allowed_hosts = Inr ()"
    "validate_request_host bad allowed_hosts = Inl e"
  shows "map_option rs_status (export_gate st allowed_hosts good token query) = Some 400 \<and>
    map_option rs_status (export_gate st allowed_hosts bad token query) = Some 404"
  using assms by (simp add: export_gate_def link_not_found_def error_response_def)

section \<open>The budget of warnings\<close>

text \<open>The verdicts of a run of failures, all at one time.\<close>

fun warn_run :: "(nat \<Rightarrow> string \<Rightarrow> string) \<Rightarrow> nat \<Rightarrow> string list \<Rightarrow> WarnLog \<Rightarrow> bool list \<times> WarnLog" where
  "warn_run summary now [] wl = ([], wl)"
| "warn_run summary now (c # cs) wl =
     (let ((warn, due), wl1) = should_warn summary c now wl; (warns, wl2) = warn_run summary now cs wl1 in (warn # warns, wl2))"

text \<open>A client that is new to the registry is charged to the budget of the window.\<close>

lemma rewarn_free:
  assumes "map_of (wl_seen wl) who = Some first" "now - first \<ge> AUTH_FAIL_WARN_WINDOW" "wl_window_start wl \<noteq> None"
  shows "fst (fst (should_warn summary who now wl))"
    "map_of (wl_seen (snd (should_warn summary who now wl))) = (map_of (wl_seen wl))(who \<mapsto> now)"
    "wl_window_start (snd (should_warn summary who now wl)) \<noteq> None"
  using assms by (auto simp: should_warn_def roll_window_def update_conv' split: option.splits)

lemma rewarn_all:
  assumes "distinct cs" "\<forall>c\<in>set cs. \<exists>first. map_of (wl_seen wl) c = Some first \<and> now - first \<ge> AUTH_FAIL_WARN_WINDOW"
    "wl_window_start wl \<noteq> None"
  shows "fst (warn_run summary now cs wl) = replicate (length cs) True"
  using assms
proof (induction cs arbitrary: wl)
  case (Cons c cs)
  from Cons.prems(2) obtain first where c: "map_of (wl_seen wl) c = Some first" "now - first \<ge> AUTH_FAIL_WARN_WINDOW" by auto
  note step = rewarn_free [OF c Cons.prems(3), of summary]
  have "\<forall>d\<in>set cs. \<exists>first. map_of (wl_seen (snd (should_warn summary c now wl))) d = Some first \<and> now - first \<ge> AUTH_FAIL_WARN_WINDOW"
    using Cons.prems(1,2) step(2) by auto
  from Cons.IH [OF _ this step(3)] Cons.prems(1) step(1) show ?case by (simp add: split_beta Let_def)
qed simp

lemma update_new_length: "map_of al k = None \<Longrightarrow> length (AList.update k v al) = Suc (length al)"
  by (induction al) (auto split: if_splits)

lemma first_round:
  assumes "distinct cs" "length (wl_seen wl) + length cs \<le> AUTH_FAIL_MAX_TRACKED" "\<forall>c\<in>set cs. map_of (wl_seen wl) c = None"
    "wl_window_start wl = None \<or> wl_window_start wl = Some now"
  shows "map_of (wl_seen (snd (warn_run summary now cs wl))) = (\<lambda>c. if c \<in> set cs then Some now else map_of (wl_seen wl) c) \<and>
    (cs = [] \<or> wl_window_start (snd (warn_run summary now cs wl)) = Some now)"
  using assms
proof (induction cs arbitrary: wl)
  case (Cons c cs)
  let ?w = "snd (should_warn summary c now wl)"
  have new: "map_of (wl_seen wl) c = None" "length (wl_seen wl) < AUTH_FAIL_MAX_TRACKED" using Cons.prems by auto
  have seen: "wl_seen ?w = AList.update c now (wl_seen wl)" and start: "wl_window_start ?w = Some now"
    using new Cons.prems(4) by (auto simp: should_warn_def roll_window_def AUTH_FAIL_WARN_WINDOW_def Let_def split: option.splits)
  have len: "length (AList.update c now (wl_seen wl)) = Suc (length (wl_seen wl))"
    by (rule update_new_length [OF new(1)])
  have "distinct cs" "length (wl_seen ?w) + length cs \<le> AUTH_FAIL_MAX_TRACKED" "\<forall>d\<in>set cs. map_of (wl_seen ?w) d = None"
    using Cons.prems by (auto simp: seen len update_conv')
  from Cons.IH [OF this] start show ?case
    by (auto simp: split_beta Let_def seen update_conv' fun_eq_iff)
qed simp

text \<open>
  The budget of 64 warnings per window is not one. Any number of clients up to the size of the registry, all
  of which failed one window ago, are all warned about in one window: a client that is still in the registry
  is warned about again without being charged.
\<close>

theorem warn_budget_exceeded:
  assumes "distinct cs" "length cs \<le> 1024" "now \<ge> t0 + 3600"
  shows "fst (warn_run summary now cs (snd (warn_run summary t0 cs new_warn_log))) = replicate (length cs) True"
proof (cases "cs = []")
  case False
  have new: "distinct cs" "length (wl_seen new_warn_log) + length cs \<le> AUTH_FAIL_MAX_TRACKED"
    "\<forall>c\<in>set cs. map_of (wl_seen new_warn_log) c = None" "wl_window_start new_warn_log = None \<or> wl_window_start new_warn_log = Some t0"
    using assms by (simp_all add: new_warn_log_def AUTH_FAIL_MAX_TRACKED_def)
  from first_round [OF new, of summary] False
  show ?thesis using assms(3) by (intro rewarn_all [OF assms(1)]) (auto simp: AUTH_FAIL_WARN_WINDOW_def)
qed simp

end
