(* ===== verification/Probe_Checks.thy ===== *)
theory Probe_Checks
  imports Writer_Agreement Engine Ssrf Lifecycle
begin

text \<open>
  One check of the probe: the connectivity check of \<open>fumox-probe/src/t1.rs\<close>, the client of the tunnel
  engine of \<open>meow.rs\<close> and the configuration \<open>clash.rs\<close> generates for a batch. The network is a parameter:
  what a dial, a handshake and a request to the engine end with.
\<close>

section \<open>T1\<close>

datatype CheckKind = CkTcp | CkTls

fun check_kind_text :: "CheckKind \<Rightarrow> string" where
  "check_kind_text CkTcp = ''tcp''"
| "check_kind_text CkTls = ''tls''"

text \<open>\<open>value_text\<close> is the display of a JSON value that is not a string.\<close>

definition param_text :: "(json \<Rightarrow> string) \<Rightarrow> (string \<times> json) list \<Rightarrow> string \<Rightarrow> string option" where
  "param_text value_text params key =
     (case find (\<lambda>(k, v). eq_ignore_ascii_case k key) params of
        None \<Rightarrow> None
      | Some (k, v) \<Rightarrow>
          (let t = trim (case v of JString s \<Rightarrow> s | other \<Rightarrow> value_text other)
           in if t = [] then None else Some t))"

definition params_enable_tls ::
  "(string \<Rightarrow> string + (string \<times> json) list) \<Rightarrow> (json \<Rightarrow> string) \<Rightarrow> string option \<Rightarrow> bool" where
  "params_enable_tls from_text value_text params_json =
     (case params_json of
        None \<Rightarrow> False
      | Some t \<Rightarrow>
          (case from_text t of
             Inl e \<Rightarrow> False
           | Inr params \<Rightarrow>
               (case param_text value_text params ''security'' of
                  Some v \<Rightarrow> eq_ignore_ascii_case v ''tls'' \<or> eq_ignore_ascii_case v ''reality''
                | None \<Rightarrow> False) \<or>
               (case param_text value_text params ''tls'' of
                  Some v \<Rightarrow> to_ascii_lowercase v \<in> {''tls'', ''1'', ''true'', ''yes'', ''on''}
                | None \<Rightarrow> False)))"

definition check_kind ::
  "(string \<Rightarrow> string + (string \<times> json) list) \<Rightarrow> (json \<Rightarrow> string) \<Rightarrow> Scheme \<Rightarrow> string option \<Rightarrow> CheckKind" where
  "check_kind from_text value_text scheme params_json =
     (case scheme of
        Trojan \<Rightarrow> CkTls | Naive \<Rightarrow> CkTls
      | Vless \<Rightarrow> if params_enable_tls from_text value_text params_json then CkTls else CkTcp
      | Vmess \<Rightarrow> if params_enable_tls from_text value_text params_json then CkTls else CkTcp
      | Ss \<Rightarrow> CkTcp | Socks5 \<Rightarrow> CkTcp | Snell \<Rightarrow> CkTcp
      | Hysteria2 \<Rightarrow> CkTcp | Tuic \<Rightarrow> CkTcp | Mieru \<Rightarrow> CkTcp
      | AnyTls \<Rightarrow> CkTls)"

record Target =
  tg_host :: string
  tg_port :: u16
  tg_kind :: CheckKind
  tg_vetted :: "ip_addr list"

datatype attempt = Done | Broke string | TimedOut

text \<open>The network of one check; \<open>bad_name\<close> is the error of a host that is no TLS server name.\<close>

record T1Net =
  tn_connect :: "socket_addr \<Rightarrow> attempt"
  tn_bad_name :: "string \<Rightarrow> string option"
  tn_handshake :: "socket_addr \<Rightarrow> string \<Rightarrow> attempt"
  tn_elapsed_ms :: nat

fun dial_loop :: "T1Net \<Rightarrow> nat \<Rightarrow> u16 \<Rightarrow> string \<Rightarrow> ip_addr list \<Rightarrow> string + socket_addr" where
  "dial_loop nw secs port last_error [] = Inl last_error"
| "dial_loop nw secs port last_error (ip # ips) =
     (case tn_connect nw (SocketAddr ip port) of
        Done \<Rightarrow> Inr (SocketAddr ip port)
      | Broke e \<Rightarrow> dial_loop nw secs port (''tcp connect failed: '' @ e) ips
      | TimedOut \<Rightarrow> dial_loop nw secs port (''tcp connect timed out after '' @ dec_nat secs @ ''s'') ips)"

definition t1_run :: "T1Net \<Rightarrow> Target \<Rightarrow> nat \<Rightarrow> nat \<Rightarrow> string + nat" where
  "t1_run nw target connect_secs tls_secs =
     bind_res (dial_loop nw connect_secs (tg_port target) ''no vetted address to connect to'' (tg_vetted target)) (\<lambda>addr.
       if tg_kind target = CkTcp then Inr (tn_elapsed_ms nw)
       else (case tn_bad_name nw (tg_host target) of
               Some e \<Rightarrow> Inl (''invalid TLS server name '' @ tg_host target @ '': '' @ e)
             | None \<Rightarrow>
                 (case tn_handshake nw addr (tg_host target) of
                    Done \<Rightarrow> Inr (tn_elapsed_ms nw)
                  | Broke e \<Rightarrow> Inl (''tls handshake failed: '' @ e)
                  | TimedOut \<Rightarrow> Inl (''tls handshake timed out after '' @ dec_nat tls_secs @ ''s''))))"

section \<open>The client of the tunnel engine\<close>

text \<open>An answer of the engine: a transport error, or a status with a body that may not be JSON.\<close>

datatype http_answer = NoAnswer string | Answer nat "string + json"

datatype DelayOutcome = DelayOk nat | ProxyFailed string | ServiceUnavailable string

definition is_success :: "nat \<Rightarrow> bool" where
  "is_success status \<longleftrightarrow> 200 \<le> status \<and> status \<le> 299"

definition body_get :: "json \<Rightarrow> string \<Rightarrow> json option" where
  "body_get body key = Option.bind (as_object body) (\<lambda>m. map_of m key)"

fun as_u64 :: "json \<Rightarrow> nat option" where
  "as_u64 (JInt n) = (if 0 \<le> n \<and> n < 2 ^ 64 then Some (nat n) else None)"
| "as_u64 _ = None"

definition text_or :: "string \<Rightarrow> json option \<Rightarrow> string" where
  "text_or d v = (case Option.bind v json_str of Some t \<Rightarrow> t | None \<Rightarrow> d)"

text \<open>\<open>status_text\<close> is the display of a status.\<close>

definition ping :: "(nat \<Rightarrow> string) \<Rightarrow> http_answer \<Rightarrow> string + string" where
  "ping status_text a =
     (case a of
        NoAnswer e \<Rightarrow> Inl (''meow-rs unreachable: '' @ e)
      | Answer status content \<Rightarrow>
          if \<not> is_success status then Inl (''meow-rs /version returned '' @ status_text status)
          else (case content of
                  Inl e \<Rightarrow> Inl (''bad /version payload: '' @ e)
                | Inr body \<Rightarrow> Inr (text_or ''unknown'' (body_get body ''version''))))"

definition reload_config :: "(nat \<Rightarrow> string) \<Rightarrow> (string + nat \<times> string) \<Rightarrow> string + unit" where
  "reload_config status_text a =
     (case a of
        Inl e \<Rightarrow> Inl (''meow-rs unreachable: '' @ e)
      | Inr (status, body) \<Rightarrow>
          if is_success status then Inr ()
          else Inl (''PUT /configs returned '' @ status_text status @ '': '' @ body))"

definition check_delay :: "(nat \<Rightarrow> string) \<Rightarrow> http_answer \<Rightarrow> DelayOutcome" where
  "check_delay status_text a =
     (case a of
        NoAnswer e \<Rightarrow> ServiceUnavailable (''transport error: '' @ e)
      | Answer status content \<Rightarrow>
          (case content of
             Inl e \<Rightarrow> ServiceUnavailable (''bad delay payload: '' @ e)
           | Inr body \<Rightarrow>
               if is_success status then
                 (case Option.bind (body_get body ''delay'') as_u64 of
                    Some d \<Rightarrow> DelayOk d
                  | None \<Rightarrow> ServiceUnavailable ''delay response has no delay field'')
               else
                 (let message = text_or ''unknown error'' (body_get body ''message'') in
                  if status = 503 \<or> status = 504 then ProxyFailed message
                  else if 400 \<le> status \<and> status \<le> 499 then ProxyFailed message
                  else ServiceUnavailable (status_text status @ '': '' @ message))))"

text \<open>The attempts still to make, and the answer each of them gets.\<close>

fun retry_loop :: "(nat \<Rightarrow> string) \<Rightarrow> string \<Rightarrow> http_answer list \<Rightarrow> DelayOutcome" where
  "retry_loop status_text last_error [] = ServiceUnavailable last_error"
| "retry_loop status_text last_error (a # answers) =
     (case check_delay status_text a of
        DelayOk d \<Rightarrow> DelayOk d
      | ProxyFailed m \<Rightarrow> ProxyFailed m
      | ServiceUnavailable e \<Rightarrow> retry_loop status_text e answers)"

definition check_delay_with_retry :: "(nat \<Rightarrow> string) \<Rightarrow> (nat \<Rightarrow> http_answer) \<Rightarrow> nat \<Rightarrow> DelayOutcome" where
  "check_delay_with_retry status_text answers tries =
     retry_loop status_text [] (map answers [0..<tries])"

text \<open>
  \<open>/memory\<close> is an endless feed of lines whose first is a placeholder. A read ends with bytes, with an
  error or with the end of the feed; after the reads of the list nothing more comes before the deadline.
\<close>

datatype chunk = Bytes string | ReadFailed string | FeedEnds

record MeowMemory =
  mm_rss_bytes :: nat
  mm_os_limit_bytes :: nat

fun drain_lines :: "nat \<Rightarrow> string \<Rightarrow> string \<Rightarrow> nat \<times> string \<times> string option" where
  "drain_lines seen line [] = (seen, line, None)"
| "drain_lines seen line (c # cs) =
     (if c \<noteq> CHR 0x0A then drain_lines seen (line @ [c]) cs
      else if seen + 1 < 2 then drain_lines (seen + 1) [] cs
      else (seen + 1, [], Some (line @ [c])))"

definition memory_frame :: "(string \<Rightarrow> string + json) \<Rightarrow> string \<Rightarrow> string + MeowMemory" where
  "memory_frame parse_json line =
     (case parse_json (trim line) of
        Inl e \<Rightarrow> Inl (''bad /memory frame: '' @ e)
      | Inr frame \<Rightarrow>
          Inr \<lparr>mm_rss_bytes = (case Option.bind (body_get frame ''inuse'') as_u64 of Some n \<Rightarrow> n | None \<Rightarrow> 0),
            mm_os_limit_bytes = (case Option.bind (body_get frame ''oslimit'') as_u64 of Some n \<Rightarrow> n | None \<Rightarrow> 0)\<rparr>)"

text \<open>\<open>line\<close> is what the buffer holds: it never holds a whole line between two reads.\<close>

fun memory_loop :: "(string \<Rightarrow> string + json) \<Rightarrow> nat \<Rightarrow> string \<Rightarrow> chunk list \<Rightarrow> string + MeowMemory" where
  "memory_loop parse_json seen line [] = Inl ''meow-rs /memory feed stalled before a sample''"
| "memory_loop parse_json seen line (ch # chs) =
     (case ch of
        ReadFailed e \<Rightarrow> Inl (''meow-rs /memory read failed: '' @ e)
      | FeedEnds \<Rightarrow> Inl ''meow-rs /memory feed closed early''
      | Bytes bs \<Rightarrow>
          (case drain_lines seen line bs of
             (seen', rest, None) \<Rightarrow> memory_loop parse_json seen' rest chs
           | (seen', rest, Some l) \<Rightarrow> memory_frame parse_json (from_utf8_lossy l)))"

definition memory :: "(nat \<Rightarrow> string) \<Rightarrow> (string \<Rightarrow> string + json) \<Rightarrow> (string + nat \<times> chunk list) \<Rightarrow> string + MeowMemory" where
  "memory status_text parse_json a =
     (case a of
        Inl e \<Rightarrow> Inl (''meow-rs unreachable: '' @ e)
      | Inr (status, feed) \<Rightarrow>
          if \<not> is_success status then Inl (''meow-rs /memory returned '' @ status_text status)
          else memory_loop parse_json 0 [] feed)"

section \<open>The configuration of a batch\<close>

definition proxy_name :: "nat \<Rightarrow> string" where
  "proxy_name proxy_id = ''fumox-'' @ dec_nat proxy_id"

definition t2_supported :: "Scheme \<Rightarrow> bool" where
  "t2_supported scheme \<longleftrightarrow> scheme \<in> {Vless, Vmess, Trojan, Ss, Hysteria2, Socks5, Snell, AnyTls}"

definition server_name_sources :: "Scheme \<Rightarrow> (string \<times> string list) option" where
  "server_name_sources scheme =
     (case scheme of
        Vless \<Rightarrow> Some (''servername'', [''servername'', ''sni''])
      | Vmess \<Rightarrow> Some (''servername'', [''servername'', ''sni''])
      | Trojan \<Rightarrow> Some (''sni'', [''sni'', ''servername''])
      | Hysteria2 \<Rightarrow> Some (''sni'', [''sni'', ''servername''])
      | AnyTls \<Rightarrow> Some (''sni'', [''sni'', ''servername''])
      | _ \<Rightarrow> None)"

definition own_server_name :: "ProxyEntry \<Rightarrow> string list \<Rightarrow> string option" where
  "own_server_name entry sources =
     find (\<lambda>v. v \<noteq> []) (map trim (List.map_filter (param_ignore_case entry) sources))"

definition carry_server_name :: "string \<Rightarrow> ProxyEntry \<Rightarrow> ProxyEntry" where
  "carry_server_name pre_pin_host entry =
     (case server_name_sources (pe_scheme entry) of
        None \<Rightarrow> entry
      | Some (key, sources) \<Rightarrow>
          if parse_ip pre_pin_host \<noteq> None then entry
          else (let name = (case own_server_name entry sources of Some n \<Rightarrow> n | None \<Rightarrow> pre_pin_host);
                    kept = filter (\<lambda>p. \<not> eq_ignore_ascii_case (p_key p) ''sni'' \<and>
                      \<not> eq_ignore_ascii_case (p_key p) ''servername'') (pe_params entry)
                in entry\<lparr>pe_params := kept @ [\<lparr>p_key = key, p_value = name, p_known = True\<rparr>]\<rparr>))"

definition pin_entry :: "(string \<rightharpoonup> ip_addr) \<Rightarrow> string \<Rightarrow> ProxyEntry \<Rightarrow> ProxyEntry" where
  "pin_entry pins host entry =
     (case pins host of
        None \<Rightarrow> entry
      | Some ip \<Rightarrow> (carry_server_name host entry)\<lparr>pe_host := show_ip ip\<rparr>)"

definition proxy_to_value :: "('r, 's) engine \<Rightarrow> (string \<rightharpoonup> ip_addr) \<Rightarrow> ProxyRow \<Rightarrow> yaml option" where
  "proxy_to_value en pins row =
     (case to_entry (en_from_text en) row of
        Inl e \<Rightarrow> None
      | Inr entry \<Rightarrow>
          if \<not> t2_supported (pe_scheme entry) then None
          else entry_to_clash_named (yaml_parse (en_codecs en)) (yaml_print (en_codecs en))
            (pin_entry pins (r_host row) entry) (proxy_name (r_id row)))"

definition batch_items :: "('r, 's) engine \<Rightarrow> (string \<rightharpoonup> ip_addr) \<Rightarrow> ProxyRow list \<Rightarrow> (nat \<times> yaml) list" where
  "batch_items en pins rows =
     List.map_filter (\<lambda>row. map_option (Pair (r_id row)) (proxy_to_value en pins row)) rows"

definition batch_root :: "bool \<Rightarrow> yaml list \<Rightarrow> yaml" where
  "batch_root ipv6 items =
     YMapping (yput ''proxies'' (YSequence items) (yput ''ipv6'' (YBool ipv6)
       (yput ''log-level'' (YString ''silent'') (yput ''mode'' (YString ''rule'')
         (yput ''allow-lan'' (YBool False) (yput ''socks-port'' (YInt 0) (yput ''port'' (YInt 0) [])))))))"

text \<open>\<open>None\<close>: the document has no text.\<close>

definition generate ::
  "('r, 's) engine \<Rightarrow> ProxyRow list \<Rightarrow> (string \<rightharpoonup> ip_addr) \<Rightarrow> bool \<Rightarrow> (string \<times> nat list) option" where
  "generate en rows pins ipv6 =
     (let items = batch_items en pins rows
      in map_option (\<lambda>t. (t, map fst items))
           (yaml_print (en_codecs en) (batch_root ipv6 (map snd items))))"

section \<open>What a batch names\<close>

lemma server_not_transport: "''server'' \<notin> transport_keys"
  by (simp add: transport_keys_def)

lemma clash_scheme_server:
  assumes "clash_scheme yp ypr e m = Some m'"
  shows "yget m' ''server'' = yget m ''server''"
  using assms server_not_transport
  by (cases "pe_scheme e") (auto simp: clash_scheme_def clash_vless_def clash_vmess_def clash_trojan_def clash_ss_def
    clash_hysteria2_def clash_socks5_def clash_snell_def clash_anytls_def tls_block_def Let_def yget_copies yget_ss_plugin)

definition item_server :: "yaml \<Rightarrow> string option" where
  "item_server item = Option.bind (Option.bind (as_mapping item) (\<lambda>m. yget m ''server'')) yaml_str"

lemma entry_server:
  "entry_to_clash_named yp ypr e name = Some item \<Longrightarrow> item_server item = Some (pe_host e)"
  by (auto simp: entry_to_clash_named_def item_server_def dest!: clash_scheme_server)

lemma pinned_server:
  assumes "proxy_to_value en pins row = Some item" "pins (r_host row) = Some ip"
  shows "item_server item = Some (show_ip ip)"
  using assms by (auto simp: proxy_to_value_def pin_entry_def split: sum.splits if_splits dest!: entry_server)

text \<open>What a pinned entry tells the engine to verify: its own name, else the host it had.\<close>

lemma carried_name:
  assumes "server_name_sources (pe_scheme e) = Some (key, sources)" "parse_ip host = None"
  shows "param_ignore_case (carry_server_name host e) key =
    Some (case own_server_name e sources of Some n \<Rightarrow> n | None \<Rightarrow> host)"
proof -
  have key: "key = ''sni'' \<or> key = ''servername''"
    using assms(1) by (auto simp: server_name_sources_def split: Scheme.splits)
  let ?kept = "filter (\<lambda>p. \<not> eq_ignore_ascii_case (p_key p) ''sni'' \<and>
    \<not> eq_ignore_ascii_case (p_key p) ''servername'') (pe_params e)"
  have "find (\<lambda>p. eq_ignore_ascii_case (p_key p) key) ?kept = None"
    using key by (auto simp: find_None_iff)
  then have "find (\<lambda>p. eq_ignore_ascii_case (p_key p) key) (?kept @ [\<lparr>p_key = key, p_value = n, p_known = True\<rparr>]) =
      Some \<lparr>p_key = key, p_value = n, p_known = True\<rparr>" for n
    by (simp add: find_append eq_ignore_ascii_case_def)
  then show ?thesis using assms by (simp add: carry_server_name_def param_ignore_case_def Let_def)
qed

lemma batch_items_iff:
  "(i, item) \<in> set (batch_items en pins rows) \<longleftrightarrow> (\<exists>row \<in> set rows. r_id row = i \<and> proxy_to_value en pins row = Some item)"
  by (auto simp: batch_items_def set_map_filter)

end
