(* ===== verification/Probe_Loop.thy ===== *)
theory Probe_Loop
  imports Probe_Checks Schedule
begin

text \<open>
  The probe process, \<open>fumox-probe/src/main.rs\<close>: the verdicts, the four passes of a cycle, the batch of
  tunnel checks with its guard, the backoff of the engine and the retention. What the outside answers during
  one pass is a record: readings of the clock, lookups, dials, answers of the engine, random draws and the
  order in which concurrent tasks run.
\<close>

section \<open>State\<close>

definition MEOW_ABORT_THRESHOLD :: nat where "MEOW_ABORT_THRESHOLD = 3"
definition HEARTBEAT_KEY :: string where "HEARTBEAT_KEY = ''probe_heartbeat''"
definition MEOW_LAST_OK_KEY :: string where "MEOW_LAST_OK_KEY = ''meow_last_ok''"
definition MEOW_MEMORY_KEY :: string where "MEOW_MEMORY_KEY = ''meow_memory''"

record ProbeConfig =
  pc_cycle_interval_secs :: nat
  pc_sample_size :: nat
  pc_fail_limit :: nat
  pc_allow_private_targets :: bool
  pc_connect_timeout_secs :: nat
  pc_tls_timeout_secs :: nat
  pc_concurrency :: nat
  pc_heartbeat_interval_secs :: nat
  pc_second_chance_min_hours :: nat
  pc_second_chance_spread_hours :: nat
  pc_recheck_delays_secs :: "int list"
  pc_queue_stale_days :: nat
  pc_probe_results_days :: nat
  pc_fetch_log_days :: nat
  pc_dns_timeout :: nat
  pc_backoff_initial_secs :: nat
  pc_backoff_max_secs :: nat
  pc_ipv6 :: bool

text \<open>\<open>pb_file\<close> is the file at \<open>meow.config_path\<close>.\<close>

record Probe =
  pb_store :: Store
  pb_retry_at :: int
  pb_backoff_secs :: int
  pb_file :: "string option"

definition on_db :: "(Db \<Rightarrow> Db) \<Rightarrow> Probe \<Rightarrow> Probe" where
  "on_db f pb = pb\<lparr>pb_store := (pb_store pb)\<lparr>st_db := f (st_db (pb_store pb))\<rparr>\<rparr>"

definition probe_db :: "Probe \<Rightarrow> Db" where
  "probe_db pb = st_db (pb_store pb)"

definition I64_MAX :: int where "I64_MAX = 2 ^ 63 - 1"

text \<open>\<open>i64::try_from\<close> of an unsigned number, and the hours of the configuration as seconds.\<close>

definition i64_or :: "int \<Rightarrow> nat \<Rightarrow> int" where
  "i64_or d n = (if int n \<le> I64_MAX then int n else d)"

definition hours_secs :: "int \<Rightarrow> nat \<Rightarrow> int" where
  "hours_secs d hours = i64_or d (min (hours * 3600) (2 ^ 64 - 1))"

definition initial_backoff :: "ProbeConfig \<Rightarrow> int" where
  "initial_backoff cfg = i64_or I64_MAX (max (pc_backoff_initial_secs cfg) 1)"

definition new_probe :: "ProbeConfig \<Rightarrow> Store \<Rightarrow> Probe" where
  "new_probe cfg st = \<lparr>pb_store = st, pb_retry_at = 0, pb_backoff_secs = initial_backoff cfg, pb_file = None\<rparr>"

definition backoff_meow :: "ProbeConfig \<Rightarrow> int \<Rightarrow> Probe \<Rightarrow> Probe" where
  "backoff_meow cfg now pb =
     (let backoff = pb_backoff_secs pb;
          next = min (min (backoff * 2) I64_MAX) (i64_or I64_MAX (pc_backoff_max_secs cfg))
      in pb\<lparr>pb_backoff_secs := next, pb_retry_at := min (now + backoff) I64_MAX\<rparr>)"

definition meow_recovered :: "ProbeConfig \<Rightarrow> Probe \<Rightarrow> Probe" where
  "meow_recovered cfg pb = pb\<lparr>pb_backoff_secs := initial_backoff cfg, pb_retry_at := 0\<rparr>"

text \<open>
  The outside during one pass. \<open>w_clock i k\<close>: the \<open>k\<close>-th time the task of row \<open>i\<close> reads the clock;
  \<open>w_rank\<close>: the order in which the tasks of a pass run; \<open>w_alive i\<close>: the answer to the ping after a failed delay
  check of row \<open>i\<close>; \<open>w_write\<close>: the error of writing the configuration file, which then keeps its text.
\<close>

datatype t2_event = T2Start nat | T2Answer nat | T2Settle nat

record World =
  w_now :: int
  w_clock :: "nat \<Rightarrow> nat \<Rightarrow> int"
  w_resolver :: "nat \<Rightarrow> string \<Rightarrow> lookup_outcome"
  w_net :: "nat \<Rightarrow> T1Net"
  w_draw :: "nat \<Rightarrow> int"
  w_shuffle :: "ProxyRow list \<Rightarrow> ProxyRow list"
  w_anchor :: nat
  w_rank :: "nat \<Rightarrow> nat"
  w_ping :: http_answer
  w_write :: "string option"
  w_reload :: "string + nat \<times> string"
  w_feed :: "string + nat \<times> chunk list"
  w_answers :: "nat \<Rightarrow> nat \<Rightarrow> http_answer"
  w_alive :: "nat \<Rightarrow> http_answer"
  w_events :: "t2_event list"

text \<open>What the texts of the libraries look like.\<close>

record ProbeTexts =
  tx_json_value :: "json \<Rightarrow> string"
  tx_status :: "nat \<Rightarrow> string"
  tx_memory :: "MeowMemory \<Rightarrow> int \<Rightarrow> string"
  tx_rotation :: "LastRotation \<Rightarrow> string"
  tx_parse :: "string \<Rightarrow> string + json"

section \<open>Verdicts\<close>

text \<open>An attempt of a row that is gone is refused by the foreign key, which is only logged.\<close>

definition journal :: "ProbeResult \<Rightarrow> Db \<Rightarrow> Db" where
  "journal entry db = (if get_by_id db (pr_proxy entry) = None then db else insert_result entry db)"

definition failed_attempt :: "nat \<Rightarrow> int \<Rightarrow> string \<Rightarrow> string \<Rightarrow> ProbeResult" where
  "failed_attempt i now reason kind =
     \<lparr>pr_proxy = i, pr_checked_at = now, pr_ok = False, pr_latency_ms = None, pr_error = Some reason, pr_kind = kind\<rparr>"

definition passed_attempt :: "nat \<Rightarrow> int \<Rightarrow> int \<Rightarrow> string \<Rightarrow> ProbeResult" where
  "passed_attempt i now latency kind =
     \<lparr>pr_proxy = i, pr_checked_at = now, pr_ok = True, pr_latency_ms = Some latency, pr_error = None, pr_kind = kind\<rparr>"

definition regular_failure :: "ProbeConfig \<Rightarrow> World \<Rightarrow> nat \<Rightarrow> int \<Rightarrow> bool \<Rightarrow> Db \<Rightarrow> Db" where
  "regular_failure cfg w i now mark_t2_failed db =
     snd (check_failed (w_draw w i) i now (pc_fail_limit cfg) (hours_secs I64_MAX (pc_second_chance_min_hours cfg))
       (hours_secs 0 (pc_second_chance_spread_hours cfg)) mark_t2_failed db)"

definition apply_regular_failure :: "ProbeConfig \<Rightarrow> World \<Rightarrow> nat \<Rightarrow> int \<Rightarrow> Db \<Rightarrow> Db" where
  "apply_regular_failure cfg w i now db = regular_failure cfg w i now False db"

definition policy_error :: "string \<Rightarrow> string" where
  "policy_error reason = ''blocked by the private-address policy: '' @ reason"

definition apply_vet_block :: "ProbeConfig \<Rightarrow> World \<Rightarrow> nat \<Rightarrow> string \<Rightarrow> string \<Rightarrow> Db \<Rightarrow> Db" where
  "apply_vet_block cfg w i kind reason db =
     apply_regular_failure cfg w i (w_clock w i 1)
       (journal (failed_attempt i (w_clock w i 0) (policy_error reason) kind) db)"

definition perform_t1_check :: "ProbeConfig \<Rightarrow> World \<Rightarrow> nat \<Rightarrow> Target \<Rightarrow> Db \<Rightarrow> Db" where
  "perform_t1_check cfg w i target db =
     (let now = w_clock w i 0; kind = check_kind_text (tg_kind target) in
      case t1_run (w_net w i) target (max (pc_connect_timeout_secs cfg) 1) (max (pc_tls_timeout_secs cfg) 1) of
        Inr elapsed \<Rightarrow>
          (let latency = i64_or I64_MAX elapsed;
               db1 = journal (passed_attempt i now latency kind) db;
               reset = (last_failed_kind db1 i \<noteq> Some t2_kind)
           in snd (check_succeeded i now (Some latency) reset Alive db1))
      | Inl reason \<Rightarrow> apply_regular_failure cfg w i now (journal (failed_attempt i now reason kind) db))"

definition ladder_failure :: "ProbeConfig \<Rightarrow> nat \<Rightarrow> int \<Rightarrow> int \<Rightarrow> Db \<Rightarrow> Db" where
  "ladder_failure cfg i now step db = snd (quarantine_check_failed i now step (pc_recheck_delays_secs cfg) db)"

definition apply_quarantine_vet_block ::
  "ProbeConfig \<Rightarrow> World \<Rightarrow> nat \<Rightarrow> string \<Rightarrow> int \<Rightarrow> string \<Rightarrow> Db \<Rightarrow> Db" where
  "apply_quarantine_vet_block cfg w i kind step reason db =
     ladder_failure cfg i (w_clock w i 1) step
       (journal (failed_attempt i (w_clock w i 0) (policy_error reason) kind) db)"

definition perform_quarantine_check :: "ProbeConfig \<Rightarrow> World \<Rightarrow> nat \<Rightarrow> Target \<Rightarrow> int \<Rightarrow> Db \<Rightarrow> Db" where
  "perform_quarantine_check cfg w i target step db =
     (let now = w_clock w i 0; kind = check_kind_text (tg_kind target) in
      case t1_run (w_net w i) target (max (pc_connect_timeout_secs cfg) 1) (max (pc_tls_timeout_secs cfg) 1) of
        Inr elapsed \<Rightarrow>
          (let latency = i64_or I64_MAX elapsed
           in snd (check_succeeded i now (Some latency) True Alive (journal (passed_attempt i now latency kind) db)))
      | Inl reason \<Rightarrow> ladder_failure cfg i now step (journal (failed_attempt i now reason kind) db))"

definition journal_and_fail :: "ProbeConfig \<Rightarrow> World \<Rightarrow> nat \<Rightarrow> int \<Rightarrow> string \<Rightarrow> Db \<Rightarrow> Db" where
  "journal_and_fail cfg w i now reason db =
     regular_failure cfg w i now True (journal (failed_attempt i now reason t2_kind) db)"

definition journal_engine_fault :: "nat \<Rightarrow> int \<Rightarrow> string \<Rightarrow> Db \<Rightarrow> Db" where
  "journal_engine_fault i now reason db =
     snd (check_engine_unavailable i now (journal (failed_attempt i now reason t2_kind) db))"

definition journal_engine_failure :: "World \<Rightarrow> ProxyRow list \<Rightarrow> string \<Rightarrow> Db \<Rightarrow> Db" where
  "journal_engine_failure w batch reason db =
     fold (\<lambda>row. journal_engine_fault (r_id row) (w_clock w (r_id row) 0) reason) batch db"

definition t2_success :: "nat \<Rightarrow> int \<Rightarrow> nat \<Rightarrow> Db \<Rightarrow> Db" where
  "t2_success i now delay db =
     (let latency = i64_or I64_MAX delay
      in snd (check_succeeded i now (Some latency) True Ready (journal (passed_attempt i now latency t2_kind) db)))"

definition delay_outcome :: "ProbeTexts \<Rightarrow> World \<Rightarrow> nat \<Rightarrow> DelayOutcome" where
  "delay_outcome tx w i = check_delay_with_retry (tx_status tx) (w_answers w i) 2"

definition unavailable :: "string \<Rightarrow> string" where
  "unavailable e = ''meow-rs unavailable: '' @ e"

definition perform_quarantine_t2_check :: "ProbeTexts \<Rightarrow> ProbeConfig \<Rightarrow> World \<Rightarrow> ProxyRow \<Rightarrow> Db \<Rightarrow> Db" where
  "perform_quarantine_t2_check tx cfg w row db =
     (let i = r_id row; now = w_clock w i 0 in
      case delay_outcome tx w i of
        DelayOk delay \<Rightarrow> t2_success i now delay db
      | ProxyFailed message \<Rightarrow>
          ladder_failure cfg i now (r_ladder_step row) (journal (failed_attempt i now message t2_kind) db)
      | ServiceUnavailable e \<Rightarrow> journal_engine_fault i (w_clock w i 1) (unavailable e) db)"

section \<open>The connectivity lanes\<close>

record LaneOutcome =
  lo_checked :: nat
  lo_claimed :: "nat list"

definition no_lane :: LaneOutcome where
  "no_lane = \<lparr>lo_checked = 0, lo_claimed = []\<rparr>"

definition vet_target_addrs :: "ProbeConfig \<Rightarrow> World \<Rightarrow> nat \<Rightarrow> string \<Rightarrow> string + ip_addr list" where
  "vet_target_addrs cfg w i host =
     vet_probe_host_addrs (w_resolver w i) host (pc_allow_private_targets cfg) (pc_dns_timeout cfg)"

text \<open>
  One row of a lane: refused by the vetting, or to be dialed. The step is that of the recheck ladder.
\<close>

record T1Job =
  tj_id :: nat
  tj_kind :: CheckKind
  tj_step :: int
  tj_verdict :: "string + Target"

definition t1_job ::
  "('r, 's) engine \<Rightarrow> ProbeTexts \<Rightarrow> ProbeConfig \<Rightarrow> World \<Rightarrow> int \<Rightarrow> T1Candidate \<Rightarrow> T1Job option" where
  "t1_job en tx cfg w step c =
     (if t1_port c < 0 \<or> 65535 < t1_port c then None
      else (let kind = check_kind (en_from_text en) (tx_json_value tx) (t1_scheme c) (t1_params c)
            in Some \<lparr>tj_id = t1_id c, tj_kind = kind, tj_step = step,
                 tj_verdict = bind_res (vet_target_addrs cfg w (t1_id c) (t1_host c)) (\<lambda>vetted.
                   Inr \<lparr>tg_host = t1_host c, tg_port = word_of_int (t1_port c), tg_kind = kind, tg_vetted = vetted\<rparr>)\<rparr>))"

text \<open>Refused rows are settled by the loop that spawns the tasks, while tasks already run.\<close>

definition t1_job_run :: "ProbeConfig \<Rightarrow> World \<Rightarrow> T1Job \<Rightarrow> Db \<Rightarrow> Db" where
  "t1_job_run cfg w job db =
     (case tj_verdict job of
        Inl reason \<Rightarrow> apply_vet_block cfg w (tj_id job) (check_kind_text (tj_kind job)) reason db
      | Inr target \<Rightarrow> perform_t1_check cfg w (tj_id job) target db)"

definition in_task_order :: "World \<Rightarrow> ('a \<Rightarrow> nat) \<Rightarrow> 'a list \<Rightarrow> 'a list" where
  "in_task_order w key xs = sort_key (w_rank w \<circ> key) xs"

definition run_t1_checks ::
  "('r, 's) engine \<Rightarrow> ProbeTexts \<Rightarrow> ProbeConfig \<Rightarrow> World \<Rightarrow> T1Candidate list \<Rightarrow> Probe \<Rightarrow> LaneOutcome \<times> Probe" where
  "run_t1_checks en tx cfg w candidates pb =
     (let jobs = List.map_filter (t1_job en tx cfg w 0) candidates
      in (\<lparr>lo_checked = length jobs, lo_claimed = map tj_id jobs\<rparr>,
          on_db (fold (t1_job_run cfg w) (in_task_order w tj_id jobs)) pb))"

definition probe_queued_checks ::
  "('r, 's) engine \<Rightarrow> ProbeTexts \<Rightarrow> ProbeConfig \<Rightarrow> World \<Rightarrow> Probe \<Rightarrow> LaneOutcome \<times> Probe" where
  "probe_queued_checks en tx cfg w pb =
     (let candidates = select_queued_checks (probe_db pb) (pc_sample_size cfg) in
      if candidates = [] then (no_lane, pb)
      else (let ids = map t1_id candidates;
                (checked, pb') = run_t1_checks en tx cfg w candidates (on_db (\<lambda>db. snd (claim_checks ids db)) pb)
            in (\<lparr>lo_checked = lo_checked checked, lo_claimed = ids\<rparr>, pb')))"

definition probe_t1_sample ::
  "('r, 's) engine \<Rightarrow> ProbeTexts \<Rightarrow> ProbeConfig \<Rightarrow> World \<Rightarrow> nat list \<Rightarrow> Probe \<Rightarrow> LaneOutcome \<times> Probe" where
  "probe_t1_sample en tx cfg w already_checked pb =
     (let candidates = filter (\<lambda>c. t1_id c \<notin> set already_checked)
            (select_t1_candidates (w_shuffle w) (w_anchor w) (pc_sample_size cfg) (probe_db pb)) in
      if candidates = [] then (no_lane, pb) else run_t1_checks en tx cfg w candidates pb)"

section \<open>The quarantine lanes\<close>

definition quarantine_job_run :: "ProbeConfig \<Rightarrow> World \<Rightarrow> T1Job \<Rightarrow> Db \<Rightarrow> Db" where
  "quarantine_job_run cfg w job db =
     (case tj_verdict job of
        Inl reason \<Rightarrow>
          apply_quarantine_vet_block cfg w (tj_id job) (check_kind_text (tj_kind job)) (tj_step job) reason db
      | Inr target \<Rightarrow> perform_quarantine_check cfg w (tj_id job) target (tj_step job) db)"

text \<open>The rows of a tunnel batch after the vetting, and the address each host is pinned to.\<close>

definition vetted_rows :: "ProbeConfig \<Rightarrow> World \<Rightarrow> ProxyRow list \<Rightarrow> (ProxyRow \<times> ip_addr list) list" where
  "vetted_rows cfg w rows =
     List.map_filter (\<lambda>row. case vet_target_addrs cfg w (r_id row) (r_host row) of
       Inr vetted \<Rightarrow> Some (row, vetted) | Inl reason \<Rightarrow> None) rows"

definition refused_rows :: "ProbeConfig \<Rightarrow> World \<Rightarrow> ProxyRow list \<Rightarrow> (ProxyRow \<times> string) list" where
  "refused_rows cfg w rows =
     List.map_filter (\<lambda>row. case vet_target_addrs cfg w (r_id row) (r_host row) of
       Inr vetted \<Rightarrow> None | Inl reason \<Rightarrow> Some (row, reason)) rows"

fun add_pins :: "(ProxyRow \<times> ip_addr list) list \<Rightarrow> (string \<rightharpoonup> ip_addr) \<Rightarrow> (string \<rightharpoonup> ip_addr)" where
  "add_pins [] pins = pins"
| "add_pins ((row, vetted) # rest) pins =
     add_pins rest (case pick_vetted vetted AnyFamily of
       Some ip \<Rightarrow> pins(r_host row \<mapsto> ip) | None \<Rightarrow> pins)"

definition write_meow_config :: "World \<Rightarrow> string \<Rightarrow> Probe \<Rightarrow> (string + unit) \<times> Probe" where
  "write_meow_config w text pb =
     (case w_write w of Some e \<Rightarrow> (Inl e, pb) | None \<Rightarrow> (Inr (), pb\<lparr>pb_file := Some text\<rparr>))"

text \<open>
  The engine takes a batch: pinged, given the file of the batch, told to read it. \<open>Left (Some e)\<close> is an
  outage, \<open>Left None\<close> an error of the file that ends the pass, \<open>Right\<close> the rows that are in the file.
\<close>

definition load_batch ::
  "('r, 's) engine \<Rightarrow> ProbeTexts \<Rightarrow> ProbeConfig \<Rightarrow> World \<Rightarrow> (ProxyRow \<times> ip_addr list) list \<Rightarrow> Probe \<Rightarrow>
     (string option + nat list) \<times> Probe" where
  "load_batch en tx cfg w vetted pb =
     (case ping (tx_status tx) (w_ping w) of
        Inl e \<Rightarrow> (Inl (Some (unavailable e)), pb)
      | Inr version \<Rightarrow>
          (case generate en (map fst vetted) (add_pins vetted Map.empty) (pc_ipv6 cfg) of
             None \<Rightarrow> (Inl None, pb)
           | Some (yaml, included) \<Rightarrow>
               (case write_meow_config w yaml pb of
                  (Inl e, pb') \<Rightarrow> (Inl None, pb')
                | (Inr _, pb') \<Rightarrow>
                    (case reload_config (tx_status tx) (w_reload w) of
                       Inl e \<Rightarrow> (Inl (Some (unavailable e)), pb')
                     | Inr _ \<Rightarrow> (Inr included, pb')))))"

definition engine_outage :: "ProbeConfig \<Rightarrow> World \<Rightarrow> ProxyRow list \<Rightarrow> string \<Rightarrow> Probe \<Rightarrow> Probe" where
  "engine_outage cfg w batch reason pb =
     on_db (journal_engine_failure w batch reason) (backoff_meow cfg (w_now w) pb)"

definition engine_answered :: "ProbeConfig \<Rightarrow> World \<Rightarrow> Probe \<Rightarrow> Probe" where
  "engine_answered cfg w pb =
     (let pb1 = meow_recovered cfg pb
      in pb1\<lparr>pb_store := meta_set MEOW_LAST_OK_KEY (dec_int (w_now w)) (pb_store pb1)\<rparr>)"

definition not_serialized :: string where
  "not_serialized = ''proxy entry cannot be serialized for the T2 engine config''"

definition revival_run :: "ProbeTexts \<Rightarrow> ProbeConfig \<Rightarrow> World \<Rightarrow> nat list \<Rightarrow> ProxyRow \<Rightarrow> Db \<Rightarrow> Db" where
  "revival_run tx cfg w included row db =
     (let i = r_id row; now = w_clock w i 0 in
      if i \<notin> set included
      then ladder_failure cfg i now (r_ladder_step row) (journal (failed_attempt i now not_serialized t2_kind) db)
      else perform_quarantine_t2_check tx cfg w row db)"

definition refused_revivals :: "ProbeConfig \<Rightarrow> World \<Rightarrow> (ProxyRow \<times> string) list \<Rightarrow> Db \<Rightarrow> Db" where
  "refused_revivals cfg w refused db =
     fold (\<lambda>(row, reason). apply_quarantine_vet_block cfg w (r_id row) t2_kind (r_ladder_step row) reason) refused db"

text \<open>The number of rows processed, or nothing when the pass ended with an error.\<close>

definition revive_quarantined_via_t2 ::
  "('r, 's) engine \<Rightarrow> ProbeTexts \<Rightarrow> ProbeConfig \<Rightarrow> World \<Rightarrow> ProxyRow list \<Rightarrow> Probe \<Rightarrow> nat option \<times> Probe" where
  "revive_quarantined_via_t2 en tx cfg w due_rows pb =
     (if due_rows = [] then (Some 0, pb)
      else if w_now w < pb_retry_at pb then (Some 0, pb)
      else (let refused = refused_rows cfg w due_rows;
                vetted = vetted_rows cfg w due_rows;
                batch = map fst vetted;
                pb1 = on_db (refused_revivals cfg w refused) pb
            in if batch = [] then (Some (length refused), pb1)
               else (case load_batch en tx cfg w vetted pb1 of
                       (Inl None, pb2) \<Rightarrow> (None, pb2)
                     | (Inl (Some e), pb2) \<Rightarrow>
                         (Some (length refused + length batch), engine_outage cfg w batch e pb2)
                     | (Inr included, pb2) \<Rightarrow>
                         (Some (length refused + length batch),
                          on_db (fold (revival_run tx cfg w included) (in_task_order w r_id batch))
                            (engine_answered cfg w pb2)))))"

definition probe_due_quarantine ::
  "('r, 's) engine \<Rightarrow> ProbeTexts \<Rightarrow> ProbeConfig \<Rightarrow> World \<Rightarrow> World \<Rightarrow> int \<Rightarrow> Probe \<Rightarrow> nat option \<times> Probe" where
  "probe_due_quarantine en tx cfg w wl now pb =
     (case revive_quarantined_via_t2 en tx cfg w
             (select_due_quarantine_t2 (w_shuffle w) (w_anchor w) now (pc_sample_size cfg) (probe_db pb)) pb of
        (None, pb1) \<Rightarrow> (None, pb1)
      | (Some revived, pb1) \<Rightarrow>
          (let rows = select_due_quarantine (w_shuffle wl) (w_anchor wl) now (pc_sample_size cfg) (probe_db pb1);
               jobs = List.map_filter (\<lambda>r. t1_job en tx cfg wl (r_ladder_step r) (t1_candidate r)) rows
           in if rows = [] then (Some revived, pb1)
              else (Some (length jobs + revived),
                    on_db (fold (quarantine_job_run cfg wl) (in_task_order wl tj_id jobs)) pb1)))"

section \<open>The guard of a batch\<close>

record BatchGuard =
  bg_consecutive :: nat
  bg_aborted :: bool
  bg_threshold :: nat

definition new_guard :: "nat \<Rightarrow> BatchGuard" where
  "new_guard threshold = \<lparr>bg_consecutive = 0, bg_aborted = False, bg_threshold = threshold\<rparr>"

text \<open>
  \<open>record_failure\<close> is two atomic steps, between which other tasks run: \<open>count_failure\<close> gives the number \<open>n\<close>
  the caller holds, \<open>settle_failure\<close> answers whether the call flipped the flag.
\<close>

definition count_failure :: "BatchGuard \<Rightarrow> nat \<times> BatchGuard" where
  "count_failure g = (bg_consecutive g + 1, g\<lparr>bg_consecutive := bg_consecutive g + 1\<rparr>)"

definition settle_failure :: "nat \<Rightarrow> BatchGuard \<Rightarrow> bool \<times> BatchGuard" where
  "settle_failure n g =
     (if bg_threshold g \<le> n then (\<not> bg_aborted g, g\<lparr>bg_aborted := True\<rparr>) else (False, g))"

definition record_recovered :: "BatchGuard \<Rightarrow> BatchGuard" where
  "record_recovered g = g\<lparr>bg_consecutive := 0\<rparr>"

section \<open>The tunnel lane\<close>

record T2Outcome =
  to_checked :: nat
  to_aborted :: nat
  to_skipped :: nat

definition no_t2 :: T2Outcome where
  "no_t2 = \<lparr>to_checked = 0, to_aborted = 0, to_skipped = 0\<rparr>"

text \<open>
  The task of a row: waiting for a permit, in the request, holding the count of its failure, or done with
  a result. A permit is held from the start to the end.
\<close>

datatype t2_phase = Idle | Flying | Counted nat | Judged | Aborted

definition busy :: "t2_phase \<Rightarrow> bool" where
  "busy p \<longleftrightarrow> (case p of Flying \<Rightarrow> True | Counted n \<Rightarrow> True | _ \<Rightarrow> False)"

record T2Run =
  tr_probe :: Probe
  tr_guard :: BatchGuard
  tr_phase :: "nat \<Rightarrow> t2_phase"

definition tasks_in :: "(t2_phase \<Rightarrow> bool) \<Rightarrow> nat list \<Rightarrow> T2Run \<Rightarrow> nat" where
  "tasks_in P ids s = length (filter (\<lambda>i. P (tr_phase s i)) ids)"

definition enter :: "nat \<Rightarrow> t2_phase \<Rightarrow> T2Run \<Rightarrow> T2Run" where
  "enter i p s = s\<lparr>tr_phase := (tr_phase s)(i := p)\<rparr>"

definition on_run_db :: "(Db \<Rightarrow> Db) \<Rightarrow> T2Run \<Rightarrow> T2Run" where
  "on_run_db f s = s\<lparr>tr_probe := on_db f (tr_probe s)\<rparr>"

definition t2_answer :: "ProbeTexts \<Rightarrow> ProbeConfig \<Rightarrow> World \<Rightarrow> nat \<Rightarrow> T2Run \<Rightarrow> T2Run" where
  "t2_answer tx cfg w i s =
     (let now = w_clock w i 0; recovered = s\<lparr>tr_guard := record_recovered (tr_guard s)\<rparr> in
      case delay_outcome tx w i of
        DelayOk delay \<Rightarrow> enter i Judged (on_run_db (t2_success i now delay) recovered)
      | ProxyFailed message \<Rightarrow>
          enter i Judged (on_run_db (\<lambda>db. regular_failure cfg w i now True
            (journal (failed_attempt i now message t2_kind) db)) recovered)
      | ServiceUnavailable e \<Rightarrow>
          (case ping (tx_status tx) (w_alive w i) of
             Inr version \<Rightarrow>
               enter i Judged (on_run_db (journal_and_fail cfg w i (w_clock w i 1)
                 (''meow-rs transient error: '' @ e)) s)
           | Inl e' \<Rightarrow>
               (let (n, g) = count_failure (tr_guard s) in enter i (Counted n) (s\<lparr>tr_guard := g\<rparr>))))"

definition outcome_error :: "DelayOutcome \<Rightarrow> string" where
  "outcome_error out = (case out of ServiceUnavailable e \<Rightarrow> e | _ \<Rightarrow> [])"

definition t2_settle :: "ProbeTexts \<Rightarrow> ProbeConfig \<Rightarrow> World \<Rightarrow> nat \<Rightarrow> nat \<Rightarrow> T2Run \<Rightarrow> T2Run" where
  "t2_settle tx cfg w n i s =
     (let (first, g) = settle_failure n (tr_guard s);
          s1 = s\<lparr>tr_guard := g\<rparr>;
          s2 = (if first then s1\<lparr>tr_probe := backoff_meow cfg (w_clock w i 1) (tr_probe s1)\<rparr> else s1)
      in enter i Judged (on_run_db (journal_engine_fault i (w_clock w i 2)
           (''meow-rs unavailable mid-batch: '' @ outcome_error (delay_outcome tx w i))) s2))"

text \<open>A step of the tasks of the rows \<open>ids\<close>; an event that is not possible is no step.\<close>

definition t2_step :: "ProbeTexts \<Rightarrow> ProbeConfig \<Rightarrow> World \<Rightarrow> nat list \<Rightarrow> t2_event \<Rightarrow> T2Run \<Rightarrow> T2Run" where
  "t2_step tx cfg w ids e s =
     (case e of
        T2Start i \<Rightarrow>
          if i \<in> set ids \<and> tr_phase s i = Idle \<and> tasks_in busy ids s < max (pc_concurrency cfg) 1
          then (if bg_aborted (tr_guard s)
                then enter i Aborted (on_run_db (journal_engine_fault i (w_clock w i 0)
                  ''aborted: meow-rs became unavailable mid-batch'') s)
                else enter i Flying s)
          else s
      | T2Answer i \<Rightarrow> if i \<in> set ids \<and> tr_phase s i = Flying then t2_answer tx cfg w i s else s
      | T2Settle i \<Rightarrow>
          (case tr_phase s i of Counted n \<Rightarrow> if i \<in> set ids then t2_settle tx cfg w n i s else s | _ \<Rightarrow> s))"

definition start_run :: "Probe \<Rightarrow> T2Run" where
  "start_run pb = \<lparr>tr_probe = pb, tr_guard = new_guard MEOW_ABORT_THRESHOLD, tr_phase = (\<lambda>_. Idle)\<rparr>"

definition run_tasks :: "ProbeTexts \<Rightarrow> ProbeConfig \<Rightarrow> World \<Rightarrow> nat list \<Rightarrow> Probe \<Rightarrow> T2Run" where
  "run_tasks tx cfg w ids pb = fold (t2_step tx cfg w ids) (w_events w) (start_run pb)"

definition all_joined :: "nat list \<Rightarrow> T2Run \<Rightarrow> bool" where
  "all_joined ids s \<longleftrightarrow> (\<forall>i \<in> set ids. tr_phase s i = Judged \<or> tr_phase s i = Aborted)"

definition stamp_meow_memory :: "ProbeTexts \<Rightarrow> World \<Rightarrow> Probe \<Rightarrow> Probe" where
  "stamp_meow_memory tx w pb =
     (case memory (tx_status tx) (tx_parse tx) (w_feed w) of
        Inr mem \<Rightarrow> pb\<lparr>pb_store := meta_set MEOW_MEMORY_KEY (tx_memory tx mem (w_now w)) (pb_store pb)\<rparr>
      | Inl e \<Rightarrow> pb)"

definition refused_t2 :: "ProbeConfig \<Rightarrow> World \<Rightarrow> (ProxyRow \<times> string) list \<Rightarrow> Db \<Rightarrow> Db" where
  "refused_t2 cfg w refused db =
     fold (\<lambda>(row, reason). journal_and_fail cfg w (r_id row) (w_clock w (r_id row) 0) (policy_error reason)) refused db"

definition skipped_t2 :: "ProbeConfig \<Rightarrow> World \<Rightarrow> ProxyRow list \<Rightarrow> Db \<Rightarrow> Db" where
  "skipped_t2 cfg w rows db =
     fold (\<lambda>row. journal_and_fail cfg w (r_id row) (w_clock w (r_id row) 0) not_serialized) rows db"

definition t2_rows :: "ProbeConfig \<Rightarrow> nat list \<Rightarrow> Db \<Rightarrow> ProxyRow list" where
  "t2_rows cfg already_checked db =
     filter (\<lambda>row. t2_supported (r_scheme row))
       (filter (\<lambda>row. r_id row \<notin> set already_checked) (select_t2_candidates (pc_sample_size cfg) db))"

text \<open>The loop that spawns the tasks settles the rows the file left out while the first tasks run.\<close>

definition check_batch ::
  "ProbeTexts \<Rightarrow> ProbeConfig \<Rightarrow> World \<Rightarrow> ProxyRow list \<Rightarrow> nat list \<Rightarrow> Probe \<Rightarrow> T2Outcome \<times> Probe" where
  "check_batch tx cfg w batch included pb =
     (let skipped = filter (\<lambda>row. r_id row \<notin> set included) batch;
          ids = map r_id (filter (\<lambda>row. r_id row \<in> set included) batch);
          s = run_tasks tx cfg w ids (on_db (skipped_t2 cfg w skipped) pb)
      in (\<lparr>to_checked = tasks_in (\<lambda>p. p = Judged) ids s, to_aborted = tasks_in (\<lambda>p. p = Aborted) ids s,
           to_skipped = length skipped\<rparr>, tr_probe s))"

definition probe_t2_batch ::
  "('r, 's) engine \<Rightarrow> ProbeTexts \<Rightarrow> ProbeConfig \<Rightarrow> World \<Rightarrow> nat list \<Rightarrow> Probe \<Rightarrow> T2Outcome option \<times> Probe" where
  "probe_t2_batch en tx cfg w already_checked pb =
     (if w_now w < pb_retry_at pb then (Some no_t2, pb)
      else (let rows = t2_rows cfg already_checked (probe_db pb);
                refused = refused_rows cfg w rows;
                vetted = vetted_rows cfg w rows;
                batch = map fst vetted;
                pb1 = on_db (refused_t2 cfg w refused) pb
            in if batch = [] then (Some (no_t2\<lparr>to_checked := length refused\<rparr>), pb1)
               else (case load_batch en tx cfg w vetted pb1 of
                       (Inl None, pb2) \<Rightarrow> (None, pb2)
                     | (Inl (Some e), pb2) \<Rightarrow>
                         (Some \<lparr>to_checked = length refused, to_aborted = length batch, to_skipped = 0\<rparr>,
                          engine_outage cfg w batch e pb2)
                     | (Inr included, pb2) \<Rightarrow>
                         (let (out, pb3) = check_batch tx cfg w batch included
                                (stamp_meow_memory tx w (engine_answered cfg w pb2))
                          in (Some (out\<lparr>to_checked := length refused + to_checked out\<rparr>), pb3)))))"

section \<open>One cycle\<close>

datatype lane = ReviveLane | LadderLane | QueueLane | SampleLane | TunnelLane

definition run_cycle ::
  "('r, 's) engine \<Rightarrow> ProbeTexts \<Rightarrow> ProbeConfig \<Rightarrow> (lane \<Rightarrow> World) \<Rightarrow> int \<Rightarrow> Probe \<Rightarrow> Probe" where
  "run_cycle en tx cfg ws now pb =
     (case probe_due_quarantine en tx cfg (ws ReviveLane) (ws LadderLane) now pb of
        (None, pb1) \<Rightarrow> pb1
      | (Some quarantine, pb1) \<Rightarrow>
          (let (queued, pb2) = probe_queued_checks en tx cfg (ws QueueLane) pb1;
               (t1, pb3) = probe_t1_sample en tx cfg (ws SampleLane) (lo_claimed queued) pb2
           in snd (probe_t2_batch en tx cfg (ws TunnelLane) (lo_claimed t1) pb3)))"

section \<open>Heartbeat and retention\<close>

record Heartbeat =
  hb_ts :: int
  hb_pid :: nat
  hb_version :: string
  hb_interval_secs :: "nat option"
  hb_cycle_interval_secs :: "nat option"

definition heartbeat_payload :: "ProbeConfig \<Rightarrow> int \<Rightarrow> nat \<Rightarrow> string \<Rightarrow> Heartbeat" where
  "heartbeat_payload cfg now pid version =
     \<lparr>hb_ts = now, hb_pid = pid, hb_version = version,
      hb_interval_secs = Some (max (pc_heartbeat_interval_secs cfg) 5),
      hb_cycle_interval_secs = Some (max (pc_cycle_interval_secs cfg) 1)\<rparr>"

definition heartbeat :: "(Heartbeat \<Rightarrow> string) \<Rightarrow> ProbeConfig \<Rightarrow> int \<Rightarrow> nat \<Rightarrow> string \<Rightarrow> Probe \<Rightarrow> Probe" where
  "heartbeat text_of cfg now pid version pb =
     pb\<lparr>pb_store := meta_set HEARTBEAT_KEY (text_of (heartbeat_payload cfg now pid version)) (pb_store pb)\<rparr>"

definition run_retention :: "ProbeTexts \<Rightarrow> ProbeConfig \<Rightarrow> int \<Rightarrow> int \<Rightarrow> Probe \<Rightarrow> Probe" where
  "run_retention tx cfg now later pb =
     (let (deleted_probe, db1) = purge_before (retention_cutoff now (pc_probe_results_days cfg)) (probe_db pb);
          (deleted_fetch, st2) = purge_log_before (retention_cutoff now (pc_fetch_log_days cfg))
            ((pb_store pb)\<lparr>st_db := db1\<rparr>);
          (settled, db3) = purge_settled_checks (st_db st2);
          (deleted_requests, db4) =
            purge_requests_before (retention_cutoff now (pc_queue_stale_days cfg)) db3;
          stamp = \<lparr>lr_ts = later, lr_probe_results = deleted_probe, lr_fetch_log = deleted_fetch,
            lr_probe_requests = deleted_requests\<rparr>
      in pb\<lparr>pb_store := meta_set LAST_ROTATION_KEY (tx_rotation tx stamp) (st2\<lparr>st_db := db4\<rparr>)\<rparr>)"

end
