(* ===== verification/Probe_Properties.thy ===== *)
theory Probe_Properties
  imports Probe_Loop Lifecycle_Safety
begin

text \<open>
  What a cycle of the probe does to a row and to the engine. The locale \<open>row_ops\<close> is the contract of the
  tasks of a pass: each writes the row of its key only, so any order of the tasks gives every row the verdict
  of its own task.
\<close>

section \<open>Tasks that write one row each\<close>

locale row_ops =
  fixes run :: "'x \<Rightarrow> Db \<Rightarrow> Db" and key :: "'x \<Rightarrow> nat"
  assumes run_sound: "sound_db db \<Longrightarrow> sound_db (run x db)"
    and run_other: "sound_db db \<Longrightarrow> i \<noteq> key x \<Longrightarrow> get_by_id (run x db) i = get_by_id db i"
begin

lemma all_sound: "sound_db db \<Longrightarrow> sound_db (fold run xs db)"
  by (induction xs arbitrary: db) (simp_all add: run_sound)

lemma all_other: "sound_db db \<Longrightarrow> i \<notin> key ` set xs \<Longrightarrow> get_by_id (fold run xs db) i = get_by_id db i"
  by (induction xs arbitrary: db) (simp_all add: run_sound run_other)

lemma all_at:
  assumes "sound_db db" "distinct (map key xs)" "x \<in> set xs"
  shows "\<exists>db'. sound_db db' \<and> get_by_id db' (key x) = get_by_id db (key x) \<and>
    get_by_id (fold run xs db) (key x) = get_by_id (run x db') (key x)"
  using assms
proof (induction xs arbitrary: db)
  case (Cons y xs)
  show ?case
  proof (cases "y = x")
    case True
    have "key x \<notin> key ` set xs" using Cons.prems(2) True by simp
    then show ?thesis using Cons.prems(1) True by (intro exI [of _ db]) (simp add: all_other run_sound)
  next
    case False
    then have x: "x \<in> set xs" using Cons.prems(3) by simp
    then have "key x \<in> set (map key xs)" by simp
    then have "key x \<noteq> key y" using Cons.prems(2) by auto
    with Cons.IH [OF run_sound [OF Cons.prems(1), of y] _ x] Cons.prems show ?thesis
      by (auto simp: run_other)
  qed
qed simp

text \<open>What holds between a row and what its task leaves, and for a row left alone, holds in any order.\<close>

lemma all_rel:
  assumes "sound_db db" "distinct (map key xs)"
    and "\<And>x d. x \<in> set xs \<Longrightarrow> sound_db d \<Longrightarrow> get_by_id d (key x) = get_by_id db (key x) \<Longrightarrow>
      R (get_by_id d (key x)) (get_by_id (run x d) (key x))"
    and "i \<notin> key ` set xs \<Longrightarrow> R (get_by_id db i) (get_by_id db i)"
  shows "R (get_by_id db i) (get_by_id (fold run xs db) i)"
proof (cases "i \<in> key ` set xs")
  case True
  then obtain x where x: "x \<in> set xs" "key x = i" by auto
  obtain d where "sound_db d" "get_by_id d i = get_by_id db i"
    "get_by_id (fold run xs db) i = get_by_id (run x d) i"
    using all_at [OF assms(1,2) x(1)] unfolding x(2) by blast
  with assms(3) [OF x(1)] x(2) show ?thesis by auto
next
  case False
  then show ?thesis using assms(4) all_other [OF assms(1) False] by simp
qed

end

section \<open>One verdict\<close>

lemma journal_get [simp]: "get_by_id (journal e db) i = get_by_id db i"
  by (simp add: journal_def insert_result_def get_by_id_def)

lemma journal_sound [simp]: "sound_db db \<Longrightarrow> sound_db (journal e db)"
proof -
  assume s: "sound_db db"
  have "get_by_id db i = Some r \<Longrightarrow> i \<in> r_id ` set (proxies db)" for i r
    by (auto simp: get_by_id_def find_Some_iff)
  then show ?thesis using admin_step_sound [OF admin_step.journal s] s by (auto simp: journal_def)
qed

lemma regular_failure_sound [simp]: "sound_db db \<Longrightarrow> sound_db (regular_failure cfg w i now mark db)"
  by (simp add: regular_failure_def check_failed_sound)

lemma check_succeeded_sound [simp]: "sound_db db \<Longrightarrow> sound_db (snd (check_succeeded i now lat rst st db))"
  by (simp add: check_succeeded_def succeed.keeps_sound)

lemma ladder_failure_sound [simp]: "sound_db db \<Longrightarrow> sound_db (ladder_failure cfg i now step db)"
  unfolding ladder_failure_def by (rule verdict_step_sound [OF verdict_step.recheck_failed])

lemma engine_fault_sound [simp]: "sound_db db \<Longrightarrow> sound_db (journal_engine_fault i now reason db)"
  unfolding journal_engine_fault_def by (rule verdict_step_sound [OF verdict_step.engine_down]) simp

lemma t2_success_sound [simp]: "sound_db db \<Longrightarrow> sound_db (t2_success i now d db)"
  by (simp add: t2_success_def Let_def)

lemma regular_failure_get:
  assumes "sound_db db"
  shows "get_by_id (regular_failure cfg w i now mark db) j = map_option (\<lambda>r. if live_guard i r
    then failed_row (w_draw w i) now (pc_fail_limit cfg) (hours_secs I64_MAX (pc_second_chance_min_hours cfg))
      (hours_secs 0 (pc_second_chance_spread_hours cfg)) mark r else r) (get_by_id db j)"
proof -
  have "wf_db db" using assms by (simp add: sound_db_def)
  from get_check_failed [OF this] show ?thesis by (simp add: regular_failure_def)
qed

lemma ladder_failure_get:
  "get_by_id (ladder_failure cfg i now step db) j = map_option (\<lambda>r. if ladder_guard i r
    then (if nat (max step 0) < length (pc_recheck_delays_secs cfg)
          then climb_row now (now + max (pc_recheck_delays_secs cfg ! nat (max step 0)) 0) (step + 1) r
          else Lifecycle.drop_row now r)
    else r) (get_by_id db j)"
  by (simp add: ladder_failure_def get_ladder)

lemma engine_fault_get:
  "get_by_id (journal_engine_fault i now reason db) j =
     map_option (\<lambda>r. if live_guard i r then engine_row now r else r) (get_by_id db j)"
  by (simp add: journal_engine_fault_def get_engine)

lemma t2_success_get:
  "get_by_id (t2_success i now d db) j = map_option (\<lambda>r. if succeed_guard i r
     then succeed_row now (Some (i64_or I64_MAX d)) True Ready r else r) (get_by_id db j)"
  by (simp add: t2_success_def Let_def get_check_succeeded)

lemma guard_other:
  assumes "get_by_id db j = Some r" "j \<noteq> i"
  shows "\<not> live_guard i r" "\<not> ladder_guard i r" "\<not> succeed_guard i r"
  using get_by_id_id [OF assms(1)] assms(2) by (simp_all add: live_guard_def ladder_guard_def succeed_guard_def)

lemma map_option_other: "(\<And>r. o1 = Some r \<Longrightarrow> \<not> g r) \<Longrightarrow> map_option (\<lambda>r. if g r then u r else r) o1 = o1"
  by (cases o1) simp_all

lemma verdict_other:
  assumes "j \<noteq> i"
  shows "sound_db db \<Longrightarrow> get_by_id (regular_failure cfg w i now mark db) j = get_by_id db j"
    "get_by_id (ladder_failure cfg i now step db) j = get_by_id db j"
    "get_by_id (journal_engine_fault i now reason db) j = get_by_id db j"
    "get_by_id (t2_success i now d db) j = get_by_id db j"
    "get_by_id (snd (check_succeeded i now lat rst st db)) j = get_by_id db j"
  using assms guard_other [of db j]
  by (simp_all add: regular_failure_get ladder_failure_get engine_fault_get t2_success_get get_check_succeeded
      map_option_other)

lemma quarantine_block_sound [simp]:
  "sound_db db \<Longrightarrow> sound_db (apply_quarantine_vet_block cfg w i kind step reason db)"
  by (simp add: apply_quarantine_vet_block_def)

interpretation t1_tasks: row_ops "t1_job_run cfg w" tj_id for cfg w
  by unfold_locales (auto simp: t1_job_run_def apply_vet_block_def perform_t1_check_def apply_regular_failure_def
      verdict_other Let_def split: sum.split)

interpretation recheck_tasks: row_ops "quarantine_job_run cfg w" tj_id for cfg w
  by unfold_locales (auto simp: quarantine_job_run_def apply_quarantine_vet_block_def perform_quarantine_check_def
      verdict_other Let_def split: sum.split)

interpretation revival_tasks: row_ops "revival_run tx cfg w included" r_id for tx cfg w included
  by unfold_locales (auto simp: revival_run_def perform_quarantine_t2_check_def verdict_other Let_def
      split: DelayOutcome.split)

interpretation revival_refusals: row_ops
  "\<lambda>(row, reason). apply_quarantine_vet_block cfg w (r_id row) t2_kind (r_ladder_step row) reason" "r_id \<circ> fst" for cfg w
  by unfold_locales (auto simp: apply_quarantine_vet_block_def verdict_other)

interpretation outage_stamps: row_ops "\<lambda>row. journal_engine_fault (r_id row) (w_clock w (r_id row) 0) reason" r_id
  for w reason
  by unfold_locales (auto simp: verdict_other)

interpretation t2_refusals: row_ops
  "\<lambda>(row, reason). journal_and_fail cfg w (r_id row) (w_clock w (r_id row) 0) (policy_error reason)" "r_id \<circ> fst" for cfg w
  by unfold_locales (auto simp: journal_and_fail_def verdict_other)

interpretation t2_skips: row_ops
  "\<lambda>row. journal_and_fail cfg w (r_id row) (w_clock w (r_id row) 0) not_serialized" r_id for cfg w
  by unfold_locales (auto simp: journal_and_fail_def verdict_other)

section \<open>Charges\<close>

text \<open>
  A row paid at most \<open>k\<close> steps of the fail budget: the counter went up by no more, and it is out of service,
  in quarantine or removed, only if it was before or those steps reach the limit. The scheme never changes.
\<close>

definition charged :: "nat \<Rightarrow> nat \<Rightarrow> ProxyRow option \<Rightarrow> ProxyRow option \<Rightarrow> bool" where
  "charged lim k o1 o2 \<longleftrightarrow>
     (case o1 of None \<Rightarrow> o2 = None
      | Some r \<Rightarrow> (case o2 of None \<Rightarrow> False
          | Some r' \<Rightarrow> r_fail_count r' \<le> r_fail_count r + int k \<and> r_scheme r' = r_scheme r \<and>
              (r_status r' \<in> {Quarantine, Removed} \<longrightarrow> r_status r \<in> {Quarantine, Removed} \<or> int lim \<le> r_fail_count r + int k)))"

lemma charged_refl [simp]: "charged lim k x x"
  by (simp add: charged_def split: option.split)

lemma charged_trans: "charged lim j x y \<Longrightarrow> charged lim k y z \<Longrightarrow> charged lim (j + k) x z"
  by (fastforce simp: charged_def split: option.splits)

lemma charged_free: "charged lim 0 x y \<Longrightarrow> charged lim k y z \<Longrightarrow> charged lim k x z"
  using charged_trans [of lim 0 x y k z] by simp

lemma charged_mono: "charged lim j x y \<Longrightarrow> j \<le> k \<Longrightarrow> charged lim k x y"
  by (auto simp: charged_def split: option.splits)

lemma charged_map:
  assumes "\<And>r. o1 = Some r \<Longrightarrow> r_fail_count (f r) \<le> r_fail_count r + int k" "\<And>r. r_scheme (f r) = r_scheme r"
    and "\<And>r. o1 = Some r \<Longrightarrow> r_status (f r) \<in> {Quarantine, Removed} \<Longrightarrow>
      r_status r \<in> {Quarantine, Removed} \<or> int lim \<le> r_fail_count r + int k"
  shows "charged lim k o1 (map_option f o1)"
  using assms by (auto simp: charged_def split: option.split)

lemma failure_charges:
  "sound_db db \<Longrightarrow> charged (pc_fail_limit cfg) 1 (get_by_id db j) (get_by_id (regular_failure cfg w i now mark db) j)"
  unfolding regular_failure_get
  by (rule charged_map) (auto simp: failed_row_def quarantine_row_def fail_row_def split: if_splits)

lemma get_by_id_ok: "sound_db db \<Longrightarrow> get_by_id db i = Some r \<Longrightarrow> row_ok r"
  by (auto simp: sound_db_def get_by_id_iff dest: rows_okD)

lemma success_free:
  assumes "sound_db db"
  shows "charged lim 0 (get_by_id db j) (get_by_id (snd (check_succeeded i now lat rst st db)) j)"
  unfolding get_check_succeeded using get_by_id_ok [OF assms]
  by (intro charged_map) (auto simp: succeed_row_def row_ok_def split: if_splits ProxyStatus.splits)

lemma t2_success_free:
  "sound_db db \<Longrightarrow> charged lim 0 (get_by_id db j) (get_by_id (t2_success i now d db) j)"
  unfolding t2_success_def Let_def
  using success_free [of "journal (passed_attempt i now (i64_or I64_MAX d) t2_kind) db"] by simp

lemma ladder_free: "charged lim 0 (get_by_id db j) (get_by_id (ladder_failure cfg i now step db) j)"
  unfolding ladder_failure_get
  by (rule charged_map) (auto simp: climb_row_def Lifecycle.drop_row_def ladder_guard_def split: if_splits)

lemma fault_free: "charged lim 0 (get_by_id db j) (get_by_id (journal_engine_fault i now reason db) j)"
  unfolding engine_fault_get by (rule charged_map) (auto simp: engine_row_def split: if_splits)

section \<open>The quarantine lanes charge nothing\<close>

lemma recheck_free:
  "sound_db db \<Longrightarrow> charged lim 0 (get_by_id db j) (get_by_id (quarantine_job_run cfg w job db) j)"
  using ladder_free [of lim "journal e db" for e] success_free [of "journal e db" for e]
  by (auto simp: quarantine_job_run_def apply_quarantine_vet_block_def perform_quarantine_check_def Let_def
      split: sum.split)

lemma revival_free:
  "sound_db db \<Longrightarrow> charged lim 0 (get_by_id db j) (get_by_id (revival_run tx cfg w included row db) j)"
  using ladder_free [of lim "journal e db" for e] t2_success_free fault_free
  by (auto simp: revival_run_def perform_quarantine_t2_check_def Let_def split: DelayOutcome.split)

lemma refusal_free:
  "charged lim 0 (get_by_id db j) (get_by_id (apply_quarantine_vet_block cfg w i kind step reason db) j)"
  using ladder_free [of lim "journal e db" for e] by (auto simp: apply_quarantine_vet_block_def)

lemma fold_free:
  assumes "\<And>x d. sound_db d \<Longrightarrow> sound_db (f x d) \<and> charged lim 0 (get_by_id d i) (get_by_id (f x d) i)"
    and "sound_db db"
  shows "sound_db (fold f xs db) \<and> charged lim 0 (get_by_id db i) (get_by_id (fold f xs db) i)"
  using assms(2)
proof (induction xs arbitrary: db)
  case (Cons x xs)
  from assms(1) [OF Cons.prems, of x] Cons.IH [of "f x db"] show ?case
    using charged_free by fastforce
qed simp

text \<open>A step of the process that writes rows without a charge.\<close>

definition free_step :: "nat \<Rightarrow> nat \<Rightarrow> Probe \<Rightarrow> Probe \<Rightarrow> bool" where
  "free_step lim i pb pb' \<longleftrightarrow> (sound_db (probe_db pb) \<longrightarrow>
     sound_db (probe_db pb') \<and> charged lim 0 (get_by_id (probe_db pb) i) (get_by_id (probe_db pb') i))"

lemma free_step_trans: "free_step lim i pb pb1 \<Longrightarrow> free_step lim i pb1 pb2 \<Longrightarrow> free_step lim i pb pb2"
  by (auto simp: free_step_def intro: charged_free)

lemma probe_db_simps [simp]:
  "probe_db (on_db f pb) = f (probe_db pb)" "probe_db (backoff_meow cfg now pb) = probe_db pb"
  "probe_db (meow_recovered cfg pb) = probe_db pb" "probe_db (engine_answered cfg w pb) = probe_db pb"
  "probe_db (stamp_meow_memory tx w pb) = probe_db pb" "probe_db (pb\<lparr>pb_file := x\<rparr>) = probe_db pb"
  by (simp_all add: probe_db_def on_db_def backoff_meow_def meow_recovered_def engine_answered_def meta_set_def
      stamp_meow_memory_def Let_def split: sum.split)

lemma load_batch_db: "load_batch en tx cfg w vetted pb = (res, pb') \<Longrightarrow> probe_db pb' = probe_db pb"
  by (auto simp: load_batch_def write_meow_config_def split: sum.splits option.splits prod.splits)

lemma free_fold:
  "(\<And>x d. sound_db d \<Longrightarrow> sound_db (f x d) \<and> charged lim 0 (get_by_id d i) (get_by_id (f x d) i)) \<Longrightarrow>
     free_step lim i pb (on_db (fold f xs) pb)"
  unfolding free_step_def probe_db_simps by (intro impI fold_free)

lemma free_outage: "free_step lim i pb (engine_outage cfg w batch reason pb)"
proof -
  have "free_step lim i (backoff_meow cfg (w_now w) pb) (engine_outage cfg w batch reason pb)"
    unfolding engine_outage_def journal_engine_failure_def by (rule free_fold) (simp add: fault_free)
  then show ?thesis by (simp add: free_step_def)
qed

lemma free_refusals: "free_step lim i pb (on_db (refused_revivals cfg w refused) pb)"
proof -
  have "free_step lim i pb (on_db (fold (\<lambda>(row, reason).
      apply_quarantine_vet_block cfg w (r_id row) t2_kind (r_ladder_step row) reason) refused) pb)"
    by (rule free_fold) (auto simp: refusal_free)
  then show ?thesis by (simp add: refused_revivals_def [abs_def])
qed

lemma free_revivals: "free_step lim i pb (on_db (fold (revival_run tx cfg w included) rows) pb)"
  by (rule free_fold) (simp add: revival_free revival_tasks.run_sound)

lemma free_revive: "free_step lim i pb (snd (revive_quarantined_via_t2 en tx cfg w rows pb))"
proof (cases "rows = [] \<or> w_now w < pb_retry_at pb \<or> map fst (vetted_rows cfg w rows) = []")
  case True
  then show ?thesis using free_refusals by (auto simp: revive_quarantined_via_t2_def Let_def free_step_def)
next
  case False
  let ?pb1 = "on_db (refused_revivals cfg w (refused_rows cfg w rows)) pb"
  obtain res pb2 where l: "load_batch en tx cfg w (vetted_rows cfg w rows) ?pb1 = (res, pb2)" by fastforce
  have f2: "free_step lim i pb pb2"
    using free_refusals [of lim i pb cfg w "refused_rows cfg w rows"] load_batch_db [OF l] by (simp add: free_step_def)
  have answered: "free_step lim i pb (engine_answered cfg w pb2)" using f2 by (simp add: free_step_def)
  show ?thesis
  proof (cases res)
    case (Inl x)
    then show ?thesis using False l f2 free_step_trans [OF f2 free_outage]
      by (cases x) (simp_all add: revive_quarantined_via_t2_def Let_def)
  next
    case (Inr included)
    then show ?thesis using False l free_step_trans [OF answered free_revivals]
      by (simp add: revive_quarantined_via_t2_def Let_def)
  qed
qed

lemma free_quarantine: "free_step lim i pb (snd (probe_due_quarantine en tx cfg w wl now pb))"
proof -
  let ?due = "select_due_quarantine_t2 (w_shuffle w) (w_anchor w) now (pc_sample_size cfg) (probe_db pb)"
  obtain res pb1 where r: "revive_quarantined_via_t2 en tx cfg w ?due pb = (res, pb1)" by fastforce
  have f1: "free_step lim i pb pb1" using free_revive [of lim i pb en tx cfg w ?due] r by simp
  have "free_step lim i pb1 (on_db (fold (quarantine_job_run cfg wl) jobs) pb1)" for jobs
    by (rule free_fold) (simp add: recheck_free recheck_tasks.run_sound)
  from free_step_trans [OF f1 this] f1 show ?thesis
    unfolding probe_due_quarantine_def r by (simp add: Let_def split: option.split)
qed

section \<open>The connectivity lanes charge a row once\<close>

lemma t1_job_charges:
  assumes "sound_db db"
  shows "charged (pc_fail_limit cfg) 1 (get_by_id db j) (get_by_id (t1_job_run cfg w job db) j)"
proof -
  have fail: "charged (pc_fail_limit cfg) 1 (get_by_id db j) (get_by_id (regular_failure cfg w i now m (journal e db)) j)"
    for i now m e using failure_charges [of "journal e db"] assms by simp
  have "charged (pc_fail_limit cfg) 1 (get_by_id db j) (get_by_id (snd (check_succeeded i now lat rst st (journal e db))) j)"
    for i now lat rst st e
    using success_free [of "journal e db" "pc_fail_limit cfg"] assms by (simp add: charged_mono [of _ 0])
  with fail show ?thesis
    by (auto simp: t1_job_run_def apply_vet_block_def perform_t1_check_def apply_regular_failure_def Let_def
        split: sum.split)
qed

text \<open>A row of the queue is unknown: the check either costs nothing or leaves it where the tunnel lane does not look.\<close>

definition settled_unknown :: "ProxyRow option \<Rightarrow> bool" where
  "settled_unknown x \<longleftrightarrow> (case x of Some r \<Rightarrow> r_status r \<in> {Unknown, Quarantine} | None \<Rightarrow> False)"

lemma failure_unknown:
  assumes "sound_db db" "get_by_id db i = Some r" "r_status r = Unknown"
  shows "settled_unknown (get_by_id (regular_failure cfg w i now mark db) i)"
  using assms get_by_id_id [OF assms(2)]
  by (simp add: regular_failure_get settled_unknown_def live_guard_def live_def failed_row_def quarantine_row_def fail_row_def)

lemma t1_job_unknown:
  assumes "sound_db db" "get_by_id db (tj_id job) = Some r" "r_status r = Unknown"
  shows "charged lim 0 (get_by_id db (tj_id job)) (get_by_id (t1_job_run cfg w job db) (tj_id job)) \<or>
    settled_unknown (get_by_id (t1_job_run cfg w job db) (tj_id job))"
proof -
  have fail: "settled_unknown (get_by_id (regular_failure cfg w (tj_id job) now m (journal e db)) (tj_id job))" for now m e
    using failure_unknown [of "journal e db"] assms by simp
  have "charged lim 0 (get_by_id db j) (get_by_id (snd (check_succeeded i now lat rst st (journal e db))) j)"
    for i j now lat rst st e using success_free [of "journal e db" lim] assms by simp
  with fail show ?thesis
    by (auto simp: t1_job_run_def apply_vet_block_def perform_t1_check_def apply_regular_failure_def Let_def
        split: sum.split)
qed

lemma distinct_map_filter_key:
  assumes "distinct (map key xs)" "\<And>x y. f x = Some y \<Longrightarrow> key' y = key x"
  shows "distinct (map key' (List.map_filter f xs)) \<and> key' ` set (List.map_filter f xs) \<subseteq> key ` set xs"
  using assms(1)
proof (induction xs)
  case (Cons x xs)
  then show ?case using assms(2) [of x] by (auto split: option.split)
qed simp

lemma t1_job_id: "t1_job en tx cfg w step c = Some job \<Longrightarrow> tj_id job = t1_id c"
  by (auto simp: t1_job_def Let_def split: if_splits)

lemma task_order_set [simp]: "set (in_task_order w key xs) = set xs"
  by (simp add: in_task_order_def)

lemma task_order_distinct [simp]: "distinct (map key (in_task_order w rank_key xs)) = distinct (map key xs)"
  by (rule mset_eq_imp_distinct_iff) (simp add: in_task_order_def)

lemma jobs_keys:
  assumes "distinct (map t1_id cs)"
  shows "distinct (map tj_id (List.map_filter (t1_job en tx cfg w 0) cs))"
    and "tj_id ` set (List.map_filter (t1_job en tx cfg w 0) cs) \<subseteq> t1_id ` set cs"
  by (rule conjunct1 [OF distinct_map_filter_key [OF assms]] conjunct2 [OF distinct_map_filter_key [OF assms]],
      erule t1_job_id)+

lemma run_t1_checks_unclaimed:
  assumes "run_t1_checks en tx cfg w cs pb = (lo, pb')" "sound_db (probe_db pb)" "i \<notin> set (lo_claimed lo)"
  shows "get_by_id (probe_db pb') i = get_by_id (probe_db pb) i"
proof -
  let ?jobs = "List.map_filter (t1_job en tx cfg w 0) cs"
  have pb': "probe_db pb' = fold (t1_job_run cfg w) (in_task_order w tj_id ?jobs) (probe_db pb)"
    and lo: "lo_claimed lo = map tj_id ?jobs" using assms(1) by (auto simp: run_t1_checks_def Let_def)
  show ?thesis unfolding pb' by (rule t1_tasks.all_other [OF assms(2)]) (use assms(3) lo in simp)
qed

lemma sample_unclaimed:
  assumes "probe_t1_sample en tx cfg w already pb = (lo, pb')" "sound_db (probe_db pb)" "i \<notin> set (lo_claimed lo)"
  shows "get_by_id (probe_db pb') i = get_by_id (probe_db pb) i"
  using assms run_t1_checks_unclaimed by (fastforce simp: probe_t1_sample_def Let_def split: if_splits)

lemma run_t1_checks_rows:
  assumes "run_t1_checks en tx cfg w cs pb = (lo, pb')" "sound_db (probe_db pb)" "distinct (map t1_id cs)"
  shows "sound_db (probe_db pb')"
    and "charged (pc_fail_limit cfg) (if i \<in> set (lo_claimed lo) then 1 else 0) (get_by_id (probe_db pb) i) (get_by_id (probe_db pb') i)"
    and "set (lo_claimed lo) \<subseteq> t1_id ` set cs"
proof -
  let ?jobs = "List.map_filter (t1_job en tx cfg w 0) cs"
  have pb': "probe_db pb' = fold (t1_job_run cfg w) (in_task_order w tj_id ?jobs) (probe_db pb)"
    and lo: "lo_claimed lo = map tj_id ?jobs" using assms(1) by (auto simp: run_t1_checks_def Let_def)
  show "sound_db (probe_db pb')" unfolding pb' by (rule t1_tasks.all_sound [OF assms(2)])
  show "set (lo_claimed lo) \<subseteq> t1_id ` set cs" using jobs_keys(2) [OF assms(3), of en tx cfg w] unfolding lo by simp
  show "charged (pc_fail_limit cfg) (if i \<in> set (lo_claimed lo) then 1 else 0) (get_by_id (probe_db pb) i) (get_by_id (probe_db pb') i)"
  proof (cases "i \<in> set (lo_claimed lo)")
    case True
    have "charged (pc_fail_limit cfg) 1 (get_by_id (probe_db pb) i) (get_by_id (probe_db pb') i)" unfolding pb'
      by (rule t1_tasks.all_rel [OF assms(2)]) (use jobs_keys(1) [OF assms(3)] t1_job_charges in \<open>fastforce+\<close>)
    then show ?thesis using True by simp
  next
    case False
    from run_t1_checks_unclaimed [OF assms(1,2) False] show ?thesis by simp
  qed
qed

lemma run_t1_checks_unknown:
  assumes "run_t1_checks en tx cfg w cs pb = (lo, pb')" "sound_db (probe_db pb)" "distinct (map t1_id cs)"
    and "\<And>c. c \<in> set cs \<Longrightarrow> \<exists>r. get_by_id (probe_db pb) (t1_id c) = Some r \<and> r_status r = Unknown"
  shows "charged lim 0 (get_by_id (probe_db pb) i) (get_by_id (probe_db pb') i) \<or> settled_unknown (get_by_id (probe_db pb') i)"
proof -
  let ?jobs = "List.map_filter (t1_job en tx cfg w 0) cs"
  have pb': "probe_db pb' = fold (t1_job_run cfg w) (in_task_order w tj_id ?jobs) (probe_db pb)"
    using assms(1) by (auto simp: run_t1_checks_def Let_def)
  let ?R = "\<lambda>x y. charged lim 0 x y \<or> settled_unknown y"
  have "?R (get_by_id d (tj_id job)) (get_by_id (t1_job_run cfg w job d) (tj_id job))"
    if job: "job \<in> set ?jobs" and d: "sound_db d" "get_by_id d (tj_id job) = get_by_id (probe_db pb) (tj_id job)" for job d
  proof -
    have "tj_id job \<in> t1_id ` set cs"
      by (rule subsetD [OF jobs_keys(2) [OF assms(3), of en tx cfg w]]) (use job in simp)
    then obtain c where c: "c \<in> set cs" "tj_id job = t1_id c" by blast
    from assms(4) [OF c(1)] obtain r where "get_by_id d (tj_id job) = Some r" "r_status r = Unknown"
      using d(2) c(2) by auto
    then show ?thesis using t1_job_unknown [OF d(1)] by blast
  qed
  then show ?thesis unfolding pb'
    by (intro t1_tasks.all_rel [where R = ?R, OF assms(2)]) (use jobs_keys(1) [OF assms(3)] in simp_all)
qed

lemma queued_candidates:
  assumes "sound_db db"
  shows "distinct (map t1_id (select_queued_checks db lim))"
    and "c \<in> set (select_queued_checks db lim) \<Longrightarrow> \<exists>p. get_by_id db (t1_id c) = Some p \<and> queueable db p"
proof -
  let ?f = "\<lambda>q :: ProbeRequest. (case get_by_id db (q_proxy q) of
          Some p \<Rightarrow> if queueable db p \<and> r_last_t2_failed_at p = None then Some (t1_candidate p) else None
        | None \<Rightarrow> None)"
  let ?qs = "newest_first q_requested_at (sort_key q_proxy (requests db))"
  have key: "?f q = Some c \<Longrightarrow> t1_id c = q_proxy q \<and> (\<exists>p. get_by_id db (t1_id c) = Some p \<and> queueable db p)" for q c
    using get_by_id_id [of db "q_proxy q"] by (auto simp: t1_candidate_def split: option.splits if_splits)
  have "mset (map q_proxy ?qs) = mset (map q_proxy (requests db))" by (simp add: newest_first_def)
  from mset_eq_imp_distinct_iff [OF this] have "distinct (map q_proxy ?qs)"
    using assms by (simp add: sound_db_def wf_db_def)
  then have "distinct (map t1_id (List.map_filter ?f ?qs))"
    by (rule conjunct1 [OF distinct_map_filter_key]) (rule conjunct1 [OF key])
  then show "distinct (map t1_id (select_queued_checks db lim))"
    unfolding select_queued_checks_def take_map [symmetric] by (rule distinct_take)
  show "c \<in> set (select_queued_checks db lim) \<Longrightarrow> \<exists>p. get_by_id db (t1_id c) = Some p \<and> queueable db p"
  proof -
    assume "c \<in> set (select_queued_checks db lim)"
    then have "c \<in> set (List.map_filter ?f ?qs)" unfolding select_queued_checks_def by (rule in_set_takeD)
    then have "\<exists>q \<in> set ?qs. ?f q = Some c" by (simp only: set_map_filter mem_Collect_eq)
    then obtain q where "?f q = Some c" by (rule bexE)
    from conjunct2 [OF key [OF this]] show ?thesis .
  qed
qed

lemma claim_get [simp]: "get_by_id (snd (claim_checks ids db)) i = get_by_id db i"
  by (simp add: claim_checks_def get_by_id_def)

lemma claim_sound [simp]: "sound_db db \<Longrightarrow> sound_db (snd (claim_checks ids db))"
  by (simp add: claim_checks_def requests_sound)

definition no_tunnel_row :: "ProxyRow option \<Rightarrow> bool" where
  "no_tunnel_row x \<longleftrightarrow> (case x of Some r \<Rightarrow> \<not> (r_status r \<in> {Alive, Ready} \<or> r_status r = Unknown \<and> r_scheme r = Hysteria2)
     | None \<Rightarrow> True)"

text \<open>
  A row the queue charges is claimed, so the sample skips it, and is left in a state the tunnel lane does
  not draw.
\<close>

lemma queue_lane:
  assumes "probe_queued_checks en tx cfg w pb = (lo, pb')" "sound_db (probe_db pb)"
  shows "sound_db (probe_db pb')"
    and "charged (pc_fail_limit cfg) 0 (get_by_id (probe_db pb) i) (get_by_id (probe_db pb') i) \<or>
      i \<in> set (lo_claimed lo) \<and> no_tunnel_row (get_by_id (probe_db pb') i) \<and>
      charged (pc_fail_limit cfg) 1 (get_by_id (probe_db pb) i) (get_by_id (probe_db pb') i)"
proof -
  let ?cs = "select_queued_checks (probe_db pb) (pc_sample_size cfg)"
  let ?pb1 = "on_db (\<lambda>db. snd (claim_checks (map t1_id ?cs) db)) pb"
  have "sound_db (probe_db pb') \<and> (charged (pc_fail_limit cfg) 0 (get_by_id (probe_db pb) i) (get_by_id (probe_db pb') i) \<or>
      i \<in> set (lo_claimed lo) \<and> no_tunnel_row (get_by_id (probe_db pb') i) \<and>
      charged (pc_fail_limit cfg) 1 (get_by_id (probe_db pb) i) (get_by_id (probe_db pb') i))"
  proof (cases "?cs = []")
    case True
    then show ?thesis using assms by (simp add: probe_queued_checks_def)
  next
    case False
    obtain lo1 where r: "run_t1_checks en tx cfg w ?cs ?pb1 = (lo1, pb')" and lo: "lo_claimed lo = map t1_id ?cs"
      using False assms(1) by (auto simp: probe_queued_checks_def Let_def split: prod.splits)
    note d = queued_candidates(1) [OF assms(2)]
    have s1: "sound_db (probe_db ?pb1)" using assms(2) by simp
    have unknown: "\<exists>r. get_by_id (probe_db ?pb1) (t1_id c) = Some r \<and> r_status r = Unknown" if "c \<in> set ?cs" for c
      using queued_candidates(2) [OF assms(2) that] by (auto simp: queueable_def)
    note rows = run_t1_checks_rows [OF r s1 d]
    have one: "charged (pc_fail_limit cfg) 1 (get_by_id (probe_db pb) i) (get_by_id (probe_db pb') i)"
      using rows(2) [of i] by (simp add: charged_mono [of _ 0] split: if_splits)
    show ?thesis
    proof (cases "charged (pc_fail_limit cfg) 0 (get_by_id (probe_db pb) i) (get_by_id (probe_db pb') i)")
      case True
      then show ?thesis using rows(1) by simp
    next
      case paid: False
      then have "i \<in> set (lo_claimed lo1)" using rows(2) [of i] by (simp split: if_splits)
      then have i: "i \<in> t1_id ` set ?cs" by (rule subsetD [OF rows(3)])
      then obtain c where c: "c \<in> set ?cs" "t1_id c = i" by blast
      obtain p where p: "get_by_id (probe_db pb) i = Some p" "queueable (probe_db pb) p"
        using queued_candidates(2) [OF assms(2) c(1)] c(2) by auto
      have "settled_unknown (get_by_id (probe_db pb') i)"
        using run_t1_checks_unknown [OF r s1 d unknown, of "pc_fail_limit cfg" i] paid by simp
      then have "no_tunnel_row (get_by_id (probe_db pb') i)"
        using one p by (auto simp: settled_unknown_def no_tunnel_row_def charged_def queueable_def T1_EXCLUDED_SCHEMES_def
            split: option.splits)
      then show ?thesis using rows(1) one lo i by simp
    qed
  qed
  then show "sound_db (probe_db pb')"
    and "charged (pc_fail_limit cfg) 0 (get_by_id (probe_db pb) i) (get_by_id (probe_db pb') i) \<or>
      i \<in> set (lo_claimed lo) \<and> no_tunnel_row (get_by_id (probe_db pb') i) \<and>
      charged (pc_fail_limit cfg) 1 (get_by_id (probe_db pb) i) (get_by_id (probe_db pb') i)" by blast+
qed

lemma sample_ids:
  assumes "sound_db db" "\<And>xs. mset (shuffle xs) = mset xs"
  shows "distinct (map t1_id (select_t1_candidates shuffle anchor lim db))"
proof -
  have wf: "wf_db db" using assms(1) by (simp add: sound_db_def)
  let ?rows = "select_window_sample shuffle anchor (t1_lane db) lim db"
  have sub: "set ?rows \<subseteq> set (filter (t1_lane db) (proxies db))" and d: "distinct ?rows"
    using window_rows [OF wf assms(2)] by blast+
  have "set ?rows \<subseteq> set (proxies db)" using sub by (auto dest: subsetD)
  moreover have "inj_on r_id (set (proxies db))" using wf by (simp add: wf_db_def distinct_map)
  ultimately have "distinct (map r_id ?rows)" using d by (simp add: distinct_map inj_on_subset)
  then show ?thesis by (simp add: select_t1_candidates_def t1_candidate_def comp_def)
qed

lemma sample_lane:
  assumes "probe_t1_sample en tx cfg w already pb = (lo, pb')" "sound_db (probe_db pb)"
    and "\<And>xs. mset (w_shuffle w xs) = mset xs"
  shows "sound_db (probe_db pb')"
    and "charged (pc_fail_limit cfg) (if i \<in> set (lo_claimed lo) then 1 else 0)
      (get_by_id (probe_db pb) i) (get_by_id (probe_db pb') i)"
    and "i \<in> set already \<Longrightarrow> i \<notin> set (lo_claimed lo)"
proof -
  let ?cs = "filter (\<lambda>c. t1_id c \<notin> set already)
    (select_t1_candidates (w_shuffle w) (w_anchor w) (pc_sample_size cfg) (probe_db pb))"
  have "sound_db (probe_db pb') \<and> charged (pc_fail_limit cfg) (if i \<in> set (lo_claimed lo) then 1 else 0)
      (get_by_id (probe_db pb) i) (get_by_id (probe_db pb') i) \<and> (i \<in> set already \<longrightarrow> i \<notin> set (lo_claimed lo))"
  proof (cases "?cs = []")
    case True
    then show ?thesis using assms by (auto simp: probe_t1_sample_def no_lane_def)
  next
    case False
    then have r: "run_t1_checks en tx cfg w ?cs pb = (lo, pb')"
      using assms(1) by (simp add: probe_t1_sample_def Let_def)
    have "distinct (map t1_id ?cs)" by (rule distinct_map_filter) (rule sample_ids [OF assms(2,3)])
    note rows = run_t1_checks_rows [OF r assms(2) this]
    have "i \<in> t1_id ` set ?cs \<Longrightarrow> i \<notin> set already" by auto
    then show ?thesis using rows(1) rows(2) [of i] subsetD [OF rows(3), of i] by blast
  qed
  then show "sound_db (probe_db pb')"
    and "charged (pc_fail_limit cfg) (if i \<in> set (lo_claimed lo) then 1 else 0)
      (get_by_id (probe_db pb) i) (get_by_id (probe_db pb') i)"
    and "i \<in> set already \<Longrightarrow> i \<notin> set (lo_claimed lo)" by blast+
qed

section \<open>The tunnel lane charges a row once\<close>

declare One_nat_def [simp del]

definition over :: "t2_phase \<Rightarrow> bool" where
  "over p \<longleftrightarrow> p = Judged \<or> p = Aborted"

text \<open>The engine is down for a row: its delay check gets no verdict and the ping after it none either.\<close>

definition dead :: "ProbeTexts \<Rightarrow> World \<Rightarrow> nat \<Rightarrow> bool" where
  "dead tx w i \<longleftrightarrow> (case delay_outcome tx w i of
     ServiceUnavailable e \<Rightarrow> (case ping (tx_status tx) (w_alive w i) of Inl e' \<Rightarrow> True | Inr v \<Rightarrow> False) | _ \<Rightarrow> False)"

definition t2_cost :: "ProbeTexts \<Rightarrow> World \<Rightarrow> nat \<Rightarrow> nat" where
  "t2_cost tx w i = (if dead tx w i then 0 else 1)"

definition t2_rows_ok :: "ProbeTexts \<Rightarrow> World \<Rightarrow> nat \<Rightarrow> nat list \<Rightarrow> Db \<Rightarrow> T2Run \<Rightarrow> bool" where
  "t2_rows_ok tx w lim ids db s \<longleftrightarrow> sound_db (probe_db (tr_probe s)) \<and>
     (\<forall>i. (i \<notin> set ids \<longrightarrow> tr_phase s i = Idle) \<and>
        (if over (tr_phase s i) then charged lim (t2_cost tx w i) (get_by_id db i) (get_by_id (probe_db (tr_probe s)) i)
         else get_by_id (probe_db (tr_probe s)) i = get_by_id db i))"

lemma t2_rows_okI:
  assumes "t2_rows_ok tx w lim ids db s" "i \<in> set ids" "\<not> over (tr_phase s i)"
    and "sound_db (probe_db pb)" "tr_probe s' = pb" "tr_phase s' = (tr_phase s)(i := p)" "over p"
    and "\<And>j. j \<noteq> i \<Longrightarrow> get_by_id (probe_db pb) j = get_by_id (probe_db (tr_probe s)) j"
    and "charged lim (t2_cost tx w i) (get_by_id (probe_db (tr_probe s)) i) (get_by_id (probe_db pb) i)"
  shows "t2_rows_ok tx w lim ids db s'"
  using assms by (auto simp: t2_rows_ok_def)

lemma t2_rows_ok_move:
  assumes "t2_rows_ok tx w lim ids db s" "i \<in> set ids" "\<not> over (tr_phase s i)"
    and "tr_probe s' = tr_probe s" "tr_phase s' = (tr_phase s)(i := p)" "\<not> over p"
  shows "t2_rows_ok tx w lim ids db s'"
  using assms by (auto simp: t2_rows_ok_def)

lemma t2_row_step:
  assumes "t2_rows_ok tx w lim ids db s" "i \<in> set ids" "\<not> over (tr_phase s i)"
    and "\<And>d. sound_db d \<Longrightarrow> sound_db (f d)"
    and "\<And>d j. sound_db d \<Longrightarrow> j \<noteq> i \<Longrightarrow> get_by_id (f d) j = get_by_id d j"
    and "\<And>d. sound_db d \<Longrightarrow> charged lim (t2_cost tx w i) (get_by_id d i) (get_by_id (f d) i)"
    and "probe_db (tr_probe t) = probe_db (tr_probe s)" "tr_phase t = tr_phase s" "over p"
  shows "t2_rows_ok tx w lim ids db (enter i p (on_run_db f t))"
proof (rule t2_rows_okI [OF assms(1-3)])
  have s: "sound_db (probe_db (tr_probe s))" using assms(1) by (simp add: t2_rows_ok_def)
  show "sound_db (probe_db (on_db f (tr_probe t)))" using assms(4) [OF s] assms(7) by simp
  show "get_by_id (probe_db (on_db f (tr_probe t))) j = get_by_id (probe_db (tr_probe s)) j" if "j \<noteq> i" for j
    using assms(5) [OF s that] assms(7) by simp
  show "charged lim (t2_cost tx w i) (get_by_id (probe_db (tr_probe s)) i) (get_by_id (probe_db (on_db f (tr_probe t))) i)"
    using assms(6) [OF s] assms(7) by simp
qed (use assms(8,9) in \<open>simp_all add: enter_def on_run_db_def\<close>)

lemma free_one: "charged lim 0 x y \<Longrightarrow> charged lim 1 x y"
  by (rule charged_mono [of lim 0]) simp_all

lemma free_any: "charged lim 0 x y \<Longrightarrow> charged lim k x y"
  by (rule charged_mono [of lim 0]) simp_all

lemma journaled_failure:
  assumes "sound_db d"
  shows "sound_db (regular_failure cfg w i now m (journal e d))"
    and "j \<noteq> i \<Longrightarrow> get_by_id (regular_failure cfg w i now m (journal e d)) j = get_by_id d j"
    and "charged (pc_fail_limit cfg) 1 (get_by_id d j) (get_by_id (regular_failure cfg w i now m (journal e d)) j)"
  using assms failure_charges [of "journal e d"] by (simp_all add: verdict_other)

lemma t2_step_rows:
  assumes "t2_rows_ok tx w (pc_fail_limit cfg) ids db s"
  shows "t2_rows_ok tx w (pc_fail_limit cfg) ids db (t2_step tx cfg w ids e s)"
proof (cases e)
  case (T2Start i)
  have "t2_rows_ok tx w (pc_fail_limit cfg) ids db (enter i Aborted (on_run_db (journal_engine_fault i now reason) s))"
    if "i \<in> set ids" "tr_phase s i = Idle" for now reason
    using that fault_free by (intro t2_row_step [OF assms]) (simp_all add: over_def verdict_other free_any)
  moreover have "t2_rows_ok tx w (pc_fail_limit cfg) ids db (enter i Flying s)" if "i \<in> set ids" "tr_phase s i = Idle"
    using that by (intro t2_rows_ok_move [where p = Flying, OF assms]) (simp_all add: over_def enter_def)
  ultimately show ?thesis using assms T2Start by (simp add: t2_step_def)
next
  case (T2Answer i)
  have "t2_rows_ok tx w (pc_fail_limit cfg) ids db (t2_answer tx cfg w i s)" if i: "i \<in> set ids" "tr_phase s i = Flying"
  proof (cases "delay_outcome tx w i")
    case (DelayOk x)
    then show ?thesis unfolding t2_answer_def Let_def using i t2_success_free
      by simp (intro t2_row_step [OF assms], simp_all add: over_def verdict_other free_any)
  next
    case (ProxyFailed m)
    then have "t2_cost tx w i = 1" by (simp add: t2_cost_def dead_def)
    with ProxyFailed show ?thesis unfolding t2_answer_def Let_def using i
      by simp (intro t2_row_step [OF assms], simp_all add: over_def journaled_failure)
  next
    case (ServiceUnavailable err)
    show ?thesis
    proof (cases "ping (tx_status tx) (w_alive w i)")
      case (Inl e')
      then show ?thesis unfolding t2_answer_def Let_def ServiceUnavailable using i
        by (simp add: count_failure_def) (intro t2_rows_ok_move [where p = "Counted (bg_consecutive (tr_guard s) + 1)", OF assms], simp_all add: over_def enter_def)
    next
      case (Inr v)
      then have "t2_cost tx w i = 1" using ServiceUnavailable by (simp add: t2_cost_def dead_def)
      with Inr show ?thesis unfolding t2_answer_def Let_def ServiceUnavailable using i
        by simp (intro t2_row_step [OF assms], simp_all add: over_def journal_and_fail_def journaled_failure)
    qed
  qed
  then show ?thesis using assms T2Answer by (simp add: t2_step_def)
next
  case (T2Settle i)
  have "t2_rows_ok tx w (pc_fail_limit cfg) ids db (t2_settle tx cfg w n i s)" if "i \<in> set ids" "tr_phase s i = Counted n" for n
    unfolding t2_settle_def Let_def using that fault_free
    by (simp add: case_prod_beta) (intro conjI impI t2_row_step [OF assms], simp_all add: over_def verdict_other free_any)
  then show ?thesis using assms T2Settle by (simp add: t2_step_def split: t2_phase.split)
qed

lemma run_tasks_rows:
  assumes "sound_db (probe_db pb)"
  shows "t2_rows_ok tx w (pc_fail_limit cfg) ids (probe_db pb) (run_tasks tx cfg w ids pb)"
proof -
  have "t2_rows_ok tx w (pc_fail_limit cfg) ids (probe_db pb) (fold (t2_step tx cfg w ids) es s)"
    if "t2_rows_ok tx w (pc_fail_limit cfg) ids (probe_db pb) s" for es s
    using that by (induction es arbitrary: s) (simp_all add: t2_step_rows)
  moreover have "t2_rows_ok tx w (pc_fail_limit cfg) ids (probe_db pb) (start_run pb)"
    using assms by (simp add: t2_rows_ok_def start_run_def over_def)
  ultimately show ?thesis by (simp add: run_tasks_def)
qed


lemma run_tasks_charges:
  assumes "sound_db (probe_db pb)"
  shows "charged (pc_fail_limit cfg) (if i \<in> set ids then t2_cost tx w i else 0)
    (get_by_id (probe_db pb) i) (get_by_id (probe_db (tr_probe (run_tasks tx cfg w ids pb))) i)"
proof -
  let ?s = "run_tasks tx cfg w ids pb"
  have ok: "(i \<notin> set ids \<longrightarrow> tr_phase ?s i = Idle) \<and>
      (if over (tr_phase ?s i) then charged (pc_fail_limit cfg) (t2_cost tx w i) (get_by_id (probe_db pb) i) (get_by_id (probe_db (tr_probe ?s)) i)
       else get_by_id (probe_db (tr_probe ?s)) i = get_by_id (probe_db pb) i)"
    using run_tasks_rows [OF assms] unfolding t2_rows_ok_def by blast
  show ?thesis
  proof (cases "over (tr_phase ?s i)")
    case True
    then have "i \<in> set ids" using ok by (auto simp: over_def)
    then show ?thesis using ok True by simp
  next
    case False
    then show ?thesis using ok by simp
  qed
qed

lemma sum_case_Some:
  "(case v of Inl e \<Rightarrow> None | Inr a \<Rightarrow> Some (row, a)) = Some y \<longleftrightarrow> (\<exists>a. v = Inr a \<and> y = (row, a))"
  "(case v of Inl e \<Rightarrow> Some (row, e) | Inr a \<Rightarrow> None) = Some z \<longleftrightarrow> (\<exists>e. v = Inl e \<and> z = (row, e))"
  by (cases v; auto)+

lemma refused_set: "(row, reason) \<in> set (refused_rows cfg w rows) \<longleftrightarrow>
    row \<in> set rows \<and> vet_target_addrs cfg w (r_id row) (r_host row) = Inl reason"
  by (auto simp: refused_rows_def set_map_filter sum_case_Some)

lemma vetted_set: "(row, addrs) \<in> set (vetted_rows cfg w rows) \<longleftrightarrow>
    row \<in> set rows \<and> vet_target_addrs cfg w (r_id row) (r_host row) = Inr addrs"
  by (auto simp: vetted_rows_def set_map_filter sum_case_Some)

lemma vetting_keys:
  assumes "distinct (map r_id rows)"
  shows "distinct (map (r_id \<circ> fst) (refused_rows cfg w rows))"
    and "distinct (map (r_id \<circ> fst) (vetted_rows cfg w rows))"
    and "(r_id \<circ> fst) ` set (refused_rows cfg w rows) \<subseteq> r_id ` set rows"
    and "(r_id \<circ> fst) ` set (vetted_rows cfg w rows) \<subseteq> r_id ` set rows"
proof -
  show "distinct (map (r_id \<circ> fst) (refused_rows cfg w rows))" "distinct (map (r_id \<circ> fst) (vetted_rows cfg w rows))"
    unfolding refused_rows_def vetted_rows_def
    by (rule conjunct1 [OF distinct_map_filter_key [OF assms]], auto simp: sum_case_Some)+
qed (auto simp: refused_set vetted_set)

lemma vetting_apart:
  assumes "distinct (map r_id rows)"
  shows "(r_id \<circ> fst) ` set (refused_rows cfg w rows) \<inter> (r_id \<circ> fst) ` set (vetted_rows cfg w rows) = {}"
proof (rule Int_emptyI)
  fix i assume "i \<in> (r_id \<circ> fst) ` set (refused_rows cfg w rows)" "i \<in> (r_id \<circ> fst) ` set (vetted_rows cfg w rows)"
  then obtain r1 e r2 a where r: "(r1, e) \<in> set (refused_rows cfg w rows)" "r_id r1 = i"
    "(r2, a) \<in> set (vetted_rows cfg w rows)" "r_id r2 = i" by auto
  then have "r1 = r2" using assms by (auto simp: refused_set vetted_set distinct_map dest: inj_onD)
  then show False using r by (simp add: refused_set vetted_set)
qed

lemma journal_and_fail_charges:
  "sound_db d \<Longrightarrow> charged (pc_fail_limit cfg) 1 (get_by_id d j) (get_by_id (journal_and_fail cfg w i now reason d) j)"
  unfolding journal_and_fail_def by (rule journaled_failure(3))

lemma t2_refusal_charges:
  assumes "sound_db db" "distinct (map (r_id \<circ> fst) refused)"
  shows "sound_db (refused_t2 cfg w refused db)"
    and "charged (pc_fail_limit cfg) (if i \<in> (r_id \<circ> fst) ` set refused then 1 else 0)
      (get_by_id db i) (get_by_id (refused_t2 cfg w refused db) i)"
proof -
  show "sound_db (refused_t2 cfg w refused db)" unfolding refused_t2_def by (rule t2_refusals.all_sound [OF assms(1)])
  have "charged (pc_fail_limit cfg) 1 (get_by_id db i) (get_by_id (refused_t2 cfg w refused db) i)" unfolding refused_t2_def
  proof (rule t2_refusals.all_rel [OF assms])
    fix x d assume "sound_db d"
    from journal_and_fail_charges [OF this] show "charged (pc_fail_limit cfg) 1 (get_by_id d ((r_id \<circ> fst) x))
      (get_by_id ((case x of (row, reason) \<Rightarrow>
         journal_and_fail cfg w (r_id row) (w_clock w (r_id row) 0) (policy_error reason)) d) ((r_id \<circ> fst) x))"
      by (simp add: case_prod_beta)
  qed simp
  moreover have "get_by_id (refused_t2 cfg w refused db) i = get_by_id db i" if "i \<notin> (r_id \<circ> fst) ` set refused"
    unfolding refused_t2_def by (rule t2_refusals.all_other [OF assms(1) that])
  ultimately show "charged (pc_fail_limit cfg) (if i \<in> (r_id \<circ> fst) ` set refused then 1 else 0)
      (get_by_id db i) (get_by_id (refused_t2 cfg w refused db) i)" by simp
qed

lemma t2_skip_charges:
  assumes "sound_db db" "distinct (map r_id rows)"
  shows "sound_db (skipped_t2 cfg w rows db)"
    and "charged (pc_fail_limit cfg) (if i \<in> r_id ` set rows then 1 else 0)
      (get_by_id db i) (get_by_id (skipped_t2 cfg w rows db) i)"
proof -
  show "sound_db (skipped_t2 cfg w rows db)" unfolding skipped_t2_def by (rule t2_skips.all_sound [OF assms(1)])
  have "charged (pc_fail_limit cfg) 1 (get_by_id db i) (get_by_id (skipped_t2 cfg w rows db) i)" unfolding skipped_t2_def
    by (rule t2_skips.all_rel [OF assms]) (rule journal_and_fail_charges, assumption, simp)
  moreover have "get_by_id (skipped_t2 cfg w rows db) i = get_by_id db i" if "i \<notin> r_id ` set rows"
    unfolding skipped_t2_def by (rule t2_skips.all_other [OF assms(1) that])
  ultimately show "charged (pc_fail_limit cfg) (if i \<in> r_id ` set rows then 1 else 0)
      (get_by_id db i) (get_by_id (skipped_t2 cfg w rows db) i)" by simp
qed

text \<open>The most a row of a loaded batch pays.\<close>

definition batch_cost :: "ProbeTexts \<Rightarrow> World \<Rightarrow> ProxyRow list \<Rightarrow> nat list \<Rightarrow> nat \<Rightarrow> nat" where
  "batch_cost tx w batch included i =
     (if i \<notin> r_id ` set batch then 0 else if i \<in> set included then t2_cost tx w i else 1)"

lemma check_batch_charges:
  assumes "sound_db (probe_db pb)" "distinct (map r_id batch)"
  shows "charged (pc_fail_limit cfg) (batch_cost tx w batch included i)
      (get_by_id (probe_db pb) i) (get_by_id (probe_db (snd (check_batch tx cfg w batch included pb))) i)"
proof -
  let ?skipped = "filter (\<lambda>row. r_id row \<notin> set included) batch"
  let ?ids = "map r_id (filter (\<lambda>row. r_id row \<in> set included) batch)"
  let ?pb1 = "on_db (skipped_t2 cfg w ?skipped) pb"
  let ?s = "run_tasks tx cfg w ?ids ?pb1"
  note skip = t2_skip_charges [OF assms(1) distinct_map_filter [OF assms(2), of "\<lambda>row. r_id row \<notin> set included"],
      where cfg = cfg and w = w]
  have s1: "sound_db (probe_db ?pb1)" using skip(1) by simp
  have "charged (pc_fail_limit cfg) (if i \<in> r_id ` set ?skipped then 1 else 0) (get_by_id (probe_db pb) i) (get_by_id (probe_db ?pb1) i)"
    using skip(2) by simp
  from charged_trans [OF this run_tasks_charges [OF s1, of cfg i ?ids tx w]]
  have "charged (pc_fail_limit cfg) ((if i \<in> r_id ` set ?skipped then 1 else 0) + (if i \<in> set ?ids then t2_cost tx w i else 0))
      (get_by_id (probe_db pb) i) (get_by_id (probe_db (tr_probe ?s)) i)" .
  moreover have "(if i \<in> r_id ` set ?skipped then 1 else 0) + (if i \<in> set ?ids then t2_cost tx w i else 0) \<le>
      batch_cost tx w batch included i" by (auto simp: batch_cost_def)
  ultimately have "charged (pc_fail_limit cfg) (batch_cost tx w batch included i)
      (get_by_id (probe_db pb) i) (get_by_id (probe_db (tr_probe ?s)) i)" by (rule charged_mono)
  then show ?thesis by (simp add: check_batch_def Let_def)
qed

lemma t2_rows_facts:
  assumes "sound_db db"
  shows "distinct (map r_id (t2_rows cfg already db))"
    and "r \<in> set (t2_rows cfg already db) \<Longrightarrow> get_by_id db (r_id r) = Some r \<and> t2_lane db r \<and> r_id r \<notin> set already"
proof -
  have wf: "wf_db db" using assms by (simp add: sound_db_def)
  let ?elig = "filter (t2_lane db) (proxies db)"
  let ?sorted = "sort_key (\<lambda>r. last_t2_check db (r_id r)) (sort_key r_id ?elig)"
  have "distinct (map r_id ?elig)" using wf by (intro distinct_map_filter) (simp add: wf_db_def)
  moreover have "mset (map r_id ?sorted) = mset (map r_id ?elig)" by simp
  ultimately have "distinct (map r_id ?sorted)" using mset_eq_imp_distinct_iff by blast
  then have "distinct (map r_id (select_t2_candidates (pc_sample_size cfg) db))"
    unfolding select_t2_candidates_def take_map [symmetric] by (rule distinct_take)
  then show "distinct (map r_id (t2_rows cfg already db))" unfolding t2_rows_def by (intro distinct_map_filter)
  assume "r \<in> set (t2_rows cfg already db)"
  then have r: "r \<in> set (select_t2_candidates (pc_sample_size cfg) db)" "r_id r \<notin> set already"
    by (auto simp: t2_rows_def)
  from r(1) have "r \<in> set ?sorted" unfolding select_t2_candidates_def by (rule in_set_takeD)
  then show "get_by_id db (r_id r) = Some r \<and> t2_lane db r \<and> r_id r \<notin> set already"
    using r(2) by (simp add: get_by_id_iff [OF wf])
qed

lemma t2_rows_id:
  assumes "sound_db db" "i \<in> r_id ` set (t2_rows cfg already db)"
  shows "i \<notin> set already \<and> \<not> no_tunnel_row (get_by_id db i)"
proof -
  obtain r where "r \<in> set (t2_rows cfg already db)" "r_id r = i" using assms(2) by blast
  with t2_rows_facts(2) [OF assms(1), of r cfg already] show ?thesis by (auto simp: no_tunnel_row_def t2_lane_def)
qed

lemma load_batch_included:
  assumes "load_batch en tx cfg w vetted pb = (Inr included, pb')"
  shows "included = map fst (batch_items en (add_pins vetted Map.empty) (map fst vetted))"
    and "\<exists>v. ping (tx_status tx) (w_ping w) = Inr v"
  using assms by (auto simp: load_batch_def generate_def Let_def split: sum.splits option.splits prod.splits)

text \<open>What the lane charges a row: for a refusal, and for what the loaded batch brings.\<close>

lemma tunnel_cost:
  fixes cfg w already pb
  defines "rows \<equiv> t2_rows cfg already (probe_db pb)"
  defines "vetted \<equiv> vetted_rows cfg w rows"
  assumes "sound_db (probe_db pb)"
  shows "charged (pc_fail_limit cfg) ((if i \<in> (r_id \<circ> fst) ` set (refused_rows cfg w rows) then 1 else 0) +
      (case ping (tx_status tx) (w_ping w) of Inl e \<Rightarrow> 0 | Inr v \<Rightarrow> batch_cost tx w (map fst vetted)
         (map fst (batch_items en (add_pins vetted Map.empty) (map fst vetted))) i))
    (get_by_id (probe_db pb) i) (get_by_id (probe_db (snd (probe_t2_batch en tx cfg w already pb))) i)"
    (is "charged ?lim (?a + ?b) _ _")
proof -
  let ?refused = "refused_rows cfg w rows"
  let ?pb1 = "on_db (refused_t2 cfg w ?refused) pb"
  note d = t2_rows_facts(1) [OF assms(3), of cfg already, folded rows_def]
  note keys = vetting_keys [OF d, of cfg w, folded vetted_def]
  have s1: "sound_db (probe_db ?pb1)" and one: "charged ?lim ?a (get_by_id (probe_db pb) i) (get_by_id (probe_db ?pb1) i)"
    using t2_refusal_charges [OF assms(3) keys(1)] by simp_all
  have free: "charged ?lim (?a + ?b) (get_by_id (probe_db pb) i) (get_by_id (probe_db pb') i)" if "free_step ?lim i ?pb1 pb'" for pb'
    using charged_trans [OF one free_any, of "get_by_id (probe_db pb') i" ?b] that s1 by (simp add: free_step_def)
  show ?thesis
  proof (cases "w_now w < pb_retry_at pb \<or> vetted = []")
    case True
    then have "snd (probe_t2_batch en tx cfg w already pb) = pb \<or> snd (probe_t2_batch en tx cfg w already pb) = ?pb1"
      by (auto simp: probe_t2_batch_def Let_def rows_def vetted_def)
    moreover have "charged ?lim (?a + ?b) (get_by_id (probe_db pb) i) (get_by_id (probe_db ?pb1) i)"
      by (rule free) (simp add: free_step_def)
    ultimately show ?thesis by (elim disjE) simp_all
  next
    case False
    obtain res pb2 where l: "load_batch en tx cfg w vetted ?pb1 = (res, pb2)" by fastforce
    note db2 = load_batch_db [OF l]
    show ?thesis
    proof (cases res)
      case (Inl x)
      have f2: "free_step ?lim i ?pb1 pb2" using db2 by (simp add: free_step_def)
      show ?thesis using False l Inl free [OF f2] free [OF free_step_trans [OF f2 free_outage]]
        by (cases x) (simp_all add: probe_t2_batch_def Let_def rows_def vetted_def)
    next
      case (Inr included)
      note inc = load_batch_included [OF l [unfolded Inr]]
      let ?pb3 = "stamp_meow_memory tx w (engine_answered cfg w pb2)"
      have "probe_db ?pb3 = probe_db ?pb1" using db2 by simp
      then have "charged ?lim ?b (get_by_id (probe_db ?pb1) i)
          (get_by_id (probe_db (snd (check_batch tx cfg w (map fst vetted) included ?pb3))) i)"
        using check_batch_charges [of ?pb3 "map fst vetted" cfg tx w included i] s1 keys(2) inc by auto
      from charged_trans [OF one this] show ?thesis
        using False l Inr by (simp add: probe_t2_batch_def Let_def case_prod_beta rows_def vetted_def)
    qed
  qed
qed

lemma tunnel_lane:
  assumes "sound_db (probe_db pb)"
  shows "charged (pc_fail_limit cfg) (if i \<in> set already \<or> no_tunnel_row (get_by_id (probe_db pb) i) then 0 else 1)
    (get_by_id (probe_db pb) i) (get_by_id (probe_db (snd (probe_t2_batch en tx cfg w already pb))) i)"
proof (rule charged_mono [OF tunnel_cost [OF assms]])
  let ?rows = "t2_rows cfg already (probe_db pb)"
  let ?refused = "refused_rows cfg w ?rows" and ?vetted = "vetted_rows cfg w ?rows"
  note d = t2_rows_facts(1) [OF assms, of cfg already]
  note keys = vetting_keys [OF d, of cfg w]
  have img: "r_id ` set (map fst ?vetted) = (r_id \<circ> fst) ` set ?vetted" by (simp add: image_comp)
  have "i \<in> r_id ` set ?rows" if "i \<in> (r_id \<circ> fst) ` set ?refused \<or> i \<in> (r_id \<circ> fst) ` set ?vetted"
    using that subsetD [OF keys(3), of i] subsetD [OF keys(4), of i] by blast
  then have in_rows: "i \<notin> set already \<and> \<not> no_tunnel_row (get_by_id (probe_db pb) i)"
    if "i \<in> (r_id \<circ> fst) ` set ?refused \<or> i \<in> (r_id \<circ> fst) ` set ?vetted"
    using that t2_rows_id [OF assms] by blast
  have apart: "\<not> (i \<in> (r_id \<circ> fst) ` set ?refused \<and> i \<in> (r_id \<circ> fst) ` set ?vetted)"
    using vetting_apart [OF d, of cfg w] by blast
  have cost: "batch_cost tx w (map fst ?vetted) included i \<le> (if i \<in> (r_id \<circ> fst) ` set ?vetted then 1 else 0)" for included
    unfolding batch_cost_def img t2_cost_def by simp
  define c where "c = (case ping (tx_status tx) (w_ping w) of Inl e \<Rightarrow> 0 | Inr v \<Rightarrow> batch_cost tx w (map fst ?vetted)
         (map fst (batch_items en (add_pins ?vetted Map.empty) (map fst ?vetted))) i)"
  have "c \<le> (if i \<in> (r_id \<circ> fst) ` set ?vetted then 1 else 0)"
    using cost unfolding c_def by (cases "ping (tx_status tx) (w_ping w)") simp_all
  then have "(if i \<in> (r_id \<circ> fst) ` set ?refused then 1 else 0) + c
    \<le> (if i \<in> set already \<or> no_tunnel_row (get_by_id (probe_db pb) i) then 0 else 1)"
    using in_rows apart
    by (cases "i \<in> (r_id \<circ> fst) ` set ?refused"; cases "i \<in> (r_id \<circ> fst) ` set ?vetted") (simp_all only: if_True if_False, simp_all)
  then show "(if i \<in> (r_id \<circ> fst) ` set ?refused then 1 else 0) +
      (case ping (tx_status tx) (w_ping w) of Inl e \<Rightarrow> 0 | Inr v \<Rightarrow> batch_cost tx w (map fst ?vetted)
         (map fst (batch_items en (add_pins ?vetted Map.empty) (map fst ?vetted))) i)
    \<le> (if i \<in> set already \<or> no_tunnel_row (get_by_id (probe_db pb) i) then 0 else 1)"
    unfolding c_def .
qed

section \<open>A cycle\<close>

text \<open>The shuffles of a cycle's draws only reorder.\<close>

definition fair_worlds :: "(lane \<Rightarrow> World) \<Rightarrow> bool" where
  "fair_worlds ws \<longleftrightarrow> (\<forall>l xs. mset (w_shuffle (ws l) xs) = mset xs)"

lemma cycle_charges:
  assumes "sound_db (probe_db pb)" "fair_worlds ws"
  shows "charged (pc_fail_limit cfg) 1 (get_by_id (probe_db pb) i) (get_by_id (probe_db (run_cycle en tx cfg ws now pb)) i)"
proof -
  let ?lim = "pc_fail_limit cfg"
  obtain q pb1 where q: "probe_due_quarantine en tx cfg (ws ReviveLane) (ws LadderLane) now pb = (q, pb1)" by fastforce
  obtain lq pb2 where l2: "probe_queued_checks en tx cfg (ws QueueLane) pb1 = (lq, pb2)" by fastforce
  obtain lt pb3 where l3: "probe_t1_sample en tx cfg (ws SampleLane) (lo_claimed lq) pb2 = (lt, pb3)" by fastforce
  let ?pb4 = "snd (probe_t2_batch en tx cfg (ws TunnelLane) (lo_claimed lt) pb3)"
  let ?g = "\<lambda>p. get_by_id (probe_db p) i"
  have s1: "sound_db (probe_db pb1)" and c1: "charged ?lim 0 (?g pb) (?g pb1)"
    using free_quarantine [of ?lim i pb en tx cfg "ws ReviveLane" "ws LadderLane" now] q assms(1) by (simp_all add: free_step_def)
  note two = queue_lane [OF l2 s1]
  have perm: "mset (w_shuffle (ws SampleLane) xs) = mset xs" for xs using assms(2) by (simp add: fair_worlds_def)
  note three = sample_lane [OF l3 two(1) perm]
  note four = tunnel_lane [OF three(1), of cfg i "lo_claimed lt" en tx "ws TunnelLane"]
  have rest: "charged ?lim 1 (?g pb1) (?g ?pb4)"
  proof (cases "charged ?lim 0 (?g pb1) (?g pb2)")
    case True
    have "charged ?lim 1 (?g pb2) (?g ?pb4)"
    proof (cases "i \<in> set (lo_claimed lt)")
      case True
      then have "charged ?lim 1 (?g pb2) (?g pb3)" "charged ?lim 0 (?g pb3) (?g ?pb4)" using three(2) [of i] four by simp_all
      from charged_trans [OF this] show ?thesis by simp
    next
      case False
      then have "charged ?lim 0 (?g pb2) (?g pb3)" using three(2) [of i] by simp
      moreover have "charged ?lim 1 (?g pb3) (?g ?pb4)" by (rule charged_mono [OF four]) simp
      ultimately show ?thesis by (rule charged_free)
    qed
    with True show ?thesis by (rule charged_free)
  next
    case False
    with two(2) [of i] have paid: "i \<in> set (lo_claimed lq)" "no_tunnel_row (?g pb2)" "charged ?lim 1 (?g pb1) (?g pb2)" by blast+
    have "i \<notin> set (lo_claimed lt)" using three(3) paid(1) by blast
    then have same: "?g pb3 = ?g pb2" by (rule sample_unclaimed [OF l3 two(1)])
    have "charged ?lim 0 (?g pb3) (?g ?pb4)" using four paid(2) same by simp
    then show ?thesis using charged_trans [OF paid(3), of 0] same by simp
  qed
  show ?thesis
  proof (cases q)
    case None
    then show ?thesis using q free_one [OF c1] by (simp add: run_cycle_def)
  next
    case (Some n)
    then show ?thesis using q l2 l3 charged_free [OF c1 rest] by (simp add: run_cycle_def)
  qed
qed

end
