(* ===== verification/Probe_Engine.thy ===== *)
theory Probe_Engine
  imports Probe_Properties Lifecycle_Properties Ingest_Properties
begin

text \<open>
  The tunnel engine as the probe meets it: when a batch gives up on it, what an outage costs the rows and the
  engine, how the retries back off, and which hosts the engine and the dialer are told to connect to.
\<close>

section \<open>When a batch gives up\<close>

definition meow_state :: "Probe \<Rightarrow> int \<times> int" where
  "meow_state pb = (pb_retry_at pb, pb_backoff_secs pb)"

lemma meow_state_on_db [simp]: "meow_state (on_db f pb) = meow_state pb"
  by (simp add: meow_state_def on_db_def)

lemma meow_state_backoff: "meow_state (backoff_meow cfg t pb) = meow_state (backoff_meow cfg t pb')"
  if "meow_state pb = meow_state pb'"
  using that by (simp add: meow_state_def backoff_meow_def Let_def)

definition counted :: "t2_phase \<Rightarrow> bool" where
  "counted p \<longleftrightarrow> (case p of Judged \<Rightarrow> True | Counted n \<Rightarrow> True | _ \<Rightarrow> False)"

text \<open>The rows of the batch whose task met a dead engine.\<close>

definition dead_rows :: "ProbeTexts \<Rightarrow> World \<Rightarrow> nat list \<Rightarrow> T2Run \<Rightarrow> nat set" where
  "dead_rows tx w ids s = {i \<in> set ids. dead tx w i \<and> counted (tr_phase s i)}"

definition guard_ok :: "ProbeTexts \<Rightarrow> ProbeConfig \<Rightarrow> World \<Rightarrow> nat list \<Rightarrow> Probe \<Rightarrow> T2Run \<Rightarrow> bool" where
  "guard_ok tx cfg w ids pb s \<longleftrightarrow> bg_threshold (tr_guard s) = MEOW_ABORT_THRESHOLD \<and>
     bg_consecutive (tr_guard s) \<le> card (dead_rows tx w ids s) \<and>
     (\<forall>i \<in> set ids. case tr_phase s i of Counted n \<Rightarrow> n \<le> card (dead_rows tx w ids s) | _ \<Rightarrow> True) \<and>
     (if bg_aborted (tr_guard s)
      then MEOW_ABORT_THRESHOLD \<le> card (dead_rows tx w ids s) \<and>
        (\<exists>t. meow_state (tr_probe s) = meow_state (backoff_meow cfg t pb))
      else meow_state (tr_probe s) = meow_state pb)"

lemma dead_rows_finite [simp]: "finite (dead_rows tx w ids s)"
  by (simp add: dead_rows_def)

lemma guard_ok_mono:
  assumes "guard_ok tx cfg w ids pb s" "dead_rows tx w ids s \<subseteq> dead_rows tx w ids s'"
    and "bg_threshold (tr_guard s') = bg_threshold (tr_guard s)" "bg_aborted (tr_guard s') = bg_aborted (tr_guard s)"
    and "bg_consecutive (tr_guard s') \<le> card (dead_rows tx w ids s')"
    and "\<And>i n. i \<in> set ids \<Longrightarrow> tr_phase s' i = Counted n \<Longrightarrow> tr_phase s i = Counted n \<or> n \<le> card (dead_rows tx w ids s')"
    and "meow_state (tr_probe s') = meow_state (tr_probe s)"
  shows "guard_ok tx cfg w ids pb s'"
proof -
  have le: "card (dead_rows tx w ids s) \<le> card (dead_rows tx w ids s')" by (rule card_mono) (use assms(2) in simp_all)
  have "n \<le> card (dead_rows tx w ids s')" if "i \<in> set ids" "tr_phase s' i = Counted n" for i n
    using assms(6) [OF that] assms(1) that(1) le by (fastforce simp: guard_ok_def)
  then show ?thesis using assms le by (auto simp: guard_ok_def split: t2_phase.split)
qed

lemma dead_rows_same:
  assumes "tr_phase s' = (tr_phase s)(i := p)" "counted p = counted (tr_phase s i) \<or> \<not> dead tx w i"
  shows "dead_rows tx w ids s' = dead_rows tx w ids s"
  using assms by (auto simp: dead_rows_def)

text \<open>A task moves on without a new count.\<close>

lemma guard_ok_same:
  assumes "guard_ok tx cfg w ids pb s" "tr_phase s' = (tr_phase s)(i := p)" "counted p = counted (tr_phase s i) \<or> \<not> dead tx w i"
    and "\<And>n. p \<noteq> Counted n" "bg_threshold (tr_guard s') = bg_threshold (tr_guard s)"
    and "bg_aborted (tr_guard s') = bg_aborted (tr_guard s)" "bg_consecutive (tr_guard s') \<le> bg_consecutive (tr_guard s)"
    and "meow_state (tr_probe s') = meow_state (tr_probe s)"
  shows "guard_ok tx cfg w ids pb s'"
proof (rule guard_ok_mono [OF assms(1) _ assms(5,6)])
  note same = dead_rows_same [OF assms(2,3), of ids]
  show "dead_rows tx w ids s \<subseteq> dead_rows tx w ids s'" unfolding same by simp
  have "bg_consecutive (tr_guard s) \<le> card (dead_rows tx w ids s)" using assms(1) by (simp add: guard_ok_def)
  then show "bg_consecutive (tr_guard s') \<le> card (dead_rows tx w ids s')" using assms(7) unfolding same by simp
  show "tr_phase s j = Counted n \<or> n \<le> card (dead_rows tx w ids s')" if "tr_phase s' j = Counted n" for j n
    using that assms(4) [of n] unfolding assms(2) by (auto split: if_splits)
qed (rule assms(8))

lemma run_fields [simp]:
  "tr_phase (enter i p s) = (tr_phase s)(i := p)" "tr_guard (enter i p s) = tr_guard s" "tr_probe (enter i p s) = tr_probe s"
  "tr_phase (on_run_db f s) = tr_phase s" "tr_guard (on_run_db f s) = tr_guard s"
  "tr_probe (on_run_db f s) = on_db f (tr_probe s)"
  by (simp_all add: enter_def on_run_db_def)

lemma counted_simps [simp]:
  "\<not> counted Idle" "\<not> counted Flying" "\<not> counted Aborted" "counted Judged" "counted (Counted n)"
  by (simp_all add: counted_def)

lemma guard_ok_step:
  assumes "guard_ok tx cfg w ids pb s"
  shows "guard_ok tx cfg w ids pb (t2_step tx cfg w ids e s)"
proof (cases e)
  case (T2Start i)
  have "guard_ok tx cfg w ids pb (enter i Aborted (on_run_db f s))" if "tr_phase s i = Idle" for f
    by (rule guard_ok_same [where p = Aborted and i = i, OF assms]) (use that in simp_all)
  moreover have "guard_ok tx cfg w ids pb (enter i Flying s)" if "tr_phase s i = Idle"
    by (rule guard_ok_same [where p = Flying and i = i, OF assms]) (use that in simp_all)
  ultimately show ?thesis using assms T2Start by (simp add: t2_step_def)
next
  case (T2Answer i)
  have "guard_ok tx cfg w ids pb (t2_answer tx cfg w i s)" if i: "i \<in> set ids" "tr_phase s i = Flying"
  proof (cases "dead tx w i")
    case False
    have "guard_ok tx cfg w ids pb (enter i Judged (on_run_db f (s\<lparr>tr_guard := g\<rparr>)))"
      if "g = tr_guard s \<or> g = record_recovered (tr_guard s)" for f g
      by (rule guard_ok_same [where p = Judged and i = i, OF assms]) (use that False in \<open>auto simp: record_recovered_def\<close>)
    from this [of "tr_guard s"] this [of "record_recovered (tr_guard s)"] show ?thesis using False
      by (auto simp: t2_answer_def Let_def dead_def split: DelayOutcome.splits sum.splits)
  next
    case True
    let ?n = "bg_consecutive (tr_guard s) + 1"
    let ?s' = "enter i (Counted ?n) (s\<lparr>tr_guard := (tr_guard s)\<lparr>bg_consecutive := ?n\<rparr>\<rparr>)"
    have d: "dead_rows tx w ids ?s' = insert i (dead_rows tx w ids s)" "i \<notin> dead_rows tx w ids s"
      using i True by (auto simp: dead_rows_def)
    have "bg_consecutive (tr_guard s) \<le> card (dead_rows tx w ids s)" using assms by (simp add: guard_ok_def)
    then have n: "?n \<le> card (dead_rows tx w ids ?s')" unfolding d(1) using d(2) by simp
    have "guard_ok tx cfg w ids pb ?s'"
    proof (rule guard_ok_mono [OF assms])
      show "dead_rows tx w ids s \<subseteq> dead_rows tx w ids ?s'" unfolding d(1) by auto
      show "tr_phase s j = Counted k \<or> k \<le> card (dead_rows tx w ids ?s')" if "tr_phase ?s' j = Counted k" for j k
        using that n by (cases "j = i") auto
    qed (use n in simp_all)
    then show ?thesis using True
      by (auto simp: t2_answer_def Let_def dead_def count_failure_def split: DelayOutcome.splits sum.splits)
  qed
  then show ?thesis using assms T2Answer by (simp add: t2_step_def)
next
  case (T2Settle i)
  have "guard_ok tx cfg w ids pb (t2_settle tx cfg w n i s)" if i: "i \<in> set ids" "tr_phase s i = Counted n" for n
  proof -
    have n: "n \<le> card (dead_rows tx w ids s)" using assms i by (fastforce simp: guard_ok_def)
    show ?thesis
    proof (cases "MEOW_ABORT_THRESHOLD \<le> n \<and> \<not> bg_aborted (tr_guard s)")
      case True
      let ?s' = "t2_settle tx cfg w n i s"
      have first: "settle_failure n (tr_guard s) = (True, (tr_guard s)\<lparr>bg_aborted := True\<rparr>)"
        using True assms by (simp add: settle_failure_def guard_ok_def)
      have phase: "tr_phase ?s' = (tr_phase s)(i := Judged)" and g: "tr_guard ?s' = (tr_guard s)\<lparr>bg_aborted := True\<rparr>"
        and m: "meow_state (tr_probe ?s') = meow_state (backoff_meow cfg (w_clock w i 1) (tr_probe s))"
        by (simp_all add: t2_settle_def first Let_def)
      have same: "dead_rows tx w ids ?s' = dead_rows tx w ids s"
        by (rule dead_rows_same [OF phase]) (use i in simp)
      have "meow_state (tr_probe s) = meow_state pb" using assms True by (simp add: guard_ok_def)
      from meow_state_backoff [OF this] m have "\<exists>t. meow_state (tr_probe ?s') = meow_state (backoff_meow cfg t pb)" by metis
      moreover have "case tr_phase ?s' j of Counted k \<Rightarrow> k \<le> card (dead_rows tx w ids ?s') | _ \<Rightarrow> True" if "j \<in> set ids" for j
        using assms that unfolding same phase guard_ok_def by simp
      ultimately show ?thesis using assms n True unfolding guard_ok_def same g by simp
    next
      case False
      then have "\<exists>g. settle_failure n (tr_guard s) = (False, g) \<and> bg_threshold g = bg_threshold (tr_guard s) \<and>
          bg_aborted g = bg_aborted (tr_guard s) \<and> bg_consecutive g = bg_consecutive (tr_guard s)"
        using assms by (auto simp: settle_failure_def guard_ok_def)
      then obtain g where g: "settle_failure n (tr_guard s) = (False, g)" "bg_threshold g = bg_threshold (tr_guard s)"
          "bg_aborted g = bg_aborted (tr_guard s)" "bg_consecutive g = bg_consecutive (tr_guard s)" by blast
      have "guard_ok tx cfg w ids pb (enter i Judged (on_run_db f (s\<lparr>tr_guard := g\<rparr>)))" for f
        by (rule guard_ok_same [where p = Judged and i = i, OF assms]) (use g i in simp_all)
      then show ?thesis by (simp add: t2_settle_def g(1) Let_def)
    qed
  qed
  then show ?thesis using assms T2Settle by (simp add: t2_step_def split: t2_phase.split)
qed

lemma run_tasks_guard: "guard_ok tx cfg w ids pb (run_tasks tx cfg w ids pb)"
proof -
  have "guard_ok tx cfg w ids pb (fold (t2_step tx cfg w ids) es s)" if "guard_ok tx cfg w ids pb s" for es s
    using that by (induction es arbitrary: s) (simp_all add: guard_ok_step)
  moreover have "guard_ok tx cfg w ids pb (start_run pb)"
    by (simp add: guard_ok_def start_run_def new_guard_def)
  ultimately show ?thesis by (simp add: run_tasks_def)
qed

section \<open>How often a dead engine is asked\<close>

lemma tasks_in_enter:
  assumes "distinct ids" "i \<in> set ids" "tr_phase s' = (tr_phase s)(i := p)"
  shows "tasks_in P ids s' + of_bool (P (tr_phase s i)) = tasks_in P ids s + of_bool (P p)"
  using assms(1,2)
proof (induction ids)
  case (Cons j ids)
  show ?case
  proof (cases "j = i")
    case True
    then have "i \<notin> set ids" using Cons.prems(1) by simp
    then have "filter (\<lambda>k. P (tr_phase s' k)) ids = filter (\<lambda>k. P (tr_phase s k)) ids"
      unfolding assms(3) by (intro filter_cong) auto
    then show ?thesis using True assms(3) by (simp add: tasks_in_def)
  next
    case False
    then show ?thesis using Cons assms(3) by (simp add: tasks_in_def)
  qed
qed simp

lemma tasks_in_mono: "(\<And>p. P p \<Longrightarrow> Q p) \<Longrightarrow> tasks_in P ids s \<le> tasks_in Q ids s"
  by (induction ids) (auto simp: tasks_in_def)

lemma tasks_in_either: "(\<And>p. \<not> (P p \<and> Q p)) \<Longrightarrow> tasks_in (\<lambda>p. P p \<or> Q p) ids s = tasks_in P ids s + tasks_in Q ids s"
  by (induction ids) (auto simp: tasks_in_def)

text \<open>A task has asked the engine; and the failures counted below the threshold.\<close>

definition asked :: "t2_phase \<Rightarrow> bool" where
  "asked p \<longleftrightarrow> p = Judged \<or> busy p"

definition early :: "t2_phase \<Rightarrow> bool" where
  "early p \<longleftrightarrow> (case p of Judged \<Rightarrow> True | Counted n \<Rightarrow> n < MEOW_ABORT_THRESHOLD | _ \<Rightarrow> False)"

lemma phase_simps [simp]:
  "\<not> busy Idle" "busy Flying" "busy (Counted n)" "\<not> busy Judged" "\<not> busy Aborted"
  "\<not> asked Idle" "asked Flying" "asked (Counted n)" "asked Judged" "\<not> asked Aborted"
  "\<not> early Idle" "\<not> early Flying" "early (Counted n) \<longleftrightarrow> n < MEOW_ABORT_THRESHOLD" "early Judged" "\<not> early Aborted"
  by (simp_all add: busy_def asked_def early_def)

definition asks_ok :: "nat \<Rightarrow> nat list \<Rightarrow> T2Run \<Rightarrow> bool" where
  "asks_ok m ids s \<longleftrightarrow> bg_threshold (tr_guard s) = MEOW_ABORT_THRESHOLD \<and>
     tasks_in busy ids s \<le> m \<and> tasks_in asked ids s \<le> m + 2 \<and>
     (bg_aborted (tr_guard s) \<or> tasks_in early ids s = min (bg_consecutive (tr_guard s)) 2)"

lemma asks_below:
  assumes "asks_ok m ids s" "\<not> bg_aborted (tr_guard s)"
  shows "tasks_in asked ids s \<le> 2 + tasks_in busy ids s"
proof -
  have "tasks_in asked ids s = tasks_in (\<lambda>p. p = Judged) ids s + tasks_in busy ids s"
    unfolding asked_def by (rule tasks_in_either) auto
  moreover have "tasks_in (\<lambda>p. p = Judged) ids s \<le> tasks_in early ids s" by (rule tasks_in_mono) simp
  ultimately show ?thesis using assms by (simp add: asks_ok_def)
qed

lemma asks_ok_step:
  assumes "asks_ok m ids s" "distinct ids" "\<forall>i \<in> set ids. dead tx w i" "m = max (pc_concurrency cfg) 1"
  shows "asks_ok m ids (t2_step tx cfg w ids e s)"
proof (cases e)
  case (T2Start i)
  show ?thesis
  proof (cases "i \<in> set ids \<and> tr_phase s i = Idle \<and> tasks_in busy ids s < m")
    case True
    then have i: "i \<in> set ids" "tr_phase s i = Idle" "tasks_in busy ids s < m" by auto
    note count = tasks_in_enter [OF assms(2) i(1)]
    have stop: "asks_ok m ids (enter i Aborted (on_run_db f s))" for f
      using assms(1) count [of "enter i Aborted (on_run_db f s)" s Aborted busy]
        count [of "enter i Aborted (on_run_db f s)" s Aborted asked]
        count [of "enter i Aborted (on_run_db f s)" s Aborted early] i(2)
      by (simp add: asks_ok_def)
    have "asks_ok m ids (enter i Flying s)" if "\<not> bg_aborted (tr_guard s)"
      using assms(1) asks_below [OF assms(1) that] i(2,3) count [of "enter i Flying s" s Flying busy]
        count [of "enter i Flying s" s Flying asked] count [of "enter i Flying s" s Flying early]
      by (simp add: asks_ok_def)
    then show ?thesis using stop T2Start i assms(4) by (simp add: t2_step_def)
  next
    case False
    then have "\<not> (i \<in> set ids \<and> tr_phase s i = Idle \<and> tasks_in busy ids s < max (pc_concurrency cfg) 1)" using assms(4) by simp
    then show ?thesis using assms(1) T2Start by (auto simp: t2_step_def)
  qed
next
  case (T2Answer i)
  have "asks_ok m ids (t2_answer tx cfg w i s)" if i: "i \<in> set ids" "tr_phase s i = Flying"
  proof -
    let ?n = "bg_consecutive (tr_guard s) + 1"
    let ?s' = "enter i (Counted ?n) (s\<lparr>tr_guard := (tr_guard s)\<lparr>bg_consecutive := ?n\<rparr>\<rparr>)"
    note count = tasks_in_enter [OF assms(2) i(1), of ?s' s "Counted ?n"]
    have "asks_ok m ids ?s'" using assms(1) i(2) count [of busy] count [of asked] count [of early]
      by (auto simp: asks_ok_def MEOW_ABORT_THRESHOLD_def split: if_splits)
    moreover have "dead tx w i" using assms(3) i(1) by blast
    ultimately show ?thesis
      by (auto simp: t2_answer_def Let_def dead_def count_failure_def split: DelayOutcome.splits sum.splits)
  qed
  then show ?thesis using assms(1) T2Answer by (simp add: t2_step_def)
next
  case (T2Settle i)
  have "asks_ok m ids (t2_settle tx cfg w n i s)" if i: "i \<in> set ids" "tr_phase s i = Counted n" for n
  proof -
    let ?s' = "t2_settle tx cfg w n i s"
    have phase: "tr_phase ?s' = (tr_phase s)(i := Judged)" and g: "tr_guard ?s' = snd (settle_failure n (tr_guard s))"
      by (simp_all add: t2_settle_def Let_def case_prod_beta)
    note count = tasks_in_enter [OF assms(2) i(1) phase]
    show ?thesis using assms(1) i(2) count [of busy] count [of asked] count [of early]
      by (auto simp: asks_ok_def g settle_failure_def)
  qed
  then show ?thesis using assms(1) T2Settle by (simp add: t2_step_def split: t2_phase.split)
qed

lemma run_tasks_asks:
  assumes "distinct ids" "\<forall>i \<in> set ids. dead tx w i"
  shows "asks_ok (max (pc_concurrency cfg) 1) ids (run_tasks tx cfg w ids pb)"
proof -
  let ?m = "max (pc_concurrency cfg) 1"
  have "asks_ok ?m ids (fold (t2_step tx cfg w ids) es s)" if "asks_ok ?m ids s" for es s
    using that assms by (induction es arbitrary: s) (simp_all add: asks_ok_step)
  moreover have "asks_ok ?m ids (start_run pb)"
    by (simp add: asks_ok_def start_run_def new_guard_def tasks_in_def)
  ultimately show ?thesis by (simp add: run_tasks_def)
qed

section \<open>Backing off\<close>

definition back_off_at :: "ProbeConfig \<Rightarrow> int list \<Rightarrow> Probe \<Rightarrow> Probe" where
  "back_off_at cfg ts pb = fold (backoff_meow cfg) ts pb"

lemma i64_or_bounds: "1 \<le> n \<Longrightarrow> 1 \<le> i64_or I64_MAX n" "i64_or I64_MAX n \<le> I64_MAX"
  by (simp_all add: i64_or_def I64_MAX_def)

lemma back_off_closed:
  assumes "pb_backoff_secs pb = initial_backoff cfg" "initial_backoff cfg \<le> i64_or I64_MAX (pc_backoff_max_secs cfg)"
  shows "pb_backoff_secs (back_off_at cfg ts pb) =
    min (initial_backoff cfg * 2 ^ length ts) (i64_or I64_MAX (pc_backoff_max_secs cfg))"
proof -
  let ?m = "i64_or I64_MAX (pc_backoff_max_secs cfg)"
  have step: "min (min (min (a * 2 ^ n) ?m * 2) I64_MAX) ?m = min (a * 2 ^ (n + 1)) ?m" if "1 \<le> a" "a \<le> ?m" for a :: int and n
  proof -
    have "?m \<le> I64_MAX" "1 \<le> ?m" using i64_or_bounds(2) that by auto
    then show ?thesis by (simp add: power_add mult.assoc [symmetric] min_def)
  qed
  have "pb_backoff_secs (fold (backoff_meow cfg) ts p) = min (initial_backoff cfg * 2 ^ (k + length ts)) ?m"
    if "pb_backoff_secs p = min (initial_backoff cfg * 2 ^ k) ?m" for p k
    using that
  proof (induction ts arbitrary: p k)
    case (Cons t ts)
    have "pb_backoff_secs (backoff_meow cfg t p) = min (initial_backoff cfg * 2 ^ (k + 1)) ?m"
      using Cons.prems step [OF _ assms(2), of k] i64_or_bounds(1) by (simp add: backoff_meow_def Let_def initial_backoff_def)
    from Cons.IH [OF this] show ?case by (simp add: power_add ac_simps)
  qed simp
  from this [of pb 0] assms show ?thesis by (simp add: back_off_at_def)
qed


section \<open>What the engine and the dialer are told to connect to\<close>

definition allowed :: "ProbeConfig \<Rightarrow> ip_addr \<Rightarrow> bool" where
  "allowed cfg ip \<longleftrightarrow> (pc_allow_private_targets cfg \<or> \<not> blocked ip)"

lemma vetted_allowed:
  assumes "vet_target_addrs cfg w i host = Inr addrs"
  shows "addrs \<noteq> [] \<and> (\<forall>ip \<in> set addrs. allowed cfg ip)"
proof (cases "parse_ip host")
  case None
  then obtain lookup where l: "lookup \<noteq> []" "\<forall>ip \<in> set lookup. allowed cfg ip"
      and addrs: "addrs = cap_vetted (retain_first (\<lambda>ip. ip) [] lookup)"
    using assms by (cases "w_resolver w i host")
      (auto simp: vet_target_addrs_def vet_probe_host_addrs_def vet_resolved_result check_ip_iff allowed_def)
  have "retain_first (\<lambda>ip. ip) [] lookup \<noteq> []" using l(1) by (cases lookup) simp_all
  then have "0 < length addrs" unfolding addrs cap_vetted_length_eq by (simp add: MAX_VETTED_ADDRESSES_def)
  moreover have "set addrs \<subseteq> set lookup" unfolding addrs
    using subseq_set [OF cap_vetted_subseq] subseq_set [OF retain_first_subseq] by (rule subset_trans)
  ultimately show ?thesis using l(2) by (auto dest: subsetD)
next
  case (Some ip)
  then show ?thesis using assms by (auto simp: vet_target_addrs_def vet_probe_host_addrs_def bind_res_Inr check_ip_iff allowed_def)
qed

lemma first_where_mem: "first_where P xs = Some x \<Longrightarrow> x \<in> set xs"
  by (induction xs) (auto split: if_splits)

lemma pick_vetted_any: "addrs \<noteq> [] \<Longrightarrow> \<exists>ip \<in> set addrs. pick_vetted addrs AnyFamily = Some ip"
  by (cases addrs) (auto split: option.split dest: first_where_mem)

definition all_vetted :: "(ip_addr \<Rightarrow> bool) \<Rightarrow> (ProxyRow \<times> ip_addr list) list \<Rightarrow> bool" where
  "all_vetted P vetted \<longleftrightarrow> (\<forall>addrs \<in> snd ` set vetted. addrs \<noteq> [] \<and> (\<forall>ip \<in> set addrs. P ip))"

lemma all_vetted_Cons:
  "all_vetted P ((row, addrs) # rest) \<longleftrightarrow> addrs \<noteq> [] \<and> (\<forall>ip \<in> set addrs. P ip) \<and> all_vetted P rest"
  by (auto simp: all_vetted_def)

lemma add_pins_dom:
  "all_vetted P vetted \<Longrightarrow> dom (add_pins vetted pins) = dom pins \<union> r_host ` fst ` set vetted"
proof (induction vetted pins rule: add_pins.induct)
  case (2 row addrs rest pins)
  obtain ip where ip: "pick_vetted addrs AnyFamily = Some ip"
    using pick_vetted_any 2(2) by (auto simp: all_vetted_Cons)
  have "all_vetted P rest" using 2(2) by (simp add: all_vetted_Cons)
  from 2(1) [unfolded ip option.case, OF this]
  have "dom (add_pins rest (pins(r_host row \<mapsto> ip))) = insert (r_host row) (dom pins) \<union> r_host ` fst ` set rest"
    by (simp only: dom_fun_upd option.simps if_False)
  then show ?case by (simp only: add_pins.simps ip option.case list.set image_insert fst_conv Un_insert_left Un_insert_right)
qed simp

lemma add_pins_ran:
  "all_vetted P vetted \<Longrightarrow> ran pins \<subseteq> {ip. P ip} \<Longrightarrow> ran (add_pins vetted pins) \<subseteq> {ip. P ip}"
proof (induction vetted pins rule: add_pins.induct)
  case (2 row addrs rest pins)
  obtain ip where ip: "ip \<in> set addrs" "pick_vetted addrs AnyFamily = Some ip"
    using pick_vetted_any 2(2) by (auto simp: all_vetted_Cons)
  have "ran (pins(r_host row \<mapsto> ip)) \<subseteq> {ip. P ip}" "all_vetted P rest"
    using 2(2,3) ip(1) by (auto simp: all_vetted_Cons ran_def)
  from 2(1) [unfolded ip(2) option.case, OF this(2,1)] show ?case unfolding add_pins.simps ip(2) option.case .
qed simp

text \<open>A file of the engine: every proxy in it is dialed at an address the policy allows, none by its name.\<close>

definition vetted_document :: "('r, 's) engine \<Rightarrow> ProbeConfig \<Rightarrow> string \<Rightarrow> bool" where
  "vetted_document en cfg t \<longleftrightarrow> (\<exists>items. yaml_print (en_codecs en) (batch_root (pc_ipv6 cfg) items) = Some t \<and>
     (\<forall>item \<in> set items. \<exists>ip. item_server item = Some (show_ip ip) \<and> allowed cfg ip))"

definition file_ok :: "('r, 's) engine \<Rightarrow> ProbeConfig \<Rightarrow> Probe \<Rightarrow> bool" where
  "file_ok en cfg pb \<longleftrightarrow> (case pb_file pb of None \<Rightarrow> True | Some t \<Rightarrow> vetted_document en cfg t)"

lemma generated_document:
  assumes "generate en (map fst (vetted_rows cfg w rows)) (add_pins (vetted_rows cfg w rows) Map.empty) (pc_ipv6 cfg) = Some (t, ids)"
  shows "vetted_document en cfg t"
proof -
  let ?vetted = "vetted_rows cfg w rows"
  let ?pins = "add_pins ?vetted Map.empty"
  let ?items = "batch_items en ?pins (map fst ?vetted)"
  have ok: "all_vetted (allowed cfg) ?vetted" unfolding all_vetted_def
  proof
    fix addrs assume "addrs \<in> snd ` set ?vetted"
    then obtain row where "(row, addrs) \<in> set ?vetted" by force
    then show "addrs \<noteq> [] \<and> (\<forall>ip \<in> set addrs. allowed cfg ip)"
      unfolding vetted_set using vetted_allowed by blast
  qed
  have pins: "?pins h = Some ip \<Longrightarrow> allowed cfg ip" for h ip
    using subsetD [OF add_pins_ran [OF ok, of Map.empty] ranI, of h ip] by simp
  have hosts: "\<exists>ip. ?pins h = Some ip" if "h \<in> r_host ` fst ` set ?vetted" for h
    using add_pins_dom [OF ok, of Map.empty] that by (simp add: domIff) blast
  have "\<exists>ip. item_server item = Some (show_ip ip) \<and> allowed cfg ip" if "item \<in> set (map snd ?items)" for item
  proof -
    obtain i where "(i, item) \<in> set ?items" using \<open>item \<in> set (map snd ?items)\<close> by auto
    then obtain row where row: "row \<in> set (map fst ?vetted)" "proxy_to_value en ?pins row = Some item"
      unfolding batch_items_iff by blast
    have "r_host row \<in> r_host ` fst ` set ?vetted" using row(1) by simp
    from hosts [OF this] obtain ip where "?pins (r_host row) = Some ip" by blast
    with pinned_server [OF row(2) this] pins show ?thesis by blast
  qed
  moreover have "yaml_print (en_codecs en) (batch_root (pc_ipv6 cfg) (map snd ?items)) = Some t"
    using assms by (auto simp: generate_def Let_def)
  ultimately show ?thesis unfolding vetted_document_def by blast
qed

lemma file_simps [simp]:
  "pb_file (on_db f pb) = pb_file pb" "pb_file (backoff_meow cfg t pb) = pb_file pb"
  "pb_file (engine_outage cfg w batch reason pb) = pb_file pb" "pb_file (engine_answered cfg w pb) = pb_file pb"
  "pb_file (stamp_meow_memory tx w pb) = pb_file pb"
  by (simp_all add: on_db_def backoff_meow_def engine_outage_def engine_answered_def meow_recovered_def
      stamp_meow_memory_def Let_def split: sum.split)

lemma load_batch_file:
  "load_batch en tx cfg w (vetted_rows cfg w rows) pb = (res, pb') \<Longrightarrow> file_ok en cfg pb \<Longrightarrow> file_ok en cfg pb'"
  using generated_document [of en cfg w rows]
  by (auto simp: load_batch_def write_meow_config_def file_ok_def split: sum.splits option.splits prod.splits)

lemma run_tasks_file: "pb_file (tr_probe (run_tasks tx cfg w ids pb)) = pb_file pb"
proof -
  have "pb_file (tr_probe (t2_step tx cfg w ids e s)) = pb_file (tr_probe s)" for e s
    by (auto simp: t2_step_def t2_answer_def t2_settle_def Let_def case_prod_beta
        split: t2_event.split t2_phase.split DelayOutcome.split sum.split)
  then have "pb_file (tr_probe (fold (t2_step tx cfg w ids) es s)) = pb_file (tr_probe s)" for es s
    by (induction es arbitrary: s) simp_all
  then show ?thesis by (simp add: run_tasks_def start_run_def)
qed

lemma file_ok_same: "pb_file pb' = pb_file pb \<Longrightarrow> file_ok en cfg pb' = file_ok en cfg pb"
  by (simp add: file_ok_def)

lemma revive_file:
  assumes "file_ok en cfg pb"
  shows "file_ok en cfg (snd (revive_quarantined_via_t2 en tx cfg w rows pb))"
proof -
  let ?pb1 = "on_db (refused_revivals cfg w (refused_rows cfg w rows)) pb"
  obtain res pb2 where l: "load_batch en tx cfg w (vetted_rows cfg w rows) ?pb1 = (res, pb2)" by fastforce
  have 1: "file_ok en cfg ?pb1" using assms by (simp add: file_ok_def)
  note 2 = load_batch_file [OF l 1]
  show ?thesis using assms 1 2
    by (cases res rule: sum.exhaust; cases "projl res")
      (simp_all add: revive_quarantined_via_t2_def l Let_def file_ok_def split: if_splits)
qed

lemma tunnel_file:
  assumes "file_ok en cfg pb"
  shows "file_ok en cfg (snd (probe_t2_batch en tx cfg w already pb))"
proof -
  let ?rows = "t2_rows cfg already (probe_db pb)"
  let ?pb1 = "on_db (refused_t2 cfg w (refused_rows cfg w ?rows)) pb"
  obtain res pb2 where l: "load_batch en tx cfg w (vetted_rows cfg w ?rows) ?pb1 = (res, pb2)" by fastforce
  have 1: "file_ok en cfg ?pb1" using assms by (simp add: file_ok_def)
  note 2 = load_batch_file [OF l 1]
  have "pb_file (snd (check_batch tx cfg w batch included p)) = pb_file p" for batch included p
    by (simp add: check_batch_def run_tasks_file Let_def)
  then show ?thesis using assms 1 2
    by (cases res rule: sum.exhaust; cases "projl res")
      (simp_all add: probe_t2_batch_def l Let_def file_ok_def case_prod_beta split: if_splits)
qed

lemma cycle_file:
  assumes "file_ok en cfg pb"
  shows "file_ok en cfg (run_cycle en tx cfg ws now pb)"
proof -
  have t1: "pb_file (snd (run_t1_checks en tx cfg w cs p)) = pb_file p" for w cs p
    by (simp add: run_t1_checks_def Let_def)
  have queue: "pb_file (snd (probe_queued_checks en tx cfg w p)) = pb_file p" for w p
    by (simp add: probe_queued_checks_def Let_def case_prod_beta t1)
  have sample: "pb_file (snd (probe_t1_sample en tx cfg w already p)) = pb_file p" for w already p
    by (simp add: probe_t1_sample_def Let_def t1)
  have due: "file_ok en cfg (snd (probe_due_quarantine en tx cfg w wl now pb))" for w wl
  proof -
    let ?r = "revive_quarantined_via_t2 en tx cfg w
      (select_due_quarantine_t2 (w_shuffle w) (w_anchor w) now (pc_sample_size cfg) (probe_db pb)) pb"
    have "file_ok en cfg (snd ?r)" by (rule revive_file [OF assms])
    then show ?thesis
      by (cases ?r) (auto simp: probe_due_quarantine_def Let_def file_ok_def split: option.splits)
  qed
  obtain q pb1 where q: "probe_due_quarantine en tx cfg (ws ReviveLane) (ws LadderLane) now pb = (q, pb1)" by fastforce
  have 1: "file_ok en cfg pb1" using due [of "ws ReviveLane" "ws LadderLane"] q by simp
  then have "file_ok en cfg (snd (probe_t1_sample en tx cfg (ws SampleLane) claimed
      (snd (probe_queued_checks en tx cfg (ws QueueLane) pb1))))" for claimed
    by (simp add: file_ok_def sample queue)
  then show ?thesis using 1 q by (auto simp: run_cycle_def case_prod_beta Let_def tunnel_file split: option.split)
qed

declare One_nat_def [simp]

end
