(* ===== verification/Probe_Claims.thy ===== *)
theory Probe_Claims
  imports Probe_Engine
begin

text \<open>
  What a cycle of the probe promises: one step of the fail budget per row, no charge for an outage of the
  engine, one backoff per batch, a bound on the requests to a dead engine, and connections only to addresses
  the policy allows.
\<close>

section \<open>The dialer only dials what was vetted\<close>

text \<open>Two networks agree wherever the policy allows a connection.\<close>

definition same_allowed :: "ProbeConfig \<Rightarrow> T1Net \<Rightarrow> T1Net \<Rightarrow> bool" where
  "same_allowed cfg n1 n2 \<longleftrightarrow> tn_bad_name n1 = tn_bad_name n2 \<and> tn_elapsed_ms n1 = tn_elapsed_ms n2 \<and>
     (\<forall>addr. allowed cfg (sock_ip addr) \<longrightarrow> tn_connect n1 addr = tn_connect n2 addr \<and> tn_handshake n1 addr = tn_handshake n2 addr)"

lemma dial_loop_same:
  assumes "same_allowed cfg n1 n2" "\<forall>ip \<in> set ips. allowed cfg ip"
  shows "dial_loop n1 secs port e ips = dial_loop n2 secs port e ips"
  using assms(2)
proof (induction ips arbitrary: e)
  case (Cons ip ips)
  then have "tn_connect n1 (SocketAddr ip port) = tn_connect n2 (SocketAddr ip port)"
    using assms(1) by (simp add: same_allowed_def)
  then show ?case using Cons by (simp split: attempt.split)
qed simp

lemma dial_loop_addr: "dial_loop n1 secs port e ips = Inr addr \<Longrightarrow> sock_ip addr \<in> set ips"
  by (induction ips arbitrary: e) (auto split: attempt.splits)

lemma t1_run_same:
  assumes "same_allowed cfg n1 n2" "\<forall>ip \<in> set (tg_vetted target). allowed cfg ip"
  shows "t1_run n1 target a b = t1_run n2 target a b"
proof (cases "dial_loop n1 a (tg_port target) ''no vetted address to connect to'' (tg_vetted target)")
  case (Inl e)
  then show ?thesis using dial_loop_same [OF assms] by (simp add: t1_run_def)
next
  case (Inr addr)
  have "allowed cfg (sock_ip addr)" using dial_loop_addr [OF Inr] assms(2) by blast
  then show ?thesis using Inr dial_loop_same [OF assms] assms(1)
    by (auto simp: t1_run_def same_allowed_def split: option.split attempt.split)
qed

definition vetted_job :: "ProbeConfig \<Rightarrow> T1Job \<Rightarrow> bool" where
  "vetted_job cfg job \<longleftrightarrow> (case tj_verdict job of Inl e \<Rightarrow> True | Inr target \<Rightarrow> \<forall>ip \<in> set (tg_vetted target). allowed cfg ip)"

lemma t1_job_vetted: "t1_job en tx cfg w step c = Some job \<Longrightarrow> vetted_job cfg job"
  using vetted_allowed [of cfg w "t1_id c" "t1_host c"]
  by (cases "vet_target_addrs cfg w (t1_id c) (t1_host c)") (auto simp: t1_job_def vetted_job_def Let_def split: if_splits)

lemma jobs_vetted: "job \<in> set (List.map_filter (\<lambda>c. t1_job en tx cfg w (step c) (cand c)) cs) \<Longrightarrow> vetted_job cfg job"
  by (auto simp: set_map_filter dest: t1_job_vetted)

text \<open>\<open>other_net\<close>: the same world with another network.\<close>

definition other_net :: "(nat \<Rightarrow> T1Net) \<Rightarrow> World \<Rightarrow> World" where
  "other_net nets w = w\<lparr>w_net := nets\<rparr>"

lemma other_net_fields [simp]:
  "w_now (other_net n w) = w_now w" "w_clock (other_net n w) = w_clock w" "w_resolver (other_net n w) = w_resolver w"
  "w_draw (other_net n w) = w_draw w" "w_shuffle (other_net n w) = w_shuffle w" "w_anchor (other_net n w) = w_anchor w"
  "w_rank (other_net n w) = w_rank w" "w_ping (other_net n w) = w_ping w" "w_write (other_net n w) = w_write w"
  "w_reload (other_net n w) = w_reload w" "w_feed (other_net n w) = w_feed w" "w_answers (other_net n w) = w_answers w"
  "w_alive (other_net n w) = w_alive w" "w_events (other_net n w) = w_events w" "w_net (other_net n w) = n"
  by (simp_all add: other_net_def)

lemma net_free [simp]:
  "regular_failure cfg (other_net n w) = regular_failure cfg w"
  "apply_vet_block cfg (other_net n w) = apply_vet_block cfg w"
  "apply_quarantine_vet_block cfg (other_net n w) = apply_quarantine_vet_block cfg w"
  "journal_and_fail cfg (other_net n w) = journal_and_fail cfg w"
  "journal_engine_failure (other_net n w) = journal_engine_failure w"
  "delay_outcome tx (other_net n w) = delay_outcome tx w"
  "vet_target_addrs cfg (other_net n w) = vet_target_addrs cfg w"
  "in_task_order (other_net n w) = in_task_order w"
  "write_meow_config (other_net n w) = write_meow_config w"
  "engine_answered cfg (other_net n w) = engine_answered cfg w"
  "stamp_meow_memory tx (other_net n w) = stamp_meow_memory tx w"
  by (simp_all add: fun_eq_iff regular_failure_def apply_vet_block_def apply_regular_failure_def
      apply_quarantine_vet_block_def journal_and_fail_def journal_engine_failure_def delay_outcome_def
      vet_target_addrs_def in_task_order_def write_meow_config_def engine_answered_def stamp_meow_memory_def comp_def
      split: option.split sum.split)

lemma net_free_lanes [simp]:
  "perform_quarantine_t2_check tx cfg (other_net n w) = perform_quarantine_t2_check tx cfg w"
  "t1_job en tx cfg (other_net n w) = t1_job en tx cfg w"
  "vetted_rows cfg (other_net n w) = vetted_rows cfg w" "refused_rows cfg (other_net n w) = refused_rows cfg w"
  "load_batch en tx cfg (other_net n w) = load_batch en tx cfg w"
  "engine_outage cfg (other_net n w) = engine_outage cfg w"
  "refused_revivals cfg (other_net n w) = refused_revivals cfg w"
  "t2_answer tx cfg (other_net n w) = t2_answer tx cfg w" "t2_settle tx cfg (other_net n w) = t2_settle tx cfg w"
  "refused_t2 cfg (other_net n w) = refused_t2 cfg w" "skipped_t2 cfg (other_net n w) = skipped_t2 cfg w"
  by (simp_all add: fun_eq_iff perform_quarantine_t2_check_def t1_job_def vetted_rows_def refused_rows_def load_batch_def
      engine_outage_def refused_revivals_def t2_answer_def t2_settle_def refused_t2_def skipped_t2_def
      Let_def split: option.split sum.split DelayOutcome.split prod.split)

lemma net_free_passes [simp]:
  "revival_run tx cfg (other_net n w) = revival_run tx cfg w"
  "t2_step tx cfg (other_net n w) = t2_step tx cfg w"
  by (simp_all add: fun_eq_iff revival_run_def t2_step_def Let_def split: t2_event.split t2_phase.split)

lemma net_free_batches [simp]:
  "revive_quarantined_via_t2 en tx cfg (other_net n w) = revive_quarantined_via_t2 en tx cfg w"
  "run_tasks tx cfg (other_net n w) = run_tasks tx cfg w"
  by (simp_all add: fun_eq_iff revive_quarantined_via_t2_def run_tasks_def Let_def
      split: option.split sum.split prod.split)

lemma net_free_check [simp]: "check_batch tx cfg (other_net n w) = check_batch tx cfg w"
  by (simp add: fun_eq_iff check_batch_def)

lemma net_free_tunnel [simp]: "probe_t2_batch en tx cfg (other_net n w) = probe_t2_batch en tx cfg w"
  by (simp add: fun_eq_iff probe_t2_batch_def Let_def split: option.split sum.split prod.split)

lemma jobs_same:
  assumes "\<forall>i. same_allowed cfg (w_net w i) (nets i)" "vetted_job cfg job"
  shows "t1_job_run cfg (other_net nets w) job = t1_job_run cfg w job"
    and "quarantine_job_run cfg (other_net nets w) job = quarantine_job_run cfg w job"
proof -
  have "t1_run (nets i) target a b = t1_run (w_net w i) target a b" if "tj_verdict job = Inr target" for i target a b
    using t1_run_same [of cfg "w_net w i" "nets i" target a b] assms that by (simp add: vetted_job_def)
  then show "t1_job_run cfg (other_net nets w) job = t1_job_run cfg w job"
    and "quarantine_job_run cfg (other_net nets w) job = quarantine_job_run cfg w job"
    by (simp_all add: fun_eq_iff t1_job_run_def quarantine_job_run_def perform_t1_check_def perform_quarantine_check_def
        apply_regular_failure_def Let_def split: sum.split)
qed

lemma lanes_same:
  assumes "\<forall>i. same_allowed cfg (w_net w i) (nets i)"
  shows "run_t1_checks en tx cfg (other_net nets w) cs = run_t1_checks en tx cfg w cs"
    and "probe_queued_checks en tx cfg (other_net nets w) = probe_queued_checks en tx cfg w"
    and "probe_t1_sample en tx cfg (other_net nets w) = probe_t1_sample en tx cfg w"
    and "probe_due_quarantine en tx cfg wr (other_net nets w) = probe_due_quarantine en tx cfg wr w"
proof -
  have t1: "run_t1_checks en tx cfg (other_net nets w) cs = run_t1_checks en tx cfg w cs" for cs
  proof -
    let ?jobs = "in_task_order w tj_id (List.map_filter (t1_job en tx cfg w 0) cs)"
    have "t1_job_run cfg (other_net nets w) job = t1_job_run cfg w job" if "job \<in> set ?jobs" for job
      using jobs_vetted [of job en tx cfg w "\<lambda>_. 0" "\<lambda>c. c" cs] that by (intro jobs_same(1) [OF assms]) simp
    then have "fold (t1_job_run cfg (other_net nets w)) ?jobs = fold (t1_job_run cfg w) ?jobs"
      by (intro ext fold_cong) simp_all
    then show ?thesis by (simp add: fun_eq_iff run_t1_checks_def Let_def on_db_def)
  qed
  then show "run_t1_checks en tx cfg (other_net nets w) cs = run_t1_checks en tx cfg w cs" .
  show "probe_queued_checks en tx cfg (other_net nets w) = probe_queued_checks en tx cfg w"
    "probe_t1_sample en tx cfg (other_net nets w) = probe_t1_sample en tx cfg w"
    by (simp_all add: fun_eq_iff probe_queued_checks_def probe_t1_sample_def t1 Let_def)
  have jobs: "fold (quarantine_job_run cfg (other_net nets w)) (in_task_order w tj_id js) = fold (quarantine_job_run cfg w) (in_task_order w tj_id js)"
    if js: "js = List.map_filter (\<lambda>r. t1_job en tx cfg w (r_ladder_step r) (t1_candidate r)) rows" for js rows
  proof -
    have "quarantine_job_run cfg (other_net nets w) job = quarantine_job_run cfg w job" if "job \<in> set js" for job
      using jobs_vetted that unfolding js by (intro jobs_same(2) [OF assms]) blast
    then show ?thesis by (intro ext fold_cong) simp_all
  qed
  show "probe_due_quarantine en tx cfg wr (other_net nets w) = probe_due_quarantine en tx cfg wr w"
    by (simp add: fun_eq_iff probe_due_quarantine_def Let_def jobs split: prod.split option.split)
qed

lemma cycle_same:
  assumes "\<forall>l i. same_allowed cfg (w_net (ws l) i) (nets l i)"
  shows "run_cycle en tx cfg (\<lambda>l. other_net (nets l) (ws l)) now pb = run_cycle en tx cfg ws now pb"
proof -
  have "\<forall>i. same_allowed cfg (w_net (ws l) i) (nets l i)" for l using assms by blast
  note same = lanes_same [OF this]
  have due: "probe_due_quarantine en tx cfg (other_net n w) = probe_due_quarantine en tx cfg w" for n w
    by (simp add: fun_eq_iff probe_due_quarantine_def)
  show ?thesis
    by (simp add: run_cycle_def same due Let_def split: prod.split option.split)
qed


section \<open>A small probe\<close>

definition public_ip :: ip_addr where
  "public_ip = V4 (Ipv4 1 1 1 1)"

definition sample_world :: "bool \<Rightarrow> bool \<Rightarrow> World" where
  "sample_world dial engine = \<lparr>w_now = 100, w_clock = \<lambda>_ _. 100, w_resolver = \<lambda>_ _. Resolved [public_ip],
     w_net = \<lambda>_. \<lparr>tn_connect = \<lambda>_. if dial then Done else TimedOut, tn_bad_name = \<lambda>_. None,
       tn_handshake = \<lambda>_ _. Done, tn_elapsed_ms = 20\<rparr>,
     w_draw = \<lambda>_. 0, w_shuffle = \<lambda>xs. xs, w_anchor = 0, w_rank = \<lambda>i. i,
     w_ping = (if engine then Answer 200 (Inr JNull) else NoAnswer []), w_write = None, w_reload = Inr (200, []),
     w_feed = Inr (200, []), w_answers = \<lambda>_ _. NoAnswer [], w_alive = \<lambda>_. NoAnswer [], w_events = []\<rparr>"

definition sample_config :: ProbeConfig where
  "sample_config = \<lparr>pc_cycle_interval_secs = 60, pc_sample_size = 10, pc_fail_limit = 3,
     pc_allow_private_targets = False, pc_connect_timeout_secs = 5, pc_tls_timeout_secs = 5, pc_concurrency = 2,
     pc_heartbeat_interval_secs = 15, pc_second_chance_min_hours = 1, pc_second_chance_spread_hours = 0,
     pc_recheck_delays_secs = [60], pc_queue_stale_days = 7, pc_probe_results_days = 7, pc_fetch_log_days = 7,
     pc_dns_timeout = 5, pc_backoff_initial_secs = 60, pc_backoff_max_secs = 900, pc_ipv6 = False\<rparr>"

definition sample_texts :: ProbeTexts where
  "sample_texts = \<lparr>tx_json_value = \<lambda>_. [], tx_status = dec_nat, tx_memory = \<lambda>_ _. [], tx_rotation = \<lambda>_. [],
     tx_parse = \<lambda>_. Inl []\<rparr>"

definition sample_probe :: "(Scheme \<times> ProxyStatus) list \<Rightarrow> Probe" where
  "sample_probe xs = new_probe sample_config (empty_store\<lparr>st_db := sample_db xs\<rparr>)"

lemma sample_probe_db [simp]: "probe_db (sample_probe xs) = sample_db xs"
  by (simp add: sample_probe_def new_probe_def probe_db_def)

lemma sample_fair: "fair_worlds (\<lambda>_. sample_world dial engine)"
  by (simp add: fair_worlds_def sample_world_def)

section \<open>One step of the budget per cycle\<close>

lemma live_iff: "live r \<longleftrightarrow> r_status r \<noteq> Quarantine \<and> r_status r \<noteq> Removed"
  by (cases "r_status r") (auto simp: live_def)

text \<open>
  C10: one cycle charges a row at most one step of its fail budget, whichever of its five passes draw it and
  in whatever order their tasks run: the counter grows by at most one, and a row that is in service and has
  more than one step left is in service after the cycle.
\<close>

theorem cycle_charges_once:
  assumes "sound_db (probe_db pb)" "fair_worlds ws" "get_by_id (probe_db pb) i = Some r" "live r"
  shows "\<exists>r'. get_by_id (probe_db (run_cycle en tx cfg ws now pb)) i = Some r' \<and>
    r_fail_count r' \<le> r_fail_count r + 1 \<and> (if r_fail_count r + 1 < int (pc_fail_limit cfg) then live r' else True)"
proof -
  have charge: "charged (pc_fail_limit cfg) 1 (Some r) (get_by_id (probe_db (run_cycle en tx cfg ws now pb)) i)"
    using cycle_charges [OF assms(1,2), of cfg i en tx now] assms(3) by simp
  then obtain r' where r': "get_by_id (probe_db (run_cycle en tx cfg ws now pb)) i = Some r'"
    by (auto simp: charged_def split: option.splits)
  with charge assms(4) show ?thesis by (auto simp: charged_def live_iff)
qed

lemma cycle_charges_once_witness:
  "\<exists>r'. get_by_id (probe_db (run_cycle sample_engine sample_texts sample_config (\<lambda>_. sample_world False False) 100
      (sample_probe [(Vless, Alive)]))) 1 = Some r' \<and> r_fail_count r' \<le> 1 \<and> live r'"
proof -
  have "get_by_id (probe_db (sample_probe [(Vless, Alive)])) 1 = Some (sample_row 1 Vless Alive)"
    using sample_get [of 0 "[(Vless, Alive)]"] by simp
  from cycle_charges_once [OF _ sample_fair this, of sample_engine sample_texts sample_config False False 100]
  show ?thesis using sample_sound by (simp add: live_def sample_config_def)
qed


section \<open>An outage is not charged to the rows\<close>

text \<open>The engine is down: it does not answer at all, or gives no row of the batch a verdict.\<close>

definition engine_down :: "ProbeTexts \<Rightarrow> World \<Rightarrow> bool" where
  "engine_down tx w \<longleftrightarrow> (case ping (tx_status tx) (w_ping w) of Inl e \<Rightarrow> True | Inr v \<Rightarrow> False) \<or> (\<forall>i. dead tx w i)"

text \<open>
  C11: while the tunnel engine is down, because it does not answer or because none of its delay checks is a
  verdict, a tunnel pass costs a row nothing: the counter does not grow and a row in service stays in service,
  unless the address policy refuses its host or its entry cannot be written into the engine's file.
\<close>

theorem outage_spares_rows:
  assumes "sound_db (probe_db pb)" "engine_down tx w" "get_by_id (probe_db pb) i = Some r"
    and "vet_target_addrs cfg w i (r_host r) = Inr addrs" "\<And>pins. proxy_to_value en pins r \<noteq> None"
  shows "\<exists>r'. get_by_id (probe_db (snd (probe_t2_batch en tx cfg w already pb))) i = Some r' \<and>
    r_fail_count r' \<le> r_fail_count r \<and> (if live r \<and> r_fail_count r < int (pc_fail_limit cfg) then live r' else True)"
proof -
  let ?rows = "t2_rows cfg already (probe_db pb)"
  let ?vetted = "vetted_rows cfg w ?rows"
  let ?included = "map fst (batch_items en (add_pins ?vetted Map.empty) (map fst ?vetted))"
  have row: "row = r" if "row \<in> set ?rows" "r_id row = i" for row
    using t2_rows_facts(2) [OF assms(1) that(1)] that(2) assms(3) by simp
  have "i \<notin> (r_id \<circ> fst) ` set (refused_rows cfg w ?rows)"
  proof
    assume "i \<in> (r_id \<circ> fst) ` set (refused_rows cfg w ?rows)"
    then obtain row e where "(row, e) \<in> set (refused_rows cfg w ?rows)" "r_id row = i" by auto
    then show False using row assms(4) by (auto simp: refused_set)
  qed
  moreover have "batch_cost tx w (map fst ?vetted) ?included i = 0" if "\<forall>i. dead tx w i"
  proof (cases "i \<in> r_id ` set (map fst ?vetted)")
    case True
    then obtain row where m: "row \<in> set (map fst ?vetted)" "r_id row = i" by auto
    then have "row \<in> set ?rows" by (auto simp: vetted_set)
    then have "row = r" using row m(2) by blast
    then obtain item where "(i, item) \<in> set (batch_items en (add_pins ?vetted Map.empty) (map fst ?vetted))"
      using m assms(5) unfolding batch_items_iff by (metis not_None_eq)
    then have "i \<in> set ?included" by force
    then show ?thesis using that by (simp add: batch_cost_def t2_cost_def)
  qed (simp add: batch_cost_def)
  ultimately have "charged (pc_fail_limit cfg) 0 (Some r) (get_by_id (probe_db (snd (probe_t2_batch en tx cfg w already pb))) i)"
    using tunnel_cost [OF assms(1), where tx = tx and en = en and cfg = cfg and w = w and already = already and i = i] assms(2,3)
    by (auto simp: engine_down_def split: sum.splits)
  then show ?thesis by (auto simp: charged_def live_iff split: option.splits)
qed

lemma supported_value:
  assumes "to_entry (en_from_text en) r = Inr e" "t2_supported (pe_scheme e)"
  shows "proxy_to_value en pins r \<noteq> None"
proof -
  have "pe_scheme (pin_entry pins (r_host r) e) = pe_scheme e"
    by (simp add: pin_entry_def carry_server_name_def Let_def split: option.split prod.split)
  then show ?thesis using assms
    by (auto simp: proxy_to_value_def entry_to_clash_named_def clash_scheme_def t2_supported_def)
qed

lemma outage_spares_rows_witness:
  "\<exists>r'. get_by_id (probe_db (snd (probe_t2_batch sample_engine sample_texts sample_config (sample_world True False) []
      (sample_probe [(Vless, Ready)])))) 1 = Some r' \<and> r_fail_count r' \<le> 0 \<and> live r'"
proof -
  let ?r = "sample_row 1 Vless Ready"
  have row: "get_by_id (probe_db (sample_probe [(Vless, Ready)])) 1 = Some ?r"
    using sample_get [of 0 "[(Vless, Ready)]"] by simp
  have down: "engine_down sample_texts (sample_world True False)"
    by (simp add: engine_down_def sample_world_def ping_def)
  have vet: "vet_target_addrs sample_config (sample_world True False) 1 (r_host ?r) = Inr [public_ip]"
    by (simp add: vet_target_addrs_def vet_probe_host_addrs_def sample_row_def sample_world_def sample_config_def public_ip_def
        parse_ip_name hex_val_def is_digit_def code_def vet_resolved_result check_ip_def cap_vetted_def
        MAX_VETTED_ADDRESSES_def u8_and_C0 word_le_nat_alt)
  have "\<exists>e. to_entry (en_from_text sample_engine) ?r = Inr e \<and> pe_scheme e = Vless"
    by (simp add: to_entry_def column_params_def sample_row_def)
  then have "proxy_to_value sample_engine pins ?r \<noteq> None" for pins
    using supported_value by (force simp: t2_supported_def)
  from outage_spares_rows [OF _ down row vet this, of "[]"] show ?thesis
    using sample_sound by (simp add: live_def sample_config_def)
qed

section \<open>A batch and a dying engine\<close>

text \<open>
  C15: in any interleaving of the tasks of a batch the probe gives up on the engine only after three rows met a
  dead engine, and then backs off exactly once; while it has not given up, neither the moment of the next
  attempt nor the length of the backoff has moved.
\<close>

theorem batch_backs_off_once:
  "(let s = run_tasks tx cfg w ids pb in
    if bg_aborted (tr_guard s)
    then 3 \<le> card (dead_rows tx w ids s) \<and> (\<exists>t. meow_state (tr_probe s) = meow_state (backoff_meow cfg t pb))
    else meow_state (tr_probe s) = meow_state pb)"
  using run_tasks_guard [of tx cfg w ids pb] unfolding guard_ok_def Let_def MEOW_ABORT_THRESHOLD_def by simp

text \<open>
  C14: an engine that is dead for every row of a batch is asked about at most two rows more than may run
  concurrently, however long the batch is and however its tasks interleave.
\<close>

theorem dead_engine_asks_bounded:
  assumes "distinct ids" "\<forall>i \<in> set ids. dead tx w i"
  shows "tasks_in asked ids (run_tasks tx cfg w ids pb) \<le> max (pc_concurrency cfg) 1 + 2"
  using run_tasks_asks [OF assms] by (simp add: asks_ok_def)

lemma sample_dead: "dead sample_texts ((sample_world dial engine)\<lparr>w_events := es\<rparr>) i"
  by (simp add: dead_def delay_outcome_def check_delay_with_retry_def sample_world_def sample_texts_def check_delay_def ping_def
      numeral_2_eq_2)

lemma dead_engine_asks_bounded_witness:
  "tasks_in asked [1, 2, 3, 4, 5, 6, 7] (run_tasks sample_texts sample_config
     ((sample_world True True)\<lparr>w_events := concat (map (\<lambda>i. [T2Start i, T2Answer i, T2Settle i]) [1..<8])\<rparr>)
     [1, 2, 3, 4, 5, 6, 7] (sample_probe [])) \<le> 4"
proof -
  show ?thesis
    using sample_dead dead_engine_asks_bounded [of "[1, 2, 3, 4, 5, 6, 7]" sample_texts
        "(sample_world True True)\<lparr>w_events := concat (map (\<lambda>i. [T2Start i, T2Answer i, T2Settle i]) [1..<8])\<rparr>"
        sample_config "sample_probe []"]
    by (simp add: sample_config_def)
qed

section \<open>Where the probe connects to\<close>

text \<open>Cycles one after the other, each in its own worlds.\<close>

definition run_cycles where
  "run_cycles en tx cfg cycles pb = fold (\<lambda>(ws, now) p. run_cycle en tx cfg ws now p) cycles pb"

text \<open>
  C12: every file the probe ever writes for the tunnel engine names each proxy by an address the policy allows,
  never by its host name, so the engine resolves nothing and reaches no address the policy blocks.
\<close>

theorem engine_file_vetted:
  "file_ok en cfg (run_cycles en tx cfg cycles (new_probe cfg st))"
proof -
  have "file_ok en cfg (fold (\<lambda>(ws, now) p. run_cycle en tx cfg ws now p) cycles pb)" if "file_ok en cfg pb" for pb
    using that by (induction cycles arbitrary: pb) (auto simp: cycle_file)
  then show ?thesis by (simp add: run_cycles_def new_probe_def file_ok_def)
qed

text \<open>
  C13: what is behind the addresses the policy blocks has no influence on a cycle: two networks that agree on
  the allowed addresses lead to the same tables, the same file and the same backoff, whatever they answer
  elsewhere.
\<close>

theorem dials_only_vetted:
  assumes "\<forall>l i. same_allowed cfg (w_net (ws l) i) (nets l i)"
  shows "run_cycle en tx cfg (\<lambda>l. other_net (nets l) (ws l)) now pb = run_cycle en tx cfg ws now pb"
  by (rule cycle_same [OF assms])

text \<open>A network with an open port at a loopback address.\<close>

definition loopback_net :: "T1Net \<Rightarrow> T1Net" where
  "loopback_net n = n\<lparr>tn_connect := (\<lambda>addr. if sock_ip addr = V4 (Ipv4 127 0 0 1) then Done else tn_connect n addr)\<rparr>"

lemma dials_only_vetted_witness:
  "run_cycle sample_engine sample_texts sample_config
      (\<lambda>l. other_net (\<lambda>i. loopback_net (w_net (sample_world False False) i)) (sample_world False False)) 100
      (sample_probe [(Vless, Alive)]) =
    run_cycle sample_engine sample_texts sample_config (\<lambda>_. sample_world False False) 100 (sample_probe [(Vless, Alive)])"
proof -
  have "check_ip (V4 (Ipv4 127 0 0 1)) False \<noteq> Inr ()" by (simp add: check_ip_def)
  then have "\<not> allowed sample_config (V4 (Ipv4 127 0 0 1))"
    using check_ip_iff [of "V4 (Ipv4 127 0 0 1)" False] by (simp add: allowed_def sample_config_def)
  then have "same_allowed sample_config n (loopback_net n)" for n
    by (auto simp: same_allowed_def loopback_net_def)
  then show ?thesis
    using dials_only_vetted [of sample_config "\<lambda>_. sample_world False False"
        "\<lambda>l i. loopback_net (w_net (sample_world False False) i)"] by blast
qed

section \<open>Backing off\<close>

text \<open>
  After \<open>n\<close> outages in a row the next wait is the initial one doubled \<open>n\<close> times, up to the configured
  maximum; no wait is shorter than a second.
\<close>

theorem backoff_doubles:
  assumes "pb_backoff_secs pb = initial_backoff cfg" "initial_backoff cfg \<le> i64_or I64_MAX (pc_backoff_max_secs cfg)"
  shows "pb_backoff_secs (back_off_at cfg ts pb) =
      min (initial_backoff cfg * 2 ^ length ts) (i64_or I64_MAX (pc_backoff_max_secs cfg)) \<and>
    1 \<le> pb_backoff_secs (back_off_at cfg ts pb)"
proof -
  have "1 \<le> initial_backoff cfg" by (simp add: initial_backoff_def i64_or_def I64_MAX_def)
  moreover have "(1::int) \<le> 2 ^ length ts" by simp
  ultimately have "1 \<le> initial_backoff cfg * 2 ^ length ts" by (metis mult_mono' mult_1 zero_le_one)
  with \<open>1 \<le> initial_backoff cfg\<close> show ?thesis using back_off_closed [OF assms] assms(2) by simp
qed

lemma backoff_doubles_witness:
  "pb_backoff_secs (back_off_at sample_config [100, 200, 400] (sample_probe [])) = 480 \<and>
   pb_backoff_secs (back_off_at sample_config [100, 200, 400, 900, 2000] (sample_probe [])) = 900"
proof -
  have c: "pb_backoff_secs (sample_probe []) = initial_backoff sample_config" "initial_backoff sample_config = 60"
    "i64_or I64_MAX (pc_backoff_max_secs sample_config) = 900"
    by (simp_all add: sample_probe_def new_probe_def sample_config_def initial_backoff_def i64_or_def I64_MAX_def)
  show ?thesis using backoff_doubles [OF c(1), of "[100, 200, 400]"] backoff_doubles [OF c(1), of "[100, 200, 400, 900, 2000]"]
    by (simp add: c)
qed


section \<open>Two verdicts in one cycle\<close>

definition queued_pool :: Db where
  "queued_pool = (sample_db [(Vless, Unknown)])\<lparr>requests := [\<lparr>q_proxy = 1, q_requested_at = 5\<rparr>]\<rparr>"

text \<open>
  The lanes hand on what they covered so that, as the code has it, no proxy is judged twice in a cycle. The
  tunnel lane gets the rows of the sample only: a row whose queued check has passed is drawn again.
\<close>

lemma queue_then_tunnel:
  "(let pb = new_probe sample_config (empty_store\<lparr>st_db := queued_pool\<rparr>); w = sample_world True True;
        (queued, pb2) = probe_queued_checks sample_engine sample_texts sample_config w pb;
        (t1, pb3) = probe_t1_sample sample_engine sample_texts sample_config w (lo_claimed queued) pb2
    in lo_claimed queued = [1] \<and> lo_checked queued = 1 \<and> lo_claimed t1 = [] \<and>
       map r_id (t2_rows sample_config (lo_claimed t1) (probe_db pb3)) = [1])"
proof -
  note One_nat_def [simp del]
  let ?w = "sample_world True True"
  let ?r = "sample_row 1 Vless Unknown"
  let ?pb = "new_probe sample_config (empty_store\<lparr>st_db := queued_pool\<rparr>)"
  have vet: "vet_target_addrs sample_config ?w 1 (r_host ?r) = Inr [public_ip]"
    by (simp add: vet_target_addrs_def vet_probe_host_addrs_def sample_row_def sample_world_def sample_config_def public_ip_def
        parse_ip_name hex_val_def is_digit_def code_def vet_resolved_result check_ip_def cap_vetted_def
        MAX_VETTED_ADDRESSES_def u8_and_C0 word_le_nat_alt)
  have pool: "proxies queued_pool = [?r]" "links queued_pool = [\<lparr>l_proxy = 1, l_source = ''a'', l_seen_at = 0\<rparr>]"
    "requests queued_pool = [\<lparr>q_proxy = 1, q_requested_at = 5\<rparr>]" "results queued_pool = []"
    by (simp_all add: queued_pool_def sample_db_def One_nat_def)
  have db: "probe_db ?pb = queued_pool" by (simp add: new_probe_def probe_db_def)
  have sel: "select_queued_checks queued_pool 10 = [t1_candidate ?r]"
    by (simp add: select_queued_checks_def pool newest_first_def get_by_id_def queueable_def linked_def T1_EXCLUDED_SCHEMES_def)
  have cfg: "pc_sample_size sample_config = 10" by (simp add: sample_config_def)
  let ?job = "\<lparr>tj_id = 1, tj_kind = CkTcp, tj_step = 0,
    tj_verdict = Inr \<lparr>tg_host = r_host ?r, tg_port = 1, tg_kind = CkTcp, tg_vetted = [public_ip]\<rparr>\<rparr>"
  have job: "t1_job sample_engine sample_texts sample_config ?w 0 (t1_candidate ?r) = Some ?job"
    using vet by (simp add: t1_job_def t1_candidate_def Let_def check_kind_def params_enable_tls_def) (simp add: sample_row_def)
  let ?pb1 = "on_db (\<lambda>db. snd (claim_checks [1] db)) ?pb"
  let ?pb2 = "on_db (t1_job_run sample_config ?w ?job) ?pb1"
  let ?r2 = "succeed_row 100 (Some 20) True Alive ?r"
  have run: "run_t1_checks sample_engine sample_texts sample_config ?w [t1_candidate ?r] ?pb1 =
      (\<lparr>lo_checked = 1, lo_claimed = [1]\<rparr>, ?pb2)"
    by (simp add: run_t1_checks_def job in_task_order_def)
  have queue: "probe_queued_checks sample_engine sample_texts sample_config ?w ?pb =
      (\<lparr>lo_checked = 1, lo_claimed = [1]\<rparr>, ?pb2)"
    using run by (simp add: probe_queued_checks_def db cfg sel) (simp add: t1_candidate_def Let_def)
  have dial: "t1_run (w_net ?w 1) \<lparr>tg_host = r_host ?r, tg_port = 1, tg_kind = CkTcp, tg_vetted = [public_ip]\<rparr> a b = Inr 20" for a b
    by (simp add: t1_run_def sample_world_def)
  have db2: "proxies (probe_db ?pb2) = [?r2]" "links (probe_db ?pb2) = links queued_pool"
    by (simp_all add: db t1_job_run_def perform_t1_check_def dial Let_def)
      (simp_all add: check_succeeded_def update_rows_def journal_def insert_result_def claim_checks_def pool get_by_id_def
        succeed_guard_def last_failed_kind_def newest_first_def passed_attempt_def sample_world_def i64_or_def I64_MAX_def
        t2_kind_def)
  have r2: "r_id ?r2 = 1" "r_status ?r2 = Alive" "r_scheme ?r2 = Vless" by (simp_all add: succeed_row_def)
  have plain: "w_shuffle ?w = (\<lambda>xs. xs)" "w_anchor ?w = 0" by (simp_all add: sample_world_def)
  have drawn: "t1_id c \<in> r_id ` set (proxies d)" if "c \<in> set (select_t1_candidates (\<lambda>xs. xs) 0 10 d)" for c d
    using that by (auto simp: select_t1_candidates_def select_window_sample_def fetch_window_leg_def t1_candidate_def
        Let_def split: if_splits dest!: in_set_takeD)
  have "t1_id c = 1" if "c \<in> set (select_t1_candidates (w_shuffle ?w) (w_anchor ?w) 10 (probe_db ?pb2))" for c
    using drawn [OF that [unfolded plain]] r2(1) unfolding db2 by simp
  then have none: "filter (\<lambda>c. t1_id c \<notin> set [1]) (select_t1_candidates (w_shuffle ?w) (w_anchor ?w) 10 (probe_db ?pb2)) = []"
    by (simp add: filter_empty_conv)
  have sample: "probe_t1_sample sample_engine sample_texts sample_config ?w [1] ?pb2 = (no_lane, ?pb2)"
    unfolding probe_t1_sample_def Let_def cfg none by simp
  have "t2_rows sample_config [] d = [?r2]" if "proxies d = [?r2]" "links d = links queued_pool" for d
    using that r2 by (simp add: t2_rows_def select_t2_candidates_def cfg pool t2_lane_def linked_def T2_SCHEMES_def t2_supported_def)
  from this [OF db2] have "t2_rows sample_config [] (probe_db ?pb2) = [?r2]" .
  then have "map r_id (t2_rows sample_config [] (probe_db ?pb2)) = [1]" using r2(1) by simp
  then show ?thesis unfolding Let_def queue prod.case LaneOutcome.simps sample no_lane_def by simp
qed

end
