(* ===== verification/Insecure_Output.thy ===== *)
theory Insecure_Output
  imports Pipeline_Properties Writer_Agreement
begin

text \<open>
  The filter \<open>forbid_insecure\<close> of the pipeline, followed to the outputs: what a client sees of the switch that
  turns certificate verification off, in its four spellings, in a Clash item and in a sing-box outbound, and
  two ways around the filter.
\<close>

section \<open>The switch in the outputs\<close>

lemma insecure_spelled:
  "is_insecure_param x \<longleftrightarrow>
     to_ascii_lowercase (p_key x) \<in> {''insecure'', ''allowinsecure'', ''skip-cert-verify'', ''allow_insecure''} \<and>
     to_ascii_lowercase (trim (p_value x)) \<in> {''1'', ''true'', ''yes'', ''on''}"
  by (simp add: is_insecure_param_def INSECURE_ALIASES_def is_truthy_toggle_def)

lemma verify_key: "''skip-cert-verify'' \<notin> transport_keys"
  by (simp add: transport_keys_def)

lemma clash_scheme_verify:
  assumes "clash_scheme yp ypr e m = Some m'"
  shows "yget m' ''skip-cert-verify'' = yget m ''skip-cert-verify''"
  using assms verify_key
  by (cases "pe_scheme e") (auto simp: clash_scheme_def clash_vless_def clash_vmess_def clash_trojan_def clash_ss_def
    clash_hysteria2_def clash_socks5_def clash_snell_def clash_anytls_def tls_block_def Let_def yget_copies yget_ss_plugin)

text \<open>The flag of a Clash item, and of the TLS block of a sing-box outbound.\<close>

definition clash_verify_flag :: "yaml option \<Rightarrow> yaml option" where
  "clash_verify_flag item = Option.bind (Option.bind item as_mapping) (\<lambda>m. yget m ''skip-cert-verify'')"

definition outbound_verify_flag :: "jmap option \<Rightarrow> json option" where
  "outbound_verify_flag item =
     Option.bind (Option.bind (Option.bind item (\<lambda>m. map_of m ''tls'')) as_object) (\<lambda>tls. map_of tls ''insecure'')"

lemma secure_clash:
  assumes "\<not> is_insecure (pe_params e)"
  shows "clash_verify_flag (entry_to_clash_named yp ypr e name) = None"
proof (cases "clash_scheme yp ypr e (yput ''port'' (YInt (int (unat (pe_port e))))
         (yput ''server'' (YString (pe_host e)) (yput ''name'' (YString name) [])))")
  case (Some m)
  from clash_scheme_verify [OF this] assms Some show ?thesis
    by (simp add: clash_verify_flag_def entry_to_clash_named_def)
qed (simp add: clash_verify_flag_def entry_to_clash_named_def)

lemma secure_tls:
  assumes "\<not> is_insecure (pe_params e)"
  shows "map_of (tls_common e) ''insecure'' = None"
    "Option.bind (Option.bind (tls_object yp ypr e en reality) as_object) (\<lambda>tls. map_of tls ''insecure'') = None"
  using assms by (simp_all add: tls_common_def tls_object_def Let_def)

lemma secure_outbound:
  assumes "\<not> is_insecure (pe_params e)"
  shows "outbound_verify_flag (entry_to_outbound_named yp ypr e tag) = None"
  using assms secure_tls [OF assms]
  by (cases "pe_scheme e") (auto simp: outbound_verify_flag_def entry_to_outbound_named_def singbox_vless_def singbox_vmess_def
      singbox_trojan_def singbox_ss_def singbox_plugin_def singbox_hysteria2_def singbox_socks5_def singbox_base_def
      put_rate_def minimal_tls_def Let_def split: option.split)

section \<open>The filter\<close>

text \<open>Any resolver will do: what it answers does not touch the parameters.\<close>

interpretation any_resolver: host_facts resolve "\<lambda>h a. \<exists>s. a = fst (resolve h s)" "\<lambda>s. True" for resolve
  by unfold_locales blast+

lemma served_params:
  assumes "c \<in> set (fst (apply_per_source is_match replace_all p resolve active cs s))"
    and "\<forall>rule \<in> set (cp_rename p). \<forall>k. cr_target rule \<noteq> TargetParam k"
  shows "\<exists>c0. passes is_match p c0 \<and> pe_params (c_entry c) = pe_params (c_entry c0)"
proof -
  obtain rows where rows: "fst (apply_per_source is_match replace_all p resolve active cs s) =
      map (\<lambda>(c, a, n). enriched p active (\<lambda>_. n) (Pipeline_Properties.renamed replace_all p (filled (\<lambda>_. a) c)))
        (filter (\<lambda>(c, a, n). passes is_match p (filled (\<lambda>_. a) c)) rows)"
    using any_resolver.per_source_rows [OF TrueI, where replace_all = replace_all and p = p and cs = cs and resolve = resolve and is_match = is_match and active = active and s = s] by blast
  from assms(1) obtain c1 a n where c1: "passes is_match p (filled (\<lambda>_. a) c1)"
    "c = enriched p active (\<lambda>_. n) (Pipeline_Properties.renamed replace_all p (filled (\<lambda>_. a) c1))" unfolding rows by auto
  have "pe_params (c_entry c) = pe_params (c_entry (filled (\<lambda>_. a) c1))"
    using params_kept [OF assms(2)] unfolding c1(2) by (auto simp: enriched_def Pipeline_Properties.renamed_def split: option.splits)
  with c1(1) show ?thesis by blast
qed

text \<open>
  C38: with \<open>forbid_insecure\<close> on and no rename rule that rewrites a parameter, no candidate a source gives
  carries \<open>insecure\<close>, \<open>allowInsecure\<close>, \<open>skip-cert-verify\<close> or \<open>allow_insecure\<close>, in any case, with the value 1, true, yes or on, in any
  case and with any blanks around it; neither its Clash item has a \<open>skip-cert-verify\<close> nor the TLS block of its
  sing-box outbound an \<open>insecure\<close>. This holds for any resolver and whatever it answers. It is about these
  switches as they are written: a percent-encoded value and the option of a Shadowsocks plugin pass the filter
  (\<open>encoded_switch_served\<close>, \<open>plugin_switch_served\<close>).
\<close>

theorem forbid_insecure_output:
  assumes "cp_forbid_insecure p" "\<forall>rule \<in> set (cp_rename p). \<forall>k. cr_target rule \<noteq> TargetParam k"
    and "c \<in> set (fst (apply_per_source is_match replace_all p resolve active cs s))"
  shows "\<not> list_ex (\<lambda>x. to_ascii_lowercase (p_key x) \<in> {''insecure'', ''allowinsecure'', ''skip-cert-verify'', ''allow_insecure''} \<and>
       to_ascii_lowercase (trim (p_value x)) \<in> {''1'', ''true'', ''yes'', ''on''}) (pe_params (c_entry c)) \<and>
     clash_verify_flag (entry_to_clash_named yp ypr (c_entry c) name) = None \<and>
     outbound_verify_flag (entry_to_outbound_named yp ypr (c_entry c) name) = None"
proof -
  obtain c0 where "passes is_match p c0" "pe_params (c_entry c) = pe_params (c_entry c0)"
    using served_params [OF assms(3,2)] by blast
  then have "\<not> is_insecure (pe_params (c_entry c))" using assms(1) by (simp add: passes_def is_insecure_def list_ex_iff)
  moreover have "is_insecure_param = (\<lambda>x. to_ascii_lowercase (p_key x) \<in> {''insecure'', ''allowinsecure'', ''skip-cert-verify'', ''allow_insecure''} \<and>
       to_ascii_lowercase (trim (p_value x)) \<in> {''1'', ''true'', ''yes'', ''on''})" by (simp add: fun_eq_iff insecure_spelled)
  ultimately show ?thesis using secure_clash secure_outbound by (simp add: is_insecure_def)
qed

definition switch_params :: "Param list" where
  "switch_params = [\<lparr>p_key = ''sni'', p_value = ''a.io'', p_known = True\<rparr>, \<lparr>p_key = ''allowInsecure'', p_value = ''0'', p_known = True\<rparr>]"

definition switched :: "string \<Rightarrow> Param list \<Rightarrow> Candidate" where
  "switched host ps = (sample_candidate host None)\<lparr>c_entry := (c_entry (sample_candidate host None))\<lparr>pe_scheme := Trojan, pe_params := ps\<rparr>\<rparr>"

abbreviation switch_off :: "Param list" where
  "switch_off \<equiv> [\<lparr>p_key = ''Allow_Insecure'', p_value = '' Yes'', p_known = False\<rparr>]"

lemma switch_words:
  "is_insecure_param \<lparr>p_key = ''Allow_Insecure'', p_value = '' Yes'', p_known = False\<rparr>"
  "\<not> list_ex is_insecure_param switch_params"
  unfolding switch_params_def by code_simp+

lemma switch_sample:
  "fst (apply_per_source (\<lambda>r s. r = s) (\<lambda>r s t. t) plain_pipeline (\<lambda>h s. (None, s)) False
     [switched ''a.io'' switch_params, switched ''b.io'' switch_off] ()) = [switched ''a.io'' switch_params]"
  using switch_words
  by (simp add: apply_per_source_def plain_pipeline_def default_pipeline_def switched_def sample_candidate_def fill_asn_def)

theorem forbid_insecure_output_witness:
  "\<exists>c. fst (apply_per_source (\<lambda>r s. r = s) (\<lambda>r s t. t) plain_pipeline (\<lambda>h s. (None, s)) False
     [switched ''a.io'' switch_params, switched ''b.io'' switch_off] ()) = [c] \<and>
   length (pe_params (c_entry c)) = 2 \<and> clash_verify_flag (entry_to_clash_named (\<lambda>_. None) (\<lambda>_. None) (c_entry c) ''n'') = None"
proof -
  have "clash_verify_flag (entry_to_clash_named (\<lambda>_. None) (\<lambda>_. None) (c_entry (switched ''a.io'' switch_params)) ''n'') = None"
    using forbid_insecure_output [where p = plain_pipeline and is_match = "\<lambda>r s. r = s" and replace_all = "\<lambda>r s t. t"
        and resolve = "\<lambda>h s. (None, s)" and active = False and s = "()"
        and cs = "[switched ''a.io'' switch_params, switched ''b.io'' switch_off]" and c = "switched ''a.io'' switch_params"
        and yp = "\<lambda>_. None" and ypr = "\<lambda>_. None" and name = "''n''"]
    unfolding switch_sample by (simp add: plain_pipeline_def default_pipeline_def)
  then show ?thesis unfolding switch_sample by (simp add: switched_def switch_params_def)
qed

section \<open>Around the filter\<close>

text \<open>
  A percent-encoded value passes the filter, which compares the text as it stands, and is printed as it stands
  in a URI list, where the client decodes it to 1.
\<close>

definition encoded_entry :: ProxyEntry where
  "encoded_entry = \<lparr>pe_scheme = Trojan, pe_name = ''n'', pe_host = ''h.io'', pe_port = 443, pe_credential = ''p'',
     pe_params = [\<lparr>p_key = ''allowInsecure'', p_value = ''%31'', p_known = True\<rparr>], pe_raw_path = [], pe_raw_line = []\<rparr>"

theorem encoded_switch_served:
  "\<not> is_insecure (pe_params encoded_entry) \<and> percent_decode ''%31'' = ''1'' \<and>
   serialize co encoded_entry = ''trojan://p@h.io:443?allowInsecure=%31#n''"
  by code_simp

text \<open>And the option of a Shadowsocks plugin that skips the verification is not looked at.\<close>

definition plugin_entry :: ProxyEntry where
  "plugin_entry = encoded_entry\<lparr>pe_scheme := Ss, pe_credential := ''aes-256-gcm:p'',
     pe_params := [\<lparr>p_key = ''plugin'', p_value = ''v2ray-plugin;tls;skipverify'', p_known = False\<rparr>]\<rparr>"

theorem plugin_switch_served:
  "\<not> is_insecure (pe_params plugin_entry) \<and>
   Option.bind (Option.bind (Option.bind (entry_to_clash_named (\<lambda>_. None) (\<lambda>_. None) plugin_entry ''n'') as_mapping)
     (\<lambda>m. Option.bind (yget m ''plugin-opts'') as_mapping)) (\<lambda>m. yget m ''skip-cert-verify'') = Some (YBool True)"
  by code_simp

end
