(* ===== verification/Spec2Isabelle.thy ===== *)
theory Spec2Isabelle
  imports Fingerprint Ssrf Host_Gate Security Lifecycle_Properties Pipeline_Properties Cache_Races
    Lines_Properties Input_Properties Singbox_Round_Trip Writer_Agreement Schedule Listener Probe_Claims
    Insecure_Output
begin

text \<open>
  \<^bold>\<open>fumox\<close> is a proxy aggregator in two processes over one SQLite database. The server (\<open>fumox-server\<close>)
  fetches subscription lists, parses and filters their lines, keeps the pool of proxies, and serves
  profiles: the rows of some sources, run through a pipeline and printed as one list. The probe
  (\<open>fumox-probe\<close>) checks the rows, first over the network (T1), then through a tunnel (T2), and moves
  each through a lifecycle. What both share is in \<open>fumox-core\<close>.

  \<^bold>\<open>Conventions.\<close> A Rust string is the list of its UTF-8 bytes; a fallible function is a sum with the
  error on the left, or an option; times and counters of the database are unbounded integers, ports and
  addresses words of their width. A library of the program is a parameter: SHA-256, base64, JSON and
  YAML text, regular expressions, the DNS resolver, the MaxMind readers, the clock. Definitions carry
  the names of the source.

  \<^bold>\<open>Theories.\<close>
  \<^item> \<open>Fumox_Prelude\<close>, \<open>Utf8\<close>, \<open>Json\<close>: the standard library as the source uses it (splitting, trimming,
    decimal and percent texts, UTF-8 decoding, results), JSON and YAML values, and the locale
    \<open>byte_escaper\<close> of the escaping printers.
  \<^item> \<open>Models\<close>, \<open>Fingerprint\<close>: \<open>models.rs\<close> and \<open>fingerprint.rs\<close>; the wire enums with their round trips
    (locale \<open>wire_vocabulary\<close>), entries, and the pre-image of deduplication, which is injective on what the
    program means to distinguish.
  \<^item> \<open>Net_Addr\<close>, \<open>Ssrf\<close>: \<open>ssrf.rs\<close>; parsing of addresses, the policy as a list of blocks, the vetting of a
    resolved host and the cap of its list.
  \<^item> \<open>Host_Gate\<close>, \<open>Security\<close>: \<open>host_gate.rs\<close>, \<open>security.rs\<close>; the \<open>Host\<close> allowlist, the client key behind
    proxies, secrets, and the rate limiter.
  \<^item> \<open>Db\<close>, \<open>Probe_Queue\<close>, \<open>Proxies\<close>, \<open>Lifecycle\<close>, \<open>Lifecycle_Safety\<close>, \<open>Lifecycle_Properties\<close>:
    \<open>repo/proxies.rs\<close> and \<open>repo/probe.rs\<close>; the tables as lists of rows with their constraints, every
    statement that writes them, the lanes the probe draws from and the transitions of a verdict. The
    step relation \<open>lane_step\<close> interleaves ingestion, the panel and the verdicts; the locales
    \<open>row_update\<close> and \<open>lane_update\<close> state what every column update keeps.
  \<^item> \<open>Geo\<close>, \<open>Pipeline\<close>, \<open>Pipeline_Properties\<close>, \<open>Insecure_Output\<close>: \<open>geo.rs\<close> and \<open>pipeline.rs\<close>; the cached
    resolver (locale \<open>host_facts\<close>, with \<open>host_geo\<close> for a resolver of fixed answers), the compilation of a
    configuration, the steps of one source and those after the merge, against a reference that filters,
    then rewrites; what \<open>forbid_insecure\<close> keeps out of the output, and what it lets through.
  \<^item> \<open>Uri\<close>, \<open>Uri_Properties\<close>, \<open>Yaml_Scan\<close>, \<open>Formats\<close>, \<open>Parsers\<close>, \<open>Lines\<close>, \<open>Lines_Properties\<close>:
    \<open>parsers/uri.rs\<close>, \<open>ss.rs\<close>, \<open>vmess.rs\<close>, \<open>mod.rs\<close> and \<open>formats/mod.rs\<close>; reading and printing of one
    line, the guard against YAML aliases, unique names.
  \<^item> \<open>Clash_Output\<close>, \<open>Singbox_Output\<close>, \<open>Clash_Input\<close>, \<open>Singbox_Input\<close>, \<open>Input_Properties\<close>,
    \<open>Singbox_Properties\<close>, \<open>Singbox_Round_Trip\<close>, \<open>Writer_Agreement\<close>: \<open>formats/clash.rs\<close>,
    \<open>formats/singbox.rs\<close>, \<open>parsers/clash.rs\<close>, \<open>parsers/singbox.rs\<close> and the dispatch of a payload; every
    reader caps what it stores and skips only what is bad, the sing-box reader inverts its writer, and the
    two writers part on TLS.
  \<^item> \<open>Caches\<close>, \<open>Cache_Safety\<close>, \<open>Cache_Claims\<close>: \<open>cache.rs\<close> and \<open>serve_cached\<close> of \<open>serve.rs\<close>
    as tasks whose steps end at each \<open>await\<close>; the stamp invariant of guarded puts, the claim registries
    (locale \<open>claim_registry\<close>) and the progress of waiters, for requests that run to their end.
  \<^item> \<open>Cache_Exports\<close>, \<open>Cache_Races\<close>: the same cache with \<open>cached_render\<close> of \<open>alive_export.rs\<close> beside those tasks,
    and with requests dropped at an \<open>await\<close> when their client leaves; one render per key, the claim that is
    lost with its request, and what a source change does to a render, order by order.
  \<^item> \<open>Catalog\<close>: \<open>repo/sources.rs\<close>, \<open>repo/profiles.rs\<close>, \<open>repo/fetch_log.rs\<close> and \<open>repo/mod.rs\<close>; the tables of
    sources, profiles, members and fetch attempts around those of \<open>Db\<close>, with keys, foreign keys and
    cascades as one invariant.
  \<^item> \<open>Fetcher\<close>: \<open>fetcher.rs\<close>; attempts, redirect hops, the vetting of each, the body cap and the error
    classes, over a network that is a parameter.
  \<^item> \<open>Engine\<close>, \<open>Ingest\<close>, \<open>Ingest_Properties\<close>, \<open>Schedule\<close>: \<open>ingest.rs\<close>, \<open>scheduler.rs\<close> and
    \<open>ProxyRow::to_entry\<close>; one pass from payload to tables, what a failed and a successful pass leave, the
    backoff of a failing source, and the marks and permits of concurrent passes (\<open>sched_step\<close>).
  \<^item> \<open>Render\<close>, \<open>Render_Properties\<close>, \<open>Listener\<close>: \<open>serve.rs\<close> and \<open>alive_export.rs\<close>; the gates of the public
    listener, the rendering of a profile and of a source from the tables, their texts and headers, the rate
    limit with its log registry, and the export links. What is served is traced back to the rows it
    stands for, and a text to the lines a client reads.
  \<^item> \<open>Probe_Checks\<close>, \<open>Probe_Loop\<close>, \<open>Probe_Properties\<close>, \<open>Probe_Engine\<close>, \<open>Probe_Claims\<close>: \<open>t1.rs\<close>, \<open>meow.rs\<close>,
    \<open>clash.rs\<close> and \<open>main.rs\<close> of \<open>fumox-probe\<close>; one check of a host, the client of the tunnel engine and the file
    it is given, then the cycle with its five passes, the guard of a tunnel batch, the backoff and the
    retention. What the outside answers during a pass is the record \<open>World\<close>; the tasks of a tunnel batch
    interleave as the events of its list, those of the other passes run in the order of \<open>w_rank\<close>. The locale
    \<open>row_ops\<close> states what a pass over rows costs each of them; it is interpreted for all seven of them. A
    cycle charges a row once, an outage charges nobody, a dead engine is left alone, and neither the probe
    nor its engine connects to an address the policy blocks.

  \<^bold>\<open>How the parts meet.\<close> A sweep picks the sources that are due (\<open>Schedule\<close>) and fetches each
  (\<open>Fetcher\<close>, which vets every hop by \<open>Ssrf\<close>); an ingested line becomes an entry (\<open>Lines\<close>), is dropped or
  kept (\<open>Pipeline\<close>), gets its identity (\<open>Fingerprint\<close>) and enters the pool (\<open>Proxies\<close>, \<open>Ingest\<close>); the probe draws its
  row, vets its host (\<open>Ssrf\<close>), checks it (\<open>Probe_Checks\<close>) and moves the row (\<open>Probe_Loop\<close>, \<open>Lifecycle\<close>); a request passes \<open>Host_Gate\<close> and \<open>Security\<close>, is answered from the
  cache (\<open>Caches\<close>) or rendered from the tables (\<open>Render\<close>) by the pipeline and printed line by line
  (\<open>Lines\<close>).

  \<^bold>\<open>Bounds.\<close> Every function terminates by its own recursion; no fuel is used. The interleavings are
  lists of events of any length. The \<open>u64\<close> generation of a cache key is an unbounded number. A cache of the
  library that has a capacity may lose entries at any time: an event of the runs for the rendered texts,
  their generations, the geo verdicts and, above 100000 keys, the counters of the rate limiter.

  \<^bold>\<open>Not modelled.\<close> Process start, logging, HTML, network transfers and SQLite itself; failures of the
  database other than constraint violations; the configuration file; the timers of the scheduler and of the
  probe; a file of the tunnel engine whose writing breaks off in the middle; the panel's sessions.
\<close>

end
